(* ===== verification/Prelude.thy ===== *)
theory Prelude
  imports Complex_Main "HOL-Library.Multiset" "HOL-Library.Char_ord" "HOL-Library.List_Lexorder" "HOL-Library.Product_Lexorder"
begin

text \<open>
  The part of the JavaScript language and standard library that the controller uses, and the
  lemmas the component theories share: results with errors, the state-and-error monad for the
  asynchronous operations, string operations on code units (a string is a list of 8-bit
  characters here), timestamps as Date.parse reads them, and array helpers.
\<close>

named_theorems run_simps "evaluation of the state-and-error monad"
named_theorems js_simps "evaluation of the string and array operations"

section \<open>Errors and results\<close>

text \<open>
  The error values of the controller. Err is a plain Error with its message; the others are the
  error classes that the code tells apart, with the fields it reads. FileMissing, FileExists and FileLoop are
  file-system errors with the codes ENOENT, EEXIST and ELOOP.
\<close>

datatype err =
    Err string
  | AttemptError (ae_code: string) (ae_message: string) (ae_retryable: bool)
  | ProviderHttpError (he_transient: bool) (he_status: "int option")
  | HarnessProcessError (hp_retryable: bool)
  | HarnessTerminationError
  | HarnessPreflightError
  | ApmPreflightError
  | InvalidDecisionError string
  | DecisionEvidenceUnavailableError string
  | DecisionReadbackError
  | DecisionTrustError string
  | FileMissing
  | FileExists
  | FileLoop

type_synonym 'a res = "err + 'a"

definition fail :: "string \<Rightarrow> 'a res" where
  "fail m = Inl (Err m)"

definition ok :: "'a \<Rightarrow> 'a res" where
  "ok x = Inr x"

definition bindR :: "'a res \<Rightarrow> ('a \<Rightarrow> 'b res) \<Rightarrow> 'b res" where
  "bindR r f = (case r of Inl e \<Rightarrow> Inl e | Inr x \<Rightarrow> f x)"

definition checkR :: "bool \<Rightarrow> string \<Rightarrow> unit res" where
  "checkR b m = (if b then fail m else ok ())"

lemma bindR_simps [simp]:
  "bindR (Inl e) f = Inl e" "bindR (Inr x) f = f x"
  "bindR (ok x) f = f x" "bindR (fail m) f = fail m"
  by (simp_all add: bindR_def ok_def fail_def)

lemma ok_fail_iff [simp]:
  "ok x = ok y \<longleftrightarrow> x = y" "fail m = fail n \<longleftrightarrow> m = n"
  "ok x \<noteq> fail m" "fail m \<noteq> ok x" "Inr x = ok y \<longleftrightarrow> x = y" "ok y = Inr x \<longleftrightarrow> x = y"
  "Inl e \<noteq> ok y" "ok y \<noteq> Inl e" "Inl e = fail m \<longleftrightarrow> e = Err m" "fail m = Inl e \<longleftrightarrow> e = Err m"
  "Inr x \<noteq> fail m" "fail m \<noteq> Inr x"
  by (auto simp: ok_def fail_def)

lemma bindR_ok_iff [simp]: "bindR r f = ok y \<longleftrightarrow> (\<exists>x. r = ok x \<and> f x = ok y)"
  by (cases r) (auto simp: bindR_def ok_def)

lemma bindR_Inr_iff: "bindR r f = Inr y \<longleftrightarrow> (\<exists>x. r = Inr x \<and> f x = Inr y)"
  by (cases r) (auto simp: bindR_def)

lemma checkR_ok_iff [simp]: "checkR b m = ok u \<longleftrightarrow> \<not> b"
  by (simp add: checkR_def)

lemma checkR_simps [simp]: "checkR True m = fail m" "checkR False m = ok ()"
  by (simp_all add: checkR_def)

definition is_ok :: "'a res \<Rightarrow> bool" where
  "is_ok r = (case r of Inl _ \<Rightarrow> False | Inr _ \<Rightarrow> True)"

lemma is_ok_simps [simp]: "is_ok (Inl e) = False" "is_ok (Inr x) = True"
  "is_ok (ok x) = True" "is_ok (fail m) = False"
  by (simp_all add: is_ok_def ok_def fail_def)

lemma is_ok_iff: "is_ok r \<longleftrightarrow> (\<exists>x. r = ok x)"
  by (cases r) (auto simp: ok_def)

fun mapR :: "('a \<Rightarrow> 'b res) \<Rightarrow> 'a list \<Rightarrow> 'b list res" where
  "mapR f [] = ok []"
| "mapR f (x # xs) = bindR (f x) (\<lambda>y. bindR (mapR f xs) (\<lambda>ys. ok (y # ys)))"

lemma mapR_ok_length: "mapR f xs = ok ys \<Longrightarrow> length ys = length xs"
  by (induction xs arbitrary: ys) auto

lemma mapR_ok_all2: "mapR f xs = ok ys \<longleftrightarrow> list_all2 (\<lambda>x y. f x = ok y) xs ys"
proof (induction xs arbitrary: ys)
  case (Cons x xs)
  then show ?case by (cases ys) auto
qed auto

fun forR :: "('a \<Rightarrow> unit res) \<Rightarrow> 'a list \<Rightarrow> unit res" where
  "forR f [] = ok ()"
| "forR f (x # xs) = bindR (f x) (\<lambda>_. forR f xs)"

lemma forR_ok_iff: "forR f xs = ok u \<longleftrightarrow> (\<forall>x \<in> set xs. f x = ok ())"
  by (induction xs) auto

section \<open>State and errors\<close>

text \<open>
  An awaited operation: it reads and changes the world and either returns a value or throws.
  The effects made before a throw stay, as they do in the program.
\<close>

type_synonym ('s, 'a) io = "'s \<Rightarrow> 'a res \<times> 's"

definition retM :: "'a \<Rightarrow> ('s, 'a) io" where
  "retM x s = (ok x, s)"

definition throwM :: "err \<Rightarrow> ('s, 'a) io" where
  "throwM e s = (Inl e, s)"

definition failM :: "string \<Rightarrow> ('s, 'a) io" where
  "failM m s = (fail m, s)"

definition bindM :: "('s, 'a) io \<Rightarrow> ('a \<Rightarrow> ('s, 'b) io) \<Rightarrow> ('s, 'b) io" where
  "bindM m f s = (case m s of (r, s') \<Rightarrow> (case r of Inl e \<Rightarrow> (Inl e, s') | Inr x \<Rightarrow> f x s'))"

definition thenM :: "('s, 'a) io \<Rightarrow> ('s, 'b) io \<Rightarrow> ('s, 'b) io" where
  "thenM m n = bindM m (\<lambda>_. n)"

definition tryM :: "('s, 'a) io \<Rightarrow> (err \<Rightarrow> ('s, 'a) io) \<Rightarrow> ('s, 'a) io" where
  "tryM m h s = (case m s of (r, s') \<Rightarrow> (case r of Inl e \<Rightarrow> h e s' | Inr x \<Rightarrow> (Inr x, s')))"

definition liftR :: "'a res \<Rightarrow> ('s, 'a) io" where
  "liftR r s = (r, s)"

definition whenM :: "bool \<Rightarrow> ('s, unit) io \<Rightarrow> ('s, unit) io" where
  "whenM b m = (if b then m else retM ())"

definition checkM :: "bool \<Rightarrow> string \<Rightarrow> ('s, unit) io" where
  "checkM b m = (if b then failM m else retM ())"

definition getM :: "('s \<Rightarrow> 'a) \<Rightarrow> ('s, 'a) io" where
  "getM f s = (ok (f s), s)"

text \<open>A failed operation whose error is replaced by a message of the caller's.\<close>

definition callM :: "string \<Rightarrow> ('s, 'a) io \<Rightarrow> ('s, 'a) io" where
  "callM m op = tryM op (\<lambda>_. failM m)"

fun forM :: "('a \<Rightarrow> ('s, unit) io) \<Rightarrow> 'a list \<Rightarrow> ('s, unit) io" where
  "forM f [] = retM ()"
| "forM f (x # xs) = thenM (f x) (forM f xs)"

fun mapM :: "('a \<Rightarrow> ('s, 'b) io) \<Rightarrow> 'a list \<Rightarrow> ('s, 'b list) io" where
  "mapM f [] = retM []"
| "mapM f (x # xs) = bindM (f x) (\<lambda>y. bindM (mapM f xs) (\<lambda>ys. retM (y # ys)))"

lemma run_ret [run_simps]: "retM x s = (ok x, s)" by (simp add: retM_def)
lemma run_throw [run_simps]: "throwM e s = (Inl e, s)" by (simp add: throwM_def)
lemma run_fail [run_simps]: "failM m s = (fail m, s)" by (simp add: failM_def)
lemma run_lift [run_simps]: "liftR r s = (r, s)" by (simp add: liftR_def)
lemma run_when [run_simps]: "whenM b m s = (if b then m s else (ok (), s))"
  by (simp add: whenM_def retM_def)
lemma run_check [run_simps]: "checkM b m s = (if b then (fail m, s) else (ok (), s))"
  by (simp add: checkM_def retM_def failM_def)

lemma bindM_ret [simp]: "bindM (retM x) f = f x"
  by (rule ext) (simp add: bindM_def retM_def ok_def)
lemma bindM_fail [simp]: "bindM (failM m) f = failM m"
  by (rule ext) (simp add: bindM_def failM_def fail_def)
lemma bindM_throw [simp]: "bindM (throwM e) f = throwM e"
  by (rule ext) (simp add: bindM_def throwM_def)
lemma thenM_ret [simp]: "thenM (retM x) m = m" by (simp add: thenM_def)
lemma thenM_fail [simp]: "thenM (failM e) m = failM e" by (simp add: thenM_def)
lemma checkM_simps [simp]: "checkM True m = failM m" "checkM False m = retM ()"
  by (simp_all add: checkM_def)
lemma whenM_simps [simp]: "whenM True m = m" "whenM False m = retM ()"
  by (simp_all add: whenM_def)

lemma bindM_assoc: "bindM (bindM m f) g = bindM m (\<lambda>x. bindM (f x) g)"
  by (rule ext) (simp add: bindM_def split: prod.splits sum.splits)

lemma bindM_ok_iff:
  "bindM m f s = (ok y, s'') \<longleftrightarrow> (\<exists>x s'. m s = (ok x, s') \<and> f x s' = (ok y, s''))"
  by (auto simp: bindM_def ok_def split: prod.splits sum.splits)

lemma bindM_Inr_iff:
  "bindM m f s = (Inr y, s'') \<longleftrightarrow> (\<exists>x s'. m s = (Inr x, s') \<and> f x s' = (Inr y, s''))"
  by (auto simp: bindM_def split: prod.splits sum.splits)

lemma thenM_ok_iff:
  "thenM m n s = (ok y, s'') \<longleftrightarrow> (\<exists>x s'. m s = (ok x, s') \<and> n s' = (ok y, s''))"
  by (simp add: thenM_def bindM_ok_iff)

lemma bindM_step [run_simps]:
  "m s = (r, s') \<Longrightarrow> bindM m f s = (case r of Inl e \<Rightarrow> (Inl e, s') | Inr x \<Rightarrow> f x s')"
  by (simp add: bindM_def)

lemma checkM_bind_ok: "bindM (checkM b m) f s = (ok y, s') \<longleftrightarrow> \<not> b \<and> f () s = (ok y, s')"
  by (simp add: checkM_def bindM_def retM_def failM_def ok_def fail_def)

text \<open>When an operation returns, and when it throws.\<close>

named_theorems run_iff "a composed operation returns or throws exactly when its parts do"

lemma bindM_Inl_iff:
  "bindM m f s = (Inl e, s'') \<longleftrightarrow>
     m s = (Inl e, s'') \<or> (\<exists>x s'. m s = (Inr x, s') \<and> f x s' = (Inl e, s''))"
  by (auto simp: bindM_def split: prod.splits sum.splits)

lemma thenM_Inr_iff:
  "thenM m n s = (Inr y, s'') \<longleftrightarrow> (\<exists>x s'. m s = (Inr x, s') \<and> n s' = (Inr y, s''))"
  by (simp add: thenM_def bindM_Inr_iff)

lemma thenM_Inl_iff:
  "thenM m n s = (Inl e, s'') \<longleftrightarrow>
     m s = (Inl e, s'') \<or> (\<exists>x s'. m s = (Inr x, s') \<and> n s' = (Inl e, s''))"
  by (simp add: thenM_def bindM_Inl_iff)

lemma ret_iff [run_iff]: "retM x s = (Inr y, s') \<longleftrightarrow> y = x \<and> s' = s" "retM x s \<noteq> (Inl e, s')"
  by (auto simp: retM_def ok_def)
lemma fail_iff [run_iff]: "failM m s \<noteq> (Inr y, s')" "failM m s = (Inl e, s') \<longleftrightarrow> e = Err m \<and> s' = s"
  by (auto simp: failM_def fail_def)
lemma throw_iff [run_iff]: "throwM x s \<noteq> (Inr y, s')" "throwM x s = (Inl e, s') \<longleftrightarrow> e = x \<and> s' = s"
  by (auto simp: throwM_def)
lemma lift_iff [run_iff]: "liftR r s = (x, s') \<longleftrightarrow> r = x \<and> s' = s"
  by (auto simp: liftR_def)
lemma check_iff [run_iff]:
  "checkM b m s = (Inr u, s') \<longleftrightarrow> \<not> b \<and> s' = s"
  "checkM b m s = (Inl e, s') \<longleftrightarrow> b \<and> e = Err m \<and> s' = s"
  by (auto simp: checkM_def retM_def failM_def ok_def fail_def)
lemma when_iff [run_iff]:
  "whenM b m s = (Inr u, s') \<longleftrightarrow> (if b then m s = (Inr u, s') else s' = s)"
  "whenM b m s = (Inl e, s') \<longleftrightarrow> b \<and> m s = (Inl e, s')"
  by (auto simp: whenM_def retM_def ok_def)

lemma get_iff [run_iff]: "getM f s = (Inr y, s') \<longleftrightarrow> y = f s \<and> s' = s" "getM f s \<noteq> (Inl e, s')"
  by (auto simp: getM_def ok_def)
lemma call_iff [run_iff]:
  "callM m op s = (Inr y, s') \<longleftrightarrow> op s = (Inr y, s')"
  "callM m op s = (Inl e, s') \<longleftrightarrow> (\<exists>x. op s = (Inl x, s')) \<and> e = Err m"
  by (auto simp: callM_def tryM_def failM_def fail_def split: prod.splits sum.splits)

lemmas seq_iff [run_iff] = bindM_Inr_iff bindM_Inl_iff thenM_Inr_iff thenM_Inl_iff

text \<open>An operation that leaves every world satisfying an invariant in one that does.\<close>

definition keepsM :: "('s \<Rightarrow> bool) \<Rightarrow> ('s, 'a) io \<Rightarrow> bool" where
  "keepsM I m \<longleftrightarrow> (\<forall>s. I s \<longrightarrow> I (snd (m s)))"

lemma keepsM_ret [intro]: "keepsM I (retM x)" by (simp add: keepsM_def retM_def)
lemma keepsM_fail [intro]: "keepsM I (failM x)" by (simp add: keepsM_def failM_def)
lemma keepsM_throw [intro]: "keepsM I (throwM x)" by (simp add: keepsM_def throwM_def)
lemma keepsM_lift [intro]: "keepsM I (liftR x)" by (simp add: keepsM_def liftR_def)
lemma keepsM_check [intro]: "keepsM I (checkM b x)" by (simp add: checkM_def keepsM_ret keepsM_fail)
lemma keepsM_bind [intro]: "keepsM I m \<Longrightarrow> (\<And>x. keepsM I (f x)) \<Longrightarrow> keepsM I (bindM m f)"
  unfolding keepsM_def bindM_def by (fastforce split: prod.splits sum.splits)
lemma keepsM_then [intro]: "keepsM I m \<Longrightarrow> keepsM I n \<Longrightarrow> keepsM I (thenM m n)"
  by (auto simp: thenM_def)
lemma keepsM_when [intro]: "keepsM I m \<Longrightarrow> keepsM I (whenM b m)"
  by (simp add: whenM_def keepsM_ret)
lemma keepsM_try [intro]: "keepsM I m \<Longrightarrow> (\<And>e. keepsM I (h e)) \<Longrightarrow> keepsM I (tryM m h)"
  unfolding keepsM_def tryM_def by (fastforce split: prod.splits sum.splits)
lemma keepsM_get [intro]: "keepsM I (getM f)" by (simp add: keepsM_def getM_def)
lemma keepsM_call [intro]: "keepsM I m \<Longrightarrow> keepsM I (callM x m)"
  by (simp add: callM_def keepsM_try keepsM_fail)
lemma keepsM_for [intro]: "(\<And>x. keepsM I (f x)) \<Longrightarrow> keepsM I (forM f xs)"
  by (induction xs) auto
lemma keepsM_map [intro]: "(\<And>x. keepsM I (f x)) \<Longrightarrow> keepsM I (mapM f xs)"
  by (induction xs) auto
lemma keepsM_if [intro]: "keepsM I m \<Longrightarrow> keepsM I n \<Longrightarrow> keepsM I (if b then m else n)"
  by simp
lemma keepsM_opt [intro]:
  "keepsM I m \<Longrightarrow> (\<And>x. keepsM I (f x)) \<Longrightarrow> keepsM I (case o' of None \<Rightarrow> m | Some x \<Rightarrow> f x)"
  by (cases o') auto

section \<open>What an operation throws and returns\<close>

definition throwsM :: "err set \<Rightarrow> ('s, 'a) io \<Rightarrow> bool" where
  "throwsM E m \<longleftrightarrow> (\<forall>s e s'. m s = (Inl e, s') \<longrightarrow> e \<in> E)"

named_theorems throws "the errors of a composed operation are those of its parts"

lemma throws_ret [throws]: "throwsM E (retM x)"
  by (simp add: throwsM_def run_iff)
lemma throws_fail [throws]: "Err m \<in> E \<Longrightarrow> throwsM E (failM m)"
  by (simp add: throwsM_def run_iff)
lemma throws_lift: "(\<And>e. r = Inl e \<Longrightarrow> e \<in> E) \<Longrightarrow> throwsM E (liftR r)"
  by (auto simp: throwsM_def run_iff)
lemma throws_bind [throws]: "throwsM E m \<Longrightarrow> (\<And>x. throwsM E (f x)) \<Longrightarrow> throwsM E (bindM m f)"
  unfolding throwsM_def run_iff by blast
lemma throws_call [throws]: "Err m \<in> E \<Longrightarrow> throwsM E (callM m op)"
  by (auto simp: throwsM_def run_iff)
lemma throws_if [throws]: "(b \<Longrightarrow> throwsM E m) \<Longrightarrow> (\<not> b \<Longrightarrow> throwsM E n) \<Longrightarrow> throwsM E (if b then m else n)"
  by simp
lemma throws_option [throws]:
  "throwsM E m \<Longrightarrow> (\<And>x. throwsM E (f x)) \<Longrightarrow> throwsM E (case v of None \<Rightarrow> m | Some x \<Rightarrow> f x)"
  by (cases v) auto
lemma throws_list [throws]:
  "throwsM E m \<Longrightarrow> (\<And>x xs. throwsM E (f x xs)) \<Longrightarrow> throwsM E (case v of [] \<Rightarrow> m | x # xs \<Rightarrow> f x xs)"
  by (cases v) auto
lemma throws_prod [throws]: "(\<And>x y. throwsM E (f x y)) \<Longrightarrow> throwsM E (case v of (x, y) \<Rightarrow> f x y)"
  by (cases v) auto
lemma throws_sum [throws]:
  "(\<And>x. throwsM E (f x)) \<Longrightarrow> (\<And>y. throwsM E (g y)) \<Longrightarrow> throwsM E (case v of Inl x \<Rightarrow> f x | Inr y \<Rightarrow> g y)"
  by (cases v) auto
lemma throws_let [throws]: "throwsM E (f v) \<Longrightarrow> throwsM E (let x = v in f x)" by simp

definition returnsM :: "('a \<Rightarrow> bool) \<Rightarrow> ('s, 'a) io \<Rightarrow> bool" where
  "returnsM Q m \<longleftrightarrow> (\<forall>s x s'. m s = (Inr x, s') \<longrightarrow> Q x)"

named_theorems returns "the results of a composed operation are those of its last part"

lemma returns_ret [returns]: "Q x \<Longrightarrow> returnsM Q (retM x)"
  by (simp add: returnsM_def run_iff)
lemma returns_failM [returns]: "returnsM Q (failM m)"
  by (simp add: returnsM_def run_iff)
lemma returns_bind: "returnsM R m \<Longrightarrow> (\<And>x. R x \<Longrightarrow> returnsM Q (f x)) \<Longrightarrow> returnsM Q (bindM m f)"
  unfolding returnsM_def run_iff by blast
lemma returns_last [returns]: "(\<And>x. returnsM Q (f x)) \<Longrightarrow> returnsM Q (bindM m f)"
  unfolding returnsM_def run_iff by blast
lemma returns_if [returns]: "(b \<Longrightarrow> returnsM Q m) \<Longrightarrow> (\<not> b \<Longrightarrow> returnsM Q n) \<Longrightarrow> returnsM Q (if b then m else n)"
  by simp
lemma returns_option [returns]:
  "(v = None \<Longrightarrow> returnsM Q m) \<Longrightarrow> (\<And>x. v = Some x \<Longrightarrow> returnsM Q (f x)) \<Longrightarrow> returnsM Q (case v of None \<Rightarrow> m | Some x \<Rightarrow> f x)"
  by (cases v) auto
lemma returns_list [returns]:
  "(v = [] \<Longrightarrow> returnsM Q m) \<Longrightarrow> (\<And>x xs. v = x # xs \<Longrightarrow> returnsM Q (f x xs)) \<Longrightarrow> returnsM Q (case v of [] \<Rightarrow> m | x # xs \<Rightarrow> f x xs)"
  by (cases v) auto
lemma returns_prod [returns]: "(\<And>x y. v = (x, y) \<Longrightarrow> returnsM Q (f x y)) \<Longrightarrow> returnsM Q (case v of (x, y) \<Rightarrow> f x y)"
  by (cases v) auto
lemma returns_prod_app [returns]:
  "(\<And>x y. v = (x, y) \<Longrightarrow> returnsM Q (f x y z)) \<Longrightarrow> returnsM Q ((case v of (x, y) \<Rightarrow> f x y) z)"
  by (cases v) auto
lemma returnsD: "returnsM Q m \<Longrightarrow> m s = (Inr x, s') \<Longrightarrow> Q x"
  unfolding returnsM_def by blast
lemma returns_let [returns]: "returnsM Q (f v) \<Longrightarrow> returnsM Q (let x = v in f x)" by simp
lemma returns_mono: "returnsM R m \<Longrightarrow> (\<And>x. R x \<Longrightarrow> Q x) \<Longrightarrow> returnsM Q m"
  unfolding returnsM_def by blast

end
