(* ===== verification/Js.thy ===== *)
theory Js
  imports Prelude
begin

text \<open>
  String and array operations of the JavaScript standard library, as the controller uses them:
  startsWith, includes, trim, slice, split at line breaks, decimal numbers, Date.parse on the
  date-time format of the standard, and a few regular-expression character classes. Characters
  are code units below 256. Comparison of strings is the lexicographic order on code units.
\<close>

section \<open>Character classes\<close>

definition is_ws :: "char \<Rightarrow> bool" where
  "is_ws c \<longleftrightarrow> c \<in> set [CHR 0x09, CHR 0x0A, CHR 0x0B, CHR 0x0C, CHR 0x0D, CHR '' '', CHR 0xA0]"

definition is_digit :: "char \<Rightarrow> bool" where
  "is_digit c \<longleftrightarrow> c \<in> set ''0123456789''"

definition is_hex :: "char \<Rightarrow> bool" where
  "is_hex c \<longleftrightarrow> c \<in> set ''0123456789abcdef''"

definition code :: "char \<Rightarrow> nat" where
  "code c = of_char c"

definition is_lower :: "char \<Rightarrow> bool" where
  "is_lower c \<longleftrightarrow> 97 \<le> code c \<and> code c \<le> 122"

definition is_upper :: "char \<Rightarrow> bool" where
  "is_upper c \<longleftrightarrow> 65 \<le> code c \<and> code c \<le> 90"

definition is_alnum :: "char \<Rightarrow> bool" where
  "is_alnum c \<longleftrightarrow> is_lower c \<or> is_upper c \<or> is_digit c"

lemma is_digit_not_ws: "is_digit c \<Longrightarrow> \<not> is_ws c"
  by (auto simp: is_digit_def is_ws_def)

lemma is_hex_not_ws: "is_hex c \<Longrightarrow> \<not> is_ws c"
  by (auto simp: is_hex_def is_ws_def)

section \<open>Strings\<close>

definition starts_with :: "string \<Rightarrow> string \<Rightarrow> bool" where
  "starts_with s p \<longleftrightarrow> take (length p) s = p"

definition ends_with :: "string \<Rightarrow> string \<Rightarrow> bool" where
  "ends_with s p \<longleftrightarrow> starts_with (rev s) (rev p)"

fun includes_str :: "string \<Rightarrow> string \<Rightarrow> bool" where
  "includes_str [] p = (p = [])"
| "includes_str (c # s) p = (starts_with (c # s) p \<or> includes_str s p)"

fun count_str :: "string \<Rightarrow> string \<Rightarrow> nat" where
  "count_str p [] = 0"
| "count_str p (c # s) = (if starts_with (c # s) p then 1 else 0) + count_str p s"

definition trim_start :: "string \<Rightarrow> string" where
  "trim_start s = dropWhile is_ws s"

definition trim_end :: "string \<Rightarrow> string" where
  "trim_end s = rev (dropWhile is_ws (rev s))"

definition trim_str :: "string \<Rightarrow> string" where
  "trim_str s = trim_end (trim_start s)"

lemma starts_with_iff: "starts_with s p \<longleftrightarrow> (\<exists>t. s = p @ t)"
  unfolding starts_with_def by (metis append_eq_conv_conj append_take_drop_id)

lemma starts_with_app [simp]: "starts_with (p @ t) p"
  by (simp add: starts_with_def)

lemma starts_with_Nil [simp]: "starts_with s []" "starts_with [] p \<longleftrightarrow> p = []"
  by (auto simp: starts_with_def)

lemma starts_with_Cons [simp]: "starts_with (c # s) (d # p) \<longleftrightarrow> c = d \<and> starts_with s p"
  by (auto simp: starts_with_def)

lemma includes_str_iff: "includes_str s p \<longleftrightarrow> (\<exists>a b. s = a @ p @ b)"
proof (induction s)
  case Nil
  then show ?case by auto
next
  case (Cons c s)
  have "(\<exists>a b. c # s = a @ p @ b) \<longleftrightarrow> (\<exists>b. c # s = p @ b) \<or> (\<exists>a b. s = a @ p @ b)"
    by (metis append_Cons append_Nil neq_Nil_conv list.inject)
  then show ?case using Cons by (simp add: starts_with_iff)
qed

lemma starts_with_len: "starts_with s p \<Longrightarrow> length p \<le> length s"
  by (auto simp: starts_with_iff)

text \<open>The lines of body.split(/\\r?\\n/).\<close>

fun lines_of :: "string \<Rightarrow> string list" where
  "lines_of [] = [[]]"
| "lines_of (c # cs) =
    (if c = CHR 0x0A then [] # lines_of cs
     else if c = CHR 0x0D \<and> cs \<noteq> [] \<and> hd cs = CHR 0x0A then [] # lines_of (tl cs)
     else (case lines_of cs of [] \<Rightarrow> [[c]] | l # ls \<Rightarrow> (c # l) # ls))"

lemma lines_of_ne [simp]: "lines_of s \<noteq> []"
  by (induction s rule: lines_of.induct) (auto split: list.splits)

definition no_nl :: "string \<Rightarrow> bool" where
  "no_nl s \<longleftrightarrow> CHR 0x0A \<notin> set s"

lemma lines_of_single: "no_nl s \<Longrightarrow> lines_of s = [s]"
proof (induction s)
  case (Cons c s)
  then show ?case by (cases s) (auto simp: no_nl_def)
qed simp

lemma lines_of_append_nl:
  "no_nl s \<Longrightarrow> (s = [] \<or> last s \<noteq> CHR 0x0D) \<Longrightarrow> lines_of (s @ CHR 0x0A # t) = s # lines_of t"
proof (induction s)
  case (Cons c s)
  then show ?case by (cases s) (auto simp: no_nl_def)
qed simp

lemma lines_of_crlf: "no_nl s \<Longrightarrow> lines_of (s @ CHR 0x0D # CHR 0x0A # t) = s # lines_of t"
proof (induction s)
  case (Cons c s)
  then show ?case by (cases s) (auto simp: no_nl_def)
qed simp

fun split_char :: "char \<Rightarrow> string \<Rightarrow> string list" where
  "split_char d [] = [[]]"
| "split_char d (c # cs) = (if c = d then [] # split_char d cs
     else (case split_char d cs of [] \<Rightarrow> [[c]] | l # ls \<Rightarrow> (c # l) # ls))"

text \<open>The words of body.trim().split(/\\s+/).\<close>

fun words_acc :: "string \<Rightarrow> string \<Rightarrow> string list" where
  "words_acc acc [] = (if acc = [] then [] else [rev acc])"
| "words_acc acc (c # cs) =
    (if is_ws c then (if acc = [] then words_acc [] cs else rev acc # words_acc [] cs)
     else words_acc (c # acc) cs)"

definition words_of :: "string \<Rightarrow> string list" where
  "words_of s = words_acc [] s"

definition join_with :: "string \<Rightarrow> string list \<Rightarrow> string" where
  "join_with sep xs = (case xs of [] \<Rightarrow> [] | y # ys \<Rightarrow> y @ concat (map (\<lambda>z. sep @ z) ys))"

lemma join_with_Cons: "ls \<noteq> [] \<Longrightarrow> join_with sep (l # ls) = l @ sep @ join_with sep ls"
  by (cases ls) (auto simp: join_with_def)

lemma join_with_single [simp]: "join_with sep [l] = l"
  by (simp add: join_with_def)

definition text_line :: "string \<Rightarrow> bool" where
  "text_line l \<longleftrightarrow> no_nl l \<and> (l = [] \<or> last l \<noteq> CHR 0x0D)"

lemma lines_of_join:
  "ls \<noteq> [] \<Longrightarrow> list_all text_line ls \<Longrightarrow> lines_of (join_with [CHR 0x0A] ls) = ls"
proof (induction ls)
  case (Cons l ls)
  then show ?case
    by (cases "ls = []")
      (auto simp: join_with_Cons lines_of_append_nl lines_of_single text_line_def)
qed simp

section \<open>Searching in strings\<close>

lemma includes_str_mono: "includes_str s (p @ q) \<Longrightarrow> includes_str s p"
  by (auto simp: includes_str_iff)

lemma includes_str_sub: "includes_str s p \<Longrightarrow> includes_str (a @ s @ b) p"
  unfolding includes_str_iff by (metis append.assoc)

lemma count_str_absent: "p \<noteq> [] \<Longrightarrow> \<not> includes_str s p \<Longrightarrow> count_str p s = 0"
  by (induction s) auto

lemma absent_char: "c \<notin> set s \<Longrightarrow> \<not> includes_str s (c # p)"
  by (auto simp: includes_str_iff)

lemma includes_str_head:
  "c \<notin> set s \<Longrightarrow> includes_str (c # s) (c # p) \<longleftrightarrow> starts_with s p"
  by (simp add: absent_char)

lemma count_str_head:
  "c \<notin> set s \<Longrightarrow> count_str (c # p) (c # s) = (if starts_with s p then 1 else 0)"
  by (simp add: absent_char count_str_absent)

lemma trim_end_prefix: "\<exists>b. s = trim_end s @ b"
  unfolding trim_end_def by (metis rev_append rev_rev_ident takeWhile_dropWhile_id)

lemma trim_start_suffix: "\<exists>a. s = a @ trim_start s"
  unfolding trim_start_def by (metis takeWhile_dropWhile_id)

lemma trim_includes: "includes_str (trim_end (trim_start s)) p \<Longrightarrow> includes_str s p"
  by (metis includes_str_sub trim_end_prefix trim_start_suffix)

lemma trim_start_id: "s = [] \<or> \<not> is_ws (hd s) \<Longrightarrow> trim_start s = s"
  by (cases s) (auto simp: trim_start_def)

lemma trim_end_id: "s = [] \<or> \<not> is_ws (last s) \<Longrightarrow> trim_end s = s"
  by (cases s rule: rev_cases) (auto simp: trim_end_def)

section \<open>Numbers\<close>

definition max_safe :: int where
  "max_safe = 9007199254740991"

definition safe_int :: "int \<Rightarrow> bool" where
  "safe_int n \<longleftrightarrow> - max_safe \<le> n \<and> n \<le> max_safe"

definition digit_char :: "nat \<Rightarrow> char" where
  "digit_char d = ''0123456789'' ! d"

definition digit_val :: "char \<Rightarrow> nat" where
  "digit_val c = code c - 48"

fun nat_str :: "nat \<Rightarrow> string" where
  "nat_str n = (if n < 10 then [digit_char n] else nat_str (n div 10) @ [digit_char (n mod 10)])"

declare nat_str.simps [simp del]

definition int_str :: "int \<Rightarrow> string" where
  "int_str i = (if i < 0 then CHR ''-'' # nat_str (nat (- i)) else nat_str (nat i))"

definition str_nat :: "string \<Rightarrow> nat" where
  "str_nat s = foldl (\<lambda>a c. 10 * a + digit_val c) 0 s"

lemma less_ten: "(n::nat) < 10 \<longleftrightarrow> n \<in> {0,1,2,3,4,5,6,7,8,9}"
  by auto

lemma digit_char_props: "n < 10 \<Longrightarrow> is_digit (digit_char n) \<and> digit_val (digit_char n) = n"
  unfolding less_ten by (auto simp: digit_char_def digit_val_def is_digit_def code_def)

lemma nat_str_digits: "\<forall>c \<in> set (nat_str n). is_digit c"
  by (induction n rule: nat_str.induct) (subst nat_str.simps, auto simp: digit_char_props)

lemma nat_str_ne [simp]: "nat_str n \<noteq> []"
  by (subst nat_str.simps) simp

lemma str_nat_nat_str [simp]: "str_nat (nat_str n) = n"
proof (induction n rule: nat_str.induct)
  case (1 n)
  show ?case
  proof (cases "n < 10")
    case True
    then show ?thesis by (subst nat_str.simps) (simp add: str_nat_def digit_char_props)
  next
    case False
    then show ?thesis using 1 by (subst nat_str.simps) (simp add: str_nat_def digit_char_props)
  qed
qed

lemma nat_str_inj: "nat_str m = nat_str n \<longleftrightarrow> m = n"
  by (metis str_nat_nat_str)

lemma nat_str_hd: "0 < n \<Longrightarrow> hd (nat_str n) \<noteq> CHR ''0''"
proof (induction n rule: nat_str.induct)
  case (1 n)
  show ?case
  proof (cases "n < 10")
    case True
    with 1 have "n \<in> {1,2,3,4,5,6,7,8,9}" by auto
    then show ?thesis by (subst nat_str.simps) (auto simp: digit_char_def)
  next
    case False
    then show ?thesis using 1 by (subst nat_str.simps) simp
  qed
qed

section \<open>Timestamps\<close>

text \<open>
  Date.parse on the date-time format of the standard, YYYY-MM-DDTHH:MM:SS with optional
  milliseconds and a zone Z, +HH:MM or -HH:MM: milliseconds since 1970, or None for NaN.
\<close>

definition two :: "string \<Rightarrow> nat option" where
  "two s = (if length s = 2 \<and> list_all is_digit s then Some (str_nat s) else None)"

definition four :: "string \<Rightarrow> nat option" where
  "four s = (if length s = 4 \<and> list_all is_digit s then Some (str_nat s) else None)"

definition days_from_civil :: "int \<Rightarrow> int \<Rightarrow> int \<Rightarrow> int" where
  "days_from_civil y m d =
    (let y' = (if m \<le> 2 then y - 1 else y);
         era = y' div 400;
         yoe = y' - era * 400;
         doy = (153 * (m + (if m > 2 then - 3 else 9)) + 2) div 5 + d - 1;
         doe = yoe * 365 + yoe div 4 - yoe div 100 + doy
     in era * 146097 + doe - 719468)"

definition zone_ms :: "string \<Rightarrow> int option" where
  "zone_ms z =
    (if z = ''Z'' then Some 0
     else if length z = 6 \<and> (z ! 0 = CHR ''+'' \<or> z ! 0 = CHR ''-'') \<and> z ! 3 = CHR '':'' then
       (case (two (take 2 (drop 1 z)), two (drop 4 z)) of
          (Some h, Some m) \<Rightarrow>
            if h \<le> 23 \<and> m \<le> 59
            then Some ((if z ! 0 = CHR ''+'' then 1 else - 1) * (int h * 60 + int m) * 60000) else None
        | _ \<Rightarrow> None)
     else None)"

definition fraction_ms :: "string \<Rightarrow> (int \<times> string) option" where
  "fraction_ms s =
    (if s \<noteq> [] \<and> hd s = CHR ''.'' then
       (let ds = takeWhile is_digit (tl s) in
        if ds = [] then None
        else Some (int (str_nat (take 3 (ds @ ''00''))), dropWhile is_digit (tl s)))
     else Some (0, s))"

text \<open>
  Date.parse on the date-times of RFC 3339, with seconds and an offset: the form of every time that the providers, the
  schemas and toISOString give. Other texts count as no date here, where the code's runtime may still read one (a date
  without a time, or a form of its own).
\<close>

definition date_parse :: "string \<Rightarrow> int option" where
  "date_parse s =
    (if length s < 20 \<or> s ! 4 \<noteq> CHR ''-'' \<or> s ! 7 \<noteq> CHR ''-'' \<or> s ! 10 \<noteq> CHR ''T''
        \<or> s ! 13 \<noteq> CHR '':'' \<or> s ! 16 \<noteq> CHR '':'' then None
     else case (four (take 4 s), two (take 2 (drop 5 s)), two (take 2 (drop 8 s)),
                two (take 2 (drop 11 s)), two (take 2 (drop 14 s)), two (take 2 (drop 17 s))) of
       (Some y, Some mo, Some d, Some h, Some mi, Some sec) \<Rightarrow>
         if mo < 1 \<or> mo > 12 \<or> d < 1 \<or> d > 31 \<or> h > 24 \<or> mi > 59 \<or> sec > 59 then None
         else (case fraction_ms (drop 19 s) of
             None \<Rightarrow> None
           | Some (ms, z) \<Rightarrow>
               (if h = 24 \<and> (mi \<noteq> 0 \<or> sec \<noteq> 0 \<or> ms \<noteq> 0) then None
                else map_option (\<lambda>off. days_from_civil (int y) (int mo) (int d) * 86400000
                   + (int h * 3600 + int mi * 60 + int sec) * 1000 + ms - off) (zone_ms z)))
     | _ \<Rightarrow> None)"

lemma date_parse_epoch: "date_parse ''1970-01-01T00:00:00Z'' = Some 0"
  by code_simp

lemma date_parse_offset: "date_parse ''2026-03-01T12:30:05.250+02:00'' = Some 1772361005250"
  by code_simp

section \<open>Arrays and dictionaries\<close>

definition has_key :: "(string \<times> 'a) list \<Rightarrow> string \<Rightarrow> bool" where
  "has_key m k \<longleftrightarrow> k \<in> fst ` set m"

lemma has_key_map_of: "has_key m k \<longleftrightarrow> map_of m k \<noteq> None"
  by (simp add: has_key_def map_of_eq_None_iff)

lemma has_key_code [code]: "has_key m k \<longleftrightarrow> (map_of m k \<noteq> None)"
  by (rule has_key_map_of)

definition opt_or :: "'a option \<Rightarrow> 'a \<Rightarrow> 'a" where
  "opt_or x d = (case x of None \<Rightarrow> d | Some y \<Rightarrow> y)"

lemma opt_or_simps [simp]: "opt_or None d = d" "opt_or (Some x) d = x"
  by (simp_all add: opt_or_def)

text \<open>A test of an optional value, false when it is absent.\<close>

definition opt_is :: "('a \<Rightarrow> bool) \<Rightarrow> 'a option \<Rightarrow> bool" where
  "opt_is P x = (case x of None \<Rightarrow> False | Some y \<Rightarrow> P y)"

lemma opt_is_simps [simp]: "opt_is P None = False" "opt_is P (Some y) = P y"
  by (simp_all add: opt_is_def)

lemma opt_is_iff: "opt_is P x \<longleftrightarrow> (\<exists>y. x = Some y \<and> P y)"
  by (cases x) auto

text \<open>The distinct elements of new Set(xs), in insertion order.\<close>

fun uniq :: "'a list \<Rightarrow> 'a list" where
  "uniq [] = []"
| "uniq (x # xs) = x # filter (\<lambda>y. y \<noteq> x) (uniq xs)"

lemma set_uniq [simp]: "set (uniq xs) = set xs"
  by (induction xs) auto

lemma distinct_uniq [simp]: "distinct (uniq xs)"
  by (induction xs) auto

lemma find_Some_in: "List.find P xs = Some x \<Longrightarrow> x \<in> set xs \<and> P x"
  by (auto simp: find_Some_iff)

lemma find_None_all: "List.find P xs = None \<longleftrightarrow> (\<forall>x \<in> set xs. \<not> P x)"
  by (auto simp: find_None_iff)

end
