(* ===== verification/Types.thy ===== *)
theory Types
  imports Js
begin

text \<open>
  The data of the controller: src/config/types.ts, src/provider/types.ts, src/flow/types.ts and
  the publication types of src/provider/publication.ts. An interface is a record, a union of
  literals is a datatype, an optional or nullable field is an option, a numeric field is an int,
  and a Record indexed by strings is an association list in the order of its keys. An optional
  array or record that every reader defaults to empty (on, guards, actions, requiredChecks,
  activationRoutes, context) is a list, empty when the field is absent.
\<close>

section \<open>Flow definitions\<close>

datatype StateKind = KAgent | KHumanGate | KProviderWait | KPaused | KFinal

datatype ResultContract = RAssessment | RPlan | RDiagnostic | RVerification | RDocumentation
  | RDevelopment | RReview | RHumanGate | RNone

datatype FlowGuardName = AuthorizedActor | ActivationPresent | TicketOpen | HeadMatches | ReceiptValid

datatype FlowActionName = RecordReceipt | RememberResumeState | ClearResumeState
  | ResetRetryBudget | RemoveActivationLabel

datatype FlowEventType = AgentSucceeded | AgentNeedsHuman | CiFailed | AttemptsExhausted
  | ReviewApproved | ReviewChangesRequested | HumanApproved | HumanChangesRequested
  | HumanQuestion | HumanUnclear | HumanCancelled | HumanAnswerAccepted | HumanAnswerCancelled
  | HumanAnswerUnclear | AuthorizedComment | ChangeRequestUpdated | ChangeRequestMerged
  | ChangeRequestClosed

fun event_name :: "FlowEventType \<Rightarrow> string" where
  "event_name AgentSucceeded = ''agent-succeeded''"
| "event_name AgentNeedsHuman = ''agent-needs-human''"
| "event_name CiFailed = ''ci-failed''"
| "event_name AttemptsExhausted = ''attempts-exhausted''"
| "event_name ReviewApproved = ''review-approved''"
| "event_name ReviewChangesRequested = ''review-changes-requested''"
| "event_name HumanApproved = ''human-approved''"
| "event_name HumanChangesRequested = ''human-changes-requested''"
| "event_name HumanQuestion = ''human-question''"
| "event_name HumanUnclear = ''human-unclear''"
| "event_name HumanCancelled = ''human-cancelled''"
| "event_name HumanAnswerAccepted = ''human-answer-accepted''"
| "event_name HumanAnswerCancelled = ''human-answer-cancelled''"
| "event_name HumanAnswerUnclear = ''human-answer-unclear''"
| "event_name AuthorizedComment = ''authorized-comment''"
| "event_name ChangeRequestUpdated = ''change-request-updated''"
| "event_name ChangeRequestMerged = ''change-request-merged''"
| "event_name ChangeRequestClosed = ''change-request-closed''"

record FlowTransition =
  ft_target :: string
  ft_resumeTarget :: "string option"
  ft_guards :: "FlowGuardName list"
  ft_actions :: "FlowActionName list"

datatype ContextKey = CxTicket | CxControlState | CxAssessment | CxPlan | CxDiagnostic
  | CxChangeRequest | CxReview | CxHumanComment

record FlowState =
  fs_kind :: StateKind
  fs_agent :: "string option"
  fs_resultContract :: "ResultContract option"
  fs_context :: "ContextKey list"
  fs_on :: "(string \<times> FlowTransition) list"

record FlowDefinition =
  fd_id :: string
  fd_activationLabel :: string
  fd_managedLabel :: string
  fd_initial :: string
  fd_requiredChecks :: "string list"
  fd_activationRoutes :: "(string \<times> string) list"
  fd_states :: "(string \<times> FlowState) list"

definition state_of :: "FlowDefinition \<Rightarrow> string \<Rightarrow> FlowState option" where
  "state_of f s = map_of (fd_states f) s"

definition transition_of :: "FlowDefinition \<Rightarrow> string \<Rightarrow> FlowEventType \<Rightarrow> FlowTransition option" where
  "transition_of f s e = (case state_of f s of None \<Rightarrow> None
     | Some st \<Rightarrow> map_of (fs_on st) (event_name e))"

record FlowEvent =
  ev_type :: FlowEventType
  ev_authorizedActor :: bool
  ev_activationPresent :: bool
  ev_ticketOpen :: bool
  ev_headMatches :: bool
  ev_receiptValid :: bool

record MachineInput =
  mi_stateId :: string
  mi_resumeStateId :: "string option"
  mi_event :: FlowEvent

record MachineResult =
  mr_changed :: bool
  mr_stateId :: string
  mr_resumeStateId :: "string option"
  mr_actions :: "FlowActionName list"

section \<open>Catalog and runtime configuration\<close>

datatype HarnessTarget = Codex | Claude

datatype ReasoningLevel = Low | Medium | High | Xhigh | MaxLevel

datatype ProviderKind = Github | Gitlab

fun provider_name :: "ProviderKind \<Rightarrow> string" where
  "provider_name Github = ''github''"
| "provider_name Gitlab = ''gitlab''"

record AgentCatalog =
  ac_agents :: "(string \<times> string) list"

record StackDefinition =
  sd_flow :: string
  sd_catalog :: string
  sd_contracts :: "string list"
  sd_schemas :: "string list"
  sd_preparedPublication :: bool

record ExecutionSnapshot =
  ex_harness :: HarnessTarget
  ex_model :: string
  ex_reasoning :: ReasoningLevel
  ex_maxAttempts :: int
  ex_delaySeconds :: int
  ex_timeoutSeconds :: int

record RuntimeConfig =
  rc_repository :: string
  rc_revision :: string
  rc_stack :: string
  rc_providerType :: ProviderKind
  rc_apiUrl :: string
  rc_repositories :: "string list"
  rc_tokenFile :: string
  rc_agents :: "(string \<times> ExecutionSnapshot) list"
  rc_harnesses :: "(HarnessTarget \<times> string) list"
  rc_intervalSeconds :: int
  rc_maxCallsPerMinute :: int
  rc_quotaReservePercent :: int
  rc_concurrency :: int
  rc_dataDirectory :: string
  rc_httpAddress :: string
  rc_httpPort :: int
  rc_httpAuthFile :: string

section \<open>Receipts and control state\<close>

record Actor =
  ac_login :: string
  ac_providerId :: string

datatype Outcome = Succeeded | NeedsHuman | Failed

datatype ArtifactKind = AkAssessment | AkPlan | AkQuestion | AkReview | AkDiagnostic | AkDocumentation

datatype ChangeState = CsOpen | CsClosed | CsMerged

datatype ReviewVerdict = VApproved | VChangesRequested | VCommented

datatype HumanVerdict = HvApproved | HvChangesRequested | HvCancelled | HvQuestion | HvUnclear

record ReceiptComment =
  rcm_id :: string
  rcm_url :: string
  rcm_marker :: string
  rcm_artifactKind :: ArtifactKind
  rcm_inputHead :: "string option"

record ReceiptChangeRequest =
  rcr_number :: int
  rcr_url :: string
  rcr_headSha :: string
  rcr_state :: ChangeState

record ReceiptReview =
  rrv_id :: string
  rrv_url :: string
  rrv_headSha :: string
  rrv_verdict :: ReviewVerdict

datatype ReceiptArtifact =
    ArtComment ReceiptComment
  | ArtChangeRequest ReceiptChangeRequest
  | ArtReview ReceiptReview

record ReceiptHumanGate =
  rhg_sourceCommentId :: string
  rhg_verdict :: HumanVerdict
  rhg_notes :: "string list"

record ReceiptError =
  re_code :: string
  re_message :: string

datatype CostSource = CostHarness | CostEstimated

record AttemptUsage =
  au_totalTokens :: "int option"
  au_inputTokens :: "int option"
  au_outputTokens :: "int option"
  au_cachedInputTokens :: "int option"
  au_cacheCreationInputTokens :: "int option"
  au_cacheReadInputTokens :: "int option"
  au_reasoningOutputTokens :: "int option"
  au_model :: "string option"
  au_costUsd :: "rat option"
  au_costSource :: "CostSource option"
  au_costCalculator :: "string option"
  au_costError :: "string option"

record AgentReceipt =
  ar_flowInstanceId :: string
  ar_attemptId :: string
  ar_outcome :: Outcome
  ar_summary :: string
  ar_artifacts :: "ReceiptArtifact list"
  ar_humanGate :: "ReceiptHumanGate option"
  ar_error :: "ReceiptError option"
  ar_usage :: "AttemptUsage option"

datatype AttemptStatus = Started | AttSucceeded | AttFailed | AttCancelled

record Attempt =
  at_attemptId :: string
  at_status :: AttemptStatus
  at_startedAt :: string
  at_finishedAt :: "string option"
  at_error :: "ReceiptError option"

record AttemptSeries =
  as_seriesId :: string
  as_agentId :: string
  as_stateId :: string
  as_inputRevision :: string
  as_runtimeDigest :: "string option"
  as_executionSnapshot :: "ExecutionSnapshot option"
  as_maxAttempts :: int
  as_consumed :: int
  as_current :: "Attempt option"

record ControlHumanGate =
  chg_sourceCommentId :: string
  chg_actor :: Actor
  chg_verdict :: HumanVerdict
  chg_interpretedByAttemptId :: string
  chg_notes :: "string list"

record ControlChangeRequest =
  ccr_provider :: ProviderKind
  ccr_repository :: string
  ccr_number :: int
  ccr_url :: string
  ccr_headSha :: string
  ccr_state :: ChangeState

record ControlState =
  cs_flowInstanceId :: string
  cs_flowId :: string
  cs_configRevision :: string
  cs_sequence :: int
  cs_stateId :: string
  cs_resumeStateId :: "string option"
  cs_activatedBy :: Actor
  cs_activatedAt :: string
  cs_activationEventId :: string
  cs_activationLabel :: "string option"
  cs_updatedAt :: string
  cs_attemptSeries :: "AttemptSeries option"
  cs_latestReceipt :: "AgentReceipt option"
  cs_humanGate :: "ControlHumanGate option"
  cs_changeRequest :: "ControlChangeRequest option"

datatype Disposition = DReady | DWaiting | DForeign | DAmbiguous | DInactive

record LocalOwner =
  lo_controllerId :: string
  lo_publicationKey :: string

record LocalExecution =
  le_migrationId :: "string option"
  le_controllerId :: string
  le_observedAt :: string
  le_owner :: "LocalOwner option"
  le_disposition :: Disposition
  le_reason :: "string option"
  le_publicationKeys :: "string list"
  le_control :: "ControlState option"

section \<open>Provider data\<close>

datatype Permission = PNone | PRead | PTriage | PWrite | PMaintain | PAdmin

datatype RequestPriority = Background | Active

record TicketRef =
  tr_provider :: ProviderKind
  tr_repository :: string
  tr_number :: int

record ProviderRepository =
  pr_provider :: ProviderKind
  pr_name :: string
  pr_host :: string
  pr_cloneRoot :: string
  pr_cloneUrl :: string

record ProviderComment =
  pc_id :: string
  pc_url :: string
  pc_body :: string
  pc_actor :: Actor
  pc_createdAt :: string
  pc_updatedAt :: string

record NormalizedChangeRequest =
  nc_provider :: ProviderKind
  nc_repository :: string
  nc_number :: int
  nc_url :: string
  nc_objectId :: "string option"
  nc_headRepository :: "string option"
  nc_headBranch :: "string option"
  nc_headSha :: string
  nc_state :: ChangeState
  nc_actor :: Actor
  nc_body :: string
  nc_createdAt :: string
  nc_updatedAt :: string

record NormalizedReview =
  nr_id :: string
  nr_url :: string
  nr_actor :: Actor
  nr_submittedAt :: string
  nr_headSha :: string
  nr_verdict :: ReviewVerdict
  nr_body :: string

record Activation =
  av_present :: bool
  av_label :: "string option"
  av_eventId :: "string option"
  av_actor :: "Actor option"
  av_occurredAt :: "string option"

record ProviderTicketSnapshot =
  sn_ref :: TicketRef
  sn_repository :: ProviderRepository
  sn_title :: string
  sn_description :: string
  sn_open :: bool
  sn_labels :: "string list"
  sn_updatedAt :: string
  sn_activation :: Activation
  sn_comments :: "ProviderComment list"
  sn_changeRequest :: "NormalizedChangeRequest option"

record PublicationMetadata =
  pm_config :: string
  pm_controller :: string

record Publication =
  pb_ownershipEligible :: "bool option"
  pb_key :: string
  pb_createdAt :: string
  pb_metadata :: PublicationMetadata

record MigrationChange =
  mc_provider :: ProviderKind
  mc_repository :: string
  mc_number :: int
  mc_url :: string
  mc_headRepository :: string
  mc_headBranch :: string
  mc_headSha :: string
  mc_marker :: string

record MigrationReceipt =
  mg_ticket :: TicketRef
  mg_workspace :: string
  mg_activationEventId :: string
  mg_activationLabel :: string
  mg_activationActor :: Actor
  mg_activationOccurredAt :: string
  mg_ownerKey :: string
  mg_ownerConfig :: string
  mg_ownerCreatedAt :: string
  mg_requestId :: string
  mg_requestActor :: Actor
  mg_requestBodyHash :: string
  mg_requestCreatedAt :: string
  mg_requestUpdatedAt :: string
  mg_sourceConfig :: string
  mg_sourceStage :: string
  mg_sourceResume :: "string option"
  mg_sourceHumanInput :: "(string \<times> string) option"
  mg_targetConfig :: string
  mg_targetFlow :: string
  mg_targetLabel :: string
  mg_targetBasis :: string
  mg_change :: MigrationChange
  mg_start :: string
  mg_retained :: "(string \<times> string \<times> string) list"
  mg_baselineComments :: "string list"
  mg_baselineReviews :: "string list"
  mg_predecessor :: "string option"

record RecoveredMigration =
  rm_id :: string
  rm_receipt :: MigrationReceipt
  rm_owner :: Publication
  rm_comment :: ProviderComment

datatype ActiveBoundary = BKnown | BFresh | BAmbiguous

record RecoveryEvidence =
  rv_snapshot :: ProviderTicketSnapshot
  rv_publications :: "Publication list"
  rv_changes :: "NormalizedChangeRequest list"
  rv_reviews :: "NormalizedReview list"
  rv_ambiguities :: "string list"
  rv_complete :: bool
  rv_activeBoundary :: ActiveBoundary
  rv_legacyActive :: bool
  rv_migration :: "RecoveredMigration option"

datatype CheckStatus = CheckSuccess | CheckPending | CheckFailure

record RequiredChecks =
  rq_headSha :: string
  rq_checks :: "(string \<times> CheckStatus) list"

definition authorized_permission :: "Permission \<Rightarrow> bool" where
  "authorized_permission p \<longleftrightarrow> p \<in> {PWrite, PMaintain, PAdmin}"

end
