(* ===== verification/Flow.thy ===== *)
theory Flow
  imports Types
begin

text \<open>
  src/flow/compile.ts: the compilation of a flow definition into a state machine of the xstate
  library and the transition function on top of it. The library is an interface, the locale
  xstate: what createMachine, resolveState, can and transition are documented to do with a flat
  machine whose states have guarded transitions. engine_ref is a reference instance of it.
\<close>

section \<open>The compiled machine\<close>

record XTransition =
  xt_target :: string
  xt_guard :: "FlowGuardName list option"
  xt_actions :: "FlowActionName list"

datatype XState = XFinal | XOn "(string \<times> XTransition) list"

record XMachine =
  xm_initial :: string
  xm_states :: "(string \<times> XState) list"
  xm_guards :: "FlowGuardName \<Rightarrow> FlowEvent \<Rightarrow> bool"

record Engine =
  xe_resolveState :: "XMachine \<Rightarrow> string \<Rightarrow> unit res"
  xe_can :: "XMachine \<Rightarrow> string \<Rightarrow> FlowEvent \<Rightarrow> bool"
  xe_transition :: "XMachine \<Rightarrow> string \<Rightarrow> FlowEvent \<Rightarrow> string \<times> FlowActionName list"

fun guards :: "FlowGuardName \<Rightarrow> FlowEvent \<Rightarrow> bool" where
  "guards AuthorizedActor e = ev_authorizedActor e"
| "guards ActivationPresent e = ev_activationPresent e"
| "guards TicketOpen e = ev_ticketOpen e"
| "guards HeadMatches e = ev_headMatches e"
| "guards ReceiptValid e = ev_receiptValid e"

definition compileTransition :: "string \<Rightarrow> FlowTransition \<Rightarrow> XTransition" where
  "compileTransition sourceStateId d = \<lparr>
     xt_target = (if ft_target d = ''$resume'' then sourceStateId else ft_target d),
     xt_guard = (if ft_guards d \<noteq> [] then Some (ft_guards d) else None),
     xt_actions = ft_actions d \<rparr>"

definition compileState :: "string \<Rightarrow> FlowState \<Rightarrow> XState" where
  "compileState stateId st =
    (if fs_kind st = KFinal then XFinal
     else XOn (map (\<lambda>(e, t). (e, compileTransition stateId t)) (fs_on st)))"

definition compileMachine :: "FlowDefinition \<Rightarrow> XMachine" where
  "compileMachine f = \<lparr> xm_initial = fd_initial f,
     xm_states = map (\<lambda>(sid, st). (sid, compileState sid st)) (fd_states f),
     xm_guards = guards \<rparr>"

definition unchanged :: "MachineInput \<Rightarrow> MachineResult" where
  "unchanged i = \<lparr> mr_changed = False, mr_stateId = mi_stateId i,
     mr_resumeStateId = mi_resumeStateId i, mr_actions = [] \<rparr>"

text \<open>The loop over the executed actions that keeps the resume state.\<close>

fun resume_after :: "FlowTransition option \<Rightarrow> string \<Rightarrow> string option \<Rightarrow> FlowActionName list \<Rightarrow> string option" where
  "resume_after t sid r [] = r"
| "resume_after t sid r (a # acts) = resume_after t sid
     (if a = RememberResumeState
      then Some (case t of Some t' \<Rightarrow> opt_or (ft_resumeTarget t') sid | None \<Rightarrow> sid)
      else if a = ClearResumeState then None else r) acts"

definition isResume :: "FlowTransition option \<Rightarrow> bool" where
  "isResume t = (case t of Some t' \<Rightarrow> ft_target t' = ''$resume'' | None \<Rightarrow> False)"

record CompiledFlow =
  cf_initialStateId :: string
  cf_transition :: "MachineInput \<Rightarrow> MachineResult res"

definition runTransition :: "Engine \<Rightarrow> FlowDefinition \<Rightarrow> MachineInput \<Rightarrow> MachineResult res" where
  "runTransition eng f i =
    (let m = compileMachine f;
         configured = transition_of f (mi_stateId i) (ev_type (mi_event i))
     in if isResume configured \<and> mi_resumeStateId i = None
        then ok \<lparr> mr_changed = False, mr_stateId = mi_stateId i, mr_resumeStateId = None, mr_actions = [] \<rparr>
        else bindR (xe_resolveState eng m (mi_stateId i)) (\<lambda>_.
          if \<not> xe_can eng m (mi_stateId i) (mi_event i) then ok (unchanged i)
          else (case xe_transition eng m (mi_stateId i) (mi_event i) of (nextId, actions) \<Rightarrow>
            ok \<lparr> mr_changed = True,
                mr_stateId = (if isResume configured then the (mi_resumeStateId i) else nextId),
                mr_resumeStateId = resume_after configured (mi_stateId i) (mi_resumeStateId i) actions,
                mr_actions = actions \<rparr>)))"

definition compileFlow :: "Engine \<Rightarrow> FlowDefinition \<Rightarrow> CompiledFlow" where
  "compileFlow eng f = \<lparr> cf_initialStateId = fd_initial f, cf_transition = runTransition eng f \<rparr>"

section \<open>The library's contract\<close>

definition guard_ok :: "XMachine \<Rightarrow> XTransition \<Rightarrow> FlowEvent \<Rightarrow> bool" where
  "guard_ok m t e = (case xt_guard t of None \<Rightarrow> True | Some gs \<Rightarrow> list_all (\<lambda>g. xm_guards m g e) gs)"

definition enabled :: "XMachine \<Rightarrow> string \<Rightarrow> FlowEvent \<Rightarrow> XTransition option" where
  "enabled m s e = (case map_of (xm_states m) s of
      Some (XOn on) \<Rightarrow> (case map_of on (event_name (ev_type e)) of
         Some t \<Rightarrow> if guard_ok m t e then Some t else None | None \<Rightarrow> None)
    | _ \<Rightarrow> None)"

locale xstate =
  fixes eng :: Engine
  assumes resolve_known: "map_of (xm_states m) s \<noteq> None \<Longrightarrow> xe_resolveState eng m s = ok ()"
    and resolve_unknown: "map_of (xm_states m) s = None \<Longrightarrow> \<not> is_ok (xe_resolveState eng m s)"
    and can_iff: "xe_can eng m s e \<longleftrightarrow> enabled m s e \<noteq> None"
    and next_target: "enabled m s e = Some t \<Longrightarrow> xe_transition eng m s e = (xt_target t, xt_actions t)"

definition engine_ref :: Engine where
  "engine_ref = \<lparr>
     xe_resolveState = (\<lambda>m s. if map_of (xm_states m) s = None then fail ''unknown state'' else ok ()),
     xe_can = (\<lambda>m s e. enabled m s e \<noteq> None),
     xe_transition = (\<lambda>m s e. case enabled m s e of Some t \<Rightarrow> (xt_target t, xt_actions t) | None \<Rightarrow> (s, [])) \<rparr>"

interpretation ref: xstate engine_ref
  by unfold_locales (auto simp: engine_ref_def)

section \<open>What a flow definition means\<close>

text \<open>
  The transition a flow definition asks for, read directly from the definition: the configured
  transition of a non-final state fires when all its guards hold, a $resume target goes back to
  the remembered state, and without a remembered state it does nothing.
\<close>

definition flow_step :: "FlowDefinition \<Rightarrow> MachineInput \<Rightarrow> MachineResult" where
  "flow_step f i =
    (case (state_of f (mi_stateId i), transition_of f (mi_stateId i) (ev_type (mi_event i))) of
       (Some st, Some t) \<Rightarrow>
         if fs_kind st = KFinal \<or> \<not> list_all (\<lambda>g. guards g (mi_event i)) (ft_guards t)
            \<or> (ft_target t = ''$resume'' \<and> mi_resumeStateId i = None)
         then unchanged i
         else \<lparr> mr_changed = True,
                mr_stateId = (if ft_target t = ''$resume'' then the (mi_resumeStateId i) else ft_target t),
                mr_resumeStateId = resume_after (Some t) (mi_stateId i) (mi_resumeStateId i) (ft_actions t),
                mr_actions = ft_actions t \<rparr>
     | _ \<Rightarrow> unchanged i)"

lemma map_of_map_pair:
  "map_of (map (\<lambda>(k, v). (k, g k v)) xs) k = map_option (g k) (map_of xs k)"
  by (induction xs) auto

lemma compileMachine_states [simp]:
  "map_of (xm_states (compileMachine f)) s = map_option (compileState s) (state_of f s)"
  by (simp add: compileMachine_def map_of_map_pair state_of_def)

lemma map_of_compiled_on:
  "map_of (map (\<lambda>(e, t). (e, compileTransition s t)) on) k = map_option (compileTransition s) (map_of on k)"
  by (simp add: map_of_map_pair)

lemma guard_ok_compiled:
  "guard_ok (compileMachine f) (compileTransition s t) e = list_all (\<lambda>g. guards g e) (ft_guards t)"
  by (auto simp: guard_ok_def compileTransition_def compileMachine_def)

lemma enabled_compiled:
  "enabled (compileMachine f) s e =
    (case (state_of f s, transition_of f s (ev_type e)) of
       (Some st, Some t) \<Rightarrow> if fs_kind st = KFinal \<or> \<not> list_all (\<lambda>g. guards g e) (ft_guards t)
                            then None else Some (compileTransition s t)
     | _ \<Rightarrow> None)"
  by (auto simp: enabled_def compileState_def transition_of_def map_of_compiled_on guard_ok_compiled
      split: option.splits)

context xstate
begin

lemma runTransition_known:
  assumes "state_of f (mi_stateId i) \<noteq> None"
  shows "runTransition eng f i = ok (flow_step f i)"
proof -
  have r: "xe_resolveState eng (compileMachine f) (mi_stateId i) = ok ()"
    using assms by (intro resolve_known) auto
  show ?thesis
  proof (cases "enabled (compileMachine f) (mi_stateId i) (mi_event i)")
    case None
    then show ?thesis using assms r
      by (auto simp: runTransition_def Let_def can_iff flow_step_def enabled_compiled isResume_def
          unchanged_def split: option.splits if_splits)
  next
    case (Some t)
    then show ?thesis using assms r next_target [OF Some]
      by (auto simp: runTransition_def Let_def can_iff flow_step_def enabled_compiled isResume_def
          unchanged_def compileTransition_def split: option.splits if_splits)
  qed
qed

lemma runTransition_unknown:
  assumes "state_of f (mi_stateId i) = None"
  shows "\<not> is_ok (runTransition eng f i)"
proof -
  have "\<not> is_ok (xe_resolveState eng (compileMachine f) (mi_stateId i))"
    using assms by (intro resolve_unknown) simp
  then show ?thesis using assms
    by (auto simp: runTransition_def Let_def isResume_def transition_of_def bindR_def is_ok_def
        split: sum.splits)
qed

end

section \<open>Steps that keep the flow inside its states\<close>

text \<open>What validateSemantics guarantees of the references between states.\<close>

definition transition_closed :: "FlowDefinition \<Rightarrow> string \<Rightarrow> FlowState \<Rightarrow> FlowTransition \<Rightarrow> bool" where
  "transition_closed f sid st t \<longleftrightarrow>
     (if ft_target t = ''$resume''
      then (sid = ''needs-human'' \<or> sid = ''blocked'') \<and> fs_kind st = KPaused
      else state_of f (ft_target t) \<noteq> None) \<and>
     (case ft_resumeTarget t of None \<Rightarrow> True
      | Some r \<Rightarrow> (ft_target t = ''needs-human'' \<or> ft_target t = ''blocked'') \<and> state_of f r \<noteq> None)"

definition flow_closed :: "FlowDefinition \<Rightarrow> bool" where
  "flow_closed f \<longleftrightarrow> state_of f (fd_initial f) \<noteq> None \<and>
     (\<forall>(sid, st) \<in> set (fd_states f). \<forall>(e, t) \<in> set (fs_on st). transition_closed f sid st t)"

definition resume_known :: "FlowDefinition \<Rightarrow> string option \<Rightarrow> bool" where
  "resume_known f r = (case r of None \<Rightarrow> True | Some s \<Rightarrow> state_of f s \<noteq> None)"

lemma transition_of_closed:
  assumes "flow_closed f" "state_of f s = Some st" "transition_of f s e = Some t"
  shows "transition_closed f s st t"
proof -
  have "(s, st) \<in> set (fd_states f)" using assms(2) by (auto simp: state_of_def dest: map_of_SomeD)
  moreover have "(event_name e, t) \<in> set (fs_on st)"
    using assms(2,3) by (auto simp: transition_of_def dest: map_of_SomeD)
  ultimately show ?thesis using assms(1) by (auto simp: flow_closed_def)
qed

lemma resume_after_known:
  assumes "resume_known f r" "state_of f s \<noteq> None"
    "\<And>t' r'. t = Some t' \<Longrightarrow> ft_resumeTarget t' = Some r' \<Longrightarrow> state_of f r' \<noteq> None"
  shows "resume_known f (resume_after t s r acts)"
  using assms(1)
proof (induction acts arbitrary: r)
  case (Cons a acts)
  have "resume_known f (if a = RememberResumeState
      then Some (case t of Some t' \<Rightarrow> opt_or (ft_resumeTarget t') s | None \<Rightarrow> s)
      else if a = ClearResumeState then None else r)"
    using assms(2,3) Cons.prems
    by (cases t; cases "ft_resumeTarget (the t)") (auto simp: resume_known_def)
  then show ?case using Cons.IH by simp
qed simp

lemma flow_step_known:
  assumes "flow_closed f" "state_of f (mi_stateId i) \<noteq> None" "resume_known f (mi_resumeStateId i)"
  shows "state_of f (mr_stateId (flow_step f i)) \<noteq> None \<and> resume_known f (mr_resumeStateId (flow_step f i))"
proof (cases "transition_of f (mi_stateId i) (ev_type (mi_event i))")
  case None
  then show ?thesis using assms by (auto simp: flow_step_def unchanged_def split: option.splits)
next
  case (Some t)
  obtain st where st: "state_of f (mi_stateId i) = Some st" using assms(2) by auto
  have c: "transition_closed f (mi_stateId i) st t" using transition_of_closed assms(1) st Some by blast
  have "resume_known f (resume_after (Some t) (mi_stateId i) (mi_resumeStateId i) (ft_actions t))"
    using assms c by (intro resume_after_known) (auto simp: transition_closed_def)
  then show ?thesis using assms st Some c
    by (auto simp: flow_step_def unchanged_def transition_closed_def resume_known_def
        split: option.splits if_splits)
qed

section \<open>Properties\<close>

definition sample_flow :: FlowDefinition where
  "sample_flow = \<lparr> fd_id = ''demo'', fd_activationLabel = ''agent-flow:development'',
     fd_managedLabel = ''agent-flow:managed'', fd_initial = ''develop'', fd_requiredChecks = [],
     fd_activationRoutes = [],
     fd_states = [
       (''develop'', \<lparr> fs_kind = KAgent, fs_agent = Some ''dev'', fs_resultContract = Some RDevelopment,
          fs_context = [CxTicket], fs_on = [
            (''agent-succeeded'', \<lparr> ft_target = ''done'', ft_resumeTarget = None,
               ft_guards = [ReceiptValid, TicketOpen], ft_actions = [RecordReceipt] \<rparr>),
            (''agent-needs-human'', \<lparr> ft_target = ''needs-human'', ft_resumeTarget = None,
               ft_guards = [ReceiptValid], ft_actions = [RecordReceipt, RememberResumeState] \<rparr>)] \<rparr>),
       (''needs-human'', \<lparr> fs_kind = KPaused, fs_agent = None, fs_resultContract = None, fs_context = [],
          fs_on = [(''human-answer-accepted'', \<lparr> ft_target = ''$resume'', ft_resumeTarget = None,
               ft_guards = [AuthorizedActor], ft_actions = [ClearResumeState, ResetRetryBudget] \<rparr>)] \<rparr>),
       (''done'', \<lparr> fs_kind = KFinal, fs_agent = None, fs_resultContract = None, fs_context = [], fs_on = [] \<rparr>)] \<rparr>"

definition sample_event :: "FlowEventType \<Rightarrow> FlowEvent" where
  "sample_event t = \<lparr> ev_type = t, ev_authorizedActor = True, ev_activationPresent = True,
     ev_ticketOpen = True, ev_headMatches = True, ev_receiptValid = True \<rparr>"

definition sample_input :: "string \<Rightarrow> string option \<Rightarrow> FlowEventType \<Rightarrow> MachineInput" where
  "sample_input s r t = \<lparr> mi_stateId = s, mi_resumeStateId = r, mi_event = sample_event t \<rparr>"

text \<open>
  C1: on a state of the flow, the compiled machine run through the state-machine library gives
  exactly the transition the flow definition describes, including refused guards, final states,
  and resumption of the remembered state.
\<close>

theorem compileFlow_refines:
  assumes "xstate eng" "state_of f (mi_stateId i) \<noteq> None"
  shows "cf_transition (compileFlow eng f) i = ok (flow_step f i)"
  using xstate.runTransition_known [OF assms] by (simp add: compileFlow_def)

theorem compileFlow_refines_witness:
  "cf_transition (compileFlow engine_ref sample_flow)
      (sample_input ''needs-human'' (Some ''develop'') HumanAnswerAccepted)
    = ok \<lparr> mr_changed = True, mr_stateId = ''develop'', mr_resumeStateId = None,
           mr_actions = [ClearResumeState, ResetRetryBudget] \<rparr>"
proof -
  have k: "state_of sample_flow (mi_stateId (sample_input ''needs-human'' (Some ''develop'') HumanAnswerAccepted)) \<noteq> None"
    by (simp add: sample_flow_def sample_input_def state_of_def)
  have "flow_step sample_flow (sample_input ''needs-human'' (Some ''develop'') HumanAnswerAccepted)
    = \<lparr> mr_changed = True, mr_stateId = ''develop'', mr_resumeStateId = None,
        mr_actions = [ClearResumeState, ResetRetryBudget] \<rparr>"
    by (simp add: flow_step_def sample_flow_def sample_input_def sample_event_def state_of_def transition_of_def)
  then show ?thesis using compileFlow_refines [OF ref.xstate_axioms k] by simp
qed

text \<open>
  in a closed flow a transition from a known state with a known (or no) resume state leads to a
  known state with a known (or no) resume state, so the flow never gets stuck outside its states.
\<close>

theorem compileFlow_stays_known:
  assumes "xstate eng" "flow_closed f" "state_of f (mi_stateId i) \<noteq> None" "resume_known f (mi_resumeStateId i)"
    "cf_transition (compileFlow eng f) i = ok r"
  shows "state_of f (mr_stateId r) \<noteq> None \<and> resume_known f (mr_resumeStateId r)"
  using xstate.runTransition_known [OF assms(1,3)] flow_step_known [OF assms(2-4)] assms(5)
  by (simp add: compileFlow_def)

lemma sample_flow_closed: "flow_closed sample_flow"
  by (simp add: flow_closed_def sample_flow_def transition_closed_def state_of_def)

theorem compileFlow_stays_known_witness:
  "resume_known sample_flow (mr_resumeStateId (flow_step sample_flow (sample_input ''develop'' None AgentNeedsHuman)))
   \<and> mr_stateId (flow_step sample_flow (sample_input ''develop'' None AgentNeedsHuman)) = ''needs-human''"
proof -
  let ?i = "sample_input ''develop'' None AgentNeedsHuman"
  have k: "state_of sample_flow (mi_stateId ?i) \<noteq> None" "resume_known sample_flow (mi_resumeStateId ?i)"
    by (simp_all add: sample_flow_def sample_input_def state_of_def resume_known_def)
  have "cf_transition (compileFlow engine_ref sample_flow) ?i = ok (flow_step sample_flow ?i)"
    using ref.runTransition_known [OF k(1)] by (simp add: compileFlow_def)
  then have "resume_known sample_flow (mr_resumeStateId (flow_step sample_flow ?i))"
    using compileFlow_stays_known [OF ref.xstate_axioms sample_flow_closed k] by blast
  moreover have "mr_stateId (flow_step sample_flow ?i) = ''needs-human''"
    by (simp add: flow_step_def sample_flow_def sample_input_def sample_event_def state_of_def transition_of_def)
  ultimately show ?thesis by blast
qed

end
