(* ===== verification/Json.thy ===== *)
theory Json
  imports Js
begin

text \<open>
  JSON.parse and JSON.stringify on the values the controller's markers hold. A number is read as
  an integer when its value is one and otherwise as a decimal, mantissa times ten to the minus k.
  The parser takes fuel, twice the length of the input and two: between two calls that use one unit
  each at least one character is consumed. Escapes of code units above 255 are not modelled.
\<close>

datatype json =
    JNull
  | JBool bool
  | JInt int
  | JDec int nat
  | JStr string
  | JArr "json list"
  | JObj "(string \<times> json) list"

definition skip_ws :: "string \<Rightarrow> string" where
  "skip_ws s = dropWhile (\<lambda>c. c = CHR '' '' \<or> c = CHR 0x09 \<or> c = CHR 0x0A \<or> c = CHR 0x0D) s"

definition hex_val :: "char \<Rightarrow> nat option" where
  "hex_val c = (if is_digit c then Some (code c - 48)
     else if 97 \<le> code c \<and> code c \<le> 102 then Some (code c - 87)
     else if 65 \<le> code c \<and> code c \<le> 70 then Some (code c - 55) else None)"

definition unicode_escape :: "string \<Rightarrow> char option" where
  "unicode_escape s = (case map hex_val s of
     [Some a, Some b, Some c, Some d] \<Rightarrow>
       if a = 0 \<and> b = 0 then Some (char_of (16 * c + d)) else None
   | _ \<Rightarrow> None)"

definition simple_escape :: "char \<Rightarrow> char option" where
  "simple_escape c = map_of [(CHR 0x22, CHR 0x22), (CHR 0x5C, CHR 0x5C), (CHR ''/'', CHR ''/''),
     (CHR ''b'', CHR 0x08), (CHR ''f'', CHR 0x0C), (CHR ''n'', CHR 0x0A), (CHR ''r'', CHR 0x0D),
     (CHR ''t'', CHR 0x09)] c"

text \<open>The characters of a string after its opening quote, up to the closing one.\<close>

fun json_chars :: "string \<Rightarrow> (string \<times> string) option" where
  "json_chars [] = None"
| "json_chars (c # s) =
    (if c = CHR 0x22 then Some ([], s)
     else if c = CHR 0x5C then
       (case s of
          [] \<Rightarrow> None
        | e # s' \<Rightarrow>
            if e = CHR ''u'' then
              (case unicode_escape (take 4 s') of None \<Rightarrow> None
               | Some ch \<Rightarrow> map_option (\<lambda>(cs, r). (ch # cs, r)) (json_chars (drop 4 s')))
            else (case simple_escape e of None \<Rightarrow> None
               | Some ch \<Rightarrow> map_option (\<lambda>(cs, r). (ch # cs, r)) (json_chars s')))
     else if code c < 32 then None
     else map_option (\<lambda>(cs, r). (c # cs, r)) (json_chars s))"

definition mk_num :: "int \<Rightarrow> nat \<Rightarrow> int \<Rightarrow> json" where
  "mk_num m fr ex =
    (let k = int fr - ex in
     if k \<le> 0 then JInt (m * 10 ^ nat (- k))
     else if m mod 10 ^ nat k = 0 then JInt (m div 10 ^ nat k) else JDec m (nat k))"

definition take_digits :: "string \<Rightarrow> string \<times> string" where
  "take_digits s = (takeWhile is_digit s, dropWhile is_digit s)"

definition json_exponent :: "string \<Rightarrow> (int \<times> string) option" where
  "json_exponent s =
    (case s of
       e # r \<Rightarrow> if e = CHR ''e'' \<or> e = CHR ''E'' then
          (let neg = (r \<noteq> [] \<and> hd r = CHR ''-'');
               r' = (if r \<noteq> [] \<and> (hd r = CHR ''-'' \<or> hd r = CHR ''+'') then tl r else r);
               (ds, t) = take_digits r'
           in if ds = [] then None else Some ((if neg then - 1 else 1) * int (str_nat ds), t))
         else Some (0, s)
     | [] \<Rightarrow> Some (0, s))"

definition json_number :: "string \<Rightarrow> (json \<times> string) option" where
  "json_number s =
    (let neg = (s \<noteq> [] \<and> hd s = CHR ''-'');
         s1 = (if neg then tl s else s);
         (ds, s2) = take_digits s1
     in if ds = [] \<or> (1 < length ds \<and> hd ds = CHR ''0'') then None
        else (let hasf = (s2 \<noteq> [] \<and> hd s2 = CHR ''.'');
                  (fs, s3) = (if hasf then take_digits (tl s2) else ([], s2))
              in if hasf \<and> fs = [] then None
                 else (case json_exponent s3 of None \<Rightarrow> None
                   | Some (ex, s4) \<Rightarrow>
                       Some (mk_num ((if neg then - 1 else 1) * int (str_nat (ds @ fs))) (length fs) ex, s4))))"

definition expect :: "char \<Rightarrow> string \<Rightarrow> string option" where
  "expect c s = (case skip_ws s of d # r \<Rightarrow> if d = c then Some r else None | [] \<Rightarrow> None)"

text \<open>A later pair of an object replaces an earlier one of the same key, in the earlier one's place.\<close>

fun put_key :: "string \<Rightarrow> json \<Rightarrow> (string \<times> json) list \<Rightarrow> (string \<times> json) list" where
  "put_key k v [] = [(k, v)]"
| "put_key k v ((k', v') # r) = (if k = k' then (k, v) # r else (k', v') # put_key k v r)"

fun json_value :: "nat \<Rightarrow> string \<Rightarrow> (json \<times> string) option"
and json_items :: "nat \<Rightarrow> json list \<Rightarrow> string \<Rightarrow> (json \<times> string) option"
and json_pairs :: "nat \<Rightarrow> (string \<times> json) list \<Rightarrow> string \<Rightarrow> (json \<times> string) option" where
  "json_value 0 s = None"
| "json_value (Suc n) s =
    (let t = skip_ws s in
     if t = [] then None
     else if hd t = CHR 0x22 then map_option (\<lambda>(x, r). (JStr x, r)) (json_chars (tl t))
     else if hd t = CHR ''['' then
       (case expect (CHR '']'') (tl t) of Some r \<Rightarrow> Some (JArr [], r) | None \<Rightarrow> json_items n [] (tl t))
     else if hd t = CHR ''{'' then
       (case expect (CHR ''}'') (tl t) of Some r \<Rightarrow> Some (JObj [], r) | None \<Rightarrow> json_pairs n [] (tl t))
     else if starts_with t ''true'' then Some (JBool True, drop 4 t)
     else if starts_with t ''false'' then Some (JBool False, drop 5 t)
     else if starts_with t ''null'' then Some (JNull, drop 4 t)
     else json_number t)"
| "json_items 0 acc s = None"
| "json_items (Suc n) acc s =
    (case json_value n s of None \<Rightarrow> None
     | Some (v, r) \<Rightarrow>
        (case expect (CHR '','') r of
           Some r' \<Rightarrow> json_items n (acc @ [v]) r'
         | None \<Rightarrow> map_option (\<lambda>r'. (JArr (acc @ [v]), r')) (expect (CHR '']'') r)))"
| "json_pairs 0 acc s = None"
| "json_pairs (Suc n) acc s =
    (case expect (CHR 0x22) s of None \<Rightarrow> None
     | Some r0 \<Rightarrow>
       (case json_chars r0 of None \<Rightarrow> None
        | Some (k, r1) \<Rightarrow>
          (case expect (CHR '':'') r1 of None \<Rightarrow> None
           | Some r2 \<Rightarrow>
             (case json_value n r2 of None \<Rightarrow> None
              | Some (v, r) \<Rightarrow>
                (case expect (CHR '','') r of
                   Some r' \<Rightarrow> json_pairs n (put_key k v acc) r'
                 | None \<Rightarrow> map_option (\<lambda>r'. (JObj (put_key k v acc), r')) (expect (CHR ''}'') r))))))"

definition json_parse :: "string \<Rightarrow> json option" where
  "json_parse s = (case json_value (2 * length s + 2) s of
     Some (v, r) \<Rightarrow> if skip_ws r = [] then Some v else None
   | None \<Rightarrow> None)"

section \<open>Printing\<close>

definition hex_digit :: "nat \<Rightarrow> char" where
  "hex_digit d = ''0123456789abcdef'' ! d"

definition print_char :: "char \<Rightarrow> string" where
  "print_char c =
    (case map_of [(CHR 0x22, CHR 0x22), (CHR 0x5C, CHR 0x5C), (CHR 0x08, CHR ''b''), (CHR 0x0C, CHR ''f''),
        (CHR 0x0A, CHR ''n''), (CHR 0x0D, CHR ''r''), (CHR 0x09, CHR ''t'')] c of
       Some e \<Rightarrow> [CHR 0x5C, e]
     | None \<Rightarrow> if code c < 32 then CHR 0x5C # ''u00'' @ [hex_digit (code c div 16), hex_digit (code c mod 16)]
              else [c])"

definition print_str :: "string \<Rightarrow> string" where
  "print_str s = [CHR 0x22] @ concat (map print_char s) @ [CHR 0x22]"

fun json_print :: "json \<Rightarrow> string" where
  "json_print JNull = ''null''"
| "json_print (JBool b) = (if b then ''true'' else ''false'')"
| "json_print (JInt i) = int_str i"
| "json_print (JDec m k) = (if m < 0 then ''-'' else []) @ nat_str (nat \<bar>m\<bar> div 10 ^ k) @ ''.''
     @ drop 1 (nat_str (10 ^ k + nat \<bar>m\<bar> mod 10 ^ k))"
| "json_print (JStr s) = print_str s"
| "json_print (JArr xs) = ''['' @ join_with '','' (map json_print xs) @ '']''"
| "json_print (JObj ps) = ''{'' @ join_with '','' (map (\<lambda>(k, v). print_str k @ '':'' @ json_print v) ps) @ ''}''"

section \<open>Strings that print as themselves\<close>

definition plain :: "string \<Rightarrow> bool" where
  "plain s \<longleftrightarrow> list_all (\<lambda>c. c \<noteq> CHR 0x22 \<and> c \<noteq> CHR 0x5C \<and> 32 \<le> code c) s"

lemma plain_Nil [simp]: "plain []" by (simp add: plain_def)
lemma plain_Cons [simp]: "plain (c # s) \<longleftrightarrow> c \<noteq> CHR 0x22 \<and> c \<noteq> CHR 0x5C \<and> 32 \<le> code c \<and> plain s"
  by (simp add: plain_def)
lemma plain_append [simp]: "plain (s @ t) \<longleftrightarrow> plain s \<and> plain t" by (simp add: plain_def)

lemma print_char_plain: "c \<noteq> CHR 0x22 \<Longrightarrow> c \<noteq> CHR 0x5C \<Longrightarrow> 32 \<le> code c \<Longrightarrow> print_char c = [c]"
  by (auto simp: print_char_def code_def split: option.splits)

lemma print_str_plain: "plain s \<Longrightarrow> print_str s = [CHR 0x22] @ s @ [CHR 0x22]"
  unfolding print_str_def by (induction s) (auto simp: print_char_plain)

lemma json_chars_plain: "plain s \<Longrightarrow> json_chars (s @ CHR 0x22 # r) = Some (s, r)"
  by (induction s) auto

lemma skip_ws_quote [simp]: "skip_ws (CHR 0x22 # s) = CHR 0x22 # s"
  by (simp add: skip_ws_def)

lemma json_value_str:
  "plain s \<Longrightarrow> json_value (Suc n) (CHR 0x22 # s @ CHR 0x22 # r) = Some (JStr s, r)"
  by (simp add: json_chars_plain Let_def)

lemma hex_plain: "list_all is_hex s \<Longrightarrow> plain s"
  by (induction s) (auto simp: is_hex_def code_def)

lemma digit_is_hex: "is_digit c \<Longrightarrow> is_hex c"
  by (auto simp: is_digit_def is_hex_def)

lemma digits_plain: "list_all is_digit s \<Longrightarrow> plain s"
  by (rule hex_plain) (auto simp: list_all_iff digit_is_hex)

text \<open>A printed natural number is read back up to the character that ends it.\<close>

lemma take_digits_nat_str:
  "(r = [] \<or> \<not> is_digit (hd r)) \<Longrightarrow> take_digits (nat_str n @ r) = (nat_str n, r)"
  using nat_str_digits [of n]
  by (cases r) (auto simp: take_digits_def takeWhile_append dropWhile_append takeWhile_eq_all_conv)

lemma json_number_nat:
  assumes "0 < n" "r = [] \<or> (\<not> is_digit (hd r) \<and> hd r \<noteq> CHR ''.'' \<and> hd r \<noteq> CHR ''e'' \<and> hd r \<noteq> CHR ''E'')"
  shows "json_number (nat_str n @ r) = Some (JInt (int n), r)"
proof -
  have d: "is_digit (hd (nat_str n))" using nat_str_digits [of n] by (simp add: hd_in_set)
  then have h: "hd (nat_str n @ r) \<noteq> CHR ''-''" by (auto simp: is_digit_def)
  have t: "take_digits (nat_str n @ r) = (nat_str n, r)" using assms(2) by (intro take_digits_nat_str) auto
  have e: "json_exponent r = Some (0, r)" using assms(2) by (cases r) (auto simp: json_exponent_def)
  show ?thesis using assms h t e nat_str_hd [OF assms(1)]
    by (auto simp: json_number_def Let_def mk_num_def)
qed

end
