(* ===== verification/MigrationRules.thy ===== *)
theory MigrationRules
  imports Json Types
begin

text \<open>
  The first half of src/config/migrations.ts: workflow migration rules, the successful route of an
  activation label through a flow, the validation and loading of the rules of a bundle, and the
  canonical text whose hash identifies a configuration value. A parsed document is a JSON value here.
  The directory listing and the YAML parser with its schema are parameters.
\<close>

section \<open>Rules\<close>

record MigrationMapping =
  mm_target :: string
  mm_replay :: "string list"
  mm_retain :: "string list"

record MigrationRule =
  wm_id :: string
  wm_source :: string
  wm_sourceFlow :: string
  wm_targetFlow :: string
  wm_activationLabel :: string
  wm_states :: "(string \<times> MigrationMapping) list"

section \<open>The successful route\<close>

definition route_start :: "FlowDefinition \<Rightarrow> string \<Rightarrow> string res" where
  "route_start f label =
    (let stage = (if label = fd_activationLabel f then Some (fd_initial f) else map_of (fd_activationRoutes f) label)
     in (case stage of None \<Rightarrow> fail ''Unknown activation route''
       | Some s \<Rightarrow> if s = [] then fail ''Unknown activation route'' else ok s))"

definition first_some :: "'a option \<Rightarrow> 'a option \<Rightarrow> 'a option" where
  "first_some x y = (case x of None \<Rightarrow> y | Some v \<Rightarrow> Some v)"

definition route_next :: "FlowState \<Rightarrow> string option" where
  "route_next st = map_option ft_target
    (first_some (map_of (fs_on st) (event_name AgentSucceeded))
      (first_some (map_of (fs_on st) (event_name HumanApproved)) (map_of (fs_on st) (event_name ReviewApproved))))"

text \<open>Follow the route until it ends or returns to a stage already listed.\<close>

function route_from :: "FlowDefinition \<Rightarrow> string list \<Rightarrow> string option \<Rightarrow> string list res" where
  "route_from f result stage =
    (case stage of None \<Rightarrow> ok result
     | Some s \<Rightarrow>
        if s = [] \<or> s \<in> set result then ok result
        else (case state_of f s of None \<Rightarrow> fail (''Unknown route stage: '' @ s)
          | Some st \<Rightarrow> route_from f (result @ [s]) (route_next st)))"
  by pat_completeness auto
termination
proof (relation "measure (\<lambda>(f, r, s). card (set (map fst (fd_states f)) - set r))", simp, clarsimp)
  fix f :: FlowDefinition and r s st
  assume a: "s \<notin> set r" "state_of f s = Some st"
  let ?D = "set (map fst (fd_states f))"
  have "s \<in> ?D" using a(2) by (force simp: state_of_def dest: map_of_SomeD)
  then have "?D - insert s (set r) \<subset> ?D - set r" using a(1) by auto
  then show "card (fst ` set (fd_states f) - insert s (set r)) < card (fst ` set (fd_states f) - set r)"
    by (simp add: psubset_card_mono)
qed

declare route_from.simps [simp del]

definition routeStages :: "FlowDefinition \<Rightarrow> string \<Rightarrow> string list res" where
  "routeStages f label = bindR (route_start f label) (\<lambda>s. route_from f [] (Some s))"

section \<open>Validation and loading\<close>

definition is_agent :: "FlowDefinition \<Rightarrow> string \<Rightarrow> bool" where
  "is_agent f s \<longleftrightarrow> map_option fs_kind (state_of f s) = Some KAgent"

definition checkTarget :: "FlowDefinition \<Rightarrow> string \<Rightarrow> string \<Rightarrow> unit res" where
  "checkTarget f label s =
    bindR (checkR (\<not> is_agent f s) (''Migration target must be an executable agent stage: '' @ s)) (\<lambda>_.
    bindR (routeStages f label) (\<lambda>route.
      checkR (s \<notin> set route) (''Migration target is on another route: '' @ s)))"

definition checkMapping :: "FlowDefinition \<Rightarrow> string \<Rightarrow> string \<times> MigrationMapping \<Rightarrow> unit res" where
  "checkMapping f label = (\<lambda>(stage, m).
    bindR (forR (checkTarget f label) (mm_target m # mm_replay m)) (\<lambda>_.
      forR (\<lambda>s. checkR (\<not> is_agent f s) (''Invalid retained stage: '' @ s)) (mm_retain m)))"

definition validateMigrationRule :: "FlowDefinition \<Rightarrow> MigrationRule \<Rightarrow> MigrationRule res" where
  "validateMigrationRule f rule =
    (if wm_targetFlow rule \<noteq> fd_id f then ok rule
     else bindR (forR (checkMapping f (wm_activationLabel rule)) (wm_states rule)) (\<lambda>_. ok rule))"

text \<open>What the rule directory holds: absent, unsafe, or the names of its entries and whether each is a file.\<close>

datatype RuleDirectory = NoRules | UnsafeRules | RuleEntries "(string \<times> bool) list"

definition rule_file :: "string \<Rightarrow> bool" where
  "rule_file name \<longleftrightarrow>
    (let base = (if ends_with name ''.yaml'' then take (length name - 5) name
                 else if ends_with name ''.yml'' then take (length name - 4) name else [])
     in base \<noteq> [] \<and> (is_lower (hd base) \<or> is_digit (hd base))
        \<and> list_all (\<lambda>c. is_lower c \<or> is_digit c \<or> c = CHR ''-'') (tl base))"

definition loadMigrationRules ::
  "(string \<Rightarrow> string) \<Rightarrow> (string \<Rightarrow> MigrationRule res) \<Rightarrow> FlowDefinition \<Rightarrow> RuleDirectory \<Rightarrow> MigrationRule list res" where
  "loadMigrationRules collate parse f dir =
    (case dir of NoRules \<Rightarrow> ok []
     | UnsafeRules \<Rightarrow> fail ''Unsafe migration directory''
     | RuleEntries entries \<Rightarrow>
        bindR (mapR (\<lambda>(name, isFile).
            if \<not> isFile \<or> \<not> rule_file name then fail (''Unsafe migration rule file: '' @ name)
            else bindR (parse name) (validateMigrationRule f)) (sort_key (\<lambda>e. collate (fst e)) entries)) (\<lambda>rules.
          if \<not> distinct (map wm_id rules) then fail ''Duplicate migration rule id'' else ok rules))"

section \<open>Canonical text\<close>

fun canonicalText :: "(string \<Rightarrow> string) \<Rightarrow> json \<Rightarrow> string" where
  "canonicalText collate (JArr xs) = ''['' @ join_with '','' (map (canonicalText collate) xs) @ '']''"
| "canonicalText collate (JObj ps) = ''{'' @ join_with '','' (map snd (sort_key (\<lambda>(k, s). collate k)
     (map (\<lambda>(k, v). (k, print_str k @ '':'' @ canonicalText collate v)) ps))) @ ''}''"
| "canonicalText collate v = json_print v"

definition rule_document :: "MigrationRule \<Rightarrow> json" where
  "rule_document r = JObj [(''apiVersion'', JStr ''agent-flow/migration-v1''), (''kind'', JStr ''WorkflowMigration''),
     (''id'', JStr (wm_id r)), (''source'', JStr (wm_source r)), (''sourceFlow'', JStr (wm_sourceFlow r)),
     (''targetFlow'', JStr (wm_targetFlow r)), (''activationLabel'', JStr (wm_activationLabel r)),
     (''states'', JObj (map (\<lambda>(s, m). (s, JObj [(''target'', JStr (mm_target m)),
        (''replay'', JArr (map JStr (mm_replay m))), (''retain'', JArr (map JStr (mm_retain m)))])) (wm_states r)))]"

section \<open>Routes and rules\<close>

lemma route_from_prefix: "route_from f r s = ok q \<Longrightarrow> \<exists>t. q = r @ t"
proof (induction f r s rule: route_from.induct)
  case (1 f r s)
  then show ?case
    by (subst (asm) (2) route_from.simps) (fastforce split: option.split_asm if_split_asm)
qed

lemma route_from_distinct:
  "route_from f r s = ok q \<Longrightarrow> distinct r \<Longrightarrow> (\<forall>x \<in> set r. state_of f x \<noteq> None) \<Longrightarrow> distinct q \<and> (\<forall>x \<in> set q. state_of f x \<noteq> None)"
proof (induction f r s rule: route_from.induct)
  case (1 f r s)
  show ?case
  proof (cases "\<exists>x st. s = Some x \<and> x \<noteq> [] \<and> x \<notin> set r \<and> state_of f x = Some st")
    case True
    then obtain x st where x: "s = Some x" "x \<noteq> []" "x \<notin> set r" "state_of f x = Some st" by blast
    have "route_from f (r @ [x]) (route_next st) = ok q" using 1(2) x by (simp add: route_from.simps [of f r "Some x"])
    then show ?thesis using 1(1) [OF x(1) _ x(4)] 1(3,4) x by auto
  next
    case False
    then have "q = r" using 1(2) by (auto simp: route_from.simps [of f r s] split: option.split_asm if_split_asm)
    then show ?thesis using 1(3,4) by simp
  qed
qed

lemma routeStages_ok:
  assumes "routeStages f label = ok route"
  shows "distinct route \<and> (\<forall>s \<in> set route. state_of f s \<noteq> None) \<and> (\<exists>s. route_start f label = ok s \<and> route \<noteq> [] \<and> hd route = s)"
proof -
  obtain s where s: "route_start f label = ok s" "route_from f [] (Some s) = ok route"
    using assms by (auto simp: routeStages_def)
  have ne: "s \<noteq> []" using s(1) by (auto simp: route_start_def Let_def split: option.split_asm if_split_asm)
  obtain st where st: "state_of f s = Some st" "route_from f [s] (route_next st) = ok route"
    using s(2) ne by (auto simp: route_from.simps [of f "[]" "Some s"] split: option.split_asm)
  from route_from_prefix [OF st(2)] obtain t where "route = s # t" by auto
  then show ?thesis using s route_from_distinct [OF s(2)] by simp
qed

end
