(* ===== verification/Semantic.thy ===== *)
theory Semantic
  imports Flow MigrationRules
begin

text \<open>
  src/config/load.ts and src/config/semantic.ts: the paths a pinned configuration may use, the
  loading of a stack with its flow and catalog, and the semantic checks on the loaded bundle.
  An absolute path is the list of its segments. The file system, the YAML parser and the schema
  validator are parameters: the records Fs and Loader say what they answer for each path.
\<close>

section \<open>Paths\<close>

type_synonym path = "string list"

fun normalize_segs :: "path \<Rightarrow> string list \<Rightarrow> path" where
  "normalize_segs acc [] = acc"
| "normalize_segs acc (s # ss) =
    (if s = [] \<or> s = ''.'' then normalize_segs acc ss
     else if s = ''..'' then normalize_segs (butlast acc) ss
     else normalize_segs (acc @ [s]) ss)"

definition resolve_path :: "path \<Rightarrow> string \<Rightarrow> path" where
  "resolve_path rt p =
    (if starts_with p ''/'' then normalize_segs [] (split_char (CHR ''/'') p)
     else normalize_segs rt (split_char (CHR ''/'') p))"

fun relative_segs :: "path \<Rightarrow> path \<Rightarrow> string list" where
  "relative_segs (a # as) (b # bs) =
    (if a = b then relative_segs as bs else map (\<lambda>_. ''..'') (a # as) @ (b # bs))"
| "relative_segs [] bs = bs"
| "relative_segs as [] = map (\<lambda>_. ''..'') as"

definition relative_path :: "path \<Rightarrow> path \<Rightarrow> string" where
  "relative_path rt p = join_with ''/'' (relative_segs rt p)"

definition isInside :: "path \<Rightarrow> path \<Rightarrow> bool" where
  "isInside rt p = (let child = relative_path rt p in
     child = '''' \<or> (\<not> starts_with child ''..'' \<and> \<not> starts_with child ''/''))"

lemma relative_segs_prefix: "relative_segs r (r @ t) = t"
  by (induction r) auto

lemma relative_segs_outside:
  "(\<nexists>t. p = r @ t) \<Longrightarrow> \<exists>rest. relative_segs r p = ''..'' # rest"
  by (induction r p rule: relative_segs.induct) auto

lemma isInside_prefix: "isInside r p \<Longrightarrow> \<exists>t. p = r @ t"
proof (rule ccontr)
  assume a: "isInside r p" "\<nexists>t. p = r @ t"
  then obtain rest where "relative_segs r p = ''..'' # rest" using relative_segs_outside by blast
  then show False using a(1)
    by (simp add: isInside_def relative_path_def join_with_def)
qed

section \<open>The bundle\<close>

record ConfigBundle =
  cb_revision :: string
  cb_root :: path
  cb_stack :: StackDefinition
  cb_flow :: FlowDefinition
  cb_catalog :: AgentCatalog
  cb_migrations :: "MigrationRule list"

type_synonym CatalogHarnesses = "(string \<times> HarnessTarget list) list"

record Fs =
  fx_realpath :: "path \<Rightarrow> path option"
  fx_readdir :: "path \<Rightarrow> (string \<times> bool) list option"
  fx_isFile :: "path \<Rightarrow> bool"
  fx_targets :: "path \<Rightarrow> string list option option"

record Loader =
  ld_fs :: Fs
  ld_stack :: "path \<Rightarrow> StackDefinition res"
  ld_validators :: "path \<Rightarrow> string list \<Rightarrow> unit res"
  ld_pinnedStack :: "StackDefinition \<Rightarrow> StackDefinition res"
  ld_pinnedFlow :: "path \<Rightarrow> FlowDefinition res"
  ld_pinnedCatalog :: "path \<Rightarrow> AgentCatalog res"
  ld_rules :: "path \<Rightarrow> RuleDirectory"
  ld_rule :: "path \<Rightarrow> string \<Rightarrow> MigrationRule res"
  ld_collate :: "string \<Rightarrow> string"

definition requiredContracts :: "string list" where
  "requiredContracts = [''schemas/v1/agent-decision.schema.json'',
    ''schemas/v1/agent-receipt.schema.json'', ''schemas/v1/control-state.schema.json'']"

definition requiredSchemas :: "string list" where
  "requiredSchemas = [''schemas/v1/stack.schema.json'', ''schemas/v1/flow.schema.json'',
    ''schemas/v1/agent-catalog.schema.json''] @ requiredContracts"

definition pinnedFile :: "Fs \<Rightarrow> path \<Rightarrow> string \<Rightarrow> path res" where
  "pinnedFile fx rt p =
    (let candidate = resolve_path rt p;
         escapes = fail (''configuration path '' @ p @ '' escapes the pinned root'')
     in if \<not> isInside rt candidate then escapes
        else case fx_realpath fx candidate of
            None \<Rightarrow> fail ''ENOENT''
          | Some canonical \<Rightarrow> if \<not> isInside rt canonical then escapes else ok canonical)"

definition stackFile :: "Fs \<Rightarrow> path \<Rightarrow> string \<Rightarrow> string \<Rightarrow> path res" where
  "stackFile fx rt stackPath revision =
    (case pinnedFile fx rt stackPath of
       Inl e \<Rightarrow> if e = Err ''ENOENT''
                then fail (''Configuration revision '' @ revision @ '' has no Stack at '' @ stackPath
                        @ ''. Check the stack path. For pre-Stack instances, restore the previous controller and finish or cancel them ''
                        @ ''before upgrading; see docs/upgrading.md. Pinned revisions must not be rewritten.'') else Inl e
     | Inr p \<Rightarrow> ok p)"

definition loadConfigBundle :: "Loader \<Rightarrow> path \<Rightarrow> string \<Rightarrow> string \<Rightarrow> ConfigBundle res" where
  "loadConfigBundle ld canonicalRoot stackPath revision =
    bindR (stackFile (ld_fs ld) canonicalRoot stackPath revision) (\<lambda>sf.
    bindR (ld_stack ld sf) (\<lambda>stack.
    bindR (forR (\<lambda>p. checkR (p \<notin> set (sd_contracts stack)) (''stack contract '' @ p @ '' is required''))
             requiredContracts) (\<lambda>_.
    bindR (forR (\<lambda>p. checkR (p \<notin> set (sd_schemas stack)) (''stack schema '' @ p @ '' is required''))
             requiredSchemas) (\<lambda>_.
    bindR (forR (\<lambda>c. checkR (c \<notin> set (sd_schemas stack))
                       (''stack contract '' @ c @ '' is not included in schemas'')) (sd_contracts stack)) (\<lambda>_.
    bindR (mapR (pinnedFile (ld_fs ld) canonicalRoot) (sd_contracts stack @ sd_schemas stack)) (\<lambda>_.
    bindR (pinnedFile (ld_fs ld) canonicalRoot ''schemas/v1'') (\<lambda>dir.
    bindR (ld_validators ld dir (map (drop (length ''schemas/v1/'')) (sd_schemas stack))) (\<lambda>_.
    bindR (ld_pinnedStack ld stack) (\<lambda>_.
    bindR (pinnedFile (ld_fs ld) canonicalRoot (sd_flow stack)) (\<lambda>ff.
    bindR (ld_pinnedFlow ld ff) (\<lambda>flow.
    bindR (pinnedFile (ld_fs ld) canonicalRoot (sd_catalog stack)) (\<lambda>cf.
    bindR (ld_pinnedCatalog ld cf) (\<lambda>catalog.
    bindR (loadMigrationRules (ld_collate ld) (ld_rule ld canonicalRoot) flow (ld_rules ld canonicalRoot)) (\<lambda>rules.
    ok \<lparr> cb_revision = revision, cb_root = canonicalRoot, cb_stack = stack,
         cb_flow = flow, cb_catalog = catalog, cb_migrations = rules \<rparr>))))))))))))))"

lemma pinnedFile_inside: "pinnedFile fx rt p = ok q \<Longrightarrow> isInside rt q"
  by (auto simp: pinnedFile_def Let_def split: if_splits option.splits)

section \<open>Semantic checks\<close>

record SemanticError =
  se_path :: string
  se_message :: string

definition se :: "string \<Rightarrow> string \<Rightarrow> SemanticError" where
  "se p m = \<lparr> se_path = p, se_message = m \<rparr>"

definition SemanticConfigError :: "SemanticError list \<Rightarrow> SemanticError list" where
  "SemanticConfigError errors = sort_key (\<lambda>e. (se_path e, se_message e)) errors"

text \<open>
  The names of guards and actions are a union of literals in the code and a datatype here, so that a name outside the union
  (which the schema of a flow refuses) is no value of the model: on a decoded flow the two checks of membership hold.
\<close>

fun guard_text :: "FlowGuardName \<Rightarrow> string" where
  "guard_text AuthorizedActor = ''authorized-actor''"
| "guard_text ActivationPresent = ''activation-present''"
| "guard_text TicketOpen = ''ticket-open''"
| "guard_text HeadMatches = ''head-matches''"
| "guard_text ReceiptValid = ''receipt-valid''"

fun action_text :: "FlowActionName \<Rightarrow> string" where
  "action_text RecordReceipt = ''record-receipt''"
| "action_text RememberResumeState = ''remember-resume-state''"
| "action_text ClearResumeState = ''clear-resume-state''"
| "action_text ResetRetryBudget = ''reset-retry-budget''"
| "action_text RemoveActivationLabel = ''remove-activation-label''"

definition IMPLEMENTED_GUARDS :: "FlowGuardName list" where
  "IMPLEMENTED_GUARDS = [AuthorizedActor, ActivationPresent, TicketOpen, HeadMatches, ReceiptValid]"

definition IMPLEMENTED_ACTIONS :: "FlowActionName list" where
  "IMPLEMENTED_ACTIONS = [RecordReceipt, RememberResumeState, ClearResumeState, ResetRetryBudget,
     RemoveActivationLabel]"

text \<open>[...new Set(targets)].sort(): claude sorts before codex.\<close>

definition targets_of :: "string list \<Rightarrow> HarnessTarget list" where
  "targets_of ts = (if ''claude'' \<in> set ts then [Claude] else []) @ (if ''codex'' \<in> set ts then [Codex] else [])"

definition manifestErrors :: "Fs \<Rightarrow> string \<Rightarrow> path \<Rightarrow> SemanticError list \<times> HarnessTarget list option" where
  "manifestErrors fx p packageRoot =
    (case fx_targets fx (packageRoot @ [''apm.yml'']) of
       None \<Rightarrow> ([se p ''apm.yml is not valid YAML''], None)
     | Some None \<Rightarrow> ([se p ''apm.yml must declare at least one harness target''], None)
     | Some (Some ts) \<Rightarrow>
         if ts = [] then ([se p ''apm.yml must declare at least one harness target''], None)
         else if \<not> list_all (\<lambda>t. t = ''claude'' \<or> t = ''codex'') ts
              then ([se p ''apm.yml declares an unsupported harness target''], None)
         else ([], Some (targets_of ts)))"

definition agentEntryErrors :: "Fs \<Rightarrow> string \<Rightarrow> path \<Rightarrow> SemanticError list" where
  "agentEntryErrors fx p packageRoot =
    (case fx_readdir fx (packageRoot @ [''.apm'', ''agents'']) of
       None \<Rightarrow> [se p ''package must contain exactly one logical entry agent'']
     | Some es \<Rightarrow> if length (filter (\<lambda>(n, file). file \<and> ends_with n ''.agent.md'') es) \<noteq> 1
                 then [se p ''package must contain exactly one logical entry agent''] else [])"

definition validatePackage :: "Fs \<Rightarrow> path \<Rightarrow> string \<times> string \<Rightarrow> SemanticError list \<times> HarnessTarget list option" where
  "validatePackage fx rt a = (case a of (agentId, package) \<Rightarrow>
    (let p = ''catalog.agents.'' @ agentId @ ''.package''; candidate = resolve_path rt package
     in if \<not> isInside rt candidate then ([se p ''package path escapes the pinned root''], None)
        else case fx_realpath fx candidate of
            None \<Rightarrow> ([se p (''package '' @ package @ '' does not exist'')], None)
          | Some packageRoot \<Rightarrow>
              if \<not> isInside rt packageRoot then ([se p ''package path escapes the pinned root''], None)
              else case fx_readdir fx packageRoot of
                  None \<Rightarrow> ([se p (''package '' @ package @ '' is not a readable directory'')], None)
                | Some entries \<Rightarrow>
                    (let (me, ts) = (if length (filter (\<lambda>(n, file). file \<and> n = ''apm.yml'') entries) \<noteq> 1
                                     then ([se p ''package must contain exactly one apm.yml''], None)
                                     else manifestErrors fx p packageRoot);
                         le = (if fx_isFile fx (packageRoot @ [''apm.lock.yaml'']) then []
                               else [se p ''apm.lock.yaml is not a committed file''])
                     in (me @ le @ agentEntryErrors fx p packageRoot, ts))))"

definition targetErrors :: "FlowDefinition \<Rightarrow> string \<Rightarrow> FlowState \<Rightarrow> string \<Rightarrow> FlowTransition \<Rightarrow> SemanticError list" where
  "targetErrors f stateId st tp t =
    (if ft_target t = ''$resume''
     then (if (stateId \<noteq> ''needs-human'' \<and> stateId \<noteq> ''blocked'') \<or> fs_kind st \<noteq> KPaused
           then [se (tp @ ''.target'') ''$resume is allowed only from needs-human or blocked''] else [])
     else if \<not> has_key (fd_states f) (ft_target t)
          then [se (tp @ ''.target'') (''transition target '' @ ft_target t @ '' does not exist'')] else [])"

definition resumeErrors :: "FlowDefinition \<Rightarrow> string \<Rightarrow> FlowTransition \<Rightarrow> SemanticError list" where
  "resumeErrors f tp t =
    (case ft_resumeTarget t of None \<Rightarrow> []
     | Some r \<Rightarrow>
        (if ft_target t \<noteq> ''needs-human'' \<and> ft_target t \<noteq> ''blocked''
         then [se (tp @ ''.resumeTarget'') ''resumeTarget is allowed only for transitions into needs-human or blocked'']
         else []) @
        (if \<not> has_key (fd_states f) r
         then [se (tp @ ''.resumeTarget'') (''resume target '' @ r @ '' does not exist'')] else []))"

definition transitionErrors :: "FlowDefinition \<Rightarrow> string \<Rightarrow> FlowState \<Rightarrow> string \<Rightarrow> FlowTransition \<Rightarrow> SemanticError list" where
  "transitionErrors f stateId st event t =
    (let tp = ''flow.spec.states.'' @ stateId @ ''.on.'' @ event
     in targetErrors f stateId st tp t @ resumeErrors f tp t
        @ concat (map (\<lambda>g. if g \<in> set IMPLEMENTED_GUARDS then [] else [se (tp @ ''.guards'') (''guard '' @ guard_text g @ '' is not implemented'')]) (ft_guards t))
        @ concat (map (\<lambda>a. if a \<in> set IMPLEMENTED_ACTIONS then [] else [se (tp @ ''.actions'') (''action '' @ action_text a @ '' is not implemented'')]) (ft_actions t)))"

definition stateErrors :: "ConfigBundle \<Rightarrow> string \<Rightarrow> SemanticError list" where
  "stateErrors b stateId =
    (case map_of (fd_states (cb_flow b)) stateId of None \<Rightarrow> []
     | Some st \<Rightarrow>
       (let sp = ''flow.spec.states.'' @ stateId; events = sort (map fst (fs_on st))
        in (if fs_kind st = KFinal \<and> events \<noteq> [] then [se (sp @ ''.on'') ''final state must not define transitions'']
            else if fs_kind st \<noteq> KFinal \<and> events = [] then [se (sp @ ''.on'') ''non-final state must define at least one transition'']
            else [])
         @ (case fs_agent st of None \<Rightarrow> []
            | Some a \<Rightarrow> if a \<noteq> '''' \<and> \<not> has_key (ac_agents (cb_catalog b)) a
                        then [se (sp @ ''.agent'') (''agent '' @ a @ '' does not exist'')] else [])
         @ concat (map (\<lambda>e. case map_of (fs_on st) e of None \<Rightarrow> []
                         | Some t \<Rightarrow> transitionErrors (cb_flow b) stateId st e t) events)))"

definition routeErrors :: "FlowDefinition \<Rightarrow> SemanticError list" where
  "routeErrors f =
    (if \<not> has_key (fd_states f) (fd_initial f)
     then [se ''flow.spec.initial'' (''initial state '' @ fd_initial f @ '' does not exist'')] else [])
    @ concat (map (\<lambda>(label, s). if has_key (fd_states f) s then []
        else [se (''flow.spec.activationRoutes.'' @ label) (''initial state '' @ s @ '' does not exist'')])
       (fd_activationRoutes f))"

definition validateSemantics :: "Fs \<Rightarrow> ConfigBundle \<Rightarrow> SemanticError list + CatalogHarnesses" where
  "validateSemantics fx b =
    (let f = cb_flow b;
         agents = sort (map fst (ac_agents (cb_catalog b)));
         packages = map (\<lambda>a. (a, validatePackage fx (cb_root b) (a, the (map_of (ac_agents (cb_catalog b)) a)))) agents;
         errors = routeErrors f @ concat (map (stateErrors b) (sort (map fst (fd_states f))))
                  @ concat (map (\<lambda>(a, es, ts). es) packages)
     in if errors \<noteq> [] then Inl (SemanticConfigError errors)
        else Inr (concat (map (\<lambda>(a, es, ts). case ts of None \<Rightarrow> [] | Some h \<Rightarrow> [(a, h)]) packages)))"

definition distinct_keys :: "FlowDefinition \<Rightarrow> bool" where
  "distinct_keys f \<longleftrightarrow> distinct (map fst (fd_states f)) \<and>
     (\<forall>(s, st) \<in> set (fd_states f). distinct (map fst (fs_on st)))"

lemma stateErrors_transition:
  assumes "stateErrors b s = []" "map_of (fd_states (cb_flow b)) s = Some st" "map_of (fs_on st) e = Some t"
  shows "transition_closed (cb_flow b) s st t"
proof -
  have "e \<in> set (map fst (fs_on st))" using assms(3) by (metis map_of_SomeD image_eqI fst_conv set_map)
  then have "transitionErrors (cb_flow b) s st e t = []"
    using assms by (auto simp: stateErrors_def Let_def split: if_splits)
  then show ?thesis
    by (auto simp: transitionErrors_def Let_def targetErrors_def resumeErrors_def transition_closed_def
        has_key_map_of state_of_def split: if_splits option.splits)
qed

lemma validateSemantics_errors:
  "validateSemantics fx b = Inr h \<Longrightarrow> routeErrors (cb_flow b) = [] \<and>
     (\<forall>s \<in> set (map fst (fd_states (cb_flow b))). stateErrors b s = [])"
  by (auto simp: validateSemantics_def Let_def split: if_splits)

lemma validateSemantics_closed:
  assumes "validateSemantics fx b = Inr h" "distinct_keys (cb_flow b)"
  shows "flow_closed (cb_flow b)"
proof -
  note v = validateSemantics_errors [OF assms(1)]
  have init: "state_of (cb_flow b) (fd_initial (cb_flow b)) \<noteq> None"
    using v by (auto simp: routeErrors_def has_key_map_of state_of_def split: if_splits)
  have "transition_closed (cb_flow b) s st t"
    if "(s, st) \<in> set (fd_states (cb_flow b))" "(e, t) \<in> set (fs_on st)" for s st e t
  proof -
    have "map_of (fd_states (cb_flow b)) s = Some st" "map_of (fs_on st) e = Some t"
      using that assms(2) by (auto simp: distinct_keys_def map_of_is_SomeI)
    moreover have "stateErrors b s = []" using v that(1) by force
    ultimately show ?thesis using stateErrors_transition by blast
  qed
  then show ?thesis using init by (auto simp: flow_closed_def)
qed

lemma validateSemantics_packages:
  assumes "validateSemantics fx b = Inr h" "has_key (ac_agents (cb_catalog b)) a"
  shows "fst (validatePackage fx (cb_root b) (a, the (map_of (ac_agents (cb_catalog b)) a))) = []"
proof -
  let ?v = "\<lambda>a. validatePackage fx (cb_root b) (a, the (map_of (ac_agents (cb_catalog b)) a))"
  have "a \<in> set (sort (map fst (ac_agents (cb_catalog b))))"
    using assms(2) by (auto simp: has_key_def)
  moreover have "concat (map (\<lambda>(a, es, ts). es) (map (\<lambda>a. (a, ?v a)) (sort (map fst (ac_agents (cb_catalog b)))))) = []"
    using assms(1) by (auto simp: validateSemantics_def Let_def split: if_splits)
  ultimately show ?thesis by (auto simp: case_prod_beta)
qed

lemma validatePackage_root:
  assumes "fst (validatePackage fx rt (a, package)) = []"
  shows "\<exists>q. fx_realpath fx (resolve_path rt package) = Some q \<and> isInside rt q
     \<and> isInside rt (resolve_path rt package) \<and> snd (validatePackage fx rt (a, package)) \<noteq> None"
  using assms by (auto simp: validatePackage_def Let_def manifestErrors_def
      split: if_splits option.splits prod.splits)

lemma SemanticConfigError_sorted:
  "mset (SemanticConfigError es) = mset es \<and> sorted (map (\<lambda>e. (se_path e, se_message e)) (SemanticConfigError es))"
  by (simp add: SemanticConfigError_def)

section \<open>Properties\<close>

text \<open>
  C2: a bundle that passes the semantic checks has a closed flow: the initial state, every activation
  route, every transition target and every resume target exists, and $resume is used only from a
  paused needs-human or blocked state. State names and event names are unique, as in a YAML mapping.
\<close>

theorem validateSemantics_flow_closed:
  assumes "validateSemantics fx b = Inr h" "distinct_keys (cb_flow b)"
  shows "flow_closed (cb_flow b) \<and>
    (\<forall>(label, s) \<in> set (fd_activationRoutes (cb_flow b)). state_of (cb_flow b) s \<noteq> None)"
proof -
  have "\<forall>(label, s) \<in> set (fd_activationRoutes (cb_flow b)). has_key (fd_states (cb_flow b)) s"
    using validateSemantics_errors [OF assms(1)] by (auto simp: routeErrors_def split: if_split_asm)
  then show ?thesis using validateSemantics_closed [OF assms]
    by (auto simp: has_key_map_of state_of_def)
qed

definition sample_fs :: Fs where
  "sample_fs = \<lparr> fx_realpath = (\<lambda>p. Some p),
     fx_readdir = (\<lambda>p. if p = [''cfg'', ''agents'', ''dev''] then Some [(''apm.yml'', True), (''apm.lock.yaml'', True)]
        else if p = [''cfg'', ''agents'', ''dev'', ''.apm'', ''agents''] then Some [(''dev.agent.md'', True)] else None),
     fx_isFile = (\<lambda>p. p = [''cfg'', ''agents'', ''dev'', ''apm.lock.yaml'']),
     fx_targets = (\<lambda>p. Some (Some [''codex'', ''claude''])) \<rparr>"

definition sample_bundle :: ConfigBundle where
  "sample_bundle = \<lparr> cb_revision = ''rev'', cb_root = [''cfg''],
     cb_stack = \<lparr> sd_flow = ''flow.yaml'', sd_catalog = ''agents.yaml'', sd_contracts = [], sd_schemas = [],
       sd_preparedPublication = True \<rparr>,
     cb_flow = sample_flow, cb_catalog = \<lparr> ac_agents = [(''dev'', ''agents/dev'')] \<rparr>,
     cb_migrations = [] \<rparr>"

lemma sample_validates: "validateSemantics sample_fs sample_bundle = Inr [(''dev'', [Claude, Codex])]"
  by code_simp

lemma sample_distinct: "distinct_keys sample_flow"
  by (simp add: distinct_keys_def sample_flow_def)

theorem validateSemantics_flow_closed_witness:
  "validateSemantics sample_fs sample_bundle = Inr [(''dev'', [Claude, Codex])] \<and> flow_closed (cb_flow sample_bundle)"
proof -
  have "distinct_keys (cb_flow sample_bundle)" by (simp add: sample_bundle_def sample_distinct)
  then show ?thesis using validateSemantics_flow_closed [OF sample_validates] sample_validates by blast
qed

text \<open>
  an accepted catalog has every agent package inside the pinned root, lexically and after its
  symbolic links are resolved, and yields a harness list for the agent.
\<close>

theorem validateSemantics_packages_inside:
  assumes "validateSemantics fx b = Inr h" "map_of (ac_agents (cb_catalog b)) a = Some package"
  shows "\<exists>q t. fx_realpath fx (resolve_path (cb_root b) package) = Some q \<and> q = cb_root b @ t \<and>
    isInside (cb_root b) (resolve_path (cb_root b) package)"
proof -
  have "has_key (ac_agents (cb_catalog b)) a" using assms(2) by (simp add: has_key_map_of)
  then have "fst (validatePackage fx (cb_root b) (a, package)) = []"
    using validateSemantics_packages [OF assms(1)] assms(2) by fastforce
  then show ?thesis using validatePackage_root isInside_prefix by blast
qed

theorem validateSemantics_packages_inside_witness:
  "\<exists>q t. fx_realpath sample_fs [''cfg'', ''agents'', ''dev''] = Some q \<and> q = [''cfg''] @ t"
proof -
  have "map_of (ac_agents (cb_catalog sample_bundle)) ''dev'' = Some ''agents/dev''"
    by (simp add: sample_bundle_def)
  note p = validateSemantics_packages_inside [OF sample_validates this]
  have "resolve_path (cb_root sample_bundle) ''agents/dev'' = [''cfg'', ''agents'', ''dev'']" by code_simp
  moreover have "cb_root sample_bundle = [''cfg'']" by (simp add: sample_bundle_def)
  ultimately show ?thesis using p by auto
qed

end
