(* ===== verification/Scheduler.thy ===== *)
theory Scheduler
  imports Prelude
begin

text \<open>
  src/runtime/scheduler.ts: the per-ticket work queue. Entries are numbered in the order they are
  created; the maps of the record give the fields of an entry. sd_micro is the queue of start
  microtasks, sd_running the entries whose work promise is pending, sd_settled the outcomes of the
  entry promises in the order they settle. The order in which close rejects entries of different
  keys is the order of their numbers. Steps interleave as the event loop runs them.
\<close>

section \<open>State\<close>

record 'v sched =
  sd_pending :: "nat list"
  sd_keyed :: "string \<Rightarrow> nat list"
  sd_drained :: "nat list"
  sd_active :: int
  sd_concurrency :: int
  sd_closed :: bool
  sd_id :: "nat \<Rightarrow> string"
  sd_value :: "nat \<Rightarrow> 'v"
  sd_claimed :: "nat \<Rightarrow> bool"
  sd_started :: "nat \<Rightarrow> bool"
  sd_next :: nat
  sd_micro :: "nat list"
  sd_running :: "nat list"
  sd_settled :: "(nat \<times> bool) list"
  sd_drainDone :: "nat list"
  sd_drainNext :: nat

definition createScheduler :: "'v \<Rightarrow> int \<Rightarrow> 'v sched res" where
  "createScheduler dflt concurrency =
    (if concurrency < 1 then fail ''scheduler concurrency must be a positive integer''
     else ok \<lparr> sd_pending = [], sd_keyed = (\<lambda>_. []), sd_drained = [], sd_active = 0,
       sd_concurrency = concurrency, sd_closed = False, sd_id = (\<lambda>_. []), sd_value = (\<lambda>_. dflt),
       sd_claimed = (\<lambda>_. False), sd_started = (\<lambda>_. False), sd_next = 0, sd_micro = [],
       sd_running = [], sd_settled = [], sd_drainDone = [], sd_drainNext = 0 \<rparr>)"

section \<open>Operations\<close>

definition ready :: "'v sched \<Rightarrow> nat \<Rightarrow> bool" where
  "ready s t \<longleftrightarrow> sd_keyed s (sd_id s t) \<noteq> [] \<and> hd (sd_keyed s (sd_id s t)) = t"

definition claim :: "nat \<Rightarrow> 'v sched \<Rightarrow> 'v sched" where
  "claim t s = s \<lparr> sd_pending := remove1 t (sd_pending s), sd_claimed := (sd_claimed s)(t := True),
     sd_active := sd_active s + 1, sd_micro := sd_micro s @ [t] \<rparr>"

function pump :: "'v sched \<Rightarrow> 'v sched" where
  "pump s = (if sd_active s < sd_concurrency s
     then (case List.find (ready s) (sd_pending s) of None \<Rightarrow> s | Some t \<Rightarrow> pump (claim t s))
     else s)"
  by pat_completeness auto
termination
proof (relation "measure (\<lambda>s. length (sd_pending s))")
  fix s :: "'v sched" and t
  assume "List.find (ready s) (sd_pending s) = Some t"
  then have "t \<in> set (sd_pending s)" by (auto simp: find_Some_iff)
  then show "(claim t s, s) \<in> measure (\<lambda>s. length (sd_pending s))"
    using length_pos_if_in_set [of t "sd_pending s"] by (simp add: claim_def length_remove1)
qed simp

declare pump.simps [simp del]

definition settleDrain :: "'v sched \<Rightarrow> 'v sched" where
  "settleDrain s = (if sd_active s = 0 \<and> sd_pending s = []
     then s \<lparr> sd_drained := [], sd_drainDone := sd_drainDone s @ sd_drained s \<rparr> else s)"

definition remove_entry :: "nat \<Rightarrow> 'v sched \<Rightarrow> 'v sched" where
  "remove_entry t s = s \<lparr> sd_keyed := (sd_keyed s)(sd_id s t := remove1 t (sd_keyed s (sd_id s t))) \<rparr>"

definition new_entry :: "('v \<Rightarrow> string) \<Rightarrow> 'v \<Rightarrow> 'v sched \<Rightarrow> 'v sched" where
  "new_entry key v s = (let t = sd_next s; k = key v in
     s \<lparr> sd_id := (sd_id s)(t := k), sd_value := (sd_value s)(t := v),
         sd_claimed := (sd_claimed s)(t := False), sd_started := (sd_started s)(t := False),
         sd_keyed := (sd_keyed s)(k := sd_keyed s k @ [t]), sd_pending := sd_pending s @ [t],
         sd_next := t + 1 \<rparr>)"

definition schedule :: "('v \<Rightarrow> string) \<Rightarrow> 'v \<Rightarrow> ('v sched, nat) io" where
  "schedule key v s =
    (if sd_closed s then (fail ''scheduler is closed'', s)
     else let generations = sd_keyed s (key v) in
       if generations \<noteq> [] \<and> \<not> sd_started s (last generations) then (ok (last generations), s)
       else (ok (sd_next s), pump (new_entry key v s)))"

definition setConcurrency :: "int \<Rightarrow> ('v sched, unit) io" where
  "setConcurrency n s =
    (if n < 1 then (fail ''scheduler concurrency must be a positive integer'', s)
     else (ok (), pump (s \<lparr> sd_concurrency := n \<rparr>)))"

definition cancel_entry :: "nat \<Rightarrow> 'v sched \<Rightarrow> 'v sched" where
  "cancel_entry t s =
    (let s1 = s \<lparr> sd_pending := remove1 t (sd_pending s),
                 sd_active := (if sd_claimed s t then sd_active s - 1 else sd_active s) \<rparr>;
         s2 = remove_entry t s1
     in s2 \<lparr> sd_settled := sd_settled s2 @ [(t, False)] \<rparr>)"

definition close_scheduler :: "'v sched \<Rightarrow> 'v sched" where
  "close_scheduler s =
    (if sd_closed s then s
     else let cancelled = filter (\<lambda>t. t \<in> set (sd_keyed s (sd_id s t)) \<and> \<not> sd_started s t) [0..<sd_next s]
       in settleDrain (fold cancel_entry cancelled (s \<lparr> sd_closed := True \<rparr>)))"

definition drain_scheduler :: "'v sched \<Rightarrow> nat \<times> 'v sched" where
  "drain_scheduler s = (let d = sd_drainNext s in
     (d, if sd_active s = 0 \<and> sd_pending s = []
         then s \<lparr> sd_drainNext := d + 1, sd_drainDone := sd_drainDone s @ [d] \<rparr>
         else s \<lparr> sd_drainNext := d + 1, sd_drained := sd_drained s @ [d] \<rparr>))"

definition snapshot :: "'v sched \<Rightarrow> int \<times> int \<times> int" where
  "snapshot s = (sd_active s, int (length (sd_pending s)), sd_concurrency s)"

definition release :: "nat \<Rightarrow> 'v sched \<Rightarrow> 'v sched" where
  "release t s = remove_entry t (s \<lparr> sd_active := sd_active s - 1, sd_running := remove1 t (sd_running s) \<rparr>)"

definition finish :: "nat \<Rightarrow> bool \<Rightarrow> 'v sched \<Rightarrow> 'v sched" where
  "finish t succeeded s =
    (let s1 = release t s;
         s2 = (if sd_closed s1 then s1 else pump s1);
         s3 = settleDrain s2
     in s3 \<lparr> sd_settled := sd_settled s3 @ [(t, succeeded)] \<rparr>)"

text \<open>The microtask of an entry; throws says whether options.run throws instead of returning a promise.\<close>

definition start_entry :: "bool \<Rightarrow> nat \<Rightarrow> 'v sched \<Rightarrow> 'v sched" where
  "start_entry throws t s =
    (if sd_closed s \<or> \<not> ready s t then s
     else let s1 = s \<lparr> sd_started := (sd_started s)(t := True), sd_running := sd_running s @ [t] \<rparr>
       in if throws then finish t False s1 else s1)"

section \<open>Steps\<close>

inductive sched_step :: "('v \<Rightarrow> string) \<Rightarrow> 'v sched \<Rightarrow> 'v sched \<Rightarrow> bool" for key where
  step_schedule: "sched_step key s (snd (schedule key v s))"
| step_concurrency: "sched_step key s (snd (setConcurrency n s))"
| step_close: "sched_step key s (close_scheduler s)"
| step_drain: "sched_step key s (snd (drain_scheduler s))"
| step_micro: "sd_micro s = t # ms \<Longrightarrow> sched_step key s (start_entry throws t (s \<lparr> sd_micro := ms \<rparr>))"
| step_settle: "t \<in> set (sd_running s) \<Longrightarrow> sched_step key s (finish t succeeded s)"

inductive_cases sched_stepE: "sched_step key s s'"

inductive reachable :: "('v \<Rightarrow> string) \<Rightarrow> 'v sched \<Rightarrow> bool" for key where
  reach_init: "createScheduler d n = ok s \<Longrightarrow> reachable key s"
| reach_step: "reachable key s \<Longrightarrow> sched_step key s s' \<Longrightarrow> reachable key s'"

section \<open>The invariant\<close>

text \<open>
  The generations of a key: at most a started entry followed by one that waits. Every entry of a
  generation is pending, has its microtask queued, or is running.
\<close>

definition gens_ok :: "'v sched \<Rightarrow> string \<Rightarrow> bool" where
  "gens_ok s k \<longleftrightarrow> distinct (sd_keyed s k) \<and> length (sd_keyed s k) \<le> 2 \<and>
     (\<forall>t \<in> set (sd_keyed s k). sd_id s t = k \<and> t < sd_next s) \<and>
     (\<forall>t \<in> set (tl (sd_keyed s k)). \<not> sd_claimed s t \<and> \<not> sd_started s t \<and> sd_started s (hd (sd_keyed s k)))"

definition live :: "'v sched \<Rightarrow> nat \<Rightarrow> bool" where
  "live s t \<longleftrightarrow> t \<in> set (sd_keyed s (sd_id s t))"

definition sched_inv :: "'v sched \<Rightarrow> bool" where
  "sched_inv s \<longleftrightarrow>
     (\<forall>k. gens_ok s k) \<and> (\<forall>t. sd_started s t \<longrightarrow> sd_claimed s t) \<and>
     distinct (sd_pending s) \<and> (\<forall>t. t \<in> set (sd_pending s) \<longleftrightarrow> live s t \<and> \<not> sd_claimed s t) \<and>
     distinct (sd_running s) \<and> (\<forall>t. t \<in> set (sd_running s) \<longleftrightarrow> live s t \<and> sd_started s t) \<and>
     (\<not> sd_closed s \<longrightarrow> distinct (sd_micro s) \<and>
        (\<forall>t. t \<in> set (sd_micro s) \<longleftrightarrow> live s t \<and> sd_claimed s t \<and> \<not> sd_started s t)) \<and>
     (sd_closed s \<longrightarrow> (\<forall>t. live s t \<longrightarrow> sd_started s t)) \<and>
     sd_active s = int (length (sd_running s)) + (if sd_closed s then 0 else int (length (sd_micro s))) \<and>
     1 \<le> sd_concurrency s \<and> (\<forall>t \<ge> sd_next s. \<not> sd_claimed s t \<and> \<not> live s t)"


section \<open>Every operation keeps the invariant\<close>

lemma ready_live: "ready s t \<Longrightarrow> live s t"
  unfolding ready_def live_def by (metis hd_in_set)

lemma inv_gens: "sched_inv s \<Longrightarrow> gens_ok s k"
  by (simp add: sched_inv_def)

lemma tl_hd_distinct: "distinct xs \<Longrightarrow> x \<in> set (tl xs) \<Longrightarrow> x \<noteq> hd xs"
  by (cases xs) auto

lemma claim_inv:
  assumes "sched_inv s" "t \<in> set (sd_pending s)" "ready s t" "\<not> sd_closed s"
  shows "sched_inv (claim t s)"
proof -
  note i = assms(1) [unfolded sched_inv_def]
  have nt: "\<not> sd_claimed s t" "\<not> sd_started s t" "live s t" using i assms(2) by auto
  have g: "gens_ok (claim t s) k" for k
  proof -
    have gk: "gens_ok s k" using i by blast
    have "t \<notin> set (tl (sd_keyed s k))"
    proof
      assume a: "t \<in> set (tl (sd_keyed s k))"
      then have "t \<in> set (sd_keyed s k)" by (cases "sd_keyed s k") auto
      then have "sd_id s t = k" using gk by (simp add: gens_ok_def)
      then have "hd (sd_keyed s k) = t" using assms(3) by (simp add: ready_def)
      then show False using a gk by (auto simp: gens_ok_def dest: tl_hd_distinct)
    qed
    then show ?thesis using gk by (auto simp: gens_ok_def claim_def)
  qed
  have l: "live (claim t s) u \<longleftrightarrow> live s u" for u by (simp add: live_def claim_def)
  show ?thesis unfolding sched_inv_def l
    using i g nt assms(4) by (auto simp: claim_def)
qed

lemma pump_closed: "sched_inv s \<Longrightarrow> sd_closed s \<Longrightarrow> pump s = s"
proof -
  assume a: "sched_inv s" "sd_closed s"
  then have "t \<notin> set (sd_pending s)" for t unfolding sched_inv_def by blast
  then have "sd_pending s = []" by (metis hd_in_set)
  then show ?thesis by (subst pump.simps) simp
qed

lemma pump_props:
  "sched_inv s \<Longrightarrow> sched_inv (pump s) \<and> sd_closed (pump s) = sd_closed s \<and>
     sd_concurrency (pump s) = sd_concurrency s \<and> sd_running (pump s) = sd_running s \<and>
     sd_started (pump s) = sd_started s \<and> sd_keyed (pump s) = sd_keyed s \<and> sd_id (pump s) = sd_id s \<and>
     (sd_closed s \<or> (\<forall>t \<in> set (sd_pending (pump s)). ready (pump s) t \<longrightarrow> sd_concurrency s \<le> sd_active (pump s))) \<and>
     sd_active s \<le> sd_active (pump s) \<and> sd_active (pump s) \<le> max (sd_active s) (sd_concurrency s)"
proof (induction s rule: pump.induct)
  case (1 s)
  show ?case
  proof (cases "sd_closed s")
    case True
    then have "pump s = s" using pump_closed 1(2) by blast
    then show ?thesis using True 1(2) by simp
  next
    case open_: False
    show ?thesis
    proof (cases "sd_active s < sd_concurrency s \<and> List.find (ready s) (sd_pending s) \<noteq> None")
      case False
      then have "pump s = s" by (subst pump.simps) auto
      then show ?thesis using False 1(2) by (auto simp: find_None_iff)
    next
      case True
      then obtain t where t: "List.find (ready s) (sd_pending s) = Some t" by auto
      then have r: "t \<in> set (sd_pending s)" "ready s t" by (auto simp: find_Some_iff)
      have p: "pump s = pump (claim t s)" using True t by (subst pump.simps) simp
      have "sched_inv (claim t s)" using claim_inv 1(2) r open_ by blast
      then show ?thesis using 1(1) [OF _ t] True unfolding p by (auto simp: claim_def)
    qed
  qed
qed


lemma not_started_not_running: "sched_inv s \<Longrightarrow> live s t \<Longrightarrow> sd_claimed s t \<Longrightarrow> hd (sd_keyed s (sd_id s t)) = t"
proof -
  assume a: "sched_inv s" "live s t" "sd_claimed s t"
  then have "gens_ok s (sd_id s t)" by (simp add: inv_gens)
  then show ?thesis using a(2,3) by (cases "sd_keyed s (sd_id s t)") (auto simp: gens_ok_def live_def)
qed

lemma new_entry_inv:
  assumes "sched_inv s" "\<not> sd_closed s"
    "sd_keyed s (key v) = [] \<or> sd_started s (last (sd_keyed s (key v)))"
  shows "sched_inv (new_entry key v s)"
proof -
  note i = assms(1) [unfolded sched_inv_def]
  let ?t = "sd_next s" and ?s = "new_entry key v s"
  have nl: "\<not> sd_claimed s ?t" "\<not> sd_started s ?t" "\<not> live s ?t" using i by auto
  have nk: "?t \<notin> set (sd_keyed s k)" for k
    using inv_gens [OF assms(1), of k] by (auto simp: gens_ok_def)
  have len: "length (sd_keyed s (key v)) \<le> 1"
  proof (rule ccontr)
    assume "\<not> length (sd_keyed s (key v)) \<le> 1"
    then obtain a b r where "sd_keyed s (key v) = a # b # r"
      by (cases "sd_keyed s (key v)"; cases "tl (sd_keyed s (key v))") auto
    then show False using inv_gens [OF assms(1), of "key v"] assms(3)
      by (auto simp: gens_ok_def)
  qed
  have g: "gens_ok ?s k" for k
    using inv_gens [OF assms(1), of k] nk [of k] len assms(3) nl
    by (cases "sd_keyed s (key v)") (auto simp: gens_ok_def new_entry_def Let_def less_Suc_eq)
  have l: "live ?s u \<longleftrightarrow> live s u \<or> u = ?t" for u
  proof (cases "u = ?t")
    case False
    then have "live ?s u \<longleftrightarrow> u \<in> set (sd_keyed s (sd_id s u))"
      by (simp add: live_def new_entry_def Let_def)
    then show ?thesis using False by (simp add: live_def)
  qed (simp add: live_def new_entry_def Let_def)
  have np: "?t \<notin> set (sd_pending s)" "?t \<notin> set (sd_running s)" "?t \<notin> set (sd_micro s)"
    using i nl assms(2) by auto
  show ?thesis unfolding sched_inv_def l
    using i g np nl assms(2) by (auto simp: new_entry_def Let_def)
qed

lemma settleDrain_inv [simp]: "sched_inv (settleDrain s) = sched_inv s"
  by (simp add: sched_inv_def settleDrain_def gens_ok_def live_def)

lemma settled_inv [simp]: "sched_inv (s \<lparr> sd_settled := x \<rparr>) = sched_inv s"
  by (simp add: sched_inv_def gens_ok_def live_def)

lemma live_remove:
  assumes "sched_inv s"
  shows "live (release t s) u \<longleftrightarrow> live s u \<and> u \<noteq> t"
proof -
  have "distinct (sd_keyed s (sd_id s t))" using inv_gens [OF assms] by (simp add: gens_ok_def)
  then show ?thesis by (cases "u = t") (auto simp: live_def remove_entry_def release_def)
qed

lemma finish_core_inv:
  assumes "sched_inv s" "t \<in> set (sd_running s)"
  shows "sched_inv (release t s)" (is "sched_inv ?s")
proof -
  note i = assms(1) [unfolded sched_inv_def]
  have st: "live s t" "sd_started s t" "sd_claimed s t" using i assms(2) by auto
  have h: "hd (sd_keyed s (sd_id s t)) = t" using not_started_not_running assms(1) st by blast
  have g: "gens_ok ?s k" for k
    using inv_gens [OF assms(1), of k] h st(1)
    by (cases "sd_keyed s k"; cases "tl (sd_keyed s k)") (auto simp: gens_ok_def remove_entry_def release_def live_def)
  have "length (sd_running s) \<ge> 1" using assms(2) by (cases "sd_running s") auto
  then show ?thesis unfolding sched_inv_def live_remove [OF assms(1)]
    using i g st assms(2) by (auto simp: remove_entry_def release_def length_remove1 of_nat_diff)
qed

lemma finish_inv:
  assumes "sched_inv s" "t \<in> set (sd_running s)"
  shows "sched_inv (finish t b s)"
  using finish_core_inv [OF assms] pump_props [OF finish_core_inv [OF assms]]
  by (simp add: finish_def Let_def)

lemma start_core_inv:
  assumes "sched_inv s" "sd_micro s = t # ms" "\<not> sd_closed s"
  shows "sched_inv (s \<lparr> sd_micro := ms, sd_started := (sd_started s)(t := True), sd_running := sd_running s @ [t] \<rparr>)"
    (is "sched_inv ?s")
proof -
  note i = assms(1) [unfolded sched_inv_def]
  have t: "live s t" "sd_claimed s t" "\<not> sd_started s t" using i assms(2,3) by auto
  have h: "hd (sd_keyed s (sd_id s t)) = t" using not_started_not_running assms(1) t by blast
  have g: "gens_ok ?s k" for k
  proof -
    have gk: "gens_ok s k" by (rule inv_gens [OF assms(1)])
    have "t \<notin> set (tl (sd_keyed s k))" using gk t(2) by (auto simp: gens_ok_def)
    then show ?thesis using gk by (auto simp: gens_ok_def)
  qed
  have l: "live ?s u \<longleftrightarrow> live s u" for u by (simp add: live_def)
  show ?thesis unfolding sched_inv_def l using i g t assms(2,3) by auto
qed

lemma start_inv:
  assumes "sched_inv s" "sd_micro s = t # ms"
  shows "sched_inv (start_entry throws t (s \<lparr> sd_micro := ms \<rparr>))"
proof (cases "sd_closed s")
  case True
  have "gens_ok (s \<lparr> sd_micro := ms \<rparr>) k" for k using inv_gens [OF assms(1), of k] by (simp add: gens_ok_def)
  moreover have "live (s \<lparr> sd_micro := ms \<rparr>) u \<longleftrightarrow> live s u" for u by (simp add: live_def)
  ultimately have "sched_inv (s \<lparr> sd_micro := ms \<rparr>)"
    using assms(1) True by (simp add: sched_inv_def)
  then show ?thesis using True by (simp add: start_entry_def)
next
  case False
  let ?s = "s \<lparr> sd_micro := ms, sd_started := (sd_started s)(t := True), sd_running := sd_running s @ [t] \<rparr>"
  have "live s t" "sd_claimed s t" using assms False by (auto simp: sched_inv_def)
  then have r: "ready (s \<lparr> sd_micro := ms \<rparr>) t"
    using not_started_not_running [OF assms(1)] by (auto simp: ready_def live_def)
  have i: "sched_inv ?s" by (rule start_core_inv [OF assms False])
  have "sched_inv (finish t False ?s)" by (rule finish_inv [OF i]) simp
  moreover have "start_entry throws t (s \<lparr> sd_micro := ms \<rparr>) = (if throws then finish t False ?s else ?s)"
    using False r by (simp add: start_entry_def Let_def)
  ultimately show ?thesis using i by simp
qed

section \<open>Closing\<close>

lemma fold_cancel:
  assumes "distinct ts" "\<forall>k. distinct (sd_keyed s k)" "distinct (sd_pending s)"
    "\<forall>t \<in> set ts. t \<in> set (sd_keyed s (sd_id s t))"
  shows "\<exists>kd. fold cancel_entry ts s = s \<lparr> sd_keyed := kd, sd_pending := filter (\<lambda>u. u \<notin> set ts) (sd_pending s),
      sd_active := sd_active s - int (length (filter (sd_claimed s) ts)),
      sd_settled := sd_settled s @ map (\<lambda>t. (t, False)) ts \<rparr>
    \<and> (\<forall>k. kd k = filter (\<lambda>u. u \<notin> set ts \<or> sd_id s u \<noteq> k) (sd_keyed s k))"
  using assms
proof (induction ts arbitrary: s)
  case Nil
  then show ?case by (intro exI [of _ "sd_keyed s"]) auto
next
  case (Cons t ts)
  let ?s = "cancel_entry t s"
  have k1: "sd_keyed ?s = (sd_keyed s)(sd_id s t := filter (\<lambda>u. u \<noteq> t) (sd_keyed s (sd_id s t)))"
    using Cons.prems(2) by (simp add: cancel_entry_def Let_def remove_entry_def distinct_remove1_removeAll removeAll_filter_not_eq) (metis (mono_tags, lifting) filter_cong)
  have p1: "sd_pending ?s = filter (\<lambda>u. u \<noteq> t) (sd_pending s)"
    using Cons.prems(3) by (simp add: cancel_entry_def Let_def remove_entry_def distinct_remove1_removeAll removeAll_filter_not_eq) (metis (mono_tags, lifting) filter_cong)
  have f1: "sd_id ?s = sd_id s" "sd_claimed ?s = sd_claimed s"
      "sd_active ?s = sd_active s - (if sd_claimed s t then 1 else 0)" "sd_settled ?s = sd_settled s @ [(t, False)]"
    by (simp_all add: cancel_entry_def Let_def remove_entry_def)
  have ts: "distinct ts" "t \<notin> set ts" using Cons.prems(1) by auto
  have d1: "\<forall>k. distinct (sd_keyed ?s k)" using Cons.prems(2) by (simp add: k1)
  have p2: "distinct (sd_pending ?s)" using Cons.prems(3) by (simp add: p1)
  have l1: "\<forall>u \<in> set ts. u \<in> set (sd_keyed ?s (sd_id ?s u))"
    using Cons.prems(4) ts(2) by (auto simp: k1 f1)
  note ih = Cons.IH [OF ts(1) d1 p2 l1]
  from ih obtain kd where kd: "fold cancel_entry ts ?s = ?s \<lparr> sd_keyed := kd,
      sd_pending := filter (\<lambda>u. u \<notin> set ts) (sd_pending ?s),
      sd_active := sd_active ?s - int (length (filter (sd_claimed ?s) ts)),
      sd_settled := sd_settled ?s @ map (\<lambda>t. (t, False)) ts \<rparr>"
    "\<forall>k. kd k = filter (\<lambda>u. u \<notin> set ts \<or> sd_id ?s u \<noteq> k) (sd_keyed ?s k)" by blast
  have kk: "kd k = filter (\<lambda>u. u \<notin> set (t # ts) \<or> sd_id s u \<noteq> k) (sd_keyed s k)" for k
    using kd(2) by (auto simp: k1 f1 intro!: filter_cong)
  have "fold cancel_entry (t # ts) s = s \<lparr> sd_keyed := kd,
      sd_pending := filter (\<lambda>u. u \<notin> set (t # ts)) (sd_pending s),
      sd_active := sd_active s - int (length (filter (sd_claimed s) (t # ts))),
      sd_settled := sd_settled s @ map (\<lambda>t. (t, False)) (t # ts) \<rparr>"
    using kd(1) by (simp add: cancel_entry_def Let_def remove_entry_def p1 [unfolded cancel_entry_def Let_def remove_entry_def, simplified])
  then show ?case using kk by blast
qed


lemma close_inv:
  assumes "sched_inv s"
  shows "sched_inv (close_scheduler s)"
proof (cases "sd_closed s")
  case True
  then show ?thesis using assms by (simp add: close_scheduler_def)
next
  case False
  define ts where "ts = filter (\<lambda>t. t \<in> set (sd_keyed s (sd_id s t)) \<and> \<not> sd_started s t) [0..<sd_next s]"
  note i = assms [unfolded sched_inv_def]
  have sc: "\<And>t. sd_started s t \<Longrightarrow> sd_claimed s t"
    and pnd: "\<And>t. t \<in> set (sd_pending s) \<longleftrightarrow> live s t \<and> \<not> sd_claimed s t"
    and run: "distinct (sd_running s)" "\<And>t. t \<in> set (sd_running s) \<longleftrightarrow> live s t \<and> sd_started s t"
    and mic: "distinct (sd_micro s)"
      "\<And>t. t \<in> set (sd_micro s) \<longleftrightarrow> live s t \<and> sd_claimed s t \<and> \<not> sd_started s t"
    and act: "sd_active s = int (length (sd_running s)) + int (length (sd_micro s))"
    and con: "1 \<le> sd_concurrency s" and dp: "distinct (sd_pending s)"
    and fresh: "\<And>t. sd_next s \<le> t \<Longrightarrow> \<not> sd_claimed s t \<and> \<not> live s t"
    using i False by simp_all
  have st: "set ts = {t. live s t \<and> \<not> sd_started s t}"
    using fresh by (force simp: ts_def live_def not_le [symmetric])
  have dt: "distinct ts" by (simp add: ts_def)
  have dk: "\<forall>k. distinct (sd_keyed s k)" using inv_gens [OF assms] by (simp add: gens_ok_def)
  define s0 where "s0 = s \<lparr> sd_closed := True \<rparr>"
  have e0: "\<forall>k. distinct (sd_keyed s0 k)" "distinct (sd_pending s0)" "\<forall>t \<in> set ts. t \<in> set (sd_keyed s0 (sd_id s0 t))"
    using dk dp by (auto simp: s0_def ts_def)
  obtain kd where f: "fold cancel_entry ts s0 = s0 \<lparr> sd_keyed := kd,
      sd_pending := filter (\<lambda>u. u \<notin> set ts) (sd_pending s0),
      sd_active := sd_active s0 - int (length (filter (sd_claimed s0) ts)),
      sd_settled := sd_settled s0 @ map (\<lambda>t. (t, False)) ts \<rparr>"
    and kd: "\<forall>k. kd k = filter (\<lambda>u. u \<notin> set ts \<or> sd_id s0 u \<noteq> k) (sd_keyed s0 k)"
    using fold_cancel [OF dt e0] by blast
  have kd': "kd k = filter (sd_started s) (sd_keyed s k)" for k
  proof -
    have "gens_ok s k" using assms by (rule inv_gens)
    then show ?thesis unfolding kd [rule_format] s0_def sched.simps
      by (intro filter_cong) (auto simp: st live_def gens_ok_def)
  qed
  have "set (filter (sd_claimed s) ts) = set (sd_micro s)" using mic(2) st by auto
  then have m: "length (filter (sd_claimed s) ts) = length (sd_micro s)"
    using dt mic(1) by (metis distinct_card distinct_filter)
  have pend: "filter (\<lambda>u. u \<notin> set ts) (sd_pending s) = []"
    using pnd sc st by (auto simp: filter_empty_conv)
  let ?f = "fold cancel_entry ts s0"
  have l: "live ?f u \<longleftrightarrow> live s u \<and> sd_started s u" for u
    unfolding f by (auto simp: live_def s0_def kd')
  have g: "gens_ok ?f k" for k
  proof -
    have "gens_ok s k" using assms by (rule inv_gens)
    then show ?thesis unfolding f
      by (cases "sd_keyed s k"; cases "tl (sd_keyed s k)") (auto simp: gens_ok_def s0_def kd')
  qed
  have fs: "sd_closed ?f" "sd_pending ?f = []" "sd_running ?f = sd_running s" "sd_claimed ?f = sd_claimed s"
      "sd_started ?f = sd_started s" "sd_active ?f = int (length (sd_running s))"
      "sd_concurrency ?f = sd_concurrency s" "sd_next ?f = sd_next s"
    unfolding f using pend m act by (simp_all add: s0_def)
  have "sched_inv ?f" unfolding sched_inv_def l using g sc run con fresh by (auto simp: fs)
  moreover have "close_scheduler s = settleDrain ?f"
    using False by (simp add: close_scheduler_def ts_def s0_def Let_def)
  ultimately show ?thesis by simp
qed

lemma create_inv: "createScheduler d n = ok s \<Longrightarrow> sched_inv s"
  by (auto simp: createScheduler_def sched_inv_def gens_ok_def live_def split: if_split_asm)

lemma schedule_inv: "sched_inv s \<Longrightarrow> sched_inv (snd (schedule key v s))"
  using new_entry_inv [of s key v] pump_props [of "new_entry key v s"]
  by (auto simp: schedule_def Let_def)

lemma inv_frame:
  assumes "sched_inv s" "1 \<le> sd_concurrency s'"
    "sd_pending s' = sd_pending s" "sd_keyed s' = sd_keyed s" "sd_active s' = sd_active s"
    "sd_closed s' = sd_closed s" "sd_id s' = sd_id s" "sd_claimed s' = sd_claimed s"
    "sd_started s' = sd_started s" "sd_next s' = sd_next s" "sd_micro s' = sd_micro s"
    "sd_running s' = sd_running s"
  shows "sched_inv s'"
proof -
  have "gens_ok s' k = gens_ok s k" "live s' u = live s u" for k u
    using assms by (simp_all add: gens_ok_def live_def)
  then show ?thesis using assms by (simp add: sched_inv_def)
qed

lemma concurrency_inv:
  assumes "sched_inv s"
  shows "sched_inv (snd (setConcurrency n s))"
proof (cases "n < 1")
  case False
  then have "sched_inv (s \<lparr> sd_concurrency := n \<rparr>)" by (intro inv_frame [OF assms]) simp_all
  then show ?thesis using False pump_props [of "s \<lparr> sd_concurrency := n \<rparr>"] by (simp add: setConcurrency_def)
qed (simp add: setConcurrency_def assms)

lemma drain_inv:
  assumes "sched_inv s"
  shows "sched_inv (snd (drain_scheduler s))"
proof -
  have "1 \<le> sd_concurrency s" using assms by (simp add: sched_inv_def)
  then show ?thesis by (intro inv_frame [OF assms]) (simp_all add: drain_scheduler_def Let_def)
qed

lemma step_inv: "sched_step key s s' \<Longrightarrow> sched_inv s \<Longrightarrow> sched_inv s'"
  by (erule sched_stepE) (simp_all add: schedule_inv concurrency_inv close_inv drain_inv start_inv finish_inv)

lemma reachable_inv: "reachable key s \<Longrightarrow> sched_inv s"
  by (induction rule: reachable.induct) (auto simp: create_inv step_inv)


section \<open>One run per ticket, bounded concurrency, no idle capacity\<close>

lemma inv_running: "sched_inv s \<Longrightarrow> t \<in> set (sd_running s) \<longleftrightarrow> live s t \<and> sd_started s t"
  unfolding sched_inv_def by blast

lemma inv_claimed: "sched_inv s \<Longrightarrow> sd_started s t \<Longrightarrow> sd_claimed s t"
  unfolding sched_inv_def by blast

lemma inv_active:
  "sched_inv s \<Longrightarrow> sd_active s = int (length (sd_running s)) + (if sd_closed s then 0 else int (length (sd_micro s)))"
  unfolding sched_inv_def by blast

lemma inv_pending: "sched_inv s \<Longrightarrow> t \<in> set (sd_pending s) \<longleftrightarrow> live s t \<and> \<not> sd_claimed s t"
  unfolding sched_inv_def by blast

lemma inv_concurrency: "sched_inv s \<Longrightarrow> 1 \<le> sd_concurrency s"
  unfolding sched_inv_def by blast

lemma inv_running_head:
  assumes "sched_inv s" "t \<in> set (sd_running s)"
  shows "hd (sd_keyed s (sd_id s t)) = t"
  using assms not_started_not_running [OF assms(1), of t] inv_claimed [OF assms(1)]
  by (simp add: inv_running)

lemma running_keys_distinct:
  assumes "sched_inv s" "t \<in> set (sd_running s)" "u \<in> set (sd_running s)" "sd_id s t = sd_id s u"
  shows "t = u"
  using inv_running_head [OF assms(1,2)] inv_running_head [OF assms(1,3)] assms(4) by metis

lemma pump_sum:
  "sd_active (pump s) + int (length (sd_pending (pump s))) = sd_active s + int (length (sd_pending s))
    \<and> sd_drained (pump s) = sd_drained s"
proof (induction s rule: pump.induct)
  case (1 s)
  show ?case
  proof (cases "sd_active s < sd_concurrency s \<and> List.find (ready s) (sd_pending s) \<noteq> None")
    case False
    then have "pump s = s" by (subst pump.simps) auto
    then show ?thesis by simp
  next
    case True
    then obtain t where t: "List.find (ready s) (sd_pending s) = Some t" by auto
    then have "t \<in> set (sd_pending s)" by (auto simp: find_Some_iff)
    then have "length (sd_pending s) = Suc (length (remove1 t (sd_pending s)))"
      by (metis One_nat_def Suc_pred length_pos_if_in_set length_remove1)
    then have "sd_active (claim t s) + int (length (sd_pending (claim t s))) = sd_active s + int (length (sd_pending s))"
      by (simp add: claim_def)
    moreover have "pump s = pump (claim t s)" using True t by (subst pump.simps) simp
    moreover have "sd_drained (claim t s) = sd_drained s" by (simp add: claim_def)
    moreover have "sd_active (pump (claim t s)) + int (length (sd_pending (pump (claim t s))))
        = sd_active (claim t s) + int (length (sd_pending (claim t s))) \<and> sd_drained (pump (claim t s)) = sd_drained (claim t s)"
      using 1 [OF _ t] True by blast
    ultimately show ?thesis by argo
  qed
qed

lemma settleDrain_frame [simp]:
  "sd_active (settleDrain s) = sd_active s" "sd_concurrency (settleDrain s) = sd_concurrency s"
  "sd_pending (settleDrain s) = sd_pending s" "sd_closed (settleDrain s) = sd_closed s"
  "sd_keyed (settleDrain s) = sd_keyed s" "sd_id (settleDrain s) = sd_id s"
  "sd_running (settleDrain s) = sd_running s" "sd_started (settleDrain s) = sd_started s"
  by (simp_all add: settleDrain_def)

lemma ready_cong:
  "sd_keyed s = sd_keyed s' \<Longrightarrow> sd_id s = sd_id s' \<Longrightarrow> ready s t = ready s' t"
  by (simp add: ready_def)

definition saturated :: "'v sched \<Rightarrow> bool" where
  "saturated s \<longleftrightarrow> sd_closed s \<or>
     (\<forall>t \<in> set (sd_pending s). ready s t \<longrightarrow> sd_concurrency s \<le> sd_active s)"

lemma saturated_cong:
  "sd_keyed s = sd_keyed s' \<Longrightarrow> sd_id s = sd_id s' \<Longrightarrow> sd_closed s = sd_closed s' \<Longrightarrow>
   sd_pending s = sd_pending s' \<Longrightarrow> sd_concurrency s = sd_concurrency s' \<Longrightarrow> sd_active s = sd_active s' \<Longrightarrow>
   saturated s = saturated s'"
  by (simp add: saturated_def ready_def)

lemma pump_saturated: "sched_inv s \<Longrightarrow> saturated (pump s)"
  using pump_props [of s] by (auto simp: saturated_def)

lemma settled_saturated [simp]: "saturated (s \<lparr> sd_settled := x \<rparr>) = saturated s"
  by (simp add: saturated_def ready_def)

lemma settleDrain_saturated [simp]: "saturated (settleDrain s) = saturated s"
  by (rule saturated_cong) simp_all

lemma finish_saturated:
  assumes "sched_inv s" "t \<in> set (sd_running s)"
  shows "saturated (finish t b s)"
proof -
  have "saturated (if sd_closed (release t s) then release t s else pump (release t s))"
    using pump_saturated [OF finish_core_inv [OF assms]] by (simp add: saturated_def)
  then show ?thesis by (simp add: finish_def Let_def)
qed

lemma start_saturated:
  assumes "sched_inv s" "saturated s" "sd_micro s = t # ms"
  shows "saturated (start_entry throws t (s \<lparr> sd_micro := ms \<rparr>))"
proof -
  let ?s = "s \<lparr> sd_micro := ms, sd_started := (sd_started s)(t := True), sd_running := sd_running s @ [t] \<rparr>"
  have "saturated ?s" "saturated (s \<lparr> sd_micro := ms \<rparr>)"
    using assms(2) by (simp_all add: saturated_def ready_def)
  moreover have "saturated (finish t False ?s)" if "\<not> sd_closed s"
    using finish_saturated [OF start_core_inv [OF assms(1,3) that], of t] by simp
  ultimately show ?thesis by (auto simp: start_entry_def Let_def)
qed

lemma close_closed: "sched_inv s \<Longrightarrow> sd_closed (close_scheduler s)"
proof -
  have "sd_closed (fold cancel_entry ts s') = sd_closed s'" for ts and s' :: "'a sched"
    by (induction ts arbitrary: s') (simp_all add: cancel_entry_def Let_def remove_entry_def)
  then show ?thesis by (auto simp: close_scheduler_def Let_def)
qed

lemma step_saturated:
  assumes "sched_step key s s'" "sched_inv s" "saturated s"
  shows "saturated s'"
  using assms(1)
proof cases
  case (step_schedule v)
  then show ?thesis using assms(2,3) new_entry_inv [of s key v] pump_saturated [of "new_entry key v s"]
    by (auto simp: schedule_def Let_def)
next
  case (step_concurrency n)
  then have "\<not> n < 1 \<Longrightarrow> sched_inv (s \<lparr> sd_concurrency := n \<rparr>)" by (intro inv_frame [OF assms(2)]) simp_all
  then show ?thesis using step_concurrency assms(3) pump_saturated [of "s \<lparr> sd_concurrency := n \<rparr>"]
    by (auto simp: setConcurrency_def)
next
  case step_close
  then have "sd_closed s'" using close_closed assms(2) by blast
  then show ?thesis by (simp add: saturated_def)
next
  case step_drain
  then show ?thesis using assms(3) by (simp add: drain_scheduler_def Let_def saturated_def ready_def)
next
  case (step_micro t ms throws)
  then show ?thesis using start_saturated assms by blast
next
  case (step_settle t b)
  then show ?thesis using finish_saturated assms by blast
qed

lemma reachable_saturated: "reachable key s \<Longrightarrow> saturated s"
proof (induction rule: reachable.induct)
  case (reach_init d n s)
  then show ?case by (auto simp: createScheduler_def saturated_def split: if_split_asm)
next
  case (reach_step s s')
  then show ?case using step_saturated reachable_inv by blast
qed

text \<open>A pending entry that is not at the head of its key waits for one that runs.\<close>

lemma pending_blocked:
  assumes "sched_inv s" "t \<in> set (sd_pending s)" "\<not> ready s t"
  shows "\<exists>u \<in> set (sd_running s). sd_id s u = sd_id s t"
proof -
  have l: "live s t" using assms(1,2) by (simp add: sched_inv_def)
  have g: "gens_ok s (sd_id s t)" using assms(1) by (rule inv_gens)
  have ne: "sd_keyed s (sd_id s t) \<noteq> []" using l by (auto simp: live_def)
  let ?u = "hd (sd_keyed s (sd_id s t))"
  have "t \<in> set (tl (sd_keyed s (sd_id s t)))"
    using l ne assms(3) by (cases "sd_keyed s (sd_id s t)") (auto simp: live_def ready_def)
  then have "sd_started s ?u" using g by (auto simp: gens_ok_def)
  moreover have "sd_id s ?u = sd_id s t" using g ne by (simp add: gens_ok_def)
  moreover have "live s ?u" using ne calculation(2) by (simp add: live_def)
  ultimately show ?thesis using inv_running [OF assms(1)] by blast
qed

lemma busy_when_pending:
  assumes "sched_inv s" "saturated s" "sd_pending s \<noteq> []"
  shows "0 < sd_active s"
proof -
  obtain t where t: "t \<in> set (sd_pending s)" using assms(3) by (meson hd_in_set)
  show ?thesis
  proof (cases "ready s t")
    case True
    have "\<not> sd_closed s" using assms(1) t unfolding sched_inv_def by blast
    then have "sd_concurrency s \<le> sd_active s" using assms(2) True t unfolding saturated_def by blast
    then show ?thesis using inv_concurrency [OF assms(1)] by simp
  next
    case False
    then have "0 < length (sd_running s)" using pending_blocked [OF assms(1) t] by (cases "sd_running s") auto
    then have "0 < int (length (sd_running s))" by linarith
    moreover have "int (length (sd_running s)) \<le> sd_active s" using inv_active [OF assms(1)] by simp
    ultimately show ?thesis by linarith
  qed
qed

lemma finish_active:
  assumes "sched_inv s" "t \<in> set (sd_running s)"
  shows "sd_active (finish t b s) \<le> max (sd_active s) (sd_concurrency s) \<and> sd_concurrency (finish t b s) = sd_concurrency s"
proof -
  have "sd_active (release t s) = sd_active s - 1" "sd_concurrency (release t s) = sd_concurrency s"
    by (simp_all add: release_def remove_entry_def)
  then show ?thesis using pump_props [OF finish_core_inv [OF assms]]
    by (auto simp: finish_def Let_def)
qed

lemma fold_cancel_active:
  "sd_active (fold cancel_entry ts s) \<le> sd_active s \<and> sd_concurrency (fold cancel_entry ts s) = sd_concurrency s"
proof (induction ts arbitrary: s)
  case (Cons t ts)
  have "sd_active (cancel_entry t s) \<le> sd_active s \<and> sd_concurrency (cancel_entry t s) = sd_concurrency s"
    by (simp add: cancel_entry_def Let_def remove_entry_def)
  then show ?case using Cons [of "cancel_entry t s"] by simp
qed simp

lemma step_active:
  assumes "sched_step key s s'" "sched_inv s"
  shows "sd_active s' \<le> max (sd_active s) (sd_concurrency s')"
  using assms(1)
proof cases
  case (step_schedule v)
  then show ?thesis using new_entry_inv [of s key v] assms(2) pump_props [of "new_entry key v s"]
    by (auto simp: schedule_def Let_def new_entry_def)
next
  case (step_concurrency n)
  then have "\<not> n < 1 \<Longrightarrow> sched_inv (s \<lparr> sd_concurrency := n \<rparr>)" by (intro inv_frame [OF assms(2)]) simp_all
  then show ?thesis using step_concurrency pump_props [of "s \<lparr> sd_concurrency := n \<rparr>"] by (auto simp: setConcurrency_def)
next
  case step_close
  then show ?thesis using fold_cancel_active [of _ "s \<lparr> sd_closed := True \<rparr>"]
    by (auto simp: close_scheduler_def Let_def le_max_iff_disj)
next
  case step_drain
  then show ?thesis by (simp add: drain_scheduler_def Let_def)
next
  case (step_micro t ms throws)
  let ?s = "s \<lparr> sd_micro := ms, sd_started := (sd_started s)(t := True), sd_running := sd_running s @ [t] \<rparr>"
  show ?thesis using step_micro finish_active [OF start_core_inv [OF assms(2) step_micro(2)], of t False]
    by (auto simp: start_entry_def Let_def)
next
  case (step_settle t b)
  then show ?thesis using finish_active [OF assms(2)] by simp
qed

section \<open>Properties\<close>

text \<open>
  C8: in every reachable state at most one piece of work per ticket key runs, the count of active work
  is the work that runs plus the work claimed and about to start, and two starts of one key never overlap.
\<close>

theorem scheduler_exclusive:
  assumes "reachable key s"
  shows "(\<forall>t \<in> set (sd_running s). \<forall>u \<in> set (sd_running s). sd_id s t = sd_id s u \<longrightarrow> t = u) \<and>
    sd_active s = int (length (sd_running s)) + (if sd_closed s then 0 else int (length (sd_micro s))) \<and>
    (\<forall>k. length (sd_keyed s k) \<le> 2)"
proof -
  note i = reachable_inv [OF assms]
  show ?thesis using running_keys_distinct [OF i] inv_active [OF i] inv_gens [OF i] by (auto simp: gens_ok_def)
qed

definition busy :: "string sched" where
  "busy = snd (schedule id ''b'' (snd (schedule id ''a'' (case createScheduler [] 1 of Inr s \<Rightarrow> s))))"

lemma busy_reachable: "reachable id busy"
proof -
  have "createScheduler [] 1 = ok (case createScheduler [] 1 of Inr s \<Rightarrow> (s :: string sched))"
    by (simp add: createScheduler_def ok_def)
  then show ?thesis unfolding busy_def
    by (intro reach_step [OF reach_step [OF reach_init step_schedule] step_schedule])
qed

theorem scheduler_exclusive_witness:
  "sd_active busy = 1 \<and> sd_pending busy = [1] \<and> sd_micro busy = [0]"
proof -
  have "sd_micro busy = [0]" "sd_running busy = []" "sd_closed busy = False" "sd_pending busy = [1]" by code_simp+
  then show ?thesis using scheduler_exclusive [OF busy_reachable] by simp
qed

text \<open>
  a step raises the amount of active work at most up to the concurrency in force after it, and an
  open scheduler never leaves capacity idle while an entry could start.
\<close>

theorem scheduler_capacity:
  assumes "reachable key s" "sched_step key s s'"
  shows "sd_active s' \<le> max (sd_active s) (sd_concurrency s') \<and>
    (\<not> sd_closed s' \<longrightarrow> (\<forall>t \<in> set (sd_pending s'). ready s' t \<longrightarrow> sd_concurrency s' \<le> sd_active s'))"
  using step_active [OF assms(2) reachable_inv [OF assms(1)]]
    reachable_saturated [OF reach_step [OF assms]] by (auto simp: saturated_def)

theorem scheduler_capacity_witness:
  "sd_active (snd (setConcurrency 2 busy)) = 2"
proof -
  have "sd_active (snd (setConcurrency 2 busy)) \<le> max (sd_active busy) (sd_concurrency (snd (setConcurrency 2 busy)))"
    using scheduler_capacity [OF busy_reachable step_concurrency] by blast
  moreover have "sd_active (snd (setConcurrency 2 busy)) = 2" by code_simp
  ultimately show ?thesis by simp
qed

text \<open>
  C9: the queue does not deadlock: whenever an entry is pending in a reachable state, some work is
  active, so the entry is reconsidered when that work finishes.
\<close>

theorem scheduler_no_deadlock:
  assumes "reachable key s" "sd_pending s \<noteq> []"
  shows "0 < sd_active s"
  using busy_when_pending [OF reachable_inv [OF assms(1)] reachable_saturated [OF assms(1)] assms(2)] .

theorem scheduler_no_deadlock_witness:
  "0 < sd_active busy"
proof -
  have "sd_pending busy \<noteq> []" by code_simp
  then show ?thesis by (rule scheduler_no_deadlock [OF busy_reachable])
qed

end
