(* ===== verification/Samples.thy ===== *)
theory Samples
  imports Types
begin

text \<open>
  Concrete data at which the properties of the other theories are instantiated: a ticket with a
  change request, its control state with a succeeded review attempt, and publications of two
  controllers.
\<close>

definition sample_actor :: Actor where
  "sample_actor = \<lparr> ac_login = ''octo'', ac_providerId = ''7'' \<rparr>"

definition sample_ref :: TicketRef where
  "sample_ref = \<lparr> tr_provider = Github, tr_repository = ''acme/app'', tr_number = 12 \<rparr>"

definition sample_change :: NormalizedChangeRequest where
  "sample_change = \<lparr> nc_provider = Github, nc_repository = ''acme/app'', nc_number = 34, nc_url = ''u34'',
     nc_objectId = None, nc_headRepository = Some ''acme/app'', nc_headBranch = Some ''work'',
     nc_headSha = ''abc'', nc_state = CsOpen, nc_actor = sample_actor, nc_body = '''',
     nc_createdAt = ''2026-01-01T00:00:00Z'', nc_updatedAt = ''2026-01-01T00:00:00Z'' \<rparr>"

definition sample_snapshot :: ProviderTicketSnapshot where
  "sample_snapshot = \<lparr> sn_ref = sample_ref,
     sn_repository = \<lparr> pr_provider = Github, pr_name = ''acme/app'', pr_host = ''github.com'',
       pr_cloneRoot = ''https://github.com'', pr_cloneUrl = ''https://github.com/acme/app.git'' \<rparr>,
     sn_title = ''t'', sn_description = ''d'', sn_open = True, sn_labels = [''agent-stage:review''],
     sn_updatedAt = ''2026-01-01T00:00:00Z'',
     sn_activation = \<lparr> av_present = True, av_label = Some ''agent-flow:development'', av_eventId = Some ''e1'',
       av_actor = Some sample_actor, av_occurredAt = Some ''2026-01-01T00:00:00Z'' \<rparr>,
     sn_comments = [], sn_changeRequest = Some sample_change \<rparr>"

definition sample_receipt :: AgentReceipt where
  "sample_receipt = \<lparr> ar_flowInstanceId = ''f1'', ar_attemptId = ''a1'', ar_outcome = Succeeded,
     ar_summary = ''s'', ar_artifacts = [ArtReview \<lparr> rrv_id = ''r1'', rrv_url = ''ur1'', rrv_headSha = ''abc'',
       rrv_verdict = VApproved \<rparr>],
     ar_humanGate = None, ar_error = None, ar_usage = None \<rparr>"

definition sample_series :: AttemptSeries where
  "sample_series = \<lparr> as_seriesId = ''s1'', as_agentId = ''dev'', as_stateId = ''develop'', as_inputRevision = ''i1'',
     as_runtimeDigest = None, as_executionSnapshot = None, as_maxAttempts = 3, as_consumed = 1,
     as_current = Some \<lparr> at_attemptId = ''a1'', at_status = AttSucceeded, at_startedAt = ''2026-01-01T00:00:00Z'',
       at_finishedAt = Some ''2026-01-01T00:00:00Z'', at_error = None \<rparr> \<rparr>"

definition sample_control :: ControlState where
  "sample_control = \<lparr> cs_flowInstanceId = ''f1'', cs_flowId = ''demo'', cs_configRevision = ''c1'',
     cs_sequence = 0, cs_stateId = ''develop'', cs_resumeStateId = None, cs_activatedBy = sample_actor,
     cs_activatedAt = ''2026-01-01T00:00:00Z'', cs_activationEventId = ''e1'', cs_activationLabel = None,
     cs_updatedAt = ''2026-01-01T00:00:00Z'', cs_attemptSeries = Some sample_series,
     cs_latestReceipt = Some sample_receipt, cs_humanGate = None, cs_changeRequest = Some
       \<lparr> ccr_provider = Github, ccr_repository = ''acme/app'', ccr_number = 34, ccr_url = ''u34'',
         ccr_headSha = ''abc'', ccr_state = CsOpen \<rparr> \<rparr>"

definition sample_sha :: string where
  "sample_sha = ''0123456789abcdef0123456789abcdef01234567''"

definition sample_uuid :: string where
  "sample_uuid = ''01234567-89ab-4cde-8f01-23456789abcd''"

definition other_uuid :: string where
  "other_uuid = ''11234567-89ab-4cde-8f01-23456789abcd''"

definition sample_publication :: "string \<Rightarrow> string \<Rightarrow> string \<Rightarrow> Publication" where
  "sample_publication key time controller = \<lparr> pb_ownershipEligible = None, pb_key = key, pb_createdAt = time,
     pb_metadata = \<lparr> pm_config = sample_sha, pm_controller = controller \<rparr> \<rparr>"

definition sample_evidence :: RecoveryEvidence where
  "sample_evidence = \<lparr> rv_snapshot = sample_snapshot,
     rv_publications = [sample_publication ''k1'' ''2026-01-01T00:00:00Z'' sample_uuid],
     rv_changes = [], rv_reviews = [], rv_ambiguities = [], rv_complete = True, rv_activeBoundary = BKnown,
     rv_legacyActive = False, rv_migration = None \<rparr>"

definition sample_execution :: LocalExecution where
  "sample_execution = \<lparr> le_migrationId = None, le_controllerId = sample_uuid, le_observedAt = ''now'',
     le_owner = None, le_disposition = DReady, le_reason = None, le_publicationKeys = [],
     le_control = Some sample_control \<rparr>"

lemmas sample_defs = sample_actor_def sample_ref_def sample_change_def sample_snapshot_def sample_receipt_def
  sample_series_def sample_control_def sample_sha_def sample_uuid_def other_uuid_def sample_publication_def
  sample_evidence_def sample_execution_def

end
