(* ===== verification/DeriveEvent.thy ===== *)
theory DeriveEvent
  imports Semantic Samples
begin

text \<open>
  src/runtime/derive-event.ts: the event a ticket's control state and its provider snapshot
  imply. A change in the provider's change request has priority over the recorded receipt.
\<close>

definition event :: "FlowEventType \<Rightarrow> ProviderTicketSnapshot \<Rightarrow> ControlState \<Rightarrow> FlowEvent" where
  "event ty snapshot control = \<lparr> ev_type = ty,
     ev_authorizedActor = (cs_humanGate control \<noteq> None),
     ev_activationPresent = av_present (sn_activation snapshot),
     ev_ticketOpen = sn_open snapshot,
     ev_headMatches = False,
     ev_receiptValid = False \<rparr>"

definition sameHead :: "ControlState \<Rightarrow> NormalizedChangeRequest \<Rightarrow> bool" where
  "sameHead control cr \<longleftrightarrow> map_option ccr_headSha (cs_changeRequest control) = Some (nc_headSha cr)"

text \<open>The type human- followed by the verdict, and the answer types of the needs-human state.\<close>

fun human_event :: "HumanVerdict \<Rightarrow> FlowEventType" where
  "human_event HvApproved = HumanApproved"
| "human_event HvChangesRequested = HumanChangesRequested"
| "human_event HvCancelled = HumanCancelled"
| "human_event HvQuestion = HumanQuestion"
| "human_event HvUnclear = HumanUnclear"

definition answer_event :: "HumanVerdict \<Rightarrow> FlowEventType" where
  "answer_event v = (if v = HvCancelled then HumanAnswerCancelled
     else if v = HvQuestion \<or> v = HvUnclear then HumanAnswerUnclear else HumanAnswerAccepted)"

definition is_review_artifact :: "ReceiptArtifact \<Rightarrow> bool" where
  "is_review_artifact a = (case a of ArtReview _ \<Rightarrow> True | _ \<Rightarrow> False)"

definition providerEvent ::
  "ProviderTicketSnapshot \<Rightarrow> ControlState \<Rightarrow> FlowState \<Rightarrow> FlowEvent option" where
  "providerEvent snapshot control st =
    (case sn_changeRequest snapshot of None \<Rightarrow> None
     | Some cr \<Rightarrow>
        if fs_kind st \<noteq> KProviderWait
        then (if has_key (fs_on st) ''change-request-updated'' \<and> \<not> sameHead control cr
              then Some (event ChangeRequestUpdated snapshot control) else None)
        else if nc_state cr = CsMerged then Some (event ChangeRequestMerged snapshot control)
        else if nc_state cr = CsClosed then Some (event ChangeRequestClosed snapshot control)
        else if \<not> sameHead control cr then Some (event ChangeRequestUpdated snapshot control)
        else None)"

definition receiptEvent ::
  "ProviderTicketSnapshot \<Rightarrow> ControlState \<Rightarrow> AttemptSeries \<Rightarrow> AgentReceipt \<Rightarrow> FlowEvent option" where
  "receiptEvent snapshot control series receipt =
    (case ar_humanGate receipt of
       Some g \<Rightarrow>
         Some ((event (if cs_stateId control = ''needs-human'' then answer_event (rhg_verdict g)
                       else human_event (rhg_verdict g)) snapshot control)
           \<lparr> ev_authorizedActor := True, ev_receiptValid := True \<rparr>)
     | None \<Rightarrow>
        (case ar_outcome receipt of
           NeedsHuman \<Rightarrow> Some ((event AgentNeedsHuman snapshot control) \<lparr> ev_receiptValid := True \<rparr>)
         | Failed \<Rightarrow> if as_consumed series \<ge> as_maxAttempts series
                     then Some (event AttemptsExhausted snapshot control) else None
         | Succeeded \<Rightarrow>
            (case List.find is_review_artifact (ar_artifacts receipt) of
               Some (ArtReview r) \<Rightarrow>
                 if rrv_verdict r = VCommented then None
                 else Some ((event (if rrv_verdict r = VApproved then ReviewApproved else ReviewChangesRequested)
                               snapshot control)
                   \<lparr> ev_receiptValid := True,
                     ev_headMatches := (map_option nc_headSha (sn_changeRequest snapshot) = Some (rrv_headSha r)) \<rparr>)
             | _ \<Rightarrow> Some ((event AgentSucceeded snapshot control) \<lparr> ev_receiptValid := True \<rparr>))))"

definition deriveEvent ::
  "ProviderTicketSnapshot \<Rightarrow> ControlState option \<Rightarrow> FlowDefinition \<Rightarrow> FlowEvent option" where
  "deriveEvent snapshot control' f =
    (case control' of None \<Rightarrow> None | Some control \<Rightarrow>
      (case state_of f (cs_stateId control) of None \<Rightarrow> None | Some st \<Rightarrow>
        (case providerEvent snapshot control st of Some e \<Rightarrow> Some e | None \<Rightarrow>
          (case (cs_attemptSeries control, cs_latestReceipt control) of
             (Some series, Some receipt) \<Rightarrow>
               if as_stateId series \<noteq> cs_stateId control then None
               else (case as_current series of None \<Rightarrow> None
                 | Some cur \<Rightarrow> if at_status cur \<noteq> AttSucceeded \<or> at_attemptId cur \<noteq> ar_attemptId receipt then None
                     else receiptEvent snapshot control series receipt)
           | _ \<Rightarrow> None))))"

section \<open>What an event proves about the receipt\<close>

text \<open>The receipt the control state has accepted for the current state of the flow.\<close>

definition accepted_receipt :: "ControlState \<Rightarrow> AgentReceipt option" where
  "accepted_receipt control =
    (case (cs_attemptSeries control, cs_latestReceipt control) of
       (Some series, Some receipt) \<Rightarrow>
         if as_stateId series = cs_stateId control \<and>
            map_option at_status (as_current series) = Some AttSucceeded \<and>
            map_option at_attemptId (as_current series) = Some (ar_attemptId receipt)
         then Some receipt else None
     | _ \<Rightarrow> None)"

lemma providerEvent_shape:
  "providerEvent snapshot control st = Some e \<Longrightarrow>
     \<not> ev_receiptValid e \<and> \<not> ev_headMatches e \<and>
     ev_type e \<in> {ChangeRequestUpdated, ChangeRequestMerged, ChangeRequestClosed} \<and>
     ev_activationPresent e = av_present (sn_activation snapshot) \<and> ev_ticketOpen e = sn_open snapshot"
  by (auto simp: providerEvent_def event_def split: option.splits if_splits)

lemma receiptEvent_flags:
  "receiptEvent snapshot control series receipt = Some e \<Longrightarrow>
     ev_activationPresent e = av_present (sn_activation snapshot) \<and> ev_ticketOpen e = sn_open snapshot \<and>
     (ev_receiptValid e \<longleftrightarrow> ar_humanGate receipt \<noteq> None \<or> ar_outcome receipt \<noteq> Failed)"
  by (auto simp: receiptEvent_def event_def
      split: option.splits if_splits Outcome.splits ReceiptArtifact.splits)

lemma receiptEvent_head:
  assumes "receiptEvent snapshot control series receipt = Some e" "ev_headMatches e"
  shows "ev_type e \<in> {ReviewApproved, ReviewChangesRequested} \<and>
    (\<exists>r cr. ArtReview r \<in> set (ar_artifacts receipt) \<and> sn_changeRequest snapshot = Some cr \<and>
       nc_headSha cr = rrv_headSha r)"
  using assms by (auto simp: receiptEvent_def event_def find_Some_iff
      split: option.splits if_splits Outcome.splits ReceiptArtifact.splits)
    (metis nth_mem)+

lemma deriveEvent_cases:
  assumes "deriveEvent snapshot (Some control) f = Some e"
  obtains (provider) st where "state_of f (cs_stateId control) = Some st"
      "providerEvent snapshot control st = Some e"
  | (receipt) st series r where "state_of f (cs_stateId control) = Some st"
      "providerEvent snapshot control st = None" "cs_attemptSeries control = Some series"
      "accepted_receipt control = Some r" "receiptEvent snapshot control series r = Some e"
  using assms by (auto simp: deriveEvent_def accepted_receipt_def split: option.splits if_splits)

lemma deriveEvent_flags:
  assumes "deriveEvent snapshot (Some control) f = Some e"
  shows "ev_activationPresent e = av_present (sn_activation snapshot) \<and> ev_ticketOpen e = sn_open snapshot"
  using assms by (cases rule: deriveEvent_cases) (auto dest: providerEvent_shape receiptEvent_flags)

section \<open>Properties\<close>

text \<open>
  an event that claims a valid receipt is derived only from the receipt that a succeeded attempt
  of the current flow state produced, and an event that claims a matching head is a review verdict on
  exactly the head the provider shows.
\<close>

theorem deriveEvent_evidence:
  assumes "deriveEvent snapshot (Some control) f = Some e"
  shows "(ev_receiptValid e \<longrightarrow> accepted_receipt control \<noteq> None) \<and>
    (ev_headMatches e \<longrightarrow> ev_type e \<in> {ReviewApproved, ReviewChangesRequested} \<and>
      (\<exists>r review cr. accepted_receipt control = Some r \<and> ArtReview review \<in> set (ar_artifacts r) \<and>
         sn_changeRequest snapshot = Some cr \<and> nc_headSha cr = rrv_headSha review)) \<and>
    ev_activationPresent e = av_present (sn_activation snapshot) \<and> ev_ticketOpen e = sn_open snapshot"
  using assms
proof (cases rule: deriveEvent_cases)
  case (provider st)
  then show ?thesis using providerEvent_shape by blast
next
  case (receipt st series r)
  then show ?thesis using receiptEvent_flags [OF receipt(5)] receiptEvent_head [OF receipt(5)] by blast
qed

definition review_flow :: FlowDefinition where
  "review_flow = sample_flow \<lparr> fd_states := [(''develop'', \<lparr> fs_kind = KAgent, fs_agent = Some ''dev'',
     fs_resultContract = Some RReview, fs_context = [], fs_on = [] \<rparr>)] \<rparr>"

theorem deriveEvent_evidence_witness:
  "(\<exists>e. deriveEvent sample_snapshot (Some sample_control) review_flow = Some e \<and> ev_type e = ReviewApproved
      \<and> ev_headMatches e) \<and> accepted_receipt sample_control = Some sample_receipt"
proof -
  let ?e = "\<lparr> ev_type = ReviewApproved, ev_authorizedActor = False, ev_activationPresent = True,
     ev_ticketOpen = True, ev_headMatches = True, ev_receiptValid = True \<rparr>"
  have e: "deriveEvent sample_snapshot (Some sample_control) review_flow = Some ?e"
    by (simp add: deriveEvent_def review_flow_def sample_flow_def sample_defs state_of_def providerEvent_def
        has_key_def receiptEvent_def is_review_artifact_def event_def)
  have "accepted_receipt sample_control \<noteq> None"
    using deriveEvent_evidence [OF e] by simp
  then have "accepted_receipt sample_control = Some sample_receipt"
    by (simp add: accepted_receipt_def sample_defs)
  then show ?thesis using e by simp
qed

end
