(* ===== verification/LocalStore.thy ===== *)
theory LocalStore
  imports Samples
begin

text \<open>
  src/runtime/local-store.ts: the controller's local record of a ticket, one row of a database
  table per provider scope, repository and ticket number, written by compare-and-swap on the
  row's revision. The table is a map from its primary key to its row; a row holds the document
  that its JSON text encodes. The schema validator (valid) and the URL parser (url) are parameters.
\<close>

section \<open>Provider scopes\<close>

record Url =
  url_protocol :: string
  url_username :: string
  url_password :: string
  url_search :: string
  url_hash :: string
  url_origin :: string
  url_pathname :: string

definition strip_slashes :: "string \<Rightarrow> string" where
  "strip_slashes p = rev (dropWhile (\<lambda>c. c = CHR ''/'') (rev p))"

definition providerScope :: "(string \<Rightarrow> Url option) \<Rightarrow> ProviderKind \<Rightarrow> string \<Rightarrow> string res" where
  "providerScope url provider apiBaseUrl =
    (case url apiBaseUrl of None \<Rightarrow> fail ''Invalid URL''
     | Some api \<Rightarrow>
        if url_protocol api \<noteq> ''http:'' \<and> url_protocol api \<noteq> ''https:''
        then fail ''provider API URL must use HTTP or HTTPS''
        else if url_username api \<noteq> [] \<or> url_password api \<noteq> []
        then fail ''provider API URL must be credential-free''
        else if url_search api \<noteq> [] \<or> url_hash api \<noteq> []
        then fail ''provider API URL must not include a query or fragment''
        else ok (provider_name provider @ '':'' @ url_origin api @ strip_slashes (url_pathname api)))"

section \<open>The table\<close>

type_synonym db_key = "string \<times> string \<times> int"

record Row =
  row_revision :: int
  row_payload :: LocalExecution

type_synonym db = "db_key \<Rightarrow> Row option"

record StoredExecution =
  st_revision :: int
  st_value :: LocalExecution

definition key_of :: "string \<times> TicketRef \<Rightarrow> db_key" where
  "key_of k = (case k of (scope, ref) \<Rightarrow> (scope, tr_repository ref, tr_number ref))"

text \<open>The scope up to its first colon is the provider, the rest the API URL.\<close>

definition scope_provider :: "string \<Rightarrow> ProviderKind option" where
  "scope_provider scope =
    (if CHR '':'' \<notin> set scope then None
     else let p = takeWhile (\<lambda>c. c \<noteq> CHR '':'') scope in
       if p = ''github'' then Some Github else if p = ''gitlab'' then Some Gitlab else None)"

definition assertKey :: "(string \<Rightarrow> Url option) \<Rightarrow> string \<Rightarrow> TicketRef \<Rightarrow> unit res" where
  "assertKey url scope ref =
    (case scope_provider scope of
       None \<Rightarrow> fail ''provider scope must use the canonical provider API URL representation''
     | Some p \<Rightarrow>
        bindR (providerScope url p (tl (dropWhile (\<lambda>c. c \<noteq> CHR '':'') scope))) (\<lambda>canonical.
          if canonical \<noteq> scope
          then fail ''provider scope must use the canonical provider API URL representation''
          else if p \<noteq> tr_provider ref then fail ''provider scope does not match ticket provider''
          else if tr_repository ref = [] \<or> \<not> safe_int (tr_number ref) \<or> tr_number ref < 1
          then fail ''invalid local execution ticket identity'' else ok ()))"

definition control_aligned :: "LocalExecution \<Rightarrow> int \<Rightarrow> bool" where
  "control_aligned v r \<longleftrightarrow> (case le_control v of None \<Rightarrow> True | Some c \<Rightarrow> cs_sequence c = r)"

definition stored :: "(LocalExecution \<Rightarrow> bool) \<Rightarrow> Row \<Rightarrow> StoredExecution res" where
  "stored valid row =
    (if \<not> valid (row_payload row) then fail ''invalid local execution payload''
     else if \<not> control_aligned (row_payload row) (row_revision row)
     then fail ''invalid local execution payload: control sequence does not match revision''
     else ok \<lparr> st_revision = row_revision row, st_value = row_payload row \<rparr>)"

definition load_execution ::
  "(LocalExecution \<Rightarrow> bool) \<Rightarrow> (string \<Rightarrow> Url option) \<Rightarrow> string \<Rightarrow> TicketRef \<Rightarrow> (db, StoredExecution option) io" where
  "load_execution valid url scope ref d =
    (bindR (assertKey url scope ref) (\<lambda>_.
       case d (key_of (scope, ref)) of None \<Rightarrow> ok None
       | Some row \<Rightarrow> bindR (stored valid row) (\<lambda>x. ok (Some x))), d)"

text \<open>INSERT ... ON CONFLICT DO NOTHING and UPDATE ... WHERE revision = ?, with the number of changed rows.\<close>

definition insert_row :: "db_key \<Rightarrow> LocalExecution \<Rightarrow> db \<Rightarrow> nat \<times> db" where
  "insert_row k v d = (case d k of
      None \<Rightarrow> (1, d(k \<mapsto> \<lparr> row_revision = 0, row_payload = v \<rparr>)) | Some _ \<Rightarrow> (0, d))"

definition update_row :: "db_key \<Rightarrow> int \<Rightarrow> int \<Rightarrow> LocalExecution \<Rightarrow> db \<Rightarrow> nat \<times> db" where
  "update_row k expected revision v d = (case d k of
      Some row \<Rightarrow> if row_revision row = expected
                 then (1, d(k \<mapsto> \<lparr> row_revision = revision, row_payload = v \<rparr>)) else (0, d)
    | None \<Rightarrow> (0, d))"

text \<open>The transaction of save; a failing one rolls back to the table it began with.\<close>

definition save_transaction ::
  "(LocalExecution \<Rightarrow> bool) \<Rightarrow> db_key \<Rightarrow> int option \<Rightarrow> int \<Rightarrow> LocalExecution \<Rightarrow> (db, unit) io" where
  "save_transaction valid k expected revision v d =
    (case (case expected of None \<Rightarrow> ok ()
           | Some e \<Rightarrow> (case d k of None \<Rightarrow> fail ''stale local execution write''
               | Some row \<Rightarrow> if row_revision row \<noteq> e then fail ''stale local execution write''
                            else bindR (stored valid row) (\<lambda>_. ok ()))) of
       Inl e \<Rightarrow> (Inl e, d)
     | Inr _ \<Rightarrow>
        (case (case expected of None \<Rightarrow> insert_row k v d | Some e \<Rightarrow> update_row k e revision v d) of
           (n, d') \<Rightarrow> if n \<noteq> 1 then (fail ''stale local execution write'', d) else (ok (), d')))"

definition save_execution ::
  "(LocalExecution \<Rightarrow> bool) \<Rightarrow> (string \<Rightarrow> Url option) \<Rightarrow> string \<times> TicketRef \<Rightarrow> int option \<Rightarrow> LocalExecution
     \<Rightarrow> (db, StoredExecution) io" where
  "save_execution valid url k expected v =
    thenM (liftR (assertKey url (fst k) (snd k)))
    (thenM (checkM (opt_is (\<lambda>e. \<not> safe_int e \<or> e < 0) expected)
              ''expected local revision must be a non-negative integer or null'')
    (let revision = (case expected of None \<Rightarrow> 0 | Some e \<Rightarrow> e + 1) in
     thenM (checkM (\<not> valid v) ''LocalExecution validation failed'')
    (thenM (checkM (\<not> control_aligned v revision) ''control sequence must equal local revision'')
    (thenM (save_transaction valid (key_of k) expected revision v)
    (retM \<lparr> st_revision = revision, st_value = v \<rparr>)))))"

section \<open>Compare and swap\<close>

text \<open>
  A store that several writers share: each write names the revision it has read. What the
  controller relies on is that a write takes effect only on that revision and touches no other key.
\<close>

definition next_rev :: "int option \<Rightarrow> int" where
  "next_rev e = (case e of None \<Rightarrow> 0 | Some r \<Rightarrow> r + 1)"

locale cas_store =
  fixes keyof :: "'k \<Rightarrow> 'd"
    and rev_of :: "'d \<Rightarrow> 's \<Rightarrow> int option"
    and val_of :: "'d \<Rightarrow> 's \<Rightarrow> 'v option"
    and save :: "'k \<Rightarrow> int option \<Rightarrow> 'v \<Rightarrow> ('s, 'r) io"
  assumes save_done: "save k e v s = (Inr r, s') \<Longrightarrow>
      rev_of (keyof k) s = e \<and> rev_of (keyof k) s' = Some (next_rev e) \<and> val_of (keyof k) s' = Some v"
    and save_frame: "save k e v s = (Inr r, s') \<Longrightarrow> d \<noteq> keyof k \<Longrightarrow>
      rev_of d s' = rev_of d s \<and> val_of d s' = val_of d s"
    and save_failed: "save k e v s = (Inl x, s') \<Longrightarrow> s' = s"
begin

lemma stale_save_fails:
  assumes "save k e v s = (Inr r, s')" "keyof k' = keyof k"
  shows "\<exists>x. save k' e v' s' = (Inl x, s')"
proof -
  obtain o' t where t: "save k' e v' s' = (o', t)" by fastforce
  show ?thesis
  proof (cases o')
    case (Inl x)
    then show ?thesis using t save_failed by blast
  next
    case (Inr q)
    have "rev_of (keyof k) s' = Some (next_rev e)" using assms(1) save_done by blast
    moreover have "rev_of (keyof k) s' = e" using t Inr save_done assms(2) by metis
    ultimately show ?thesis by (cases e) (auto simp: next_rev_def)
  qed
qed

lemma save_monotone:
  assumes "save k e v s = (o', s')" "rev_of d s = Some n"
  shows "\<exists>m \<ge> n. rev_of d s' = Some m"
proof (cases o')
  case (Inl x)
  then show ?thesis using assms save_failed by fastforce
next
  case (Inr r)
  show ?thesis
  proof (cases "d = keyof k")
    case True
    then have "e = Some n" using assms Inr save_done by metis
    then show ?thesis using True assms Inr save_done by (fastforce simp: next_rev_def)
  next
    case False
    then show ?thesis using assms Inr save_frame by fastforce
  qed
qed

end

definition row_rev :: "db_key \<Rightarrow> db \<Rightarrow> int option" where
  "row_rev k d = map_option row_revision (d k)"

definition row_val :: "db_key \<Rightarrow> db \<Rightarrow> LocalExecution option" where
  "row_val k d = map_option row_payload (d k)"

lemma save_transaction_cases:
  "save_transaction valid k expected revision v d = (x, d') \<Longrightarrow>
    (\<exists>e. x = Inl e \<and> d' = d) \<or>
    (x = ok () \<and> row_rev k d = expected \<and>
     d' = d(k \<mapsto> \<lparr> row_revision = (case expected of None \<Rightarrow> 0 | Some _ \<Rightarrow> revision), row_payload = v \<rparr>))"
  by (auto simp: save_transaction_def insert_row_def update_row_def row_rev_def fail_def bindR_def
      split: option.split_asm sum.split_asm if_split_asm prod.split_asm)

lemma save_execution_ok:
  assumes "save_execution valid url k expected v d = (Inr r, d')"
  shows "row_rev (key_of k) d = expected \<and>
    d' = d(key_of k \<mapsto> \<lparr> row_revision = next_rev expected, row_payload = v \<rparr>) \<and>
    valid v \<and> control_aligned v (next_rev expected) \<and>
    r = \<lparr> st_revision = next_rev expected, st_value = v \<rparr> \<and>
    assertKey url (fst k) (snd k) = ok () \<and> (\<forall>e. expected = Some e \<longrightarrow> safe_int e \<and> 0 \<le> e)"
proof -
  define n where "n = next_rev expected"
  have c: "assertKey url (fst k) (snd k) = Inr ()" "\<not> opt_is (\<lambda>e. \<not> safe_int e \<or> e < 0) expected"
    "valid v" "control_aligned v n"
    "save_transaction valid (key_of k) expected n v d = (Inr (), d')"
    "r = \<lparr> st_revision = n, st_value = v \<rparr>"
    using assms unfolding save_execution_def Let_def run_iff n_def next_rev_def by auto
  then show ?thesis using save_transaction_cases [OF c(5)]
    by (auto simp: n_def next_rev_def opt_is_iff split: option.splits)
qed

lemma save_execution_fail:
  assumes "save_execution valid url k expected v d = (Inl e, d')"
  shows "d' = d"
  using assms unfolding save_execution_def Let_def run_iff
  by (auto dest: save_transaction_cases simp: run_iff)

interpretation local_store: cas_store key_of row_rev row_val "save_execution valid url"
proof
  fix k e v and s :: db and r s'
  assume a: "save_execution valid url k e v s = (Inr r, s')"
  note o' = save_execution_ok [OF a]
  show "row_rev (key_of k) s = e \<and> row_rev (key_of k) s' = Some (next_rev e) \<and> row_val (key_of k) s' = Some v"
    using o' by (simp add: row_rev_def row_val_def)
  show "row_rev d s' = row_rev d s \<and> row_val d s' = row_val d s" if "d \<noteq> key_of k" for d
    using o' that by (simp add: row_rev_def row_val_def)
next
  show "save_execution valid url k e v s = (Inl x, s') \<Longrightarrow> s' = s" for k e v and s :: db and x s'
    by (rule save_execution_fail)
qed

section \<open>Well-formed tables\<close>

definition db_ok :: "(LocalExecution \<Rightarrow> bool) \<Rightarrow> db \<Rightarrow> bool" where
  "db_ok valid d \<longleftrightarrow> (\<forall>k row. d k = Some row \<longrightarrow>
     0 \<le> row_revision row \<and> valid (row_payload row) \<and> control_aligned (row_payload row) (row_revision row))"

lemma db_ok_empty [simp]: "db_ok valid (\<lambda>_. None)"
  by (simp add: db_ok_def)

lemma save_execution_db_ok:
  assumes "db_ok valid d"
  shows "db_ok valid (snd (save_execution valid url k e v d))"
proof -
  obtain o' d' where s: "save_execution valid url k e v d = (o', d')" by fastforce
  show ?thesis
  proof (cases o')
    case (Inl x)
    then show ?thesis using s save_execution_fail assms by fastforce
  next
    case (Inr r)
    note sv = save_execution_ok [of valid url k e v d r d']
    have "0 \<le> next_rev e" using sv s Inr by (cases e) (auto simp: next_rev_def)
    then show ?thesis using assms sv s Inr
      by (simp add: db_ok_def)
  qed
qed

lemma load_execution_ok:
  assumes "db_ok valid d" "assertKey url scope ref = ok ()"
  shows "load_execution valid url scope ref d =
    (ok (map_option (\<lambda>row. \<lparr> st_revision = row_revision row, st_value = row_payload row \<rparr>) (d (key_of (scope, ref)))), d)"
proof (cases "d (key_of (scope, ref))")
  case (Some row)
  then have "valid (row_payload row)" "control_aligned (row_payload row) (row_revision row)"
    using assms(1) unfolding db_ok_def by blast+
  then show ?thesis using Some assms(2) by (simp add: load_execution_def stored_def)
qed (use assms(2) in \<open>simp add: load_execution_def\<close>)

section \<open>Properties\<close>

text \<open>
  saving a local execution takes effect only when the stored revision is the expected one; the new
  revision is the next one, the stored document is the one given, aligned with its revision, no other
  ticket's row changes, and a second save on the same expectation fails and changes nothing.
\<close>

theorem save_execution_cas:
  assumes "save_execution valid url k e v d = (Inr r, d')"
  shows "row_rev (key_of k) d = e \<and> row_rev (key_of k) d' = Some (next_rev e) \<and> row_val (key_of k) d' = Some v \<and>
    control_aligned v (next_rev e) \<and> (\<forall>x. x \<noteq> key_of k \<longrightarrow> d' x = d x) \<and>
    (\<exists>x. save_execution valid url k e v' d' = (Inl x, d'))"
  using save_execution_ok [OF assms] local_store.stale_save_fails [OF assms refl]
  by (auto simp: row_rev_def row_val_def)

definition sample_url :: "string \<Rightarrow> Url option" where
  "sample_url s = (if s = ''https://api.github.com'' then Some \<lparr> url_protocol = ''https:'', url_username = [],
     url_password = [], url_search = [], url_hash = [], url_origin = s, url_pathname = ''/'' \<rparr> else None)"

definition sample_scope :: string where
  "sample_scope = ''github:https://api.github.com''"

theorem save_execution_cas_witness:
  "row_rev (key_of (sample_scope, sample_ref))
     (snd (save_execution (\<lambda>_. True) sample_url (sample_scope, sample_ref) None sample_execution (\<lambda>_. None))) = Some 0"
proof -
  let ?k = "(sample_scope, sample_ref)"
  have "fst (save_execution (\<lambda>_. True) sample_url ?k None sample_execution (\<lambda>_. None))
      = ok \<lparr> st_revision = 0, st_value = sample_execution \<rparr>" by code_simp
  then obtain d where s: "save_execution (\<lambda>_. True) sample_url ?k None sample_execution (\<lambda>_. None)
      = (Inr \<lparr> st_revision = 0, st_value = sample_execution \<rparr>, d)"
    by (metis ok_def prod.collapse)
  show ?thesis using save_execution_cas [OF s, of sample_execution] s by (simp add: next_rev_def)
qed

text \<open>
  a well-formed table stays well-formed whatever is saved: revisions are not negative, documents
  are valid and control sequences equal their revision, so loading never fails on a stored row.
\<close>

theorem save_keeps_table:
  assumes "db_ok valid d" "assertKey url scope ref = ok ()"
  shows "db_ok valid (snd (save_execution valid url k e v d)) \<and>
    is_ok (fst (load_execution valid url scope ref (snd (save_execution valid url k e v d))))"
  using load_execution_ok [OF save_execution_db_ok [OF assms(1)] assms(2)] save_execution_db_ok [OF assms(1)]
  by simp

theorem save_keeps_table_witness:
  "is_ok (fst (load_execution (\<lambda>_. True) sample_url sample_scope sample_ref
     (snd (save_execution (\<lambda>_. True) sample_url (sample_scope, sample_ref) None sample_execution (\<lambda>_. None)))))"
proof -
  have "assertKey sample_url sample_scope sample_ref = ok ()" by code_simp
  then show ?thesis using save_keeps_table [of "\<lambda>_. True" "\<lambda>_. None"] by simp
qed

end
