(* ===== verification/Publication.thy ===== *)
theory Publication
  imports Samples Json
begin

text \<open>
  src/provider/publication.ts, src/provider/documentation.ts and src/runtime/bug-receipt.ts: the
  markers a controller leaves in comments, change requests and reviews. A body is read line by
  line; lines inside a fenced code block and quoted examples do not count, and a body with more
  than one marker is invalid. electOwner picks the controller that owns a ticket's active work.
\<close>

section \<open>Metadata\<close>

definition isCanonicalUuid :: "string \<Rightarrow> bool" where
  "isCanonicalUuid s \<longleftrightarrow> length s = 36
     \<and> s ! 8 = CHR ''-'' \<and> s ! 13 = CHR ''-'' \<and> s ! 18 = CHR ''-'' \<and> s ! 23 = CHR ''-''
     \<and> list_all is_hex (take 8 s) \<and> list_all is_hex (take 4 (drop 9 s))
     \<and> s ! 14 \<in> set ''12345'' \<and> list_all is_hex (take 3 (drop 15 s))
     \<and> s ! 19 \<in> set ''89ab'' \<and> list_all is_hex (take 3 (drop 20 s)) \<and> list_all is_hex (drop 24 s)"

definition isSha :: "string \<Rightarrow> bool" where
  "isSha s \<longleftrightarrow> length s = 40 \<and> list_all is_hex s"

definition valid_metadata :: "PublicationMetadata \<Rightarrow> bool" where
  "valid_metadata m \<longleftrightarrow> isSha (pm_config m) \<and> isCanonicalUuid (pm_controller m)"

definition metadata :: "json \<Rightarrow> PublicationMetadata option" where
  "metadata v = (case v of
      JObj ps \<Rightarrow>
        if length ps \<noteq> 2 \<or> \<not> has_key ps ''config'' \<or> \<not> has_key ps ''controller'' then None
        else (case (map_of ps ''config'', map_of ps ''controller'') of
            (Some (JStr c), Some (JStr k)) \<Rightarrow>
              if isSha c \<and> isCanonicalUuid k then Some \<lparr> pm_config = c, pm_controller = k \<rparr> else None
          | _ \<Rightarrow> None)
    | _ \<Rightarrow> None)"

section \<open>Lines outside code fences\<close>

definition fence_run :: "char \<Rightarrow> string \<Rightarrow> (char \<times> nat) option" where
  "fence_run c s = (let n = length (takeWhile (\<lambda>d. d = c) s) in if n \<ge> 3 then Some (c, n) else None)"

definition fence_of :: "string \<Rightarrow> (char \<times> nat) option" where
  "fence_of line =
    (if length (takeWhile is_ws line) > 3 then None
     else let r = trim_start line in
       if r = [] then None
       else if hd r = CHR ''`'' then fence_run (CHR ''`'') r
       else if hd r = CHR ''~'' then fence_run (CHR ''~'') r else None)"

fun outside_fences :: "(char \<times> nat) option \<Rightarrow> string list \<Rightarrow> string list" where
  "outside_fences fence [] = []"
| "outside_fences (Some (c, n)) (l # ls) =
    (case fence_of l of
       Some (c', n') \<Rightarrow> if c' = c \<and> n' \<ge> n then outside_fences None ls else outside_fences (Some (c, n)) ls
     | None \<Rightarrow> outside_fences (Some (c, n)) ls)"
| "outside_fences None (l # ls) =
    (case fence_of l of Some fn \<Rightarrow> outside_fences (Some fn) ls | None \<Rightarrow> l # outside_fences None ls)"

section \<open>Publication markers\<close>

datatype Candidate = CInvalid | CLegacy | CCurrent PublicationMetadata

datatype ParsedPublication = PCurrent PublicationMetadata | PUnmarked | PLegacy | PInvalid

definition isQuotedExample :: "string \<Rightarrow> bool" where
  "isQuotedExample line = (let t = trim_str line in
     t \<noteq> [] \<and> (hd t = CHR ''>''
       \<or> (hd t = CHR ''`'' \<and> last t = CHR ''`'' \<and> length t \<ge> 3)
       \<or> (hd t = CHR 0x22 \<and> last t = CHR 0x22 \<and> length t \<ge> 2)
       \<or> (hd t = CHR 0x27 \<and> last t = CHR 0x27 \<and> length t \<ge> 2)))"

definition MARKER_PREFIX :: string where "MARKER_PREFIX = ''<!-- agent-flow:''"
definition CONTROL_PREFIX :: string where "CONTROL_PREFIX = ''<!-- agent-flow-control:''"

definition markerCount :: "string \<Rightarrow> nat" where
  "markerCount line = count_str MARKER_PREFIX line + count_str CONTROL_PREFIX line"

text \<open>The text between an opening marker, at most three blanks in, and the closing one.\<close>

definition marker_body :: "string \<Rightarrow> string \<Rightarrow> string option" where
  "marker_body opening line =
    (if length (takeWhile is_ws line) > 3 then None
     else let r = trim_end (trim_start line) in
       if starts_with r opening \<and> ends_with (drop (length opening) r) '' -->''
          \<and> length (drop (length opening) r) > 4
       then Some (take (length r - length opening - 4) (drop (length opening) r)) else None)"

definition line_candidates :: "string \<Rightarrow> Candidate list" where
  "line_candidates line =
    (if isQuotedExample line then []
     else if markerCount line > 1 then [CInvalid]
     else if includes_str line ''<!-- agent-flow:v1 flow='' \<or> includes_str line CONTROL_PREFIX
     then [if includes_str line ''<!-- agent-flow:v1 flow='' \<or> includes_str line ''<!-- agent-flow-control:v1''
           then CLegacy else CInvalid]
     else case marker_body ''<!-- agent-flow:v1 '' line of
         Some js \<Rightarrow>
           [case json_parse js of None \<Rightarrow> CInvalid
            | Some v \<Rightarrow> (case metadata v of Some m \<Rightarrow> CCurrent m | None \<Rightarrow> CInvalid)]
       | None \<Rightarrow> if includes_str line MARKER_PREFIX \<or> includes_str line CONTROL_PREFIX then [CInvalid] else [])"

definition candidates_of :: "string \<Rightarrow> Candidate list" where
  "candidates_of body = concat (map line_candidates (outside_fences None (lines_of body)))"

definition parsePublication :: "string \<Rightarrow> ParsedPublication" where
  "parsePublication body = (case candidates_of body of
      [] \<Rightarrow> PUnmarked
    | [CCurrent m] \<Rightarrow> PCurrent m
    | [CLegacy] \<Rightarrow> PLegacy
    | _ \<Rightarrow> PInvalid)"

definition renderPublication :: "PublicationMetadata \<Rightarrow> string res" where
  "renderPublication m =
    (if valid_metadata m
     then ok (''<!-- agent-flow:v1 '' @ json_print (JObj [(''config'', JStr (pm_config m)),
                (''controller'', JStr (pm_controller m))]) @ '' -->'')
     else fail ''invalid publication metadata'')"

section \<open>Ownership\<close>

definition eligible :: "Publication \<Rightarrow> bool" where
  "eligible p \<longleftrightarrow> pb_ownershipEligible p \<noteq> Some False"

definition pub_time :: "Publication \<Rightarrow> int" where
  "pub_time p = opt_or (date_parse (pb_createdAt p)) 0"

definition electOwner :: "Publication list \<Rightarrow> Publication option res" where
  "electOwner publications =
    (if \<exists>p \<in> set publications. date_parse (pb_createdAt p) = None
     then fail ''createdAt must be a valid timestamp''
     else (case sort_key (\<lambda>p. (pub_time p, pb_key p)) (filter eligible publications) of
         [] \<Rightarrow> ok None | p # _ \<Rightarrow> ok (Some p)))"

definition unanchoredPublicationKeys :: "Publication list \<Rightarrow> string list res" where
  "unanchoredPublicationKeys publications =
    bindR (electOwner publications) (\<lambda>owner.
      ok (map pb_key (filter (\<lambda>p. pb_ownershipEligible p = Some False \<and>
        (case owner of None \<Rightarrow> True
         | Some o' \<Rightarrow> pm_controller (pb_metadata o') \<noteq> pm_controller (pb_metadata p)
             \<or> pm_config (pb_metadata o') \<noteq> pm_config (pb_metadata p)
             \<or> pub_time o' \<ge> pub_time p)) publications)))"

section \<open>Documentation markers\<close>

record DocumentationMetadata =
  dm_change :: int
  dm_inputHead :: string
  dm_resultHead :: string

definition valid_documentation :: "DocumentationMetadata \<Rightarrow> bool" where
  "valid_documentation d \<longleftrightarrow> safe_int (dm_change d) \<and> dm_change d > 0
     \<and> isSha (dm_inputHead d) \<and> isSha (dm_resultHead d)"

definition documentation_metadata :: "json \<Rightarrow> DocumentationMetadata option" where
  "documentation_metadata v = (case v of
      JObj ps \<Rightarrow> if length ps \<noteq> 3 then None
        else (case (map_of ps ''change'', map_of ps ''inputHead'', map_of ps ''resultHead'') of
            (Some (JInt n), Some (JStr i), Some (JStr r)) \<Rightarrow>
              (let d = \<lparr> dm_change = n, dm_inputHead = i, dm_resultHead = r \<rparr>
               in if valid_documentation d then Some d else None)
          | _ \<Rightarrow> None)
    | _ \<Rightarrow> None)"

definition quotedLine :: "string \<Rightarrow> bool" where
  "quotedLine line = (let r = trim_start line in r \<noteq> [] \<and> hd r \<in> {CHR ''>'', CHR ''`'', CHR 0x22, CHR 0x27})"

definition documentation_candidates :: "string \<Rightarrow> DocumentationMetadata option list" where
  "documentation_candidates line =
    (if \<not> includes_str line ''<!-- agent-flow-documentation:'' \<or> quotedLine line then []
     else [case marker_body ''<!-- agent-flow-documentation:v1 '' line of None \<Rightarrow> None
           | Some js \<Rightarrow> if CHR 0x0D \<in> set js then None
               else (case json_parse js of None \<Rightarrow> None | Some v \<Rightarrow> documentation_metadata v)])"

definition parseDocumentation :: "string \<Rightarrow> DocumentationMetadata option" where
  "parseDocumentation body =
    (case concat (map documentation_candidates (outside_fences None (lines_of body))) of
       [c] \<Rightarrow> c | _ \<Rightarrow> None)"

definition renderDocumentation :: "DocumentationMetadata \<Rightarrow> string res" where
  "renderDocumentation d =
    (if valid_documentation d
     then ok (''<!-- agent-flow-documentation:v1 '' @ json_print (JObj [(''change'', JInt (dm_change d)),
        (''inputHead'', JStr (dm_inputHead d)), (''resultHead'', JStr (dm_resultHead d))]) @ '' -->'')
     else fail ''invalid documentation metadata'')"

definition isVerifiedBugReceipt :: "string \<Rightarrow> bool" where
  "isVerifiedBugReceipt body =
    (List.find (\<lambda>l. trim_str l \<noteq> []) (drop 1 (lines_of body))
       = Some (''BUG RECEIPT '' @ [CHR 0xB7] @ '' VERIFIED''))"

section \<open>Reading back what was rendered\<close>

definition clean_line :: "string \<Rightarrow> bool" where
  "clean_line l \<longleftrightarrow> text_line l \<and> fence_of l = None \<and> \<not> includes_str l ''<!-- agent-flow''"

lemma clean_absent:
  assumes "\<not> includes_str l ''<!-- agent-flow''"
  shows "\<not> includes_str l (''<!-- agent-flow'' @ p)"
  using assms includes_str_mono by blast

lemma marker_body_includes: "marker_body p l = Some js \<Longrightarrow> includes_str l p"
proof -
  assume "marker_body p l = Some js"
  then have "starts_with (trim_end (trim_start l)) p"
    by (auto simp: marker_body_def Let_def split: if_splits)
  then have "includes_str (trim_end (trim_start l)) p"
    by (cases "trim_end (trim_start l)") auto
  then show ?thesis by (rule trim_includes)
qed

lemma line_candidates_clean:
  assumes "\<not> includes_str l ''<!-- agent-flow''"
  shows "line_candidates l = []"
proof -
  note a = clean_absent [OF assms]
  have "markerCount l = 0"
    using a [of "'':''"] a [of "''-control:''"] unfolding markerCount_def MARKER_PREFIX_def CONTROL_PREFIX_def
    by (simp add: count_str_absent)
  moreover have "marker_body ''<!-- agent-flow:v1 '' l = None"
    using a [of "'':v1 ''"] marker_body_includes [of "''<!-- agent-flow:v1 ''" l] by (cases "marker_body ''<!-- agent-flow:v1 '' l") auto
  ultimately show ?thesis
    using a [of "'':''"] a [of "''-control:''"] a [of "'':v1 flow=''"]
    by (auto simp: line_candidates_def MARKER_PREFIX_def CONTROL_PREFIX_def)
qed

lemma outside_fences_none:
  "list_all (\<lambda>l. fence_of l = None) ls \<Longrightarrow> outside_fences None (ls @ ms) = ls @ outside_fences None ms"
  by (induction ls) auto

lemma candidates_one:
  assumes "list_all clean_line pre" "list_all clean_line post" "text_line l" "fence_of l = None"
  shows "candidates_of (join_with [CHR 0x0A] (pre @ [l] @ post)) = line_candidates l"
proof -
  have t: "list_all text_line (pre @ [l] @ post)"
    using assms by (auto simp: list_all_iff clean_line_def)
  have "outside_fences None ((pre @ [l] @ post) @ []) = (pre @ [l] @ post) @ outside_fences None []"
    using assms by (intro outside_fences_none) (auto simp: list_all_iff clean_line_def)
  then have "candidates_of (join_with [CHR 0x0A] (pre @ [l] @ post)) =
      concat (map line_candidates pre) @ line_candidates l @ concat (map line_candidates post)"
    using t by (simp add: candidates_of_def lines_of_join)
  moreover have "concat (map line_candidates pre) = []" "concat (map line_candidates post) = []"
    using assms by (auto simp: list_all_iff clean_line_def line_candidates_clean)
  ultimately show ?thesis by simp
qed

lemma marker_body_exact:
  assumes "js \<noteq> []" "p \<noteq> []" "\<not> is_ws (hd p)"
  shows "marker_body p (p @ js @ '' -->'') = Some js"
proof -
  have h: "\<not> is_ws (hd (p @ js @ '' -->''))" using assms by simp
  then have w: "takeWhile is_ws (p @ js @ '' -->'') = []"
    using assms by (cases p) auto
  have s: "trim_start (p @ js @ '' -->'') = p @ js @ '' -->''" using h by (intro trim_start_id) auto
  have e: "trim_end (p @ js @ '' -->'') = p @ js @ '' -->''"
    by (intro trim_end_id) (auto simp: is_ws_def)
  show ?thesis unfolding marker_body_def w s e using assms by (simp add: ends_with_def)
qed

lemma list_all_range:
  "list_all P (take k (drop n s)) \<Longrightarrow> n \<le> i \<Longrightarrow> i < n + k \<Longrightarrow> i < length s \<Longrightarrow> P (s ! i)"
  by (auto simp: list_all_length dest!: spec [of _ "i - n"])

lemma uuid_split:
  assumes "isCanonicalUuid s"
  shows "list_all (\<lambda>c. is_hex c \<or> c = CHR ''-'') s"
proof -
  have l: "length s = 36" using assms by (simp add: isCanonicalUuid_def)
  have r: "list_all is_hex (take 8 (drop 0 s))" "list_all is_hex (take 4 (drop 9 s))"
    "list_all is_hex (take 3 (drop 15 s))" "list_all is_hex (take 3 (drop 20 s))"
    "list_all is_hex (take 12 (drop 24 s))"
    using assms by (simp_all add: isCanonicalUuid_def)
  have p: "s ! 8 = CHR ''-''" "s ! 13 = CHR ''-''" "s ! 18 = CHR ''-''" "s ! 23 = CHR ''-''"
    "is_hex (s ! 14)" "is_hex (s ! 19)"
    using assms by (auto simp: isCanonicalUuid_def is_hex_def)
  have "is_hex (s ! i) \<or> s ! i = CHR ''-''" if "i < 36" for i
  proof -
    have "i < 0 + 8 \<or> i = 8 \<or> (9 \<le> i \<and> i < 9 + 4) \<or> i = 13 \<or> i = 14 \<or> (15 \<le> i \<and> i < 15 + 3)
      \<or> i = 18 \<or> i = 19 \<or> (20 \<le> i \<and> i < 20 + 3) \<or> i = 23 \<or> (24 \<le> i \<and> i < 24 + 12)"
      using that by presburger
    then show ?thesis using p l r [THEN list_all_range, of i] that by auto
  qed
  then show ?thesis using l by (simp add: list_all_length)
qed

lemma hex_not_char: "is_hex c \<Longrightarrow> c \<noteq> CHR ''<'' \<and> c \<noteq> CHR 0x0A \<and> c \<noteq> CHR 0x0D"
  by (auto simp: is_hex_def)

lemma metadata_chars:
  assumes "valid_metadata m"
  shows "plain (pm_config m)" "plain (pm_controller m)"
    "CHR ''<'' \<notin> set (pm_config m)" "CHR ''<'' \<notin> set (pm_controller m)"
    "CHR 0x0A \<notin> set (pm_config m)" "CHR 0x0A \<notin> set (pm_controller m)"
proof -
  have c: "list_all is_hex (pm_config m)" using assms by (simp add: valid_metadata_def isSha_def)
  have k: "list_all (\<lambda>c. is_hex c \<or> c = CHR ''-'') (pm_controller m)"
    using assms by (intro uuid_split) (simp add: valid_metadata_def)
  show "plain (pm_config m)" using c by (rule hex_plain)
  show "plain (pm_controller m)" unfolding plain_def
    by (rule list.pred_mono_strong [OF k]) (auto simp: is_hex_def code_def)
  show "CHR ''<'' \<notin> set (pm_config m)" "CHR 0x0A \<notin> set (pm_config m)"
    using c hex_not_char by (auto simp: list_all_iff)
  show "CHR ''<'' \<notin> set (pm_controller m)" "CHR 0x0A \<notin> set (pm_controller m)"
    using k hex_not_char by (auto simp: list_all_iff)
qed

definition metadata_json :: "PublicationMetadata \<Rightarrow> string" where
  "metadata_json m = ''{'' @ [CHR 0x22] @ ''config'' @ [CHR 0x22] @ '':'' @ [CHR 0x22] @ pm_config m @ [CHR 0x22]
     @ '','' @ [CHR 0x22] @ ''controller'' @ [CHR 0x22] @ '':'' @ [CHR 0x22] @ pm_controller m @ [CHR 0x22] @ ''}''"

lemma metadata_json_print:
  assumes "valid_metadata m"
  shows "json_print (JObj [(''config'', JStr (pm_config m)), (''controller'', JStr (pm_controller m))]) = metadata_json m"
  using metadata_chars [OF assms] by (simp add: print_str_plain join_with_def metadata_json_def code_def)

lemma json_pair_more:
  assumes "plain k" "plain v"
  shows "json_pairs (Suc (Suc n)) acc (CHR 0x22 # k @ CHR 0x22 # CHR '':'' # CHR 0x22 # v @ CHR 0x22 # CHR '','' # r) =
    json_pairs (Suc n) (put_key k (JStr v) acc) r"
  using assms by (auto simp: expect_def json_chars_plain skip_ws_def Let_def)

lemma json_pair_last:
  assumes "plain k" "plain v"
  shows "json_pairs (Suc (Suc n)) acc (CHR 0x22 # k @ CHR 0x22 # CHR '':'' # CHR 0x22 # v @ CHR 0x22 # CHR ''}'' # r) =
    Some (JObj (put_key k (JStr v) acc), r)"
  using assms by (auto simp: expect_def json_chars_plain skip_ws_def Let_def)

lemma metadata_json_parse:
  assumes "valid_metadata m"
  shows "json_parse (metadata_json m) = Some (JObj [(''config'', JStr (pm_config m)), (''controller'', JStr (pm_controller m))])"
proof -
  note c = metadata_chars [OF assms]
  obtain n where n: "2 * length (metadata_json m) + 2 = Suc (Suc (Suc (Suc n)))"
    by (rule that [of "2 * length (metadata_json m) - 2"]) (simp add: metadata_json_def)
  have "json_value (Suc (Suc (Suc (Suc n)))) (metadata_json m) =
      Some (JObj [(''config'', JStr (pm_config m)), (''controller'', JStr (pm_controller m))], [])"
    using json_pair_more [of "''config''" "pm_config m" "Suc n" "[]"
        "[CHR 0x22] @ ''controller'' @ [CHR 0x22] @ '':'' @ [CHR 0x22] @ pm_controller m @ [CHR 0x22] @ ''}''"]
      json_pair_last [of "''controller''" "pm_controller m" "n" "[(''config'', JStr (pm_config m))]" "[]"] c
    by (simp add: metadata_json_def Let_def skip_ws_def expect_def starts_with_def code_def del: json_pairs.simps)
  then show ?thesis unfolding json_parse_def n by (simp add: skip_ws_def)
qed

lemma metadata_of_print:
  "valid_metadata m \<Longrightarrow>
   metadata (JObj [(''config'', JStr (pm_config m)), (''controller'', JStr (pm_controller m))]) = Some m"
  by (simp add: metadata_def has_key_def valid_metadata_def)

lemma render_line:
  assumes "valid_metadata m"
  defines "l \<equiv> ''<!-- agent-flow:v1 '' @ metadata_json m @ '' -->''"
  shows "text_line l" "fence_of l = None" "line_candidates l = [CCurrent m]"
proof -
  note c = metadata_chars [OF assms(1)]
  define r where "r = ''!-- agent-flow:v1 '' @ metadata_json m @ '' -->''"
  have lr: "l = CHR ''<'' # r" by (simp add: l_def r_def)
  have nr: "CHR ''<'' \<notin> set r" using c by (auto simp: r_def metadata_json_def)
  show "text_line l" using c by (auto simp: text_line_def no_nl_def l_def metadata_json_def)
  show "fence_of l = None" by (simp add: fence_of_def lr is_ws_def trim_start_def)
  have t: "trim_str l = l"
    unfolding trim_str_def
    by (subst trim_start_id) (use trim_end_id [of l] in \<open>simp_all add: l_def is_ws_def\<close>)
  have q: "\<not> isQuotedExample l" unfolding isQuotedExample_def t by (simp add: lr Let_def)
  have mc: "markerCount l = 1"
    by (simp only: markerCount_def MARKER_PREFIX_def CONTROL_PREFIX_def lr count_str_head [OF nr])
      (simp add: r_def)
  have inc: "\<not> includes_str l ''<!-- agent-flow:v1 flow=''" "\<not> includes_str l CONTROL_PREFIX"
    by (simp_all only: CONTROL_PREFIX_def lr includes_str_head [OF nr]) (simp_all add: r_def metadata_json_def)
  have "marker_body ''<!-- agent-flow:v1 '' l = Some (metadata_json m)"
    unfolding l_def by (rule marker_body_exact) (auto simp: metadata_json_def is_ws_def)
  then show "line_candidates l = [CCurrent m]"
    using q mc inc by (simp add: line_candidates_def metadata_json_parse assms(1) metadata_of_print)
qed

lemma parse_render:
  assumes "renderPublication m = ok l" "list_all clean_line pre" "list_all clean_line post"
  shows "parsePublication (join_with [CHR 0x0A] (pre @ [l] @ post)) = PCurrent m"
proof -
  have v: "valid_metadata m" using assms(1) by (simp add: renderPublication_def split: if_splits)
  have l: "l = ''<!-- agent-flow:v1 '' @ metadata_json m @ '' -->''"
    using assms(1) v
    by (simp add: renderPublication_def metadata_json_print [OF v] del: json_print.simps)
  show ?thesis unfolding parsePublication_def
    using candidates_one [OF assms(2,3)] render_line [OF v] unfolding l by simp
qed

section \<open>What a marker proves\<close>

lemma metadata_valid: "metadata v = Some m \<Longrightarrow> valid_metadata m"
  by (auto simp: metadata_def valid_metadata_def split: if_splits option.splits json.splits)

lemma line_candidates_current:
  assumes "CCurrent m \<in> set (line_candidates l)"
  shows "valid_metadata m \<and> \<not> isQuotedExample l \<and> markerCount l \<le> 1 \<and>
    (\<exists>js v. marker_body ''<!-- agent-flow:v1 '' l = Some js \<and> json_parse js = Some v \<and> metadata v = Some m)"
proof (cases "marker_body ''<!-- agent-flow:v1 '' l")
  case None
  then show ?thesis using assms by (auto simp: line_candidates_def split: if_splits)
next
  case (Some js)
  show ?thesis
  proof (cases "json_parse js")
    case None
    then show ?thesis using assms Some by (auto simp: line_candidates_def split: if_splits)
  next
    case (Some v)
    then show ?thesis using assms \<open>marker_body _ l = _\<close>
      by (cases "metadata v") (auto simp: line_candidates_def metadata_valid split: if_splits)
  qed
qed

lemma parsePublication_current:
  "parsePublication body = PCurrent m \<longleftrightarrow> candidates_of body = [CCurrent m]"
  by (auto simp: parsePublication_def split: list.splits Candidate.splits)

lemma parsePublication_unmarked:
  "parsePublication body = PUnmarked \<longleftrightarrow> candidates_of body = []"
  by (auto simp: parsePublication_def split: list.splits Candidate.splits)

lemma outside_fences_closed:
  "list_all (\<lambda>l. case fence_of l of Some (c', n') \<Rightarrow> c' \<noteq> c \<or> n' < n | None \<Rightarrow> True) ls
    \<Longrightarrow> outside_fences (Some (c, n)) ls = []"
  by (induction ls) (auto split: option.splits prod.splits)

section \<open>The election\<close>

abbreviation owner_rank :: "Publication \<Rightarrow> int \<times> string" where
  "owner_rank p \<equiv> (pub_time p, pb_key p)"

abbreviation dated :: "Publication list \<Rightarrow> bool" where
  "dated ps \<equiv> \<forall>p \<in> set ps. date_parse (pb_createdAt p) \<noteq> None"

lemma electOwner_dated: "is_ok (electOwner ps) \<longleftrightarrow> dated ps"
  by (auto simp: electOwner_def split: list.splits)

lemma electOwner_None_iff: "electOwner ps = ok None \<longleftrightarrow> dated ps \<and> filter eligible ps = []"
proof -
  have "sort_key owner_rank (filter eligible ps) = [] \<longleftrightarrow> filter eligible ps = []"
    by (metis set_empty set_sort)
  then show ?thesis by (auto simp: electOwner_def split: list.splits)
qed

lemma electOwner_least:
  assumes "electOwner ps = ok (Some w)"
  shows "w \<in> set ps \<and> eligible w \<and> (\<forall>p \<in> set ps. eligible p \<longrightarrow> owner_rank w \<le> owner_rank p)"
proof -
  obtain r where r: "sort_key owner_rank (filter eligible ps) = w # r"
    using assms by (auto simp: electOwner_def split: if_splits list.splits)
  have s: "set (w # r) = set (filter eligible ps)" by (metis r set_sort)
  have "sorted (map owner_rank (w # r))" by (metis r sorted_sort_key)
  then have "\<forall>p \<in> set (w # r). owner_rank w \<le> owner_rank p" by auto
  then have "\<forall>p \<in> set (filter eligible ps). owner_rank w \<le> owner_rank p" unfolding s .
  moreover have "w \<in> set (filter eligible ps)" using s by auto
  ultimately show ?thesis by simp
qed

lemma electOwner_set:
  assumes "set ps = set qs" "inj_on pb_key (set ps)"
  shows "electOwner ps = electOwner qs"
proof (cases "dated ps")
  case False
  then show ?thesis using assms(1) by (auto simp: electOwner_def)
next
  case True
  then have d: "dated qs" using assms(1) by simp
  show ?thesis
  proof (cases "electOwner ps")
    case (Inl e)
    then show ?thesis using True by (auto simp: electOwner_def split: list.splits)
  next
    case (Inr x)
    then have x: "electOwner ps = ok x" by (simp add: ok_def)
    obtain y where y: "electOwner qs = ok y" using electOwner_dated [of qs] d by (auto simp: is_ok_iff)
    show ?thesis
    proof (cases x)
      case None
      then show ?thesis using x assms(1) d electOwner_None_iff [of ps] electOwner_None_iff [of qs]
        by (auto simp: filter_empty_conv)
    next
      case (Some w)
      then have w: "w \<in> set ps" "eligible w" "\<forall>p \<in> set ps. eligible p \<longrightarrow> owner_rank w \<le> owner_rank p"
        using electOwner_least x by blast+
      then have "y \<noteq> None" using y electOwner_None_iff [of qs] assms(1) by (auto simp: filter_empty_conv)
      then obtain v where v: "y = Some v" by auto
      then have "v \<in> set qs" "eligible v" "\<forall>p \<in> set qs. eligible p \<longrightarrow> owner_rank v \<le> owner_rank p"
        using electOwner_least y by blast+
      then have "owner_rank w = owner_rank v" using w assms(1) by (intro antisym) auto
      then have "w = v" using assms w \<open>v \<in> set qs\<close> by (auto simp: inj_on_def)
      then show ?thesis using x y v Some by simp
    qed
  qed
qed

lemma unanchored_iff:
  assumes "electOwner ps = ok w"
  shows "unanchoredPublicationKeys ps = ok [] \<longleftrightarrow>
    (\<forall>p \<in> set ps. \<not> eligible p \<longrightarrow> (\<exists>o'. w = Some o' \<and> pb_metadata o' = pb_metadata p \<and> pub_time o' < pub_time p))"
  using assms by (auto simp: unanchoredPublicationKeys_def filter_empty_conv eligible_def not_le
      intro: PublicationMetadata.equality split: option.splits)

section \<open>Properties\<close>

text \<open>
  C3: a rendered publication marker, alone or among other lines of a body that hold no marker and open
  no code fence, is read back as the metadata it was rendered from.
\<close>

theorem publication_roundtrip:
  assumes "renderPublication m = ok l" "list_all clean_line pre" "list_all clean_line post"
  shows "parsePublication (join_with [CHR 0x0A] (pre @ [l] @ post)) = PCurrent m"
  using parse_render [OF assms] .

definition sample_metadata :: PublicationMetadata where
  "sample_metadata = \<lparr> pm_config = sample_sha, pm_controller = sample_uuid \<rparr>"

theorem publication_roundtrip_witness:
  "\<exists>l. renderPublication sample_metadata = ok l \<and>
     parsePublication (join_with [CHR 0x0A] ([''Plan ready''] @ [l] @ [''see above''])) = PCurrent sample_metadata"
proof -
  have v: "valid_metadata sample_metadata" by code_simp
  have c: "list_all clean_line [''Plan ready'']" "list_all clean_line [''see above'']" by code_simp+
  obtain l where "renderPublication sample_metadata = ok l" using v by (simp add: renderPublication_def)
  then show ?thesis using publication_roundtrip c by blast
qed

text \<open>
  C4: a body is read as a current publication only when exactly one of its lines outside code fences
  is a marker candidate, and that line is not a quoted example, carries one marker, and holds metadata
  with a full commit hash and a canonical UUID.
\<close>

theorem parsePublication_sound:
  assumes "parsePublication body = PCurrent m"
  shows "candidates_of body = [CCurrent m] \<and> valid_metadata m \<and>
    (\<exists>l \<in> set (outside_fences None (lines_of body)). \<not> isQuotedExample l \<and> markerCount l \<le> 1 \<and>
       (\<exists>js v. marker_body ''<!-- agent-flow:v1 '' l = Some js \<and> json_parse js = Some v \<and> metadata v = Some m))"
proof -
  have c: "candidates_of body = [CCurrent m]" using assms parsePublication_current by blast
  then have "CCurrent m \<in> set (concat (map line_candidates (outside_fences None (lines_of body))))"
    by (simp add: candidates_of_def)
  then obtain l where "l \<in> set (outside_fences None (lines_of body))" "CCurrent m \<in> set (line_candidates l)"
    by auto
  then show ?thesis using c line_candidates_current by blast
qed

theorem parsePublication_sound_witness:
  "\<exists>l. renderPublication sample_metadata = ok l \<and> candidates_of l = [CCurrent sample_metadata]"
proof -
  have v: "valid_metadata sample_metadata" by code_simp
  then obtain l where l: "renderPublication sample_metadata = ok l" by (simp add: renderPublication_def)
  have "parsePublication (join_with [CHR 0x0A] ([] @ [l] @ [])) = PCurrent sample_metadata"
    using parse_render [OF l, of "[]" "[]"] by simp
  then have "parsePublication l = PCurrent sample_metadata" by simp
  then show ?thesis using l parsePublication_sound by blast
qed

text \<open>
  the owner of active work is the eligible publication that is earliest by timestamp and then by
  key; the election fails exactly when some timestamp is not a date.
\<close>

theorem electOwner_earliest:
  assumes "electOwner publications = ok (Some w)"
  shows "w \<in> set publications \<and> eligible w \<and>
    (\<forall>p \<in> set publications. eligible p \<longrightarrow> (pub_time w, pb_key w) \<le> (pub_time p, pb_key p))"
  using electOwner_least [OF assms] .

theorem electOwner_earliest_witness:
  "electOwner [sample_publication ''k2'' ''2026-01-02T00:00:00Z'' other_uuid,
      sample_publication ''k1'' ''2026-01-01T00:00:00Z'' sample_uuid]
    = ok (Some (sample_publication ''k1'' ''2026-01-01T00:00:00Z'' sample_uuid))
   \<and> eligible (sample_publication ''k1'' ''2026-01-01T00:00:00Z'' sample_uuid)"
proof -
  have e: "electOwner [sample_publication ''k2'' ''2026-01-02T00:00:00Z'' other_uuid,
      sample_publication ''k1'' ''2026-01-01T00:00:00Z'' sample_uuid]
    = ok (Some (sample_publication ''k1'' ''2026-01-01T00:00:00Z'' sample_uuid))"
    by code_simp
  then show ?thesis using electOwner_earliest [OF e] by blast
qed

text \<open>
  two controllers that see the same publications, in whatever order the provider lists them, elect
  the same owner (publication keys are unique).
\<close>

theorem electOwner_agreement:
  assumes "set ps = set qs" "inj_on pb_key (set ps)"
  shows "electOwner ps = electOwner qs"
  using electOwner_set [OF assms] .

theorem electOwner_agreement_witness:
  "electOwner [sample_publication ''k1'' ''2026-01-01T00:00:00Z'' sample_uuid,
      sample_publication ''k2'' ''2026-01-01T00:00:00Z'' other_uuid]
   = electOwner [sample_publication ''k2'' ''2026-01-01T00:00:00Z'' other_uuid,
      sample_publication ''k1'' ''2026-01-01T00:00:00Z'' sample_uuid]"
  by (rule electOwner_agreement) (auto simp: sample_publication_def)

end
