(* ===== verification/Recovery.thy ===== *)
theory Recovery
  imports Publication
begin

text \<open>
  src/runtime/recovery.ts: what a controller without a usable local record does with a ticket,
  from the publications and change requests it finds at the provider.
\<close>

datatype RecoveryKind = RInactive | RForeign | RAmbiguous | RResume | RReassess

record RecoveryDecision =
  rd_kind :: RecoveryKind
  rd_owner :: "Publication option"
  rd_reason :: "string option"

definition decision :: "RecoveryKind \<Rightarrow> Publication option \<Rightarrow> string option \<Rightarrow> RecoveryDecision" where
  "decision k ow r = \<lparr> rd_kind = k, rd_owner = ow, rd_reason = r \<rparr>"

text \<open>The object kind that a publication key, a JSON array, names in its fourth place.\<close>

definition publicationKind :: "Publication \<Rightarrow> string option" where
  "publicationKind p = (case json_parse (pb_key p) of
      Some (JArr xs) \<Rightarrow> if length xs > 3 then (case xs ! 3 of JStr s \<Rightarrow> Some s | _ \<Rightarrow> None) else None
    | _ \<Rightarrow> None)"

definition mergedCompletion :: "RecoveryEvidence \<Rightarrow> bool" where
  "mergedCompletion ev \<longleftrightarrow> ''agent-stage:awaiting-merge'' \<in> set (sn_labels (rv_snapshot ev)) \<and>
    (case (rv_changes ev, sn_changeRequest (rv_snapshot ev)) of
       ([c], Some linked) \<Rightarrow> nc_state linked = CsMerged \<and> nc_provider c = nc_provider linked
          \<and> nc_repository c = nc_repository linked \<and> nc_number c = nc_number linked
          \<and> nc_headSha c = nc_headSha linked
     | _ \<Rightarrow> False)"

definition recoveryOwner :: "RecoveryEvidence \<Rightarrow> Publication option res" where
  "recoveryOwner ev = (case rv_migration ev of
      Some m \<Rightarrow> ok (Some ((rm_owner m) \<lparr> pb_metadata :=
                  (pb_metadata (rm_owner m)) \<lparr> pm_config := mg_targetConfig (rm_receipt m) \<rparr> \<rparr>))
    | None \<Rightarrow> electOwner (rv_publications ev))"

definition controllerOf :: "Publication \<Rightarrow> string" where
  "controllerOf p = pm_controller (pb_metadata p)"

definition winningPins :: "RecoveryEvidence \<Rightarrow> Publication \<Rightarrow> string list" where
  "winningPins ev ow = uniq (map (\<lambda>p. pm_config (pb_metadata p))
     (filter (\<lambda>p. controllerOf p = controllerOf ow) (rv_publications ev)))"

definition ownerConflict :: "RecoveryEvidence \<Rightarrow> Publication \<Rightarrow> string option" where
  "ownerConflict ev ow =
    (if length (winningPins ev ow) > 1 \<or> (winningPins ev ow = [] \<and> rv_migration ev = None)
     then Some ''winning controller publications have conflicting configuration pins''
     else if list_ex (\<lambda>p. controllerOf p \<noteq> controllerOf ow \<and> publicationKind p = Some ''change-request'')
               (rv_publications ev)
     then Some ''a losing controller published a code change'' else None)"

definition stageLabels :: "string list \<Rightarrow> string list" where
  "stageLabels labels = filter (\<lambda>l. starts_with l ''agent-stage:'') labels"

definition stageDecision :: "RecoveryEvidence \<Rightarrow> Publication option \<Rightarrow> RecoveryDecision" where
  "stageDecision ev ow =
    (case stageLabels (sn_labels (rv_snapshot ev)) of
       [l] \<Rightarrow> (let stage = drop (length ''agent-stage:'') l in
          if stage = ''blocked'' \<or> stage = ''needs-human''
          then decision RAmbiguous ow (Some (stage @ '' resume target is unavailable''))
          else decision (if ow \<noteq> None then RReassess else RResume) ow None)
     | _ \<Rightarrow> decision RAmbiguous ow (Some ''provider stage is missing or contradictory''))"

text \<open>The last part of the classification, once the evidence is clear and the owner is known.\<close>

definition ownerDecision :: "RecoveryEvidence \<Rightarrow> string \<Rightarrow> Publication option \<Rightarrow> RecoveryDecision" where
  "ownerDecision ev controllerId w =
    (case w of Some w' \<Rightarrow>
        if controllerOf w' \<noteq> controllerId
        then decision RForeign w (Some ''active work belongs to another controller'')
        else (case ownerConflict ev w' of Some r \<Rightarrow> decision RAmbiguous w (Some r)
          | None \<Rightarrow> if rv_activeBoundary ev = BFresh \<and> rv_publications ev = []
                    then decision RResume None None else stageDecision ev w)
      | None \<Rightarrow> if rv_activeBoundary ev = BFresh \<and> rv_publications ev = []
                then decision RResume None None else stageDecision ev None)"

definition ownerResolution :: "RecoveryEvidence \<Rightarrow> string \<Rightarrow> RecoveryDecision res" where
  "ownerResolution ev controllerId =
    bindR (recoveryOwner ev) (\<lambda>ow.
      bindR (unanchoredPublicationKeys (rv_publications ev)) (\<lambda>unanchored.
        if unanchored \<noteq> []
        then ok (decision RAmbiguous ow
               (Some ''publication provenance is unavailable without an earlier matching owner''))
        else ok (ownerDecision ev controllerId ow)))"

definition classifyRecovery :: "RecoveryEvidence \<Rightarrow> string \<Rightarrow> RecoveryDecision res" where
  "classifyRecovery ev controllerId =
    (let sn = rv_snapshot ev in
     if (\<not> av_present (sn_activation sn) \<or> \<not> sn_open sn) \<and> \<not> mergedCompletion ev
     then ok (decision RInactive None (Some ''ticket is inactive''))
     else if \<not> rv_complete ev then ok (decision RAmbiguous None (Some ''provider evidence is incomplete''))
     else if rv_legacyActive ev then ok (decision RAmbiguous None (Some ''active legacy state requires migration''))
     else if rv_activeBoundary ev = BAmbiguous
     then ok (decision RAmbiguous None (Some ''active work boundary is ambiguous''))
     else if rv_ambiguities ev \<noteq> [] \<or> length (rv_changes ev) > 1
     then ok (decision RAmbiguous None (Some (case rv_ambiguities ev of a # _ \<Rightarrow> a
               | [] \<Rightarrow> ''multiple linked change requests'')))
     else ownerResolution ev controllerId)"

section \<open>Which decisions let a controller act\<close>

definition proceeds :: "RecoveryDecision \<Rightarrow> bool" where
  "proceeds d \<longleftrightarrow> rd_kind d = RResume \<or> rd_kind d = RReassess"

lemma decision_sel [simp]:
  "rd_kind (decision k w r) = k" "rd_owner (decision k w r) = w" "rd_reason (decision k w r) = r"
  by (simp_all add: decision_def)

lemma stageDecision_owner: "rd_owner (stageDecision ev w) = w"
  by (auto simp: stageDecision_def Let_def split: list.splits)

lemma stageDecision_kind:
  "rd_kind (stageDecision ev w) = RReassess \<Longrightarrow> w \<noteq> None"
  "rd_kind (stageDecision ev w) = RResume \<Longrightarrow> w = None"
  by (auto simp: stageDecision_def Let_def split: list.splits if_splits)

lemma stageDecision_never:
  "rd_kind (stageDecision ev w) \<noteq> RInactive" "rd_kind (stageDecision ev w) \<noteq> RForeign"
  by (auto simp: stageDecision_def Let_def split: list.splits)

definition clearEvidence :: "RecoveryEvidence \<Rightarrow> bool" where
  "clearEvidence ev \<longleftrightarrow> rv_complete ev \<and> \<not> rv_legacyActive ev \<and> rv_activeBoundary ev \<noteq> BAmbiguous
     \<and> rv_ambiguities ev = [] \<and> length (rv_changes ev) \<le> 1"

lemma ownerResolution_proceeds:
  assumes "ownerResolution ev controllerId = ok d" "proceeds d"
  shows "\<exists>w. recoveryOwner ev = ok w \<and> unanchoredPublicationKeys (rv_publications ev) = ok [] \<and>
    d = ownerDecision ev controllerId w"
proof -
  obtain w u where w: "recoveryOwner ev = ok w" "unanchoredPublicationKeys (rv_publications ev) = ok u"
    "(if u \<noteq> [] then ok (decision RAmbiguous w
         (Some ''publication provenance is unavailable without an earlier matching owner''))
     else ok (ownerDecision ev controllerId w)) = ok d"
    using assms(1) unfolding ownerResolution_def bindR_ok_iff by blast
  then show ?thesis using assms(2) by (cases "u = []") (auto simp: proceeds_def)
qed

lemma classifyRecovery_resolution:
  "classifyRecovery ev controllerId = ok d \<Longrightarrow> proceeds d \<Longrightarrow>
    clearEvidence ev \<and> ownerResolution ev controllerId = ok d"
  unfolding classifyRecovery_def Let_def
  by (auto simp: proceeds_def clearEvidence_def split: if_split_asm)

lemma classifyRecovery_clear:
  assumes "classifyRecovery ev controllerId = ok d" "proceeds d"
  shows "clearEvidence ev \<and> (\<exists>w. recoveryOwner ev = ok w \<and>
    unanchoredPublicationKeys (rv_publications ev) = ok [] \<and> d = ownerDecision ev controllerId w)"
  using classifyRecovery_resolution [OF assms] ownerResolution_proceeds assms(2) by blast

lemma ownerDecision_proceeds:
  assumes "proceeds (ownerDecision ev controllerId w)"
  shows "(\<forall>o'. w = Some o' \<longrightarrow> controllerOf o' = controllerId \<and> ownerConflict ev o' = None)"
    "rd_kind (ownerDecision ev controllerId w) = RReassess \<Longrightarrow>
       w \<noteq> None \<and> rd_owner (ownerDecision ev controllerId w) = w"
    "rd_kind (ownerDecision ev controllerId w) = RResume \<Longrightarrow>
       rd_owner (ownerDecision ev controllerId w) = None"
  using assms stageDecision_kind [of ev w] stageDecision_owner [of ev w]
    stageDecision_kind [of ev None] stageDecision_owner [of ev None]
  by (auto simp: ownerDecision_def proceeds_def split: option.split_asm if_split_asm)

section \<open>Properties\<close>

text \<open>
  C5: a controller proceeds with a ticket only on complete, unambiguous, non-legacy evidence with at
  most one change request and no unanchored publication; an owner, when there is one, is the controller
  itself, with one configuration pin and no change request by a losing controller; it reassesses exactly
  as that owner and resumes only unowned work.
\<close>

theorem classifyRecovery_safe:
  assumes "classifyRecovery ev controllerId = ok d" "rd_kind d = RResume \<or> rd_kind d = RReassess"
  shows "clearEvidence ev \<and> unanchoredPublicationKeys (rv_publications ev) = ok [] \<and>
    (\<exists>w. recoveryOwner ev = ok w \<and>
      (\<forall>p. w = Some p \<longrightarrow> controllerOf p = controllerId \<and> ownerConflict ev p = None) \<and>
      (rd_kind d = RReassess \<longrightarrow> w \<noteq> None \<and> rd_owner d = w)) \<and>
    (rd_kind d = RResume \<longrightarrow> rd_owner d = None)"
proof -
  have p: "proceeds d" using assms(2) by (simp add: proceeds_def)
  from classifyRecovery_clear [OF assms(1) p] obtain w where
    w: "clearEvidence ev" "recoveryOwner ev = ok w" "unanchoredPublicationKeys (rv_publications ev) = ok []"
      "d = ownerDecision ev controllerId w" by blast
  have q: "proceeds (ownerDecision ev controllerId w)" using p unfolding w(4) .
  note od = ownerDecision_proceeds [OF q]
  have "rd_kind d = RReassess \<longrightarrow> w \<noteq> None \<and> rd_owner d = w" "rd_kind d = RResume \<longrightarrow> rd_owner d = None"
    unfolding w(4) using od(2,3) by blast+
  then show ?thesis using w(1-3) od(1) by blast
qed

lemma sample_recovery:
  "classifyRecovery sample_evidence sample_uuid
     = ok (decision RReassess (Some (sample_publication ''k1'' ''2026-01-01T00:00:00Z'' sample_uuid)) None)"
  by code_simp

theorem classifyRecovery_safe_witness:
  "clearEvidence sample_evidence \<and> classifyRecovery sample_evidence sample_uuid
     = ok (decision RReassess (Some (sample_publication ''k1'' ''2026-01-01T00:00:00Z'' sample_uuid)) None)"
  using classifyRecovery_safe [OF sample_recovery] sample_recovery by simp

end
