(* ===== verification/ControlState.thy ===== *)
theory ControlState
  imports LocalStore Recovery
begin

text \<open>
  src/runtime/control-state.ts: the writer of control states on top of the local store. A write
  names the control state it replaces; the next one has the same flow instance and the following
  sequence number. recordRecovery stores the outcome of a recovery decision. The locale
  control_writer is what reconciliation relies on.
\<close>

section \<open>The local writer\<close>

definition truthy :: "string option \<Rightarrow> string option" where
  "truthy x = (case x of Some s \<Rightarrow> if s = [] then None else Some s | None \<Rightarrow> None)"

definition next_sequence :: "ControlState option \<Rightarrow> int" where
  "next_sequence e = (case e of None \<Rightarrow> 0 | Some c \<Rightarrow> cs_sequence c + 1)"

definition same_instance :: "ControlState option \<Rightarrow> ControlState \<Rightarrow> bool" where
  "same_instance e n \<longleftrightarrow> (case e of None \<Rightarrow> True | Some c \<Rightarrow> cs_flowInstanceId n = cs_flowInstanceId c)"

definition stored_control :: "StoredExecution option \<Rightarrow> ControlState option" where
  "stored_control x = (case x of None \<Rightarrow> None | Some st \<Rightarrow> le_control (st_value st))"

record WriterEnv =
  we_valid :: "LocalExecution \<Rightarrow> bool"
  we_url :: "string \<Rightarrow> Url option"
  we_scope :: string
  we_controllerId :: string

definition nextExecution ::
  "WriterEnv \<Rightarrow> string \<Rightarrow> StoredExecution option \<Rightarrow> ControlState \<Rightarrow> string list option \<Rightarrow> LocalExecution" where
  "nextExecution w now x n keys =
    \<lparr> le_migrationId = (case x of None \<Rightarrow> None | Some st \<Rightarrow> truthy (le_migrationId (st_value st))),
      le_controllerId = we_controllerId w,
      le_observedAt = now,
      le_owner = (case x of None \<Rightarrow> None | Some st \<Rightarrow> le_owner (st_value st)),
      le_disposition = (case x of None \<Rightarrow> DReady | Some st \<Rightarrow> le_disposition (st_value st)),
      le_reason = (case x of None \<Rightarrow> None | Some st \<Rightarrow> le_reason (st_value st)),
      le_publicationKeys = (case keys of Some ks \<Rightarrow> ks
         | None \<Rightarrow> (case x of None \<Rightarrow> [] | Some st \<Rightarrow> le_publicationKeys (st_value st))),
      le_control = Some n \<rparr>"

definition local_writer ::
  "WriterEnv \<Rightarrow> TicketRef \<Rightarrow> ControlState option \<Rightarrow> ControlState \<Rightarrow> string \<times> string list option
     \<Rightarrow> (db, ControlState) io" where
  "local_writer w ref expected n p =
    thenM (checkM (\<not> same_instance expected n \<or> cs_sequence n \<noteq> next_sequence expected)
             ''invalid control state update'')
    (bindM (load_execution (we_valid w) (we_url w) (we_scope w) ref) (\<lambda>x.
      thenM (checkM (stored_control x \<noteq> expected) ''stale local execution write'')
     (bindM (save_execution (we_valid w) (we_url w) (we_scope w, ref) (map_option st_revision x)
               (nextExecution w (fst p) x n (snd p))) (\<lambda>r.
      retM (the (le_control (st_value r)))))))"

fun disposition_of :: "RecoveryKind \<Rightarrow> Disposition" where
  "disposition_of RForeign = DForeign"
| "disposition_of RAmbiguous = DAmbiguous"
| "disposition_of RInactive = DInactive"
| "disposition_of RResume = DReady"
| "disposition_of RReassess = DReady"

definition decisionOwner :: "RecoveryDecision \<Rightarrow> LocalOwner option" where
  "decisionOwner d = map_option (\<lambda>p. \<lparr> lo_controllerId = pm_controller (pb_metadata p),
     lo_publicationKey = pb_key p \<rparr>) (rd_owner d)"

definition alignControl :: "ControlState option \<Rightarrow> int \<Rightarrow> ControlState option" where
  "alignControl c r = (case c of None \<Rightarrow> None
     | Some x \<Rightarrow> if cs_sequence x \<noteq> r then Some (x \<lparr> cs_sequence := r \<rparr>) else Some x)"

text \<open>The replacement control is None when the caller does not pass one.\<close>

definition recordRecovery ::
  "WriterEnv \<Rightarrow> string \<Rightarrow> TicketRef \<Rightarrow> RecoveryEvidence \<Rightarrow> RecoveryDecision
     \<Rightarrow> ControlState option option \<Rightarrow> string list option \<Rightarrow> (db, StoredExecution) io" where
  "recordRecovery w now ref ev d replacement baseline =
    bindM (load_execution (we_valid w) (we_url w) (we_scope w) ref) (\<lambda>x.
      thenM (checkM (opt_is (\<lambda>st. le_controllerId (st_value st) \<noteq> we_controllerId w) x)
               ''local execution belongs to another controller identity'')
      (let keys = sort (opt_or baseline (map pb_key (rv_publications ev)));
           control = (case replacement of Some c \<Rightarrow> c | None \<Rightarrow> stored_control x);
           migrationId = (case rv_migration ev of Some m \<Rightarrow> Some (rm_id m)
              | None \<Rightarrow> (case x of None \<Rightarrow> None | Some st \<Rightarrow> le_migrationId (st_value st)));
           same = (case x of None \<Rightarrow> False | Some st \<Rightarrow>
              le_migrationId (st_value st) = migrationId \<and> le_owner (st_value st) = decisionOwner d
              \<and> le_disposition (st_value st) = disposition_of (rd_kind d) \<and> le_reason (st_value st) = rd_reason d
              \<and> le_publicationKeys (st_value st) = keys \<and> le_control (st_value st) = control);
           revision = (case x of None \<Rightarrow> 0 | Some st \<Rightarrow> st_revision st + 1)
       in if same then retM (the x)
          else save_execution (we_valid w) (we_url w) (we_scope w, ref) (map_option st_revision x)
            \<lparr> le_migrationId = truthy migrationId, le_controllerId = we_controllerId w, le_observedAt = now,
              le_owner = decisionOwner d, le_disposition = disposition_of (rd_kind d),
              le_reason = rd_reason d, le_publicationKeys = keys, le_control = alignControl control revision \<rparr>))"

section \<open>The contract of a control writer\<close>

locale control_writer =
  fixes ctl :: "'k \<Rightarrow> 's \<Rightarrow> ControlState option"
    and put :: "'k \<Rightarrow> ControlState option \<Rightarrow> ControlState \<Rightarrow> 'p \<Rightarrow> ('s, ControlState) io"
  assumes put_done: "put k e n p s = (Inr c, s') \<Longrightarrow>
      c = n \<and> ctl k s = e \<and> ctl k s' = Some n \<and> cs_sequence n = next_sequence e \<and> same_instance e n"
    and put_failed: "put k e n p s = (Inl x, s') \<Longrightarrow> s' = s"
begin

lemma no_lost_update:
  assumes "put k e n p s = (Inr c, s')"
  shows "\<exists>x. put k e n' p' s' = (Inl x, s')"
proof -
  obtain o' t where t: "put k e n' p' s' = (o', t)" by fastforce
  show ?thesis
  proof (cases o')
    case (Inl x)
    then show ?thesis using t put_failed by blast
  next
    case (Inr q)
    then have "ctl k s' = e" using t put_done by blast
    moreover have "ctl k s' = Some n" "cs_sequence n = next_sequence e" using assms put_done by blast+
    ultimately show ?thesis by (auto simp: next_sequence_def)
  qed
qed

end

text \<open>writeControlCas on top of a writer: the read-back must be the state that was written.\<close>

definition writeControlCas ::
  "('k \<Rightarrow> ControlState option \<Rightarrow> ControlState \<Rightarrow> 'p \<Rightarrow> ('s, ControlState) io)
     \<Rightarrow> 'k \<Rightarrow> ControlState option \<Rightarrow> ControlState \<Rightarrow> 'p \<Rightarrow> ('s, ControlState) io" where
  "writeControlCas writer k expected n p =
    bindM (writer k expected n p) (\<lambda>r.
      thenM (checkM (r \<noteq> n) ''control state readback does not match'') (retM r))"

text \<open>A run of writes by any number of writers on one key: each names what it expects and writes.\<close>

fun write_run ::
  "('k \<Rightarrow> ControlState option \<Rightarrow> ControlState \<Rightarrow> 'p \<Rightarrow> ('s, ControlState) io)
     \<Rightarrow> 'k \<Rightarrow> (ControlState option \<times> ControlState \<times> 'p) list \<Rightarrow> 's \<Rightarrow> ControlState list \<times> 's" where
  "write_run writer k [] s = ([], s)"
| "write_run writer k ((e, n, p) # ws) s =
    (case writer k e n p s of (Inl _, s') \<Rightarrow> write_run writer k ws s'
     | (Inr c, s') \<Rightarrow> (case write_run writer k ws s' of (cs, s'') \<Rightarrow> (c # cs, s'')))"

context control_writer
begin

lemma cas_is_write: "writeControlCas put k e n p s = put k e n p s"
proof -
  obtain x s' where x: "put k e n p s = (x, s')" by fastforce
  then show ?thesis
    by (cases x) (auto simp: writeControlCas_def bindM_def thenM_def checkM_def retM_def ok_def dest!: put_done)
qed

lemma run_sequence:
  "write_run put k ws s = (cs, s') \<Longrightarrow>
    map cs_sequence cs = map (\<lambda>i. next_sequence (ctl k s) + int i) [0..<length cs]
    \<and> ctl k s' = (if cs = [] then ctl k s else Some (last cs))"
proof (induction ws arbitrary: s cs s')
  case (Cons w ws)
  obtain e n p where w: "w = (e, n, p)" by (cases w)
  obtain o' s1 where o': "put k e n p s = (o', s1)" by fastforce
  show ?case
  proof (cases o')
    case (Inl x)
    then have "s1 = s" using o' put_failed by blast
    then show ?thesis using Cons Inl w o' by simp
  next
    case (Inr c)
    obtain cs1 s2 where r: "write_run put k ws s1 = (cs1, s2)" by fastforce
    have d: "c = n" "ctl k s = e" "ctl k s1 = Some n" "cs_sequence n = next_sequence e"
      using o' Inr put_done by blast+
    have nx: "next_sequence (ctl k s1) = next_sequence (ctl k s) + 1"
      using d by (simp add: next_sequence_def)
    have eq: "cs = c # cs1" "s' = s2" using Cons.prems w o' Inr r by auto
    have "map cs_sequence cs1 = map (\<lambda>i. next_sequence (ctl k s) + 1 + int i) [0..<length cs1]
        \<and> ctl k s2 = (if cs1 = [] then ctl k s1 else Some (last cs1))"
      using Cons.IH [OF r] nx by simp
    then show ?thesis using eq d
      by (auto simp: map_upt_Suc add.assoc simp del: upt_Suc)
  qed
qed simp

end

definition local_control :: "WriterEnv \<Rightarrow> TicketRef \<Rightarrow> db \<Rightarrow> ControlState option" where
  "local_control w ref d = (case d (key_of (we_scope w, ref)) of None \<Rightarrow> None
     | Some row \<Rightarrow> le_control (row_payload row))"

lemma load_execution_Inr:
  assumes "load_execution valid url scope ref d = (Inr x, d')"
  shows "d' = d \<and> x = map_option (\<lambda>row. \<lparr> st_revision = row_revision row, st_value = row_payload row \<rparr>)
     (d (key_of (scope, ref)))"
  using assms by (auto simp: load_execution_def stored_def bindR_Inr_iff ok_def fail_def
      split: option.split_asm if_split_asm)

lemma load_execution_state: "snd (load_execution valid url scope ref d) = d"
  by (simp add: load_execution_def)

lemma stored_control_load:
  "stored_control (map_option (\<lambda>row. \<lparr> st_revision = row_revision row, st_value = row_payload row \<rparr>)
     (d (key_of (we_scope w, ref)))) = local_control w ref d"
  by (auto simp: stored_control_def local_control_def split: option.splits)

interpretation local_control: control_writer "local_control w" "local_writer w"
proof
  fix k e n p s c s'
  assume a: "local_writer w k e n p s = (Inr c, s')"
  then obtain x d r where
    u: "same_instance e n" "cs_sequence n = next_sequence e"
    and l: "load_execution (we_valid w) (we_url w) (we_scope w) k s = (Inr x, d)" "stored_control x = e"
    and sv: "save_execution (we_valid w) (we_url w) (we_scope w, k) (map_option st_revision x)
        (nextExecution w (fst p) x n (snd p)) d = (Inr r, s')"
    and c: "c = the (le_control (st_value r))"
    unfolding local_writer_def by (auto simp: run_iff)
  note ld = load_execution_Inr [OF l(1)]
  note so = save_execution_ok [OF sv]
  show "c = n \<and> local_control w k s = e \<and> local_control w k s' = Some n
      \<and> cs_sequence n = next_sequence e \<and> same_instance e n"
    using u c ld so l(2) stored_control_load [of s w k]
    by (auto simp: local_control_def nextExecution_def)
next
  fix k e n p s x s'
  assume a: "local_writer w k e n p s = (Inl x, s')"
  have l: "snd (load_execution (we_valid w) (we_url w) (we_scope w) k s) = s" by (rule load_execution_state)
  show "s' = s"
    using a l unfolding local_writer_def
    by (auto simp: run_iff dest: save_execution_fail)
qed

lemma recordRecovery_fail:
  assumes "recordRecovery w now ref ev d rep base s = (Inl e, s')"
  shows "s' = s"
  using assms load_execution_state [of "we_valid w" "we_url w" "we_scope w" ref s]
  unfolding recordRecovery_def Let_def
  by (auto simp: run_iff dest: save_execution_fail split: if_split_asm)

lemma recordRecovery_db_ok:
  assumes "db_ok (we_valid w) s"
  shows "db_ok (we_valid w) (snd (recordRecovery w now ref ev d rep base s))"
proof (cases "fst (recordRecovery w now ref ev d rep base s)")
  case (Inl e)
  then show ?thesis using recordRecovery_fail assms by (metis prod.collapse)
next
  case (Inr r)
  then obtain x s1 where l: "load_execution (we_valid w) (we_url w) (we_scope w) ref s = (Inr x, s1)"
    unfolding recordRecovery_def by (auto simp: bindM_def split: prod.split_asm sum.split_asm)
  then have "s1 = s" using load_execution_Inr by blast
  then show ?thesis using l assms
    by (auto simp: recordRecovery_def bindM_def thenM_def checkM_def failM_def retM_def ok_def fail_def Let_def
        save_execution_db_ok)
qed

lemma recordRecovery_foreign:
  assumes "load_execution (we_valid w) (we_url w) (we_scope w) ref s = (Inr (Some st), s)"
    "le_controllerId (st_value st) \<noteq> we_controllerId w"
  shows "recordRecovery w now ref ev d rep base s = (fail ''local execution belongs to another controller identity'', s)"
  using assms by (simp add: recordRecovery_def bindM_def thenM_def failM_def)

section \<open>Properties\<close>

text \<open>
  C6: however many writers race on a ticket, the control states that are accepted form one history:
  their sequence numbers follow each other without gap or repetition from the stored one, and the last
  accepted state is the stored one.
\<close>

theorem control_history:
  assumes "write_run (local_writer w) ref ws d = (accepted, d')"
  shows "map cs_sequence accepted = map (\<lambda>i. next_sequence (local_control w ref d) + int i) [0..<length accepted] \<and>
    local_control w ref d' = (if accepted = [] then local_control w ref d else Some (last accepted))"
  using local_control.run_sequence [OF assms] .

definition sample_env :: WriterEnv where
  "sample_env = \<lparr> we_valid = (\<lambda>_. True), we_url = sample_url, we_scope = sample_scope, we_controllerId = sample_uuid \<rparr>"

definition second_control :: ControlState where
  "second_control = sample_control \<lparr> cs_sequence := 1, cs_stateId := ''done'' \<rparr>"

theorem control_history_witness:
  "map cs_sequence (fst (write_run (local_writer sample_env) sample_ref
     [(None, sample_control, ''n'', None), (None, sample_control, ''n'', None),
      (Some sample_control, second_control, ''n'', None)] (\<lambda>_. None))) = [0, 1]"
proof -
  let ?ws = "[(None, sample_control, ''n'', None), (None, sample_control, ''n'', None),
      (Some sample_control, second_control, ''n'', None)]"
  obtain cs d where r: "write_run (local_writer sample_env) sample_ref ?ws (\<lambda>_. None) = (cs, d)" by fastforce
  have "length (fst (write_run (local_writer sample_env) sample_ref ?ws (\<lambda>_. None))) = 2" by code_simp
  then have "length cs = 2" using r by simp
  moreover have "local_control sample_env sample_ref (\<lambda>_. None) = None" by (simp add: local_control_def)
  ultimately show ?thesis using control_history [OF r] r
    by (simp add: next_sequence_def numeral_2_eq_2)
qed

text \<open>
  C7: a write that replaces the stored control state is the only one that can replace it: a second
  write on the same expected state, by this or another controller's writer, fails and changes nothing.
\<close>

theorem control_no_lost_update:
  assumes "writeControlCas (local_writer w) ref e n p d = (Inr c, d')"
  shows "c = n \<and> local_control w ref d = e \<and> local_control w ref d' = Some n \<and> same_instance e n \<and>
    cs_sequence n = next_sequence e \<and> (\<exists>x. writeControlCas (local_writer w) ref e n' p' d' = (Inl x, d'))"
proof -
  have l: "local_writer w ref e n p d = (Inr c, d')" using assms by (simp add: local_control.cas_is_write)
  show ?thesis using local_control.put_done [OF l] local_control.no_lost_update [OF l, of n' p']
    by (simp add: local_control.cas_is_write)
qed

theorem control_no_lost_update_witness:
  "local_control sample_env sample_ref
     (snd (writeControlCas (local_writer sample_env) sample_ref None sample_control (''n'', None) (\<lambda>_. None)))
   = Some sample_control"
proof -
  have "fst (writeControlCas (local_writer sample_env) sample_ref None sample_control (''n'', None) (\<lambda>_. None))
     = ok sample_control" by code_simp
  then obtain d where r: "writeControlCas (local_writer sample_env) sample_ref None sample_control (''n'', None) (\<lambda>_. None)
     = (Inr sample_control, d)" by (metis ok_def prod.collapse)
  then show ?thesis using control_no_lost_update [OF r, of sample_control "(''n'', None)"] by simp
qed

text \<open>
  recording a recovery decision keeps the table well-formed, and it never touches a record that
  another controller identity wrote.
\<close>

theorem recordRecovery_safe:
  assumes "db_ok (we_valid w) d"
    "load_execution (we_valid w) (we_url w) (we_scope w) ref d = (Inr x, d)"
  shows "db_ok (we_valid w) (snd (recordRecovery w now ref ev dec rep base d)) \<and>
    ((\<exists>st. x = Some st \<and> le_controllerId (st_value st) \<noteq> we_controllerId w) \<longrightarrow>
       snd (recordRecovery w now ref ev dec rep base d) = d \<and>
       \<not> is_ok (fst (recordRecovery w now ref ev dec rep base d)))"
  using recordRecovery_db_ok [OF assms(1)] recordRecovery_foreign assms(2) by auto

theorem recordRecovery_safe_witness:
  "db_ok (\<lambda>_. True) (snd (recordRecovery sample_env ''now'' sample_ref sample_evidence
     (decision RResume None None) None None (\<lambda>_. None)))"
proof -
  have "fst (load_execution (we_valid sample_env) (we_url sample_env) (we_scope sample_env) sample_ref (\<lambda>_. None))
      = ok None" by code_simp
  then have l: "load_execution (we_valid sample_env) (we_url sample_env) (we_scope sample_env) sample_ref (\<lambda>_. None)
      = (Inr None, \<lambda>_. None)"
    using load_execution_state by (metis ok_def prod.collapse)
  have v: "we_valid sample_env = (\<lambda>_. True)" by (simp add: sample_env_def)
  show ?thesis using recordRecovery_safe [OF _ l] unfolding v by simp
qed

end
