(* ===== verification/MigrationRequest.thy ===== *)
theory MigrationRequest
  imports Publication
begin

text \<open>
  src/runtime/migration-request.ts: the human command that asks to move active work to another
  configuration revision, and the checks on its options.
\<close>

record MigrationRequest =
  mq_pr :: int
  mq_to :: string
  mq_resume :: "string option"

definition isMigrationCommand :: "string \<Rightarrow> bool" where
  "isMigrationCommand body =
    (let r = trim_start body; r2 = drop 11 r; r3 = trim_start r2; r4 = drop 7 r3
     in starts_with r ''/agent-flow'' \<and> r2 \<noteq> [] \<and> is_ws (hd r2)
        \<and> starts_with r3 ''migrate'' \<and> (r4 = [] \<or> is_ws (hd r4)))"

fun migration_options :: "string list \<Rightarrow> (string \<times> string) list \<Rightarrow> (string \<times> string) list res" where
  "migration_options [] opts = ok opts"
| "migration_options [flag] opts = fail (''Missing, duplicate or unknown migration option: '' @ flag)"
| "migration_options (flag # value # rest) opts =
    (if flag \<notin> set [''--pr'', ''--to'', ''--resume-from''] \<or> value = [] \<or> starts_with value ''--''
        \<or> has_key opts flag
     then fail (''Missing, duplicate or unknown migration option: '' @ flag)
     else migration_options rest (opts @ [(flag, value)]))"

definition pr_number :: "string \<Rightarrow> int option" where
  "pr_number s =
    (if s \<noteq> [] \<and> list_all is_digit s \<and> hd s \<noteq> CHR ''0'' \<and> safe_int (int (str_nat s))
     then Some (int (str_nat s)) else None)"

definition selector_char :: "char \<Rightarrow> bool" where
  "selector_char c \<longleftrightarrow> is_alnum c \<or> c \<in> set ''._/-''"

definition invalid_selector :: "string \<Rightarrow> bool" where
  "invalid_selector s \<longleftrightarrow> s \<noteq> ''latest'' \<and>
     (\<not> (s \<noteq> [] \<and> is_alnum (hd s) \<and> list_all selector_char (tl s)) \<or> s = ''HEAD'' \<or> includes_str s ''..''
      \<or> starts_with s ''refs/'' \<or> list_ex (\<lambda>p. p = [] \<or> p = ''.'') (split_char (CHR ''/'') s))"

definition valid_stage :: "string \<Rightarrow> bool" where
  "valid_stage s \<longleftrightarrow> s \<noteq> [] \<and> is_lower (hd s)
     \<and> list_all (\<lambda>c. is_lower c \<or> is_digit c \<or> c = CHR ''-'') (tl s)"

definition requestOf :: "(string \<times> string) list \<Rightarrow> MigrationRequest option res" where
  "requestOf opts =
    (case (map_of opts ''--pr'', map_of opts ''--to'') of
       (Some pr, Some to) \<Rightarrow>
         (case pr_number pr of None \<Rightarrow> fail ''Migration requires --pr and --to''
          | Some n \<Rightarrow>
             if invalid_selector to then fail ''Invalid migration selector''
             else (case map_of opts ''--resume-from'' of
                 Some r \<Rightarrow> if \<not> valid_stage r then fail ''Invalid replay stage''
                          else ok (Some \<lparr> mq_pr = n, mq_to = to, mq_resume = Some r \<rparr>)
               | None \<Rightarrow> ok (Some \<lparr> mq_pr = n, mq_to = to, mq_resume = None \<rparr>)))
     | _ \<Rightarrow> fail ''Migration requires --pr and --to'')"

definition parseMigrationRequest :: "string \<Rightarrow> MigrationRequest option res" where
  "parseMigrationRequest body =
    (if \<not> isMigrationCommand body then ok None
     else if parsePublication body \<noteq> PUnmarked
     then fail ''Migration commands must be unmarked human comments''
     else bindR (migration_options (drop 2 (words_of body)) []) requestOf)"

lemma str_nat_Cons: "str_nat (c # s) = digit_val c * 10 ^ length s + str_nat s"
proof -
  have "foldl (\<lambda>a c. 10 * a + digit_val c) n s = n * 10 ^ length s + foldl (\<lambda>a c. 10 * a + digit_val c) 0 s" for n
  proof (induction s arbitrary: n)
    case (Cons d s)
    show ?case using Cons [of "10 * n + digit_val d"] Cons [of "digit_val d"]
      by (simp add: algebra_simps)
  qed simp
  from this [of "digit_val c"] show ?thesis by (simp add: str_nat_def)
qed

lemma pr_number_pos: "pr_number s = Some n \<Longrightarrow> 0 < n \<and> n \<le> max_safe"
proof -
  assume a: "pr_number s = Some n"
  then obtain c r where s: "s = c # r" "is_digit c" "c \<noteq> CHR ''0''"
    by (cases s) (auto simp: pr_number_def split: if_splits)
  then have "0 < digit_val c" by (auto simp: is_digit_def digit_val_def code_def)
  then have "0 < str_nat s" using s by (simp add: str_nat_Cons)
  then show ?thesis using a by (auto simp: pr_number_def safe_int_def split: if_splits)
qed

lemma requestOf_valid:
  assumes "requestOf opts = ok (Some q)"
  shows "0 < mq_pr q \<and> mq_pr q \<le> max_safe \<and> \<not> invalid_selector (mq_to q)
     \<and> (\<forall>r. mq_resume q = Some r \<longrightarrow> valid_stage r)"
  using assms by (auto simp: requestOf_def pr_number_pos split: if_split_asm option.split_asm)

lemma parseMigrationRequest_valid:
  assumes "parseMigrationRequest body = ok (Some q)"
  shows "0 < mq_pr q \<and> mq_pr q \<le> max_safe \<and> \<not> invalid_selector (mq_to q)
     \<and> (\<forall>r. mq_resume q = Some r \<longrightarrow> valid_stage r) \<and> isMigrationCommand body
     \<and> parsePublication body = PUnmarked"
proof -
  have c: "isMigrationCommand body" "parsePublication body = PUnmarked"
    using assms by (auto simp: parseMigrationRequest_def split: if_split_asm)
  then obtain opts where "migration_options (drop 2 (words_of body)) [] = ok opts"
    and r: "requestOf opts = ok (Some q)"
    using assms by (auto simp: parseMigrationRequest_def)
  show ?thesis using c requestOf_valid [OF r] by blast
qed

section \<open>Properties\<close>

text \<open>
  an accepted migration command names a positive safe change-request number, and a selector that
  is latest or a plain ref name, never HEAD, never with .., never below refs/ and without empty or dot
  path parts; a body that carries a publication marker is never accepted.
\<close>

theorem migration_request_safe:
  assumes "parseMigrationRequest body = ok (Some q)"
  shows "0 < mq_pr q \<and> mq_pr q \<le> max_safe \<and>
    (mq_to q = ''latest'' \<or> mq_to q \<noteq> ''HEAD'' \<and> \<not> includes_str (mq_to q) ''..'' \<and> \<not> starts_with (mq_to q) ''refs/''
       \<and> [] \<notin> set (split_char (CHR ''/'') (mq_to q)) \<and> ''.'' \<notin> set (split_char (CHR ''/'') (mq_to q))) \<and>
    parsePublication body = PUnmarked"
  using parseMigrationRequest_valid [OF assms] by (auto simp: invalid_selector_def list_ex_iff)

theorem migration_request_safe_witness:
  "parseMigrationRequest ''/agent-flow migrate --pr 34 --to release/1.2''
     = ok (Some \<lparr> mq_pr = 34, mq_to = ''release/1.2'', mq_resume = None \<rparr>)
   \<and> \<not> includes_str ''release/1.2'' ''..''"
proof -
  have r: "parseMigrationRequest ''/agent-flow migrate --pr 34 --to release/1.2''
     = ok (Some \<lparr> mq_pr = 34, mq_to = ''release/1.2'', mq_resume = None \<rparr>)" by code_simp
  from migration_request_safe [OF r] have "''release/1.2'' = ''latest'' \<or> \<not> includes_str ''release/1.2'' ''..''"
    by simp
  then show ?thesis using r by simp
qed

end
