(* ===== verification/ReconcileBase.thy ===== *)
theory ReconcileBase
  imports DeriveEvent ControlState MigrationRequest
begin

text \<open>
  The parts of src/runtime/reconcile.ts that every reconciliation path shares: the dependencies it
  is given (the provider adapter, the configuration source, the attempt launcher, the control writer,
  the clock and the libraries), the outcome it reports, controller labels, the choice of the human
  comment to answer, the start of an attempt; and advanceControlState of
  src/provider/control-comment.ts. The world is an arbitrary type: each dependency is an awaited
  operation on it.
\<close>

section \<open>Dependencies\<close>

datatype AttemptMode = MStage | MHumanInput

record AttemptRequest =
  rq_migration :: "RecoveredMigration option"
  rq_ref :: TicketRef
  rq_snapshot :: ProviderTicketSnapshot
  rq_control :: ControlState
  rq_bundle :: ConfigBundle
  rq_stateId :: string
  rq_state :: FlowState
  rq_agentId :: string
  rq_mode :: AttemptMode
  rq_sourceComment :: "ProviderComment option"
  rq_resultContract :: ResultContract
  rq_inputRevision :: string
  rq_controllerId :: string
  rq_publicationKeys :: "string list"

record 's Deps =
  dp_migration :: "RecoveredMigration option"
  dp_permission :: "string \<Rightarrow> Actor \<Rightarrow> ('s, Permission) io"
  dp_readComment :: "TicketRef \<Rightarrow> string \<Rightarrow> ('s, ProviderComment) io"
  dp_setControllerLabels :: "TicketRef \<Rightarrow> string list \<Rightarrow> string list \<Rightarrow> string list \<Rightarrow> ('s, string list) io"
  dp_readRequiredChecks :: "TicketRef \<Rightarrow> NormalizedChangeRequest \<Rightarrow> ('s, RequiredChecks) io"
  dp_readChangeRequest :: "TicketRef \<Rightarrow> int \<Rightarrow> ('s, NormalizedChangeRequest) io"
  dp_loadCurrent :: "('s, ConfigBundle) io"
  dp_loadPinned :: "string \<Rightarrow> ('s, ConfigBundle) io"
  dp_start :: "AttemptRequest \<Rightarrow> ('s, unit) io"
  dp_cancel :: "string \<Rightarrow> ('s, unit) io"
  dp_isRunning :: "string \<Rightarrow> 's \<Rightarrow> bool"
  dp_writeControl :: "TicketRef \<Rightarrow> ControlState option \<Rightarrow> ControlState \<Rightarrow> string list option \<Rightarrow> ('s, ControlState) io"
  dp_load :: "TicketRef \<Rightarrow> ('s, StoredExecution option) io"
  dp_recordRecovery :: "TicketRef \<Rightarrow> RecoveryEvidence \<Rightarrow> RecoveryDecision \<Rightarrow> ControlState option option
     \<Rightarrow> string list option \<Rightarrow> ('s, StoredExecution) io"
  dp_isAllowed :: "TicketRef \<Rightarrow> bool"
  dp_controllerId :: string
  dp_providerApiUrl :: "string option"
  dp_now :: "('s, string) io"
  dp_newFlowInstanceId :: "('s, string) io"
  dp_engine :: Engine
  dp_controlSchema :: "ControlState \<Rightarrow> bool"
  dp_sha256 :: "string \<Rightarrow> string"
  dp_collate :: "string \<Rightarrow> string"
  dp_url :: "string \<Rightarrow> Url option"

record ReconcileOutcome =
  ro_flowInstanceId :: "string option"
  ro_stateId :: "string option"
  ro_configRevision :: "string option"
  ro_stateKind :: "StateKind option"
  ro_repositoryUrl :: string
  ro_ticketUrl :: string
  ro_actionUrl :: string
  ro_recoveryDisposition :: "Disposition option"
  ro_recoveryReason :: "string option"
  ro_changed :: bool
  ro_started :: bool
  ro_runnable :: bool

section \<open>Advancing a control state\<close>

record ControlStatePatch =
  cp_stateId :: "string option"
  cp_resumeStateId :: "string option option"
  cp_attemptSeries :: "AttemptSeries option option"
  cp_latestReceipt :: "AgentReceipt option option"
  cp_humanGate :: "ControlHumanGate option option"
  cp_changeRequest :: "ControlChangeRequest option option"

definition no_patch :: ControlStatePatch where
  "no_patch = \<lparr> cp_stateId = None, cp_resumeStateId = None, cp_attemptSeries = None, cp_latestReceipt = None,
     cp_humanGate = None, cp_changeRequest = None \<rparr>"

definition apply_patch :: "ControlStatePatch \<Rightarrow> ControlState \<Rightarrow> ControlState" where
  "apply_patch p c = c \<lparr>
     cs_stateId := opt_or (cp_stateId p) (cs_stateId c),
     cs_resumeStateId := opt_or (cp_resumeStateId p) (cs_resumeStateId c),
     cs_attemptSeries := opt_or (cp_attemptSeries p) (cs_attemptSeries c),
     cs_latestReceipt := opt_or (cp_latestReceipt p) (cs_latestReceipt c),
     cs_humanGate := opt_or (cp_humanGate p) (cs_humanGate c),
     cs_changeRequest := opt_or (cp_changeRequest p) (cs_changeRequest c) \<rparr>"

definition advanceControlState ::
  "(ControlState \<Rightarrow> bool) \<Rightarrow> ControlState \<Rightarrow> ControlStatePatch \<Rightarrow> string \<Rightarrow> ControlState res" where
  "advanceControlState schema c p now =
    (let nextSequence = cs_sequence c + 1 in
     if \<not> safe_int (cs_sequence c) \<or> \<not> safe_int nextSequence
     then fail ''control state sequence must increment to a safe integer''
     else let n = (apply_patch p c) \<lparr> cs_sequence := nextSequence, cs_updatedAt := now \<rparr>
       in if schema n then ok n else fail ''ControlState validation failed'')"

text \<open>What never changes along the history of a control state.\<close>

definition same_identity :: "ControlState \<Rightarrow> ControlState \<Rightarrow> bool" where
  "same_identity c n \<longleftrightarrow> cs_flowInstanceId n = cs_flowInstanceId c \<and> cs_flowId n = cs_flowId c
     \<and> cs_configRevision n = cs_configRevision c \<and> cs_activatedBy n = cs_activatedBy c
     \<and> cs_activatedAt n = cs_activatedAt c \<and> cs_activationEventId n = cs_activationEventId c
     \<and> cs_activationLabel n = cs_activationLabel c"

lemma advance_ok:
  assumes "advanceControlState schema c p now = ok n"
  shows "cs_sequence n = cs_sequence c + 1 \<and> same_identity c n \<and> schema n \<and> cs_updatedAt n = now \<and>
    safe_int (cs_sequence n) \<and> cs_stateId n = opt_or (cp_stateId p) (cs_stateId c) \<and>
    cs_resumeStateId n = opt_or (cp_resumeStateId p) (cs_resumeStateId c) \<and>
    cs_latestReceipt n = opt_or (cp_latestReceipt p) (cs_latestReceipt c) \<and>
    cs_attemptSeries n = opt_or (cp_attemptSeries p) (cs_attemptSeries c) \<and>
    cs_changeRequest n = opt_or (cp_changeRequest p) (cs_changeRequest c)"
  using assms by (auto simp: advanceControlState_def Let_def apply_patch_def same_identity_def split: if_split_asm)

section \<open>Checks\<close>

definition assertBundle :: "ConfigBundle \<Rightarrow> string \<Rightarrow> unit res" where
  "assertBundle b revision =
    (if cb_revision b \<noteq> revision \<or> \<not> isSha (cb_revision b)
     then fail ''configuration revision does not match the requested commit''
     else if state_of (cb_flow b) (fd_initial (cb_flow b)) = None
     then fail ''pinned flow does not contain its initial state'' else ok ())"

definition assertAllowed :: "'s Deps \<Rightarrow> TicketRef \<Rightarrow> unit res" where
  "assertAllowed d ref = checkR (\<not> dp_isAllowed d ref) ''ticket repository is not in the pinned allowlist''"

definition assertSnapshot :: "ProviderTicketSnapshot \<Rightarrow> TicketRef \<Rightarrow> unit res" where
  "assertSnapshot sn ref = checkR
    (tr_provider (sn_ref sn) \<noteq> tr_provider ref \<or> tr_repository (sn_ref sn) \<noteq> tr_repository ref
     \<or> tr_number (sn_ref sn) \<noteq> tr_number ref \<or> pr_provider (sn_repository sn) \<noteq> tr_provider ref
     \<or> pr_name (sn_repository sn) \<noteq> tr_repository ref)
    ''provider ticket snapshot does not match the requested ticket''"

definition normalizedChange :: "NormalizedChangeRequest option \<Rightarrow> ControlChangeRequest option" where
  "normalizedChange change = map_option (\<lambda>c. \<lparr> ccr_provider = nc_provider c, ccr_repository = nc_repository c,
     ccr_number = nc_number c, ccr_url = nc_url c, ccr_headSha = nc_headSha c, ccr_state = nc_state c \<rparr>) change"

definition assertChangeIdentity :: "ControlChangeRequest option \<Rightarrow> NormalizedChangeRequest option \<Rightarrow> unit res" where
  "assertChangeIdentity control snapshot =
    (case (control, snapshot) of
       (Some c, Some s) \<Rightarrow>
         if ccr_provider c \<noteq> nc_provider s \<or> ccr_repository c \<noteq> nc_repository s
            \<or> ccr_number c \<noteq> nc_number s \<or> ccr_url c \<noteq> nc_url s
         then fail ''change request identity does not match the control state''
         else if nc_state s = CsMerged \<and> ccr_headSha c \<noteq> nc_headSha s
         then fail ''merged change request does not match the reviewed head'' else ok ()
     | _ \<Rightarrow> fail ''change request identity does not match the control state'')"

definition flowEvent :: "FlowEventType \<Rightarrow> ProviderTicketSnapshot \<Rightarrow> bool \<Rightarrow> FlowEvent" where
  "flowEvent ty sn authorizedActor = \<lparr> ev_type = ty, ev_authorizedActor = authorizedActor,
     ev_activationPresent = av_present (sn_activation sn), ev_ticketOpen = sn_open sn,
     ev_headMatches = False, ev_receiptValid = False \<rparr>"

section \<open>The reported outcome\<close>

definition strip_git :: "string \<Rightarrow> string" where
  "strip_git p =
    (let p1 = (if ends_with p ''.git'' then take (length p - 4) p
               else if ends_with p ''.git/'' then take (length p - 5) p else p)
     in if ends_with p1 ''/'' then butlast p1 else p1)"

definition url_href :: "Url \<Rightarrow> string" where
  "url_href u =
    (let userinfo = (if url_username u = [] \<and> url_password u = [] then []
           else url_username u @ (if url_password u = [] then [] else '':'' @ url_password u) @ ''@'')
     in url_protocol u @ ''//'' @ userinfo @ drop (length (url_protocol u) + 2) (url_origin u)
        @ (if url_pathname u = [] then ''/'' else url_pathname u) @ url_search u @ url_hash u)"

definition repositoryWebUrl :: "(string \<Rightarrow> Url option) \<Rightarrow> ProviderRepository \<Rightarrow> string res" where
  "repositoryWebUrl url r =
    (case url (pr_cloneUrl r) of None \<Rightarrow> fail ''Invalid URL''
     | Some u \<Rightarrow>
        (let href = url_href (u \<lparr> url_hash := [], url_search := [], url_pathname := strip_git (url_pathname u) \<rparr>)
         in ok (if ends_with href ''/'' then butlast href else href)))"

definition terminal_state :: "string \<Rightarrow> bool" where
  "terminal_state s \<longleftrightarrow> s = ''done'' \<or> s = ''cancelled''"

definition outcome ::
  "'s Deps \<Rightarrow> ControlState option \<Rightarrow> ConfigBundle option \<Rightarrow> ProviderTicketSnapshot \<Rightarrow> bool \<Rightarrow> bool \<Rightarrow> bool
     \<Rightarrow> ReconcileOutcome res" where
  "outcome d control bundle sn changed started runnable =
    (let terminal = opt_is (\<lambda>c. terminal_state (cs_stateId c)) control;
         stateKind = (case control of None \<Rightarrow> None
            | Some c \<Rightarrow> if terminal then Some KFinal
                else (case bundle of None \<Rightarrow> None
                  | Some b \<Rightarrow> map_option fs_kind (state_of (cb_flow b) (cs_stateId c))))
     in bindR (checkR (\<not> terminal \<and> opt_is (\<lambda>c. opt_is (\<lambda>b. cb_revision b \<noteq> cs_configRevision c) bundle) control)
                 ''control configuration does not match its pinned bundle'') (\<lambda>_.
        bindR (checkR (control \<noteq> None \<and> bundle \<noteq> None \<and> stateKind = None)
                 ''control state does not exist in pinned flow'') (\<lambda>_.
        bindR (repositoryWebUrl (dp_url d) (sn_repository sn)) (\<lambda>repositoryUrl.
          (let ticketUrl = repositoryUrl @ (if tr_provider (sn_ref sn) = Gitlab then ''/-/issues/'' else ''/issues/'')
                 @ int_str (tr_number (sn_ref sn));
               changeUrl = (case control of None \<Rightarrow> [] | Some c \<Rightarrow>
                  (case cs_changeRequest c of None \<Rightarrow> [] | Some cr \<Rightarrow> ccr_url cr))
           in ok \<lparr> ro_flowInstanceId = map_option cs_flowInstanceId control,
                  ro_stateId = map_option cs_stateId control,
                  ro_configRevision = map_option cs_configRevision control,
                  ro_stateKind = stateKind, ro_repositoryUrl = repositoryUrl, ro_ticketUrl = ticketUrl,
                  ro_actionUrl = (if stateKind = Some KProviderWait \<and> changeUrl \<noteq> [] then changeUrl else ticketUrl),
                  ro_recoveryDisposition = None, ro_recoveryReason = None,
                  ro_changed = changed, ro_started = started, ro_runnable = runnable \<rparr>)))))"

section \<open>Controller labels\<close>

definition stage_label :: "string \<Rightarrow> string" where
  "stage_label stateId = ''agent-stage:'' @ (if stateId = ''bug-awaiting-merge'' then ''awaiting-merge'' else stateId)"

definition activation_labels :: "FlowDefinition \<Rightarrow> string option \<Rightarrow> string list" where
  "activation_labels f pinned = fd_activationLabel f # map fst (fd_activationRoutes f)
     @ (case truthy pinned of Some l \<Rightarrow> [l] | None \<Rightarrow> [])"

definition labels_settled :: "FlowDefinition \<Rightarrow> string \<Rightarrow> bool \<Rightarrow> string option \<Rightarrow> string list \<Rightarrow> bool" where
  "labels_settled f stateId removeActivation pinned current \<longleftrightarrow>
     fd_managedLabel f \<in> set current \<and> stageLabels current = [stage_label stateId] \<and>
     \<not> (removeActivation \<and> list_ex (\<lambda>l. l \<in> set current) (activation_labels f pinned))"

definition labels_to_remove :: "FlowDefinition \<Rightarrow> string \<Rightarrow> bool \<Rightarrow> string option \<Rightarrow> string list \<Rightarrow> string list" where
  "labels_to_remove f stateId removeActivation pinned labels =
     filter (\<lambda>l. (starts_with l ''agent-stage:'' \<and> l \<noteq> stage_label stateId)
       \<or> (removeActivation \<and> l \<in> set (activation_labels f pinned))) labels"

definition labels_to_add :: "FlowDefinition \<Rightarrow> string \<Rightarrow> string list \<Rightarrow> string list" where
  "labels_to_add f stateId labels =
     (if fd_managedLabel f \<in> set labels then [] else [fd_managedLabel f])
     @ (if stage_label stateId \<in> set labels then [] else [stage_label stateId])"

definition ownLabels ::
  "'s Deps \<Rightarrow> TicketRef \<Rightarrow> string list \<Rightarrow> ConfigBundle \<Rightarrow> string \<Rightarrow> bool \<Rightarrow> string option \<Rightarrow> ('s, unit) io" where
  "ownLabels d ref labels bundle stateId removeActivation pinned =
    (let f = cb_flow bundle;
         remove = labels_to_remove f stateId removeActivation pinned labels;
         add = labels_to_add f stateId labels
     in bindM (if remove \<noteq> [] \<or> add \<noteq> []
               then callM ''provider controller label update failed''
                      (dp_setControllerLabels d ref remove add (activation_labels f pinned))
               else retM labels) (\<lambda>current.
          checkM (\<not> labels_settled f stateId removeActivation pinned current)
            ''controller label readback mismatch''))"

section \<open>The human comment to answer\<close>

definition isMarked :: "string \<Rightarrow> bool" where
  "isMarked body \<longleftrightarrow> parsePublication body \<noteq> PUnmarked"

definition comment_artifact_id :: "ReceiptArtifact \<Rightarrow> string option" where
  "comment_artifact_id a = (case a of ArtComment c \<Rightarrow> Some (rcm_id c) | _ \<Rightarrow> None)"

definition humanCutoff :: "ProviderComment list \<Rightarrow> ControlState \<Rightarrow> string" where
  "humanCutoff comments control =
    (let ids = (case cs_latestReceipt control of None \<Rightarrow> []
          | Some r \<Rightarrow> List.map_filter comment_artifact_id (ar_artifacts r));
         publications = filter (\<lambda>c. pc_id c \<in> set ids) comments
     in if publications = [] then cs_updatedAt control
        else foldl (\<lambda>latest c. if pc_createdAt c > latest then pc_createdAt c else latest)
               (cs_activatedAt control) publications)"

definition human_candidate :: "string \<Rightarrow> ProviderComment \<Rightarrow> bool" where
  "human_candidate cutoff c \<longleftrightarrow> pc_createdAt c > cutoff \<and> \<not> isMarked (pc_body c)
     \<and> \<not> isMigrationCommand (pc_body c) \<and> \<not> includes_str (pc_body c) ''<!-- agent-flow-migration-diagnostic:''"

fun first_authorized :: "'s Deps \<Rightarrow> TicketRef \<Rightarrow> ProviderComment list \<Rightarrow> ('s, ProviderComment option) io" where
  "first_authorized d ref [] = retM None"
| "first_authorized d ref (c # cs) =
    bindM (callM ''provider permission read failed'' (dp_permission d (tr_repository ref) (pc_actor c))) (\<lambda>p.
      if authorized_permission p then retM (Some c) else first_authorized d ref cs)"

definition firstAuthorizedComment ::
  "'s Deps \<Rightarrow> TicketRef \<Rightarrow> ProviderTicketSnapshot \<Rightarrow> ControlState \<Rightarrow> ('s, ProviderComment option) io" where
  "firstAuthorizedComment d ref sn control =
    first_authorized d ref
      (sort_key (\<lambda>c. (dp_collate d (pc_createdAt c), dp_collate d (pc_id c)))
         (filter (human_candidate (humanCutoff (sn_comments sn) control)) (sn_comments sn)))"

definition hasAcceptedQuestion :: "ControlState \<Rightarrow> bool" where
  "hasAcceptedQuestion control =
    (case (cs_attemptSeries control, cs_latestReceipt control) of
       (Some series, Some r) \<Rightarrow>
         as_stateId series = cs_stateId control
         \<and> (case as_current series of None \<Rightarrow> True
             | Some cur \<Rightarrow> at_status cur = AttSucceeded \<and> ar_attemptId r = at_attemptId cur)
         \<and> (ar_outcome r = NeedsHuman \<or>
            opt_is (\<lambda>g. rhg_verdict g = HvQuestion \<or> rhg_verdict g = HvUnclear) (ar_humanGate r))
     | _ \<Rightarrow> False)"

section \<open>Starting an attempt\<close>

fun change_state_name :: "ChangeState \<Rightarrow> string" where
  "change_state_name CsOpen = ''open''"
| "change_state_name CsClosed = ''closed''"
| "change_state_name CsMerged = ''merged''"

definition opt_json :: "string option \<Rightarrow> json" where
  "opt_json x = (case x of Some s \<Rightarrow> JStr s | None \<Rightarrow> JNull)"

definition input_parts ::
  "ControlState \<Rightarrow> ProviderTicketSnapshot \<Rightarrow> ProviderComment option \<Rightarrow> ResultContract \<Rightarrow> string option \<Rightarrow> json" where
  "input_parts control sn sourceComment resultContract migrationId = JArr (
     [JArr [JStr ''config'', JStr (cs_configRevision control)]]
     @ (case truthy migrationId of Some m \<Rightarrow> [JArr [JStr ''migration'', JStr m]] | None \<Rightarrow> [])
     @ [JArr [JStr ''ticket'', JStr (sn_title sn), JStr (sn_description sn)]]
     @ (case sourceComment of
          Some c \<Rightarrow> [JArr [JStr ''comment'', JStr (pc_id c)]]
        | None \<Rightarrow>
           (case sn_changeRequest sn of None \<Rightarrow> []
            | Some cr \<Rightarrow> [JArr [JStr ''change'', JStr (provider_name (nc_provider cr)), JStr (nc_repository cr),
                JInt (nc_number cr),
                (if resultContract = RDocumentation then opt_json (map_option ccr_headSha (cs_changeRequest control))
                 else JStr (nc_headSha cr)),
                JStr (change_state_name (nc_state cr))]])
           @ (case cs_humanGate control of None \<Rightarrow> []
              | Some g \<Rightarrow> [JArr [JStr ''human'', JStr (chg_sourceCommentId g)]])
           @ (if sn_changeRequest sn = None \<and> cs_humanGate control = None
              then (case truthy (av_eventId (sn_activation sn)) of Some e \<Rightarrow> [JArr [JStr ''activation'', JStr e]]
                    | None \<Rightarrow> []) else [])))"

definition attemptInputRevision ::
  "'s Deps \<Rightarrow> ControlState \<Rightarrow> ProviderTicketSnapshot \<Rightarrow> ProviderComment option \<Rightarrow> ResultContract \<Rightarrow> string" where
  "attemptInputRevision d control sn sourceComment resultContract =
    ''input:'' @ dp_sha256 d (json_print (input_parts control sn sourceComment resultContract
        (map_option rm_id (dp_migration d))))"

definition hasAcceptedAttempt :: "ControlState \<Rightarrow> string \<Rightarrow> string \<Rightarrow> bool" where
  "hasAcceptedAttempt control agentId inputRevision =
    (case cs_attemptSeries control of None \<Rightarrow> False
     | Some series \<Rightarrow>
        (case as_current series of None \<Rightarrow> False
         | Some cur \<Rightarrow> as_agentId series = agentId \<and> as_stateId series = cs_stateId control
             \<and> as_inputRevision series = inputRevision
             \<and> (at_status cur = AttSucceeded \<or> at_status cur = AttCancelled)))"

definition applyAttemptActions :: "AttemptSeries option \<Rightarrow> FlowActionName list \<Rightarrow> bool \<Rightarrow> AttemptSeries option" where
  "applyAttemptActions series actions selfTransition =
    (case series of None \<Rightarrow> None
     | Some s \<Rightarrow>
        if ResetRetryBudget \<in> set actions then Some (s \<lparr> as_consumed := 0, as_current := None \<rparr>)
        else if selfTransition \<and> RecordReceipt \<in> set actions then Some (s \<lparr> as_current := None \<rparr>)
        else Some s)"

text \<open>
  What startIfNeeded launches: the flow state whose agent runs, the mode, the comment to answer and
  the result contract, or nothing.
\<close>

definition launch_plan ::
  "'s Deps \<Rightarrow> ProviderTicketSnapshot \<Rightarrow> ConfigBundle \<Rightarrow> ControlState \<Rightarrow> FlowState
     \<Rightarrow> ('s, (FlowState \<times> AttemptMode \<times> ProviderComment option \<times> ResultContract option) option) io" where
  "launch_plan d sn bundle control configured =
    (if fs_kind configured = KHumanGate \<or> cs_stateId control = ''needs-human'' then
       bindM (firstAuthorizedComment d (sn_ref sn) sn control) (\<lambda>source.
         if cs_stateId control = ''needs-human'' then
           (case (case truthy (cs_resumeStateId control) of None \<Rightarrow> None
                  | Some r \<Rightarrow> state_of (cb_flow bundle) r) of
              None \<Rightarrow> retM None
            | Some resume \<Rightarrow>
               if truthy (fs_agent resume) = None then retM None
               else (case source of
                   None \<Rightarrow>
                     if hasAcceptedQuestion control then retM None
                     else if map_option nc_state (sn_changeRequest sn) \<noteq> Some CsClosed
                          \<or> fs_resultContract resume \<noteq> Some RReview then retM None
                     else retM (Some (resume, MStage, None, fs_resultContract resume))
                 | Some c \<Rightarrow> retM (Some (resume, MHumanInput, Some c, Some RHumanGate))))
         else (case source of None \<Rightarrow> retM None
           | Some c \<Rightarrow> retM (Some (configured, MHumanInput, Some c, Some RHumanGate))))
     else if fs_kind configured \<noteq> KAgent then retM None
     else retM (Some (configured, MStage, None, fs_resultContract configured)))"

definition startIfNeeded ::
  "'s Deps \<Rightarrow> ProviderTicketSnapshot \<Rightarrow> ConfigBundle \<Rightarrow> ControlState \<Rightarrow> string list \<Rightarrow> ('s, bool) io" where
  "startIfNeeded d sn bundle control publicationKeys =
    bindM (getM (dp_isRunning d (cs_flowInstanceId control))) (\<lambda>running.
      if running then retM False
      else (case state_of (cb_flow bundle) (cs_stateId control) of
          None \<Rightarrow> failM ''control state does not exist in pinned flow''
        | Some configured \<Rightarrow>
            bindM (launch_plan d sn bundle control configured) (\<lambda>plan.
              (case plan of None \<Rightarrow> retM False
               | Some (state, mode, source, contract) \<Rightarrow>
                  (case (truthy (fs_agent state), contract) of
                     (Some agentId, Some resultContract) \<Rightarrow>
                       (let inputRevision = attemptInputRevision d control sn source resultContract in
                        if hasAcceptedAttempt control agentId inputRevision then retM False
                        else thenM (dp_start d \<lparr> rq_migration = dp_migration d, rq_ref = sn_ref sn, rq_snapshot = sn,
                               rq_control = control, rq_bundle = bundle, rq_stateId = cs_stateId control,
                               rq_state = state, rq_agentId = agentId, rq_mode = mode, rq_sourceComment = source,
                               rq_resultContract = resultContract, rq_inputRevision = inputRevision,
                               rq_controllerId = dp_controllerId d, rq_publicationKeys = publicationKeys \<rparr>)
                             (retM True))
                   | _ \<Rightarrow> failM ''launchable flow state is missing its agent contract'')))))"

definition writeExistingControl ::
  "'s Deps \<Rightarrow> TicketRef \<Rightarrow> ControlState \<Rightarrow> ControlState \<Rightarrow> string list option \<Rightarrow> ('s, unit) io" where
  "writeExistingControl d ref expected n keys =
    thenM (callM ''provider control comment update failed''
             (writeControlCas (dp_writeControl d) ref (Some expected) n keys)) (retM ())"

section \<open>What these operations guarantee\<close>

lemma ownLabels_ok:
  assumes "ownLabels d ref labels b st rmv pin s = (Inr u, s')"
  shows "\<exists>current. labels_settled (cb_flow b) st rmv pin current \<and>
    (if labels_to_remove (cb_flow b) st rmv pin labels \<noteq> [] \<or> labels_to_add (cb_flow b) st labels \<noteq> []
     then dp_setControllerLabels d ref (labels_to_remove (cb_flow b) st rmv pin labels)
        (labels_to_add (cb_flow b) st labels) (activation_labels (cb_flow b) pin) s = (Inr current, s')
     else current = labels \<and> s' = s)"
  using assms unfolding ownLabels_def Let_def by (auto simp: run_iff split: if_split_asm)

lemma starts_with_stage: "starts_with (stage_label s) ''agent-stage:''"
  by (simp add: stage_label_def)

lemma labels_request_settles:
  fixes f pin labels stateId rmv
  defines "req \<equiv> filter (\<lambda>l. l \<notin> set (labels_to_remove f stateId rmv pin labels)) labels @ labels_to_add f stateId labels"
  assumes "distinct labels" "\<not> starts_with (fd_managedLabel f) ''agent-stage:''"
    "fd_managedLabel f \<notin> set (activation_labels f pin)"
    "\<forall>l \<in> set (activation_labels f pin). \<not> starts_with l ''agent-stage:''"
  shows "labels_settled f stateId rmv pin req"
proof -
  let ?st = "stage_label stateId" and ?mg = "fd_managedLabel f" and ?rm = "labels_to_remove f stateId rmv pin labels"
  have st: "?st \<notin> set (activation_labels f pin)" "?st \<noteq> ?mg"
    using assms(3,5) starts_with_stage [of stateId] by auto
  have kept: "?mg \<notin> set ?rm" "?st \<notin> set ?rm" using assms(3,4) st by (auto simp: labels_to_remove_def)
  have m: "?mg \<in> set req" using kept by (auto simp: req_def labels_to_add_def)
  have a: "l \<notin> set req" if "rmv" "l \<in> set (activation_labels f pin)" for l
    using that st assms(4) by (auto simp: req_def labels_to_add_def labels_to_remove_def)
  have "stageLabels (filter (\<lambda>l. l \<notin> set ?rm) labels) = filter (\<lambda>l. l = ?st) labels"
    unfolding stageLabels_def filter_filter using st starts_with_stage [of stateId]
    by (intro filter_cong) (auto simp: labels_to_remove_def)
  moreover have "filter (\<lambda>l. l = ?st) labels = (if ?st \<in> set labels then [?st] else [])"
    using assms(2) by (induction labels) auto
  moreover have "stageLabels (labels_to_add f stateId labels) = (if ?st \<in> set labels then [] else [?st])"
    using assms(3) starts_with_stage by (auto simp: labels_to_add_def stageLabels_def)
  ultimately have "stageLabels req = [?st]" by (auto simp: req_def stageLabels_def)
  then show ?thesis using m a by (auto simp: labels_settled_def list_ex_iff)
qed

lemma first_authorized_some:
  "first_authorized d ref cs s = (Inr (Some c), s') \<Longrightarrow>
    c \<in> set cs \<and> (\<exists>p s0 s1. dp_permission d (tr_repository ref) (pc_actor c) s0 = (Inr p, s1) \<and> authorized_permission p)"
proof (induction cs arbitrary: s)
  case (Cons x xs)
  then show ?case by (fastforce simp: run_iff split: if_split_asm)
qed (simp add: run_iff)

lemma firstAuthorizedComment_some:
  assumes "firstAuthorizedComment d ref sn control s = (Inr (Some c), s')"
  shows "c \<in> set (sn_comments sn) \<and> human_candidate (humanCutoff (sn_comments sn) control) c \<and>
    (\<exists>p s0 s1. dp_permission d (tr_repository ref) (pc_actor c) s0 = (Inr p, s1) \<and> authorized_permission p)"
  using first_authorized_some [OF assms [unfolded firstAuthorizedComment_def]] by auto

lemma launch_plan_some:
  assumes "launch_plan d sn b control configured s = (Inr (Some (st, mode, source, contract)), s')"
  shows "(mode = MHumanInput \<longleftrightarrow> source \<noteq> None) \<and> (mode = MHumanInput \<longrightarrow> contract = Some RHumanGate) \<and>
    (\<forall>c. source = Some c \<longrightarrow> c \<in> set (sn_comments sn) \<and> human_candidate (humanCutoff (sn_comments sn) control) c \<and>
      (\<exists>p s0 s1. dp_permission d (tr_repository (sn_ref sn)) (pc_actor c) s0 = (Inr p, s1) \<and> authorized_permission p)) \<and>
    (cs_stateId control \<noteq> ''needs-human'' \<longrightarrow> st = configured \<and> fs_kind configured \<in> {KAgent, KHumanGate}) \<and>
    (cs_stateId control = ''needs-human'' \<longrightarrow>
      (\<exists>r. cs_resumeStateId control = Some r \<and> state_of (cb_flow b) r = Some st)) \<and>
    (mode = MStage \<longrightarrow> contract = fs_resultContract st)"
proof (cases "fs_kind configured = KHumanGate \<or> cs_stateId control = ''needs-human''")
  case False
  then show ?thesis using assms by (auto simp: launch_plan_def run_iff split: if_split_asm)
next
  case True
  then obtain x s1 where f: "firstAuthorizedComment d (sn_ref sn) sn control s = (Inr x, s1)"
    using assms by (auto simp: launch_plan_def run_iff)
  note fa = firstAuthorizedComment_some [of d "sn_ref sn" sn control s]
  show ?thesis
  proof (cases "cs_stateId control = ''needs-human''")
    case False
    then show ?thesis using assms True f fa
      by (cases x) (auto simp: launch_plan_def run_iff)
  next
    case nh: True
    obtain r where r: "truthy (cs_resumeStateId control) = Some r" "state_of (cb_flow b) r \<noteq> None"
      using assms True nh f by (auto simp: launch_plan_def run_iff split: option.split_asm)
    then have "cs_resumeStateId control = Some r" by (auto simp: truthy_def split: option.split_asm if_split_asm)
    then show ?thesis using assms True nh f r fa
      by (cases x) (auto simp: launch_plan_def run_iff split: option.split_asm if_split_asm)
  qed
qed

lemma startIfNeeded_started:
  assumes "startIfNeeded d sn b control keys s = (Inr True, s')"
  shows "\<not> dp_isRunning d (cs_flowInstanceId control) s \<and>
    (\<exists>configured q s0 s1. state_of (cb_flow b) (cs_stateId control) = Some configured \<and>
       launch_plan d sn b control configured s0 = (Inr (Some (rq_state q, rq_mode q, rq_sourceComment q, Some (rq_resultContract q))), s1) \<and>
       dp_start d q s1 = (Inr (), s') \<and> rq_control q = control \<and> rq_snapshot q = sn \<and> rq_bundle q = b \<and>
       fs_agent (rq_state q) = Some (rq_agentId q) \<and>
       rq_inputRevision q = attemptInputRevision d control sn (rq_sourceComment q) (rq_resultContract q) \<and>
       \<not> hasAcceptedAttempt control (rq_agentId q) (rq_inputRevision q))"
proof -
  have nr: "\<not> dp_isRunning d (cs_flowInstanceId control) s"
    using assms by (auto simp: startIfNeeded_def run_iff)
  obtain configured where cf: "state_of (cb_flow b) (cs_stateId control) = Some configured"
    using assms nr by (auto simp: startIfNeeded_def run_iff split: option.split_asm)
  obtain plan s1 where lp: "launch_plan d sn b control configured s = (Inr plan, s1)"
    using assms nr cf by (auto simp: startIfNeeded_def run_iff)
  obtain st mode src contract where pl: "plan = Some (st, mode, src, contract)"
    using assms nr cf lp by (auto simp: startIfNeeded_def run_iff split: option.split_asm)
  obtain agentId rc where ag: "truthy (fs_agent st) = Some agentId" "contract = Some rc"
    using assms nr cf lp pl by (auto simp: startIfNeeded_def run_iff split: option.split_asm)
  then have fa: "fs_agent st = Some agentId" by (auto simp: truthy_def split: option.split_asm if_split_asm)
  let ?q = "\<lparr> rq_migration = dp_migration d, rq_ref = sn_ref sn, rq_snapshot = sn, rq_control = control,
    rq_bundle = b, rq_stateId = cs_stateId control, rq_state = st, rq_agentId = agentId, rq_mode = mode,
    rq_sourceComment = src, rq_resultContract = rc,
    rq_inputRevision = attemptInputRevision d control sn src rc,
    rq_controllerId = dp_controllerId d, rq_publicationKeys = keys \<rparr>"
  have "dp_start d ?q s1 = (Inr (), s')" "\<not> hasAcceptedAttempt control agentId (rq_inputRevision ?q)"
    using assms nr cf lp pl ag fa by (auto simp: startIfNeeded_def run_iff Let_def split: if_split_asm)
  then show ?thesis using lp pl ag fa
    by (intro conjI nr exI [of _ configured] exI [of _ ?q] exI [of _ s] exI [of _ s1] cf) simp_all
qed

section \<open>A concrete world\<close>

text \<open>A world with the stored control state and the agents started, for the witnesses.\<close>

record World =
  wo_control :: "ControlState option"
  wo_started :: "string list"
  wo_checks :: "(string \<times> CheckStatus) list"

definition demo_bundle :: ConfigBundle where
  "demo_bundle = sample_bundle \<lparr> cb_revision := sample_sha \<rparr>"

definition demo_control :: ControlState where
  "demo_control = sample_control \<lparr> cs_configRevision := sample_sha, cs_attemptSeries := None, cs_latestReceipt := None,
     cs_activationLabel := Some ''agent-flow:development'' \<rparr>"

definition demo_snapshot :: ProviderTicketSnapshot where
  "demo_snapshot = sample_snapshot \<lparr> sn_labels := [''agent-stage:develop'', ''agent-flow:managed'', ''agent-flow:development''] \<rparr>"

definition demo_url :: "string \<Rightarrow> Url option" where
  "demo_url u = Some \<lparr> url_protocol = ''https:'', url_username = [], url_password = [], url_search = [], url_hash = [],
     url_origin = ''https://github.com'', url_pathname = ''/acme/app.git'' \<rparr>"

definition demo_deps :: "World Deps" where
  "demo_deps = \<lparr> dp_migration = None, dp_permission = (\<lambda>_ _. retM PWrite), dp_readComment = (\<lambda>_ _. failM ''none''),
     dp_setControllerLabels = (\<lambda>_ rm add _. retM (filter (\<lambda>l. l \<notin> set rm) (sn_labels demo_snapshot) @ add)),
     dp_readRequiredChecks = (\<lambda>_ c s. (ok \<lparr> rq_headSha = nc_headSha c, rq_checks = wo_checks s \<rparr>, s)),
     dp_readChangeRequest = (\<lambda>_ _. retM sample_change), dp_loadCurrent = retM demo_bundle,
     dp_loadPinned = (\<lambda>_. retM demo_bundle),
     dp_start = (\<lambda>q s. (ok (), s \<lparr> wo_started := wo_started s @ [rq_agentId q] \<rparr>)),
     dp_cancel = (\<lambda>_. retM ()), dp_isRunning = (\<lambda>_ _. False),
     dp_writeControl = (\<lambda>_ e n _ s. if wo_control s = e then (ok n, s \<lparr> wo_control := Some n \<rparr>) else (fail ''stale'', s)),
     dp_load = (\<lambda>_ s. (ok (map_option (\<lambda>c. \<lparr> st_revision = cs_sequence c,
        st_value = sample_execution \<lparr> le_control := Some c \<rparr> \<rparr>) (wo_control s)), s)),
     dp_recordRecovery = (\<lambda>_ _ _ rep _ s. (case rep of Some (Some c) \<Rightarrow>
        (ok \<lparr> st_revision = cs_sequence c, st_value = sample_execution \<lparr> le_control := Some c \<rparr> \<rparr>, s \<lparr> wo_control := Some c \<rparr>)
        | _ \<Rightarrow> (ok \<lparr> st_revision = 0, st_value = sample_execution \<lparr> le_control := wo_control s \<rparr> \<rparr>, s))),
     dp_isAllowed = (\<lambda>_. True), dp_controllerId = sample_uuid, dp_providerApiUrl = None,
     dp_now = retM ''2026-01-02T00:00:00Z'', dp_newFlowInstanceId = retM ''f1'', dp_engine = engine_ref,
     dp_controlSchema = (\<lambda>_. True), dp_sha256 = id, dp_collate = id, dp_url = demo_url \<rparr>"

definition demo_world :: World where
  "demo_world = \<lparr> wo_control = Some demo_control, wo_started = [], wo_checks = [(''verify'', CheckSuccess)] \<rparr>"

section \<open>Properties\<close>

text \<open>
  taking over a ticket's labels succeeds only when the provider then reports the managed label,
  exactly the one stage label of the state and, when the activation is removed, no activation label; the
  labels it asks to remove are stage labels or activation labels only; and when the provider applies the
  request to the labels it showed, the check passes.
\<close>

theorem ownLabels_correct:
  assumes "ownLabels d ref labels b st rmv pin s = (Inr u, s')"
  shows "(\<exists>current. labels_settled (cb_flow b) st rmv pin current) \<and>
    (\<forall>l \<in> set (labels_to_remove (cb_flow b) st rmv pin labels).
       starts_with l ''agent-stage:'' \<or> l \<in> set (activation_labels (cb_flow b) pin)) \<and>
    (distinct labels \<and> \<not> starts_with (fd_managedLabel (cb_flow b)) ''agent-stage:'' \<and>
     fd_managedLabel (cb_flow b) \<notin> set (activation_labels (cb_flow b) pin) \<and>
     (\<forall>l \<in> set (activation_labels (cb_flow b) pin). \<not> starts_with l ''agent-stage:'') \<longrightarrow>
     labels_settled (cb_flow b) st rmv pin
       (filter (\<lambda>l. l \<notin> set (labels_to_remove (cb_flow b) st rmv pin labels)) labels @ labels_to_add (cb_flow b) st labels))"
  using ownLabels_ok [OF assms] labels_request_settles [of labels "cb_flow b" pin st rmv]
  by (auto simp: labels_to_remove_def)

theorem ownLabels_correct_witness:
  "\<exists>current. labels_settled (cb_flow demo_bundle) ''needs-human'' False None current"
proof -
  have "fst (ownLabels demo_deps sample_ref (sn_labels demo_snapshot) demo_bundle ''needs-human'' False None demo_world) = ok ()"
    by code_simp
  then obtain s' where o': "ownLabels demo_deps sample_ref (sn_labels demo_snapshot) demo_bundle ''needs-human'' False None demo_world
      = (Inr (), s')" by (metis ok_def prod.collapse)
  show ?thesis using ownLabels_correct [OF o'] by blast
qed

text \<open>
  C10: an attempt is started only when none runs for the flow instance and the current series has not
  already settled this input; a human-input attempt answers an unmarked comment of this ticket, newer than
  the cutoff, whose author the provider reported to have write permission, under the human-gate contract;
  outside needs-human the agent is the one of the current agent or human-gate state, and in needs-human the
  one of the remembered state.
\<close>

theorem startIfNeeded_safe:
  assumes "startIfNeeded d sn b control keys s = (Inr True, s')"
  shows "\<not> dp_isRunning d (cs_flowInstanceId control) s \<and>
    (\<exists>q s1. dp_start d q s1 = (Inr (), s') \<and> rq_control q = control \<and>
       \<not> hasAcceptedAttempt control (rq_agentId q) (rq_inputRevision q) \<and>
       fs_agent (rq_state q) = Some (rq_agentId q) \<and>
       (rq_mode q = MHumanInput \<longrightarrow> rq_resultContract q = RHumanGate \<and>
          (\<exists>c. rq_sourceComment q = Some c \<and> c \<in> set (sn_comments sn) \<and> \<not> isMarked (pc_body c) \<and>
             (\<exists>p t t'. dp_permission d (tr_repository (sn_ref sn)) (pc_actor c) t = (Inr p, t') \<and> authorized_permission p))) \<and>
       (if cs_stateId control = ''needs-human''
        then \<exists>r. cs_resumeStateId control = Some r \<and> state_of (cb_flow b) r = Some (rq_state q)
        else state_of (cb_flow b) (cs_stateId control) = Some (rq_state q) \<and> fs_kind (rq_state q) \<in> {KAgent, KHumanGate}))"
proof -
  from startIfNeeded_started [OF assms] obtain configured q s0 s1 where
    q: "\<not> dp_isRunning d (cs_flowInstanceId control) s" "state_of (cb_flow b) (cs_stateId control) = Some configured"
      "launch_plan d sn b control configured s0 = (Inr (Some (rq_state q, rq_mode q, rq_sourceComment q, Some (rq_resultContract q))), s1)"
      "dp_start d q s1 = (Inr (), s')" "rq_control q = control" "fs_agent (rq_state q) = Some (rq_agentId q)"
      "\<not> hasAcceptedAttempt control (rq_agentId q) (rq_inputRevision q)" by blast
  note lp = launch_plan_some [OF q(3)]
  have src: "\<exists>c. rq_sourceComment q = Some c \<and> c \<in> set (sn_comments sn) \<and> \<not> isMarked (pc_body c) \<and>
      (\<exists>p t t'. dp_permission d (tr_repository (sn_ref sn)) (pc_actor c) t = (Inr p, t') \<and> authorized_permission p)"
    if "rq_mode q = MHumanInput"
  proof -
    have "rq_sourceComment q \<noteq> None" using lp that by blast
    then obtain c where c: "rq_sourceComment q = Some c" by blast
    have "human_candidate (humanCutoff (sn_comments sn) control) c" using lp c by blast
    then have "\<not> isMarked (pc_body c)" by (simp add: human_candidate_def)
    then show ?thesis using lp c by blast
  qed
  have st: "if cs_stateId control = ''needs-human''
        then \<exists>r. cs_resumeStateId control = Some r \<and> state_of (cb_flow b) r = Some (rq_state q)
        else state_of (cb_flow b) (cs_stateId control) = Some (rq_state q) \<and> fs_kind (rq_state q) \<in> {KAgent, KHumanGate}"
    using lp q(2) by auto
  have rc: "rq_mode q = MHumanInput \<longrightarrow> rq_resultContract q = RHumanGate" using lp by simp
  show ?thesis using q src st rc by (intro conjI exI [of _ q] exI [of _ s1]) auto
qed

theorem startIfNeeded_safe_witness:
  "\<exists>q :: AttemptRequest. rq_control q = demo_control \<and> rq_agentId q = ''dev'' \<and>
     \<not> hasAcceptedAttempt demo_control (rq_agentId q) (rq_inputRevision q)"
proof -
  have "fst (startIfNeeded demo_deps demo_snapshot demo_bundle demo_control [] demo_world) = ok True" by code_simp
  then obtain s' where st: "startIfNeeded demo_deps demo_snapshot demo_bundle demo_control [] demo_world = (Inr True, s')"
    by (metis ok_def prod.collapse)
  have d: "cs_stateId demo_control = ''develop''" by (simp add: demo_control_def sample_defs)
  have f: "state_of (cb_flow demo_bundle) ''develop'' = Some x \<Longrightarrow> fs_agent x = Some ''dev''" for x
    by (auto simp: demo_bundle_def sample_bundle_def sample_flow_def state_of_def)
  from startIfNeeded_safe [OF st] obtain q :: AttemptRequest where q0: "rq_control q = demo_control"
      "\<not> hasAcceptedAttempt demo_control (rq_agentId q) (rq_inputRevision q)"
      "fs_agent (rq_state q) = Some (rq_agentId q)"
      "state_of (cb_flow demo_bundle) ''develop'' = Some (rq_state q)"
    unfolding d by (elim exE conjE) (rule that, assumption+, simp)
  then have "rq_agentId q = ''dev''" using f [OF q0(4)] q0(3) by simp
  then show ?thesis using q0 by blast
qed

end
