(* ===== verification/ReconcileControl.thy ===== *)
theory ReconcileControl
  imports ReconcileBase
begin

text \<open>
  reconcileControl of src/runtime/reconcile.ts, the step that every poll of an active ticket makes on
  the local path: the activation check and cancellation, the event, the gate on required checks, the
  transition of the compiled flow, the compare-and-swap write, the labels and the start of the next
  attempt; with cancelLocal. The path that keeps its state in provider comments is not modelled.
\<close>

section \<open>Cancellation\<close>

definition cancelled_series :: "string \<Rightarrow> AttemptSeries option \<Rightarrow> AttemptSeries option" where
  "cancelled_series timestamp series =
    (case series of None \<Rightarrow> None
     | Some s \<Rightarrow> (case as_current s of
          Some cur \<Rightarrow> if at_status cur = Started
             then Some (s \<lparr> as_current := Some (cur \<lparr> at_status := AttCancelled, at_finishedAt := Some timestamp \<rparr>) \<rparr>)
             else Some s
        | None \<Rightarrow> Some s))"

definition or_else :: "'a option \<Rightarrow> 'a option \<Rightarrow> 'a option" where
  "or_else x y = (case x of None \<Rightarrow> y | Some v \<Rightarrow> Some v)"

definition cancelLocal :: "'s Deps \<Rightarrow> ProviderTicketSnapshot \<Rightarrow> ControlState \<Rightarrow> ('s, ControlState) io" where
  "cancelLocal d sn control =
    thenM (dp_cancel d (cs_flowInstanceId control))
    (bindM (dp_load d (sn_ref sn)) (\<lambda>x.
      (case stored_control x of
         None \<Rightarrow> failM ''local control changed during cancellation''
       | Some latest \<Rightarrow>
          thenM (checkM (cs_flowInstanceId latest \<noteq> cs_flowInstanceId control)
                   ''local control changed during cancellation'')
         (bindM (dp_now d) (\<lambda>timestamp.
          bindM (liftR (advanceControlState (dp_controlSchema d) latest (no_patch \<lparr>
                   cp_stateId := Some ''cancelled'', cp_resumeStateId := Some None,
                   cp_attemptSeries := Some (cancelled_series timestamp (cs_attemptSeries latest)),
                   cp_changeRequest := Some (or_else (normalizedChange (sn_changeRequest sn)) (cs_changeRequest latest)) \<rparr>)
                   timestamp)) (\<lambda>cancelled.
          thenM (writeExistingControl d (sn_ref sn) latest cancelled None)
         (bindM (dp_loadPinned d (cs_configRevision cancelled)) (\<lambda>bundle.
          thenM (liftR (assertBundle bundle (cs_configRevision cancelled)))
         (thenM (ownLabels d (sn_ref sn) (sn_labels sn) bundle ''cancelled'' True None)
         (retM cancelled))))))))))"

definition cancelLocalOutcome :: "'s Deps \<Rightarrow> ProviderTicketSnapshot \<Rightarrow> ControlState \<Rightarrow> ('s, ReconcileOutcome) io" where
  "cancelLocalOutcome d sn control =
    bindM (cancelLocal d sn control) (\<lambda>cancelled.
    bindM (dp_loadPinned d (cs_configRevision cancelled)) (\<lambda>bundle.
      liftR (outcome d (Some cancelled) (Some bundle) sn True False True)))"

section \<open>The gate on required checks\<close>

datatype CiVerdict = CiPass | CiWait | CiFail "string list"

definition readCi :: "'s Deps \<Rightarrow> TicketRef \<Rightarrow> NormalizedChangeRequest option \<Rightarrow> ('s, RequiredChecks option) io" where
  "readCi d ref change =
    (case change of None \<Rightarrow> retM None
     | Some c \<Rightarrow>
        if nc_state c \<noteq> CsOpen then retM None
        else tryM (bindM (dp_readRequiredChecks d ref c) (\<lambda>candidate.
                   bindM (dp_readChangeRequest d ref (nc_number c)) (\<lambda>current.
                     retM (if nc_headSha current = nc_headSha c \<and> nc_state current = CsOpen
                           then Some candidate else None))))
               (\<lambda>_. retM None))"

definition currentChecks :: "RequiredChecks option \<Rightarrow> NormalizedChangeRequest option \<Rightarrow> (string \<times> CheckStatus) list option" where
  "currentChecks ci change = (case (ci, change) of
      (Some r, Some c) \<Rightarrow> if rq_headSha r = nc_headSha c then Some (rq_checks r) else None
    | _ \<Rightarrow> None)"

definition failingChecks :: "string list \<Rightarrow> (string \<times> CheckStatus) list option \<Rightarrow> string list" where
  "failingChecks required checks = (case checks of None \<Rightarrow> []
    | Some cs \<Rightarrow> map fst (filter (\<lambda>(n, st). n \<in> set required \<and> st = CheckFailure) cs))"

definition passingChecks :: "string list \<Rightarrow> (string \<times> CheckStatus) list option \<Rightarrow> bool" where
  "passingChecks required checks = (case checks of None \<Rightarrow> False
    | Some cs \<Rightarrow> list_all (\<lambda>name. let matches = filter (\<lambda>(n, st). n = name) cs in
        matches \<noteq> [] \<and> list_all (\<lambda>(n, st). st = CheckSuccess) matches) required)"

definition ciVerdict :: "string list \<Rightarrow> RequiredChecks option \<Rightarrow> NormalizedChangeRequest option \<Rightarrow> CiVerdict" where
  "ciVerdict required ci change =
    (let checks = currentChecks ci change; failing = failingChecks required checks
     in if \<not> passingChecks required checks \<and> failing = [] then CiWait
        else if failing \<noteq> [] then CiFail failing else CiPass)"

definition artifactHead :: "ReceiptArtifact \<Rightarrow> string option" where
  "artifactHead a = (case a of ArtChangeRequest c \<Rightarrow> Some (rcr_headSha c) | ArtReview r \<Rightarrow> Some (rrv_headSha r)
    | ArtComment _ \<Rightarrow> None)"

definition publicationHead :: "ControlState \<Rightarrow> string option" where
  "publicationHead control = (case cs_latestReceipt control of None \<Rightarrow> None
    | Some r \<Rightarrow> (case List.find (\<lambda>a. artifactHead a \<noteq> None) (ar_artifacts r) of
        None \<Rightarrow> None | Some a \<Rightarrow> artifactHead a))"

definition contractOf :: "FlowState option \<Rightarrow> ResultContract option" where
  "contractOf st = (case st of None \<Rightarrow> None | Some s \<Rightarrow> fs_resultContract s)"

text \<open>An event of a publication whose head is no longer the current one is dropped.\<close>

definition staleHead :: "FlowDefinition \<Rightarrow> ProviderTicketSnapshot \<Rightarrow> ControlState \<Rightarrow> FlowState option \<Rightarrow> FlowEvent \<Rightarrow> bool" where
  "staleHead f sn control configured e \<longleftrightarrow>
     fd_requiredChecks f \<noteq> [] \<and> publicationHead control \<noteq> None \<and>
     publicationHead control \<noteq> map_option nc_headSha (sn_changeRequest sn) \<and>
     ((ev_type e = AgentSucceeded \<and> contractOf configured = Some RDevelopment)
      \<or> (ev_type e = ReviewApproved \<and> contractOf configured = Some RReview))"

definition gatedSuccess :: "FlowState option \<Rightarrow> FlowEvent \<Rightarrow> bool" where
  "gatedSuccess configured e \<longleftrightarrow>
     (ev_type e = AgentSucceeded \<and> contractOf configured \<in> {Some RDevelopment, Some RVerification})
     \<or> (ev_type e = ReviewApproved \<and> contractOf configured = Some RReview)"

definition freshEvent :: "FlowDefinition \<Rightarrow> ProviderTicketSnapshot \<Rightarrow> ControlState \<Rightarrow> FlowState option \<Rightarrow> FlowEvent option" where
  "freshEvent f sn control configured =
    (case deriveEvent sn (Some control) f of None \<Rightarrow> None
     | Some e \<Rightarrow> if staleHead f sn control configured e then None else Some e)"

definition ciFailedControl :: "ControlState \<Rightarrow> NormalizedChangeRequest \<Rightarrow> string list \<Rightarrow> ControlState" where
  "ciFailedControl control change failing = control \<lparr>
     cs_latestReceipt := map_option (\<lambda>r. r \<lparr> ar_outcome := Failed,
        ar_summary := ''Required CI failed on '' @ nc_headSha change @ '': '' @ join_with '', '' failing,
        ar_error := Some \<lparr> re_code = ''REQUIRED_CI_FAILED'',
          re_message = ''Fix the required CI checks before completing development.'' \<rparr> \<rparr>) (cs_latestReceipt control),
     cs_attemptSeries := map_option (\<lambda>s. s \<lparr> as_current :=
        map_option (\<lambda>a. a \<lparr> at_status := AttFailed \<rparr>) (as_current s) \<rparr>) (cs_attemptSeries control) \<rparr>"

definition ciFailedEvent :: "ProviderTicketSnapshot \<Rightarrow> ControlState \<Rightarrow> FlowState option \<Rightarrow> FlowEvent" where
  "ciFailedEvent sn control configured =
    flowEvent (if contractOf configured = Some RDevelopment
        \<and> opt_is (\<lambda>s. as_consumed s \<ge> as_maxAttempts s) (cs_attemptSeries control)
      then AttemptsExhausted else CiFailed) sn False"

datatype GateOutcome = GWait | GGo ControlState "FlowEvent option" bool

definition gateEvent ::
  "'s Deps \<Rightarrow> ProviderTicketSnapshot \<Rightarrow> ConfigBundle \<Rightarrow> ControlState \<Rightarrow> FlowState option \<Rightarrow> ('s, GateOutcome) io" where
  "gateEvent d sn bundle control configured =
    (let f = cb_flow bundle; e = freshEvent f sn control configured in
     if fd_requiredChecks f = [] \<or> \<not> opt_is (gatedSuccess configured) e then retM (GGo control e False)
     else bindM (readCi d (sn_ref sn) (sn_changeRequest sn)) (\<lambda>ci.
       (case ciVerdict (fd_requiredChecks f) ci (sn_changeRequest sn) of
          CiPass \<Rightarrow> retM (GGo control e False)
        | CiWait \<Rightarrow> retM GWait
        | CiFail failing \<Rightarrow>
           (case sn_changeRequest sn of None \<Rightarrow> failM ''TypeError''
            | Some change \<Rightarrow> retM (GGo (ciFailedControl control change failing)
                (Some (ciFailedEvent sn control configured)) True)))))"

section \<open>The transition\<close>

definition unblock ::
  "'s Deps \<Rightarrow> ProviderTicketSnapshot \<Rightarrow> ControlState \<Rightarrow> FlowEvent option \<Rightarrow> ('s, FlowEvent option) io" where
  "unblock d sn control e =
    (if e = None \<and> cs_stateId control = ''blocked'' then
       bindM (firstAuthorizedComment d (sn_ref sn) sn control) (\<lambda>source.
         retM (if source \<noteq> None then Some (flowEvent AuthorizedComment sn True) else None))
     else retM e)"

definition runEvent :: "'s Deps \<Rightarrow> FlowDefinition \<Rightarrow> string \<Rightarrow> string option \<Rightarrow> FlowEvent \<Rightarrow> MachineResult res" where
  "runEvent d f stateId resumeStateId e =
    bindR (cf_transition (compileFlow (dp_engine d) f)
             \<lparr> mi_stateId = stateId, mi_resumeStateId = resumeStateId, mi_event = e \<rparr>) (\<lambda>r.
      if \<not> mr_changed r then fail (''invalid transition from '' @ stateId @ '' for '' @ event_name (ev_type e))
      else ok r)"

definition resumedControl :: "ControlState \<Rightarrow> MachineResult \<Rightarrow> ControlState" where
  "resumedControl control r = control \<lparr> cs_stateId := mr_stateId r, cs_resumeStateId := mr_resumeStateId r \<rparr>"

text \<open>After a human resumption, a change request that moved meanwhile is routed at once.\<close>

definition machineStep :: "'s Deps \<Rightarrow> FlowDefinition \<Rightarrow> ProviderTicketSnapshot \<Rightarrow> ControlState \<Rightarrow> FlowEvent \<Rightarrow> MachineResult res" where
  "machineStep d f sn control e =
    bindR (runEvent d f (cs_stateId control) (cs_resumeStateId control) e) (\<lambda>r.
      if ev_type e \<noteq> AuthorizedComment \<and> ev_type e \<noteq> HumanAnswerAccepted then ok r
      else (case deriveEvent sn (Some (resumedControl control r)) f of
          None \<Rightarrow> ok r
        | Some e' \<Rightarrow>
           if ev_type e' \<noteq> ChangeRequestUpdated then ok r
           else bindR (runEvent d f (mr_stateId r) (mr_resumeStateId r) e') (\<lambda>r'.
             ok (r' \<lparr> mr_actions := mr_actions r @ mr_actions r' \<rparr>))))"

definition stepPatch :: "FlowDefinition \<Rightarrow> ProviderTicketSnapshot \<Rightarrow> ControlState \<Rightarrow> ControlState \<Rightarrow> MachineResult \<Rightarrow> ControlStatePatch" where
  "stepPatch f sn control transitionControl r = no_patch \<lparr>
     cp_stateId := Some (mr_stateId r), cp_resumeStateId := Some (mr_resumeStateId r),
     cp_attemptSeries := Some (applyAttemptActions (cs_attemptSeries transitionControl) (mr_actions r)
        (mr_stateId r = cs_stateId control)),
     cp_changeRequest := Some (if map_option fs_kind (state_of f (mr_stateId r)) = Some KPaused
        then cs_changeRequest control
        else or_else (normalizedChange (sn_changeRequest sn)) (cs_changeRequest control)) \<rparr>"

section \<open>The reconciliation step\<close>

definition activeSnapshot :: "ConfigBundle \<Rightarrow> ControlState \<Rightarrow> ProviderTicketSnapshot \<Rightarrow> ProviderTicketSnapshot" where
  "activeSnapshot bundle control sn =
    (let label = opt_or (cs_activationLabel control) (fd_activationLabel (cb_flow bundle)) in
     sn \<lparr> sn_activation := \<lparr> av_present = (label \<in> set (sn_labels sn)), av_label = Some label,
        av_eventId = Some (cs_activationEventId control), av_actor = Some (cs_activatedBy control),
        av_occurredAt = Some (cs_activatedAt control) \<rparr> \<rparr>)"

definition waitsForProvider :: "FlowState option \<Rightarrow> bool" where
  "waitsForProvider st \<longleftrightarrow> map_option fs_kind st = Some KProviderWait"

definition finishControl ::
  "'s Deps \<Rightarrow> ProviderTicketSnapshot \<Rightarrow> ConfigBundle \<Rightarrow> ControlState \<Rightarrow> ControlState \<Rightarrow> bool \<Rightarrow> string list
     \<Rightarrow> ('s, ReconcileOutcome) io" where
  "finishControl d sn bundle control n changed keys =
    (let removeActivation = terminal_state (cs_stateId n) in
     thenM (ownLabels d (sn_ref sn) (sn_labels sn) bundle (cs_stateId n) removeActivation (cs_activationLabel control))
    (bindM (if removeActivation then retM False else startIfNeeded d sn bundle n keys) (\<lambda>started.
      liftR (outcome d (Some n) (Some bundle) sn changed started True))))"

definition ciWaitReason :: "string list \<Rightarrow> string" where
  "ciWaitReason required = ''Waiting for required current-head CI: '' @ join_with '', '' required"

definition applyEvent ::
  "'s Deps \<Rightarrow> ProviderTicketSnapshot \<Rightarrow> ConfigBundle \<Rightarrow> ControlState \<Rightarrow> ControlState \<Rightarrow> FlowEvent \<Rightarrow> string list
     \<Rightarrow> ('s, ReconcileOutcome) io" where
  "applyEvent d sn bundle control transitionControl e observedKeys =
    bindM (liftR (machineStep d (cb_flow bundle) sn control e)) (\<lambda>r.
    bindM (dp_now d) (\<lambda>timestamp.
    bindM (liftR (advanceControlState (dp_controlSchema d) transitionControl
             (stepPatch (cb_flow bundle) sn control transitionControl r) timestamp)) (\<lambda>n.
    thenM (writeExistingControl d (sn_ref sn) control n (Some observedKeys))
   (finishControl d sn bundle control n True observedKeys))))"

definition movedReviewHead :: "ProviderTicketSnapshot \<Rightarrow> ControlState \<Rightarrow> FlowState option \<Rightarrow> bool" where
  "movedReviewHead sn control configured \<longleftrightarrow> contractOf configured = Some RReview \<and>
     opt_is (\<lambda>c. map_option ccr_headSha (cs_changeRequest control) \<noteq> Some (nc_headSha c)) (sn_changeRequest sn)"

definition refreshReviewHead ::
  "'s Deps \<Rightarrow> ProviderTicketSnapshot \<Rightarrow> ConfigBundle \<Rightarrow> ControlState \<Rightarrow> string list \<Rightarrow> ('s, ReconcileOutcome) io" where
  "refreshReviewHead d sn bundle control observedKeys =
    bindM (dp_now d) (\<lambda>timestamp.
    bindM (liftR (advanceControlState (dp_controlSchema d) control
             (no_patch \<lparr> cp_changeRequest := Some (normalizedChange (sn_changeRequest sn)) \<rparr>) timestamp)) (\<lambda>n.
    thenM (writeExistingControl d (sn_ref sn) control n (Some observedKeys))
   (finishControl d sn bundle control n True observedKeys)))"

definition waitForCi ::
  "'s Deps \<Rightarrow> ProviderTicketSnapshot \<Rightarrow> ConfigBundle \<Rightarrow> ControlState \<Rightarrow> ('s, ReconcileOutcome) io" where
  "waitForCi d sn bundle control =
    thenM (ownLabels d (sn_ref sn) (sn_labels sn) bundle (cs_stateId control) False (cs_activationLabel control))
   (bindM (liftR (outcome d (Some control) (Some bundle) sn False False True)) (\<lambda>r.
      retM (r \<lparr> ro_recoveryReason := Some (ciWaitReason (fd_requiredChecks (cb_flow bundle))) \<rparr>)))"

text \<open>
  The way to stop the work of a ticket that is closed or no longer activated is a parameter: it differs for a
  control state in the local store and one in a provider comment.
\<close>

definition reconcileWith ::
  "(ProviderTicketSnapshot \<Rightarrow> ('s, ReconcileOutcome) io) \<Rightarrow> 's Deps \<Rightarrow> ProviderTicketSnapshot \<Rightarrow> ConfigBundle
     \<Rightarrow> ControlState \<Rightarrow> string list \<Rightarrow> string list \<Rightarrow> ('s, ReconcileOutcome) io" where
  "reconcileWith stop d snapshot bundle control publicationKeys observedKeys =
    (let sn = activeSnapshot bundle control snapshot;
         configured = state_of (cb_flow bundle) (cs_stateId control);
         mergedWins = (waitsForProvider configured \<and> map_option nc_state (sn_changeRequest sn) = Some CsMerged)
     in thenM (liftR (assertAllowed d (sn_ref snapshot)))
       (thenM (liftR (if waitsForProvider configured
                      then assertChangeIdentity (cs_changeRequest control) (sn_changeRequest sn) else ok ()))
       (if (\<not> av_present (sn_activation sn) \<or> \<not> sn_open sn) \<and> \<not> mergedWins
        then stop sn
        else bindM (gateEvent d sn bundle control configured) (\<lambda>gate.
          (case gate of
             GWait \<Rightarrow> waitForCi d sn bundle control
           | GGo transitionControl e0 changed0 \<Rightarrow>
               bindM (unblock d sn control e0) (\<lambda>e.
                 (case e of
                    Some machineEvent \<Rightarrow> applyEvent d sn bundle control transitionControl machineEvent observedKeys
                  | None \<Rightarrow>
                      if movedReviewHead sn control configured
                      then refreshReviewHead d sn bundle control observedKeys
                      else finishControl d sn bundle control control changed0 publicationKeys)))))))"

definition reconcileControl ::
  "'s Deps \<Rightarrow> ProviderTicketSnapshot \<Rightarrow> ConfigBundle \<Rightarrow> ControlState \<Rightarrow> string list \<Rightarrow> string list
     \<Rightarrow> ('s, ReconcileOutcome) io" where
  "reconcileControl d snapshot bundle control publicationKeys observedKeys =
    reconcileWith (\<lambda>sn. cancelLocalOutcome d sn control) d snapshot bundle control publicationKeys observedKeys"

section \<open>What a step may do\<close>

lemma outcome_fields:
  assumes "outcome d control bundle sn ch st rn = Inr r"
  shows "ro_stateId r = map_option cs_stateId control \<and> ro_started r = st \<and> ro_changed r = ch"
  using assms by (auto simp: outcome_def Let_def bindR_Inr_iff ok_def)

text \<open>The persisted successor of a control state in one step.\<close>

definition persisted :: "'s Deps \<Rightarrow> TicketRef \<Rightarrow> ControlState \<Rightarrow> ControlState \<Rightarrow> bool" where
  "persisted d ref control n \<longleftrightarrow> n = control \<or>
     ((\<exists>keys s s'. dp_writeControl d ref (Some control) n keys s = (Inr n, s')) \<and>
      cs_sequence n = cs_sequence control + 1 \<and> same_identity control n)"

lemma writeExisting_ok:
  assumes "writeExistingControl d ref control n keys s = (Inr u, s')"
  shows "dp_writeControl d ref (Some control) n keys s = (Inr n, s')"
  using assms unfolding writeExistingControl_def writeControlCas_def by (auto simp: run_iff)

lemma finishControl_started:
  assumes "finishControl d sn bundle control n changed keys s = (Inr r, s')"
  shows "ro_stateId r = Some (cs_stateId n) \<and>
    (ro_started r \<longrightarrow> \<not> terminal_state (cs_stateId n) \<and> (\<exists>s0. startIfNeeded d sn bundle n keys s0 = (Inr True, s')))"
  using assms unfolding finishControl_def Let_def
  by (auto simp: run_iff dest!: outcome_fields split: if_split_asm)

lemma advance_Inr: "advanceControlState schema c p now = Inr n \<Longrightarrow> advanceControlState schema c p now = ok n"
  by (simp add: ok_def)

lemma ciFailed_identity:
  "same_identity control (ciFailedControl control ch fl)" "cs_sequence (ciFailedControl control ch fl) = cs_sequence control"
  "cs_stateId (ciFailedControl control ch fl) = cs_stateId control"
  by (simp_all add: ciFailedControl_def same_identity_def)

lemma same_identity_trans: "same_identity a b \<Longrightarrow> same_identity b c \<Longrightarrow> same_identity a c"
  by (simp add: same_identity_def)

lemma same_identity_refl [simp]: "same_identity a a"
  by (simp add: same_identity_def)

definition gate_base :: "ControlState \<Rightarrow> ControlState \<Rightarrow> bool" where
  "gate_base control t \<longleftrightarrow> same_identity control t \<and> cs_sequence t = cs_sequence control \<and> cs_stateId t = cs_stateId control"

lemma gateEvent_base:
  assumes "gateEvent d sn bundle control configured s = (Inr (GGo t e ch), s')"
  shows "gate_base control t"
proof (cases "fd_requiredChecks (cb_flow bundle) = [] \<or>
    \<not> opt_is (gatedSuccess configured) (freshEvent (cb_flow bundle) sn control configured)")
  case True
  then show ?thesis using assms by (auto simp: gateEvent_def Let_def run_iff gate_base_def)
next
  case False
  then obtain ci s1 where "readCi d (sn_ref sn) (sn_changeRequest sn) s = (Inr ci, s1)"
    using assms by (auto simp: gateEvent_def Let_def run_iff)
  then show ?thesis using assms False
    by (cases "ciVerdict (fd_requiredChecks (cb_flow bundle)) ci (sn_changeRequest sn)"; cases "sn_changeRequest sn")
      (auto simp: gateEvent_def Let_def run_iff gate_base_def ciFailed_identity)
qed

lemma applyEvent_ok:
  assumes "applyEvent d sn bundle control t e obs s = (Inr r, s')" "gate_base control t"
  shows "\<exists>m n. machineStep d (cb_flow bundle) sn control e = ok m \<and> cs_stateId n = mr_stateId m \<and>
    cs_resumeStateId n = mr_resumeStateId m \<and> persisted d (sn_ref sn) control n \<and>
    ro_stateId r = Some (mr_stateId m) \<and>
    (ro_started r \<longrightarrow> (\<exists>s0. startIfNeeded d sn bundle n obs s0 = (Inr True, s')))"
proof -
  obtain m ts n s1 s2 where m: "machineStep d (cb_flow bundle) sn control e = Inr m"
    and adv: "advanceControlState (dp_controlSchema d) t (stepPatch (cb_flow bundle) sn control t m) ts = Inr n"
    and w: "writeExistingControl d (sn_ref sn) control n (Some obs) s1 = (Inr (), s2)"
    and f: "finishControl d sn bundle control n True obs s2 = (Inr r, s')"
    using assms(1) unfolding applyEvent_def by (auto simp: run_iff)
  note a = advance_ok [OF advance_Inr [OF adv]]
  have "cs_sequence n = cs_sequence control + 1" "same_identity control n"
    using a assms(2) by (auto simp: gate_base_def intro: same_identity_trans)
  then have "persisted d (sn_ref sn) control n"
    using writeExisting_ok [OF w] by (auto simp: persisted_def)
  moreover have "cs_stateId n = mr_stateId m" "cs_resumeStateId n = mr_resumeStateId m"
    using a by (simp_all add: stepPatch_def)
  ultimately show ?thesis using m finishControl_started [OF f] by (auto simp: ok_def)
qed

lemma refreshReviewHead_ok:
  assumes "refreshReviewHead d sn bundle control obs s = (Inr r, s')"
  shows "\<exists>n. cs_stateId n = cs_stateId control \<and> persisted d (sn_ref sn) control n \<and>
    ro_stateId r = Some (cs_stateId control) \<and>
    (ro_started r \<longrightarrow> (\<exists>s0. startIfNeeded d sn bundle n obs s0 = (Inr True, s')))"
proof -
  obtain ts n s1 s2 where
    adv: "advanceControlState (dp_controlSchema d) control
        (no_patch \<lparr> cp_changeRequest := Some (normalizedChange (sn_changeRequest sn)) \<rparr>) ts = Inr n"
    and w: "writeExistingControl d (sn_ref sn) control n (Some obs) s1 = (Inr (), s2)"
    and f: "finishControl d sn bundle control n True obs s2 = (Inr r, s')"
    using assms unfolding refreshReviewHead_def by (auto simp: run_iff)
  note a = advance_ok [OF advance_Inr [OF adv]]
  have "persisted d (sn_ref sn) control n" using writeExisting_ok [OF w] a by (auto simp: persisted_def)
  moreover have "cs_stateId n = cs_stateId control" using a by (simp add: no_patch_def)
  ultimately show ?thesis using finishControl_started [OF f] by auto
qed

lemma cancelLocalOutcome_started:
  "cancelLocalOutcome d sn control s = (Inr r, s') \<Longrightarrow> \<not> ro_started r"
  unfolding cancelLocalOutcome_def by (auto simp: run_iff dest!: outcome_fields)

lemma waitForCi_outcome:
  "waitForCi d sn bundle control s = (Inr r, s') \<Longrightarrow>
     \<not> ro_started r \<and> \<not> ro_changed r \<and> ro_stateId r = Some (cs_stateId control)"
  unfolding waitForCi_def by (auto simp: run_iff dest!: outcome_fields)

text \<open>The five ways a reconciliation step of an active ticket can end.\<close>

lemma reconcileControl_cases:
  assumes "reconcileControl d snapshot bundle control keys obs s = (Inr r, s')"
  defines "sn \<equiv> activeSnapshot bundle control snapshot"
    and "configured \<equiv> state_of (cb_flow bundle) (cs_stateId control)"
  obtains (cancelled) "\<not> av_present (sn_activation sn) \<or> \<not> sn_open sn"
      "cancelLocalOutcome d sn control s = (Inr r, s')"
  | (waiting) s1 where "gateEvent d sn bundle control configured s = (Inr GWait, s1)"
      "waitForCi d sn bundle control s1 = (Inr r, s')"
  | (event) t e0 ch e s1 s2 where "gateEvent d sn bundle control configured s = (Inr (GGo t e0 ch), s1)"
      "unblock d sn control e0 s1 = (Inr (Some e), s2)" "applyEvent d sn bundle control t e obs s2 = (Inr r, s')"
  | (moved) t e0 ch s1 s2 where "gateEvent d sn bundle control configured s = (Inr (GGo t e0 ch), s1)"
      "unblock d sn control e0 s1 = (Inr None, s2)" "refreshReviewHead d sn bundle control obs s2 = (Inr r, s')"
  | (steady) t e0 ch s1 s2 where "gateEvent d sn bundle control configured s = (Inr (GGo t e0 ch), s1)"
      "unblock d sn control e0 s1 = (Inr None, s2)" "finishControl d sn bundle control control ch keys s2 = (Inr r, s')"
proof -
  note r = assms(1) [unfolded reconcileControl_def reconcileWith_def Let_def, folded sn_def configured_def]
  show thesis
  proof (cases "(\<not> av_present (sn_activation sn) \<or> \<not> sn_open sn) \<and>
      \<not> (waitsForProvider configured \<and> map_option nc_state (sn_changeRequest sn) = Some CsMerged)")
    case True
    then show thesis using r cancelled by (auto simp: run_iff)
  next
    case False
    then obtain g s1 where g: "gateEvent d sn bundle control configured s = (Inr g, s1)"
      and k: "(case g of GWait \<Rightarrow> waitForCi d sn bundle control
           | GGo t e0 ch \<Rightarrow> bindM (unblock d sn control e0) (\<lambda>e. (case e of
                    Some machineEvent \<Rightarrow> applyEvent d sn bundle control t machineEvent obs
                  | None \<Rightarrow> if movedReviewHead sn control configured then refreshReviewHead d sn bundle control obs
                      else finishControl d sn bundle control control ch keys))) s1 = (Inr r, s')"
      using r by (auto simp: run_iff)
    show thesis
    proof (cases g)
      case GWait
      then show thesis using g k waiting by simp
    next
      case (GGo t e0 ch)
      then obtain e s2 where u: "unblock d sn control e0 s1 = (Inr e, s2)"
        and k2: "(case e of Some machineEvent \<Rightarrow> applyEvent d sn bundle control t machineEvent obs
                  | None \<Rightarrow> if movedReviewHead sn control configured then refreshReviewHead d sn bundle control obs
                      else finishControl d sn bundle control control ch keys) s2 = (Inr r, s')"
        using k by (auto simp: run_iff)
      show thesis
      proof (cases e)
        case None
        then show thesis using g GGo u k2 moved steady by (simp split: if_split_asm)
      next
        case (Some x)
        then show thesis using g GGo u k2 event by simp
      qed
    qed
  qed
qed

lemma reconcileControl_started:
  assumes "reconcileControl d snapshot bundle control keys obs s = (Inr r, s')" "ro_started r"
  shows "\<exists>n ks s0. persisted d (sn_ref snapshot) control n \<and> ro_stateId r = Some (cs_stateId n) \<and>
    startIfNeeded d (activeSnapshot bundle control snapshot) bundle n ks s0 = (Inr True, s')"
  using assms(1)
proof (cases rule: reconcileControl_cases)
  case cancelled
  then show ?thesis using cancelLocalOutcome_started [OF cancelled(2)] assms(2) by simp
next
  case (waiting s1)
  then show ?thesis using waitForCi_outcome [OF waiting(2)] assms(2) by simp
next
  case (event t e0 ch e s1 s2)
  have "sn_ref (activeSnapshot bundle control snapshot) = sn_ref snapshot" by (simp add: activeSnapshot_def Let_def)
  then show ?thesis using applyEvent_ok [OF event(3) gateEvent_base [OF event(1)]] assms(2) by metis
next
  case (moved t e0 ch s1 s2)
  have "sn_ref (activeSnapshot bundle control snapshot) = sn_ref snapshot" by (simp add: activeSnapshot_def Let_def)
  then show ?thesis using refreshReviewHead_ok [OF moved(3)] assms(2) by metis
next
  case (steady t e0 ch s1 s2)
  then show ?thesis using finishControl_started [OF steady(3)] assms(2) by (auto simp: persisted_def)
qed

section \<open>Required checks gate success\<close>

lemma readCi_some:
  assumes "readCi d ref change s = (Inr (Some ci), s')"
  shows "\<exists>c. change = Some c \<and> nc_state c = CsOpen \<and>
    (\<exists>s1. dp_readRequiredChecks d ref c s = (Inr ci, s1) \<and>
      (\<exists>cur s2. dp_readChangeRequest d ref (nc_number c) s1 = (Inr cur, s2) \<and> nc_headSha cur = nc_headSha c))"
proof -
  obtain c where c: "change = Some c" "nc_state c = CsOpen"
    using assms by (auto simp: readCi_def run_iff split: option.split_asm if_split_asm)
  let ?m = "bindM (dp_readRequiredChecks d ref c) (\<lambda>candidate.
     bindM (dp_readChangeRequest d ref (nc_number c)) (\<lambda>current.
       retM (if nc_headSha current = nc_headSha c \<and> nc_state current = CsOpen then Some candidate else None)))"
  have "tryM ?m (\<lambda>_. retM None) s = (Inr (Some ci), s')" using assms c by (simp add: readCi_def)
  then have "?m s = (Inr (Some ci), s')"
    by (auto simp: tryM_def retM_def ok_def split: prod.split_asm sum.split_asm)
  then show ?thesis using c by (auto simp: run_iff split: if_split_asm)
qed

definition checks_green :: "string list \<Rightarrow> RequiredChecks \<Rightarrow> bool" where
  "checks_green required ci \<longleftrightarrow> (\<forall>name \<in> set required.
     (\<exists>st. (name, st) \<in> set (rq_checks ci)) \<and> (\<forall>st. (name, st) \<in> set (rq_checks ci) \<longrightarrow> st = CheckSuccess))"

lemma ciVerdict_pass:
  assumes "ciVerdict required ci change = CiPass"
  shows "\<exists>r c. ci = Some r \<and> change = Some c \<and> rq_headSha r = nc_headSha c \<and> checks_green required r"
proof -
  have p: "passingChecks required (currentChecks ci change)"
    using assms by (auto simp: ciVerdict_def Let_def split: if_split_asm)
  then obtain r c where rc: "ci = Some r" "change = Some c" "rq_headSha r = nc_headSha c"
    by (auto simp: passingChecks_def currentChecks_def split: option.split_asm if_split_asm)
  have "checks_green required r" unfolding checks_green_def
  proof (intro ballI conjI allI impI)
    fix name assume n: "name \<in> set required"
    have q: "filter (\<lambda>(n, st). n = name) (rq_checks r) \<noteq> []"
      "list_all (\<lambda>(n, st). st = CheckSuccess) (filter (\<lambda>(n, st). n = name) (rq_checks r))"
      using p n rc by (auto simp: passingChecks_def currentChecks_def list_all_iff Let_def)
    show "\<exists>st. (name, st) \<in> set (rq_checks r)" using q(1) by (auto simp: filter_empty_conv)
    show "st = CheckSuccess" if "(name, st) \<in> set (rq_checks r)" for st
      using q(2) that by (auto simp: list_all_iff)
  qed
  then show ?thesis using rc by blast
qed

lemma gateEvent_gated:
  assumes "gateEvent d sn bundle control configured s = (Inr g, s')"
    "fd_requiredChecks (cb_flow bundle) \<noteq> []"
    "freshEvent (cb_flow bundle) sn control configured = Some e" "gatedSuccess configured e"
  shows "g = GWait \<or>
    (\<exists>ci c. readCi d (sn_ref sn) (sn_changeRequest sn) s = (Inr (Some ci), s') \<and> sn_changeRequest sn = Some c \<and>
       rq_headSha ci = nc_headSha c \<and> checks_green (fd_requiredChecks (cb_flow bundle)) ci \<and> g = GGo control (Some e) False) \<or>
    (\<exists>c fl. g = GGo (ciFailedControl control c fl) (Some (ciFailedEvent sn control configured)) True)"
proof -
  let ?v = "\<lambda>ci. ciVerdict (fd_requiredChecks (cb_flow bundle)) ci (sn_changeRequest sn)"
  obtain ci s1 where r: "readCi d (sn_ref sn) (sn_changeRequest sn) s = (Inr ci, s1)"
    using assms by (auto simp: gateEvent_def Let_def run_iff)
  show ?thesis
  proof (cases "?v ci")
    case CiPass
    then have "g = GGo control (Some e) False" "s' = s1" using assms r by (auto simp: gateEvent_def Let_def run_iff)
    then show ?thesis using ciVerdict_pass [OF CiPass] r by blast
  next
    case CiWait
    then show ?thesis using assms r by (auto simp: gateEvent_def Let_def run_iff)
  next
    case (CiFail fl)
    then show ?thesis using assms r
      by (cases "sn_changeRequest sn") (auto simp: gateEvent_def Let_def run_iff)
  qed
qed

section \<open>Properties\<close>

text \<open>
  C11: a reconciliation step starts an attempt only from a control state that it was given or has just
  written by compare-and-swap in its place, with the next sequence number, the same flow instance, flow,
  configuration and activation; the outcome reports that state.
\<close>

theorem reconcile_starts_persisted:
  assumes "reconcileControl d snapshot bundle control keys obs s = (Inr r, s')" "ro_started r"
  shows "\<exists>n q s0. dp_start d q s0 = (Inr (), s') \<and> rq_control q = n \<and> ro_stateId r = Some (cs_stateId n) \<and>
    (n = control \<or> cs_sequence n = cs_sequence control + 1 \<and> same_identity control n \<and>
       (\<exists>ks t t'. dp_writeControl d (sn_ref snapshot) (Some control) n ks t = (Inr n, t')))"
proof -
  from reconcileControl_started [OF assms] obtain n ks s0 where
    n: "persisted d (sn_ref snapshot) control n" "ro_stateId r = Some (cs_stateId n)"
      "startIfNeeded d (activeSnapshot bundle control snapshot) bundle n ks s0 = (Inr True, s')" by blast
  from startIfNeeded_started [OF n(3)] obtain q s1 where "dp_start d q s1 = (Inr (), s')" "rq_control q = n" by blast
  then show ?thesis using n(1,2) unfolding persisted_def by blast
qed

lemma demo_reconciles:
  "\<exists>r s'. reconcileControl demo_deps demo_snapshot demo_bundle demo_control [] [] demo_world = (Inr r, s') \<and> ro_started r
     \<and> wo_started s' = [''dev'']"
proof -
  have "(case reconcileControl demo_deps demo_snapshot demo_bundle demo_control [] [] demo_world of
      (Inr r, s') \<Rightarrow> ro_started r \<and> wo_started s' = [''dev''] | _ \<Rightarrow> False)" by code_simp
  then show ?thesis by (auto split: prod.split_asm sum.split_asm)
qed

theorem reconcile_starts_persisted_witness:
  "\<exists>r s' q s0. reconcileControl demo_deps demo_snapshot demo_bundle demo_control [] [] demo_world = (Inr r, s') \<and>
     dp_start demo_deps q s0 = (Inr (), s') \<and> wo_started s' = [''dev'']"
proof -
  obtain r s' where r: "reconcileControl demo_deps demo_snapshot demo_bundle demo_control [] [] demo_world = (Inr r, s')"
    "ro_started r" "wo_started s' = [''dev'']" using demo_reconciles by blast
  then show ?thesis using reconcile_starts_persisted [OF r(1,2)] by blast
qed

text \<open>
  C12: when a flow requires checks, a development or verification success and a review approval advance
  the flow only after the provider reported, for the head of the open change request that is current, that
  every required check is present and succeeded; otherwise the step waits without changing or starting
  anything, or takes the transition of a failed or exhausted attempt.
\<close>

theorem reconcile_requires_green_checks:
  assumes "reconcileControl d snapshot bundle control keys obs s = (Inr r, s')"
    "fd_requiredChecks (cb_flow bundle) \<noteq> []"
    "freshEvent (cb_flow bundle) (activeSnapshot bundle control snapshot) control
       (state_of (cb_flow bundle) (cs_stateId control)) = Some e"
    "gatedSuccess (state_of (cb_flow bundle) (cs_stateId control)) e"
    "av_present (sn_activation (activeSnapshot bundle control snapshot))" "sn_open snapshot"
  shows "(ro_stateId r = Some (cs_stateId control) \<and> \<not> ro_changed r \<and> \<not> ro_started r) \<or>
    (\<exists>ci c t'. sn_changeRequest snapshot = Some c \<and> readCi d (sn_ref snapshot) (Some c) s = (Inr (Some ci), t') \<and>
       rq_headSha ci = nc_headSha c \<and> checks_green (fd_requiredChecks (cb_flow bundle)) ci) \<or>
    (\<exists>m ev. machineStep d (cb_flow bundle) (activeSnapshot bundle control snapshot) control ev = ok m \<and>
       ev_type ev \<in> {CiFailed, AttemptsExhausted} \<and> ro_stateId r = Some (mr_stateId m))"
proof -
  let ?sn = "activeSnapshot bundle control snapshot" and ?cf = "state_of (cb_flow bundle) (cs_stateId control)"
  have sn: "sn_ref ?sn = sn_ref snapshot" "sn_changeRequest ?sn = sn_changeRequest snapshot" "sn_open ?sn = sn_open snapshot"
    by (simp_all add: activeSnapshot_def Let_def)
  have green: ?thesis if g: "gateEvent d ?sn bundle control ?cf s = (Inr (GGo t (Some e) False), s1)" "t = control" for t s1
  proof -
    from gateEvent_gated [OF g(1) assms(2-4), unfolded sn] obtain ci c where
      "readCi d (sn_ref snapshot) (sn_changeRequest snapshot) s = (Inr (Some ci), s1)" "sn_changeRequest snapshot = Some c"
      "rq_headSha ci = nc_headSha c" "checks_green (fd_requiredChecks (cb_flow bundle)) ci" by blast
    then show ?thesis by (metis (full_types))
  qed
  have red: ?thesis if g: "gateEvent d ?sn bundle control ?cf s = (Inr (GGo t e0 ch), s1)"
      "e0 = Some (ciFailedEvent ?sn control ?cf)" "unblock d ?sn control e0 s1 = (Inr x, s2)"
      "(\<exists>y. x = Some y \<and> applyEvent d ?sn bundle control t y obs s2 = (Inr r, s'))" for t e0 ch x s1 s2
  proof -
    have "x = e0" using g(2,3) by (simp add: unblock_def run_iff)
    moreover obtain y where y: "x = Some y" "applyEvent d ?sn bundle control t y obs s2 = (Inr r, s')" using g(4) by blast
    ultimately have "applyEvent d ?sn bundle control t (ciFailedEvent ?sn control ?cf) obs s2 = (Inr r, s')"
      using g(2) by simp
    from applyEvent_ok [OF this gateEvent_base [OF g(1)]] obtain m where
      "machineStep d (cb_flow bundle) ?sn control (ciFailedEvent ?sn control ?cf) = ok m"
      "ro_stateId r = Some (mr_stateId m)" by (elim conjE exE)
    moreover have "ev_type (ciFailedEvent ?sn control ?cf) \<in> {CiFailed, AttemptsExhausted}"
      by (simp add: ciFailedEvent_def flowEvent_def)
    ultimately show ?thesis by blast
  qed
  show ?thesis using assms(1)
  proof (cases rule: reconcileControl_cases)
    case cancelled
    then show ?thesis using assms(5,6) sn by simp
  next
    case (waiting s1)
    then show ?thesis using waitForCi_outcome [OF waiting(2)] by simp
  next
    case (event t e0 ch x s1 s2)
    then show ?thesis using gateEvent_gated [OF event(1) assms(2-4)] green red by blast
  next
    case (moved t e0 ch s1 s2)
    then have "e0 = None" by (auto simp: unblock_def run_iff split: if_split_asm)
    then show ?thesis using gateEvent_gated [OF moved(1) assms(2-4)] by blast
  next
    case (steady t e0 ch s1 s2)
    then have "e0 = None" by (auto simp: unblock_def run_iff split: if_split_asm)
    then show ?thesis using gateEvent_gated [OF steady(1) assms(2-4)] by blast
  qed
qed

definition gated_bundle :: ConfigBundle where
  "gated_bundle = demo_bundle \<lparr> cb_flow := sample_flow \<lparr> fd_requiredChecks := [''verify''] \<rparr> \<rparr>"

definition gated_control :: ControlState where
  "gated_control = demo_control \<lparr> cs_attemptSeries := Some sample_series,
     cs_latestReceipt := Some (sample_receipt \<lparr> ar_artifacts := [ArtChangeRequest \<lparr> rcr_number = 34, rcr_url = ''u34'',
       rcr_headSha = ''abc'', rcr_state = CsOpen \<rparr>] \<rparr>) \<rparr>"

definition gated_world :: World where
  "gated_world = demo_world \<lparr> wo_control := Some gated_control \<rparr>"

definition gated_event :: FlowEvent where
  "gated_event = \<lparr> ev_type = AgentSucceeded, ev_authorizedActor = False, ev_activationPresent = True,
     ev_ticketOpen = True, ev_headMatches = False, ev_receiptValid = True \<rparr>"

theorem reconcile_requires_green_checks_witness:
  "\<exists>r s'. reconcileControl demo_deps demo_snapshot gated_bundle gated_control [] [] gated_world = (Inr r, s') \<and>
     ro_stateId r = Some ''done'' \<and>
     (\<exists>ci t'. readCi demo_deps (sn_ref demo_snapshot) (Some sample_change) gated_world = (Inr (Some ci), t') \<and>
        checks_green [''verify''] ci)"
proof -
  let ?sn = "activeSnapshot gated_bundle gated_control demo_snapshot"
  have "(case reconcileControl demo_deps demo_snapshot gated_bundle gated_control [] [] gated_world of
      (Inr r, s') \<Rightarrow> ro_stateId r = Some ''done'' \<and> ro_changed r | _ \<Rightarrow> False)" by code_simp
  then obtain r s' where r: "reconcileControl demo_deps demo_snapshot gated_bundle gated_control [] [] gated_world = (Inr r, s')"
    "ro_stateId r = Some ''done''" "ro_changed r" by (auto split: prod.split_asm sum.split_asm)
  have f: "freshEvent (cb_flow gated_bundle) ?sn gated_control
      (state_of (cb_flow gated_bundle) (cs_stateId gated_control)) = Some gated_event" by code_simp
  have g: "gatedSuccess (state_of (cb_flow gated_bundle) (cs_stateId gated_control)) gated_event" by code_simp
  have p: "fd_requiredChecks (cb_flow gated_bundle) \<noteq> []" "av_present (sn_activation ?sn)" "sn_open demo_snapshot"
    by code_simp+
  have q: "fd_requiredChecks (cb_flow gated_bundle) = [''verify'']" "sn_changeRequest demo_snapshot = Some sample_change"
    by (simp_all add: gated_bundle_def demo_snapshot_def sample_snapshot_def)
  have nofail: "machineStep demo_deps (cb_flow gated_bundle) ?sn gated_control ev \<noteq> ok m"
    if "ev_type ev \<in> {CiFailed, AttemptsExhausted}" for ev m
    using that by (auto simp: machineStep_def runEvent_def compileFlow_def demo_deps_def gated_bundle_def gated_control_def
        demo_control_def sample_control_def ref.runTransition_known sample_flow_def state_of_def flow_step_def transition_of_def
        unchanged_def)
  show ?thesis using reconcile_requires_green_checks [OF r(1) p(1) f g p(2,3)] r nofail unfolding q by blast
qed

end
