(* ===== verification/PublicationPath.thy ===== *)
theory PublicationPath
  imports ReconcileBase
begin

text \<open>
  How src/runtime/reconcile.ts reads provider evidence: the identity in a publication key, the marked
  objects of a ticket, the path of publications by which a flow reaches a stage without rework, the stage
  that labels and activation name, and when a local resume or a fresh review replaces it.
\<close>

section \<open>Publication identities\<close>

datatype PublicationKind = PkComment | PkChange | PkReview | PkDocumentation

fun object_kind_name :: "PublicationKind \<Rightarrow> string" where
  "object_kind_name PkComment = ''comment''"
| "object_kind_name PkChange = ''change-request''"
| "object_kind_name PkReview = ''review''"
| "object_kind_name PkDocumentation = ''documentation''"

definition object_kind_of :: "string \<Rightarrow> PublicationKind option" where
  "object_kind_of s = (if s = ''comment'' then Some PkComment else if s = ''change-request'' then Some PkChange
     else if s = ''review'' then Some PkReview else None)"

definition hasPublicationIdentity :: "string \<Rightarrow> TicketRef \<Rightarrow> PublicationKind \<Rightarrow> string \<Rightarrow> bool" where
  "hasPublicationIdentity key ref kind i =
    (case json_parse key of
       Some (JArr [JStr p, JStr scope, JStr r, JStr k, JStr x]) \<Rightarrow>
         p = provider_name (tr_provider ref) \<and> scope \<noteq> [] \<and> r = tr_repository ref
         \<and> k = object_kind_name kind \<and> x = i
     | _ \<Rightarrow> False)"

definition publicationObjectKind :: "string \<Rightarrow> TicketRef \<Rightarrow> PublicationKind option" where
  "publicationObjectKind key ref =
    (case json_parse key of
       Some (JArr [JStr p, JStr scope, JStr r, JStr k, JStr x]) \<Rightarrow>
         if p = provider_name (tr_provider ref) \<and> r = tr_repository ref then object_kind_of k else None
     | _ \<Rightarrow> None)"

definition object_key :: "TicketRef \<Rightarrow> string \<Rightarrow> PublicationKind \<Rightarrow> string \<Rightarrow> string" where
  "object_key ref scope kind i = json_print (JArr [JStr (provider_name (tr_provider ref)), JStr scope,
     JStr (tr_repository ref), JStr (object_kind_name kind), JStr i])"

text \<open>The value at index 1 of a parsed key, when it is a string.\<close>

definition key_scope :: "string \<Rightarrow> string option" where
  "key_scope key = (case json_parse key of
      Some (JArr (_ # JStr s # _)) \<Rightarrow> Some s
    | Some (JStr (_ # c # _)) \<Rightarrow> Some [c]
    | Some (JObj ps) \<Rightarrow> (case map_of ps ''1'' of Some (JStr s) \<Rightarrow> Some s | _ \<Rightarrow> None)
    | _ \<Rightarrow> None)"

definition trim_slashes :: "string \<Rightarrow> string" where
  "trim_slashes p = rev (dropWhile (\<lambda>c. c = CHR ''/'') (rev p))"

definition evidence_scope :: "(string \<Rightarrow> Url option) \<Rightarrow> RecoveryEvidence \<Rightarrow> string option \<Rightarrow> string option res" where
  "evidence_scope url ev apiUrl =
    (case truthy apiUrl of
       Some a \<Rightarrow> (case url a of None \<Rightarrow> fail ''Invalid URL''
          | Some u \<Rightarrow> ok (Some (url_href (u \<lparr> url_pathname := trim_slashes (url_pathname u) @ ''/'' \<rparr>))))
     | None \<Rightarrow> ok (case List.find (\<lambda>p. key_scope (pb_key p) \<noteq> None) (rv_publications ev) of
          None \<Rightarrow> None | Some p \<Rightarrow> key_scope (pb_key p)))"

definition evidence_objects :: "RecoveryEvidence \<Rightarrow> (PublicationKind \<times> string \<times> string) list" where
  "evidence_objects ev =
    map (\<lambda>c. (PkComment, pc_id c, pc_body c)) (sn_comments (rv_snapshot ev))
    @ map (\<lambda>c. (PkChange, int_str (nc_number c), nc_body c)) (rv_changes ev)
    @ map (\<lambda>r. (PkReview, nr_id r, nr_body r)) (rv_reviews ev)"

definition markedObjectKeys :: "(string \<Rightarrow> Url option) \<Rightarrow> RecoveryEvidence \<Rightarrow> string option \<Rightarrow> string list res" where
  "markedObjectKeys url ev apiUrl =
    bindR (evidence_scope url ev apiUrl) (\<lambda>scope.
      (let ref = sn_ref (rv_snapshot ev);
           published = map pb_key (rv_publications ev)
       in ok (sort (uniq (published @ (case truthy scope of None \<Rightarrow> []
            | Some sc \<Rightarrow>
                map (\<lambda>(k, i, body). object_key ref sc k i)
                  (filter (\<lambda>(k, i, body). parsePublication body \<noteq> PUnmarked) (evidence_objects ev))
                @ (case rv_migration ev of None \<Rightarrow> []
                   | Some m \<Rightarrow> map (object_key ref sc PkReview) (mg_baselineReviews (rm_receipt m)))))))))"

section \<open>Paths of publications\<close>

definition resultPublicationKind :: "ResultContract option \<Rightarrow> bool \<Rightarrow> PublicationKind option" where
  "resultPublicationKind r migrated =
    (if r = Some RDocumentation then Some PkDocumentation
     else if migrated \<and> r = Some RDevelopment then Some PkComment
     else if r \<in> {Some RAssessment, Some RPlan, Some RDiagnostic, Some RVerification} then Some PkComment
     else if r = Some RDevelopment then Some PkChange
     else if r = Some RReview then Some PkReview else None)"

definition success_events :: "FlowEventType list" where
  "success_events = [AgentSucceeded, ReviewApproved, HumanApproved, ChangeRequestMerged]"

text \<open>The publication that a successful event of a state leaves, and the state it leads to.\<close>

definition success_edge :: "FlowDefinition \<Rightarrow> bool \<Rightarrow> string \<Rightarrow> FlowEventType \<Rightarrow> (string \<times> PublicationKind option) option" where
  "success_edge f migrated s e =
    (case state_of f s of None \<Rightarrow> None
     | Some st \<Rightarrow> (case map_of (fs_on st) (event_name e) of None \<Rightarrow> None
        | Some t \<Rightarrow> if ft_target t = ''$resume'' then None
            else Some (ft_target t, if e = AgentSucceeded then resultPublicationKind (fs_resultContract st) migrated
                   else if e = ReviewApproved then Some PkReview else None)))"

definition add_kind :: "PublicationKind option \<Rightarrow> PublicationKind list \<Rightarrow> PublicationKind list" where
  "add_kind p ks = (case p of None \<Rightarrow> ks | Some k \<Rightarrow> ks @ [k])"

type_synonym path_item = "string \<times> PublicationKind list \<times> string list"

definition path_children :: "FlowDefinition \<Rightarrow> bool \<Rightarrow> path_item \<Rightarrow> path_item list" where
  "path_children f migrated = (\<lambda>(s, ks, visited).
    if state_of f s = None then []
    else List.map_filter (\<lambda>e. map_option (\<lambda>(t, p). (t, add_kind p ks, s # visited)) (success_edge f migrated s e))
      success_events)"

definition path_weight :: "FlowDefinition \<Rightarrow> path_item \<Rightarrow> nat" where
  "path_weight f = (\<lambda>(s, ks, visited). 5 ^ card (set (map fst (fd_states f)) - set visited))"

lemma state_of_dom: "state_of f s = Some st \<Longrightarrow> s \<in> set (map fst (fd_states f))"
  unfolding state_of_def by (metis fst_conv image_eqI list.set_map map_of_SomeD)

lemma sum_list_map_filter_le:
  "(\<And>x y. h x = Some y \<Longrightarrow> w y \<le> (b::nat)) \<Longrightarrow> sum_list (map w (List.map_filter h xs)) \<le> length xs * b"
  by (induction xs) (auto simp: List.map_filter_simps add_mono split: option.splits)

lemma path_children_weight:
  assumes "s \<notin> set visited"
  shows "sum_list (map (path_weight f) (path_children f migrated (s, ks, visited))) < path_weight f (s, ks, visited)"
proof (cases "state_of f s")
  case None
  then show ?thesis by (simp add: path_children_def path_weight_def)
next
  case (Some st)
  let ?D = "set (map fst (fd_states f))"
  have d: "card (?D - set visited) = Suc (card (?D - set (s # visited)))"
  proof -
    have "?D - set (s # visited) = ?D - set visited - {s}" by auto
    moreover have "s \<in> ?D - set visited" using state_of_dom [OF Some] assms by simp
    ultimately show ?thesis using card.remove [of "?D - set visited" s] by simp
  qed
  have "sum_list (map (path_weight f) (path_children f migrated (s, ks, visited))) \<le> length success_events * 5 ^ card (?D - set (s # visited))"
    unfolding path_children_def using Some by (auto intro!: sum_list_map_filter_le simp: path_weight_def)
  also have "\<dots> < 5 ^ Suc (card (?D - set (s # visited)))" by (simp add: success_events_def)
  also have "\<dots> = path_weight f (s, ks, visited)" by (simp only: path_weight_def prod.case d)
  finally show ?thesis .
qed

text \<open>The breadth-first search: the kinds of every way to reach the target that repeats no state.\<close>

function path_search :: "FlowDefinition \<Rightarrow> bool \<Rightarrow> string \<Rightarrow> path_item list \<Rightarrow> PublicationKind list list" where
  "path_search f migrated target [] = []"
| "path_search f migrated target ((s, ks, visited) # queue) =
    (if s = target then ks # path_search f migrated target queue
     else if s \<in> set visited then path_search f migrated target queue
     else path_search f migrated target (queue @ path_children f migrated (s, ks, visited)))"
  by pat_completeness auto
termination
  by (relation "measure (\<lambda>(f, m, t, q). sum_list (map (path_weight f) q))")
    (simp_all add: path_children_weight, simp_all add: path_weight_def)

definition entryStage :: "FlowDefinition \<Rightarrow> string option \<Rightarrow> string res" where
  "entryStage f label =
    (case truthy label of None \<Rightarrow> ok (fd_initial f)
     | Some l \<Rightarrow> if l = fd_activationLabel f then ok (fd_initial f)
         else (case map_of (fd_activationRoutes f) l of
             Some stage \<Rightarrow> if stage = [] then fail ''activation route is not configured in the pinned flow'' else ok stage
           | None \<Rightarrow> fail ''activation route is not configured in the pinned flow''))"

definition successfulPublicationPath ::
  "FlowDefinition \<Rightarrow> string \<Rightarrow> string option \<Rightarrow> string option \<Rightarrow> PublicationKind list option res" where
  "successfulPublicationPath f target label start =
    bindR (case start of Some s \<Rightarrow> ok s | None \<Rightarrow> entryStage f label) (\<lambda>s.
      ok (case path_search f (truthy start \<noteq> None) target [(s, [], [])] of [m] \<Rightarrow> Some m | _ \<Rightarrow> None))"


section \<open>The stage of a ticket\<close>

fun filterR :: "('a \<Rightarrow> bool res) \<Rightarrow> 'a list \<Rightarrow> 'a list res" where
  "filterR p [] = ok []"
| "filterR p (x # xs) = bindR (p x) (\<lambda>b. bindR (filterR p xs) (\<lambda>ys. ok (if b then x # ys else ys)))"

definition providerStage :: "ProviderTicketSnapshot \<Rightarrow> FlowDefinition \<Rightarrow> string res" where
  "providerStage sn f =
    (case stageLabels (sn_labels sn) of
       [l] \<Rightarrow> (let stage = drop (length ''agent-stage:'') l in
          if stage \<noteq> ''awaiting-merge'' then ok stage
          else bindR (filterR (\<lambda>i. if i = stage \<or> i = ''bug-awaiting-merge''
                   then bindR (successfulPublicationPath f i (av_label (sn_activation sn)) None) (\<lambda>m. ok (m \<noteq> None))
                   else ok False) (map fst (fd_states f))) (\<lambda>candidates.
            (case candidates of [c] \<Rightarrow> ok c
             | _ \<Rightarrow> fail ''shared merge-wait stage has ambiguous activation context'')))
     | _ \<Rightarrow> fail ''provider stage is missing or contradictory'')"

definition currentActivationEvidence :: "RecoveryEvidence \<Rightarrow> RecoveryEvidence" where
  "currentActivationEvidence ev =
    (let a = sn_activation (rv_snapshot ev) in
     (case av_occurredAt a of None \<Rightarrow> ev
      | Some occurredAt \<Rightarrow>
         if \<not> av_present a then ev
         else (case date_parse occurredAt of
            None \<Rightarrow> ev \<lparr> rv_ambiguities := rv_ambiguities ev @ [''activation time is invalid''] \<rparr>
          | Some boundary \<Rightarrow> ev \<lparr> rv_publications := filter (\<lambda>p.
              (case date_parse (pb_createdAt p) of None \<Rightarrow> True | Some t \<Rightarrow> t \<ge> boundary)) (rv_publications ev) \<rparr>)))"

definition isMissingLocalResume :: "RecoveryDecision \<Rightarrow> ProviderTicketSnapshot \<Rightarrow> ControlState \<Rightarrow> bool" where
  "isMissingLocalResume d sn control \<longleftrightarrow>
    rd_kind d = RAmbiguous \<and> cs_stateId control \<in> {''blocked'', ''needs-human''} \<and> cs_resumeStateId control \<noteq> None \<and>
    (let stages = map (drop (length ''agent-stage:'')) (stageLabels (sn_labels sn)) in
     (rd_reason d = Some (cs_stateId control @ '' resume target is unavailable'') \<and> stages = [cs_stateId control])
     \<or> (rd_reason d = Some ''provider stage is missing or contradictory'' \<and> stages = []))"

definition hasValidLocalResume :: "FlowDefinition \<Rightarrow> ControlState \<Rightarrow> bool" where
  "hasValidLocalResume f control =
    (case (state_of f (cs_stateId control), truthy (cs_resumeStateId control)) of
       (Some paused, Some r) \<Rightarrow>
         fs_kind paused = KPaused \<and> list_ex (\<lambda>(e, t). ft_target t = ''$resume'') (fs_on paused)
         \<and> opt_is (\<lambda>st. fs_kind st \<in> {KAgent, KHumanGate} \<and> truthy (fs_agent st) \<noteq> None
               \<and> fs_resultContract st \<noteq> None) (state_of f r)
     | _ \<Rightarrow> False)"

definition freshReviewTarget :: "FlowDefinition \<Rightarrow> string \<Rightarrow> RecoveryEvidence \<Rightarrow> string \<Rightarrow> string option" where
  "freshReviewTarget f stage ev controllerId =
    (let ref = sn_ref (rv_snapshot ev) in
     (case (state_of f stage, sn_changeRequest (rv_snapshot ev)) of
        (Some st, Some change) \<Rightarrow>
          if fs_kind st \<noteq> KProviderWait \<or> nc_state change \<noteq> CsOpen then None
          else (let approved = list_ex (\<lambda>r. nr_verdict r = VApproved \<and> nr_headSha r = nc_headSha change
                     \<and> list_ex (\<lambda>p. eligible p \<and> controllerOf p = controllerId
                          \<and> hasPublicationIdentity (pb_key p) ref PkReview (nr_id r)) (rv_publications ev)) (rv_reviews ev);
                    target = truthy (map_option ft_target (map_of (fs_on st) (event_name ChangeRequestUpdated)))
                in if approved then None
                   else (case target of None \<Rightarrow> None
                     | Some t \<Rightarrow> if opt_is (\<lambda>x. fs_resultContract x = Some RReview) (state_of f t) then Some t else None))
      | _ \<Rightarrow> None))"

section \<open>What the search finds\<close>

text \<open>
  A way to reach the target: the events of its edges. It stops at the target, visits no state twice, and
  leaves the publications of its edges in order.
\<close>

fun walk :: "FlowDefinition \<Rightarrow> bool \<Rightarrow> string \<Rightarrow> string list \<Rightarrow> string \<Rightarrow> FlowEventType list \<Rightarrow> PublicationKind list option" where
  "walk f migrated target visited s [] = (if s = target then Some [] else None)"
| "walk f migrated target visited s (e # es) =
    (if s = target \<or> s \<in> set visited \<or> e \<notin> set success_events then None
     else (case success_edge f migrated s e of None \<Rightarrow> None
       | Some (t, p) \<Rightarrow> map_option (\<lambda>ks. add_kind p [] @ ks) (walk f migrated target (s # visited) t es)))"

function walks :: "FlowDefinition \<Rightarrow> bool \<Rightarrow> string \<Rightarrow> string list \<Rightarrow> string \<Rightarrow> FlowEventType list list" where
  "walks f migrated target visited s =
    (if s = target then [[]]
     else if s \<in> set visited \<or> state_of f s = None then []
     else concat (map (\<lambda>e. case success_edge f migrated s e of None \<Rightarrow> []
             | Some (t, p) \<Rightarrow> map ((#) e) (walks f migrated target (s # visited) t)) success_events))"
  by pat_completeness auto
termination
proof (relation "measure (\<lambda>(f, m, t, v, s). card (set (map fst (fd_states f)) - set v))", simp, clarsimp)
  fix f :: FlowDefinition and v s st
  assume a: "s \<notin> set v" "state_of f s = Some st"
  let ?D = "set (map fst (fd_states f))"
  have "?D - insert s (set v) \<subset> ?D - set v" using state_of_dom [OF a(2)] a(1) by auto
  then show "card (fst ` set (fd_states f) - insert s (set v)) < card (fst ` set (fd_states f) - set v)"
    by (simp add: psubset_card_mono)
qed

declare walks.simps [simp del]


lemma walks_target: "walks f m s v s = [[]]"
  by (simp add: walks.simps)

lemma walks_dead: "s \<noteq> t \<Longrightarrow> s \<in> set v \<or> state_of f s = None \<Longrightarrow> walks f m t v s = []"
  by (subst walks.simps) simp

lemma walks_open:
  "s \<noteq> t \<Longrightarrow> s \<notin> set v \<Longrightarrow> state_of f s \<noteq> None \<Longrightarrow> walks f m t v s =
    concat (map (\<lambda>e. case success_edge f m s e of None \<Rightarrow> [] | Some (u, p) \<Rightarrow> map ((#) e) (walks f m t (s # v) u)) success_events)"
  by (subst walks.simps) auto

lemma walks_edge:
  "es' \<in> set (case success_edge f m s e' of None \<Rightarrow> [] | Some (u, p) \<Rightarrow> map ((#) e') (walks f m t v' u)) \<longleftrightarrow>
    (\<exists>u p es. success_edge f m s e' = Some (u, p) \<and> es' = e' # es \<and> es \<in> set (walks f m t v' u))"
  by (cases "success_edge f m s e'") auto

lemma success_edge_state: "success_edge f m s e = Some x \<Longrightarrow> state_of f s \<noteq> None"
  by (auto simp: success_edge_def split: option.splits)

lemma walks_iff: "es \<in> set (walks f m t v s) \<longleftrightarrow> walk f m t v s es \<noteq> None"
proof (induction es arbitrary: v s)
  case Nil
  show ?case
  proof (cases "s = t")
    case False
    have "[] \<notin> set (walks f m t v s)"
      by (subst walks.simps) (auto simp: False split: option.splits)
    then show ?thesis using False by simp
  qed (simp add: walks_target)
next
  case (Cons e es)
  consider "s = t" | "s \<noteq> t" "s \<in> set v \<or> state_of f s = None" | "s \<noteq> t" "s \<notin> set v" "state_of f s \<noteq> None" by blast
  then show ?case
  proof cases
    case 1
    then show ?thesis by (simp add: walks_target)
  next
    case 2
    then show ?thesis using success_edge_state [of f m s e]
      by (auto simp: walks_dead split: option.splits)
  next
    case 3
    have "e # es \<in> set (walks f m t v s) \<longleftrightarrow> e \<in> set success_events \<and>
        (\<exists>u p. success_edge f m s e = Some (u, p) \<and> es \<in> set (walks f m t (s # v) u))"
      unfolding walks_open [OF 3] set_concat set_map UN_iff image_iff bex_simps walks_edge by blast
    then show ?thesis using 3 Cons.IH by (auto split: option.splits)
  qed
qed

lemma distinct_concat_heads:
  assumes "\<And>e. e \<in> set es \<Longrightarrow> distinct (g e)" "\<And>e x. x \<in> set (g e) \<Longrightarrow> \<exists>y. x = e # y" "distinct es"
  shows "distinct (concat (map g es))"
  using assms(1,3)
proof (induction es)
  case (Cons e es)
  have "set (g e) \<inter> set (concat (map g es)) = {}"
  proof (rule ccontr)
    assume "set (g e) \<inter> set (concat (map g es)) \<noteq> {}"
    then obtain x e' where x: "x \<in> set (g e)" "e' \<in> set es" "x \<in> set (g e')" by auto
    then have "e = e'" using assms(2) [of x e] assms(2) [of x e'] by auto
    then show False using x(2) Cons.prems(2) by simp
  qed
  then show ?case using Cons by simp
qed simp

lemma distinct_walks: "distinct (walks f m t v s)"
proof (induction f m t v s rule: walks.induct)
  case (1 f m t v s)
  show ?case
  proof (cases "s = t \<or> s \<in> set v \<or> state_of f s = None")
    case True
    then show ?thesis by (cases "s = t") (auto simp: walks_target walks_dead)
  next
    case False
    then have o': "s \<noteq> t" "s \<notin> set v" "state_of f s \<noteq> None" by blast+
    have IH: "distinct (walks f m t (s # v) u)"
      if "e \<in> set success_events" "success_edge f m s e = Some (u, p)" for e u p
      by (rule 1 [OF o'(1) _ that refl]) (use o' in blast)
    have d: "distinct (case success_edge f m s e of None \<Rightarrow> [] | Some (u, p) \<Rightarrow> map ((#) e) (walks f m t (s # v) u))"
      if "e \<in> set success_events" for e
    proof (cases "success_edge f m s e")
      case (Some x)
      obtain u p where x: "x = (u, p)" by (cases x)
      have "distinct (walks f m t (s # v) u)" using IH [OF that] Some x by blast
      then show ?thesis by (simp add: Some x distinct_map)
    qed simp
    show ?thesis unfolding walks_open [OF o']
    proof (rule distinct_concat_heads)
      show "distinct success_events" by (simp add: success_events_def)
      show "\<exists>y. es' = e # y"
        if "es' \<in> set (case success_edge f m s e of None \<Rightarrow> [] | Some (u, p) \<Rightarrow> map ((#) e) (walks f m t (s # v) u))" for e es'
        using that unfolding walks_edge by blast
    qed (rule d)
  qed
qed


text \<open>The search finds every way to the target once, with its publications.\<close>

definition found :: "FlowDefinition \<Rightarrow> bool \<Rightarrow> string \<Rightarrow> path_item \<Rightarrow> PublicationKind list list" where
  "found f m t = (\<lambda>(s, ks, v). map (\<lambda>es. ks @ the (walk f m t v s es)) (walks f m t v s))"

lemma add_kind_append: "add_kind p ks = ks @ add_kind p []"
  by (simp add: add_kind_def split: option.splits)

lemma found_edge:
  assumes "s \<noteq> t" "s \<notin> set v" "e \<in> set success_events" "success_edge f m s e = Some (u, p)"
  shows "map (\<lambda>es. ks @ the (walk f m t v s es)) (map ((#) e) (walks f m t (s # v) u)) = found f m t (u, add_kind p ks, s # v)"
proof -
  have "ks @ the (walk f m t v s (e # es)) = add_kind p ks @ the (walk f m t (s # v) u es)"
    if es: "es \<in> set (walks f m t (s # v) u)" for es
  proof -
    obtain k where "walk f m t (s # v) u es = Some k" using es walks_iff by blast
    then show ?thesis using assms add_kind_append [of p ks] by simp
  qed
  then show ?thesis by (simp add: found_def)
qed

lemma found_children:
  assumes "s \<noteq> t" "s \<notin> set v"
  shows "concat (map (found f m t) (path_children f m (s, ks, v))) = found f m t (s, ks, v)"
proof (cases "state_of f s")
  case None
  then show ?thesis using assms by (simp add: path_children_def found_def walks_dead)
next
  case (Some st)
  let ?g = "\<lambda>e. case success_edge f m s e of None \<Rightarrow> [] | Some (u, p) \<Rightarrow> map ((#) e) (walks f m t (s # v) u)"
  let ?w = "\<lambda>es. ks @ the (walk f m t v s es)"
  let ?h = "\<lambda>e. map_option (\<lambda>(u, p). (u, add_kind p ks, s # v)) (success_edge f m s e)"
  have "concat (map (found f m t) (List.map_filter ?h es)) = map ?w (concat (map ?g es))"
    if "set es \<subseteq> set success_events" for es
    using that
  proof (induction es)
    case (Cons e es)
    have e: "e \<in> set success_events" using Cons.prems by simp
    have IH: "concat (map (found f m t) (List.map_filter ?h es)) = map ?w (concat (map ?g es))" using Cons by simp
    show ?case
    proof (cases "success_edge f m s e")
      case None
      then show ?thesis using IH by (simp add: List.map_filter_simps)
    next
      case (Some x)
      obtain u p where x: "x = (u, p)" by (cases x)
      have "map ?w (?g e) = found f m t (u, add_kind p ks, s # v)"
        using found_edge [OF assms e, of f m u p ks] Some x by simp
      then show ?thesis using IH Some x by (simp add: List.map_filter_simps)
    qed
  qed (simp add: List.map_filter_simps)
  from this [of success_events] show ?thesis
    using Some assms by (simp add: path_children_def found_def walks_open)
qed

lemma path_search_found:
  "mset (path_search f m t q) = mset (concat (map (found f m t) q))"
proof (induction f m t q rule: path_search.induct)
  case (2 f m t s ks v q)
  consider "s = t" | "s \<noteq> t" "s \<in> set v" | "s \<noteq> t" "s \<notin> set v" by blast
  then show ?case
  proof cases
    case 1
    then show ?thesis using 2 by (simp add: found_def walks_target)
  next
    case dead: 2
    show ?thesis using 2 dead by (simp add: found_def walks_dead)
  next
    case 3
    have "mset (path_search f m t ((s, ks, v) # q)) = mset (concat (map (found f m t) (q @ path_children f m (s, ks, v))))"
      using 2(3) [OF 3] 3 by simp
    also have "\<dots> = mset (concat (map (found f m t) ((s, ks, v) # q)))"
      using found_children [OF 3, of f m ks] by (simp del: mset_concat)
    finally show ?thesis .
  qed
qed simp

lemma distinct_one:
  assumes "distinct xs" "set xs = {x}"
  shows "xs = [x]"
proof (cases xs)
  case (Cons y ys)
  then have "y = x" "set ys \<subseteq> {x}" "x \<notin> set ys" using assms by auto
  then have "ys = []" by (cases ys) auto
  then show ?thesis using Cons \<open>y = x\<close> by simp
qed (use assms in simp)

lemma path_search_unique:
  "(case path_search f m t [(s, [], [])] of [x] \<Rightarrow> Some x | _ \<Rightarrow> None) = Some ks \<longleftrightarrow>
    (\<exists>es. walk f m t [] s es = Some ks \<and> (\<forall>es'. walk f m t [] s es' \<noteq> None \<longrightarrow> es' = es))"
proof -
  let ?ws = "walks f m t [] s"
  have ms: "mset (path_search f m t [(s, [], [])]) = mset (map (\<lambda>es. the (walk f m t [] s es)) ?ws)"
    using path_search_found [of f m t "[(s, [], [])]"] by (simp add: found_def)
  have "(case path_search f m t [(s, [], [])] of [x] \<Rightarrow> Some x | _ \<Rightarrow> None) = Some ks \<longleftrightarrow>
      path_search f m t [(s, [], [])] = [ks]" by (simp split: list.splits)
  also have "\<dots> \<longleftrightarrow> mset (map (\<lambda>es. the (walk f m t [] s es)) ?ws) = {#ks#}"
    unfolding ms [symmetric] by (metis mset_single_iff mset_single_iff_right)
  also have "\<dots> \<longleftrightarrow> (\<exists>es. ?ws = [es] \<and> the (walk f m t [] s es) = ks)"
    by (auto simp: map_eq_Cons_conv simp flip: mset_map)
  also have "\<dots> \<longleftrightarrow> (\<exists>es. walk f m t [] s es = Some ks \<and> (\<forall>es'. walk f m t [] s es' \<noteq> None \<longrightarrow> es' = es))"
  proof
    assume "\<exists>es. ?ws = [es] \<and> the (walk f m t [] s es) = ks"
    then obtain es where es: "?ws = [es]" "the (walk f m t [] s es) = ks" by blast
    have "walk f m t [] s es' \<noteq> None \<longleftrightarrow> es' = es" for es' using walks_iff [of es' f m t "[]" s] es(1) by simp
    then show "\<exists>es. walk f m t [] s es = Some ks \<and> (\<forall>es'. walk f m t [] s es' \<noteq> None \<longrightarrow> es' = es)" using es(2) by force
  next
    assume "\<exists>es. walk f m t [] s es = Some ks \<and> (\<forall>es'. walk f m t [] s es' \<noteq> None \<longrightarrow> es' = es)"
    then obtain es where es: "walk f m t [] s es = Some ks" "\<And>es'. walk f m t [] s es' \<noteq> None \<Longrightarrow> es' = es" by blast
    have "es' \<in> set ?ws \<longleftrightarrow> es' = es" for es' using es walks_iff [of es' f m t "[]" s] by auto
    then have "set ?ws = {es}" by blast
    then have "?ws = [es]" by (rule distinct_one [OF distinct_walks])
    then show "\<exists>es. ?ws = [es] \<and> the (walk f m t [] s es) = ks" using es(1) by simp
  qed
  finally show ?thesis .
qed


section \<open>Properties\<close>

text \<open>
  C13: the path by which a stage is reconstructed is found exactly when one and only one sequence of
  successful events leads from the start to the stage without repeating a state, and it then lists the
  publications of those events in order; no path is reported when there is none or more than one.
\<close>

theorem publication_path_unique:
  "successfulPublicationPath f target label start = ok (Some ks) \<longleftrightarrow>
    (\<exists>s. (case start of Some x \<Rightarrow> ok x | None \<Rightarrow> entryStage f label) = ok s \<and>
      (\<exists>es. walk f (truthy start \<noteq> None) target [] s es = Some ks \<and>
         (\<forall>es'. walk f (truthy start \<noteq> None) target [] s es' \<noteq> None \<longrightarrow> es' = es)))"
proof -
  have "successfulPublicationPath f target label start = ok (Some ks) \<longleftrightarrow>
    (\<exists>s. (case start of Some x \<Rightarrow> ok x | None \<Rightarrow> entryStage f label) = ok s \<and>
      (case path_search f (truthy start \<noteq> None) target [(s, [], [])] of [x] \<Rightarrow> Some x | _ \<Rightarrow> None) = Some ks)"
    by (simp add: successfulPublicationPath_def)
  then show ?thesis unfolding path_search_unique .
qed

theorem publication_path_unique_witness:
  "successfulPublicationPath sample_flow ''done'' None None = ok (Some [PkChange]) \<and>
    (\<exists>es. walk sample_flow False ''done'' [] ''develop'' es = Some [PkChange] \<and>
       (\<forall>es'. walk sample_flow False ''done'' [] ''develop'' es' \<noteq> None \<longrightarrow> es' = es))"
proof -
  have e: "entryStage sample_flow None = ok ''develop''" by code_simp
  have "successfulPublicationPath sample_flow ''done'' None None = ok (Some [PkChange])" by code_simp
  moreover note this [unfolded publication_path_unique]
  ultimately show ?thesis using e by (auto simp: truthy_def)
qed

end
