(* ===== verification/RecoveryIteration.thy ===== *)
theory RecoveryIteration
  imports PublicationPath "HOL-Library.Sublist"
begin

text \<open>
  recoveryIteration of src/runtime/reconcile.ts: the reconstruction of the work that a controller without
  local state finds on a ticket. From the ordered publications of the owner it retires every completed
  iteration (failed CI runs, verification of earlier heads, rejected rework, answered gates, superseded
  completions) and compares what is left with the publications that the pinned flow leaves on its way to
  the provider stage. Each phase is a definition of its own, in the order of the code. Provider times are
  compared as date_parse reads them.
\<close>

section \<open>Loops\<close>

datatype ('a, 'b) loop_step = Stop 'b | Again 'a

fun loopM :: "nat \<Rightarrow> ('a \<Rightarrow> ('s, ('a, 'b) loop_step) io) \<Rightarrow> 'a \<Rightarrow> ('s, 'b) io" where
  "loopM 0 step a = failM ''loop bound exceeded''"
| "loopM (Suc n) step a = bindM (step a) (\<lambda>r. case r of Stop b \<Rightarrow> retM b | Again a' \<Rightarrow> loopM n step a')"

text \<open>A loop whose body decreases a measure runs at most once more than the measure.\<close>

definition whileM :: "('a \<Rightarrow> nat) \<Rightarrow> ('a \<Rightarrow> ('s, ('a, 'b) loop_step) io) \<Rightarrow> 'a \<Rightarrow> ('s, 'b) io" where
  "whileM \<mu> step a = loopM (Suc (\<mu> a)) step a"

definition decreases :: "('a \<Rightarrow> nat) \<Rightarrow> ('a \<Rightarrow> ('s, ('a, 'b) loop_step) io) \<Rightarrow> bool" where
  "decreases \<mu> step \<longleftrightarrow> (\<forall>a s a' s'. step a s = (Inr (Again a'), s') \<longrightarrow> \<mu> a' < \<mu> a)"

lemma decreasesD: "decreases \<mu> step \<Longrightarrow> step a s = (Inr (Again a'), s') \<Longrightarrow> \<mu> a' < \<mu> a"
  unfolding decreases_def by blast

lemma loopM_enough:
  assumes "decreases \<mu> step" "\<mu> a < m" "\<mu> a < n"
  shows "loopM m step a s = loopM n step a s"
  using assms(2,3)
proof (induction m arbitrary: n a s)
  case (Suc m)
  from Suc.prems obtain k where k: "n = Suc k" by (cases n) auto
  show ?case
  proof (cases "step a s")
    case (Pair r s')
    have "loopM m step a' s' = loopM k step a' s'" if "r = Inr (Again a')" for a'
    proof (rule Suc.IH)
      show "\<mu> a' < m" "\<mu> a' < k"
        using decreasesD [OF assms(1), of a s a' s'] Pair that Suc.prems k by simp_all
    qed
    then show ?thesis using Pair k by (auto simp: bindM_def split: sum.splits loop_step.splits)
  qed
qed simp

lemma whileM_unfold:
  assumes "decreases \<mu> step"
  shows "whileM \<mu> step a = bindM (step a) (\<lambda>r. case r of Stop b \<Rightarrow> retM b | Again a' \<Rightarrow> whileM \<mu> step a')"
proof
  fix s
  obtain r s' where r: "step a s = (r, s')" by fastforce
  have "loopM (\<mu> a) step a' s' = whileM \<mu> step a' s'" if "r = Inr (Again a')" for a'
    using loopM_enough [OF assms, of a' "\<mu> a" "Suc (\<mu> a')"] decreasesD [OF assms, of a s a' s'] r that
    by (simp add: whileM_def)
  then show "whileM \<mu> step a s = bindM (step a) (\<lambda>r. case r of Stop b \<Rightarrow> retM b | Again a' \<Rightarrow> whileM \<mu> step a') s"
    using r by (auto simp: whileM_def bindM_def split: sum.splits loop_step.splits)
qed

text \<open>A property of the state that the body keeps holds when the loop stops.\<close>

lemma loopM_invariant:
  assumes "loopM n step a s = (Inr b, s')" "P a"
    "\<And>a s a' s'. P a \<Longrightarrow> step a s = (Inr (Again a'), s') \<Longrightarrow> P a'"
    "\<And>a s b s'. P a \<Longrightarrow> step a s = (Inr (Stop b), s') \<Longrightarrow> Q b"
  shows "Q b"
  using assms(1,2)
proof (induction n arbitrary: a s)
  case (Suc n)
  from Suc.prems(1) obtain r s1 where r: "step a s = (Inr r, s1)"
    "(case r of Stop x \<Rightarrow> retM x | Again a' \<Rightarrow> loopM n step a') s1 = (Inr b, s')" by (auto simp: run_iff)
  show ?case
  proof (cases r)
    case (Stop x)
    then show ?thesis using r assms(4) [OF Suc.prems(2)] by (auto simp: run_iff)
  next
    case (Again a')
    then show ?thesis using r Suc.IH [of a' s1] assms(3) [OF Suc.prems(2)] by simp
  qed
qed (simp add: run_iff)

fun foldM :: "('b \<Rightarrow> 'a \<Rightarrow> ('s, 'a) io) \<Rightarrow> 'b list \<Rightarrow> 'a \<Rightarrow> ('s, 'a) io" where
  "foldM f [] a = retM a"
| "foldM f (x # xs) a = bindM (f x a) (foldM f xs)"

text \<open>All of a list of operations run; the first error among their results is thrown.\<close>

fun promiseAll :: "('s, 'a) io list \<Rightarrow> ('s, 'a list) io" where
  "promiseAll [] = retM []"
| "promiseAll (m # ms) = (\<lambda>s. case m s of (r, s1) \<Rightarrow> (case promiseAll ms s1 of (rs, s2) \<Rightarrow>
     (bindR r (\<lambda>x. bindR rs (\<lambda>xs. ok (x # xs))), s2)))"


section \<open>Reading the evidence\<close>

datatype RecoveryIteration =
    IterReady "string list" "string option" "string option"
  | IterAmbiguous "string list" string

definition ev_ref :: "RecoveryEvidence \<Rightarrow> TicketRef" where
  "ev_ref ev = sn_ref (rv_snapshot ev)"

definition comment_for :: "RecoveryEvidence \<Rightarrow> string \<Rightarrow> ProviderComment option" where
  "comment_for ev key = List.find (\<lambda>c. hasPublicationIdentity key (ev_ref ev) PkComment (pc_id c)) (sn_comments (rv_snapshot ev))"

definition review_for :: "RecoveryEvidence \<Rightarrow> string \<Rightarrow> NormalizedReview option" where
  "review_for ev key = List.find (\<lambda>r. hasPublicationIdentity key (ev_ref ev) PkReview (nr_id r)) (rv_reviews ev)"

definition recoveryKind :: "RecoveryEvidence \<Rightarrow> string \<Rightarrow> PublicationKind option" where
  "recoveryKind ev key =
    (let kind = publicationObjectKind key (ev_ref ev) in
     if kind \<noteq> Some PkComment then kind
     else if opt_is (\<lambda>c. parseDocumentation (pc_body c) \<noteq> None) (comment_for ev key) then Some PkDocumentation else kind)"

definition pub_kind :: "RecoveryEvidence \<Rightarrow> Publication \<Rightarrow> PublicationKind option" where
  "pub_kind ev p = recoveryKind ev (pb_key p)"

definition ev_path :: "FlowDefinition \<Rightarrow> RecoveryEvidence \<Rightarrow> string \<Rightarrow> string option \<Rightarrow> PublicationKind list option res" where
  "ev_path f ev target start = successfulPublicationPath f target (av_label (sn_activation (rv_snapshot ev))) start"

text \<open>The target of a transition of a state; an empty target counts as none.\<close>

definition edge_target :: "FlowDefinition \<Rightarrow> string \<Rightarrow> FlowEventType \<Rightarrow> string option" where
  "edge_target f s e = map_option ft_target (transition_of f s e)"

definition kind_is :: "FlowDefinition \<Rightarrow> string \<Rightarrow> StateKind \<Rightarrow> bool" where
  "kind_is f s k \<longleftrightarrow> map_option fs_kind (state_of f s) = Some k"

definition contract_is :: "FlowDefinition \<Rightarrow> string \<Rightarrow> ResultContract \<Rightarrow> bool" where
  "contract_is f s c \<longleftrightarrow> opt_is (\<lambda>st. fs_resultContract st = Some c) (state_of f s)"

definition retained_keys :: "RecoveredMigration \<Rightarrow> string list" where
  "retained_keys m = map fst (mg_retained (rm_receipt m))"

definition startsWithKinds :: "RecoveryEvidence \<Rightarrow> PublicationKind list \<Rightarrow> Publication list \<Rightarrow> bool" where
  "startsWithKinds ev kinds active \<longleftrightarrow> length kinds \<le> length active \<and>
     map (pub_kind ev) (take (length kinds) active) = map Some kinds"

definition date_ms :: "string \<Rightarrow> int" where
  "date_ms t = opt_or (date_parse t) 0"

definition in_time_order :: "'s Deps \<Rightarrow> Publication list \<Rightarrow> Publication list" where
  "in_time_order d = sort_key (\<lambda>p. (date_ms (pb_createdAt p), dp_collate d (pb_key p)))"

definition permittedActor :: "'s Deps \<Rightarrow> RecoveryEvidence \<Rightarrow> Actor \<Rightarrow> ('s, bool) io" where
  "permittedActor d ev a =
    bindM (callM ''provider permission read failed'' (dp_permission d (tr_repository (ev_ref ev)) a))
      (\<lambda>p. retM (authorized_permission p))"

definition permittedActors :: "'s Deps \<Rightarrow> RecoveryEvidence \<Rightarrow> Actor list \<Rightarrow> ('s, bool) io" where
  "permittedActors d ev actors =
    bindM (promiseAll (map (permittedActor d ev) actors)) (\<lambda>bs. retM (list_all id bs))"

text \<open>Whether an authorized human commented after one publication and before the next.\<close>

definition human_window :: "string \<Rightarrow> string option \<Rightarrow> ProviderComment \<Rightarrow> bool" where
  "human_window resultAt nextAt c \<longleftrightarrow> \<not> (pc_createdAt c \<le> resultAt \<or> opt_is (\<lambda>t. pc_createdAt c \<ge> t) nextAt
     \<or> isMarked (pc_body c) \<or> isMigrationCommand (pc_body c)
     \<or> includes_str (pc_body c) ''<!-- agent-flow-migration-diagnostic:'')"

fun answeredBy :: "'s Deps \<Rightarrow> RecoveryEvidence \<Rightarrow> string \<Rightarrow> string option \<Rightarrow> ProviderComment list \<Rightarrow> ('s, bool) io" where
  "answeredBy d ev resultAt nextAt [] = retM False"
| "answeredBy d ev resultAt nextAt (c # cs) =
    (if human_window resultAt nextAt c
     then bindM (permittedActor d ev (pc_actor c)) (\<lambda>b. if b then retM True else answeredBy d ev resultAt nextAt cs)
     else answeredBy d ev resultAt nextAt cs)"

section \<open>Stages that need no reconstruction\<close>

text \<open>The stage is the human gate at which a migration starts.\<close>

definition migratedGate ::
  "'s Deps \<Rightarrow> FlowDefinition \<Rightarrow> RecoveryEvidence \<Rightarrow> string \<Rightarrow> string option \<Rightarrow> string list \<Rightarrow> RecoveredMigration \<Rightarrow> RecoveryIteration" where
  "migratedGate d f ev stage ownerController baseline m =
    (let receipt = rm_receipt m;
         predecessor = filter (\<lambda>(key, st, dg). edge_target f st AgentSucceeded = Some stage) (mg_retained receipt)
     in (case predecessor of
       [(key, st, dg)] \<Rightarrow>
        (case comment_for ev key of
           None \<Rightarrow> IterAmbiguous baseline ''Migrated human gate predecessor is unavailable''
         | Some result \<Rightarrow>
            (let input = (case mg_sourceHumanInput receipt of None \<Rightarrow> None
                   | Some (i, dg) \<Rightarrow> List.find (\<lambda>c. pc_id c = i) (sn_comments (rv_snapshot ev)));
                 cutoff = (case input of Some c \<Rightarrow> if pc_createdAt c > pc_createdAt result then pc_createdAt c
                      else pc_createdAt result | None \<Rightarrow> pc_createdAt result);
                 later = in_time_order d (filter (\<lambda>p. Some (controllerOf p) = ownerController
                      \<and> pb_key p \<notin> set (retained_keys m) \<and> pub_kind ev p \<noteq> Some PkChange) (rv_publications ev))
             in if later = [] then IterReady baseline (Some cutoff) None
                else if list_ex (\<lambda>p. pub_kind ev p \<noteq> Some PkComment \<or> pb_key p \<notin> set baseline) later
                then IterAmbiguous baseline ''Migrated human gate iteration cannot be isolated''
                else IterReady (filter (\<lambda>k. k \<noteq> pb_key (last later)) baseline)
                       (Some (if length later > 1 then pb_createdAt (last (butlast later)) else cutoff)) (Some st)))
     | _ \<Rightarrow> IterAmbiguous baseline ''Migrated human gate predecessor is unavailable''))"

definition mergedIteration :: "RecoveryEvidence \<Rightarrow> string option \<Rightarrow> string list \<Rightarrow> NormalizedChangeRequest \<Rightarrow> RecoveryIteration" where
  "mergedIteration ev ownerController baseline linked =
    (let linkedPublication = list_ex (\<lambda>p. Some (controllerOf p) = ownerController
           \<and> hasPublicationIdentity (pb_key p) (ev_ref ev) PkChange (int_str (nc_number linked))) (rv_publications ev)
     in if length (rv_changes ev) \<noteq> 1 \<or> \<not> linkedPublication
        then IterAmbiguous baseline ''merged change request ownership or identity is unavailable''
        else IterReady baseline None None)"

definition settledIteration ::
  "'s Deps \<Rightarrow> FlowDefinition \<Rightarrow> RecoveryEvidence \<Rightarrow> string \<Rightarrow> string option \<Rightarrow> string list \<Rightarrow> RecoveryIteration option" where
  "settledIteration d f ev stage ownerController baseline =
    (let linked = sn_changeRequest (rv_snapshot ev) in
     (case rv_migration ev of
        Some m \<Rightarrow>
          if mg_start (rm_receipt m) = stage \<and> kind_is f stage KHumanGate
          then Some (migratedGate d f ev stage ownerController baseline m)
          else if mg_start (rm_receipt m) = stage \<and> kind_is f stage KProviderWait \<and> mg_retained (rm_receipt m) \<noteq> []
            \<and> map_option nc_headSha linked = Some (mc_headSha (mg_change (rm_receipt m)))
          then Some (IterReady baseline None None) else None
      | None \<Rightarrow> (case linked of None \<Rightarrow> None
         | Some l \<Rightarrow> if kind_is f stage KProviderWait \<and> nc_state l = CsMerged
             then Some (mergedIteration ev ownerController baseline l) else None)))"

section \<open>The publications of the active work\<close>

definition ownerPublications :: "'s Deps \<Rightarrow> RecoveryEvidence \<Rightarrow> string option \<Rightarrow> Publication list" where
  "ownerPublications d ev ownerController =
    in_time_order d (filter (\<lambda>p. \<not> (pb_ownershipEligible p = Some False \<and> pub_kind ev p = Some PkReview))
      (filter (\<lambda>p. ownerController = None \<or> Some (controllerOf p) = ownerController)
        (filter (\<lambda>p. \<not> opt_is (\<lambda>m. pb_key p \<in> set (retained_keys m)) (rv_migration ev)) (rv_publications ev))))"

definition reviewed_by :: "RecoveryEvidence \<Rightarrow> (Publication \<Rightarrow> bool) \<Rightarrow> NormalizedReview \<Rightarrow> bool" where
  "reviewed_by ev ok_pub r = list_ex (\<lambda>p. ok_pub p \<and> hasPublicationIdentity (pb_key p) (ev_ref ev) PkReview (nr_id r)) (rv_publications ev)"

text \<open>The latest rejection by the owner.\<close>

definition latestRework :: "RecoveryEvidence \<Rightarrow> string option \<Rightarrow> NormalizedReview option" where
  "latestRework ev ownerController =
    (case sort_key (\<lambda>r. - date_ms (nr_submittedAt r)) (filter (\<lambda>r. nr_verdict r = VChangesRequested
        \<and> reviewed_by ev (\<lambda>p. Some (controllerOf p) = ownerController \<and> pb_ownershipEligible p \<noteq> Some False) r) (rv_reviews ev)) of
       [] \<Rightarrow> None | r # _ \<Rightarrow> Some r)"

definition consumedReport :: "RecoveryEvidence \<Rightarrow> string option \<Rightarrow> int \<Rightarrow> NormalizedChangeRequest \<Rightarrow> Publication \<Rightarrow> bool" where
  "consumedReport ev ownerController boundary linked p =
    (case comment_for ev (pb_key p) of None \<Rightarrow> False
     | Some c \<Rightarrow> (case parseDocumentation (pc_body c) of None \<Rightarrow> False
       | Some report \<Rightarrow> dm_change report = nc_number linked \<and>
           list_ex (\<lambda>r. nr_headSha r = dm_resultHead report \<and> date_ms (nr_submittedAt r) > date_ms (pb_createdAt p)
              \<and> date_ms (nr_submittedAt r) \<le> boundary
              \<and> reviewed_by ev (\<lambda>q. Some (controllerOf q) = ownerController) r) (rv_reviews ev)))"

definition documentationRework ::
  "FlowDefinition \<Rightarrow> RecoveryEvidence \<Rightarrow> string option \<Rightarrow> Publication list \<Rightarrow> Publication list" where
  "documentationRework f ev ownerController active =
    (if rv_migration ev \<noteq> None \<or> \<not> list_ex (\<lambda>(i, st). fs_resultContract st = Some RDocumentation) (fd_states f) then active
     else (case (latestRework ev ownerController, sn_changeRequest (rv_snapshot ev)) of
       (Some rework, Some linked) \<Rightarrow>
         if nr_headSha rework = nc_headSha linked then active
         else (let boundary = date_ms (nr_submittedAt rework) in
           filter (\<lambda>p. date_ms (pb_createdAt p) > boundary
             \<or> (pub_kind ev p \<noteq> Some PkReview \<and>
                (pub_kind ev p = Some PkDocumentation \<longrightarrow> \<not> consumedReport ev ownerController boundary linked p))) active)
     | _ \<Rightarrow> active))"


section \<open>Retiring completed iterations\<close>

type_synonym replay = "Publication list \<times> string option"

definition stopM :: "'b \<Rightarrow> ('s, ('a, 'b) loop_step) io" where
  "stopM b = retM (Stop b)"

definition againM :: "'a \<Rightarrow> ('s, ('a, 'b) loop_step) io" where
  "againM a = retM (Again a)"

text \<open>The actor of the result of a publication: of an approval for a review, of the comment otherwise.\<close>

definition result_actor :: "RecoveryEvidence \<Rightarrow> PublicationKind \<times> Publication \<Rightarrow> Actor option" where
  "result_actor ev = (\<lambda>(k, p).
    if k = PkReview then (case review_for ev (pb_key p) of None \<Rightarrow> None
        | Some r \<Rightarrow> if nr_verdict r = VApproved \<and> isSha (nr_headSha r) then Some (nr_actor r) else None)
    else map_option pc_actor (comment_for ev (pb_key p)))"

definition verifiedCompletion :: "RecoveryEvidence \<Rightarrow> Publication \<Rightarrow> ProviderComment option" where
  "verifiedCompletion ev p = (case comment_for ev (pb_key p) of None \<Rightarrow> None
     | Some c \<Rightarrow> if isVerifiedBugReceipt (pc_body c) then Some c else None)"

text \<open>A failed verification run: its whole prefix of results and the diagnostic are history.\<close>

definition ciStep ::
  "'s Deps \<Rightarrow> FlowDefinition \<Rightarrow> RecoveryEvidence \<Rightarrow> string \<Rightarrow> string \<Rightarrow> string \<Rightarrow> replay \<Rightarrow> ('s, (replay, replay) loop_step) io" where
  "ciStep d f ev stage verificationId ciTarget = (\<lambda>(active, start).
    bindM (liftR (ev_path f ev verificationId start)) (\<lambda>path.
    (case path of None \<Rightarrow> stopM (active, start)
     | Some before \<Rightarrow>
      (let n = length before in
       if \<not> startsWithKinds ev before active \<or> length active \<le> n
         \<or> (stage \<noteq> ciTarget \<and> \<not> (n + 1 < length active \<and> pub_kind ev (active ! (n + 1)) = Some PkComment))
       then stopM (active, start)
       else (case verifiedCompletion ev (active ! n) of None \<Rightarrow> stopM (active, start)
         | Some completion \<Rightarrow>
          (let results = map (result_actor ev) (zip before active) in
           if None \<in> set results then stopM (active, start)
           else bindM (permittedActors d ev (map the results @ [pc_actor completion])) (\<lambda>permitted.
             if permitted then againM (drop (n + 1) active, Some ciTarget) else stopM (active, start))))))))"

definition retireFailedCi ::
  "'s Deps \<Rightarrow> FlowDefinition \<Rightarrow> RecoveryEvidence \<Rightarrow> string \<Rightarrow> replay \<Rightarrow> ('s, replay) io" where
  "retireFailedCi d f ev stage x =
    (if rv_migration ev = None \<or> fd_requiredChecks f = [] then retM x
     else foldM (\<lambda>(verificationId, verification) a.
       (case truthy (edge_target f verificationId CiFailed) of None \<Rightarrow> retM a
        | Some ciTarget \<Rightarrow>
           if fs_resultContract verification \<noteq> Some RVerification \<or> \<not> contract_is f ciTarget RDevelopment then retM a
           else whileM (\<lambda>x. length (fst x)) (ciStep d f ev stage verificationId ciTarget) a)) (fd_states f) x)"

text \<open>Verification and approval of heads before the current one.\<close>

definition verifiedHeadStep ::
  "'s Deps \<Rightarrow> RecoveryEvidence \<Rightarrow> NormalizedChangeRequest \<Rightarrow> Publication list
     \<Rightarrow> ('s, (Publication list, Publication list) loop_step) io" where
  "verifiedHeadStep d ev linked active =
    (case active of [] \<Rightarrow> stopM active
     | p # rest \<Rightarrow>
      if pub_kind ev p \<noteq> Some PkComment then stopM active
      else (case verifiedCompletion ev p of None \<Rightarrow> stopM active
        | Some completion \<Rightarrow>
          bindM (permittedActor d ev (pc_actor completion)) (\<lambda>permitted.
            if \<not> permitted then stopM active
            else (case (case rest of [] \<Rightarrow> None | q # _ \<Rightarrow> review_for ev (pb_key q)) of
                None \<Rightarrow> stopM rest
              | Some approval \<Rightarrow>
                if nr_verdict approval \<noteq> VApproved \<or> nr_headSha approval = nc_headSha linked \<or> \<not> isSha (nr_headSha approval)
                then stopM rest
                else bindM (permittedActor d ev (nr_actor approval)) (\<lambda>reviewer.
                  if reviewer then againM (tl rest) else stopM rest)))))"

definition followHeadUpdate ::
  "'s Deps \<Rightarrow> FlowDefinition \<Rightarrow> RecoveryEvidence \<Rightarrow> replay \<Rightarrow> ('s, replay) io" where
  "followHeadUpdate d f ev x =
    (case (rv_migration ev, sn_changeRequest (rv_snapshot ev), truthy (snd x)) of
       (Some m, Some linked, Some boundary) \<Rightarrow>
         (case truthy (edge_target f boundary ChangeRequestUpdated) of None \<Rightarrow> retM x
          | Some updated \<Rightarrow>
            if (contract_is f boundary RVerification
                \<or> (kind_is f boundary KProviderWait \<and> mg_retained (rm_receipt m) \<noteq> []))
              \<and> isSha (nc_headSha linked) \<and> nc_headSha linked \<noteq> mc_headSha (mg_change (rm_receipt m))
              \<and> contract_is f updated RReview
            then (if contract_is f boundary RVerification
                  then bindM (whileM length (verifiedHeadStep d ev linked) (fst x)) (\<lambda>active. retM (active, Some updated))
                  else retM (fst x, Some updated))
            else retM x)
     | _ \<Rightarrow> retM x)"

text \<open>A replay that starts at a review whose first publication rejects the work.\<close>

definition followRejection ::
  "'s Deps \<Rightarrow> FlowDefinition \<Rightarrow> RecoveryEvidence \<Rightarrow> replay \<Rightarrow> ('s, replay) io" where
  "followRejection d f ev x =
    (case (rv_migration ev, truthy (snd x), fst x) of
       (Some m, Some start, p # rest) \<Rightarrow>
         (case (truthy (edge_target f start ReviewChangesRequested), review_for ev (pb_key p)) of
            (Some rework, Some rejection) \<Rightarrow>
              if contract_is f start RReview \<and> contract_is f rework RDevelopment
                \<and> nr_verdict rejection = VChangesRequested \<and> isSha (nr_headSha rejection)
              then bindM (permittedActor d ev (nr_actor rejection)) (\<lambda>permitted.
                retM (if permitted then (rest, Some rework) else x))
              else retM x
          | _ \<Rightarrow> retM x)
     | _ \<Rightarrow> retM x)"

section \<open>Answered gates\<close>

definition result_marker :: "string \<Rightarrow> string option" where
  "result_marker line =
    (let p = ''<!-- agent-flow-result:v1 state='';
         state = take (length line - length p - 4) (drop (length p) line)
     in if starts_with line p \<and> ends_with line '' -->'' \<and> length line \<ge> length p + 4 \<and> state \<noteq> []
          \<and> is_lower (hd state) \<and> list_all (\<lambda>c. is_lower c \<or> is_digit c \<or> c = CHR ''-'') state
        then Some state else None)"

definition resultStage :: "RecoveryEvidence \<Rightarrow> string \<Rightarrow> string option" where
  "resultStage ev key = (case comment_for ev key of None \<Rightarrow> None
     | Some c \<Rightarrow> (case filter (\<lambda>l. includes_str l ''<!-- agent-flow-result:'') (lines_of (pc_body c)) of
         [l] \<Rightarrow> result_marker l | _ \<Rightarrow> None))"

definition gatesBetween :: "FlowDefinition \<Rightarrow> RecoveryEvidence \<Rightarrow> string \<Rightarrow> string \<Rightarrow> (string \<times> PublicationKind list) list res" where
  "gatesBetween f ev stage start =
    bindR (filterR (\<lambda>(i, st). if fs_kind st \<noteq> KHumanGate then ok False
        else bindR (ev_path f ev i (Some start)) (\<lambda>a. if a = None then ok False
          else bindR (ev_path f ev stage (Some i)) (\<lambda>b. ok (b \<noteq> None)))) (fd_states f)) (\<lambda>gs.
    bindR (mapR (\<lambda>(i, st). bindR (ev_path f ev i (Some start)) (\<lambda>p. ok (i, opt_or p []))) gs) (\<lambda>ps.
      ok (sort_key (\<lambda>(i, path). length path) ps)))"

text \<open>How many results, from the gate's predecessor on, an authorized human answered.\<close>

fun answeredResults ::
  "'s Deps \<Rightarrow> RecoveryEvidence \<Rightarrow> string \<Rightarrow> string \<Rightarrow> string option \<Rightarrow> Publication list \<Rightarrow> ('s, nat) io" where
  "answeredResults d ev stage gateId provenance [] = retM 0"
| "answeredResults d ev stage gateId provenance (p # rest) =
    (let nxt = (case rest of [] \<Rightarrow> None | q # _ \<Rightarrow> Some q) in
     if (provenance \<noteq> None \<and> resultStage ev (pb_key p) \<noteq> provenance)
       \<or> (nxt = None \<and> stage = gateId) \<or> pub_kind ev p \<noteq> Some PkComment
       \<or> opt_is (\<lambda>q. pub_kind ev q \<noteq> Some PkComment) nxt
     then retM 0
     else bindM (answeredBy d ev (pb_createdAt p) (map_option pb_createdAt nxt) (sn_comments (rv_snapshot ev))) (\<lambda>authorized.
       if \<not> authorized then retM 0
       else (let results = map (\<lambda>q. comment_for ev (pb_key q)) (p # (case nxt of None \<Rightarrow> [] | Some q \<Rightarrow> [q])) in
         if None \<in> set results then retM 0
         else bindM (permittedActors d ev (map (pc_actor \<circ> the) results)) (\<lambda>permitted.
           if \<not> permitted then retM 0
           else bindM (answeredResults d ev stage gateId provenance rest) (\<lambda>n. retM (Suc n))))))"

definition splice :: "nat \<Rightarrow> nat \<Rightarrow> 'a list \<Rightarrow> 'a list" where
  "splice i n xs = take i xs @ drop (i + n) xs"

text \<open>One gate of the replay; False stops the walk over the gates.\<close>

definition gateStep ::
  "'s Deps \<Rightarrow> FlowDefinition \<Rightarrow> RecoveryEvidence \<Rightarrow> string \<Rightarrow> bool \<Rightarrow> PublicationKind list \<Rightarrow> string \<times> PublicationKind list
     \<Rightarrow> Publication list \<Rightarrow> ('s, bool \<times> Publication list) io" where
  "gateStep d f ev stage many committed = (\<lambda>(gateId, path) active.
    if path = [] \<or> last path \<noteq> PkComment \<or> length path > length committed \<or> take (length path) committed \<noteq> path
    then retM (True, active)
    else (let index = length path - 1;
              predecessors = map fst (filter (\<lambda>(i, st). fs_kind st = KAgent \<and> edge_target f i AgentSucceeded = Some gateId) (fd_states f));
              reached = (if index < length active then resultStage ev (pb_key (active ! index)) else None)
          in if many \<and> (length predecessors \<noteq> 1 \<or> reached \<noteq> Some (hd predecessors)) then retM (False, active)
             else bindM (answeredResults d ev stage gateId (if many then Some (hd predecessors) else None) (drop index active)) (\<lambda>answered.
               if many \<and> answered = 0 then retM (False, active)
               else retM (True, splice index (if stage = gateId then answered else answered - 1) active))))"

fun retireGates ::
  "'s Deps \<Rightarrow> FlowDefinition \<Rightarrow> RecoveryEvidence \<Rightarrow> string \<Rightarrow> bool \<Rightarrow> PublicationKind list
     \<Rightarrow> (string \<times> PublicationKind list) list \<Rightarrow> Publication list \<Rightarrow> ('s, Publication list) io" where
  "retireGates d f ev stage many committed [] active = retM active"
| "retireGates d f ev stage many committed (g # gs) active =
    bindM (gateStep d f ev stage many committed g active) (\<lambda>(more, active').
      if more then retireGates d f ev stage many committed gs active' else retM active')"

definition retireAnsweredGates ::
  "'s Deps \<Rightarrow> FlowDefinition \<Rightarrow> RecoveryEvidence \<Rightarrow> string \<Rightarrow> PublicationKind list \<Rightarrow> replay \<Rightarrow> ('s, Publication list) io" where
  "retireAnsweredGates d f ev stage committed x =
    (case (rv_migration ev, truthy (snd x)) of
       (Some m, Some start) \<Rightarrow>
         if \<not> kind_is f start KAgent then retM (fst x)
         else bindM (liftR (gatesBetween f ev stage start)) (\<lambda>gates.
           retireGates d f ev stage (length gates > 1) committed gates (fst x))
     | _ \<Rightarrow> retM (fst x))"

text \<open>A migration that started at a human gate: results that a human answered are revisions.\<close>

definition startGateStep ::
  "'s Deps \<Rightarrow> RecoveryEvidence \<Rightarrow> nat \<Rightarrow> Publication list \<Rightarrow> ('s, (Publication list, Publication list) loop_step) io" where
  "startGateStep d ev bound active =
    (case active of [] \<Rightarrow> stopM active
     | p # rest \<Rightarrow>
       if length active \<le> bound \<or> pub_kind ev p \<noteq> Some PkComment then stopM active
       else bindM (answeredBy d ev (pb_createdAt p) (truthy (case rest of [] \<Rightarrow> None | q # _ \<Rightarrow> Some (pb_createdAt q)))
              (sn_comments (rv_snapshot ev))) (\<lambda>answered. if answered then againM rest else stopM active))"

definition retireStartGate ::
  "'s Deps \<Rightarrow> FlowDefinition \<Rightarrow> RecoveryEvidence \<Rightarrow> string \<Rightarrow> PublicationKind list \<Rightarrow> Publication list \<Rightarrow> ('s, Publication list) io" where
  "retireStartGate d f ev stage committed active =
    (case rv_migration ev of None \<Rightarrow> retM active
     | Some m \<Rightarrow> if mg_start (rm_receipt m) \<noteq> stage \<and> kind_is f (mg_start (rm_receipt m)) KHumanGate
         then whileM length (startGateStep d ev (length committed)) active else retM active)"


section \<open>Rejected and superseded development\<close>

definition nth_opt :: "'a list \<Rightarrow> nat \<Rightarrow> 'a option" where
  "nth_opt xs i = (if i < length xs then Some (xs ! i) else None)"

text \<open>The documentation report that follows the completion at an index, when one is expected and authorized.\<close>

datatype ReportStep = ReportStop | ReportNone | ReportFound DocumentationMetadata

definition reportAfter ::
  "'s Deps \<Rightarrow> RecoveryEvidence \<Rightarrow> bool \<Rightarrow> Publication \<Rightarrow> ('s, ReportStep) io" where
  "reportAfter d ev documentation p =
    (if \<not> documentation \<or> pub_kind ev p \<noteq> Some PkDocumentation then retM ReportNone
     else (case comment_for ev (pb_key p) of None \<Rightarrow> retM ReportStop
       | Some c \<Rightarrow> (case parseDocumentation (pc_body c) of None \<Rightarrow> retM ReportStop
         | Some report \<Rightarrow>
            if map_option nc_number (sn_changeRequest (rv_snapshot ev)) \<noteq> Some (dm_change report) then retM ReportStop
            else bindM (permittedActor d ev (pc_actor c)) (\<lambda>permitted.
              retM (if permitted then ReportFound report else ReportStop)))))"

text \<open>A human comment between two completions may belong to a gate revision instead.\<close>

definition human_between :: "RecoveryEvidence \<Rightarrow> ProviderComment \<Rightarrow> ProviderComment \<Rightarrow> bool" where
  "human_between ev a b \<longleftrightarrow> list_ex (\<lambda>c. pc_createdAt c > pc_createdAt a \<and> pc_createdAt c < pc_createdAt b
     \<and> \<not> isMarked (pc_body c) \<and> \<not> isMigrationCommand (pc_body c)) (sn_comments (rv_snapshot ev))"

definition supersedeStep ::
  "'s Deps \<Rightarrow> RecoveryEvidence \<Rightarrow> nat \<Rightarrow> nat \<Rightarrow> Publication \<Rightarrow> Publication \<Rightarrow> Publication list
     \<Rightarrow> ('s, (Publication list, Publication list) loop_step) io" where
  "supersedeStep d ev index len p following active =
    (case (comment_for ev (pb_key p), comment_for ev (pb_key following)) of
       (Some a, Some b) \<Rightarrow>
         if human_between ev a b then stopM active
         else bindM (permittedActors d ev [pc_actor a, pc_actor b]) (\<lambda>permitted.
           if permitted then againM (splice index len active) else stopM active)
     | _ \<Rightarrow> stopM active)"

definition rejectStep ::
  "'s Deps \<Rightarrow> RecoveryEvidence \<Rightarrow> nat \<Rightarrow> nat \<Rightarrow> DocumentationMetadata option \<Rightarrow> Publication \<Rightarrow> Publication \<Rightarrow> Publication list
     \<Rightarrow> ('s, (Publication list, Publication list) loop_step) io" where
  "rejectStep d ev index len report p following active =
    (case (comment_for ev (pb_key p), review_for ev (pb_key following)) of
       (Some completion, Some rejection) \<Rightarrow>
         if nr_verdict rejection \<noteq> VChangesRequested \<or> \<not> isSha (nr_headSha rejection)
           \<or> opt_is (\<lambda>r. dm_resultHead r \<noteq> nr_headSha rejection) report then stopM active
         else bindM (permittedActors d ev [pc_actor completion, nr_actor rejection]) (\<lambda>permitted.
           if permitted then againM (splice index (len + 1) active) else stopM active)
     | _ \<Rightarrow> stopM active)"

definition developmentStep ::
  "'s Deps \<Rightarrow> RecoveryEvidence \<Rightarrow> nat \<Rightarrow> bool \<Rightarrow> bool \<Rightarrow> Publication list
     \<Rightarrow> ('s, (Publication list, Publication list) loop_step) io" where
  "developmentStep d ev index documentation retriesCi active =
    (case (nth_opt active index, nth_opt active (index + 1)) of
       (Some p, Some q) \<Rightarrow>
         if pub_kind ev p \<noteq> Some PkComment then stopM active
         else bindM (reportAfter d ev documentation q) (\<lambda>r.
           if r = ReportStop then stopM active
           else (let report = (case r of ReportFound x \<Rightarrow> Some x | _ \<Rightarrow> None);
                     len = (if report = None then 1 else 2) in
             (case nth_opt active (index + len) of None \<Rightarrow> stopM active
              | Some following \<Rightarrow>
                 if pub_kind ev following = Some PkComment \<and> retriesCi then supersedeStep d ev index len p following active
                 else if pub_kind ev following \<noteq> Some PkReview \<or> (documentation \<and> report = None) then stopM active
                 else rejectStep d ev index len report p following active)))
     | _ \<Rightarrow> stopM active)"

definition target_contract :: "FlowDefinition \<Rightarrow> string \<Rightarrow> FlowEventType \<Rightarrow> ResultContract option" where
  "target_contract f s e = (case state_of f (opt_or (edge_target f s e) []) of None \<Rightarrow> None | Some st \<Rightarrow> fs_resultContract st)"

definition retireDevelopment ::
  "'s Deps \<Rightarrow> FlowDefinition \<Rightarrow> RecoveryEvidence \<Rightarrow> string option \<Rightarrow> Publication list \<Rightarrow> ('s, Publication list) io" where
  "retireDevelopment d f ev start active =
    (if rv_migration ev = None then retM active
     else foldM (\<lambda>(developmentId, development) a.
       (let nextId = opt_or (edge_target f developmentId AgentSucceeded) [];
            documentation = (target_contract f developmentId AgentSucceeded = Some RDocumentation);
            reviewId = (if documentation then opt_or (edge_target f nextId AgentSucceeded) [] else nextId)
        in if fs_resultContract development \<noteq> Some RDevelopment \<or> \<not> contract_is f reviewId RReview
             \<or> edge_target f reviewId ReviewChangesRequested \<noteq> Some developmentId then retM a
           else bindM (liftR (ev_path f ev developmentId start)) (\<lambda>path.
             (case path of None \<Rightarrow> retM a
              | Some before \<Rightarrow>
                 if \<not> startsWithKinds ev before a then retM a
                 else whileM length (developmentStep d ev (length before) documentation
                   (fd_requiredChecks f \<noteq> [] \<and> (edge_target f developmentId CiFailed = Some developmentId
                      \<or> edge_target f reviewId CiFailed = Some developmentId))) a)))) (fd_states f) active)"

text \<open>Approval and verification of an earlier head, after the work before them.\<close>

definition earlierHeadStep ::
  "'s Deps \<Rightarrow> RecoveryEvidence \<Rightarrow> NormalizedChangeRequest \<Rightarrow> PublicationKind list \<Rightarrow> Publication list
     \<Rightarrow> ('s, (Publication list, Publication list) loop_step) io" where
  "earlierHeadStep d ev linked before active =
    (let index = length before - 1 in
     if \<not> startsWithKinds ev before active then stopM active
     else (case (review_for ev (pb_key (active ! index)), nth_opt active (index + 1)) of
       (Some approval, Some q) \<Rightarrow>
         (case verifiedCompletion ev q of None \<Rightarrow> stopM active
          | Some completion \<Rightarrow>
             if nr_verdict approval \<noteq> VApproved \<or> nr_headSha approval = nc_headSha linked \<or> \<not> isSha (nr_headSha approval)
             then stopM active
             else bindM (permittedActors d ev [nr_actor approval, pc_actor completion]) (\<lambda>permitted.
               if permitted then againM (splice index 2 active) else stopM active))
     | _ \<Rightarrow> stopM active))"

definition retireEarlierHeads ::
  "'s Deps \<Rightarrow> FlowDefinition \<Rightarrow> RecoveryEvidence \<Rightarrow> string option \<Rightarrow> Publication list \<Rightarrow> ('s, Publication list) io" where
  "retireEarlierHeads d f ev start active =
    (case (rv_migration ev, sn_changeRequest (rv_snapshot ev)) of
       (Some m, Some linked) \<Rightarrow>
         foldM (\<lambda>(verificationId, verification) a.
           if fs_resultContract verification \<noteq> Some RVerification
             \<or> \<not> opt_is (\<lambda>t. contract_is f t RReview) (truthy (edge_target f verificationId ChangeRequestUpdated)) then retM a
           else bindM (liftR (ev_path f ev verificationId start)) (\<lambda>path.
             (case path of None \<Rightarrow> retM a
              | Some before \<Rightarrow> if before = [] \<or> last before \<noteq> PkReview then retM a
                  else whileM length (earlierHeadStep d ev linked before) a))) (fd_states f) active
     | _ \<Rightarrow> retM active)"

section \<open>The replay\<close>

type_synonym replay_end = "RecoveryIteration + (Publication list \<times> PublicationKind list)"

text \<open>One round retires what it can and names the publications that lead to the stage.\<close>

definition replayRound ::
  "'s Deps \<Rightarrow> FlowDefinition \<Rightarrow> RecoveryEvidence \<Rightarrow> string \<Rightarrow> string list \<Rightarrow> replay \<Rightarrow> ('s, (replay, replay_end) loop_step) io" where
  "replayRound d f ev stage baseline x =
    bindM (retireFailedCi d f ev stage x) (\<lambda>x1.
    bindM (followHeadUpdate d f ev x1) (\<lambda>x2.
    bindM (followRejection d f ev x2) (\<lambda>x3.
    bindM (liftR (ev_path f ev stage (snd x3))) (\<lambda>path.
    (case path of None \<Rightarrow>
        stopM (Inl (IterAmbiguous baseline ''provider stage cannot be reconstructed from the pinned flow''))
     | Some committed \<Rightarrow>
        bindM (retireAnsweredGates d f ev stage committed x3) (\<lambda>a1.
        bindM (retireStartGate d f ev stage committed a1) (\<lambda>a2.
        bindM (retireDevelopment d f ev (snd x3) a2) (\<lambda>a3.
        bindM (retireEarlierHeads d f ev (snd x3) a3) (\<lambda>active.
          if length active < length (fst x) then againM (active, snd x3) else stopM (Inr (active, committed)))))))))))"

definition replayPublications ::
  "'s Deps \<Rightarrow> FlowDefinition \<Rightarrow> RecoveryEvidence \<Rightarrow> string \<Rightarrow> string list \<Rightarrow> Publication list \<Rightarrow> ('s, replay_end) io" where
  "replayPublications d f ev stage baseline active =
    whileM (\<lambda>x. length (fst x)) (replayRound d f ev stage baseline)
      (active, map_option (\<lambda>m. mg_start (rm_receipt m)) (rv_migration ev))"


section \<open>Comparing what is left with the stage\<close>

definition currentHeadReviews :: "FlowDefinition \<Rightarrow> RecoveryEvidence \<Rightarrow> string \<Rightarrow> Publication list \<Rightarrow> Publication list" where
  "currentHeadReviews f ev stage active =
    (if \<not> contract_is f stage RReview then active
     else filter (\<lambda>p. pub_kind ev p \<noteq> Some PkReview \<or>
       list_ex (\<lambda>r. hasPublicationIdentity (pb_key p) (ev_ref ev) PkReview (nr_id r)
          \<and> Some (nr_headSha r) = map_option nc_headSha (sn_changeRequest (rv_snapshot ev))) (rv_reviews ev)) active)"

fun supersededApprovals ::
  "'s Deps \<Rightarrow> RecoveryEvidence \<Rightarrow> NormalizedChangeRequest \<Rightarrow> Publication list \<Rightarrow> ('s, string list) io" where
  "supersededApprovals d ev linked [] = retM []"
| "supersededApprovals d ev linked (p # ps) =
    (case review_for ev (pb_key p) of None \<Rightarrow> supersededApprovals d ev linked ps
     | Some r \<Rightarrow>
        if nr_verdict r \<noteq> VApproved \<or> nr_headSha r = nc_headSha linked \<or> \<not> isSha (nr_headSha r)
        then supersededApprovals d ev linked ps
        else bindM (permittedActor d ev (nr_actor r)) (\<lambda>permitted.
          bindM (supersededApprovals d ev linked ps) (\<lambda>ks. retM (if permitted then pb_key p # ks else ks))))"

definition dropSuperseded ::
  "'s Deps \<Rightarrow> RecoveryEvidence \<Rightarrow> PublicationKind list \<Rightarrow> Publication list \<Rightarrow> ('s, Publication list) io" where
  "dropSuperseded d ev committed active =
    (case (rv_migration ev, sn_changeRequest (rv_snapshot ev)) of
       (Some m, Some linked) \<Rightarrow>
         if PkReview \<notin> set committed then retM active
         else bindM (supersededApprovals d ev linked active) (\<lambda>keys.
           retM (filter (\<lambda>p. pb_key p \<notin> set keys) active))
     | _ \<Rightarrow> retM active)"

text \<open>A documentation report stands only when it left the head of the linked change request as it was.\<close>

definition reports_of :: "RecoveryEvidence \<Rightarrow> Publication list \<Rightarrow> DocumentationMetadata list" where
  "reports_of ev active = List.map_filter (\<lambda>p. if pub_kind ev p \<noteq> Some PkDocumentation then None
     else (case comment_for ev (pb_key p) of None \<Rightarrow> None | Some c \<Rightarrow> parseDocumentation (pc_body c))) active"

definition documentationUnclear :: "FlowDefinition \<Rightarrow> RecoveryEvidence \<Rightarrow> string \<Rightarrow> Publication list \<Rightarrow> bool" where
  "documentationUnclear f ev stage active \<longleftrightarrow>
    list_ex (\<lambda>r. (case sn_changeRequest (rv_snapshot ev) of None \<Rightarrow> True
       | Some linked \<Rightarrow> dm_change r \<noteq> nc_number linked \<or> dm_resultHead r \<noteq> nc_headSha linked)
       \<or> dm_inputHead r \<noteq> dm_resultHead r) (reports_of ev active)
    \<or> (contract_is f stage RDocumentation \<and> length (reports_of ev active) \<noteq> 1)"

text \<open>A gate or merge wait whose single predecessor leaves a comment is reassessed from that predecessor.\<close>

definition waitIteration ::
  "FlowDefinition \<Rightarrow> RecoveryEvidence \<Rightarrow> string \<Rightarrow> string list \<Rightarrow> PublicationKind list \<Rightarrow> Publication list \<Rightarrow> RecoveryIteration option" where
  "waitIteration f ev stage baseline committed active =
    (let migrated = (rv_migration ev \<noteq> None);
         predecessors = map fst (filter (\<lambda>(i, st). fs_kind st = KAgent \<and> edge_target f i AgentSucceeded = Some stage
            \<and> resultPublicationKind (fs_resultContract st) migrated = Some PkComment) (fd_states f));
         before = butlast committed; kinds = map (pub_kind ev) active
     in (case predecessors of
       [predecessor] \<Rightarrow>
         if (kind_is f stage KHumanGate \<or> kind_is f stage KProviderWait) \<and> startsWithKinds ev before active
           \<and> (length active = length committed \<or> length active = length before)
         then (let candidate = (if length active = length committed \<and> active \<noteq> [] then Some (last active) else None) in
           if candidate \<noteq> None \<and> last kinds \<noteq> Some PkComment
           then Some (IterAmbiguous baseline ''published result cannot be reassessed for the recorded stage'')
           else Some (IterReady (filter (\<lambda>k. Some k \<noteq> map_option pb_key candidate) baseline)
             (case candidate of Some c \<Rightarrow> if migrated then Some (pb_createdAt c)
                  else if before = [] then None else Some (pb_createdAt (active ! (length before - 1)))
              | None \<Rightarrow> if before = [] then None else Some (pb_createdAt (active ! (length before - 1))))
             (Some predecessor)))
         else None
     | _ \<Rightarrow> None))"

text \<open>Every committed review approves the head of the linked change request and has an authorized author.\<close>

fun reviewsJustified ::
  "'s Deps \<Rightarrow> RecoveryEvidence \<Rightarrow> (PublicationKind \<times> Publication) list \<Rightarrow> ('s, string option) io" where
  "reviewsJustified d ev [] = retM None"
| "reviewsJustified d ev ((k, p) # xs) =
    (if k \<noteq> PkReview then reviewsJustified d ev xs
     else (case (review_for ev (pb_key p), sn_changeRequest (rv_snapshot ev)) of
       (Some r, Some change) \<Rightarrow>
         if nr_verdict r \<noteq> VApproved \<or> nr_headSha r \<noteq> nc_headSha change
         then retM (Some ''published review does not approve the linked change request head'')
         else bindM (permittedActor d ev (nr_actor r)) (\<lambda>permitted.
           if permitted then reviewsJustified d ev xs else retM (Some ''published review author is not authorized''))
     | _ \<Rightarrow> retM (Some ''published review does not approve the linked change request head'')))"

definition isolateCandidate ::
  "FlowDefinition \<Rightarrow> RecoveryEvidence \<Rightarrow> string \<Rightarrow> string list \<Rightarrow> PublicationKind list \<Rightarrow> Publication list \<Rightarrow> RecoveryIteration" where
  "isolateCandidate f ev stage baseline committed active =
    (let candidateKind = (case state_of f stage of Some st \<Rightarrow>
           if fs_kind st = KAgent then resultPublicationKind (fs_resultContract st) (rv_migration ev \<noteq> None) else None
         | None \<Rightarrow> None);
         cutoff = (if committed = [] then None else Some (pb_createdAt (active ! (length committed - 1))))
     in if length active = length committed + 1 \<and> candidateKind \<noteq> None \<and> pub_kind ev (last active) = candidateKind
        then IterReady (filter (\<lambda>k. k \<noteq> pb_key (last active)) baseline) cutoff None
        else if length active \<noteq> length committed
        then IterAmbiguous baseline ''current publication iteration cannot be isolated''
        else IterReady baseline cutoff None)"

definition judgeReplay ::
  "'s Deps \<Rightarrow> FlowDefinition \<Rightarrow> RecoveryEvidence \<Rightarrow> string \<Rightarrow> string list \<Rightarrow> PublicationKind list \<Rightarrow> Publication list
     \<Rightarrow> ('s, RecoveryIteration) io" where
  "judgeReplay d f ev stage baseline committed active =
    (if documentationUnclear f ev stage active
     then retM (IterAmbiguous baseline ''documentation implementation boundary cannot be established from provider evidence'')
     else if list_ex (\<lambda>p. pub_kind ev p = None \<or> pb_key p \<notin> set baseline) active
     then retM (IterAmbiguous baseline ''publication identity cannot be verified for the active work'')
     else (case waitIteration f ev stage baseline committed active of
       Some r \<Rightarrow> retM r
     | None \<Rightarrow>
        if \<not> startsWithKinds ev committed active
        then retM (IterAmbiguous baseline ''published results do not justify the provider stage'')
        else bindM (reviewsJustified d ev (zip committed active)) (\<lambda>problem.
          (case problem of Some reason \<Rightarrow> retM (IterAmbiguous baseline reason)
           | None \<Rightarrow> retM (isolateCandidate f ev stage baseline committed active)))))"

definition recoveryIteration ::
  "'s Deps \<Rightarrow> ConfigBundle \<Rightarrow> RecoveryEvidence \<Rightarrow> string \<Rightarrow> string option \<Rightarrow> ('s, RecoveryIteration) io" where
  "recoveryIteration d bundle ev stage ownerController =
    bindM (liftR (markedObjectKeys (dp_url d) ev (dp_providerApiUrl d))) (\<lambda>baseline.
      (let f = cb_flow bundle in
       (case settledIteration d f ev stage ownerController baseline of
          Some r \<Rightarrow> retM r
        | None \<Rightarrow>
           bindM (replayPublications d f ev stage baseline
                    (documentationRework f ev ownerController (ownerPublications d ev ownerController))) (\<lambda>e.
           (case e of Inl r \<Rightarrow> retM r
            | Inr (active, committed) \<Rightarrow>
               bindM (dropSuperseded d ev committed (currentHeadReviews f ev stage active)) (\<lambda>active'.
                 judgeReplay d f ev stage baseline committed active'))))))"


section \<open>Which errors an operation throws\<close>

lemma throws_step [throws]: "throwsM E (stopM y)" "throwsM E (againM z)"
  by (simp_all add: throwsM_def run_iff stopM_def againM_def)

lemma throws_foldM [throws]: "(\<And>x a. throwsM E (f x a)) \<Longrightarrow> throwsM E (foldM f xs a)"
  by (induction xs arbitrary: a) (auto intro!: throws)

lemma throws_loopM:
  assumes "decreases \<mu> step" "\<And>a. throwsM E (step a)" "\<mu> a < n"
  shows "throwsM E (loopM n step a)"
  using assms(3)
proof (induction n arbitrary: a)
  case (Suc n)
  show ?case unfolding throwsM_def
  proof (intro allI impI)
    fix s e s' assume l: "loopM (Suc n) step a s = (Inl e, s')"
    then consider "step a s = (Inl e, s')"
      | r s1 where "step a s = (Inr r, s1)" "(case r of Stop b \<Rightarrow> retM b | Again a' \<Rightarrow> loopM n step a') s1 = (Inl e, s')"
      by (auto simp: run_iff)
    then show "e \<in> E"
    proof cases
      case 1
      then show ?thesis using assms(2) unfolding throwsM_def by blast
    next
      case (2 r s1)
      show ?thesis
      proof (cases r)
        case (Stop b)
        then show ?thesis using 2 by (simp add: run_iff)
      next
        case (Again a')
        then have "\<mu> a' < n" using decreasesD [OF assms(1)] 2(1) Suc.prems by fastforce
        then show ?thesis using Suc.IH [of a'] 2(2) Again unfolding throwsM_def by auto
      qed
    qed
  qed
qed simp

lemma throws_whileM [throws]:
  "decreases \<mu> step \<Longrightarrow> (\<And>a. throwsM E (step a)) \<Longrightarrow> throwsM E (whileM \<mu> step a)"
  unfolding whileM_def by (rule throws_loopM) auto

lemma promiseAll_Inl: "promiseAll ms s = (Inl e, s') \<Longrightarrow> (\<And>m. m \<in> set ms \<Longrightarrow> throwsM E m) \<Longrightarrow> e \<in> E"
proof (induction ms arbitrary: s e s')
  case (Cons m ms)
  obtain r s1 where r: "m s = (r, s1)" by fastforce
  obtain rs s2 where rs: "promiseAll ms s1 = (rs, s2)" by fastforce
  have m: "throwsM E m" using Cons.prems(2) by simp
  show ?case
  proof (cases r)
    case (Inl x)
    then show ?thesis using m r rs Cons.prems(1) by (auto simp: throwsM_def bindR_def)
  next
    case (Inr x)
    then have "rs = Inl e" using r rs Cons.prems(1) by (cases rs) (auto simp: bindR_def ok_def)
    then show ?thesis using Cons.IH [of s1 e s2] rs Cons.prems(2) by simp
  qed
qed (simp add: run_iff)

lemma throws_promiseAll [throws]: "(\<And>m. m \<in> set ms \<Longrightarrow> throwsM E m) \<Longrightarrow> throwsM E (promiseAll ms)"
proof (subst throwsM_def, intro allI impI)
  fix s e s' assume a: "\<And>m. m \<in> set ms \<Longrightarrow> throwsM E m" "promiseAll ms s = (Inl e, s')"
  show "e \<in> E" by (rule promiseAll_Inl [OF a(2,1)])
qed

definition recovery_errors :: "err set" where
  "recovery_errors = {Err ''provider permission read failed'', Err ''Invalid URL'',
     Err ''activation route is not configured in the pinned flow''}"

lemma throws_permitted [throws]: "throwsM recovery_errors (permittedActor d ev a)"
  "throwsM recovery_errors (permittedActors d ev as)"
  unfolding permittedActor_def permittedActors_def by (auto intro!: throws simp: recovery_errors_def)

lemma path_errors: "ev_path f ev t st = Inl e \<Longrightarrow> e \<in> recovery_errors"
  by (auto simp: ev_path_def successfulPublicationPath_def entryStage_def recovery_errors_def bindR_def ok_def fail_def
      split: option.split_asm sum.split_asm if_split_asm list.split_asm)

lemma throws_path [throws]: "throwsM recovery_errors (liftR (ev_path f ev t st))"
  by (rule throws_lift) (rule path_errors)

definition throwsR :: "err set \<Rightarrow> 'a res \<Rightarrow> bool" where
  "throwsR E r \<longleftrightarrow> (\<forall>e. r = Inl e \<longrightarrow> e \<in> E)"

lemma throwsR_ok [throws]: "throwsR E (ok x)" by (simp add: throwsR_def)
lemma throwsR_fail [throws]: "Err m \<in> E \<Longrightarrow> throwsR E (fail m)" by (simp add: throwsR_def fail_def)
lemma throwsR_bind [throws]: "throwsR E r \<Longrightarrow> (\<And>x. throwsR E (f x)) \<Longrightarrow> throwsR E (bindR r f)"
  by (cases r) (auto simp: throwsR_def)
lemma throwsR_if [throws]: "throwsR E m \<Longrightarrow> throwsR E n \<Longrightarrow> throwsR E (if b then m else n)" by simp
lemma throwsR_option [throws]:
  "throwsR E m \<Longrightarrow> (\<And>x. throwsR E (f x)) \<Longrightarrow> throwsR E (case v of None \<Rightarrow> m | Some x \<Rightarrow> f x)"
  by (cases v) auto
lemma throwsR_prod [throws]: "(\<And>x y. throwsR E (f x y)) \<Longrightarrow> throwsR E (case v of (x, y) \<Rightarrow> f x y)"
  by (cases v) auto
lemma throwsR_let [throws]: "throwsR E (f v) \<Longrightarrow> throwsR E (let x = v in f x)" by simp
lemma throwsR_filter [throws]: "(\<And>x. throwsR E (p x)) \<Longrightarrow> throwsR E (filterR p xs)"
  by (induction xs) (auto intro!: throws)
lemma throwsR_map [throws]: "(\<And>x. throwsR E (p x)) \<Longrightarrow> throwsR E (mapR p xs)"
  by (induction xs) (auto intro!: throws)

lemma throwsR_path [throws]: "throwsR recovery_errors (ev_path f ev t st)"
  unfolding throwsR_def using path_errors by blast

lemma throwsM_liftR: "throwsR E r \<Longrightarrow> throwsM E (liftR r)"
  unfolding throwsR_def by (rule throws_lift) blast

lemma throws_gates [throws]: "throwsM recovery_errors (liftR (gatesBetween f ev stage st))"
  unfolding gatesBetween_def by (rule throwsM_liftR) (intro throws)


section \<open>What an operation returns\<close>

lemma returns_step [returns]: "Q (Stop y) \<Longrightarrow> returnsM Q (stopM y)" "Q' (Again z) \<Longrightarrow> returnsM Q' (againM z)"
  by (simp_all add: returnsM_def run_iff stopM_def againM_def)

text \<open>A loop body that only ever removes publications, and one at least each time it goes on.\<close>

definition retires :: "('a \<Rightarrow> Publication list) \<Rightarrow> 'a \<Rightarrow> ('a, 'a) loop_step \<Rightarrow> bool" where
  "retires get a r = (case r of Stop b \<Rightarrow> subseq (get b) (get a)
     | Again b \<Rightarrow> subseq (get b) (get a) \<and> length (get b) < length (get a))"

lemma retires_simps [simp]:
  "retires get a (Stop b) = subseq (get b) (get a)"
  "retires get a (Again b) = (subseq (get b) (get a) \<and> length (get b) < length (get a))"
  by (simp_all add: retires_def)

lemma retires_decreases: "(\<And>a. returnsM (retires get a) (step a)) \<Longrightarrow> decreases (\<lambda>a. length (get a)) step"
  unfolding decreases_def returnsM_def by (metis retires_simps(2))

lemma while_retires:
  assumes "\<And>a. returnsM (retires get a) (step a)"
  shows "returnsM (\<lambda>b. subseq (get b) (get a)) (whileM \<mu> step a)"
  unfolding returnsM_def
proof (intro allI impI)
  fix s b s' assume "whileM \<mu> step a s = (Inr b, s')"
  then have l: "loopM (Suc (\<mu> a)) step a s = (Inr b, s')" by (simp add: whileM_def)
  show "subseq (get b) (get a)"
  proof (rule loopM_invariant [OF l, where P = "\<lambda>x. subseq (get x) (get a)"])
    show "subseq (get a) (get a)" by simp
  next
    fix x y s s' assume x: "subseq (get x) (get a)" "step x s = (Inr (Again y), s')"
    then have "subseq (get y) (get x)" using assms [of x] unfolding returnsM_def by fastforce
    then show "subseq (get y) (get a)" using x(1) by (rule subseq_order.trans)
  next
    fix x y s s' assume x: "subseq (get x) (get a)" "step x s = (Inr (Stop y), s')"
    then have "subseq (get y) (get x)" using assms [of x] unfolding returnsM_def by fastforce
    then show "subseq (get y) (get a)" using x(1) by (rule subseq_order.trans)
  qed
qed

lemma while_retires_list:
  "(\<And>a. returnsM (retires id a) (step a)) \<Longrightarrow> returnsM (\<lambda>b. subseq b a) (whileM \<mu> step a)"
  using while_retires [of id step a \<mu>] by simp

lemma foldM_retires:
  assumes "\<And>x a. returnsM (\<lambda>b. subseq (get b) (get a)) (f x a)"
  shows "returnsM (\<lambda>b. subseq (get b) (get a)) (foldM f xs a)"
proof (induction xs arbitrary: a)
  case (Cons x xs)
  show ?case unfolding foldM.simps
    by (rule returns_bind [OF assms]) (rule returns_mono [OF Cons], auto intro: subseq_order.trans)
qed (simp add: returnsM_def run_iff)

lemma foldM_retires_list:
  "(\<And>x a. returnsM (\<lambda>b. subseq b a) (f x a)) \<Longrightarrow> returnsM (\<lambda>b. subseq b a) (foldM f xs a)"
  using foldM_retires [of id f a xs] by simp

lemma subseq_drop: "subseq (drop n xs) xs"
  by (metis append_take_drop_id list_emb_append2 subseq_order.refl)

lemma splice_subseq: "subseq (splice i n xs) xs"
proof -
  have "subseq (drop (i + n) xs) (drop i xs)" using subseq_drop [of n "drop i xs"] by (simp add: add.commute)
  then have "subseq (take i xs @ drop (i + n) xs) (take i xs @ drop i xs)"
    by (rule list_emb_append_mono [OF subseq_order.refl])
  then show ?thesis by (simp add: splice_def)
qed

lemma splice_shorter: "i < length xs \<Longrightarrow> 0 < n \<Longrightarrow> length (splice i n xs) < length xs"
  by (simp add: splice_def)

lemma nth_opt_less: "nth_opt xs i = Some x \<Longrightarrow> i < length xs"
  by (simp add: nth_opt_def split: if_split_asm)

lemma ciStep_retires: "returnsM (retires fst a) (ciStep d f ev stage v t a)"
  unfolding ciStep_def by (intro returns) (auto simp: subseq_drop)

lemma verifiedHeadStep_retires: "returnsM (retires id a) (verifiedHeadStep d ev linked a)"
  unfolding verifiedHeadStep_def
  by (intro returns) (auto simp: subseq_order.less_imp_le intro: subseq_order.trans split: list.splits)

lemma startGateStep_retires: "returnsM (retires id a) (startGateStep d ev n a)"
  unfolding startGateStep_def by (intro returns) auto

lemma developmentStep_retires: "returnsM (retires id a) (developmentStep d ev i doc ci a)"
  unfolding developmentStep_def supersedeStep_def rejectStep_def
  by (intro returns) (auto simp: splice_subseq splice_shorter dest: nth_opt_less)

lemma earlierHeadStep_retires: "returnsM (retires id a) (earlierHeadStep d ev linked pre a)"
  unfolding earlierHeadStep_def
  by (intro returns) (auto simp: splice_subseq intro!: splice_shorter dest: nth_opt_less)


text \<open>Every phase of the replay only removes publications.\<close>

lemma retireFailedCi_sub: "returnsM (\<lambda>b. subseq (fst b) (fst a)) (retireFailedCi d f ev stage a)"
  unfolding retireFailedCi_def
  by (intro returns_if foldM_retires returns_prod_app returns_prod returns_option returns_ret while_retires ciStep_retires) auto

lemma followHeadUpdate_sub: "returnsM (\<lambda>b. subseq (fst b) (fst a)) (followHeadUpdate d f ev a)"
  unfolding followHeadUpdate_def
  by (intro returns_if returns_prod returns_option returns_ret returns_bind [OF while_retires_list [OF verifiedHeadStep_retires]])
    auto

lemma followRejection_sub: "returnsM (\<lambda>b. subseq (fst b) (fst a)) (followRejection d f ev a)"
  unfolding followRejection_def by (intro returns) (auto split: if_splits)

lemma gateStep_sub: "returnsM (\<lambda>b. subseq (snd b) a) (gateStep d f ev stage many committed g a)"
  unfolding gateStep_def by (intro returns) (auto simp: splice_subseq)

lemma retireGates_sub: "returnsM (\<lambda>b. subseq b a) (retireGates d f ev stage many committed gs a)"
proof (induction gs arbitrary: a)
  case (Cons g gs)
  show ?case unfolding retireGates.simps
  proof (rule returns_bind [OF gateStep_sub], rule returns_prod, rule returns_if)
    fix x more b assume x: "subseq (snd x) a" "x = (more, b)"
    show "returnsM (\<lambda>c. subseq c a) (retireGates d f ev stage many committed gs b)"
      by (rule returns_mono [OF Cons [of b]]) (use x in \<open>auto intro: subseq_order.trans\<close>)
    show "returnsM (\<lambda>c. subseq c a) (retM b)" using x by (simp add: returnsM_def run_iff)
  qed
qed (simp add: returnsM_def run_iff)

lemma retireAnsweredGates_sub: "returnsM (\<lambda>b. subseq b (fst a)) (retireAnsweredGates d f ev stage committed a)"
  unfolding retireAnsweredGates_def by (intro returns retireGates_sub) auto

lemma retireStartGate_sub: "returnsM (\<lambda>b. subseq b a) (retireStartGate d f ev stage committed a)"
  unfolding retireStartGate_def by (intro returns while_retires_list startGateStep_retires) auto

lemma retireDevelopment_sub: "returnsM (\<lambda>b. subseq b a) (retireDevelopment d f ev start a)"
  unfolding retireDevelopment_def
  by (intro returns_if foldM_retires_list returns while_retires_list developmentStep_retires) auto

lemma retireEarlierHeads_sub: "returnsM (\<lambda>b. subseq b a) (retireEarlierHeads d f ev start a)"
  unfolding retireEarlierHeads_def
  by (intro returns_prod returns_option returns_if foldM_retires_list returns
      while_retires_list earlierHeadStep_retires) auto

definition end_ok :: "string list \<Rightarrow> (PublicationKind list \<Rightarrow> bool) \<Rightarrow> Publication list \<Rightarrow> replay_end \<Rightarrow> bool" where
  "end_ok B C a r = (case r of Inl i \<Rightarrow> \<exists>reason. i = IterAmbiguous B reason | Inr (b, committed) \<Rightarrow> C committed \<and> subseq b a)"

definition round_ok :: "string list \<Rightarrow> (PublicationKind list \<Rightarrow> bool) \<Rightarrow> Publication list \<Rightarrow> (replay, replay_end) loop_step \<Rightarrow> bool" where
  "round_ok B C a r = (case r of Again x \<Rightarrow> subseq (fst x) a \<and> length (fst x) < length a
     | Stop e \<Rightarrow> end_ok B C a e)"

lemma round_ok_simps [simp]:
  "round_ok B C a (Again x) = (subseq (fst x) a \<and> length (fst x) < length a)"
  "round_ok B C a (Stop e) = end_ok B C a e"
  "end_ok B C a (Inl (IterAmbiguous keys reason)) = (keys = B)" "end_ok B C a (Inr (b, c)) = (C c \<and> subseq b a)"
  "\<not> end_ok B C a (Inl (IterReady keys k re))"
  by (simp_all add: round_ok_def end_ok_def)

definition leads_to :: "FlowDefinition \<Rightarrow> RecoveryEvidence \<Rightarrow> string \<Rightarrow> PublicationKind list \<Rightarrow> bool" where
  "leads_to f ev stage committed \<longleftrightarrow> (\<exists>start. ev_path f ev stage start = ok (Some committed))"

lemma path_returns: "returnsM (\<lambda>p. p = None \<or> leads_to f ev stage (the p)) (liftR (ev_path f ev stage start))"
  unfolding returnsM_def run_iff
proof (intro allI impI)
  fix s p s' assume "ev_path f ev stage start = Inr p \<and> s' = s"
  then show "p = None \<or> leads_to f ev stage (the p)" by (cases p) (auto simp: leads_to_def ok_def)
qed

lemma replayRound_ok: "returnsM (round_ok baseline (leads_to f ev stage) (fst a)) (replayRound d f ev stage baseline a)"
  unfolding replayRound_def
proof (rule returns_bind [OF retireFailedCi_sub], rule returns_bind [OF followHeadUpdate_sub],
    rule returns_bind [OF followRejection_sub], rule returns_bind [OF path_returns], rule returns_option)
  fix x1 x2 x3 :: replay and path
  assume x: "subseq (fst x1) (fst a)" "subseq (fst x2) (fst x1)" "subseq (fst x3) (fst x2)"
  show "returnsM (round_ok baseline (leads_to f ev stage) (fst a))
    (stopM (Inl (IterAmbiguous baseline ''provider stage cannot be reconstructed from the pinned flow'')))"
    by (intro returns) simp
next
  fix x1 x2 x3 :: replay and path committed
  assume x: "subseq (fst x1) (fst a)" "subseq (fst x2) (fst x1)" "subseq (fst x3) (fst x2)"
    and c: "path = None \<or> leads_to f ev stage (the path)" "path = Some committed"
  show "returnsM (round_ok baseline (leads_to f ev stage) (fst a))
     (bindM (retireAnsweredGates d f ev stage committed x3) (\<lambda>a1.
      bindM (retireStartGate d f ev stage committed a1) (\<lambda>a2.
      bindM (retireDevelopment d f ev (snd x3) a2) (\<lambda>a3.
      bindM (retireEarlierHeads d f ev (snd x3) a3) (\<lambda>active.
        if length active < length (fst a) then againM (active, snd x3) else stopM (Inr (active, committed)))))))"
  proof (rule returns_bind [OF retireAnsweredGates_sub], rule returns_bind [OF retireStartGate_sub],
      rule returns_bind [OF retireDevelopment_sub], rule returns_bind [OF retireEarlierHeads_sub])
    fix a1 a2 a3 active
    assume "subseq a1 (fst x3)" "subseq a2 a1" "subseq a3 a2" "subseq active a3"
    then have "subseq active (fst a)" using x by (meson subseq_order.trans)
    then show "returnsM (round_ok baseline (leads_to f ev stage) (fst a))
      (if length active < length (fst a) then againM (active, snd x3) else stopM (Inr (active, committed)))"
      using c by (intro returns) auto
  qed
qed

lemma replayRound_decreases: "decreases (\<lambda>x. length (fst x)) (replayRound d f ev stage baseline)"
  unfolding decreases_def
proof (intro allI impI)
  fix a s b s' assume "replayRound d f ev stage baseline a s = (Inr (Again b), s')"
  from returnsD [OF replayRound_ok this] have "round_ok baseline (leads_to f ev stage) (fst a) (Again b)" .
  then show "length (fst b) < length (fst a)" by simp
qed

lemma end_ok_trans: "end_ok B C a r \<Longrightarrow> subseq a b \<Longrightarrow> end_ok B C b r"
  by (auto simp: end_ok_def intro: subseq_order.trans split: sum.splits RecoveryIteration.splits)

lemma replay_ok:
  assumes "replayPublications d f ev stage baseline active s = (Inr r, s')"
  shows "end_ok baseline (leads_to f ev stage) active r"
proof -
  let ?x = "(active, map_option (\<lambda>m. mg_start (rm_receipt m)) (rv_migration ev))"
  have l: "loopM (Suc (length active)) (replayRound d f ev stage baseline) ?x s = (Inr r, s')"
    using assms by (simp add: replayPublications_def whileM_def)
  show ?thesis
  proof (rule loopM_invariant [OF l, where P = "\<lambda>x. subseq (fst x) active"])
    show "subseq (fst ?x) active" by simp
  next
    fix x y s s' assume x: "subseq (fst x) active" "replayRound d f ev stage baseline x s = (Inr (Again y), s')"
    from returnsD [OF replayRound_ok x(2)] have "subseq (fst y) (fst x)" by simp
    then show "subseq (fst y) active" using x(1) by (rule subseq_order.trans)
  next
    fix x y s s' assume x: "subseq (fst x) active" "replayRound d f ev stage baseline x s = (Inr (Stop y), s')"
    from returnsD [OF replayRound_ok x(2)] have "end_ok baseline (leads_to f ev stage) (fst x) y" by simp
    then show "end_ok baseline (leads_to f ev stage) active y" using x(1) by (rule end_ok_trans)
  qed
qed

section \<open>The reconstruction always ends\<close>

lemma list_len_decreases:
  "decreases length (verifiedHeadStep d ev linked)" "decreases length (startGateStep d ev n)"
  "decreases length (developmentStep d ev i doc ci)" "decreases length (earlierHeadStep d ev linked pre)"
  using retires_decreases [of id "verifiedHeadStep d ev linked", OF verifiedHeadStep_retires]
    retires_decreases [of id "startGateStep d ev n", OF startGateStep_retires]
    retires_decreases [of id "developmentStep d ev i doc ci", OF developmentStep_retires]
    retires_decreases [of id "earlierHeadStep d ev linked pre", OF earlierHeadStep_retires] by simp_all

lemma throws_prod_app [throws]: "(\<And>x y. throwsM E (f x y z)) \<Longrightarrow> throwsM E ((case v of (x, y) \<Rightarrow> f x y) z)"
  by (cases v) auto

lemma throws_answeredBy [throws]: "throwsM recovery_errors (answeredBy d ev a b cs)"
  by (induction cs) (auto intro!: throws)

lemma throws_answeredResults [throws]: "throwsM recovery_errors (answeredResults d ev stage g p xs)"
  by (induction xs) (simp_all only: answeredResults.simps Let_def, (intro throws | assumption)+)

lemma throws_retireGates [throws]: "throwsM recovery_errors (retireGates d f ev stage many committed gs a)"
  unfolding gateStep_def by (induction gs arbitrary: a) (auto intro!: throws simp: gateStep_def)

lemma throws_ciStep [throws]: "throwsM recovery_errors (ciStep d f ev stage v t a)"
  unfolding ciStep_def by (intro throws)

lemma throws_steps [throws]:
  "throwsM recovery_errors (verifiedHeadStep d ev linked a)"
  "throwsM recovery_errors (startGateStep d ev n a)"
  "throwsM recovery_errors (earlierHeadStep d ev linked pre a)"
  unfolding verifiedHeadStep_def startGateStep_def earlierHeadStep_def by (intro throws)+

lemma throws_developmentStep [throws]: "throwsM recovery_errors (developmentStep d ev i doc ci a)"
  unfolding developmentStep_def supersedeStep_def rejectStep_def reportAfter_def by (intro throws)

lemma throws_round [throws]: "throwsM recovery_errors (replayRound d f ev stage baseline a)"
  unfolding replayRound_def retireFailedCi_def followHeadUpdate_def followRejection_def retireAnsweredGates_def
    retireStartGate_def retireDevelopment_def retireEarlierHeads_def
  by (intro throws list_len_decreases retires_decreases ciStep_retires)

lemma throws_replay [throws]: "throwsM recovery_errors (replayPublications d f ev stage baseline a)"
  unfolding replayPublications_def by (intro throws replayRound_decreases)

lemma throws_superseded [throws]: "throwsM recovery_errors (supersededApprovals d ev linked ps)"
  by (induction ps) (auto intro!: throws)

lemma throws_reviewsJustified [throws]: "throwsM recovery_errors (reviewsJustified d ev xs)"
  by (induction xs) (auto intro!: throws)

lemma throws_marked [throws]: "throwsM recovery_errors (liftR (markedObjectKeys u ev a))"
  unfolding markedObjectKeys_def evidence_scope_def
  by (rule throwsM_liftR) (intro throws, simp add: recovery_errors_def)

lemma throws_recovery: "throwsM recovery_errors (recoveryIteration d bundle ev stage oc)"
  unfolding recoveryIteration_def dropSuperseded_def judgeReplay_def Let_def by (intro throws)


section \<open>What a reconstruction guarantees\<close>

lemma settled_baseline:
  assumes "settledIteration d f ev stage oc keys = Some r"
  shows "case r of IterReady b c re \<Rightarrow> b = keys \<or> (\<exists>k. b = filter (\<lambda>x. x \<noteq> k) keys) | IterAmbiguous b reason \<Rightarrow> b = keys"
proof -
  have g: "case migratedGate d f ev stage oc keys m of IterReady b c re \<Rightarrow> b = keys \<or> (\<exists>k. b = filter (\<lambda>x. x \<noteq> k) keys)
      | IterAmbiguous b reason \<Rightarrow> b = keys" for m
    unfolding migratedGate_def Let_def by (auto split: list.split option.split)
  show ?thesis using assms g
    by (auto simp: settledIteration_def mergedIteration_def Let_def split: option.split_asm if_split_asm)
qed

lemma replay_error:
  "replayPublications d f ev stage keys a s = (Inr (Inl r), s') \<Longrightarrow> \<exists>reason. r = IterAmbiguous keys reason"
  using replay_ok [of d f ev stage keys a s "Inl r" s'] by (cases r) auto

definition keys_kept :: "string list \<Rightarrow> RecoveryIteration \<Rightarrow> bool" where
  "keys_kept keys r = (case r of IterReady b c re \<Rightarrow> b = keys \<or> (\<exists>k. b = filter (\<lambda>x. x \<noteq> k) keys)
     | IterAmbiguous b reason \<Rightarrow> b = keys)"

lemma keys_kept_simps [simp]:
  "keys_kept keys (IterReady b c re) = (b = keys \<or> (\<exists>k. b = filter (\<lambda>x. x \<noteq> k) keys))"
  "keys_kept keys (IterAmbiguous b reason) = (b = keys)"
  by (simp_all add: keys_kept_def)

lemma filter_candidate: "\<exists>k. filter (\<lambda>x. Some x \<noteq> map_option g c) keys = filter (\<lambda>x. x \<noteq> k) keys \<or>
    filter (\<lambda>x. Some x \<noteq> map_option g c) keys = keys"
  by (cases c) auto

lemma wait_keys: "waitIteration f ev stage keys committed active = Some r \<Longrightarrow> keys_kept keys r"
  unfolding waitIteration_def Let_def using filter_candidate [of pb_key _ keys]
  by (auto split: list.split_asm if_split_asm option.split_asm)

lemma judge_keys: "returnsM (keys_kept keys) (judgeReplay d f ev stage keys committed active)"
  unfolding judgeReplay_def isolateCandidate_def Let_def
  by (intro returns) (auto dest: wait_keys)

lemma iteration_keys:
  assumes "recoveryIteration d bundle ev stage oc s = (Inr r, s')"
  shows "\<exists>keys. markedObjectKeys (dp_url d) ev (dp_providerApiUrl d) = ok keys \<and> keys_kept keys r"
proof -
  obtain keys where k: "markedObjectKeys (dp_url d) ev (dp_providerApiUrl d) = Inr keys"
    using assms by (auto simp: recoveryIteration_def run_iff)
  show ?thesis
  proof (cases "settledIteration d (cb_flow bundle) ev stage oc keys")
    case (Some x)
    then have "r = x" using assms k by (auto simp: recoveryIteration_def run_iff Let_def)
    then show ?thesis using settled_baseline [OF Some] k by (auto simp: keys_kept_def ok_def)
  next
    case None
    let ?a = "documentationRework (cb_flow bundle) ev oc (ownerPublications d ev oc)"
    obtain e s1 where e: "replayPublications d (cb_flow bundle) ev stage keys ?a s = (Inr e, s1)"
      "(case e of Inl r \<Rightarrow> retM r | Inr (active, committed) \<Rightarrow>
          bindM (dropSuperseded d ev committed (currentHeadReviews (cb_flow bundle) ev stage active))
            (judgeReplay d (cb_flow bundle) ev stage keys committed)) s1 = (Inr r, s')"
      using assms k None by (auto simp: recoveryIteration_def run_iff Let_def)
    show ?thesis
    proof (cases e)
      case (Inl x)
      then show ?thesis using e replay_error [of d "cb_flow bundle" ev stage keys ?a s x s1] k by (auto simp: run_iff ok_def)
    next
      case (Inr y)
      then show ?thesis using e(2) k returnsD [OF judge_keys] by (cases y) (auto simp: run_iff ok_def)
    qed
  qed
qed


text \<open>
  The reviews that a run looks at from a state on: each approves the head of the linked change request, and the
  provider, asked in this run, reports that its author may write.
\<close>

fun approvedReviews :: "'s Deps \<Rightarrow> RecoveryEvidence \<Rightarrow> NormalizedReview list \<Rightarrow> 's \<Rightarrow> 's \<Rightarrow> bool" where
  "approvedReviews d ev [] s s' \<longleftrightarrow> s' = s"
| "approvedReviews d ev (r # rs) s s' \<longleftrightarrow> (\<exists>q s1. nr_verdict r = VApproved
     \<and> Some (nr_headSha r) = map_option nc_headSha (sn_changeRequest (rv_snapshot ev))
     \<and> dp_permission d (tr_repository (ev_ref ev)) (nr_actor r) s = (Inr q, s1) \<and> authorized_permission q
     \<and> approvedReviews d ev rs s1 s')"

text \<open>The reviews that publications of a kind stand for.\<close>

definition review_objects :: "RecoveryEvidence \<Rightarrow> (PublicationKind \<times> Publication) list \<Rightarrow> NormalizedReview option list" where
  "review_objects ev xs = map (\<lambda>(k, p). review_for ev (pb_key p)) (filter (\<lambda>(k, p). k = PkReview) xs)"

lemma permitted_some:
  "permittedActor d ev a s = (Inr True, s') \<Longrightarrow>
    \<exists>q. dp_permission d (tr_repository (ev_ref ev)) a s = (Inr q, s') \<and> authorized_permission q"
  by (auto simp: permittedActor_def run_iff)

lemma reviewsJustified_none:
  assumes "reviewsJustified d ev xs s = (Inr None, s')"
  shows "\<exists>rs. review_objects ev xs = map Some rs \<and> approvedReviews d ev rs s s'"
  using assms
proof (induction xs arbitrary: s)
  case Nil
  then show ?case by (auto simp: review_objects_def run_iff intro!: exI [of _ "[]"])
next
  case (Cons x xs)
  obtain k p where x: "x = (k, p)" by (cases x)
  show ?case
  proof (cases "k = PkReview")
    case False
    then show ?thesis using Cons x by (auto simp: review_objects_def)
  next
    case True
    obtain r change where r: "review_for ev (pb_key p) = Some r" "sn_changeRequest (rv_snapshot ev) = Some change"
      "nr_verdict r = VApproved" "nr_headSha r = nc_headSha change"
      using Cons.prems(1) x True by (auto simp: run_iff split: option.split_asm if_split_asm)
    obtain s1 where s1: "permittedActor d ev (nr_actor r) s = (Inr True, s1)" "reviewsJustified d ev xs s1 = (Inr None, s')"
      using Cons.prems(1) x True r by (auto simp: run_iff split: if_split_asm)
    obtain rs where rs: "review_objects ev xs = map Some rs" "approvedReviews d ev rs s1 s'" using Cons.IH [OF s1(2)] by blast
    have "review_objects ev (x # xs) = map Some (r # rs)" using rs(1) x True r(1) by (simp add: review_objects_def)
    moreover have "approvedReviews d ev (r # rs) s s'" using r rs(2) permitted_some [OF s1(1)] by auto
    ultimately show ?thesis by blast
  qed
qed

lemma judge_ready:
  assumes "judgeReplay d f ev stage keys committed active s = (Inr (IterReady b c None), s')"
  shows "startsWithKinds ev committed active \<and> length active \<le> length committed + 1 \<and>
    (\<forall>p \<in> set active. pub_kind ev p \<noteq> None \<and> pb_key p \<in> set keys) \<and>
    (\<exists>rs. review_objects ev (zip committed active) = map Some rs \<and> approvedReviews d ev rs s s') \<and>
    b = (if length active = length committed then keys else filter (\<lambda>k. k \<noteq> pb_key (last active)) keys) \<and>
    c = (if committed = [] then None else Some (pb_createdAt (active ! (length committed - 1))))"
proof -
  have w: "waitIteration f ev stage keys committed active \<noteq> Some (IterReady b c None)"
    by (auto simp: waitIteration_def Let_def split: list.split option.split if_splits)
  have j: "startsWithKinds ev committed active" "\<forall>p \<in> set active. pub_kind ev p \<noteq> None \<and> pb_key p \<in> set keys"
    "reviewsJustified d ev (zip committed active) s = (Inr None, s')"
    "isolateCandidate f ev stage keys committed active = IterReady b c None"
    using assms w
    by (auto simp: judgeReplay_def run_iff list_ex_iff split: if_split_asm option.split_asm)
  have "length active \<le> length committed + 1" "b = (if length active = length committed then keys else filter (\<lambda>k. k \<noteq> pb_key (last active)) keys)"
    "c = (if committed = [] then None else Some (pb_createdAt (active ! (length committed - 1))))"
    using j(4) by (auto simp: isolateCandidate_def Let_def split: if_split_asm option.split_asm)
  then show ?thesis using j(1,2) reviewsJustified_none [OF j(3)] by blast
qed

text \<open>Without a migration nothing is retired: the replay only names what leads from the entry of the flow to the stage.\<close>

lemma replay_plain:
  assumes "rv_migration ev = None" "replayPublications d f ev stage keys a s = (Inr (Inr (left, committed)), s')"
  shows "left = a \<and> ev_path f ev stage None = ok (Some committed) \<and> s' = s"
proof -
  have round: "replayRound d f ev stage keys (a, None) = bindM (liftR (ev_path f ev stage None)) (\<lambda>path.
      case path of None \<Rightarrow> stopM (Inl (IterAmbiguous keys ''provider stage cannot be reconstructed from the pinned flow''))
      | Some c \<Rightarrow> stopM (Inr (a, c)))"
    using assms(1)
    by (simp add: replayRound_def retireFailedCi_def followHeadUpdate_def followRejection_def retireAnsweredGates_def
        retireStartGate_def retireDevelopment_def retireEarlierHeads_def cong: option.case_cong)
  show ?thesis using assms
    by (auto simp: replayPublications_def whileM_def round run_iff stopM_def ok_def split: option.split_asm loop_step.split_asm)
qed

lemma documentationRework_sub: "subseq (documentationRework f ev oc active) active"
  by (auto simp: documentationRework_def Let_def split: option.split)

lemma currentHeadReviews_sub: "subseq (currentHeadReviews f ev stage active) active"
  by (simp add: currentHeadReviews_def)

lemma dropSuperseded_sub: "returnsM (\<lambda>b. subseq b active) (dropSuperseded d ev committed active)"
  unfolding dropSuperseded_def by (intro returns) auto

end
