(* ===== verification/ReconcileLocal.thy ===== *)
theory ReconcileLocal
  imports ReconcileControl RecoveryIteration
begin

text \<open>
  reconcileLocal of src/runtime/reconcile.ts: what a controller with a local store does with a ticket
  after the recovery evidence has been classified. It stops work that another controller or a new
  activation supersedes, records every decision, loads the pinned configuration, reconstructs lost state,
  drops receipts whose publications are not on the ticket, and hands over to reconcileControl.
\<close>

section \<open>Receipts without publications\<close>

definition artifact_kind :: "ReceiptArtifact \<Rightarrow> PublicationKind" where
  "artifact_kind a = (case a of ArtComment c \<Rightarrow> PkComment | ArtChangeRequest c \<Rightarrow> PkChange | ArtReview r \<Rightarrow> PkReview)"

definition artifact_id :: "ReceiptArtifact \<Rightarrow> string" where
  "artifact_id a = (case a of ArtComment c \<Rightarrow> rcm_id c | ArtChangeRequest c \<Rightarrow> int_str (rcr_number c) | ArtReview r \<Rightarrow> rrv_id r)"

definition carriedChange :: "RecoveryEvidence \<Rightarrow> ReceiptArtifact \<Rightarrow> bool" where
  "carriedChange ev a = (case a of
      ArtChangeRequest c \<Rightarrow> map_option (\<lambda>m. mc_number (mg_change (rm_receipt m))) (rv_migration ev) = Some (rcr_number c)
    | _ \<Rightarrow> False)"

definition artifact_publication :: "RecoveryEvidence \<Rightarrow> ReceiptArtifact \<Rightarrow> Publication option" where
  "artifact_publication ev a =
    List.find (\<lambda>p. hasPublicationIdentity (pb_key p) (ev_ref ev) (artifact_kind a) (artifact_id a)) (rv_publications ev)"

text \<open>The object itself is on the ticket as the receipt describes it.\<close>

definition artifactPresent :: "RecoveryEvidence \<Rightarrow> ReceiptArtifact \<Rightarrow> bool" where
  "artifactPresent ev a = (case a of
      ArtChangeRequest c \<Rightarrow> list_ex (\<lambda>x. nc_number x = rcr_number c \<and> nc_headSha x = rcr_headSha c) (rv_changes ev)
    | ArtReview r \<Rightarrow> list_ex (\<lambda>x. nr_id x = rrv_id r \<and> nr_headSha x = rrv_headSha r \<and> nr_verdict x = rrv_verdict r) (rv_reviews ev)
    | ArtComment c \<Rightarrow> if rcm_artifactKind c \<noteq> AkDocumentation then True
        else (case List.find (\<lambda>x. pc_id x = rcm_id c) (sn_comments (rv_snapshot ev)) of None \<Rightarrow> False
          | Some x \<Rightarrow> (case (parseDocumentation (pc_body x), sn_changeRequest (rv_snapshot ev)) of
              (Some report, Some change) \<Rightarrow> nc_state change = CsOpen \<and> Some (dm_inputHead report) = rcm_inputHead c
                 \<and> dm_change report = nc_number change \<and> dm_resultHead report = nc_headSha change
            | _ \<Rightarrow> False)))"

definition artifactCommitted :: "RecoveryEvidence \<Rightarrow> ControlState \<Rightarrow> string \<Rightarrow> ReceiptArtifact \<Rightarrow> bool" where
  "artifactCommitted ev control controllerId a =
    (let p = artifact_publication ev a; carried = carriedChange ev a in
     (p \<noteq> None \<or> carried)
     \<and> \<not> (artifact_kind a = PkReview \<and> opt_is (\<lambda>x. pb_ownershipEligible x = Some False) p)
     \<and> (carried \<or> opt_is (\<lambda>x. pm_config (pb_metadata x) = cs_configRevision control \<and> controllerOf x = controllerId) p)
     \<and> artifactPresent ev a)"

definition gateCommitted :: "RecoveryEvidence \<Rightarrow> ReceiptHumanGate \<Rightarrow> bool" where
  "gateCommitted ev g \<longleftrightarrow> list_ex (\<lambda>c. pc_id c = rhg_sourceCommentId g \<and> \<not> isMarked (pc_body c)) (sn_comments (rv_snapshot ev))"

definition receiptCommitted :: "RecoveryEvidence \<Rightarrow> ControlState \<Rightarrow> string \<Rightarrow> AgentReceipt \<Rightarrow> bool" where
  "receiptCommitted ev control controllerId r \<longleftrightarrow>
    list_all (artifactCommitted ev control controllerId) (ar_artifacts r)
    \<and> (case ar_humanGate r of None \<Rightarrow> True | Some g \<Rightarrow> gateCommitted ev g)
    \<and> (ar_artifacts r \<noteq> [] \<or> ar_humanGate r \<noteq> None)"

text \<open>The receipt of the current succeeded attempt, the only one that is checked.\<close>

definition pendingReceipt :: "ControlState \<Rightarrow> AgentReceipt option" where
  "pendingReceipt control =
    (case cs_latestReceipt control of None \<Rightarrow> None
     | Some r \<Rightarrow> if ar_outcome r = Failed then None
        else (case cs_attemptSeries control of None \<Rightarrow> None
          | Some series \<Rightarrow> (case as_current series of None \<Rightarrow> None
             | Some cur \<Rightarrow> if at_status cur = AttSucceeded \<and> at_attemptId cur = ar_attemptId r then Some r else None)))"

definition clearedPatch :: "RecoveryEvidence \<Rightarrow> ControlState \<Rightarrow> AgentReceipt \<Rightarrow> ControlStatePatch" where
  "clearedPatch ev control r =
    (let documentation = List.find (\<lambda>a. case a of ArtComment c \<Rightarrow> rcm_artifactKind c = AkDocumentation | _ \<Rightarrow> False) (ar_artifacts r);
         inputHead = (case documentation of Some (ArtComment c) \<Rightarrow> truthy (rcm_inputHead c) | _ \<Rightarrow> None)
     in no_patch \<lparr>
       cp_attemptSeries := Some (map_option (\<lambda>s. s \<lparr> as_current := None \<rparr>) (cs_attemptSeries control)),
       cp_latestReceipt := Some None,
       cp_humanGate := Some (if opt_is (\<lambda>g. chg_interpretedByAttemptId g = ar_attemptId r) (cs_humanGate control)
          then None else cs_humanGate control),
       cp_changeRequest := Some (case (cs_changeRequest control, inputHead) of
          (Some cr, Some h) \<Rightarrow> Some (cr \<lparr> ccr_headSha := h \<rparr>)
        | _ \<Rightarrow> normalizedChange (sn_changeRequest (rv_snapshot ev))) \<rparr>)"

text \<open>None when the control state stays as it is.\<close>

definition clearUncommittedReceipt ::
  "'s Deps \<Rightarrow> RecoveryEvidence \<Rightarrow> ControlState \<Rightarrow> ('s, ControlState option) io" where
  "clearUncommittedReceipt d ev control =
    (case pendingReceipt control of None \<Rightarrow> retM None
     | Some r \<Rightarrow> if receiptCommitted ev control (dp_controllerId d) r then retM None
        else bindM (dp_now d) (\<lambda>now.
          bindM (liftR (advanceControlState (dp_controlSchema d) control (clearedPatch ev control r) now)) (\<lambda>n. retM (Some n))))"

section \<open>What becomes of the local state\<close>

type_synonym stored = "StoredExecution option"

definition reassessedDecision :: "RecoveryEvidence \<Rightarrow> stored \<Rightarrow> RecoveryDecision \<Rightarrow> RecoveryDecision" where
  "reassessedDecision ev st decided =
    (case rv_migration ev of None \<Rightarrow> decided
     | Some m \<Rightarrow>
        (let r = rm_receipt m in
         if \<not> opt_is (\<lambda>x. le_migrationId (st_value x) = Some (rm_id m)) st
           \<and> mg_sourceStage r \<in> {''blocked'', ''needs-human''} \<and> mg_sourceResume r \<noteq> None
           \<and> rd_kind decided = RAmbiguous
           \<and> rd_reason decided = Some (mg_sourceStage r @ '' resume target is unavailable'')
           \<and> list_all (\<lambda>p. pb_key p \<in> set (retained_keys m)) (rv_publications ev)
         then decision RReassess (rd_owner decided) None else decided))"

definition migrationStarts :: "RecoveryEvidence \<Rightarrow> stored \<Rightarrow> RecoveryDecision \<Rightarrow> bool" where
  "migrationStarts ev st decided = (case rv_migration ev of None \<Rightarrow> False
     | Some m \<Rightarrow> \<not> opt_is (\<lambda>x. le_migrationId (st_value x) = Some (rm_id m)) st
         \<and> rd_kind decided \<noteq> RForeign \<and> rd_kind decided \<noteq> RAmbiguous
         \<and> sn_open (rv_snapshot ev) \<and> av_present (sn_activation (rv_snapshot ev)))"

definition newActivation :: "RecoveryEvidence \<Rightarrow> ControlState \<Rightarrow> bool" where
  "newActivation ev control = (rv_activeBoundary ev = BFresh
     \<and> (case av_eventId (sn_activation (rv_snapshot ev)) of None \<Rightarrow> False | Some e \<Rightarrow> e \<noteq> cs_activationEventId control))"

text \<open>A verified migration and a fresh activation replace the local state, and stop its work.\<close>

definition currentControl ::
  "'s Deps \<Rightarrow> RecoveryEvidence \<Rightarrow> stored \<Rightarrow> RecoveryDecision \<Rightarrow> ('s, ControlState option) io" where
  "currentControl d ev st decided =
    (case stored_control st of None \<Rightarrow> retM None
     | Some control \<Rightarrow>
        if migrationStarts ev st decided then thenM (dp_cancel d (cs_flowInstanceId control)) (retM None)
        else if newActivation ev control
        then thenM (whenM (\<not> terminal_state (cs_stateId control)) (dp_cancel d (cs_flowInstanceId control))) (retM None)
        else retM (Some control))"

definition recordedOutcome ::
  "'s Deps \<Rightarrow> RecoveryEvidence \<Rightarrow> RecoveryDecision \<Rightarrow> ControlState option \<Rightarrow> string list option \<Rightarrow> bool
     \<Rightarrow> ('s, ReconcileOutcome) io" where
  "recordedOutcome d ev decided control keys changed =
    bindM (dp_recordRecovery d (ev_ref ev) ev decided (Some control) keys) (\<lambda>st.
      liftR (outcome d (le_control (st_value st)) None (rv_snapshot ev) changed False False))"

section \<open>Tickets that are not worked on\<close>

definition inactiveOwner :: "RecoveryEvidence \<Rightarrow> ControlState option \<Rightarrow> Publication option res" where
  "inactiveOwner ev control = (case control of None \<Rightarrow> ok None
     | Some c \<Rightarrow> electOwner (filter (\<lambda>p. case (date_parse (pb_createdAt p), date_parse (cs_activatedAt c)) of
          (Some a, Some b) \<Rightarrow> a \<ge> b | _ \<Rightarrow> False) (rv_publications ev)))"

definition inactiveTicket ::
  "'s Deps \<Rightarrow> RecoveryEvidence \<Rightarrow> stored \<Rightarrow> RecoveryDecision \<Rightarrow> ControlState option \<Rightarrow> ('s, ReconcileOutcome) io" where
  "inactiveTicket d ev st decided control =
    bindM (liftR (inactiveOwner ev control)) (\<lambda>ow.
      (let sn = rv_snapshot ev;
           isForeign = (opt_is (\<lambda>p. controllerOf p \<noteq> dp_controllerId d) ow
             \<or> opt_is (\<lambda>x. le_disposition (st_value x) = DForeign
                 \<or> opt_is (\<lambda>o'. lo_controllerId o' \<noteq> dp_controllerId d) (le_owner (st_value x))) st)
       in (case control of
         None \<Rightarrow> recordedOutcome d ev decided None None False
       | Some c \<Rightarrow>
          if isForeign
          then thenM (dp_cancel d (cs_flowInstanceId c))
            (recordedOutcome d ev (decision RForeign ow
               (Some ''Inactive work belongs to another controller; local work stopped without provider changes.'')) control None False)
          else if \<not> terminal_state (cs_stateId c)
          then bindM (cancelLocal d sn c) (\<lambda>c'. recordedOutcome d ev decided (Some c') None True)
          else bindM (dp_loadPinned d (cs_configRevision c)) (\<lambda>pinned.
            thenM (liftR (assertBundle pinned (cs_configRevision c)))
           (thenM (ownLabels d (ev_ref ev) (sn_labels sn) pinned (cs_stateId c) True (cs_activationLabel c))
             (recordedOutcome d ev decided (Some c) None True))))))"

text \<open>An ambiguous ticket or one of another controller: the local attempt stops, the decision is recorded.\<close>

definition suspendedTicket ::
  "'s Deps \<Rightarrow> RecoveryEvidence \<Rightarrow> RecoveryDecision \<Rightarrow> ControlState option \<Rightarrow> ('s, ReconcileOutcome) io" where
  "suspendedTicket d ev decided control =
    thenM (case control of Some c \<Rightarrow> whenM (\<not> terminal_state (cs_stateId c)) (dp_cancel d (cs_flowInstanceId c)) | None \<Rightarrow> retM ())
      (recordedOutcome d ev decided control None False)"


section \<open>The configuration of the ticket\<close>

text \<open>Either the bundle, or the outcome when the winning configuration is not the local one.\<close>

definition localBundle ::
  "'s Deps \<Rightarrow> RecoveryEvidence \<Rightarrow> RecoveryDecision \<Rightarrow> ControlState option \<Rightarrow> ('s, ReconcileOutcome + ConfigBundle) io" where
  "localBundle d ev decided control =
    (case control of
       Some c \<Rightarrow>
        bindM (callM ''pinned configuration load failed'' (dp_loadPinned d (cs_configRevision c))) (\<lambda>b.
         thenM (liftR (assertBundle b (cs_configRevision c)))
        (thenM (checkM (fd_id (cb_flow b) \<noteq> cs_flowId c) ''control flow does not match pinned configuration'')
          (if opt_is (\<lambda>p. pm_config (pb_metadata p) \<noteq> cs_configRevision c) (rd_owner decided)
           then bindM (recordedOutcome d ev (decision RAmbiguous (rd_owner decided)
                  (Some ''winning configuration does not match local execution'')) control None False) (\<lambda>r. retM (Inl r))
           else retM (Inr b))))
     | None \<Rightarrow>
        (case rd_owner decided of
           Some p \<Rightarrow>
             bindM (callM ''pinned configuration load failed'' (dp_loadPinned d (pm_config (pb_metadata p)))) (\<lambda>b.
              thenM (liftR (assertBundle b (pm_config (pb_metadata p)))) (retM (Inr b)))
         | None \<Rightarrow>
             bindM (callM ''current configuration load failed'' (dp_loadCurrent d)) (\<lambda>b.
              thenM (liftR (assertBundle b (cb_revision b))) (retM (Inr b)))))"

definition availableBundle ::
  "'s Deps \<Rightarrow> RecoveryEvidence \<Rightarrow> RecoveryDecision \<Rightarrow> ControlState option \<Rightarrow> ('s, ReconcileOutcome + ConfigBundle) io" where
  "availableBundle d ev decided control =
    tryM (localBundle d ev decided control) (\<lambda>_.
      thenM (case control of Some c \<Rightarrow> dp_cancel d (cs_flowInstanceId c) | None \<Rightarrow> retM ())
     (bindM (recordedOutcome d ev (decision RAmbiguous (rd_owner decided)
        (Some ''Pinned configuration is unavailable. Restore access to the published configuration commit.'')) control None False)
        (\<lambda>r. retM (Inl r))))"

section \<open>Reconstructing lost state\<close>

definition freshStart :: "RecoveryEvidence \<Rightarrow> bool" where
  "freshStart ev \<longleftrightarrow> rv_migration ev = None \<and> rv_activeBoundary ev = BFresh \<and> rv_publications ev = []"

text \<open>While the label of the source is still on the ticket, its iteration may already name the destination.\<close>

definition migrationStage ::
  "'s Deps \<Rightarrow> ConfigBundle \<Rightarrow> RecoveryEvidence \<Rightarrow> RecoveryDecision \<Rightarrow> string \<Rightarrow> ('s, string) io" where
  "migrationStage d bundle ev decided stage =
    (case rv_migration ev of None \<Rightarrow> retM stage
     | Some m \<Rightarrow>
        (let r = rm_receipt m;
             sourceLabel = (if mg_sourceStage r = ''bug-awaiting-merge'' then ''awaiting-merge'' else mg_sourceStage r)
         in if (''agent-stage:'' @ sourceLabel) \<notin> set (sn_labels (rv_snapshot ev)) then retM stage
            else bindM (recoveryIteration d bundle ev stage (map_option controllerOf (rd_owner decided))) (\<lambda>i.
              retM (case i of IterAmbiguous b reason \<Rightarrow> mg_start r
                | IterReady b c re \<Rightarrow> if re = Some (mg_start r) then mg_start r else stage))))"

definition recoveredControl ::
  "ConfigBundle \<Rightarrow> RecoveryEvidence \<Rightarrow> string \<Rightarrow> string \<Rightarrow> string \<Rightarrow> Actor \<Rightarrow> string \<Rightarrow> string \<Rightarrow> ControlState" where
  "recoveredControl bundle ev flowInstanceId stage timestamp actor eventId occurredAt =
    (let sn = rv_snapshot ev in
    \<lparr> cs_flowInstanceId = flowInstanceId, cs_flowId = fd_id (cb_flow bundle), cs_configRevision = cb_revision bundle,
      cs_sequence = 0, cs_stateId = stage, cs_resumeStateId = None, cs_activatedBy = actor, cs_activatedAt = occurredAt,
      cs_activationEventId = eventId,
      cs_activationLabel = Some (opt_or (av_label (sn_activation sn)) (fd_activationLabel (cb_flow bundle))),
      cs_updatedAt = timestamp, cs_attemptSeries = None, cs_latestReceipt = None, cs_humanGate = None,
      cs_changeRequest = (if freshStart ev then None else normalizedChange (sn_changeRequest sn)) \<rparr>)"

definition unstarted ::
  "'s Deps \<Rightarrow> RecoveryEvidence \<Rightarrow> RecoveryDecision \<Rightarrow> bool \<Rightarrow> ('s, ReconcileOutcome + (stored \<times> ControlState)) io" where
  "unstarted d ev decided runnable =
    thenM (dp_recordRecovery d (ev_ref ev) ev decided (Some None) None)
   (bindM (liftR (outcome d None None (rv_snapshot ev) False False runnable)) (\<lambda>r. retM (Inl r)))"

text \<open>The rest of the reconstruction, once the activation is known and its actor may write.\<close>

definition recoverStage ::
  "'s Deps \<Rightarrow> ConfigBundle \<Rightarrow> RecoveryEvidence \<Rightarrow> RecoveryDecision \<Rightarrow> string \<Rightarrow> Actor \<Rightarrow> string \<Rightarrow> string
     \<Rightarrow> ('s, ReconcileOutcome + (stored \<times> ControlState)) io" where
  "recoverStage d bundle ev decided stage actor eventId occurredAt =
    bindM (recoveryIteration d bundle ev stage (map_option controllerOf (rd_owner decided))) (\<lambda>i.
    (case i of
       IterAmbiguous b reason \<Rightarrow>
         bindM (recordedOutcome d ev (decision RAmbiguous (rd_owner decided) (Some reason)) None (Some b) False) (\<lambda>r. retM (Inl r))
     | IterReady b cutoff re \<Rightarrow>
         bindM (case cutoff of Some t \<Rightarrow> retM t | None \<Rightarrow> dp_now d) (\<lambda>timestamp.
         bindM (case rv_migration ev of Some m \<Rightarrow> retM (mg_workspace (rm_receipt m)) | None \<Rightarrow> dp_newFlowInstanceId d) (\<lambda>flowInstanceId.
         bindM (dp_recordRecovery d (ev_ref ev) ev decided
             (Some (Some (recoveredControl bundle ev flowInstanceId (opt_or re stage) timestamp actor eventId occurredAt))) (Some b)) (\<lambda>st.
           (case le_control (st_value st) of Some c \<Rightarrow> retM (Inr (Some st, c)) | None \<Rightarrow> failM ''TypeError''))))))"

definition recoverControl ::
  "'s Deps \<Rightarrow> ConfigBundle \<Rightarrow> RecoveryEvidence \<Rightarrow> RecoveryDecision \<Rightarrow> ('s, ReconcileOutcome + (stored \<times> ControlState)) io" where
  "recoverControl d bundle ev decided =
    (let sn = rv_snapshot ev; a = sn_activation sn; f = cb_flow bundle in
     bindM (liftR (entryStage f (av_label a))) (\<lambda>entry.
     bindM (if freshStart ev then retM entry else liftR (providerStage sn f)) (\<lambda>stage0.
     bindM (migrationStage d bundle ev decided stage0) (\<lambda>stage1.
      (let stage = opt_or (freshReviewTarget f stage1 ev (dp_controllerId d)) stage1 in
       if rd_kind decided = RResume \<and> rv_activeBoundary ev \<noteq> BFresh \<and> stage \<noteq> entry
       then unstarted d ev decided True
       else (case (av_actor a, truthy (av_eventId a), truthy (av_occurredAt a)) of
          (Some actor, Some eventId, Some occurredAt) \<Rightarrow>
            bindM (callM ''provider permission read failed'' (dp_permission d (tr_repository (ev_ref ev)) actor)) (\<lambda>p.
              if \<not> authorized_permission p
              then unstarted d ev (decision RAmbiguous (rd_owner decided) (Some ''activation actor lacks write permission'')) False
              else recoverStage d bundle ev decided stage actor eventId occurredAt)
        | _ \<Rightarrow> unstarted d ev (decision RAmbiguous (rd_owner decided) (Some ''activation evidence is unavailable'')) False))))))"

section \<open>Going on with the control state\<close>

text \<open>The state to go on with: the local one, recorded unless its attempt runs, or the reconstructed one.\<close>

definition controlToContinue ::
  "'s Deps \<Rightarrow> ConfigBundle \<Rightarrow> RecoveryEvidence \<Rightarrow> stored \<Rightarrow> RecoveryDecision \<Rightarrow> ControlState option
     \<Rightarrow> ('s, ReconcileOutcome + (stored \<times> ControlState)) io" where
  "controlToContinue d bundle ev st decided control =
    (case control of None \<Rightarrow> recoverControl d bundle ev decided
     | Some c \<Rightarrow>
        bindM (getM (dp_isRunning d (cs_flowInstanceId c))) (\<lambda>running.
          if running then retM (Inr (st, c))
          else bindM (dp_recordRecovery d (ev_ref ev) ev decided (Some (Some c)) (map_option (\<lambda>x. le_publicationKeys (st_value x)) st)) (\<lambda>st'.
            (case le_control (st_value st') of Some c' \<Rightarrow> retM (Inr (Some st', c')) | None \<Rightarrow> failM ''TypeError''))))"

definition rerouteReview ::
  "'s Deps \<Rightarrow> ConfigBundle \<Rightarrow> RecoveryEvidence \<Rightarrow> string list \<Rightarrow> stored \<Rightarrow> ControlState \<Rightarrow> ('s, stored \<times> ControlState \<times> bool) io" where
  "rerouteReview d bundle ev observed st control =
    (case freshReviewTarget (cb_flow bundle) (cs_stateId control) ev (dp_controllerId d) of
       None \<Rightarrow> retM (st, control, False)
     | Some target \<Rightarrow>
        bindM (dp_now d) (\<lambda>now.
        bindM (liftR (advanceControlState (dp_controlSchema d) control
           (no_patch \<lparr> cp_stateId := Some target, cp_attemptSeries := Some None, cp_latestReceipt := Some None \<rparr>) now)) (\<lambda>n.
         thenM (writeExistingControl d (ev_ref ev) control n (Some observed))
        (bindM (dp_load d (ev_ref ev)) (\<lambda>st'. retM (st', n, True))))))"

definition continueLocal ::
  "'s Deps \<Rightarrow> ConfigBundle \<Rightarrow> RecoveryEvidence \<Rightarrow> stored \<Rightarrow> ControlState \<Rightarrow> ('s, ReconcileOutcome) io" where
  "continueLocal d bundle ev st control =
    bindM (liftR (markedObjectKeys (dp_url d) ev (dp_providerApiUrl d))) (\<lambda>observed.
     thenM (if waitsForProvider (state_of (cb_flow bundle) (cs_stateId control))
         then liftR (assertChangeIdentity (cs_changeRequest control) (sn_changeRequest (rv_snapshot ev))) else retM ())
    (bindM (rerouteReview d bundle ev observed st control) (\<lambda>(st', c, rerouted).
     bindM (clearUncommittedReceipt d ev c) (\<lambda>validated.
     (case validated of
        None \<Rightarrow>
          bindM (reconcileControl d (rv_snapshot ev) bundle c
              (case st' of Some x \<Rightarrow> le_publicationKeys (st_value x) | None \<Rightarrow> map pb_key (rv_publications ev)) observed) (\<lambda>r.
            retM (if rerouted then r \<lparr> ro_changed := True \<rparr> else r))
      | Some n \<Rightarrow>
          thenM (writeExistingControl d (ev_ref ev) c n (Some observed))
         (bindM (reconcileControl d (rv_snapshot ev) bundle n observed observed) (\<lambda>r.
            retM (r \<lparr> ro_changed := True \<rparr>))))))))"

definition workedTicket ::
  "'s Deps \<Rightarrow> RecoveryEvidence \<Rightarrow> stored \<Rightarrow> RecoveryDecision \<Rightarrow> bool \<Rightarrow> ControlState option \<Rightarrow> ('s, ReconcileOutcome) io" where
  "workedTicket d ev st decided localResume control =
    bindM (availableBundle d ev decided control) (\<lambda>b.
    (case b of Inl r \<Rightarrow> retM r
     | Inr bundle \<Rightarrow>
        thenM (liftR (assertAllowed d (ev_ref ev)))
        (if localResume \<and> \<not> opt_is (hasValidLocalResume (cb_flow bundle)) control
         then recordedOutcome d ev decided control None False
         else bindM (controlToContinue d bundle ev st
                (if localResume then decision (if rd_owner decided \<noteq> None then RReassess else RResume) (rd_owner decided) None
                 else decided) control) (\<lambda>c.
           (case c of Inl r \<Rightarrow> retM r | Inr (st', control') \<Rightarrow> continueLocal d bundle ev st' control')))))"

definition mergedWait :: "RecoveryEvidence \<Rightarrow> ControlState option \<Rightarrow> bool" where
  "mergedWait ev control \<longleftrightarrow> opt_is (\<lambda>c. cs_stateId c \<in> {''awaiting-merge'', ''bug-awaiting-merge''}) control
     \<and> opt_is (\<lambda>x. nc_state x = CsMerged) (sn_changeRequest (rv_snapshot ev))"

definition reconcileLocal ::
  "'s Deps \<Rightarrow> RecoveryEvidence \<Rightarrow> RecoveryDecision \<Rightarrow> ('s, ReconcileOutcome) io" where
  "reconcileLocal d ev decided0 =
    bindM (dp_load d (ev_ref ev)) (\<lambda>st.
     thenM (checkM (opt_is (\<lambda>x. le_controllerId (st_value x) \<noteq> dp_controllerId d) st)
              ''local execution belongs to another controller identity'')
     (let decided = reassessedDecision ev st decided0 in
      bindM (currentControl d ev st decided) (\<lambda>control.
      (let localResume = opt_is (isMissingLocalResume decided (rv_snapshot ev)) control in
       if rd_kind decided = RInactive \<and> \<not> mergedWait ev control then inactiveTicket d ev st decided control
       else if (rd_kind decided = RAmbiguous \<and> \<not> localResume) \<or> rd_kind decided = RForeign
       then suspendedTicket d ev decided control
       else workedTicket d ev st decided localResume control))))"


section \<open>Attempts run under the pinned configuration\<close>

lemma finishControl_pinned:
  assumes "finishControl d sn b control n changed keys s = (Inr r, s')" "ro_started r"
  shows "cs_configRevision n = cb_revision b"
proof -
  have nt: "\<not> terminal_state (cs_stateId n)" using finishControl_started [OF assms(1)] assms(2) by blast
  obtain st where "outcome d (Some n) (Some b) sn changed st True = Inr r"
    using assms(1) unfolding finishControl_def Let_def by (auto simp: run_iff)
  then show ?thesis using nt by (auto simp: outcome_def Let_def bindR_Inr_iff checkR_def fail_def split: if_split_asm)
qed

lemma reconcileControl_pinned:
  assumes "reconcileControl d snapshot b control keys obs s = (Inr r, s')" "ro_started r"
  shows "cs_configRevision control = cb_revision b"
  using assms(1)
proof (cases rule: reconcileControl_cases)
  case cancelled
  then show ?thesis using cancelLocalOutcome_started [OF cancelled(2)] assms(2) by simp
next
  case (waiting s1)
  then show ?thesis using waitForCi_outcome [OF waiting(2)] assms(2) by simp
next
  case (event t e0 ch e s1 s2)
  then obtain m ts n s3 where
    adv: "advanceControlState (dp_controlSchema d) t (stepPatch (cb_flow b) (activeSnapshot b control snapshot) control t m) ts = Inr n"
    and f: "finishControl d (activeSnapshot b control snapshot) b control n True obs s3 = (Inr r, s')"
    unfolding applyEvent_def by (auto simp: run_iff)
  have "same_identity control n"
    using advance_ok [OF advance_Inr [OF adv]] gateEvent_base [OF event(1)] by (auto simp: gate_base_def intro: same_identity_trans)
  then show ?thesis using finishControl_pinned [OF f assms(2)] by (simp add: same_identity_def)
next
  case (moved t e0 ch s1 s2)
  then obtain ts n s3 where
    adv: "advanceControlState (dp_controlSchema d) control
        (no_patch \<lparr> cp_changeRequest := Some (normalizedChange (sn_changeRequest (activeSnapshot b control snapshot))) \<rparr>) ts = Inr n"
    and f: "finishControl d (activeSnapshot b control snapshot) b control n True obs s3 = (Inr r, s')"
    unfolding refreshReviewHead_def by (auto simp: run_iff)
  then show ?thesis using finishControl_pinned [OF f assms(2)] advance_ok [OF advance_Inr [OF adv]] by (simp add: same_identity_def)
next
  case (steady t e0 ch s1 s2)
  then show ?thesis using finishControl_pinned [OF steady(3) assms(2)] by simp
qed

section \<open>Which receipts survive\<close>

lemma artifactCommitted_meaning:
  assumes "artifactCommitted ev control cid a"
  shows "artifactPresent ev a \<and> (carriedChange ev a \<or>
    (\<exists>p \<in> set (rv_publications ev). hasPublicationIdentity (pb_key p) (ev_ref ev) (artifact_kind a) (artifact_id a)
       \<and> pm_config (pb_metadata p) = cs_configRevision control \<and> controllerOf p = cid
       \<and> (artifact_kind a = PkReview \<longrightarrow> pb_ownershipEligible p \<noteq> Some False)))"
  using assms unfolding artifactCommitted_def Let_def artifact_publication_def
  by (auto simp: opt_is_iff dest: find_Some_in)

definition settled_receipt :: "RecoveryEvidence \<Rightarrow> string \<Rightarrow> ControlState \<Rightarrow> bool" where
  "settled_receipt ev cid c = (case pendingReceipt c of None \<Rightarrow> True | Some r \<Rightarrow> receiptCommitted ev c cid r)"

lemma cleared_ok:
  assumes "clearUncommittedReceipt d ev control s = (Inr x, s')"
  shows "case x of None \<Rightarrow> settled_receipt ev (dp_controllerId d) control \<and> s' = s
    | Some n \<Rightarrow> \<not> settled_receipt ev (dp_controllerId d) control \<and> cs_latestReceipt n = None \<and>
        opt_is (\<lambda>a. as_current a \<noteq> None) (cs_attemptSeries n) = False \<and>
        cs_stateId n = cs_stateId control \<and> cs_sequence n = cs_sequence control + 1 \<and> same_identity control n"
proof (cases "pendingReceipt control")
  case None
  then show ?thesis using assms by (simp add: clearUncommittedReceipt_def run_iff settled_receipt_def)
next
  case (Some r)
  show ?thesis
  proof (cases "receiptCommitted ev control (dp_controllerId d) r")
    case True
    then show ?thesis using assms Some by (simp add: clearUncommittedReceipt_def run_iff settled_receipt_def)
  next
    case False
    then obtain now n where n: "advanceControlState (dp_controlSchema d) control (clearedPatch ev control r) now = Inr n" "x = Some n"
      using assms Some by (auto simp: clearUncommittedReceipt_def run_iff)
    then show ?thesis using advance_ok [OF advance_Inr [OF n(1)]] Some False
      by (cases "cs_attemptSeries control") (auto simp: settled_receipt_def clearedPatch_def Let_def no_patch_def)
  qed
qed

text \<open>
  The control states that the local store is known to hold in the poll that starts in the state s: the one that the poll
  loads, of this controller; one that the store returns for a recorded decision on this evidence; and one that is written
  by compare-and-swap in the place of such a state, as its successor.
\<close>

inductive from_store :: "'s Deps \<Rightarrow> RecoveryEvidence \<Rightarrow> 's \<Rightarrow> ControlState \<Rightarrow> bool" for d ev s where
  loaded: "dp_load d (ev_ref ev) s = (Inr (Some st), s1) \<Longrightarrow> le_controllerId (st_value st) = dp_controllerId d \<Longrightarrow>
    le_control (st_value st) = Some c \<Longrightarrow> from_store d ev s c"
| recorded: "dp_recordRecovery d (ev_ref ev) ev decided x keys t = (Inr st, t') \<Longrightarrow> le_control (st_value st) = Some c \<Longrightarrow>
    from_store d ev s c"
| written: "from_store d ev s c \<Longrightarrow> dp_writeControl d (ev_ref ev) (Some c) n keys t = (Inr n, t') \<Longrightarrow>
    cs_sequence n = cs_sequence c + 1 \<Longrightarrow> same_identity c n \<Longrightarrow> from_store d ev s n"

lemma from_store_persisted: "from_store d ev s c \<Longrightarrow> persisted d (ev_ref ev) c n \<Longrightarrow> from_store d ev s n"
  unfolding persisted_def by (auto intro: from_store.written)

lemma from_store_cong:
  assumes "from_store d ev s c" "dp_load d = dp_load d'" "dp_recordRecovery d = dp_recordRecovery d'"
    "dp_writeControl d = dp_writeControl d'" "dp_controllerId d = dp_controllerId d'"
  shows "from_store d' ev s c"
  using assms(1)
proof induction
  case (loaded st s1 c)
  then show ?case using assms(2,5) from_store.loaded [of d' ev s st s1 c] by simp
next
  case (recorded decided x keys t st t' c)
  then show ?case using assms(3) from_store.recorded [of d' ev decided x keys t st t' c s] by simp
next
  case (written c n keys t t')
  then show ?case using assms(4) from_store.written [of d' ev s c n keys t t'] by simp
qed

lemma written_from_store:
  assumes "from_store d ev s c" "advanceControlState schema c p now = Inr n" "writeExistingControl d (ev_ref ev) c n keys t = (Inr u, t')"
  shows "from_store d ev s n"
  using from_store.written [OF assms(1) writeExisting_ok [OF assms(3)]] advance_ok [OF advance_Inr [OF assms(2)]] by blast

lemma reroute_from_store:
  assumes "rerouteReview d b ev obs st control t = (Inr (st', c, rr), t')" "from_store d ev s control"
  shows "from_store d ev s c"
proof (cases "freshReviewTarget (cb_flow b) (cs_stateId control) ev (dp_controllerId d)")
  case None
  then show ?thesis using assms by (simp add: rerouteReview_def run_iff)
next
  case (Some target)
  then show ?thesis using assms by (auto simp: rerouteReview_def run_iff dest: written_from_store)
qed

lemma returns_iteration [returns]:
  "(\<And>b c re. v = IterReady b c re \<Longrightarrow> returnsM Q (f b c re)) \<Longrightarrow> (\<And>b m. v = IterAmbiguous b m \<Longrightarrow> returnsM Q (g b m)) \<Longrightarrow>
    returnsM Q (case v of IterReady b c re \<Rightarrow> f b c re | IterAmbiguous b m \<Rightarrow> g b m)"
  by (cases v) auto

lemma recoverControl_from_store:
  "returnsM (\<lambda>x. case x of Inl r \<Rightarrow> True | Inr (st, c) \<Rightarrow> from_store d ev s c) (recoverControl d b ev decided)"
proof -
  have u: "returnsM (\<lambda>x. case x of Inl r \<Rightarrow> True | Inr (st, c) \<Rightarrow> from_store d ev s c) (unstarted d ev dc rn)" for dc rn
    unfolding unstarted_def thenM_def by (intro returns) simp
  have o: "returnsM (\<lambda>x. case x of Inl r \<Rightarrow> True | Inr (st, c) \<Rightarrow> from_store d ev s c)
      (bindM (recordedOutcome d ev dc co ks ch) (\<lambda>r. retM (Inl r)))" for dc co ks ch
    by (intro returns) simp
  have r: "returnsM (\<lambda>x. case x of Inl r \<Rightarrow> True | Inr (st, c) \<Rightarrow> from_store d ev s c)
      (bindM (dp_recordRecovery d (ev_ref ev) ev dc co ks) (\<lambda>st. case le_control (st_value st) of
         Some c \<Rightarrow> retM (Inr (Some st, c)) | None \<Rightarrow> failM ''TypeError''))" for dc co ks
    unfolding returnsM_def by (auto simp: run_iff split: option.split_asm intro: from_store.recorded)
  show ?thesis unfolding recoverControl_def recoverStage_def Let_def
    by (intro returns_last returns_if returns_option returns_prod returns_iteration u o r)
qed

lemma continue_from_store:
  assumes "controlToContinue d b ev st decided control t = (Inr (Inr (st', c)), t')"
    "\<And>c. control = Some c \<Longrightarrow> from_store d ev s c"
  shows "from_store d ev s c"
proof (cases control)
  case None
  then have "recoverControl d b ev decided t = (Inr (Inr (st', c)), t')" using assms(1) by (simp add: controlToContinue_def)
  from returnsD [OF recoverControl_from_store this] show ?thesis by simp
next
  case (Some c0)
  then show ?thesis using assms
    by (auto simp: controlToContinue_def run_iff split: if_split_asm option.split_asm intro: from_store.recorded)
qed

lemma continueLocal_ok:
  assumes "continueLocal d b ev st control s = (Inr r, s')" "from_store d ev t0 control"
  shows "\<exists>c keys obs s1 r0. reconcileControl d (rv_snapshot ev) b c keys obs s1 = (Inr r0, s') \<and>
    ro_started r = ro_started r0 \<and> settled_receipt ev (dp_controllerId d) c \<and> from_store d ev t0 c"
proof -
  obtain obs st' c rr s1 s2 v s3 where
    c: "rerouteReview d b ev obs st control s1 = (Inr (st', c, rr), s2)"
      "clearUncommittedReceipt d ev c s2 = (Inr v, s3)"
    and k: "(case v of
        None \<Rightarrow> bindM (reconcileControl d (rv_snapshot ev) b c
              (case st' of Some x \<Rightarrow> le_publicationKeys (st_value x) | None \<Rightarrow> map pb_key (rv_publications ev)) obs) (\<lambda>r.
            retM (if rr then r \<lparr> ro_changed := True \<rparr> else r))
      | Some n \<Rightarrow> thenM (writeExistingControl d (ev_ref ev) c n (Some obs))
         (bindM (reconcileControl d (rv_snapshot ev) b n obs obs) (\<lambda>r. retM (r \<lparr> ro_changed := True \<rparr>)))) s3 = (Inr r, s')"
    using assms(1) unfolding continueLocal_def by (auto simp: run_iff)
  note cl = cleared_ok [OF c(2)]
  have from_c: "from_store d ev t0 c" by (rule reroute_from_store [OF c(1) assms(2)])
  show ?thesis
  proof (cases v)
    case None
    obtain ks where ks: "ks = (case st' of Some x \<Rightarrow> le_publicationKeys (st_value x) | None \<Rightarrow> map pb_key (rv_publications ev))" by blast
    obtain r0 where "reconcileControl d (rv_snapshot ev) b c ks obs s3 = (Inr r0, s')" "ro_started r = ro_started r0"
      using k None unfolding ks by (auto simp: run_iff split: if_split_asm)
    then show ?thesis using cl None from_c by fastforce
  next
    case (Some n)
    obtain s4 where w: "writeExistingControl d (ev_ref ev) c n (Some obs) s3 = (Inr (), s4)" using k Some by (auto simp: run_iff)
    have "from_store d ev t0 n"
      using from_store.written [OF from_c writeExisting_ok [OF w]] cl Some by simp
    moreover have n: "settled_receipt ev (dp_controllerId d) n" using cl Some by (simp add: settled_receipt_def pendingReceipt_def)
    obtain r0 s4 where "reconcileControl d (rv_snapshot ev) b n obs obs s4 = (Inr r0, s')" "ro_started r = ro_started r0"
      using k Some by (auto simp: run_iff)
    ultimately show ?thesis using n by blast
  qed
qed

lemma recordedOutcome_idle: "recordedOutcome d ev decided c keys ch s = (Inr r, s') \<Longrightarrow> \<not> ro_started r"
  unfolding recordedOutcome_def by (auto simp: run_iff dest!: outcome_fields)

lemma inactive_idle: "inactiveTicket d ev st decided c s = (Inr r, s') \<Longrightarrow> \<not> ro_started r"
  unfolding inactiveTicket_def Let_def
  by (auto simp: run_iff split: option.split_asm if_split_asm dest: recordedOutcome_idle)

lemma suspended_idle: "suspendedTicket d ev decided c s = (Inr r, s') \<Longrightarrow> \<not> ro_started r"
  unfolding suspendedTicket_def by (auto simp: run_iff dest: recordedOutcome_idle)

lemma localBundle_ok:
  assumes "localBundle d ev decided control s = (Inr (Inr b), s')"
  shows "assertBundle b (cb_revision b) = Inr () \<and>
    (case control of Some c \<Rightarrow> cb_revision b = cs_configRevision c \<and> fd_id (cb_flow b) = cs_flowId c \<and>
        \<not> opt_is (\<lambda>p. pm_config (pb_metadata p) \<noteq> cs_configRevision c) (rd_owner decided)
     | None \<Rightarrow> (case rd_owner decided of Some p \<Rightarrow> cb_revision b = pm_config (pb_metadata p) | None \<Rightarrow> True))"
  using assms unfolding localBundle_def
  by (auto simp: run_iff assertBundle_def bindR_Inr_iff checkR_def fail_def ok_def split: option.split_asm if_split_asm option.split)

lemma localBundle_idle:
  "localBundle d ev decided control s = (Inr (Inl r), s') \<Longrightarrow> \<not> ro_started r"
  unfolding localBundle_def by (auto simp: run_iff split: option.split_asm if_split_asm dest: recordedOutcome_idle)

lemma availableBundle_ok:
  assumes "availableBundle d ev decided control s = (Inr x, s')"
  shows "(case x of Inl r \<Rightarrow> \<not> ro_started r | Inr b \<Rightarrow> localBundle d ev decided control s = (Inr (Inr b), s'))"
proof (cases "localBundle d ev decided control s")
  case (Pair y s1)
  show ?thesis
  proof (cases y)
    case (Inl e)
    then show ?thesis using assms Pair unfolding availableBundle_def tryM_def
      by (auto simp: run_iff split: option.split_asm dest: recordedOutcome_idle)
  next
    case (Inr z)
    then show ?thesis using assms Pair localBundle_idle [of d ev decided control s _ s1] unfolding availableBundle_def tryM_def
      by (cases z) auto
  qed
qed


text \<open>An operation that, when it ends the step, has started nothing.\<close>

definition idle :: "ReconcileOutcome + 'a \<Rightarrow> bool" where
  "idle x = (case x of Inl r \<Rightarrow> \<not> ro_started r | Inr y \<Rightarrow> True)"

lemma idle_Inr [simp]: "idle (Inr y)" by (simp add: idle_def)
lemma idle_Inl [simp]: "idle (Inl r) = (\<not> ro_started r)" by (simp add: idle_def)

lemma idle_recorded: "returnsM idle (bindM (recordedOutcome d ev decided c keys ch) (\<lambda>r. retM (Inl r)))"
  by (rule returns_bind [where R = "\<lambda>r. \<not> ro_started r"]) (auto simp: returnsM_def run_iff dest: recordedOutcome_idle)

lemma idle_unstarted: "returnsM idle (unstarted d ev decided rn)"
  unfolding unstarted_def returnsM_def by (auto simp: run_iff dest!: outcome_fields)

lemma idle_recoverControl: "returnsM idle (recoverControl d b ev decided)"
  unfolding recoverControl_def recoverStage_def
  by (intro idle_recorded idle_unstarted returns) simp_all

lemma idle_controlToContinue: "returnsM idle (controlToContinue d b ev st decided c)"
  unfolding controlToContinue_def by (intro idle_recoverControl returns) simp_all

lemma reassessed_kind: "rd_kind (reassessedDecision ev st decided) = rd_kind decided \<or>
    rd_kind decided = RAmbiguous \<and> rd_kind (reassessedDecision ev st decided) = RReassess"
  by (auto simp: reassessedDecision_def Let_def decision_def split: option.split)

text \<open>A ticket on which an attempt starts goes through the pinned bundle and the published receipt.\<close>

lemma workedTicket_started:
  assumes "workedTicket d ev st decided lr control s = (Inr r, s')" "ro_started r" "\<And>c. control = Some c \<Longrightarrow> from_store d ev t0 c"
  shows "dp_isAllowed d (ev_ref ev) \<and> (\<exists>b s1 s2. localBundle d ev decided control s1 = (Inr (Inr b), s2) \<and>
    (\<exists>c keys obs s3 r0. reconcileControl d (rv_snapshot ev) b c keys obs s3 = (Inr r0, s') \<and> ro_started r0 \<and>
       settled_receipt ev (dp_controllerId d) c \<and> from_store d ev t0 c))"
proof -
  obtain x s1 where x: "availableBundle d ev decided control s = (Inr x, s1)"
    using assms(1) unfolding workedTicket_def by (auto simp: run_iff)
  note ab = availableBundle_ok [OF x]
  obtain b where b: "x = Inr b"
    using assms x ab by (cases x) (auto simp: workedTicket_def run_iff)
  have allowed: "assertAllowed d (ev_ref ev) = Inr ()"
    using assms(1) x b by (auto simp: workedTicket_def run_iff)
  let ?dc = "if lr then decision (if rd_owner decided \<noteq> None then RReassess else RResume) (rd_owner decided) None else decided"
  have k: "(if lr \<and> \<not> opt_is (hasValidLocalResume (cb_flow b)) control then recordedOutcome d ev decided control None False
      else bindM (controlToContinue d b ev st ?dc control) (\<lambda>c. case c of Inl r \<Rightarrow> retM r | Inr (st', control') \<Rightarrow> continueLocal d b ev st' control')) s1 = (Inr r, s')"
    using assms(1) x b allowed by (auto simp: workedTicket_def run_iff)
  then obtain y s2 where y: "controlToContinue d b ev st ?dc control s1 = (Inr y, s2)"
      "(case y of Inl r \<Rightarrow> retM r | Inr (st', control') \<Rightarrow> continueLocal d b ev st' control') s2 = (Inr r, s')"
    using assms(2) by (auto simp: run_iff dest: recordedOutcome_idle simp del: split_paired_Ex split: if_split_asm)
  have "idle y" by (rule returnsD [OF idle_controlToContinue y(1)])
  then obtain st' c where c: "y = Inr (st', c)" "continueLocal d b ev st' c s2 = (Inr r, s')"
    using y(2) assms(2) by (cases y) (auto simp: run_iff)
  have "from_store d ev t0 c" by (rule continue_from_store [OF y(1) [unfolded c(1)] assms(3)])
  from continueLocal_ok [OF c(2) this] have "\<exists>c keys obs s3 r0. reconcileControl d (rv_snapshot ev) b c keys obs s3 = (Inr r0, s')
      \<and> ro_started r0 \<and> settled_receipt ev (dp_controllerId d) c \<and> from_store d ev t0 c" using assms(2) by metis
  moreover have "dp_isAllowed d (ev_ref ev)" using allowed by (auto simp: assertAllowed_def checkR_def fail_def split: if_split_asm)
  moreover have "localBundle d ev decided control s = (Inr (Inr b), s1)" using ab b by simp
  ultimately show ?thesis by blast
qed

lemma reconcileLocal_started:
  assumes "reconcileLocal d ev decided s = (Inr r, s')" "ro_started r"
  obtains st s1 control lr s2 where "dp_load d (ev_ref ev) s = (Inr st, s1)"
    "\<not> opt_is (\<lambda>x. le_controllerId (st_value x) \<noteq> dp_controllerId d) st"
    "rd_kind decided \<noteq> RForeign" "rd_kind decided = RInactive \<Longrightarrow> mergedWait ev control"
    "workedTicket d ev st (reassessedDecision ev st decided) lr control s2 = (Inr r, s')"
    "\<And>c. control = Some c \<Longrightarrow> from_store d ev s c"
proof -
  obtain st s1 where st: "dp_load d (ev_ref ev) s = (Inr st, s1)"
    "\<not> opt_is (\<lambda>x. le_controllerId (st_value x) \<noteq> dp_controllerId d) st"
    using assms(1) unfolding reconcileLocal_def by (auto simp: run_iff)
  let ?dc = "reassessedDecision ev st decided"
  obtain control s2 where cc: "currentControl d ev st ?dc s1 = (Inr control, s2)" and c: "(let localResume = opt_is (isMissingLocalResume ?dc (rv_snapshot ev)) control in
       if rd_kind ?dc = RInactive \<and> \<not> mergedWait ev control then inactiveTicket d ev st ?dc control
       else if (rd_kind ?dc = RAmbiguous \<and> \<not> localResume) \<or> rd_kind ?dc = RForeign
       then suspendedTicket d ev ?dc control
       else workedTicket d ev st ?dc localResume control) s2 = (Inr r, s')"
    using assms(1) st unfolding reconcileLocal_def Let_def by (auto simp: run_iff)
  have n: "\<not> (rd_kind ?dc = RInactive \<and> \<not> mergedWait ev control)" "rd_kind ?dc \<noteq> RForeign"
    "workedTicket d ev st ?dc (opt_is (isMissingLocalResume ?dc (rv_snapshot ev)) control) control s2 = (Inr r, s')"
    using c assms(2) unfolding Let_def by (auto split: if_split_asm dest: inactive_idle suspended_idle)
  have "from_store d ev s c" if "control = Some c" for c
  proof -
    have "stored_control st = Some c"
      using cc that by (auto simp: currentControl_def run_iff split: option.split_asm if_split_asm)
    then obtain x where "st = Some x" "le_control (st_value x) = Some c" by (auto simp: stored_control_def split: option.split_asm)
    then show ?thesis using from_store.loaded [of d ev s x s1 c] st by simp
  qed
  then show thesis using that [OF st _ _ n(3)] n(1,2) reassessed_kind [of ev st decided] by auto
qed


section \<open>Properties\<close>

text \<open>
  An attempt starts on the local path only when the evidence is not of another controller's work, the
  stored state belongs to this controller, the repository is allowed, and the configuration in force is the one that
  the state is pinned to, at a valid commit; the state it starts from continues one whose receipt, if it
  is that of a finished attempt, is on the ticket as published.
\<close>

lemma local_attempt_owned:
  assumes "reconcileLocal d ev decided s = (Inr r, s')" "ro_started r"
  shows "rd_kind decided \<noteq> RForeign \<and> dp_isAllowed d (ev_ref ev) \<and>
    (\<exists>c q s0. dp_start d q s0 = (Inr (), s') \<and> cs_configRevision (rq_control q) = cb_revision (rq_bundle q) \<and>
       isSha (cb_revision (rq_bundle q)) \<and> settled_receipt ev (dp_controllerId d) c \<and>
       persisted d (ev_ref ev) c (rq_control q) \<and> from_store d ev s c \<and> from_store d ev s (rq_control q))"
proof -
  from reconcileLocal_started [OF assms] obtain st s1 control lr s2 where
    st: "dp_load d (ev_ref ev) s = (Inr st, s1)" "rd_kind decided \<noteq> RForeign"
    and w: "workedTicket d ev st (reassessedDecision ev st decided) lr control s2 = (Inr r, s')"
    and fc: "\<And>c. control = Some c \<Longrightarrow> from_store d ev s c" by metis
  from workedTicket_started [OF w assms(2) fc] obtain b c keys obs s3 r0 t1 t2 where
    al: "dp_isAllowed d (ev_ref ev)" and b: "localBundle d ev (reassessedDecision ev st decided) control t1 = (Inr (Inr b), t2)"
    and r: "reconcileControl d (rv_snapshot ev) b c keys obs s3 = (Inr r0, s')" "ro_started r0"
      "settled_receipt ev (dp_controllerId d) c" "from_store d ev s c" by blast
  have sha: "isSha (cb_revision b)" using localBundle_ok [OF b] by (auto simp: assertBundle_def fail_def split: if_split_asm)
  from reconcileControl_started [OF r(1,2)] obtain n ks s0 where
    n: "persisted d (sn_ref (rv_snapshot ev)) c n"
      "startIfNeeded d (activeSnapshot b c (rv_snapshot ev)) b n ks s0 = (Inr True, s')" by blast
  from startIfNeeded_started [OF n(2)] obtain q t where
    q: "dp_start d q t = (Inr (), s')" "rq_control q = n" "rq_bundle q = b" by blast
  have p: "persisted d (ev_ref ev) c (rq_control q)" using n(1) q(2) by (simp add: ev_ref_def)
  have "cs_configRevision (rq_control q) = cs_configRevision c" using p by (auto simp: persisted_def same_identity_def)
  then have "cs_configRevision (rq_control q) = cb_revision (rq_bundle q)" using reconcileControl_pinned [OF r(1,2)] q(3) by simp
  moreover have "isSha (cb_revision (rq_bundle q))" using sha q(3) by simp
  ultimately show ?thesis using st(2) al q(1) p r(3,4) from_store_persisted [OF r(4) p] by blast
qed

definition local_evidence :: RecoveryEvidence where
  "local_evidence = sample_evidence \<lparr> rv_snapshot := demo_snapshot, rv_publications := [] \<rparr>"

text \<open>
  the check of a finished attempt's receipt keeps the control state exactly when every object the
  receipt names is on the ticket as described, published by this controller under the pinned configuration (or
  the change request carried by a migration) and the answered comment is there unmarked; otherwise the next
  state, one step later in the same history, has no receipt and no current attempt, so that the work is
  done again.
\<close>

theorem receipt_needs_publication:
  assumes "clearUncommittedReceipt d ev control s = (Inr x, s')"
  shows "case x of
      None \<Rightarrow> s' = s \<and> (case pendingReceipt control of None \<Rightarrow> True | Some r \<Rightarrow>
        (\<forall>a \<in> set (ar_artifacts r). artifactPresent ev a \<and> (carriedChange ev a \<or>
          (\<exists>p \<in> set (rv_publications ev). hasPublicationIdentity (pb_key p) (ev_ref ev) (artifact_kind a) (artifact_id a)
            \<and> pm_config (pb_metadata p) = cs_configRevision control \<and> controllerOf p = dp_controllerId d)))
        \<and> (case ar_humanGate r of None \<Rightarrow> ar_artifacts r \<noteq> [] | Some g \<Rightarrow> gateCommitted ev g))
    | Some n \<Rightarrow> pendingReceipt control \<noteq> None \<and> \<not> settled_receipt ev (dp_controllerId d) control \<and> cs_latestReceipt n = None \<and> pendingReceipt n = None \<and>
        \<not> opt_is (\<lambda>a. as_current a \<noteq> None) (cs_attemptSeries n) \<and>
        cs_stateId n = cs_stateId control \<and> cs_sequence n = cs_sequence control + 1 \<and> same_identity control n"
proof (cases x)
  case None
  have "case pendingReceipt control of None \<Rightarrow> True | Some r \<Rightarrow> receiptCommitted ev control (dp_controllerId d) r"
    using cleared_ok [OF assms] None by (simp add: settled_receipt_def)
  then show ?thesis using cleared_ok [OF assms] None
    by (fastforce simp: receiptCommitted_def list_all_iff dest: artifactCommitted_meaning split: option.splits)
next
  case (Some n)
  have "pendingReceipt control \<noteq> None" using cleared_ok [OF assms] Some by (auto simp: settled_receipt_def split: option.split_asm)
  then show ?thesis using cleared_ok [OF assms] Some by (simp add: pendingReceipt_def)
qed

theorem receipt_needs_publication_witness:
  "\<exists>n s'. clearUncommittedReceipt demo_deps local_evidence (demo_control \<lparr> cs_attemptSeries := Some sample_series,
       cs_latestReceipt := Some sample_receipt \<rparr>) demo_world = (Inr (Some n), s') \<and> cs_latestReceipt n = None
     \<and> cs_stateId n = ''develop''"
proof -
  let ?c = "demo_control \<lparr> cs_attemptSeries := Some sample_series, cs_latestReceipt := Some sample_receipt \<rparr>"
  have "(case clearUncommittedReceipt demo_deps local_evidence ?c demo_world of (Inr (Some n), s') \<Rightarrow> True | _ \<Rightarrow> False)"
    by code_simp
  then obtain n s' where n: "clearUncommittedReceipt demo_deps local_evidence ?c demo_world = (Inr (Some n), s')"
    by (auto split: prod.split_asm sum.split_asm option.split_asm)
  have st: "cs_stateId ?c = ''develop''" by (simp add: demo_control_def sample_control_def)
  have "cs_latestReceipt n = None \<and> cs_stateId n = cs_stateId ?c" using receipt_needs_publication [OF n] by (simp del: st)
  then show ?thesis using n st by metis
qed

end
