(* ===== verification/MigrationSelect.thy ===== *)
theory MigrationSelect
  imports Semantic Samples
begin

text \<open>
  The second half of src/config/migrations.ts: the digests that identify the behaviour of a configuration
  and the choice of the stage at which work continues under another configuration, with the results it
  may keep. The hash, the collation order, the parsed flow document of a bundle and the contract files it
  names are parameters.
\<close>

record MigrationEnv =
  me_sha256 :: "string \<Rightarrow> string"
  me_collate :: "string \<Rightarrow> string"
  me_flow :: "ConfigBundle \<Rightarrow> json"
  me_contract :: "ConfigBundle \<Rightarrow> string \<Rightarrow> json res"

section \<open>Digests\<close>

definition digest :: "MigrationEnv \<Rightarrow> json \<Rightarrow> string" where
  "digest env v = me_sha256 env (canonicalText (me_collate env) v)"

definition without_agent :: "json \<Rightarrow> json" where
  "without_agent v = (case v of JObj ps \<Rightarrow> JObj (filter (\<lambda>(k, x). k \<noteq> ''agent'') ps) | _ \<Rightarrow> v)"

definition at_key :: "string \<Rightarrow> (json \<Rightarrow> json) \<Rightarrow> json \<Rightarrow> json" where
  "at_key key g v = (case v of JObj ps \<Rightarrow> JObj (map (\<lambda>(k, x). (k, if k = key then g x else x)) ps) | _ \<Rightarrow> v)"

definition each_value :: "(json \<Rightarrow> json) \<Rightarrow> json \<Rightarrow> json" where
  "each_value g v = (case v of JObj ps \<Rightarrow> JObj (map (\<lambda>(k, x). (k, g x)) ps) | _ \<Rightarrow> v)"

definition json_field :: "string \<Rightarrow> json \<Rightarrow> json option" where
  "json_field key v = (case v of JObj ps \<Rightarrow> map_of ps key | _ \<Rightarrow> None)"

definition anonymousFlow :: "MigrationEnv \<Rightarrow> ConfigBundle \<Rightarrow> json" where
  "anonymousFlow env b = at_key ''spec'' (at_key ''states'' (each_value without_agent)) (me_flow env b)"

definition executionContracts :: "MigrationEnv \<Rightarrow> ConfigBundle \<Rightarrow> json res" where
  "executionContracts env b =
    bindR (mapR (\<lambda>path. bindR (me_contract env b path) (\<lambda>v. ok (JArr [JStr path, v])))
      (sort (uniq (sd_contracts (cb_stack b) @ sd_schemas (cb_stack b))))) (\<lambda>vs. ok (JArr vs))"

definition behaviorDigest :: "MigrationEnv \<Rightarrow> ConfigBundle \<Rightarrow> string res" where
  "behaviorDigest env b =
    bindR (executionContracts env b) (\<lambda>c. ok (digest env (JObj [(''flow'', anonymousFlow env b), (''contracts'', c)])))"

definition stateDigest :: "MigrationEnv \<Rightarrow> ConfigBundle \<Rightarrow> string \<Rightarrow> string" where
  "stateDigest env b s =
    (let st = Option.bind (json_field ''spec'' (me_flow env b)) (\<lambda>spec.
                Option.bind (json_field ''states'' spec) (json_field s))
     in digest env (case st of None \<Rightarrow> JObj [] | Some v \<Rightarrow> without_agent v))"

section \<open>Selection\<close>

record MigrationSelection =
  sel_stage :: string
  sel_retain :: "string list"
  sel_basis :: string
  sel_noop :: bool

text \<open>The position of an element, minus one when it is absent.\<close>

fun index_of :: "'a list \<Rightarrow> 'a \<Rightarrow> int" where
  "index_of [] x = -1"
| "index_of (y # ys) x = (if x = y then 0 else (let i = index_of ys x in if i < 0 then -1 else i + 1))"

definition direct_rules :: "ConfigBundle \<Rightarrow> ConfigBundle \<Rightarrow> string \<Rightarrow> MigrationRule list" where
  "direct_rules source target label = filter (\<lambda>r. wm_source r = cb_revision source \<and> wm_sourceFlow r = fd_id (cb_flow source)
     \<and> wm_targetFlow r = fd_id (cb_flow target) \<and> wm_activationLabel r = label) (cb_migrations target)"

text \<open>The stage, the results to keep and the basis, before a requested replay.\<close>

definition ruleSelection ::
  "MigrationEnv \<Rightarrow> ConfigBundle \<Rightarrow> ConfigBundle \<Rightarrow> string \<Rightarrow> string list \<Rightarrow> string \<Rightarrow> string option
     \<Rightarrow> (string \<times> string list \<times> string) res" where
  "ruleSelection env source target label sourceRoute state replay =
    (case direct_rules source target label of
       [rule] \<Rightarrow>
        (case map_of (wm_states rule) state of
           None \<Rightarrow> fail (''Direct rule has no mapping for source stage '' @ state)
         | Some mapping \<Rightarrow>
            bindR (forR (\<lambda>s. checkR (state_of (cb_flow source) s = None \<or> s \<notin> set sourceRoute)
                     (''Direct rule names invalid source state '' @ s)) (map fst (wm_states rule))) (\<lambda>_.
            bindR (checkR (opt_is (\<lambda>r. r \<notin> set (mm_replay mapping)) replay)
                     ''Replay target is forbidden by the direct rule'') (\<lambda>_.
              ok (mm_target mapping, mm_retain mapping, ''rule:'' @ wm_id rule @ '':'' @ digest env (rule_document rule)))))
     | _ \<Rightarrow> fail ''Changed workflow requires exactly one direct rule for the source configuration'')"

definition replayStage ::
  "ConfigBundle \<Rightarrow> string list \<Rightarrow> string \<Rightarrow> string option \<Rightarrow> string res" where
  "replayStage target targetRoute stage replay =
    (case replay of None \<Rightarrow> ok stage
     | Some r \<Rightarrow>
        bindR (checkR (r \<notin> set targetRoute) ''Replay target is on another route'') (\<lambda>_.
        bindR (checkR (\<not> is_agent (cb_flow target) r) ''Replay requires an executable agent stage'') (\<lambda>_.
        bindR (checkR (index_of targetRoute r > index_of targetRoute stage)
                 ''Replay must select the current or an earlier stage'') (\<lambda>_. ok r))))"

definition keptStages ::
  "MigrationEnv \<Rightarrow> ConfigBundle \<Rightarrow> ConfigBundle \<Rightarrow> string list \<Rightarrow> string \<Rightarrow> string list \<Rightarrow> string list res" where
  "keptStages env source target targetRoute stage retain =
    (let kept = filter (\<lambda>s. index_of targetRoute s \<ge> 0 \<and> index_of targetRoute s < index_of targetRoute stage) retain in
     bindR (if kept = [] then ok ()
            else bindR (executionContracts env source) (\<lambda>a. bindR (executionContracts env target) (\<lambda>b.
              checkR (digest env a \<noteq> digest env b) ''Retained result contracts changed''))) (\<lambda>_.
     bindR (forR (\<lambda>s. checkR (stateDigest env source s \<noteq> stateDigest env target s)
                        (''Retained stage contract changed: '' @ s)) kept) (\<lambda>_. ok kept)))"

definition selectMigration ::
  "MigrationEnv \<Rightarrow> ConfigBundle \<Rightarrow> ConfigBundle \<Rightarrow> string \<Rightarrow> string \<Rightarrow> string option \<Rightarrow> MigrationSelection res" where
  "selectMigration env source target label state replay0 =
    bindR (routeStages (cb_flow source) label) (\<lambda>sourceRoute.
    bindR (routeStages (cb_flow target) label) (\<lambda>targetRoute.
    bindR (checkR (state \<notin> set sourceRoute) ''Source stage is ambiguous or outside the activation route'') (\<lambda>_.
    bindR (behaviorDigest env source) (\<lambda>ds.
    bindR (behaviorDigest env target) (\<lambda>dt.
     (let replay = (if replay0 = Some [] then None else replay0) in
      bindR (if ds = dt then ok (state, takeWhile (\<lambda>s. s \<noteq> state) sourceRoute, ''unchanged:'' @ ds)
             else ruleSelection env source target label sourceRoute state replay) (\<lambda>(stage0, retain, basis).
      bindR (replayStage target targetRoute stage0 replay) (\<lambda>stage.
      bindR (checkR (state_of (cb_flow target) stage = None) ''Unknown destination stage'') (\<lambda>_.
      bindR (keptStages env source target targetRoute stage retain) (\<lambda>kept.
        ok \<lparr> sel_stage = stage, sel_retain = kept, sel_basis = basis,
             sel_noop = (cb_revision source = cb_revision target \<and> replay = None) \<rparr>))))))))))"

section \<open>What a selection guarantees\<close>

lemma index_of_nonneg: "index_of xs x \<ge> 0 \<longleftrightarrow> x \<in> set xs"
  by (induction xs) (auto simp: Let_def)

lemma index_of_nth: "x \<in> set xs \<Longrightarrow> xs ! nat (index_of xs x) = x \<and> nat (index_of xs x) < length xs"
proof (induction xs)
  case (Cons y ys)
  show ?case
  proof (cases "x = y")
    case False
    then have "x \<in> set ys" using Cons.prems by simp
    moreover have "0 \<le> index_of ys x" using calculation index_of_nonneg by metis
    ultimately show ?thesis using Cons.IH False by (simp add: nat_add_distrib)
  qed simp
qed simp

lemma replayStage_ok:
  assumes "replayStage target route stage replay = ok s"
  shows "(case replay of None \<Rightarrow> s = stage
    | Some r \<Rightarrow> s = r \<and> r \<in> set route \<and> is_agent (cb_flow target) r \<and> index_of route r \<le> index_of route stage)"
  using assms by (auto simp: replayStage_def split: option.splits)

lemma keptStages_ok:
  assumes "keptStages env source target route stage retain = ok kept"
  shows "(\<forall>s \<in> set kept. s \<in> set retain \<and> s \<in> set route \<and> index_of route s < index_of route stage
    \<and> stateDigest env source s = stateDigest env target s)
    \<and> (kept \<noteq> [] \<longrightarrow> (\<exists>a b. executionContracts env source = ok a \<and> executionContracts env target = ok b \<and> digest env a = digest env b))"
  using assms by (auto simp: keptStages_def Let_def forR_ok_iff index_of_nonneg split: if_split_asm)

lemma ruleSelection_ok:
  assumes "ruleSelection env source target label route state replay = ok (stage, retain, basis)"
  shows "\<exists>rule mapping. direct_rules source target label = [rule] \<and> map_of (wm_states rule) state = Some mapping
    \<and> stage = mm_target mapping \<and> retain = mm_retain mapping \<and> (\<forall>r. replay = Some r \<longrightarrow> r \<in> set (mm_replay mapping))"
  using assms by (auto simp: ruleSelection_def forR_ok_iff opt_is_def split: list.split_asm option.split_asm)

text \<open>The two ways in which a stage is found before a replay.\<close>

definition selected_by ::
  "MigrationEnv \<Rightarrow> ConfigBundle \<Rightarrow> ConfigBundle \<Rightarrow> string \<Rightarrow> string \<Rightarrow> string option \<Rightarrow> string \<Rightarrow> bool" where
  "selected_by env source target label state replay stage \<longleftrightarrow>
    behaviorDigest env source = behaviorDigest env target \<and> stage = state
    \<or> (\<exists>rule mapping. direct_rules source target label = [rule] \<and> map_of (wm_states rule) state = Some mapping
         \<and> stage = mm_target mapping \<and> (\<forall>r. replay = Some r \<longrightarrow> r \<in> set (mm_replay mapping)))"

lemma selectMigration_ok:
  assumes "selectMigration env source target label state replay = ok sel" "replay \<noteq> Some []"
  shows "\<exists>sourceRoute route stage0 retain0. routeStages (cb_flow source) label = ok sourceRoute
    \<and> routeStages (cb_flow target) label = ok route \<and> state \<in> set sourceRoute
    \<and> selected_by env source target label state replay stage0
    \<and> replayStage target route stage0 replay = ok (sel_stage sel)
    \<and> state_of (cb_flow target) (sel_stage sel) \<noteq> None
    \<and> keptStages env source target route (sel_stage sel) retain0 = ok (sel_retain sel)
    \<and> sel_noop sel = (cb_revision source = cb_revision target \<and> replay = None)"
proof -
  obtain sr tr ds dt stage0 retain0 basis0 stage kept where
    "routeStages (cb_flow source) label = ok sr" "routeStages (cb_flow target) label = ok tr" "state \<in> set sr"
    and d: "behaviorDigest env source = ok ds" "behaviorDigest env target = ok dt"
    and b: "(if ds = dt then ok (state, takeWhile (\<lambda>s. s \<noteq> state) sr, ''unchanged:'' @ ds)
             else ruleSelection env source target label sr state replay) = ok (stage0, retain0, basis0)"
    and "replayStage target tr stage0 replay = ok stage" "state_of (cb_flow target) stage \<noteq> None"
    "keptStages env source target tr stage retain0 = ok kept"
    "sel = \<lparr> sel_stage = stage, sel_retain = kept, sel_basis = basis0,
       sel_noop = (cb_revision source = cb_revision target \<and> replay = None) \<rparr>"
    using assms by (auto simp: selectMigration_def Let_def)
  moreover have "selected_by env source target label state replay stage0"
  proof (cases "ds = dt")
    case True
    then show ?thesis using b d by (simp add: selected_by_def)
  next
    case False
    then show ?thesis using ruleSelection_ok b by (fastforce simp: selected_by_def)
  qed
  ultimately show ?thesis by fastforce
qed

section \<open>Properties\<close>

text \<open>
  the route of an activation label always ends; it starts at the entry of the label, names no
  stage twice and names only stages of the flow.
\<close>

theorem routeStages_sound:
  assumes "routeStages f label = ok route"
  shows "route \<noteq> [] \<and> route_start f label = ok (hd route) \<and> distinct route \<and> (\<forall>s \<in> set route. state_of f s \<noteq> None)"
  using routeStages_ok [OF assms] by auto

text \<open>
  C16: a selected migration goes to a stage of the target flow that comes from equal behaviour or from the
  one direct rule; a replay goes to an executable stage of the target route that is not later than the
  migrated stage; and every retained stage lies on the target route before the stage at which work
  continues, with an unchanged contract.
\<close>

theorem selectMigration_safe:
  assumes "selectMigration env source target label state replay = ok sel" "replay \<noteq> Some []"
  shows "state_of (cb_flow target) (sel_stage sel) \<noteq> None \<and>
    (\<exists>route stage0. routeStages (cb_flow target) label = ok route \<and> selected_by env source target label state replay stage0
      \<and> (case replay of None \<Rightarrow> sel_stage sel = stage0
         | Some r \<Rightarrow> sel_stage sel = r \<and> r \<in> set route \<and> is_agent (cb_flow target) r \<and> index_of route r \<le> index_of route stage0)
      \<and> (\<forall>s \<in> set (sel_retain sel). s \<in> set route \<and> index_of route s < index_of route (sel_stage sel)
           \<and> stateDigest env source s = stateDigest env target s))
    \<and> (sel_noop sel \<longleftrightarrow> cb_revision source = cb_revision target \<and> replay = None)"
proof -
  obtain route stage0 retain0 where r: "routeStages (cb_flow target) label = ok route"
    "selected_by env source target label state replay stage0"
    "replayStage target route stage0 replay = ok (sel_stage sel)" "state_of (cb_flow target) (sel_stage sel) \<noteq> None"
    "keptStages env source target route (sel_stage sel) retain0 = ok (sel_retain sel)"
    "sel_noop sel = (cb_revision source = cb_revision target \<and> replay = None)"
    using selectMigration_ok [OF assms] by blast
  have "\<forall>s \<in> set (sel_retain sel). s \<in> set route \<and> index_of route s < index_of route (sel_stage sel)
      \<and> stateDigest env source s = stateDigest env target s"
    using keptStages_ok [OF r(5)] by blast
  then show ?thesis using r replayStage_ok [OF r(3)] by blast
qed

definition sample_migration_env :: MigrationEnv where
  "sample_migration_env = \<lparr> me_sha256 = (\<lambda>s. s), me_collate = (\<lambda>s. s),
     me_flow = (\<lambda>b. JObj [(''spec'', JObj [(''states'', JObj [(''develop'', JObj [(''agent'', JStr (cb_revision b))])])])]),
     me_contract = (\<lambda>b p. ok JNull) \<rparr>"

definition sample_target :: ConfigBundle where
  "sample_target = sample_bundle \<lparr> cb_revision := ''rev2'' \<rparr>"

definition sample_selection :: MigrationSelection where
  "sample_selection = \<lparr> sel_stage = ''done'', sel_retain = [''develop''],
     sel_basis = ''unchanged:'' @ digest sample_migration_env (JObj [(''flow'', anonymousFlow sample_migration_env sample_bundle),
       (''contracts'', JArr [])]), sel_noop = False \<rparr>"

lemma sample_route: "routeStages sample_flow ''agent-flow:development'' = ok [''develop'', ''done'']"
  by (simp add: routeStages_def route_start_def route_from.simps route_next_def first_some_def sample_flow_def state_of_def
      )

theorem routeStages_sound_witness:
  "routeStages sample_flow ''agent-flow:development'' = ok [''develop'', ''done''] \<and> distinct [''develop'', ''done'']"
  using routeStages_sound [OF sample_route] sample_route by blast

lemma sample_selected:
  "selectMigration sample_migration_env sample_bundle sample_target ''agent-flow:development'' ''done'' None = ok sample_selection"
  by code_simp

theorem selectMigration_safe_witness:
  "selectMigration sample_migration_env sample_bundle sample_target ''agent-flow:development'' ''done'' None = ok sample_selection
   \<and> state_of (cb_flow sample_target) ''done'' \<noteq> None
   \<and> stateDigest sample_migration_env sample_bundle ''develop'' = stateDigest sample_migration_env sample_target ''develop''"
  using selectMigration_safe [OF sample_selected] sample_selected by (simp add: sample_selection_def) blast

end
