(* ===== verification/JsonRound.thy ===== *)
theory JsonRound
  imports Json
begin

text \<open>
  JSON.parse reads back what JSON.stringify printed, also when every less-than sign of the text is
  replaced by its escape, as the markers of the controller do so that a text inside a marker cannot
  open another one.
\<close>

section \<open>Values and their escaped texts\<close>

fun printable :: "json \<Rightarrow> bool" where
  "printable (JDec m k) = (0 < k \<and> m mod 10 ^ k \<noteq> 0)"
| "printable (JArr xs) = list_all printable xs"
| "printable (JObj ps) = (distinct (map fst ps) \<and> list_all (\<lambda>(k, v). printable v) ps)"
| "printable v = True"

definition escape_lt :: "string \<Rightarrow> string" where
  "escape_lt s = concat (map (\<lambda>c. if c = CHR ''<'' then CHR 0x5C # ''u003c'' else [c]) s)"

lemma escape_lt_append [simp]: "escape_lt (s @ t) = escape_lt s @ escape_lt t"
  by (simp add: escape_lt_def)

lemma escape_lt_Nil [simp]: "escape_lt [] = []"
  by (simp add: escape_lt_def)

lemma escape_lt_Cons: "escape_lt (c # s) = (if c = CHR ''<'' then CHR 0x5C # ''u003c'' else [c]) @ escape_lt s"
  by (simp add: escape_lt_def)

lemma escape_lt_id: "CHR ''<'' \<notin> set s \<Longrightarrow> escape_lt s = s"
  by (induction s) (auto simp: escape_lt_Cons)

lemma escape_lt_clean: "CHR ''<'' \<notin> set (escape_lt s)"
  by (induction s) (auto simp: escape_lt_Cons)

section \<open>Strings\<close>

lemma below_16: "(d::nat) < 16 \<Longrightarrow> d = 0 \<or> d = 1 \<or> d = 2 \<or> d = 3 \<or> d = 4 \<or> d = 5 \<or> d = 6 \<or> d = 7
    \<or> d = 8 \<or> d = 9 \<or> d = 10 \<or> d = 11 \<or> d = 12 \<or> d = 13 \<or> d = 14 \<or> d = 15"
  by presburger

lemma hex_val_hex_digit: "d < 16 \<Longrightarrow> hex_val (hex_digit d) = Some d"
proof -
  assume "d < 16"
  from below_16 [OF this] show ?thesis by (elim disjE) (simp_all add: hex_digit_def hex_val_def is_digit_def code_def)
qed

lemma unicode_escape_control:
  assumes "code c < 256"
  shows "unicode_escape (''00'' @ [hex_digit (code c div 16), hex_digit (code c mod 16)]) = Some c"
proof -
  have "code c div 16 < 16" "code c mod 16 < 16" using assms by auto
  then have "map hex_val (''00'' @ [hex_digit (code c div 16), hex_digit (code c mod 16)])
      = [Some 0, Some 0, Some (code c div 16), Some (code c mod 16)]"
    by (simp add: hex_val_hex_digit) (simp add: hex_val_def is_digit_def code_def)
  moreover have "char_of (16 * (code c div 16) + code c mod 16) = c" by (simp add: code_def)
  ultimately show ?thesis by (simp add: unicode_escape_def)
qed

lemma code_less: "code c < 256"
  unfolding code_def by simp

lemma lt_escape: "unicode_escape ''003c'' = Some (CHR ''<'')"
  by code_simp

lemma hex_digit_lt: "d < 16 \<Longrightarrow> hex_digit d \<noteq> CHR ''<''"
proof -
  assume "d < 16"
  from below_16 [OF this] show ?thesis by (elim disjE) (simp_all add: hex_digit_def)
qed

lemma print_char_cases:
  obtains e where "print_char c = [CHR 0x5C, e]" "simple_escape e = Some c" "e \<noteq> CHR ''u''" "e \<noteq> CHR ''<''"
  | "print_char c = CHR 0x5C # ''u00'' @ [hex_digit (code c div 16), hex_digit (code c mod 16)]" "code c < 32"
  | "print_char c = [c]" "c \<noteq> CHR 0x22" "c \<noteq> CHR 0x5C" "32 \<le> code c"
proof (cases "map_of [(CHR 0x22, CHR 0x22), (CHR 0x5C, CHR 0x5C), (CHR 0x08, CHR ''b''), (CHR 0x0C, CHR ''f''),
        (CHR 0x0A, CHR ''n''), (CHR 0x0D, CHR ''r''), (CHR 0x09, CHR ''t'')] c")
  case None
  then show thesis using that(2,3) by (fastforce simp: print_char_def split: if_split_asm)
next
  case (Some e)
  have "print_char c = [CHR 0x5C, e]" using Some by (simp add: print_char_def)
  moreover have "simple_escape e = Some c \<and> e \<noteq> CHR ''u'' \<and> e \<noteq> CHR ''<''"
    using Some by (auto simp: simple_escape_def split: if_split_asm)
  ultimately show thesis using that(1) by blast
qed

lemma json_chars_escape: "json_chars (escape_lt (print_char c) @ r) = map_option (\<lambda>(cs, t). (c # cs, t)) (json_chars r)"
proof (cases rule: print_char_cases [of c])
  case (1 e)
  then have "escape_lt (print_char c) = [CHR 0x5C, e]" by (simp add: escape_lt_Cons)
  then show ?thesis using 1 by simp
next
  case 2
  then have "code c div 16 < 16" "code c mod 16 < 16" by auto
  then have "escape_lt (print_char c) = print_char c" unfolding 2(1)
    by (simp add: escape_lt_Cons hex_digit_lt)
  then show ?thesis using 2 unicode_escape_control [OF code_less [of c]] by simp
next
  case 3
  show ?thesis
  proof (cases "c = CHR ''<''")
    case True
    then show ?thesis by (simp add: print_char_def code_def escape_lt_Cons lt_escape)
  next
    case False
    then have "escape_lt (print_char c) = [c]" using 3 by (simp add: escape_lt_Cons)
    then show ?thesis using 3 by simp
  qed
qed


lemma json_chars_print: "json_chars (print_char c @ r) = map_option (\<lambda>(cs, t). (c # cs, t)) (json_chars r)"
proof (cases rule: print_char_cases [of c])
  case (1 e)
  then show ?thesis by simp
next
  case 2
  then show ?thesis using unicode_escape_control [OF code_less [of c]] by simp
next
  case 3
  then show ?thesis by simp
qed

section \<open>Numbers\<close>

definition terminated :: "string \<Rightarrow> bool" where
  "terminated r \<longleftrightarrow> r = [] \<or> (\<not> is_digit (hd r) \<and> hd r \<noteq> CHR ''.'' \<and> hd r \<noteq> CHR ''e'' \<and> hd r \<noteq> CHR ''E'')"

lemma terminated_simps [simp]: "terminated []" "terminated (CHR '','' # r)" "terminated (CHR '']'' # r)" "terminated (CHR ''}'' # r)"
  by (simp_all add: terminated_def is_digit_def)

lemma nat_str_zero: "nat_str 0 = ''0''"
  by (simp add: nat_str.simps digit_char_def)

lemma json_number_unsigned:
  assumes "terminated r"
  shows "json_number (nat_str n @ r) = Some (JInt (int n), r)"
proof (cases n)
  case 0
  have "take_digits (''0'' @ r) = (''0'', r)" using assms take_digits_nat_str [of r 0] by (auto simp: nat_str_zero terminated_def)
  moreover have "json_exponent r = Some (0, r)" using assms by (cases r) (auto simp: json_exponent_def terminated_def)
  ultimately show ?thesis using assms 0
    by (auto simp: json_number_def Let_def mk_num_def nat_str_zero str_nat_def digit_val_def code_def terminated_def)
next
  case (Suc m)
  then show ?thesis using assms json_number_nat [of n r] by (auto simp: terminated_def)
qed

lemma json_number_negative:
  assumes "terminated r" "0 < n"
  shows "json_number (CHR ''-'' # nat_str n @ r) = Some (JInt (- int n), r)"
proof -
  have t: "take_digits (nat_str n @ r) = (nat_str n, r)" using assms(1) by (intro take_digits_nat_str) (auto simp: terminated_def)
  have e: "json_exponent r = Some (0, r)" using assms(1) by (cases r) (auto simp: json_exponent_def terminated_def)
  show ?thesis using assms t e nat_str_hd [OF assms(2)]
    by (auto simp: json_number_def Let_def mk_num_def terminated_def)
qed

lemma json_number_int: "terminated r \<Longrightarrow> json_number (int_str i @ r) = Some (JInt i, r)"
  using json_number_unsigned [of r "nat i"] json_number_negative [of r "nat (- i)"] by (auto simp: int_str_def)

text \<open>The digits after the point of a decimal.\<close>

definition fraction_digits :: "nat \<Rightarrow> nat \<Rightarrow> string" where
  "fraction_digits k b = drop 1 (nat_str (10 ^ k + b))"

lemma fraction_Suc: "b < 10 ^ Suc k \<Longrightarrow> fraction_digits (Suc k) b = fraction_digits k (b div 10) @ [digit_char (b mod 10)]"
proof -
  assume "b < 10 ^ Suc k"
  define x :: nat where "x = 10 ^ k"
  then have "0 < x" by simp
  then have "\<not> 10 * x + b < 10" by linarith
  moreover have "(10 * x + b) div 10 = x + b div 10" "(10 * x + b) mod 10 = b mod 10" by simp_all
  ultimately have d: "(10 ^ Suc k + b) div 10 = 10 ^ k + b div 10" "(10 ^ Suc k + b) mod 10 = b mod 10" "\<not> 10 ^ Suc k + b < 10"
    unfolding x_def power_Suc by blast+
  have "nat_str (10 ^ Suc k + b) = nat_str (10 ^ k + b div 10) @ [digit_char (b mod 10)]"
    by (subst nat_str.simps) (use d in simp)
  moreover obtain c t where "nat_str (10 ^ k + b div 10) = c # t" by (cases "nat_str (10 ^ k + b div 10)") simp_all
  ultimately show ?thesis by (simp add: fraction_digits_def)
qed

lemma str_nat_append: "str_nat (s @ [c]) = 10 * str_nat s + digit_val c"
  by (simp add: str_nat_def)

lemma str_nat_concat: "str_nat (s @ t) = str_nat s * 10 ^ length t + str_nat t"
proof (induction t rule: rev_induct)
  case (snoc c t)
  then show ?case using str_nat_append [of "s @ t" c] str_nat_append [of t c] by simp
qed (simp add: str_nat_def)

lemma fraction_read: "b < 10 ^ k \<Longrightarrow> length (fraction_digits k b) = k \<and> list_all is_digit (fraction_digits k b)
    \<and> str_nat (fraction_digits k b) = b"
proof (induction k arbitrary: b)
  case 0
  then show ?case by (simp add: fraction_digits_def nat_str.simps str_nat_def)
next
  case (Suc k)
  have d: "b mod 10 < 10" "b div 10 < 10 ^ k" using Suc.prems by auto
  show ?case using fraction_Suc [OF Suc.prems] Suc.IH [OF d(2)] digit_char_props [OF d(1)] by (simp add: str_nat_append)
qed

lemma json_number_fraction:
  assumes "terminated r" "0 < k" "b < 10 ^ k"
  shows "json_number ((if neg then ''-'' else []) @ nat_str n @ CHR ''.'' # fraction_digits k b @ r)
    = Some (mk_num ((if neg then - 1 else 1) * int (n * 10 ^ k + b)) k 0, r)"
proof -
  note f = fraction_read [OF assms(3)]
  have t: "take_digits (nat_str n @ CHR ''.'' # fraction_digits k b @ r) = (nat_str n, CHR ''.'' # fraction_digits k b @ r)"
    by (rule take_digits_nat_str) (simp add: is_digit_def)
  have fs: "take_digits (fraction_digits k b @ r) = (fraction_digits k b, r)" using f assms(1)
    by (cases r) (auto simp: take_digits_def takeWhile_append dropWhile_append takeWhile_eq_all_conv list_all_iff terminated_def)
  have e: "json_exponent r = Some (0, r)" using assms(1) by (cases r) (auto simp: json_exponent_def terminated_def)
  have z: "\<not> (1 < length (nat_str n) \<and> hd (nat_str n) = CHR ''0'')"
    using nat_str_hd [of n] by (cases n) (auto simp: nat_str_zero)
  have "is_digit (hd (nat_str n))" using nat_str_digits [of n] by (simp add: hd_in_set)
  then have h: "hd (nat_str n @ u) \<noteq> CHR ''-''" for u by (auto simp: is_digit_def)
  have ne: "fraction_digits k b \<noteq> []" using f assms(2) by auto
  show ?thesis using t fs e z h ne f by (cases neg) (auto simp: json_number_def Let_def str_nat_concat)
qed

lemma json_print_dec: "json_print (JDec m k) = (if m < 0 then ''-'' else []) @ nat_str (nat \<bar>m\<bar> div 10 ^ k) @ CHR ''.'' # fraction_digits k (nat \<bar>m\<bar> mod 10 ^ k)"
  by (simp add: fraction_digits_def)

lemma json_number_dec:
  assumes "terminated r" "0 < k" "m mod 10 ^ k \<noteq> 0"
  shows "json_number (json_print (JDec m k) @ r) = Some (JDec m k, r)"
proof -
  have "nat \<bar>m\<bar> div 10 ^ k * 10 ^ k + nat \<bar>m\<bar> mod 10 ^ k = nat \<bar>m\<bar>" by (rule div_mult_mod_eq)
  then have "(if m < 0 then - 1 else 1) * int (nat \<bar>m\<bar> div 10 ^ k * 10 ^ k + nat \<bar>m\<bar> mod 10 ^ k) = m" by simp
  then have "json_number (json_print (JDec m k) @ r) = Some (mk_num m k 0, r)"
    using json_number_fraction [OF assms(1,2), of "nat \<bar>m\<bar> mod 10 ^ k" "m < 0" "nat \<bar>m\<bar> div 10 ^ k"]
    unfolding json_print_dec by simp
  then show ?thesis using assms(2,3) by (simp add: mk_num_def)
qed

section \<open>Values\<close>

lemma digit_no_lt: "is_digit c \<Longrightarrow> c \<noteq> CHR ''<''"
  by (auto simp: is_digit_def)

definition json_text :: "(string \<Rightarrow> string) \<Rightarrow> json \<Rightarrow> string" where
  "json_text enc v = enc (json_print v)"

definition items_text :: "(string \<Rightarrow> string) \<Rightarrow> json list \<Rightarrow> string" where
  "items_text enc xs = enc (join_with '','' (map json_print xs))"

definition pairs_text :: "(string \<Rightarrow> string) \<Rightarrow> (string \<times> json) list \<Rightarrow> string" where
  "pairs_text enc ps = enc (join_with '','' (map (\<lambda>(k, v). print_str k @ '':'' @ json_print v) ps))"

definition opener :: "char \<Rightarrow> bool" where
  "opener c \<longleftrightarrow> is_digit c \<or> c \<in> {CHR 0x22, CHR ''['', CHR ''{'', CHR ''t'', CHR ''f'', CHR ''n'', CHR ''-''}"

definition reads :: "(string \<Rightarrow> string) \<Rightarrow> json \<Rightarrow> bool" where
  "reads enc v \<longleftrightarrow> (\<forall>r n. terminated r \<longrightarrow> 2 * length (json_text enc v) \<le> n \<longrightarrow> json_value n (json_text enc v @ r) = Some (v, r))"

text \<open>
  An encoding of printed texts that a JSON reader undoes: it works character by character, changes at most
  the less-than sign, and every printed character is read back.
\<close>

locale text_encoding =
  fixes enc :: "string \<Rightarrow> string"
  assumes enc_append: "enc (s @ t) = enc s @ enc t"
    and enc_same: "CHR ''<'' \<notin> set s \<Longrightarrow> enc s = s"
    and enc_read: "json_chars (enc (print_char c) @ r) = map_option (\<lambda>(cs, t). (c # cs, t)) (json_chars r)"
begin

lemma enc_Nil: "enc [] = []" by (rule enc_same) simp
lemma enc_Cons: "c \<noteq> CHR ''<'' \<Longrightarrow> enc (c # s) = c # enc s"
  using enc_append [of "[c]" s] enc_same [of "[c]"] by simp

lemma enc_print_str: "enc (print_str s) = CHR 0x22 # concat (map (\<lambda>c. enc (print_char c)) s) @ [CHR 0x22]"
proof -
  have "enc (concat (map print_char s)) = concat (map (\<lambda>c. enc (print_char c)) s)"
    by (induction s) (simp_all add: enc_Nil enc_append)
  then show ?thesis by (simp add: print_str_def enc_Cons enc_append enc_Nil)
qed

lemma json_chars_str: "json_chars (concat (map (\<lambda>c. enc (print_char c)) s) @ CHR 0x22 # r) = Some (s, r)"
  by (induction s) (simp_all add: enc_read)

lemma enc_int: "enc (int_str i) = int_str i"
  using nat_str_digits by (intro enc_same) (auto simp: int_str_def dest!: digit_no_lt)

lemma json_text_simps:
  "json_text enc (JStr x) = CHR 0x22 # concat (map (\<lambda>c. enc (print_char c)) x) @ [CHR 0x22]"
  "json_text enc (JInt i) = int_str i"
  "json_text enc (JArr xs) = CHR ''['' # items_text enc xs @ '']''"
  "json_text enc (JObj ps) = CHR ''{'' # pairs_text enc ps @ ''}''"
  "json_text enc JNull = ''null''" "json_text enc (JBool b) = (if b then ''true'' else ''false'')"
  by (simp_all add: json_text_def items_text_def pairs_text_def enc_print_str enc_int enc_Cons enc_append enc_same enc_Nil)

lemma json_text_dec: "json_text enc (JDec m k) = json_print (JDec m k)"
proof -
  have "CHR ''<'' \<notin> set (json_print (JDec m k))"
    using nat_str_digits fraction_read [of "nat \<bar>m\<bar> mod 10 ^ k" k] unfolding json_print_dec
    by (auto simp: list_all_iff dest!: digit_no_lt)
  then show ?thesis by (simp add: json_text_def enc_same)
qed

lemma items_text_simps:
  "items_text enc [] = []" "items_text enc [x] = json_text enc x"
  "xs \<noteq> [] \<Longrightarrow> items_text enc (x # xs) = json_text enc x @ CHR '','' # items_text enc xs"
  by (simp_all add: items_text_def json_text_def join_with_Cons enc_append enc_Cons enc_Nil) (simp add: join_with_def enc_Nil)

lemma pairs_text_simps:
  "pairs_text enc [] = []" "pairs_text enc [(k, v)] = json_text enc (JStr k) @ CHR '':'' # json_text enc v"
  "ps \<noteq> [] \<Longrightarrow> pairs_text enc ((k, v) # ps) = json_text enc (JStr k) @ CHR '':'' # json_text enc v @ CHR '','' # pairs_text enc ps"
  by (simp_all add: pairs_text_def json_text_def join_with_Cons enc_append enc_Cons enc_Nil) (simp add: join_with_def enc_Nil)

lemma json_text_opener: "printable v \<Longrightarrow> \<exists>c t. json_text enc v = c # t \<and> opener c"
proof (cases v)
  case (JInt i)
  obtain c t where "nat_str (nat i) = c # t" using nat_str_ne [of "nat i"] by (cases "nat_str (nat i)") blast+
  moreover have "is_digit c" using calculation nat_str_digits [of "nat i"] by simp
  ultimately show ?thesis using JInt by (auto simp: json_text_simps int_str_def opener_def)
next
  case (JDec m k)
  obtain c t where "nat_str (nat \<bar>m\<bar> div 10 ^ k) = c # t" by (cases "nat_str (nat \<bar>m\<bar> div 10 ^ k)") simp_all
  moreover have "is_digit c" using calculation nat_str_digits [of "nat \<bar>m\<bar> div 10 ^ k"] by simp
  ultimately show ?thesis using JDec by (auto simp: json_text_dec json_print_dec opener_def simp del: json_print.simps)
qed (auto simp: json_text_simps opener_def)

lemma opener_expect: "opener c \<Longrightarrow> expect (CHR '']'') (c # t) = None" "opener c \<Longrightarrow> skip_ws (c # t) = c # t"
  by (auto simp: opener_def expect_def skip_ws_def is_digit_def)

lemma expect_here [simp]:
  "expect (CHR '','') (CHR '','' # r) = Some r" "expect (CHR '':'') (CHR '':'' # r) = Some r"
  "expect (CHR 0x22) (CHR 0x22 # r) = Some r" "expect (CHR '']'') (CHR '']'' # r) = Some r"
  "expect (CHR ''}'') (CHR ''}'' # r) = Some r" "expect (CHR '','') (CHR '']'' # r) = None"
  "expect (CHR '','') (CHR ''}'' # r) = None" "expect (CHR ''}'') (CHR 0x22 # r) = None"
  by (simp_all add: expect_def skip_ws_def)

lemma readsD: "reads enc v \<Longrightarrow> terminated r \<Longrightarrow> 2 * length (json_text enc v) \<le> n \<Longrightarrow> json_value n (json_text enc v @ r) = Some (v, r)"
  by (simp add: reads_def)

lemma json_items_text:
  assumes "list_all (reads enc) xs" "xs \<noteq> []" "2 * length (items_text enc xs) + 1 \<le> n"
  shows "json_items n acc (items_text enc xs @ CHR '']'' # r) = Some (JArr (acc @ xs), r)"
  using assms
proof (induction xs arbitrary: acc n)
  case (Cons x xs)
  from Cons.prems(3) obtain k where k: "n = Suc k" by (cases n) auto
  show ?case
  proof (cases "xs = []")
    case True
    then show ?thesis using Cons.prems k readsD [of x "CHR '']'' # r" k] by (simp add: items_text_simps)
  next
    case False
    note t = items_text_simps(3) [OF False, of x]
    have "json_value k (json_text enc x @ CHR '','' # items_text enc xs @ CHR '']'' # r) = Some (x, CHR '','' # items_text enc xs @ CHR '']'' # r)"
      using Cons.prems k t by (intro readsD) auto
    moreover have "json_items k (acc @ [x]) (items_text enc xs @ CHR '']'' # r) = Some (JArr ((acc @ [x]) @ xs), r)"
      using Cons.prems k t False by (intro Cons.IH) auto
    ultimately show ?thesis using k t by simp
  qed
qed simp

lemma put_key_new: "k \<notin> set (map fst acc) \<Longrightarrow> put_key k v acc = acc @ [(k, v)]"
  by (induction acc) auto

lemma json_pairs_text:
  assumes "list_all (\<lambda>(k, v). reads enc v) ps" "ps \<noteq> []" "2 * length (pairs_text enc ps) + 1 \<le> n"
    "distinct (map fst (acc @ ps))"
  shows "json_pairs n acc (pairs_text enc ps @ CHR ''}'' # r) = Some (JObj (acc @ ps), r)"
  using assms
proof (induction ps arbitrary: acc n)
  case (Cons p ps)
  obtain k v where p: "p = (k, v)" by fastforce
  from Cons.prems(3) obtain m where m: "n = Suc m" by (cases n) auto
  have new: "put_key k v acc = acc @ [(k, v)]" using Cons.prems(4) p by (intro put_key_new) auto
  show ?case
  proof (cases "ps = []")
    case True
    have "json_value m (json_text enc v @ CHR ''}'' # r) = Some (v, CHR ''}'' # r)"
      using Cons.prems m p True by (intro readsD) (auto simp: pairs_text_simps)
    then show ?thesis using True m p new by (simp add: pairs_text_simps json_text_simps(1) json_chars_str)
  next
    case False
    note t = pairs_text_simps(3) [OF False, of k v]
    have "json_value m (json_text enc v @ CHR '','' # pairs_text enc ps @ CHR ''}'' # r) = Some (v, CHR '','' # pairs_text enc ps @ CHR ''}'' # r)"
      using Cons.prems m p t by (intro readsD) auto
    moreover have "json_pairs m (acc @ [(k, v)]) (pairs_text enc ps @ CHR ''}'' # r) = Some (JObj ((acc @ [(k, v)]) @ ps), r)"
      using Cons.prems m p t False by (intro Cons.IH) auto
    ultimately show ?thesis using m p t new by (simp add: json_text_simps(1) json_chars_str)
  qed
qed simp

lemma printable_reads: "printable v \<Longrightarrow> reads enc v"
proof (induction v)
  case (JInt i)
  show ?case unfolding reads_def
  proof (intro allI impI)
    fix r n assume t: "terminated r" and n: "2 * length (json_text enc (JInt i)) \<le> n"
    obtain c s where c: "json_text enc (JInt i) = c # s" "opener c" using json_text_opener [of "JInt i"] by auto
    then obtain k where k: "n = Suc k" using n by (cases n) auto
    have "c = CHR ''-'' \<or> is_digit c" using c(1) nat_str_digits [of "nat i"]
      by (cases "nat_str (nat i)") (auto simp: json_text_simps int_str_def split: if_split_asm)
    moreover have "json_number (c # s @ r) = Some (JInt i, r)"
      using json_number_int [OF t, of i] c(1) by (simp add: json_text_simps(2))
    ultimately show "json_value n (json_text enc (JInt i) @ r) = Some (JInt i, r)"
      using k c opener_expect(2) [OF c(2), of "s @ r"] by (auto simp: Let_def is_digit_def)
  qed
next
  case (JDec m e)
  show ?case unfolding reads_def
  proof (intro allI impI)
    fix r n assume t: "terminated r" and n: "2 * length (json_text enc (JDec m e)) \<le> n"
    obtain c s where c: "json_text enc (JDec m e) = c # s" "opener c" using json_text_opener [of "JDec m e"] JDec by auto
    then obtain k where k: "n = Suc k" using n by (cases n) auto
    have "c = CHR ''-'' \<or> is_digit c" using c(1) nat_str_digits [of "nat \<bar>m\<bar> div 10 ^ e"]
      by (cases "nat_str (nat \<bar>m\<bar> div 10 ^ e)") (auto simp: json_text_dec json_print_dec simp del: json_print.simps split: if_split_asm)
    moreover have "json_number (c # s @ r) = Some (JDec m e, r)"
      using json_number_dec [OF t, of e m] JDec c(1) by (simp add: json_text_dec del: json_print.simps)
    ultimately show "json_value n (json_text enc (JDec m e) @ r) = Some (JDec m e, r)"
      using k c opener_expect(2) [OF c(2), of "s @ r"] by (auto simp: Let_def is_digit_def)
  qed
next
  case (JArr xs)
  show ?case unfolding reads_def
  proof (intro allI impI)
    fix r n assume n: "2 * length (json_text enc (JArr xs)) \<le> n"
    then obtain k where k: "n = Suc k" by (cases n) (auto simp: json_text_simps)
    show "json_value n (json_text enc (JArr xs) @ r) = Some (JArr xs, r)"
    proof (cases xs)
      case Nil
      then show ?thesis using k by (simp add: json_text_simps items_text_simps skip_ws_def Let_def)
    next
      case (Cons y ys)
      have all: "list_all (reads enc) xs" using JArr by (auto simp: list_all_iff)
      obtain c s where c: "json_text enc y = c # s" "opener c" using json_text_opener [of y] JArr.prems Cons by auto
      have "\<exists>s'. items_text enc xs = c # s'" using c Cons by (cases ys) (auto simp: items_text_simps)
      then have "expect (CHR '']'') (items_text enc xs @ CHR '']'' # r) = None" using opener_expect(1) [OF c(2)] by auto
      moreover have "json_items k [] (items_text enc xs @ CHR '']'' # r) = Some (JArr ([] @ xs), r)"
        using n k Cons by (intro json_items_text [OF all]) (auto simp: json_text_simps)
      ultimately show ?thesis using k by (simp add: json_text_simps skip_ws_def Let_def)
    qed
  qed
next
  case (JObj ps)
  show ?case unfolding reads_def
  proof (intro allI impI)
    fix r n assume n: "2 * length (json_text enc (JObj ps)) \<le> n"
    then obtain k where k: "n = Suc k" by (cases n) (auto simp: json_text_simps)
    show "json_value n (json_text enc (JObj ps) @ r) = Some (JObj ps, r)"
    proof (cases ps)
      case Nil
      then show ?thesis using k by (simp add: json_text_simps pairs_text_simps skip_ws_def Let_def)
    next
      case (Cons q qs)
      have all: "list_all (\<lambda>(k, v). reads enc v) ps" using JObj by (fastforce simp: list_all_iff)
      have "\<exists>s'. pairs_text enc ps = CHR 0x22 # s'" using Cons
        by (cases qs; cases q) (auto simp: pairs_text_simps json_text_simps)
      then have "expect (CHR ''}'') (pairs_text enc ps @ CHR ''}'' # r) = None" by auto
      moreover have "json_pairs k [] (pairs_text enc ps @ CHR ''}'' # r) = Some (JObj ([] @ ps), r)"
        using n k Cons JObj.prems by (intro json_pairs_text [OF all]) (auto simp: json_text_simps)
      ultimately show ?thesis using k by (simp add: json_text_simps skip_ws_def Let_def)
    qed
  qed
next
  case (JStr x)
  show ?case unfolding reads_def
  proof (intro allI impI)
    fix r n assume "2 * length (json_text enc (JStr x)) \<le> n"
    then obtain k where "n = Suc k" by (cases n) (auto simp: json_text_simps)
    then show "json_value n (json_text enc (JStr x) @ r) = Some (JStr x, r)"
      by (simp add: json_text_simps json_chars_str Let_def)
  qed
next
  case (JBool b)
  show ?case unfolding reads_def
  proof (intro allI impI)
    fix r n assume "2 * length (json_text enc (JBool b)) \<le> n"
    then obtain k where "n = Suc k" by (cases n) (auto simp: json_text_simps split: if_split_asm)
    then show "json_value n (json_text enc (JBool b) @ r) = Some (JBool b, r)"
      by (auto simp: json_text_simps skip_ws_def Let_def)
  qed
next
  case JNull
  show ?case unfolding reads_def
  proof (intro allI impI)
    fix r n assume "2 * length (json_text enc JNull) \<le> n"
    then obtain k where "n = Suc k" by (cases n) (auto simp: json_text_simps)
    then show "json_value n (json_text enc JNull @ r) = Some (JNull, r)"
      by (auto simp: json_text_simps skip_ws_def Let_def)
  qed
qed

lemma json_parse_text:
  assumes "printable v"
  shows "json_parse (enc (json_print v)) = Some v"
proof -
  have "json_value (2 * length (json_text enc v) + 2) (json_text enc v @ []) = Some (v, [])"
    by (rule readsD [OF printable_reads [OF assms] terminated_simps(1)]) simp
  then show ?thesis by (simp add: json_parse_def json_text_def skip_ws_def del: json_value.simps)
qed

end


interpretation escaped: text_encoding escape_lt
  by unfold_locales (simp_all add: escape_lt_id json_chars_escape)

interpretation verbatim: text_encoding "\<lambda>s. s"
  by unfold_locales (simp_all add: json_chars_print)

text \<open>A printed document with a line break at its end.\<close>

lemma json_parse_line:
  assumes "printable v"
  shows "json_parse (json_print v @ [CHR 0x0A]) = Some v"
proof -
  have "terminated [CHR 0x0A]" by (simp add: terminated_def is_digit_def)
  then have "json_value (2 * (length (json_print v) + 1) + 2) (json_print v @ [CHR 0x0A]) = Some (v, [CHR 0x0A])"
    using verbatim.readsD [OF verbatim.printable_reads [OF assms]] by (simp add: json_text_def del: json_value.simps)
  then show ?thesis by (simp add: json_parse_def skip_ws_def del: json_value.simps)
qed

end
