(* ===== verification/MigrationReceiptText.thy ===== *)
theory MigrationReceiptText
  imports JsonRound Samples Publication
begin

text \<open>
  src/provider/migration-receipt.ts: the comment text in which a migration receipt is published, and how it
  is read back. The JSON schema of a receipt, with the conversion of an accepted value, is a parameter.
\<close>

section \<open>Receipts\<close>

definition RECEIPT_PREFIX :: string where "RECEIPT_PREFIX = ''<!-- agent-flow-migration:''"

text \<open>The length of the UTF-8 encoding of a text of 8-bit code units.\<close>

definition byteLength :: "string \<Rightarrow> int" where
  "byteLength s = sum_list (map (\<lambda>c. if code c < 128 then 1 else 2) s)"

definition receipt_text :: "string \<Rightarrow> string option" where
  "receipt_text line =
    (let opening = RECEIPT_PREFIX @ ''v1 ''; r = drop (length opening) line in
     if starts_with line opening \<and> ends_with r '' -->'' \<and> length r > 4
        \<and> CHR 0x0D \<notin> set r \<and> CHR 0x0A \<notin> set r
     then Some (take (length r - 4) r) else None)"

definition parseMigrationReceipt ::
  "(json \<Rightarrow> MigrationReceipt option) \<Rightarrow> string \<Rightarrow> (MigrationReceipt \<times> string) option res" where
  "parseMigrationReceipt schema body =
    (if \<not> includes_str body RECEIPT_PREFIX then ok None
     else if byteLength body > 256 * 1024 then fail ''Migration receipt exceeds size limit''
     else (case filter (\<lambda>l. starts_with l RECEIPT_PREFIX) (lines_of body) of
        [block] \<Rightarrow>
          (case receipt_text block of None \<Rightarrow> fail ''Unsupported or invalid migration receipt version''
           | Some js \<Rightarrow>
              (case json_parse js of None \<Rightarrow> fail ''Invalid migration receipt JSON''
               | Some v \<Rightarrow>
                  (case schema v of None \<Rightarrow> fail ''Invalid migration receipt''
                   | Some receipt \<Rightarrow>
                      (case parsePublication body of
                         PCurrent m \<Rightarrow> if pm_config m \<noteq> mg_targetConfig receipt
                            then fail ''Migration receipt marker mismatch'' else ok (Some (receipt, pm_controller m))
                       | _ \<Rightarrow> fail ''Migration receipt marker mismatch''))))
      | _ \<Rightarrow> fail ''Conflicting migration metadata''))"

definition json_opt :: "string option \<Rightarrow> json" where
  "json_opt x = (case x of None \<Rightarrow> JNull | Some s \<Rightarrow> JStr s)"

definition actor_document :: "Actor \<Rightarrow> json" where
  "actor_document a = JObj [(''login'', JStr (ac_login a)), (''providerId'', JStr (ac_providerId a))]"

definition ref_document :: "TicketRef \<Rightarrow> json" where
  "ref_document r = JObj [(''provider'', JStr (provider_name (tr_provider r))), (''repository'', JStr (tr_repository r)),
     (''number'', JInt (tr_number r))]"

definition change_document :: "MigrationChange \<Rightarrow> json" where
  "change_document c = JObj [(''provider'', JStr (provider_name (mc_provider c))), (''repository'', JStr (mc_repository c)),
     (''number'', JInt (mc_number c)), (''url'', JStr (mc_url c)), (''headRepository'', JStr (mc_headRepository c)),
     (''headBranch'', JStr (mc_headBranch c)), (''headSha'', JStr (mc_headSha c)), (''marker'', JStr (mc_marker c))]"

definition receipt_document :: "MigrationReceipt \<Rightarrow> json" where
  "receipt_document r = JObj
    [(''workspace'', JStr (mg_workspace r)), (''apiVersion'', JStr ''agent-flow/migration-v1''),
     (''kind'', JStr ''MigrationReceipt''), (''ticket'', ref_document (mg_ticket r)),
     (''activation'', JObj [(''eventId'', JStr (mg_activationEventId r)), (''label'', JStr (mg_activationLabel r)),
        (''actor'', actor_document (mg_activationActor r)), (''occurredAt'', JStr (mg_activationOccurredAt r))]),
     (''owner'', JObj [(''key'', JStr (mg_ownerKey r)), (''config'', JStr (mg_ownerConfig r)),
        (''createdAt'', JStr (mg_ownerCreatedAt r))]),
     (''request'', JObj [(''id'', JStr (mg_requestId r)), (''actor'', actor_document (mg_requestActor r)),
        (''bodyHash'', JStr (mg_requestBodyHash r)), (''createdAt'', JStr (mg_requestCreatedAt r)),
        (''updatedAt'', JStr (mg_requestUpdatedAt r))]),
     (''source'', JObj ([(''config'', JStr (mg_sourceConfig r)), (''stage'', JStr (mg_sourceStage r)),
        (''resume'', json_opt (mg_sourceResume r))] @
        (case mg_sourceHumanInput r of None \<Rightarrow> []
         | Some (i, dg) \<Rightarrow> [(''humanInput'', JObj [(''id'', JStr i), (''digest'', JStr dg)])]))),
     (''target'', JObj [(''config'', JStr (mg_targetConfig r)), (''flow'', JStr (mg_targetFlow r)),
        (''label'', JStr (mg_targetLabel r)), (''basis'', JStr (mg_targetBasis r))]),
     (''change'', change_document (mg_change r)), (''start'', JStr (mg_start r)),
     (''retained'', JArr (map (\<lambda>(k, st, dg). JObj [(''key'', JStr k), (''stage'', JStr st), (''digest'', JStr dg)]) (mg_retained r))),
     (''baseline'', JObj [(''comments'', JArr (map JStr (mg_baselineComments r))),
        (''reviews'', JArr (map JStr (mg_baselineReviews r)))]),
     (''predecessor'', json_opt (mg_predecessor r))]"

definition renderMigrationReceipt ::
  "(json \<Rightarrow> MigrationReceipt option) \<Rightarrow> MigrationReceipt \<Rightarrow> string \<Rightarrow> string res" where
  "renderMigrationReceipt schema receipt controller =
    (if schema (receipt_document receipt) = None then fail ''Invalid migration receipt''
     else bindR (renderPublication \<lparr> pm_config = mg_targetConfig receipt, pm_controller = controller \<rparr>) (\<lambda>marker.
       ok (marker @ [CHR 0x0A] @ RECEIPT_PREFIX @ ''v1 '' @ escape_lt (json_print (receipt_document receipt)) @ '' -->'')))"

section \<open>Reading a receipt back\<close>

lemma print_char_clean: "d \<in> set (print_char c) \<Longrightarrow> 32 \<le> code d"
proof (cases rule: print_char_cases [of c])
  case 2
  assume d: "d \<in> set (print_char c)"
  have "32 \<le> code (hex_digit n)" if "n < 16" for n
    using below_16 [OF that] by (elim disjE) (simp_all add: hex_digit_def code_def)
  moreover have "code c div 16 < 16" "code c mod 16 < 16" using 2 by auto
  ultimately show ?thesis using d 2 by (auto simp: code_def)
next
  case (1 e)
  assume d: "d \<in> set (print_char c)"
  then show ?thesis using 1 by (auto simp: code_def simple_escape_def split: if_split_asm)
qed auto

lemma digit_code: "is_digit d \<Longrightarrow> 32 \<le> code d"
  by (auto simp: is_digit_def code_def)

lemma print_str_clean: "d \<in> set (print_str s) \<Longrightarrow> 32 \<le> code d"
  using print_char_clean by (auto simp: print_str_def code_def)

lemma set_join: "d \<in> set (join_with sep ls) \<Longrightarrow> (\<exists>l \<in> set ls. d \<in> set l) \<or> d \<in> set sep"
  by (cases ls) (auto simp: join_with_def split: if_split_asm)

lemma json_print_clean: "printable v \<Longrightarrow> d \<in> set (json_print v) \<Longrightarrow> 32 \<le> code d"
proof (induction v)
  case (JInt i)
  then show ?case using nat_str_digits digit_code by (auto simp: int_str_def code_def split: if_split_asm)
next
  case (JArr xs)
  then show ?case by (auto simp: list_all_iff code_def dest!: set_join)
next
  case (JObj ps)
  then show ?case using print_str_clean by (fastforce simp: list_all_iff code_def dest!: set_join)
next
  case (JStr x)
  then show ?case using print_str_clean by simp
next
  case (JDec m k)
  then show ?case using nat_str_digits fraction_read [of "nat \<bar>m\<bar> mod 10 ^ k" k] unfolding json_print_dec
    by (auto simp: list_all_iff code_def dest: digit_code [unfolded code_def] split: if_split_asm)
qed (auto simp: code_def split: if_split_asm)

lemma escape_lt_code: "d \<in> set (escape_lt s) \<Longrightarrow> (\<forall>c \<in> set s. 32 \<le> code c) \<Longrightarrow> 32 \<le> code d"
  by (induction s) (auto simp: escape_lt_Cons code_def split: if_split_asm)

definition receipt_line :: "json \<Rightarrow> string" where
  "receipt_line v = RECEIPT_PREFIX @ ''v1 '' @ escape_lt (json_print v) @ '' -->''"

lemma receipt_line_text:
  assumes "printable v"
  shows "text_line (receipt_line v)" "fence_of (receipt_line v) = None" "receipt_text (receipt_line v) = Some (escape_lt (json_print v))"
proof -
  have c: "32 \<le> code d" if "d \<in> set (escape_lt (json_print v))" for d
    using escape_lt_code [OF that] json_print_clean [OF assms] by blast
  then have n: "CHR 0x0A \<notin> set (escape_lt (json_print v))" "CHR 0x0D \<notin> set (escape_lt (json_print v))"
    by (force simp: code_def)+
  show "text_line (receipt_line v)" using n by (simp add: text_line_def no_nl_def receipt_line_def RECEIPT_PREFIX_def)
  show "fence_of (receipt_line v) = None"
    by (simp add: fence_of_def receipt_line_def RECEIPT_PREFIX_def is_ws_def trim_start_def)
  obtain c' t where "json_text escape_lt v = c' # t" using escaped.json_text_opener [OF assms] by blast
  then have ne: "escape_lt (json_print v) \<noteq> []" by (simp add: json_text_def)
  show "receipt_text (receipt_line v) = Some (escape_lt (json_print v))"
    unfolding receipt_text_def receipt_line_def Let_def using n ne
    by (simp add: starts_with_def ends_with_def RECEIPT_PREFIX_def)
qed

lemma receipt_line_unmarked: "line_candidates (receipt_line v) = []"
proof -
  define r where "r = ''!-- agent-flow-migration:v1 '' @ escape_lt (json_print v) @ '' -->''"
  have lr: "receipt_line v = CHR ''<'' # r" by (simp add: receipt_line_def RECEIPT_PREFIX_def r_def)
  have nr: "CHR ''<'' \<notin> set r" using escape_lt_clean [of "json_print v"] by (simp add: r_def)
  have inc: "\<not> includes_str (receipt_line v) MARKER_PREFIX" "\<not> includes_str (receipt_line v) CONTROL_PREFIX"
    "\<not> includes_str (receipt_line v) ''<!-- agent-flow:v1 flow=''" "\<not> includes_str (receipt_line v) ''<!-- agent-flow:v1 ''"
    by (simp_all only: MARKER_PREFIX_def CONTROL_PREFIX_def lr includes_str_head [OF nr]) (simp_all add: r_def)
  then have mc: "markerCount (receipt_line v) = 0"
    by (simp add: markerCount_def count_str_absent MARKER_PREFIX_def CONTROL_PREFIX_def)
  have "marker_body ''<!-- agent-flow:v1 '' (receipt_line v) = None"
    using marker_body_includes [of "''<!-- agent-flow:v1 ''" "receipt_line v"] inc(4)
    by (cases "marker_body ''<!-- agent-flow:v1 '' (receipt_line v)") auto
  then show ?thesis using inc mc by (simp add: line_candidates_def)
qed

lemma receipt_body_lines:
  assumes "valid_metadata m" "printable v"
  defines "l \<equiv> ''<!-- agent-flow:v1 '' @ metadata_json m @ '' -->''"
  shows "lines_of (l @ [CHR 0x0A] @ receipt_line v) = [l, receipt_line v]"
    "parsePublication (l @ [CHR 0x0A] @ receipt_line v) = PCurrent m"
    "\<not> starts_with l RECEIPT_PREFIX" "starts_with (receipt_line v) RECEIPT_PREFIX"
    "includes_str (l @ [CHR 0x0A] @ receipt_line v) RECEIPT_PREFIX"
proof -
  note r = render_line [OF assms(1), folded l_def] and t = receipt_line_text [OF assms(2)]
  have j: "l @ [CHR 0x0A] @ receipt_line v = join_with [CHR 0x0A] [l, receipt_line v]" by (simp add: join_with_def)
  show ls: "lines_of (l @ [CHR 0x0A] @ receipt_line v) = [l, receipt_line v]"
    unfolding j using r t by (intro lines_of_join) auto
  show "parsePublication (l @ [CHR 0x0A] @ receipt_line v) = PCurrent m"
    unfolding parsePublication_def candidates_of_def ls using r t receipt_line_unmarked [of v] by simp
  show "\<not> starts_with l RECEIPT_PREFIX" "starts_with (receipt_line v) RECEIPT_PREFIX"
    by (simp_all add: l_def receipt_line_def RECEIPT_PREFIX_def)
  show "includes_str (l @ [CHR 0x0A] @ receipt_line v) RECEIPT_PREFIX"
    unfolding includes_str_iff receipt_line_def by (rule exI [of _ "l @ [CHR 0x0A]"]) auto
qed

lemma printable_receipt: "printable (receipt_document r)"
  by (auto simp: receipt_document_def ref_document_def actor_document_def change_document_def json_opt_def list_all_iff
      split: option.split)

section \<open>Properties\<close>

text \<open>
  C18: a published migration receipt is read back as it was written, with the controller of its marker,
  whatever texts it carries: the escaped less-than signs keep them from being taken for markers.
\<close>

theorem receipt_roundtrip:
  assumes "renderMigrationReceipt schema r controller = ok body" "schema (receipt_document r) = Some r"
    "byteLength body \<le> 256 * 1024"
  shows "parseMigrationReceipt schema body = ok (Some (r, controller))"
proof -
  let ?m = "\<lparr> pm_config = mg_targetConfig r, pm_controller = controller \<rparr>"
  let ?l = "''<!-- agent-flow:v1 '' @ metadata_json ?m @ '' -->''"
  let ?v = "receipt_document r"
  obtain marker where marker: "renderPublication ?m = ok marker" "body = marker @ [CHR 0x0A] @ receipt_line ?v"
    using assms(1) by (auto simp: renderMigrationReceipt_def receipt_line_def split: if_split_asm)
  have v: "valid_metadata ?m" using marker(1) by (simp add: renderPublication_def split: if_splits)
  have m: "marker = ?l" using marker(1) v metadata_json_print [OF v]
    by (simp add: renderPublication_def del: json_print.simps)
  note b = receipt_body_lines [OF v printable_receipt [of r]]
  have "filter (\<lambda>l. starts_with l RECEIPT_PREFIX) (lines_of body) = [receipt_line ?v]"
    unfolding marker(2) m b(1) using b(3,4) by simp
  then show ?thesis using b(2,5) receipt_line_text(3) [OF printable_receipt [of r]] escaped.json_parse_text [OF printable_receipt [of r]] assms(2,3)
    unfolding parseMigrationReceipt_def marker(2) m by simp
qed

definition sample_migration :: MigrationReceipt where
  "sample_migration = \<lparr> mg_ticket = sample_ref, mg_workspace = ''w'', mg_activationEventId = ''e1'',
     mg_activationLabel = ''a'', mg_activationActor = sample_actor, mg_activationOccurredAt = ''t0'', mg_ownerKey = ''k'',
     mg_ownerConfig = ''o'', mg_ownerCreatedAt = ''t1'', mg_requestId = ''c1'', mg_requestActor = sample_actor,
     mg_requestBodyHash = ''h'', mg_requestCreatedAt = ''t2'', mg_requestUpdatedAt = ''t2'',
     mg_sourceConfig = ''o'', mg_sourceStage = ''develop'', mg_sourceResume = None, mg_sourceHumanInput = Some (''i'', ''d''),
     mg_targetConfig = sample_sha, mg_targetFlow = ''demo'', mg_targetLabel = ''a'', mg_targetBasis = ''b'',
     mg_change = \<lparr> mc_provider = Github, mc_repository = ''acme/app'', mc_number = 34, mc_url = ''u'',
       mc_headRepository = ''acme/app'', mc_headBranch = ''work'', mc_headSha = ''abc'', mc_marker = ''<!-- agent-flow:v1 -->'' \<rparr>,
     mg_start = ''develop'', mg_retained = [(''k'', ''develop'', ''d'')], mg_baselineComments = [''c1''],
     mg_baselineReviews = [], mg_predecessor = None \<rparr>"

definition sample_schema :: "json \<Rightarrow> MigrationReceipt option" where
  "sample_schema v = (if v = receipt_document sample_migration then Some sample_migration else None)"

lemma sample_rendered:
  "(case renderMigrationReceipt sample_schema sample_migration sample_uuid of Inr body \<Rightarrow> byteLength body \<le> 256 * 1024 | Inl e \<Rightarrow> False)"
  by code_simp

theorem receipt_roundtrip_witness:
  "\<exists>body. renderMigrationReceipt sample_schema sample_migration sample_uuid = ok body
    \<and> parseMigrationReceipt sample_schema body = ok (Some (sample_migration, sample_uuid))"
proof -
  obtain body where b: "renderMigrationReceipt sample_schema sample_migration sample_uuid = ok body" "byteLength body \<le> 256 * 1024"
    using sample_rendered by (auto simp: ok_def split: sum.splits)
  have "sample_schema (receipt_document sample_migration) = Some sample_migration" by (simp add: sample_schema_def)
  from receipt_roundtrip [OF b(1) this b(2)] show ?thesis using b(1) by blast
qed

end
