(* ===== verification/MigrationRecovery.thy ===== *)
theory MigrationRecovery
  imports RecoveryIteration MigrationSelect MigrationReceiptText
begin

text \<open>
  src/runtime/migration-recovery.ts: the reconstruction of the migrations of a ticket from the receipts in
  its comments. The receipts form a chain from the original owner of the work; every link is checked
  against the request it accepted, the two configurations it names and the results it retains. The
  schema of a receipt, with the conversion of an accepted value, is a parameter.
\<close>

section \<open>Access\<close>

record 's MigrationAccess =
  ma_env :: MigrationEnv
  ma_receipt :: "json \<Rightarrow> MigrationReceipt option"
  ma_load :: "string \<Rightarrow> ('s, ConfigBundle) io"
  ma_permission :: "(string \<Rightarrow> Actor \<Rightarrow> ('s, Permission) io) option"

section \<open>Scopes\<close>

fun existsR :: "('a \<Rightarrow> bool res) \<Rightarrow> 'a list \<Rightarrow> bool res" where
  "existsR P [] = ok False"
| "existsR P (x # xs) = bindR (P x) (\<lambda>b. if b then ok True else existsR P xs)"

definition eligibleAfterMigration :: "MigrationReceipt \<Rightarrow> json \<Rightarrow> json \<Rightarrow> bool" where
  "eligibleAfterMigration receipt kind i \<longleftrightarrow>
    (if kind = JStr ''change-request'' then False
     else if kind = JStr ''comment'' then i \<notin> JStr ` set (mg_baselineComments receipt)
     else if kind = JStr ''review'' then i \<notin> JStr ` set (mg_baselineReviews receipt) else False)"

definition publicationIdentity :: "string \<Rightarrow> (json \<times> json) res" where
  "publicationIdentity key =
    (case json_parse key of None \<Rightarrow> fail ''Unexpected token in JSON''
     | Some (JArr [_, _, _, kind, i]) \<Rightarrow> ok (kind, i)
     | _ \<Rightarrow> fail ''Invalid publication identity'')"

definition current_marker :: "string \<Rightarrow> PublicationMetadata option" where
  "current_marker body = (case parsePublication body of PCurrent m \<Rightarrow> Some m | _ \<Rightarrow> None)"

definition url_base :: "string \<Rightarrow> string" where
  "url_base u = takeWhile (\<lambda>c. c \<noteq> CHR ''#'') u"

definition same_controller :: "PublicationMetadata \<Rightarrow> string \<Rightarrow> bool" where
  "same_controller m body \<longleftrightarrow> opt_is (\<lambda>o'. pm_controller o' = pm_controller m) (current_marker body)"

definition incidentalChanges :: "RecoveryEvidence \<Rightarrow> int \<Rightarrow> PublicationMetadata \<Rightarrow> NormalizedChangeRequest list" where
  "incidentalChanges ev n m = filter (\<lambda>c. nc_number c \<noteq> n \<and> nc_state c \<noteq> CsOpen \<and> same_controller m (nc_body c)) (rv_changes ev)"

definition incidentalReviews :: "RecoveryEvidence \<Rightarrow> NormalizedChangeRequest list \<Rightarrow> PublicationMetadata \<Rightarrow> string list" where
  "incidentalReviews ev incidental m = map nr_id (filter (\<lambda>r. same_controller m (nr_body r)
     \<and> list_ex (\<lambda>c. url_base (nr_url r) = nc_url c) incidental) (rv_reviews ev))"

definition scopeMigrationEvidence :: "RecoveryEvidence \<Rightarrow> int \<Rightarrow> RecoveryEvidence res" where
  "scopeMigrationEvidence ev n =
    (case Option.bind (List.find (\<lambda>c. nc_number c = n) (rv_changes ev)) (\<lambda>c. current_marker (nc_body c)) of
       None \<Rightarrow> ok ev
     | Some m \<Rightarrow>
        (let incidental = incidentalChanges ev n m;
             reviewIds = incidentalReviews ev incidental m
         in bindR (filterR (\<lambda>p. bindR (publicationIdentity (pb_key p)) (\<lambda>(kind, i).
               ok (pm_controller (pb_metadata p) = pm_controller m \<and>
                 (if kind = JStr ''change-request'' then list_ex (\<lambda>c. JStr (int_str (nc_number c)) = i) incidental
                  else kind = JStr ''review'' \<and> i \<in> JStr ` set reviewIds)))) (rv_publications ev)) (\<lambda>ignored.
            (let ignoredKeys = map pb_key ignored in
             ok (ev \<lparr> rv_publications := filter (\<lambda>p. pb_key p \<notin> set ignoredKeys) (rv_publications ev),
                      rv_reviews := filter (\<lambda>r. nr_id r \<notin> set reviewIds) (rv_reviews ev),
                      rv_ambiguities := filter (\<lambda>reason. \<not> list_ex (\<lambda>key.
                          reason = ''publication provenance is unavailable: '' @ key) ignoredKeys) (rv_ambiguities ev) \<rparr>)))))"

definition assertCarriedChange :: "NormalizedChangeRequest \<Rightarrow> MigrationReceipt \<Rightarrow> unit res" where
  "assertCarriedChange change receipt =
    (let pinned = mg_change receipt in
     bindR (checkR (nc_provider change \<noteq> mc_provider pinned \<or> nc_repository change \<noteq> mc_repository pinned
        \<or> nc_number change \<noteq> mc_number pinned \<or> nc_url change \<noteq> mc_url pinned
        \<or> nc_headRepository change \<noteq> Some (mc_headRepository pinned) \<or> nc_headBranch change \<noteq> Some (mc_headBranch pinned))
        ''Selected PR repository or branch identity changed'') (\<lambda>_.
     checkR (current_marker (nc_body change) = None \<or> current_marker (nc_body change) \<noteq> current_marker (mc_marker pinned))
       ''Selected PR source marker changed''))"

section \<open>One link of the chain\<close>

record ReceiptRow =
  rr_comment :: ProviderComment
  rr_receipt :: MigrationReceipt
  rr_controller :: string

record ReceiptChain =
  ch_row :: ReceiptRow
  ch_previous :: "string option"
  ch_sourcePin :: string
  ch_seen :: "string list"
  ch_workspace :: "string option"

definition in_activation :: "RecoveryEvidence \<Rightarrow> ProviderComment \<Rightarrow> bool" where
  "in_activation ev c = (case truthy (av_occurredAt (sn_activation (rv_snapshot ev))) of None \<Rightarrow> True
     | Some t \<Rightarrow> (case (date_parse (pc_createdAt c), date_parse t) of (Some x, Some y) \<Rightarrow> x \<ge> y | _ \<Rightarrow> False))"

definition receiptRows :: "(json \<Rightarrow> MigrationReceipt option) \<Rightarrow> RecoveryEvidence \<Rightarrow> ReceiptRow list res" where
  "receiptRows schema ev =
    bindR (mapR (\<lambda>c. bindR (parseMigrationReceipt schema (pc_body c)) (\<lambda>parsed.
        ok (case parsed of None \<Rightarrow> []
            | Some (r, controller) \<Rightarrow> [\<lparr> rr_comment = c, rr_receipt = r, rr_controller = controller \<rparr>])))
      (filter (in_activation ev) (sn_comments (rv_snapshot ev)))) (\<lambda>rows. ok (concat rows))"

definition row_id :: "ReceiptRow \<Rightarrow> string" where
  "row_id row = pc_id (rr_comment row)"

definition comment_by_id :: "RecoveryEvidence \<Rightarrow> string \<Rightarrow> ProviderComment option" where
  "comment_by_id ev i = List.find (\<lambda>c. pc_id c = i) (sn_comments (rv_snapshot ev))"

definition may_act :: "'s MigrationAccess \<Rightarrow> string \<Rightarrow> Actor \<Rightarrow> ('s, bool) io" where
  "may_act a repository actor = (case ma_permission a of None \<Rightarrow> retM True
     | Some permission \<Rightarrow> bindM (permission repository actor) (\<lambda>p. retM (authorized_permission p)))"

definition receiptPublished :: "RecoveryEvidence \<Rightarrow> ReceiptRow \<Rightarrow> bool res" where
  "receiptPublished ev row = existsR (\<lambda>p. bindR (publicationIdentity (pb_key p)) (\<lambda>(_, i).
     ok (i = JStr (row_id row) \<and> pm_controller (pb_metadata p) = rr_controller row \<and> eligible p))) (rv_publications ev)"

definition chainScope :: "RecoveryEvidence \<Rightarrow> Publication \<Rightarrow> ReceiptChain \<Rightarrow> unit res" where
  "chainScope ev owner ch =
    (let row = ch_row ch; r = rr_receipt row; a = sn_activation (rv_snapshot ev) in
     bindR (checkR (row_id row \<in> set (ch_seen ch)) ''Migration receipt chain cycle'') (\<lambda>_.
     bindR (checkR (opt_is (\<lambda>w. w \<noteq> mg_workspace r) (truthy (ch_workspace ch)))
        ''Migration workspace binding changed across receipts'') (\<lambda>_.
     bindR (checkR (pc_updatedAt (rr_comment row) \<noteq> pc_createdAt (rr_comment row)) ''Migration receipt was edited'') (\<lambda>_.
     bindR (receiptPublished ev row) (\<lambda>published.
     bindR (checkR (\<not> published) ''Migration receipt author/provenance is unavailable'') (\<lambda>_.
     bindR (checkR (rr_controller row \<noteq> pm_controller (pb_metadata owner) \<or> mg_ownerKey r \<noteq> pb_key owner
         \<or> mg_ownerConfig r \<noteq> pm_config (pb_metadata owner) \<or> mg_ownerCreatedAt r \<noteq> pb_createdAt owner)
        ''Migration receipt cannot transfer ownership'') (\<lambda>_.
     bindR (checkR (mg_ticket r \<noteq> sn_ref (rv_snapshot ev) \<or> Some (mg_activationEventId r) \<noteq> av_eventId a
         \<or> Some (mg_activationLabel r) \<noteq> av_label a \<or> Some (mg_activationActor r) \<noteq> av_actor a
         \<or> Some (mg_activationOccurredAt r) \<noteq> av_occurredAt a \<or> Some (mg_targetLabel r) \<noteq> av_label a)
        ''Migration activation or ticket scope conflicts'') (\<lambda>_.
     checkR (mg_sourceConfig r \<noteq> ch_sourcePin ch \<or> mg_predecessor r \<noteq> ch_previous ch)
        ''Migration receipt source chain conflicts''))))))))"

text \<open>The pattern of a commit, with the flag i.\<close>

definition full_sha :: "string \<Rightarrow> bool" where
  "full_sha s \<longleftrightarrow> length s = 40 \<and> list_all (\<lambda>c. is_hex c \<or> c \<in> set ''ABCDEF'') s"

definition lower_char :: "char \<Rightarrow> char" where
  "lower_char c = (if is_upper c then char_of (code c + 32) else c)"

definition commandOf :: "MigrationReceipt \<Rightarrow> string \<Rightarrow> MigrationRequest res" where
  "commandOf r body =
    bindR (parseMigrationRequest body) (\<lambda>parsed. case parsed of None \<Rightarrow> fail ''Accepted migration command conflicts''
     | Some q \<Rightarrow>
        bindR (checkR ((full_sha (mq_to q) \<and> map lower_char (mq_to q) \<noteq> mg_targetConfig r)
            \<or> mq_pr q \<noteq> mc_number (mg_change r) \<or> opt_is (\<lambda>s. s \<noteq> mg_start r) (mq_resume q))
           ''Accepted migration command conflicts'') (\<lambda>_. ok q))"

definition acceptedRequest ::
  "'s MigrationAccess \<Rightarrow> RecoveryEvidence \<Rightarrow> MigrationReceipt \<Rightarrow> ('s, MigrationRequest) io" where
  "acceptedRequest a ev r =
    (case comment_by_id ev (mg_requestId r) of None \<Rightarrow> failM ''Accepted migration request is missing or edited''
     | Some request \<Rightarrow>
        thenM (checkM (digest (ma_env a) (JStr (pc_body request)) \<noteq> mg_requestBodyHash r \<or> pc_actor request \<noteq> mg_requestActor r
            \<or> pc_createdAt request \<noteq> mg_requestCreatedAt r \<or> pc_updatedAt request \<noteq> mg_requestUpdatedAt r)
           ''Accepted migration request is missing or edited'')
        (bindM (may_act a (tr_repository (mg_ticket r)) (pc_actor request)) (\<lambda>allowed.
         thenM (checkM (\<not> allowed) ''Accepted migration request actor lacks permission'')
        (thenM (checkM (pc_id request \<notin> set (mg_baselineComments r)) ''Migration request is missing from the replay boundary'')
         (liftR (commandOf r (pc_body request)))))))"

definition agreedSelection ::
  "'s MigrationAccess \<Rightarrow> MigrationReceipt \<Rightarrow> MigrationRequest \<Rightarrow> ('s, ConfigBundle \<times> MigrationSelection) io" where
  "agreedSelection a r command =
    bindM (promiseAll [ma_load a (mg_sourceConfig r), ma_load a (mg_targetConfig r)]) (\<lambda>bundles.
     (let source = bundles ! 0; target = bundles ! 1 in
      thenM (checkM (fd_id (cb_flow target) \<noteq> mg_targetFlow r) ''Migration target flow conflicts'')
      (bindM (liftR (selectMigration (ma_env a) source target (mg_activationLabel r)
         (opt_or (mg_sourceResume r) (mg_sourceStage r)) (mq_resume command))) (\<lambda>sel.
       thenM (checkM (sel_stage sel \<noteq> mg_start r \<or> sel_basis sel \<noteq> mg_targetBasis r \<or> sel_noop sel)
         ''Migration compatibility decision conflicts'') (retM (target, sel))))))"

definition keptHumanInput ::
  "'s MigrationAccess \<Rightarrow> RecoveryEvidence \<Rightarrow> MigrationReceipt \<Rightarrow> MigrationRequest \<Rightarrow> ConfigBundle \<Rightarrow> ('s, unit) io" where
  "keptHumanInput a ev r command target =
    (case mg_sourceHumanInput r of None \<Rightarrow> retM ()
     | Some (i, dg) \<Rightarrow>
        (case comment_by_id ev i of None \<Rightarrow> failM ''Retained human gate input is unavailable or changed''
         | Some input \<Rightarrow>
            thenM (checkM (mq_resume command \<noteq> None \<or> mg_start r \<noteq> mg_sourceStage r
                \<or> \<not> kind_is (cb_flow target) (mg_start r) KHumanGate \<or> pc_id input \<notin> set (mg_baselineComments r)
                \<or> digest (ma_env a) (JStr (pc_body input)) \<noteq> dg \<or> parsePublication (pc_body input) \<noteq> PUnmarked
                \<or> pc_createdAt input > mg_requestCreatedAt r) ''Retained human gate input is unavailable or changed'')
            (bindM (may_act a (tr_repository (mg_ticket r)) (pc_actor input)) (\<lambda>allowed.
               checkM (\<not> allowed) ''Retained human gate input is unavailable or changed''))))"

definition retainedBody :: "RecoveryEvidence \<Rightarrow> json \<Rightarrow> json \<Rightarrow> string option" where
  "retainedBody ev kind i =
    (if kind = JStr ''comment'' then map_option pc_body (List.find (\<lambda>c. JStr (pc_id c) = i) (sn_comments (rv_snapshot ev)))
     else map_option nr_body (List.find (\<lambda>r. kind = JStr ''review'' \<and> JStr (nr_id r) = i) (rv_reviews ev)))"

definition keptResult ::
  "'s MigrationAccess \<Rightarrow> RecoveryEvidence \<Rightarrow> Publication list \<Rightarrow> MigrationSelection \<Rightarrow> string \<Rightarrow> string \<times> string \<times> string \<Rightarrow> unit res" where
  "keptResult a ev ordinary sel controller = (\<lambda>(key, stage, dg).
    bindR (checkR (stage \<notin> set (sel_retain sel)) ''Migration retains forbidden stage result'') (\<lambda>_.
    (case List.find (\<lambda>p. pb_key p = key) ordinary of None \<Rightarrow> fail ''Retained publication provenance is unavailable''
     | Some p \<Rightarrow>
        bindR (checkR (\<not> eligible p \<or> pm_controller (pb_metadata p) \<noteq> controller)
          ''Retained publication provenance is unavailable'') (\<lambda>_.
        bindR (publicationIdentity (pb_key p)) (\<lambda>(kind, i).
          checkR (\<not> opt_is (\<lambda>body. digest (ma_env a) (JStr body) = dg) (retainedBody ev kind i)) ''Retained result changed'')))))"

text \<open>Every check of one receipt.\<close>

definition checkLink ::
  "'s MigrationAccess \<Rightarrow> RecoveryEvidence \<Rightarrow> Publication \<Rightarrow> Publication list \<Rightarrow> ReceiptChain \<Rightarrow> ('s, unit) io" where
  "checkLink a ev owner ordinary ch =
    (let row = ch_row ch; r = rr_receipt row in
     thenM (liftR (chainScope ev owner ch))
     (bindM (acceptedRequest a ev r) (\<lambda>command.
      bindM (agreedSelection a r command) (\<lambda>(target, sel).
      thenM (keptHumanInput a ev r command target)
            (liftR (forR (keptResult a ev ordinary sel (rr_controller row)) (mg_retained r)))))))"

section \<open>The chain\<close>

definition chainStep ::
  "'s MigrationAccess \<Rightarrow> RecoveryEvidence \<Rightarrow> Publication \<Rightarrow> Publication list \<Rightarrow> ReceiptRow list \<Rightarrow> ReceiptChain
     \<Rightarrow> ('s, (ReceiptChain, ReceiptRow \<times> string list) loop_step) io" where
  "chainStep a ev owner ordinary rows ch =
    (let row = ch_row ch; r = rr_receipt row; seen = ch_seen ch @ [row_id row] in
     thenM (checkLink a ev owner ordinary ch)
     (case filter (\<lambda>x. mg_predecessor (rr_receipt x) = Some (row_id row)) rows of
        [] \<Rightarrow> retM (Stop (row, seen))
      | [next] \<Rightarrow> retM (Again \<lparr> ch_row = next, ch_previous = Some (row_id row), ch_sourcePin = mg_targetConfig r,
                    ch_seen = seen, ch_workspace = Some (mg_workspace r) \<rparr>)
      | _ \<Rightarrow> failM ''Migration receipt chain fork''))"

definition chain_left :: "ReceiptRow list \<Rightarrow> ReceiptChain \<Rightarrow> nat" where
  "chain_left rows ch = (let ids = set (map row_id rows) in
     if row_id (ch_row ch) \<in> ids then card (ids - set (ch_seen ch)) else Suc (card ids))"

definition receiptChain ::
  "'s MigrationAccess \<Rightarrow> RecoveryEvidence \<Rightarrow> Publication \<Rightarrow> Publication list \<Rightarrow> ReceiptRow list \<Rightarrow> ReceiptRow
     \<Rightarrow> ('s, ReceiptRow \<times> string list) io" where
  "receiptChain a ev owner ordinary rows first = whileM (chain_left rows) (chainStep a ev owner ordinary rows)
     \<lparr> ch_row = first, ch_previous = None, ch_sourcePin = pm_config (pb_metadata owner), ch_seen = [], ch_workspace = None \<rparr>"

section \<open>Recovering the last migration\<close>

text \<open>
  Number(...) of a JSON value when it is an integer: decimal literals with sign, fraction and exponent,
  hexadecimal, octal and binary ones, and the values of booleans and null. Arrays, objects and values
  that are not integers count as no number; the rounding of long fractions is not modelled.
\<close>

definition radix_value :: "nat \<Rightarrow> string \<Rightarrow> int option" where
  "radix_value base s = (let ds = map hex_val s in
     if s \<noteq> [] \<and> list_all (opt_is (\<lambda>d. d < base)) ds
     then Some (int (foldl (\<lambda>n d. base * n + opt_or d 0) 0 ds)) else None)"

definition decimal_value :: "string \<Rightarrow> int option" where
  "decimal_value s =
    (let neg = starts_with s ''-''; u = (if neg \<or> starts_with s ''+'' then tl s else s);
         (ds, t) = take_digits u;
         (fs, v) = (if starts_with t ''.'' then take_digits (tl t) else ([], t))
     in if ds = [] \<and> fs = [] then None
        else (case json_exponent v of Some (ex, []) \<Rightarrow>
            (case mk_num ((if neg then - 1 else 1) * int (str_nat (ds @ fs))) (length fs) ex of JInt n \<Rightarrow> Some n | _ \<Rightarrow> None)
          | _ \<Rightarrow> None))"

definition js_number :: "json \<Rightarrow> int option" where
  "js_number v = (case v of JInt n \<Rightarrow> Some n | JNull \<Rightarrow> Some 0 | JBool b \<Rightarrow> Some (if b then 1 else 0)
     | JStr x \<Rightarrow>
        (let s = trim_str x; h = map lower_char (take 2 s) in
         if s = [] then Some 0
         else if h = ''0x'' then radix_value 16 (drop 2 s)
         else if h = ''0o'' then radix_value 8 (drop 2 s)
         else if h = ''0b'' then radix_value 2 (drop 2 s)
         else decimal_value s)
     | _ \<Rightarrow> None)"

definition ordinaryPublications :: "string list \<Rightarrow> int \<Rightarrow> Publication list \<Rightarrow> Publication list res" where
  "ordinaryPublications ids number = filterR (\<lambda>p. bindR (publicationIdentity (pb_key p)) (\<lambda>(kind, i).
     ok ((kind \<noteq> JStr ''comment'' \<or> i \<notin> JStr ` set ids)
       \<and> (kind \<noteq> JStr ''change-request'' \<or> js_number i = Some number))))"

definition retained_object :: "MigrationReceipt \<Rightarrow> string \<Rightarrow> bool res" where
  "retained_object r i = existsR (\<lambda>(key, _). bindR (publicationIdentity key) (\<lambda>(_, x). ok (x = JStr i))) (mg_retained r)"

definition current_review :: "MigrationReceipt \<Rightarrow> NormalizedReview \<Rightarrow> bool res" where
  "current_review r review = (if eligibleAfterMigration r (JStr ''review'') (JStr (nr_id review)) then ok True
     else retained_object r (nr_id review))"

definition is_retained :: "MigrationReceipt \<Rightarrow> Publication \<Rightarrow> bool" where
  "is_retained r p \<longleftrightarrow> pb_key p \<in> set (map fst (mg_retained r))"

definition activePublications ::
  "MigrationReceipt \<Rightarrow> Publication \<Rightarrow> NormalizedChangeRequest \<Rightarrow> Publication list \<Rightarrow> Publication list res" where
  "activePublications r owner selected = filterR (\<lambda>p. bindR (publicationIdentity (pb_key p)) (\<lambda>(kind, i).
     ok (\<not> (kind = JStr ''change-request'' \<and> i \<noteq> JStr (int_str (nc_number selected)))
       \<and> (pm_controller (pb_metadata p) \<noteq> pm_controller (pb_metadata owner)
          \<or> eligibleAfterMigration r kind i \<or> is_retained r p))))"

text \<open>The change that the last receipt carries on, when it is still the only open one.\<close>

definition carriedSelection :: "RecoveryEvidence \<Rightarrow> MigrationReceipt \<Rightarrow> NormalizedChangeRequest res" where
  "carriedSelection ev r =
    (case List.find (\<lambda>c. nc_number c = mc_number (mg_change r)) (rv_changes ev) of
       None \<Rightarrow> fail ''Selected carried PR is unavailable or unlinked''
     | Some selected \<Rightarrow>
        bindR (assertCarriedChange selected r) (\<lambda>_.
        bindR (if nc_state selected = CsMerged
               then existsR (\<lambda>v. if nr_verdict v = VApproved \<and> nr_headSha v = nc_headSha selected then current_review r v else ok False)
                      (rv_reviews ev)
               else ok True) (\<lambda>validated.
        bindR (checkR (\<not> validated) ''Selected PR merged before target validation; follow-up work requires a separate decision'') (\<lambda>_.
        bindR (checkR (list_ex (\<lambda>c. nc_number c \<noteq> nc_number selected \<and> nc_state c = CsOpen) (rv_changes ev))
          ''Competing implementation PR evidence'') (\<lambda>_. ok selected)))))"

definition migratedEvidence ::
  "RecoveryEvidence \<Rightarrow> Publication \<Rightarrow> Publication list \<Rightarrow> ReceiptRow \<Rightarrow> RecoveryEvidence res" where
  "migratedEvidence ev owner ordinary row =
    (let r = rr_receipt row in
     bindR (carriedSelection ev r) (\<lambda>selected.
     bindR (activePublications r owner selected ordinary) (\<lambda>active.
     bindR (checkR (list_ex (\<lambda>p. pm_controller (pb_metadata p) = pm_controller (pb_metadata owner)
         \<and> pm_config (pb_metadata p) \<noteq> mg_targetConfig r \<and> \<not> is_retained r p) active)
        ''Post-migration publication uses an unexpected configuration'') (\<lambda>_.
     bindR (filterR (current_review r) (rv_reviews ev)) (\<lambda>reviews.
       ok (ev \<lparr> rv_migration := Some \<lparr> rm_id = row_id row, rm_receipt = r, rm_owner = owner, rm_comment = rr_comment row \<rparr>,
         rv_publications := map (\<lambda>p. if is_retained r p
            then p \<lparr> pb_metadata := (pb_metadata p) \<lparr> pm_config := mg_targetConfig r \<rparr> \<rparr> else p) active,
         rv_changes := [selected],
         rv_snapshot := (rv_snapshot ev) \<lparr> sn_changeRequest := Some selected \<rparr>,
         rv_reviews := reviews,
         rv_ambiguities := filter (\<lambda>x. x \<noteq> ''multiple linked pull requests'') (rv_ambiguities ev) \<rparr>))))))"

definition chainRoot :: "RecoveryEvidence \<Rightarrow> ReceiptRow list \<Rightarrow> int \<Rightarrow> (Publication \<times> Publication list \<times> ReceiptRow) res" where
  "chainRoot ev rows number =
    bindR (ordinaryPublications (map row_id rows) number (rv_publications ev)) (\<lambda>ordinary.
    bindR (electOwner ordinary) (\<lambda>elected. case elected of None \<Rightarrow> fail ''Migration original ownership anchor is unavailable''
     | Some owner \<Rightarrow>
        (case filter (\<lambda>x. mg_predecessor (rr_receipt x) = None) rows of
           [first] \<Rightarrow> ok (owner, ordinary, first)
         | _ \<Rightarrow> fail ''Migration receipt chain has missing or conflicting root'')))"

definition recoverMigration :: "'s MigrationAccess \<Rightarrow> RecoveryEvidence \<Rightarrow> ('s, RecoveryEvidence) io" where
  "recoverMigration a ev =
    bindM (liftR (receiptRows (ma_receipt a) ev)) (\<lambda>rows.
     if rows = [] then retM ev
     else thenM (checkM (\<not> rv_complete ev) ''Migration recovery requires complete provider evidence'')
      (case uniq (map (\<lambda>row. mc_number (mg_change (rr_receipt row))) rows) of
         [number] \<Rightarrow>
          bindM (liftR (scopeMigrationEvidence ev number)) (\<lambda>scoped.
          bindM (liftR (chainRoot scoped rows number)) (\<lambda>(owner, ordinary, first).
          bindM (receiptChain a scoped owner ordinary rows first) (\<lambda>(last, seen).
          thenM (checkM (length seen \<noteq> length rows) ''Migration receipt chain is disconnected'')
                (liftR (migratedEvidence scoped owner ordinary last)))))
       | _ \<Rightarrow> failM ''Migration receipt chain changes the selected PR''))"

section \<open>The recovery only reads\<close>

lemma keepsM_promiseAll: "(\<And>m. m \<in> set ms \<Longrightarrow> keepsM I m) \<Longrightarrow> keepsM I (promiseAll ms)"
proof (induction ms)
  case (Cons m ms)
  then have "keepsM I m" "keepsM I (promiseAll ms)" by simp_all
  then show ?case unfolding keepsM_def by (fastforce split: prod.split)
qed (simp add: keepsM_ret)

lemma keepsM_loop: "(\<And>a. keepsM I (step a)) \<Longrightarrow> keepsM I (loopM n step a)"
proof (induction n arbitrary: a)
  case (Suc n)
  have "keepsM I (case r of Stop b \<Rightarrow> retM b | Again a' \<Rightarrow> loopM n step a')" for r
    using Suc by (cases r) (auto intro: keepsM_ret)
  then show ?case using Suc.prems by (auto intro: keepsM_bind)
qed (simp add: keepsM_fail)

lemma keepsM_case_list: "keepsM I m \<Longrightarrow> (\<And>x xs. keepsM I (f x xs)) \<Longrightarrow> keepsM I (case v of [] \<Rightarrow> m | x # xs \<Rightarrow> f x xs)"
  by (cases v) auto

lemma keepsM_case_prod: "(\<And>x y. keepsM I (f x y)) \<Longrightarrow> keepsM I (case v of (x, y) \<Rightarrow> f x y)"
  by (cases v) auto

text \<open>Whatever the two calls of the provider and the loading of a configuration keep, the recovery keeps.\<close>

lemma recoverMigration_reads:
  assumes "\<And>sha. keepsM I (ma_load a sha)" "\<And>p r x. ma_permission a = Some p \<Longrightarrow> keepsM I (p r x)"
  shows "keepsM I (recoverMigration a ev)"
proof -
  have act: "keepsM I (may_act a r x)" for r x
    unfolding may_act_def using assms(2) by (auto split: option.split intro: keepsM_ret keepsM_bind)
  have acc: "keepsM I (acceptedRequest a ev r)" for ev r
    unfolding acceptedRequest_def by (intro keepsM_opt keepsM_fail keepsM_then keepsM_check keepsM_bind act keepsM_lift)
  have sel: "keepsM I (agreedSelection a r c)" for r c
    unfolding agreedSelection_def Let_def
    by (intro keepsM_bind keepsM_promiseAll keepsM_then keepsM_check keepsM_lift keepsM_ret) (use assms(1) in auto)
  have input: "keepsM I (keptHumanInput a ev r c target)" for ev r c target
    unfolding keptHumanInput_def
    by (intro keepsM_opt keepsM_case_prod keepsM_fail keepsM_then keepsM_check keepsM_bind act keepsM_ret)
  have link: "keepsM I (checkLink a ev ow ord ch)" for ev ow ord ch
    unfolding checkLink_def Let_def
    by (intro keepsM_then keepsM_bind keepsM_lift keepsM_case_prod acc sel input)
  have step: "keepsM I (chainStep a ev ow ord rows ch)" for ev ow ord rows ch
    unfolding chainStep_def Let_def by (intro keepsM_then keepsM_case_list keepsM_ret keepsM_fail link)
  show ?thesis unfolding recoverMigration_def receiptChain_def whileM_def
    by (intro keepsM_bind keepsM_if keepsM_then keepsM_case_list keepsM_case_prod keepsM_loop keepsM_lift keepsM_ret keepsM_check keepsM_fail step)
qed

lemma scopeMigrationEvidence_snapshot: "scopeMigrationEvidence ev n = Inr ev' \<Longrightarrow> rv_snapshot ev' = rv_snapshot ev"
  by (auto simp: scopeMigrationEvidence_def Let_def bindR_Inr_iff ok_def split: option.split_asm)

lemma recoverMigration_comments:
  assumes "recoverMigration a ev s = (Inr ev', s')"
  shows "sn_comments (rv_snapshot ev') = sn_comments (rv_snapshot ev)"
proof -
  obtain rows where rows: "receiptRows (ma_receipt a) ev = Inr rows"
    using assms by (auto simp: recoverMigration_def run_iff)
  show ?thesis
  proof (cases "rows = []")
    case True
    then show ?thesis using assms rows by (simp add: recoverMigration_def run_iff)
  next
    case False
    obtain number where n: "uniq (map (\<lambda>row. mc_number (mg_change (rr_receipt row))) rows) = [number]"
      using assms rows False by (auto simp: recoverMigration_def run_iff split: list.split_asm)
    obtain scoped owner ordinary row where "scopeMigrationEvidence ev number = Inr scoped"
      "migratedEvidence scoped owner ordinary row = Inr ev'"
      using assms rows False n by (auto simp: recoverMigration_def run_iff)
    then show ?thesis using scopeMigrationEvidence_snapshot [of ev number scoped]
      by (auto simp: migratedEvidence_def Let_def bindR_Inr_iff ok_def)
  qed
qed

section \<open>The chain ends\<close>

lemma chainScope_unseen: "chainScope ev owner ch = ok u \<Longrightarrow> row_id (ch_row ch) \<notin> set (ch_seen ch)"
  by (auto simp: chainScope_def Let_def)

lemma checkLink_scope:
  "checkLink a ev owner ordinary ch s = (Inr u, s') \<Longrightarrow> chainScope ev owner ch = Inr ()"
  by (auto simp: checkLink_def Let_def run_iff)

lemma chainStep_Again:
  assumes "chainStep a ev owner ordinary rows ch s = (Inr (Again ch'), s')"
  shows "(\<exists>s1. checkLink a ev owner ordinary ch s = (Inr (), s1)) \<and> chainScope ev owner ch = Inr ()
    \<and> filter (\<lambda>x. mg_predecessor (rr_receipt x) = Some (row_id (ch_row ch))) rows = [ch_row ch']
    \<and> ch_previous ch' = Some (row_id (ch_row ch)) \<and> ch_sourcePin ch' = mg_targetConfig (rr_receipt (ch_row ch))
    \<and> ch_seen ch' = ch_seen ch @ [row_id (ch_row ch)]"
proof -
  obtain s1 where "checkLink a ev owner ordinary ch s = (Inr (), s1)"
    using assms by (auto simp: chainStep_def Let_def run_iff)
  moreover have "filter (\<lambda>x. mg_predecessor (rr_receipt x) = Some (row_id (ch_row ch))) rows = [ch_row ch']
    \<and> ch_previous ch' = Some (row_id (ch_row ch)) \<and> ch_sourcePin ch' = mg_targetConfig (rr_receipt (ch_row ch))
    \<and> ch_seen ch' = ch_seen ch @ [row_id (ch_row ch)]"
    using assms by (auto simp: chainStep_def Let_def run_iff split: list.split_asm)
  ultimately show ?thesis by (auto dest: checkLink_scope)
qed

lemma chainStep_Stop:
  assumes "chainStep a ev owner ordinary rows ch s = (Inr (Stop x), s')"
  shows "(\<exists>s1. checkLink a ev owner ordinary ch s = (Inr (), s1)) \<and> chainScope ev owner ch = Inr ()
    \<and> x = (ch_row ch, ch_seen ch @ [row_id (ch_row ch)])"
proof -
  obtain s1 where "checkLink a ev owner ordinary ch s = (Inr (), s1)"
    using assms by (auto simp: chainStep_def Let_def run_iff)
  moreover have "x = (ch_row ch, ch_seen ch @ [row_id (ch_row ch)])"
    using assms by (auto simp: chainStep_def Let_def run_iff split: list.split_asm)
  ultimately show ?thesis by (auto dest: checkLink_scope)
qed

lemma single_filter: "filter P xs = [x] \<Longrightarrow> x \<in> set xs \<and> P x"
  using filter_set [of P xs] by auto

lemma chain_decreases: "decreases (chain_left rows) (chainStep a ev owner ordinary rows)"
  unfolding decreases_def
proof (intro allI impI)
  fix ch s ch' s' assume st: "chainStep a ev owner ordinary rows ch s = (Inr (Again ch'), s')"
  let ?ids = "set (map row_id rows)"
  note f = chainStep_Again [OF st]
  have "ch_row ch' \<in> set rows" using f single_filter by fast
  then have l: "chain_left rows ch' = card (?ids - insert (row_id (ch_row ch)) (set (ch_seen ch)))"
    using f by (simp add: chain_left_def Let_def)
  have n: "row_id (ch_row ch) \<notin> set (ch_seen ch)" using chainScope_unseen f unfolding ok_def by blast
  show "chain_left rows ch' < chain_left rows ch"
  proof (cases "row_id (ch_row ch) \<in> ?ids")
    case True
    then have "?ids - insert (row_id (ch_row ch)) (set (ch_seen ch)) \<subset> ?ids - set (ch_seen ch)" using n by blast
    then have "card (?ids - insert (row_id (ch_row ch)) (set (ch_seen ch))) < card (?ids - set (ch_seen ch))"
      by (simp add: psubset_card_mono)
    then show ?thesis using l True by (simp add: chain_left_def Let_def)
  next
    case False
    have "card (?ids - insert (row_id (ch_row ch)) (set (ch_seen ch))) \<le> card ?ids" by (simp add: card_mono)
    then show ?thesis using l False by (simp add: chain_left_def Let_def)
  qed
qed

section \<open>What a verified chain guarantees\<close>

fun linked :: "string option \<Rightarrow> string \<Rightarrow> ReceiptRow list \<Rightarrow> bool" where
  "linked prev pin [] = True"
| "linked prev pin (row # rows) \<longleftrightarrow> mg_predecessor (rr_receipt row) = prev \<and> mg_sourceConfig (rr_receipt row) = pin
     \<and> linked (Some (row_id row)) (mg_targetConfig (rr_receipt row)) rows"

definition chain_end :: "string option \<Rightarrow> string \<Rightarrow> ReceiptRow list \<Rightarrow> string option \<times> string" where
  "chain_end prev pin rows = (if rows = [] then (prev, pin)
     else (Some (row_id (last rows)), mg_targetConfig (rr_receipt (last rows))))"

lemma linked_snoc: "linked prev pin (rows @ [x]) \<longleftrightarrow> linked prev pin rows
    \<and> (mg_predecessor (rr_receipt x), mg_sourceConfig (rr_receipt x)) = chain_end prev pin rows"
proof (induction rows arbitrary: prev pin)
  case (Cons y ys)
  then show ?case by (cases ys) (auto simp: chain_end_def)
qed (auto simp: chain_end_def)

definition authorized_by :: "'s MigrationAccess \<Rightarrow> string \<Rightarrow> Actor \<Rightarrow> bool" where
  "authorized_by a repository actor \<longleftrightarrow> (\<forall>f. ma_permission a = Some f \<longrightarrow>
     (\<exists>p s0 s1. f repository actor s0 = (Inr p, s1) \<and> authorized_permission p))"

definition link_ok :: "'s MigrationAccess \<Rightarrow> RecoveryEvidence \<Rightarrow> Publication \<Rightarrow> Publication list \<Rightarrow> ReceiptRow \<Rightarrow> bool" where
  "link_ok a ev owner ordinary row \<longleftrightarrow>
    (let r = rr_receipt row; controller = pm_controller (pb_metadata owner) in
     rr_controller row = controller \<and> mg_ownerKey r = pb_key owner \<and> mg_ticket r = sn_ref (rv_snapshot ev)
     \<and> Some (mg_activationEventId r) = av_eventId (sn_activation (rv_snapshot ev))
     \<and> pc_updatedAt (rr_comment row) = pc_createdAt (rr_comment row)
     \<and> (\<exists>c q. comment_by_id ev (mg_requestId r) = Some c \<and> digest (ma_env a) (JStr (pc_body c)) = mg_requestBodyHash r
          \<and> pc_actor c = mg_requestActor r \<and> authorized_by a (tr_repository (mg_ticket r)) (pc_actor c)
          \<and> parseMigrationRequest (pc_body c) = ok (Some q) \<and> mq_pr q = mc_number (mg_change r))
     \<and> (\<forall>(key, stage, dg) \<in> set (mg_retained r). \<exists>p kind i body. p \<in> set ordinary \<and> pb_key p = key \<and> eligible p
          \<and> pm_controller (pb_metadata p) = controller \<and> publicationIdentity key = ok (kind, i)
          \<and> retainedBody ev kind i = Some body \<and> digest (ma_env a) (JStr body) = dg))"

lemma chainScope_ok:
  assumes "chainScope ev owner ch = Inr ()"
  shows "row_id (ch_row ch) \<notin> set (ch_seen ch) \<and> rr_controller (ch_row ch) = pm_controller (pb_metadata owner)
    \<and> mg_ownerKey (rr_receipt (ch_row ch)) = pb_key owner \<and> mg_ticket (rr_receipt (ch_row ch)) = sn_ref (rv_snapshot ev)
    \<and> Some (mg_activationEventId (rr_receipt (ch_row ch))) = av_eventId (sn_activation (rv_snapshot ev))
    \<and> pc_updatedAt (rr_comment (ch_row ch)) = pc_createdAt (rr_comment (ch_row ch))
    \<and> mg_sourceConfig (rr_receipt (ch_row ch)) = ch_sourcePin ch \<and> mg_predecessor (rr_receipt (ch_row ch)) = ch_previous ch"
  using assms [folded ok_def] by (auto simp: chainScope_def Let_def)

lemma may_act_ok: "may_act a repository actor s = (Inr True, s') \<Longrightarrow> authorized_by a repository actor"
  unfolding may_act_def authorized_by_def by (auto simp: run_iff split: option.split_asm)

lemma acceptedRequest_ok:
  assumes "acceptedRequest a ev r s = (Inr q, s')"
  shows "\<exists>c. comment_by_id ev (mg_requestId r) = Some c \<and> digest (ma_env a) (JStr (pc_body c)) = mg_requestBodyHash r
    \<and> pc_actor c = mg_requestActor r \<and> authorized_by a (tr_repository (mg_ticket r)) (pc_actor c)
    \<and> parseMigrationRequest (pc_body c) = ok (Some q) \<and> mq_pr q = mc_number (mg_change r)"
proof (cases "comment_by_id ev (mg_requestId r)")
  case (Some c)
  obtain s1 s2 where m: "may_act a (tr_repository (mg_ticket r)) (pc_actor c) s1 = (Inr True, s2)"
    and c: "digest (ma_env a) (JStr (pc_body c)) = mg_requestBodyHash r" "pc_actor c = mg_requestActor r"
    "commandOf r (pc_body c) = Inr q"
    using assms Some by (auto simp: acceptedRequest_def run_iff)
  have "parseMigrationRequest (pc_body c) = ok (Some q) \<and> mq_pr q = mc_number (mg_change r)"
    using c(3) [folded ok_def] by (auto simp: commandOf_def split: option.split_asm)
  then show ?thesis using Some m c may_act_ok by fastforce
qed (use assms in \<open>simp add: acceptedRequest_def run_iff\<close>)

lemma find_in: "List.find P xs = Some x \<Longrightarrow> x \<in> set xs \<and> P x"
  by (auto simp: find_Some_iff)

lemma keptResult_ok:
  assumes "keptResult a ev ordinary sel controller (key, stage, dg) = ok ()"
  shows "stage \<in> set (sel_retain sel) \<and> (\<exists>p kind i body. p \<in> set ordinary \<and> pb_key p = key \<and> eligible p
     \<and> pm_controller (pb_metadata p) = controller \<and> publicationIdentity key = ok (kind, i)
     \<and> retainedBody ev kind i = Some body \<and> digest (ma_env a) (JStr body) = dg)"
  using assms by (auto simp: keptResult_def opt_is_iff dest!: find_in split: option.split_asm)

lemma checkLink_ok:
  assumes "checkLink a ev owner ordinary ch s = (Inr (), s')"
  shows "link_ok a ev owner ordinary (ch_row ch)"
proof -
  let ?r = "rr_receipt (ch_row ch)"
  obtain q s1 s2 sel where c: "chainScope ev owner ch = Inr ()" "acceptedRequest a ev ?r s1 = (Inr q, s2)"
    "forR (keptResult a ev ordinary sel (rr_controller (ch_row ch))) (mg_retained ?r) = Inr ()"
    using assms by (auto simp: checkLink_def Let_def run_iff)
  note sc = chainScope_ok [OF c(1)]
  have "\<forall>(key, stage, dg) \<in> set (mg_retained ?r). \<exists>p kind i body. p \<in> set ordinary \<and> pb_key p = key \<and> eligible p
      \<and> pm_controller (pb_metadata p) = pm_controller (pb_metadata owner) \<and> publicationIdentity key = ok (kind, i)
      \<and> retainedBody ev kind i = Some body \<and> digest (ma_env a) (JStr body) = dg"
    using c(3) [folded ok_def] sc keptResult_ok [of a ev ordinary sel "rr_controller (ch_row ch)"]
    by (fastforce simp: forR_ok_iff)
  then show ?thesis using sc acceptedRequest_ok [OF c(2)] by (simp add: link_ok_def Let_def) blast
qed

text \<open>The rows visited before a step of the loop.\<close>

definition visited ::
  "'s MigrationAccess \<Rightarrow> RecoveryEvidence \<Rightarrow> Publication \<Rightarrow> Publication list \<Rightarrow> ReceiptRow list \<Rightarrow> ReceiptRow list \<Rightarrow> bool" where
  "visited a ev owner ordinary rows vs \<longleftrightarrow> linked None (pm_config (pb_metadata owner)) vs \<and> distinct (map row_id vs)
     \<and> set vs \<subseteq> set rows \<and> (\<forall>row \<in> set vs. link_ok a ev owner ordinary row)"

definition chain_state ::
  "'s MigrationAccess \<Rightarrow> RecoveryEvidence \<Rightarrow> Publication \<Rightarrow> Publication list \<Rightarrow> ReceiptRow list \<Rightarrow> ReceiptChain \<Rightarrow> bool" where
  "chain_state a ev owner ordinary rows ch \<longleftrightarrow> ch_row ch \<in> set rows \<and> (\<exists>vs. visited a ev owner ordinary rows vs
     \<and> ch_seen ch = map row_id vs \<and> (ch_previous ch, ch_sourcePin ch) = chain_end None (pm_config (pb_metadata owner)) vs)"

lemma visited_step:
  assumes "chain_state a ev owner ordinary rows ch" "checkLink a ev owner ordinary ch s = (Inr (), s')"
  shows "\<exists>vs. visited a ev owner ordinary rows (vs @ [ch_row ch]) \<and> ch_seen ch @ [row_id (ch_row ch)] = map row_id (vs @ [ch_row ch])"
proof -
  obtain vs where d: "visited a ev owner ordinary rows vs" "ch_seen ch = map row_id vs" "ch_row ch \<in> set rows"
    "(ch_previous ch, ch_sourcePin ch) = chain_end None (pm_config (pb_metadata owner)) vs"
    using assms(1) unfolding chain_state_def by blast
  note sc = chainScope_ok [OF checkLink_scope [OF assms(2)]]
  have "visited a ev owner ordinary rows (vs @ [ch_row ch])"
    using d sc checkLink_ok [OF assms(2)] by (auto simp: visited_def linked_snoc)
  then show ?thesis using d(2) by auto
qed

lemma receiptChain_visited:
  assumes "receiptChain a ev owner ordinary rows first s = (Inr (row, seen), s')" "first \<in> set rows"
  shows "\<exists>vs. visited a ev owner ordinary rows (vs @ [row]) \<and> seen = map row_id (vs @ [row])"
proof -
  let ?P = "chain_state a ev owner ordinary rows"
  let ?Q = "\<lambda>x. \<exists>vs. visited a ev owner ordinary rows (vs @ [fst x]) \<and> snd x = map row_id (vs @ [fst x])"
  let ?c0 = "\<lparr> ch_row = first, ch_previous = None, ch_sourcePin = pm_config (pb_metadata owner), ch_seen = [], ch_workspace = None \<rparr>"
  have "loopM (Suc (chain_left rows ?c0)) (chainStep a ev owner ordinary rows) ?c0 s = (Inr (row, seen), s')"
    using assms(1) by (simp add: receiptChain_def whileM_def)
  then have "?Q (row, seen)"
  proof (rule loopM_invariant [where P = ?P])
    show "?P ?c0" using assms(2) by (auto simp: chain_state_def visited_def chain_end_def intro: exI [of _ "[]"])
  next
    fix ch s ch' s' assume a: "?P ch" "chainStep a ev owner ordinary rows ch s = (Inr (Again ch'), s')"
    note f = chainStep_Again [OF a(2)]
    then obtain vs where d: "visited a ev owner ordinary rows (vs @ [ch_row ch])"
      "ch_seen ch @ [row_id (ch_row ch)] = map row_id (vs @ [ch_row ch])" using visited_step [OF a(1)] by blast
    have "ch_row ch' \<in> set rows" using f single_filter by fast
    then show "?P ch'" using d f unfolding chain_state_def
      by (intro conjI exI [of _ "vs @ [ch_row ch]"]) (simp_all add: chain_end_def)
  next
    fix ch s x s' assume a: "?P ch" "chainStep a ev owner ordinary rows ch s = (Inr (Stop x), s')"
    then show "?Q x" using chainStep_Stop [OF a(2)] visited_step [OF a(1)] by fastforce
  qed
  then show ?thesis by simp
qed

lemma filterR_ok: "filterR P xs = ok ys \<Longrightarrow> set ys = {x \<in> set xs. P x = ok True} \<and> (\<forall>x \<in> set xs. \<exists>b. P x = ok b)"
  by (induction xs arbitrary: ys) (auto split: if_split_asm)

lemma recoverMigration_steps:
  assumes "recoverMigration a ev s = (Inr ev', s')"
  shows "\<exists>rows. receiptRows (ma_receipt a) ev = ok rows \<and> (rows = [] \<and> ev' = ev \<or> rv_complete ev
    \<and> (\<exists>number scoped owner ordinary first last seen s1 s2. scopeMigrationEvidence ev number = ok scoped
       \<and> (\<forall>row \<in> set rows. mc_number (mg_change (rr_receipt row)) = number)
       \<and> chainRoot scoped rows number = ok (owner, ordinary, first)
       \<and> receiptChain a scoped owner ordinary rows first s1 = (Inr (last, seen), s2) \<and> length seen = length rows
       \<and> migratedEvidence scoped owner ordinary last = ok ev'))"
proof -
  obtain rows where r: "receiptRows (ma_receipt a) ev = ok rows" using assms by (auto simp: recoverMigration_def run_iff ok_def)
  show ?thesis
  proof (cases "rows = []")
    case True
    then show ?thesis using assms r by (auto simp: recoverMigration_def run_iff ok_def)
  next
    case False
    obtain number where n: "uniq (map (\<lambda>row. mc_number (mg_change (rr_receipt row))) rows) = [number]"
      using assms r False by (auto simp: recoverMigration_def run_iff ok_def split: list.split_asm)
    then have "set (map (\<lambda>row. mc_number (mg_change (rr_receipt row))) rows) = {number}"
      by (metis set_uniq list.set(1) list.simps(15))
    then have u: "\<forall>row \<in> set rows. mc_number (mg_change (rr_receipt row)) = number" by auto
    obtain scoped owner ordinary first last seen s1 s2 where
      "scopeMigrationEvidence ev number = ok scoped" "chainRoot scoped rows number = ok (owner, ordinary, first)"
      "receiptChain a scoped owner ordinary rows first s1 = (Inr (last, seen), s2)" "length seen = length rows"
      "migratedEvidence scoped owner ordinary last = ok ev'" "rv_complete ev"
      using assms r False n by (auto simp: recoverMigration_def run_iff ok_def)
    then show ?thesis using u r by blast
  qed
qed

lemma chainRoot_ok:
  "chainRoot ev rows number = ok (owner, ordinary, first) \<Longrightarrow>
    electOwner ordinary = ok (Some owner) \<and> first \<in> set rows \<and> set ordinary \<subseteq> set (rv_publications ev)"
proof -
  assume a: "chainRoot ev rows number = ok (owner, ordinary, first)"
  let ?f = "filter (\<lambda>x. mg_predecessor (rr_receipt x) = None) rows"
  obtain o' el where e: "ordinaryPublications (map row_id rows) number (rv_publications ev) = ok o'" "electOwner o' = ok el"
    and k: "(case el of None \<Rightarrow> fail ''Migration original ownership anchor is unavailable''
     | Some owner \<Rightarrow> (case ?f of [first] \<Rightarrow> ok (owner, o', first)
         | _ \<Rightarrow> fail ''Migration receipt chain has missing or conflicting root'')) = ok (owner, ordinary, first)"
    using a unfolding chainRoot_def bindR_ok_iff by blast
  have el: "el = Some owner" "o' = ordinary" using k by (auto split: option.split_asm list.split_asm)
  have f: "?f = [first]" using k by (auto split: option.split_asm list.split_asm)
  show ?thesis using single_filter [OF f] filterR_ok [OF e(1) [unfolded ordinaryPublications_def]] e(2) el by auto
qed

lemma migratedEvidence_migration:
  "migratedEvidence ev owner ordinary row = ok ev' \<Longrightarrow>
    rv_migration ev' = Some \<lparr> rm_id = row_id row, rm_receipt = rr_receipt row, rm_owner = owner, rm_comment = rr_comment row \<rparr>"
  by (auto simp: migratedEvidence_def Let_def)

lemma set_of_visited:
  assumes "visited a ev owner ordinary rows vs" "length vs = length rows"
  shows "set vs = set rows"
proof -
  have "distinct vs" "set vs \<subseteq> set rows" using assms(1) by (auto simp: visited_def distinct_map)
  then show ?thesis using assms(2) card_length [of rows] distinct_card
    by (metis card_seteq finite_set)
qed

lemma carriedSelection_ok:
  assumes "carriedSelection ev r = ok c"
  shows "c \<in> set (rv_changes ev) \<and> assertCarriedChange c r = ok () \<and> (\<forall>x \<in> set (rv_changes ev). nc_state x = CsOpen \<longrightarrow> nc_number x = nc_number c)"
proof (cases "List.find (\<lambda>c. nc_number c = mc_number (mg_change r)) (rv_changes ev)")
  case (Some x)
  then have "x = c \<and> assertCarriedChange x r = ok () \<and> \<not> list_ex (\<lambda>y. nc_number y \<noteq> nc_number x \<and> nc_state y = CsOpen) (rv_changes ev)"
    using assms by (auto simp: carriedSelection_def)
  then show ?thesis using find_in [OF Some] by (auto simp: list_ex_iff)
qed (use assms in \<open>simp add: carriedSelection_def\<close>)

lemma assertCarriedChange_ok:
  assumes "assertCarriedChange c r = ok ()"
  shows "nc_number c = mc_number (mg_change r) \<and> nc_url c = mc_url (mg_change r) \<and> nc_headBranch c = Some (mc_headBranch (mg_change r))
    \<and> current_marker (nc_body c) \<noteq> None \<and> current_marker (nc_body c) = current_marker (mc_marker (mg_change r))"
  using assms by (auto simp: assertCarriedChange_def Let_def) metis

lemma activePublications_ok:
  assumes "activePublications r owner c pubs = ok active" "p \<in> set active"
  shows "p \<in> set pubs \<and> (pm_controller (pb_metadata p) = pm_controller (pb_metadata owner) \<longrightarrow> is_retained r p
    \<or> (\<exists>kind i. publicationIdentity (pb_key p) = ok (kind, i) \<and> eligibleAfterMigration r kind i))"
  using assms by (auto simp: activePublications_def dest!: filterR_ok)

section \<open>Properties\<close>

text \<open>
  following the receipts always ends: the loop satisfies its own recursion equation, so its bound, the
  number of receipts, is never reached.
\<close>

theorem receiptChain_ends:
  "whileM (chain_left rows) (chainStep a ev owner ordinary rows) ch =
    bindM (chainStep a ev owner ordinary rows ch) (\<lambda>r. case r of Stop x \<Rightarrow> retM x
      | Again ch' \<Rightarrow> whileM (chain_left rows) (chainStep a ev owner ordinary rows) ch')"
  by (rule whileM_unfold [OF chain_decreases])

text \<open>
  C17: a migration recovered from a ticket is the last of a single chain that contains every receipt of the
  activation: the first one starts at the configuration of the elected owner, each later one at the
  target of the one before; every receipt was written under the owner's controller, is unedited, accepts an
  unedited command of an authorized human for the same change request, and retains only unedited results.
\<close>

theorem migration_chain_sound:
  assumes "recoverMigration a ev s = (Inr ev', s')" "rv_migration ev = None" "rv_migration ev' = Some m"
  shows "\<exists>rows scoped ordinary vs row. receiptRows (ma_receipt a) ev = ok rows \<and> rv_complete ev
    \<and> scopeMigrationEvidence ev (mc_number (mg_change (rm_receipt m))) = ok scoped
    \<and> electOwner ordinary = ok (Some (rm_owner m)) \<and> set ordinary \<subseteq> set (rv_publications scoped)
    \<and> set (vs @ [row]) = set rows \<and> rm_receipt m = rr_receipt row \<and> rm_comment m = rr_comment row
    \<and> linked None (pm_config (pb_metadata (rm_owner m))) (vs @ [row])
    \<and> (\<forall>x \<in> set rows. link_ok a scoped (rm_owner m) ordinary x \<and> mc_number (mg_change (rr_receipt x)) = mc_number (mg_change (rm_receipt m)))"
proof -
  obtain rows where steps: "receiptRows (ma_receipt a) ev = ok rows" "rows = [] \<and> ev' = ev \<or> rv_complete ev
    \<and> (\<exists>number scoped owner ordinary first last seen s1 s2. scopeMigrationEvidence ev number = ok scoped
       \<and> (\<forall>row \<in> set rows. mc_number (mg_change (rr_receipt row)) = number)
       \<and> chainRoot scoped rows number = ok (owner, ordinary, first)
       \<and> receiptChain a scoped owner ordinary rows first s1 = (Inr (last, seen), s2) \<and> length seen = length rows
       \<and> migratedEvidence scoped owner ordinary last = ok ev')"
    using recoverMigration_steps [OF assms(1)] by blast
  have "ev' \<noteq> ev" using assms(2,3) by auto
  then obtain number scoped owner ordinary first row seen s1 s2 where c:
    "scopeMigrationEvidence ev number = ok scoped" "\<forall>row \<in> set rows. mc_number (mg_change (rr_receipt row)) = number"
    "chainRoot scoped rows number = ok (owner, ordinary, first)"
    "receiptChain a scoped owner ordinary rows first s1 = (Inr (row, seen), s2)" "length seen = length rows"
    "migratedEvidence scoped owner ordinary row = ok ev'" "rv_complete ev"
    using steps(2) by blast
  note root = chainRoot_ok [OF c(3)]
  obtain vs where v: "visited a scoped owner ordinary rows (vs @ [row])" "seen = map row_id (vs @ [row])"
    using receiptChain_visited [OF c(4)] root by blast
  have "length (vs @ [row]) = length rows" using v(2) c(5) by simp
  note all = set_of_visited [OF v(1) this]
  have m: "rm_receipt m = rr_receipt row" "rm_comment m = rr_comment row" "rm_owner m = owner"
    using migratedEvidence_migration [OF c(6)] assms(3) by auto
  have "row \<in> set rows" using all by auto
  then have "mc_number (mg_change (rm_receipt m)) = number" using m c(2) by simp
  then have n: "scopeMigrationEvidence ev (mc_number (mg_change (rm_receipt m))) = ok scoped"
    "\<forall>x \<in> set rows. mc_number (mg_change (rr_receipt x)) = mc_number (mg_change (rm_receipt m))" using c(1,2) by simp_all
  have l: "linked None (pm_config (pb_metadata (rm_owner m))) (vs @ [row])"
    using v(1) m(3) unfolding visited_def by simp
  have "\<forall>x \<in> set (vs @ [row]). link_ok a scoped (rm_owner m) ordinary x"
    using v(1) m(3) unfolding visited_def by blast
  then have x: "\<forall>x \<in> set rows. link_ok a scoped (rm_owner m) ordinary x
      \<and> mc_number (mg_change (rr_receipt x)) = mc_number (mg_change (rm_receipt m))" using n(2) unfolding all by blast
  have o: "electOwner ordinary = ok (Some (rm_owner m))" "set ordinary \<subseteq> set (rv_publications scoped)"
    using root m(3) by simp_all
  show ?thesis
    by (rule exI [of _ rows], rule exI [of _ scoped], rule exI [of _ ordinary], rule exI [of _ vs], rule exI [of _ row])
       (intro conjI steps(1) c(7) n(1) o all m(1,2) l x)
qed

text \<open>
  the evidence of a migrated ticket shows only the carried change request, unchanged in identity and
  marker and without an open competitor; what is left of the owner's publications is retained by the receipt or newer than it,
  and carries the target configuration; what is left of the reviews is newer than the receipt or retained.
\<close>

theorem migrated_evidence_scoped:
  assumes "recoverMigration a ev s = (Inr ev', s')" "rv_migration ev = None" "rv_migration ev' = Some m"
  shows "\<exists>c. rv_changes ev' = [c] \<and> sn_changeRequest (rv_snapshot ev') = Some c
    \<and> nc_number c = mc_number (mg_change (rm_receipt m)) \<and> nc_url c = mc_url (mg_change (rm_receipt m))
    \<and> nc_headBranch c = Some (mc_headBranch (mg_change (rm_receipt m)))
    \<and> current_marker (nc_body c) \<noteq> None \<and> current_marker (nc_body c) = current_marker (mc_marker (mg_change (rm_receipt m)))
    \<and> (\<forall>p \<in> set (rv_publications ev'). pm_controller (pb_metadata p) = pm_controller (pb_metadata (rm_owner m)) \<longrightarrow>
         pm_config (pb_metadata p) = mg_targetConfig (rm_receipt m)
         \<and> (is_retained (rm_receipt m) p \<or> (\<exists>kind i. publicationIdentity (pb_key p) = ok (kind, i) \<and> eligibleAfterMigration (rm_receipt m) kind i)))
    \<and> (\<forall>v \<in> set (rv_reviews ev'). current_review (rm_receipt m) v = ok True)"
proof -
  obtain scoped owner ordinary row where me: "migratedEvidence scoped owner ordinary row = ok ev'"
    using recoverMigration_steps [OF assms(1)] assms(2,3) by auto
  obtain c active reviews where c: "carriedSelection scoped (rr_receipt row) = ok c"
    "activePublications (rr_receipt row) owner c ordinary = ok active"
    "\<not> list_ex (\<lambda>p. pm_controller (pb_metadata p) = pm_controller (pb_metadata owner)
         \<and> pm_config (pb_metadata p) \<noteq> mg_targetConfig (rr_receipt row) \<and> \<not> is_retained (rr_receipt row) p) active"
    "filterR (current_review (rr_receipt row)) (rv_reviews scoped) = ok reviews"
    and e: "rv_changes ev' = [c]" "sn_changeRequest (rv_snapshot ev') = Some c" "rv_reviews ev' = reviews"
    "rv_publications ev' = map (\<lambda>p. if is_retained (rr_receipt row) p
       then p \<lparr> pb_metadata := (pb_metadata p) \<lparr> pm_config := mg_targetConfig (rr_receipt row) \<rparr> \<rparr> else p) active"
    using me by (auto simp: migratedEvidence_def Let_def)
  have m: "rm_receipt m = rr_receipt row" "rm_owner m = owner" using migratedEvidence_migration [OF me] assms(3) by auto
  have "pm_config (pb_metadata p) = mg_targetConfig (rr_receipt row)
         \<and> (is_retained (rr_receipt row) p \<or> (\<exists>kind i. publicationIdentity (pb_key p) = ok (kind, i) \<and> eligibleAfterMigration (rr_receipt row) kind i))"
    if p: "p \<in> set (rv_publications ev')" "pm_controller (pb_metadata p) = pm_controller (pb_metadata owner)" for p
  proof -
    obtain q where q: "q \<in> set active" "p = (if is_retained (rr_receipt row) q
       then q \<lparr> pb_metadata := (pb_metadata q) \<lparr> pm_config := mg_targetConfig (rr_receipt row) \<rparr> \<rparr> else q)"
      using p(1) e(4) by auto
    have "pm_controller (pb_metadata q) = pm_controller (pb_metadata owner)" "pb_key p = pb_key q"
      using p(2) q(2) by (auto split: if_split_asm)
    then show ?thesis using activePublications_ok [OF c(2) q(1)] c(3) q by (auto simp: list_ex_iff is_retained_def)
  qed
  then show ?thesis using e(1-3) m assertCarriedChange_ok carriedSelection_ok [OF c(1)] filterR_ok [OF c(4)] by auto
qed

section \<open>A migrated ticket\<close>

definition sample_marker :: string where
  "sample_marker = ''<!-- agent-flow:v1 {'' @ print_str ''config'' @ '':'' @ print_str sample_sha @ '','' @ print_str ''controller''
     @ '':'' @ print_str sample_uuid @ ''} -->''"

definition target_sha :: string where
  "target_sha = ''1123456789abcdef0123456789abcdef01234567''"

definition target_marker :: string where
  "target_marker = ''<!-- agent-flow:v1 {'' @ print_str ''config'' @ '':'' @ print_str target_sha @ '','' @ print_str ''controller''
     @ '':'' @ print_str sample_uuid @ ''} -->''"

definition sample_key :: "string \<Rightarrow> string \<Rightarrow> string" where
  "sample_key kind i = json_print (JArr [JStr ''github'', JStr ''s'', JStr ''acme/app'', JStr kind, JStr i])"

definition pinned_bundle :: "string \<Rightarrow> ConfigBundle" where
  "pinned_bundle sha = sample_bundle \<lparr> cb_revision := sha \<rparr>"

definition migrate_command :: string where
  "migrate_command = ''/agent-flow migrate --pr 34 --to latest''"

definition receipt_comment :: "string \<Rightarrow> string \<Rightarrow> ProviderComment" where
  "receipt_comment i body = \<lparr> pc_id = i, pc_url = ''u'', pc_body = body, pc_actor = sample_actor,
     pc_createdAt = ''2026-01-01T00:00:00Z'', pc_updatedAt = ''2026-01-01T00:00:00Z'' \<rparr>"

definition migration_receipt :: MigrationReceipt where
  "migration_receipt = \<lparr> mg_ticket = sample_ref, mg_workspace = ''w'', mg_activationEventId = ''e1'',
     mg_activationLabel = ''agent-flow:development'', mg_activationActor = sample_actor,
     mg_activationOccurredAt = ''2026-01-01T00:00:00Z'', mg_ownerKey = sample_key ''change-request'' ''34'',
     mg_ownerConfig = sample_sha, mg_ownerCreatedAt = ''2026-01-01T00:00:00Z'', mg_requestId = ''c1'',
     mg_requestActor = sample_actor, mg_requestBodyHash = digest sample_migration_env (JStr migrate_command),
     mg_requestCreatedAt = ''2026-01-01T00:00:00Z'', mg_requestUpdatedAt = ''2026-01-01T00:00:00Z'',
     mg_sourceConfig = sample_sha, mg_sourceStage = ''done'', mg_sourceResume = None, mg_sourceHumanInput = None,
     mg_targetConfig = target_sha, mg_targetFlow = ''demo'', mg_targetLabel = ''agent-flow:development'',
     mg_targetBasis = sel_basis sample_selection,
     mg_change = \<lparr> mc_provider = Github, mc_repository = ''acme/app'', mc_number = 34, mc_url = ''u34'',
       mc_headRepository = ''acme/app'', mc_headBranch = ''work'', mc_headSha = ''abc'', mc_marker = sample_marker \<rparr>,
     mg_start = ''done'', mg_retained = [(sample_key ''comment'' ''r1'', ''develop'', digest sample_migration_env (JStr ''result''))],
     mg_baselineComments = [''r1'', ''c1''], mg_baselineReviews = [], mg_predecessor = None \<rparr>"

definition migration_access :: "unit MigrationAccess" where
  "migration_access = \<lparr> ma_env = sample_migration_env,
     ma_receipt = (\<lambda>v. if v = JObj [(''kind'', JStr ''MigrationReceipt'')] then Some migration_receipt else None),
     ma_load = (\<lambda>sha. retM (pinned_bundle sha)), ma_permission = Some (\<lambda>repository actor. retM PWrite) \<rparr>"

definition migrated_ticket :: RecoveryEvidence where
  "migrated_ticket = sample_evidence \<lparr>
     rv_snapshot := sample_snapshot \<lparr> sn_comments := [receipt_comment ''r1'' ''result'', receipt_comment ''c1'' migrate_command,
       receipt_comment ''c2'' (target_marker @ [CHR 0x0A] @ ''<!-- agent-flow-migration:v1 {'' @ print_str ''kind'' @ '':''
         @ print_str ''MigrationReceipt'' @ ''} -->'')] \<rparr>,
     rv_publications := [sample_publication (sample_key ''change-request'' ''34'') ''2026-01-01T00:00:00Z'' sample_uuid,
       sample_publication (sample_key ''comment'' ''r1'') ''2026-01-01T00:00:01Z'' sample_uuid,
       (sample_publication (sample_key ''comment'' ''c2'') ''2026-01-01T00:00:02Z'' sample_uuid) \<lparr>
          pb_metadata := \<lparr> pm_config = target_sha, pm_controller = sample_uuid \<rparr> \<rparr>],
     rv_changes := [sample_change \<lparr> nc_body := sample_marker \<rparr>] \<rparr>"

definition recovered_migration :: RecoveredMigration where
  "recovered_migration = \<lparr> rm_id = ''c2'', rm_receipt = migration_receipt,
     rm_owner = sample_publication (sample_key ''change-request'' ''34'') ''2026-01-01T00:00:00Z'' sample_uuid,
     rm_comment = sn_comments (rv_snapshot migrated_ticket) ! 2 \<rparr>"

definition migration_row :: ReceiptRow where
  "migration_row = \<lparr> rr_comment = sn_comments (rv_snapshot migrated_ticket) ! 2, rr_receipt = migration_receipt,
     rr_controller = sample_uuid \<rparr>"

definition migration_owner :: Publication where
  "migration_owner = sample_publication (sample_key ''change-request'' ''34'') ''2026-01-01T00:00:00Z'' sample_uuid"

definition migration_ordinary :: "Publication list" where
  "migration_ordinary = take 2 (rv_publications migrated_ticket)"

definition migration_chain :: ReceiptChain where
  "migration_chain = \<lparr> ch_row = migration_row, ch_previous = None, ch_sourcePin = pm_config (pb_metadata migration_owner),
     ch_seen = [], ch_workspace = None \<rparr>"

lemma migrated_rows: "receiptRows (ma_receipt migration_access) migrated_ticket = ok [migration_row]"
  by code_simp

lemma migrated_scope: "scopeMigrationEvidence migrated_ticket 34 = ok migrated_ticket"
  by code_simp

lemma migrated_root: "chainRoot migrated_ticket [migration_row] 34 = ok (migration_owner, migration_ordinary, migration_row)"
  by code_simp

lemma migrated_link_scope: "chainScope migrated_ticket migration_owner migration_chain = ok ()"
  by code_simp

lemma migrated_request: "acceptedRequest migration_access migrated_ticket migration_receipt ()
    = (ok \<lparr> mq_pr = 34, mq_to = ''latest'', mq_resume = None \<rparr>, ())"
  by code_simp

lemma migrated_selection: "agreedSelection migration_access migration_receipt \<lparr> mq_pr = 34, mq_to = ''latest'', mq_resume = None \<rparr> ()
    = (ok (pinned_bundle target_sha, sample_selection), ())"
  by code_simp

lemma migrated_retained: "forR (keptResult migration_access migrated_ticket migration_ordinary sample_selection sample_uuid)
    (mg_retained migration_receipt) = ok ()"
  by code_simp

lemma migrated_evidence: "\<exists>ev'. migratedEvidence migrated_ticket migration_owner migration_ordinary migration_row = ok ev'
    \<and> rv_migration ev' = Some recovered_migration \<and> length (rv_publications ev') = 1"
proof -
  have "(case migratedEvidence migrated_ticket migration_owner migration_ordinary migration_row of
      Inr ev' \<Rightarrow> rv_migration ev' = Some recovered_migration \<and> length (rv_publications ev') = 1 | Inl e \<Rightarrow> False)"
    by code_simp
  then show ?thesis by (auto simp: ok_def split: sum.splits)
qed

lemma migrated_link: "checkLink migration_access migrated_ticket migration_owner migration_ordinary migration_chain () = (ok (), ())"
proof -
  have r: "ch_row migration_chain = migration_row" "rr_receipt migration_row = migration_receipt"
    "rr_controller migration_row = sample_uuid" "mg_sourceHumanInput migration_receipt = None"
    by (simp_all add: migration_chain_def migration_row_def migration_receipt_def)
  show ?thesis using migrated_link_scope migrated_request migrated_selection migrated_retained
    by (simp add: checkLink_def r Let_def keptHumanInput_def thenM_def bindM_def liftR_def retM_def ok_def)
qed

lemma migrated_chain: "receiptChain migration_access migrated_ticket migration_owner migration_ordinary [migration_row] migration_row ()
    = (ok (migration_row, [''c2'']), ())"
proof -
  have r: "ch_row migration_chain = migration_row" "ch_seen migration_chain = []" "row_id migration_row = ''c2''"
    "mg_predecessor (rr_receipt migration_row) = None"
    by (simp_all add: migration_chain_def migration_row_def migration_receipt_def row_id_def migrated_ticket_def receipt_comment_def)
  have "chainStep migration_access migrated_ticket migration_owner migration_ordinary [migration_row] migration_chain ()
      = (ok (Stop (migration_row, [''c2''])), ())"
    using migrated_link by (simp add: chainStep_def r Let_def thenM_def bindM_def retM_def ok_def)
  then show ?thesis
    by (simp add: receiptChain_def whileM_def migration_chain_def [symmetric] bindM_def retM_def ok_def)
qed

lemma migrated_ticket_recovers:
  "\<exists>ev'. recoverMigration migration_access migrated_ticket () = (Inr ev', ()) \<and> rv_migration ev' = Some recovered_migration
    \<and> length (rv_publications ev') = 1"
proof -
  have n: "mc_number (mg_change (rr_receipt migration_row)) = 34" "rv_complete migrated_ticket"
    by (simp_all add: migration_row_def migration_receipt_def migrated_ticket_def sample_evidence_def)
  show ?thesis using migrated_evidence
    by (auto simp: recoverMigration_def migrated_rows migrated_scope migrated_root migrated_chain n thenM_def bindM_def liftR_def
        retM_def checkM_def ok_def)
qed

lemma migrated_ticket_plain: "rv_migration migrated_ticket = None"
  by (simp add: migrated_ticket_def sample_evidence_def)

theorem migration_chain_sound_witness:
  "\<exists>ev' rows. recoverMigration migration_access migrated_ticket () = (Inr ev', ()) \<and> rv_migration ev' = Some recovered_migration
    \<and> receiptRows (ma_receipt migration_access) migrated_ticket = ok rows \<and> rows \<noteq> []"
proof -
  obtain ev' where e: "recoverMigration migration_access migrated_ticket () = (Inr ev', ())" "rv_migration ev' = Some recovered_migration"
    using migrated_ticket_recovers by blast
  from migration_chain_sound [OF e(1) migrated_ticket_plain e(2)]
  obtain rows where "receiptRows (ma_receipt migration_access) migrated_ticket = ok rows" "rows \<noteq> []" by fastforce
  then show ?thesis using e by blast
qed

theorem migrated_evidence_scoped_witness:
  "\<exists>ev' c. recoverMigration migration_access migrated_ticket () = (Inr ev', ()) \<and> rv_changes ev' = [c] \<and> nc_number c = 34"
proof -
  obtain ev' where e: "recoverMigration migration_access migrated_ticket () = (Inr ev', ())" "rv_migration ev' = Some recovered_migration"
    using migrated_ticket_recovers by blast
  from migrated_evidence_scoped [OF e(1) migrated_ticket_plain e(2)]
  obtain c where "rv_changes ev' = [c]" "nc_number c = mc_number (mg_change (rm_receipt recovered_migration))" by blast
  then show ?thesis using e(1) by (simp add: recovered_migration_def migration_receipt_def)
qed

end
