(* ===== verification/MigrationProcess.thy ===== *)
theory MigrationProcess
  imports MigrationRecovery
begin

text \<open>
  src/runtime/migration.ts: what the controller does with the migration commands on a ticket. A command
  is checked against the evidence of the source, turned into a receipt, and the receipt is published only
  after the old agent has stopped and the evidence, read once more, has not changed. The receipts that are not yet
  published are kept in memory, by ticket and request.
\<close>

section \<open>Dependencies\<close>

record Proposal =
  pp_receipt :: MigrationReceipt
  pp_body :: string

type_synonym pending = "TicketRef \<times> string \<Rightarrow> Proposal option"

record 's MigrationDeps =
  md_deps :: "'s Deps"
  md_env :: MigrationEnv
  md_receipt :: "json \<Rightarrow> MigrationReceipt option"
  md_kind :: ProviderKind
  md_resolveTarget :: "(string \<Rightarrow> ('s, string) io) option"
  md_validateTarget :: "(ConfigBundle \<Rightarrow> ('s, unit) io) option"
  md_fs :: "'s \<Rightarrow> Fs"
  md_createComment :: "TicketRef \<Rightarrow> string \<Rightarrow> ('s, ProviderComment) io"
  md_readRecoveryEvidence :: "TicketRef \<Rightarrow> string option \<Rightarrow> ('s, RecoveryEvidence) io"
  md_message :: "err \<Rightarrow> string"

definition migration_access_of :: "'s MigrationDeps \<Rightarrow> 's MigrationAccess" where
  "migration_access_of md = \<lparr> ma_env = md_env md, ma_receipt = md_receipt md,
     ma_load = dp_loadPinned (md_deps md), ma_permission = Some (dp_permission (md_deps md)) \<rparr>"

definition error_message :: "'s MigrationDeps \<Rightarrow> err \<Rightarrow> string" where
  "error_message md e = (case e of Err m \<Rightarrow> m | AttemptError c m r \<Rightarrow> m | _ \<Rightarrow> md_message md e)"

definition text_digest :: "'s MigrationDeps \<Rightarrow> string \<Rightarrow> string" where
  "text_digest md s = digest (md_env md) (JStr s)"

definition permitted :: "'s MigrationDeps \<Rightarrow> RecoveryEvidence \<Rightarrow> Actor \<Rightarrow> ('s, bool) io" where
  "permitted md ev actor = bindM (dp_permission (md_deps md) (tr_repository (ev_ref ev)) actor)
     (\<lambda>p. retM (authorized_permission p))"

text \<open>The result of an operation as a value, whether it returned or threw.\<close>

definition attemptM :: "('s, 'a) io \<Rightarrow> ('s, 'a res) io" where
  "attemptM m s = (case m s of (r, s') \<Rightarrow> (ok r, s'))"

definition semanticMessage :: "SemanticError list \<Rightarrow> string" where
  "semanticMessage errors = ''Configuration semantics are invalid:'' @ [CHR 0x0A]
     @ join_with [CHR 0x0A] (map (\<lambda>e. se_path e @ '': '' @ se_message e) errors)"

section \<open>Which commands are open\<close>

definition after_activation :: "RecoveryEvidence \<Rightarrow> ProviderComment \<Rightarrow> bool" where
  "after_activation ev c = (case truthy (av_occurredAt (sn_activation (rv_snapshot ev))) of None \<Rightarrow> True
     | Some t \<Rightarrow> (case (date_parse (pc_createdAt c), date_parse t) of (Some x, Some y) \<Rightarrow> x > y | _ \<Rightarrow> False))"

definition openRequests :: "'s MigrationDeps \<Rightarrow> RecoveryEvidence \<Rightarrow> ProviderComment list res" where
  "openRequests md ev =
    bindR (receiptRows (md_receipt md) ev) (\<lambda>rows.
      ok (sort_key (\<lambda>c. (dp_collate (md_deps md) (pc_createdAt c), dp_collate (md_deps md) (pc_id c)))
        (filter (\<lambda>c. isMigrationCommand (pc_body c) \<and> pc_id c \<notin> set (map (\<lambda>row. mg_requestId (rr_receipt row)) rows)
           \<and> after_activation ev c) (sn_comments (rv_snapshot ev)))))"

definition diagnosticOf :: "'s MigrationDeps \<Rightarrow> ProviderComment \<Rightarrow> string" where
  "diagnosticOf md request = ''<!-- agent-flow-migration-diagnostic:v1 '' @ pc_id request @ '' '' @ text_digest md (pc_body request) @ '' -->''"

section \<open>The source of a migration\<close>

record SourceContext =
  sc_owner :: Publication
  sc_sourcePin :: string
  sc_cached :: "ControlState option"
  sc_source :: ConfigBundle
  sc_eventId :: string
  sc_label :: string
  sc_actor :: Actor
  sc_occurredAt :: string
  sc_selected :: NormalizedChangeRequest
  sc_headRepository :: string
  sc_headBranch :: string
  sc_marker :: PublicationMetadata
  sc_stage :: string
  sc_resume :: "string option"

fun findR :: "('a \<Rightarrow> bool res) \<Rightarrow> 'a list \<Rightarrow> 'a option res" where
  "findR P [] = ok None"
| "findR P (x # xs) = bindR (P x) (\<lambda>b. if b then ok (Some x) else findR P xs)"

definition for_change :: "int \<Rightarrow> json \<times> json \<Rightarrow> bool" where
  "for_change pr = (\<lambda>(kind, i). kind = JStr ''change-request'' \<and> i = JStr (int_str pr))"

definition sourceOwner :: "RecoveryEvidence \<Rightarrow> int \<Rightarrow> Publication option res" where
  "sourceOwner ev pr = (case rv_migration ev of Some m \<Rightarrow> ok (Some (rm_owner m))
     | None \<Rightarrow> bindR (filterR (\<lambda>p. bindR (publicationIdentity (pb_key p)) (\<lambda>(kind, i).
          ok (kind \<noteq> JStr ''change-request'' \<or> i = JStr (int_str pr)))) (rv_publications ev)) electOwner)"

definition sourcePinOf :: "RecoveryEvidence \<Rightarrow> Publication \<Rightarrow> string" where
  "sourcePinOf ev owner = (case rv_migration ev of Some m \<Rightarrow> mg_targetConfig (rm_receipt m) | None \<Rightarrow> pm_config (pb_metadata owner))"

definition otherPin :: "'s Deps \<Rightarrow> RecoveryEvidence \<Rightarrow> string \<Rightarrow> int \<Rightarrow> bool res" where
  "otherPin d ev pin pr = (if rv_migration ev \<noteq> None then ok False
     else existsR (\<lambda>p. if pm_controller (pb_metadata p) = dp_controllerId d \<and> pm_config (pb_metadata p) \<noteq> pin
        then bindR (publicationIdentity (pb_key p)) (\<lambda>(kind, i). ok (kind \<noteq> JStr ''change-request'' \<or> i = JStr (int_str pr)))
        else ok False) (rv_publications ev))"

definition completeSource :: "RecoveryEvidence \<Rightarrow> unit res" where
  "completeSource ev =
    bindR (checkR (\<not> rv_complete ev \<or> rv_activeBoundary ev \<noteq> BKnown \<or> rv_legacyActive ev)
      ''Migration requires complete source activation evidence'') (\<lambda>_.
    checkR (list_ex (\<lambda>a. a \<noteq> ''multiple linked pull requests'') (rv_ambiguities ev))
      (''Source evidence is ambiguous: '' @ join_with ''; '' (rv_ambiguities ev)))"

definition selectedChange :: "RecoveryEvidence \<Rightarrow> int \<Rightarrow> (NormalizedChangeRequest \<times> string \<times> string) res" where
  "selectedChange ev pr =
    (case List.find (\<lambda>c. nc_number c = pr) (rv_changes ev) of None \<Rightarrow> fail ''Selected PR is not linked to this ticket''
     | Some c \<Rightarrow>
        bindR (checkR (nc_state c = CsClosed) ''Selected PR is closed; reopen the same PR before migrating'') (\<lambda>_.
        bindR (checkR (nc_state c = CsMerged) ''Selected PR is merged; follow-up work requires a separate decision'') (\<lambda>_.
        bindR (case (nc_headRepository c, truthy (nc_headBranch c)) of
             (Some rp, Some br) \<Rightarrow> if nc_repository c \<noteq> tr_repository (ev_ref ev) \<or> rp \<noteq> nc_repository c
                then fail ''Selected PR repository or head branch is unavailable or unsupported'' else ok (c, rp, br)
           | _ \<Rightarrow> fail ''Selected PR repository or head branch is unavailable or unsupported'') (\<lambda>r.
        bindR (checkR (list_ex (\<lambda>x. nc_number x \<noteq> pr \<and> nc_state x = CsOpen) (rv_changes ev))
           ''Competing implementation PR evidence must be resolved'') (\<lambda>_. ok r)))))"

definition selectedMarker ::
  "'s Deps \<Rightarrow> RecoveryEvidence \<Rightarrow> Publication \<Rightarrow> string \<Rightarrow> NormalizedChangeRequest \<Rightarrow> PublicationMetadata res" where
  "selectedMarker d ev owner pin selected =
    (let carried = map_option (\<lambda>m. mg_change (rm_receipt m)) (rv_migration ev) in
     case current_marker (nc_body selected) of None \<Rightarrow> fail ''Selected PR has conflicting source provenance''
     | Some m \<Rightarrow>
        if pm_controller m \<noteq> dp_controllerId d
           \<or> (pm_config m \<noteq> pin \<and> map_option mc_number carried \<noteq> Some (nc_number selected))
        then fail ''Selected PR has conflicting source provenance''
        else bindR (findR (\<lambda>p. bindR (publicationIdentity (pb_key p)) (\<lambda>ki. ok (for_change (nc_number selected) ki))) (rv_publications ev)) (\<lambda>own.
          bindR (if carried \<noteq> None then ok False else (case own of None \<Rightarrow> ok True
             | Some p \<Rightarrow> bindR (unanchoredPublicationKeys [owner, p]) (\<lambda>ks. ok (ks \<noteq> [])))) (\<lambda>unavailable.
          bindR (checkR unavailable ''Selected PR original publication provenance is unavailable'') (\<lambda>_. ok m))))"

definition sourceStageOf :: "RecoveryEvidence \<Rightarrow> ControlState option \<Rightarrow> string \<Rightarrow> string res" where
  "sourceStageOf ev cached label =
    (let s0 = (case cached of Some c \<Rightarrow> Some (cs_stateId c)
               | None \<Rightarrow> map_option (drop 12) (List.find (\<lambda>l. starts_with l ''agent-stage:'') (sn_labels (rv_snapshot ev))));
         s = (if s0 = Some ''awaiting-merge'' \<and> label \<noteq> ''agent-flow:development'' then Some ''bug-awaiting-merge'' else s0)
     in case truthy s of None \<Rightarrow> fail ''Source stage is unavailable'' | Some x \<Rightarrow> ok x)"

definition sourceActivation :: "RecoveryEvidence \<Rightarrow> (string \<times> string \<times> Actor \<times> string) res" where
  "sourceActivation ev =
    (let a = sn_activation (rv_snapshot ev) in
     case truthy (av_eventId a) of None \<Rightarrow> fail ''Source activation is unavailable'' | Some eventId \<Rightarrow>
     (case truthy (av_label a) of None \<Rightarrow> fail ''Source activation is unavailable'' | Some label \<Rightarrow>
     (case av_actor a of None \<Rightarrow> fail ''Source activation is unavailable'' | Some actor \<Rightarrow>
     (case truthy (av_occurredAt a) of None \<Rightarrow> fail ''Source activation is unavailable'' | Some occurredAt \<Rightarrow>
        if label \<notin> set (sn_labels (rv_snapshot ev)) then fail ''Source activation is unavailable''
        else ok (eventId, label, actor, occurredAt)))))"

definition ownedContext ::
  "'s MigrationDeps \<Rightarrow> RecoveryEvidence \<Rightarrow> MigrationRequest \<Rightarrow> Publication \<Rightarrow> ('s, SourceContext) io" where
  "ownedContext md ev command owner =
    (let d = md_deps md; pin = sourcePinOf ev owner in
     bindM (dp_load d (ev_ref ev)) (\<lambda>held.
     (let cached = stored_control held in
      thenM (checkM (opt_is (\<lambda>c. cs_configRevision c \<noteq> pin
            \<or> Some (cs_activationEventId c) \<noteq> av_eventId (sn_activation (rv_snapshot ev))) cached)
        ''Local source execution conflicts with provider evidence'')
      (bindM (liftR (otherPin d ev pin (mq_pr command))) (\<lambda>other.
      thenM (checkM other ''Source configuration publications conflict without a verified migration boundary'')
      (bindM (dp_loadPinned d pin) (\<lambda>source.
      bindM (liftR (sourceActivation ev)) (\<lambda>(eventId, label, actor, occurredAt).
      bindM (permitted md ev actor) (\<lambda>allowed.
      thenM (checkM (\<not> allowed) ''Source activation actor lacks permission'')
      (bindM (liftR (selectedChange ev (mq_pr command))) (\<lambda>(selected, repository, branch).
      bindM (liftR (selectedMarker d ev owner pin selected)) (\<lambda>marker.
      bindM (liftR (sourceStageOf ev cached label)) (\<lambda>stage.
      (let resume = Option.bind cached cs_resumeStateId in
       thenM (checkM (kind_is (cb_flow source) stage KPaused \<and> truthy resume = None)
         ''Source paused-stage resume context is ambiguous'')
       (retM \<lparr> sc_owner = owner, sc_sourcePin = pin, sc_cached = cached, sc_source = source,
          sc_eventId = eventId, sc_label = label, sc_actor = actor, sc_occurredAt = occurredAt,
          sc_selected = selected, sc_headRepository = repository, sc_headBranch = branch, sc_marker = marker,
          sc_stage = stage, sc_resume = resume \<rparr>)))))))))))))))"

text \<open>A source that belongs to another controller is left alone: Inl is the early return.\<close>

definition sourceContext ::
  "'s MigrationDeps \<Rightarrow> RecoveryEvidence \<Rightarrow> MigrationRequest \<Rightarrow> ('s, unit + SourceContext) io" where
  "sourceContext md ev command =
    thenM (liftR (completeSource ev))
    (bindM (liftR (sourceOwner ev (mq_pr command))) (\<lambda>elected.
     (case elected of None \<Rightarrow> failM ''Migration requires verifiable local source ownership''
      | Some owner \<Rightarrow>
         if pm_controller (pb_metadata owner) \<noteq> dp_controllerId (md_deps md) then retM (Inl ())
         else bindM (ownedContext md ev command owner) (\<lambda>sc. retM (Inr sc)))))"

section \<open>The receipt\<close>

definition gatePublication :: "'s MigrationDeps \<Rightarrow> RecoveryEvidence \<Rightarrow> string \<Rightarrow> Publication option res" where
  "gatePublication md ev pin =
    (let d = md_deps md in
     bindR (filterR (\<lambda>p. bindR (publicationIdentity (pb_key p)) (\<lambda>(kind, _).
        ok (kind = JStr ''comment'' \<and> pm_controller (pb_metadata p) = dp_controllerId d
          \<and> pm_config (pb_metadata p) = pin \<and> eligible p))) (rv_publications ev)) (\<lambda>ps.
      ok (case rev (sort_key (\<lambda>p. (dp_collate d (pb_createdAt p), dp_collate d (pb_key p))) ps) of [] \<Rightarrow> None | p # _ \<Rightarrow> Some p)))"

definition publishedComment :: "RecoveryEvidence \<Rightarrow> Publication \<Rightarrow> ProviderComment option res" where
  "publishedComment ev p = bindR (publicationIdentity (pb_key p)) (\<lambda>(_, i).
     ok (List.find (\<lambda>c. JStr (pc_id c) = i) (sn_comments (rv_snapshot ev))))"

definition consumedInput :: "RecoveryEvidence \<Rightarrow> SourceContext \<Rightarrow> string option" where
  "consumedInput ev sc = first_some (map_option chg_sourceCommentId (Option.bind (sc_cached sc) cs_humanGate))
     (Option.bind (rv_migration ev) (\<lambda>m. if mg_start (rm_receipt m) = sc_stage sc
        then map_option fst (mg_sourceHumanInput (rm_receipt m)) else None))"

definition humanInputOf ::
  "'s MigrationDeps \<Rightarrow> RecoveryEvidence \<Rightarrow> SourceContext \<Rightarrow> ProviderComment \<Rightarrow> ('s, (string \<times> string) option) io" where
  "humanInputOf md ev sc result =
    (let i = consumedInput ev sc; consumed = Option.bind i (comment_by_id ev) in
     case consumed of
       None \<Rightarrow> if truthy i \<noteq> None then failM ''Consumed human gate input is unavailable'' else retM None
     | Some c \<Rightarrow>
        if \<not> pc_createdAt c > pc_createdAt result then retM None
        else thenM (checkM (parsePublication (pc_body c) \<noteq> PUnmarked \<or> isMigrationCommand (pc_body c))
               ''Consumed human gate input cannot be verified'')
            (bindM (permitted md ev (pc_actor c)) (\<lambda>allowed.
             thenM (checkM (\<not> allowed) ''Consumed human gate input cannot be verified'')
                   (retM (Some (pc_id c, text_digest md (pc_body c)))))))"

definition retainedGate ::
  "'s MigrationDeps \<Rightarrow> RecoveryEvidence \<Rightarrow> SourceContext \<Rightarrow> MigrationSelection
     \<Rightarrow> ('s, (string \<times> string \<times> string) \<times> (string \<times> string) option) io" where
  "retainedGate md ev sc sel =
    (let f = cb_flow (sc_source sc);
         missing = ''Cannot retain human gate without a verified predecessor result; request an explicit replay'';
         predecessors = filter (\<lambda>stage. kind_is f stage KAgent \<and> edge_target f stage AgentSucceeded = Some (sel_stage sel)) (sel_retain sel)
     in bindM (liftR (gatePublication md ev (sc_sourcePin sc))) (\<lambda>publication.
        bindM (liftR (case publication of None \<Rightarrow> ok None | Some p \<Rightarrow> publishedComment ev p)) (\<lambda>result.
        (case (predecessors, publication, result) of
           ([stage], Some p, Some c) \<Rightarrow>
             bindM (humanInputOf md ev sc c) (\<lambda>input. retM ((pb_key p, stage, text_digest md (pc_body c)), input))
         | _ \<Rightarrow> failM missing))))"

definition retainedReview ::
  "'s MigrationDeps \<Rightarrow> RecoveryEvidence \<Rightarrow> SourceContext \<Rightarrow> MigrationSelection \<Rightarrow> ('s, string \<times> string \<times> string) io" where
  "retainedReview md ev sc sel =
    (let f = cb_flow (sc_source sc);
         missing = ''Cannot retain merge wait or resume verification without a verified current-head approval; request an explicit review replay''
     in bindM (liftR (routeStages f (sc_label sc))) (\<lambda>route.
        (let stage = List.find (\<lambda>s. contract_is f s RReview) (rev (butlast route));
             review = List.find (\<lambda>r. nr_verdict r = VApproved \<and> nr_headSha r = nc_headSha (sc_selected sc)) (rev (rv_reviews ev))
         in bindM (liftR (case review of None \<Rightarrow> ok None
              | Some r \<Rightarrow> findR (\<lambda>p. bindR (publicationIdentity (pb_key p)) (\<lambda>(kind, i). ok (kind = JStr ''review'' \<and> i = JStr (nr_id r)
                  \<and> pm_controller (pb_metadata p) = dp_controllerId (md_deps md) \<and> eligible p))) (rv_publications ev))) (\<lambda>publication.
            (case (stage, review, publication) of
               (Some st, Some r, Some p) \<Rightarrow>
                 thenM (checkM (st \<notin> set (sel_retain sel)) missing)
                 (bindM (permitted md ev (nr_actor r)) (\<lambda>allowed.
                  thenM (checkM (\<not> allowed) missing) (retM (pb_key p, st, text_digest md (nr_body r)))))
             | _ \<Rightarrow> failM missing)))))"

definition slice :: "nat \<Rightarrow> nat \<Rightarrow> string \<Rightarrow> string" where
  "slice a b s = take (b - a) (drop a s)"

definition workspaceOf :: "'s MigrationDeps \<Rightarrow> RecoveryEvidence \<Rightarrow> SourceContext \<Rightarrow> string" where
  "workspaceOf md ev sc =
    (case (sc_cached sc, rv_migration ev) of
       (Some c, _) \<Rightarrow> cs_flowInstanceId c
     | (None, Some m) \<Rightarrow> mg_workspace (rm_receipt m)
     | (None, None) \<Rightarrow>
        (let h = digest (md_env md) (JArr [ref_document (ev_ref ev), JStr (sc_eventId sc), JStr (dp_controllerId (md_deps md))])
         in slice 0 8 h @ ''-'' @ slice 8 12 h @ ''-4'' @ slice 13 16 h @ ''-8'' @ slice 17 20 h @ ''-'' @ slice 20 32 h))"

definition receiptOf ::
  "'s MigrationDeps \<Rightarrow> RecoveryEvidence \<Rightarrow> ProviderComment \<Rightarrow> SourceContext \<Rightarrow> string \<Rightarrow> ConfigBundle \<Rightarrow> MigrationSelection
     \<Rightarrow> (string \<times> string \<times> string) list \<Rightarrow> (string \<times> string) option \<Rightarrow> string \<Rightarrow> MigrationReceipt" where
  "receiptOf md ev request sc sha target sel retained humanInput marker = \<lparr>
     mg_ticket = ev_ref ev, mg_workspace = workspaceOf md ev sc,
     mg_activationEventId = sc_eventId sc, mg_activationLabel = sc_label sc, mg_activationActor = sc_actor sc,
     mg_activationOccurredAt = sc_occurredAt sc,
     mg_ownerKey = pb_key (sc_owner sc), mg_ownerConfig = pm_config (pb_metadata (sc_owner sc)),
     mg_ownerCreatedAt = pb_createdAt (sc_owner sc),
     mg_requestId = pc_id request, mg_requestActor = pc_actor request, mg_requestBodyHash = text_digest md (pc_body request),
     mg_requestCreatedAt = pc_createdAt request, mg_requestUpdatedAt = pc_updatedAt request,
     mg_sourceConfig = sc_sourcePin sc, mg_sourceStage = sc_stage sc, mg_sourceResume = sc_resume sc,
     mg_sourceHumanInput = humanInput,
     mg_targetConfig = sha, mg_targetFlow = fd_id (cb_flow target), mg_targetLabel = sc_label sc, mg_targetBasis = sel_basis sel,
     mg_change = \<lparr> mc_provider = nc_provider (sc_selected sc), mc_repository = nc_repository (sc_selected sc),
       mc_number = nc_number (sc_selected sc), mc_url = nc_url (sc_selected sc), mc_headRepository = sc_headRepository sc,
       mc_headBranch = sc_headBranch sc, mc_headSha = nc_headSha (sc_selected sc), mc_marker = marker \<rparr>,
     mg_start = sel_stage sel, mg_retained = retained,
     mg_baselineComments = map pc_id (sn_comments (rv_snapshot ev)),
     mg_baselineReviews = uniq ((case rv_migration ev of None \<Rightarrow> [] | Some m \<Rightarrow> mg_baselineReviews (rm_receipt m)) @ map nr_id (rv_reviews ev)),
     mg_predecessor = map_option rm_id (rv_migration ev) \<rparr>"

definition validatedBundle :: "'s MigrationDeps \<Rightarrow> ConfigBundle \<Rightarrow> ('s, unit) io" where
  "validatedBundle md target = bindM (getM (md_fs md)) (\<lambda>fx.
     liftR (case validateSemantics fx target of Inl es \<Rightarrow> fail (semanticMessage es) | Inr _ \<Rightarrow> ok ()))"

definition targetBundle :: "'s MigrationDeps \<Rightarrow> string \<Rightarrow> ('s, ConfigBundle) io" where
  "targetBundle md selector =
    (case md_resolveTarget md of None \<Rightarrow> failM ''Strict migration target resolution is unavailable''
     | Some resolveTarget \<Rightarrow>
        bindM (resolveTarget selector) (\<lambda>sha.
        bindM (dp_loadPinned (md_deps md) sha) (\<lambda>target.
        thenM (checkM (cb_revision target \<noteq> sha) ''Target bundle does not match resolved SHA'')
        (thenM (validatedBundle md target)
        (thenM (case md_validateTarget md of None \<Rightarrow> retM () | Some v \<Rightarrow> v target) (retM target))))))"

definition draftReceipt ::
  "'s MigrationDeps \<Rightarrow> RecoveryEvidence \<Rightarrow> ProviderComment \<Rightarrow> MigrationRequest \<Rightarrow> SourceContext \<Rightarrow> ConfigBundle \<Rightarrow> MigrationSelection
     \<Rightarrow> ('s, Proposal) io" where
  "draftReceipt md ev request command sc target sel =
    (let f = cb_flow target; stage = sel_stage sel in
     bindM (if mq_resume command = None \<and> kind_is f stage KHumanGate
            then bindM (retainedGate md ev sc sel) (\<lambda>(r, input). retM ([r], input)) else retM ([], None)) (\<lambda>(gate, input).
     bindM (if (mq_resume command = None \<and> kind_is f stage KProviderWait) \<or> contract_is f stage RVerification
            then bindM (retainedReview md ev sc sel) (\<lambda>r. retM [r]) else retM []) (\<lambda>reviews.
     bindM (liftR (renderPublication (sc_marker sc))) (\<lambda>marker.
     (let receipt = receiptOf md ev request sc (cb_revision target) target sel (gate @ reviews) input marker in
      bindM (liftR (renderMigrationReceipt (md_receipt md) receipt (dp_controllerId (md_deps md)))) (\<lambda>body.
        retM \<lparr> pp_receipt = receipt, pp_body = body \<rparr>))))))"

text \<open>None means that nothing is to be migrated, which the ticket is told.\<close>

definition newProposal ::
  "'s MigrationDeps \<Rightarrow> RecoveryEvidence \<Rightarrow> ProviderComment \<Rightarrow> MigrationRequest \<Rightarrow> SourceContext \<Rightarrow> ('s, Proposal option) io" where
  "newProposal md ev request command sc =
    bindM (targetBundle md (mq_to command)) (\<lambda>target.
    bindM (liftR (selectMigration (md_env md) (sc_source sc) target (sc_label sc)
        (opt_or (sc_resume sc) (sc_stage sc)) (mq_resume command))) (\<lambda>sel.
     if sel_noop sel then
       bindM (md_createComment md (ev_ref ev) (diagnosticOf md request @ [CHR 0x0A]
         @ ''Migration is a no-op: configuration is unchanged and no replay was requested.'')) (\<lambda>_. retM None)
     else bindM (draftReceipt md ev request command sc target sel) (\<lambda>p. retM (Some p))))"

section \<open>Draining the source\<close>

definition comment_document :: "ProviderComment \<Rightarrow> json" where
  "comment_document c = JObj [(''id'', JStr (pc_id c)), (''url'', JStr (pc_url c)), (''body'', JStr (pc_body c)),
     (''actor'', actor_document (pc_actor c)), (''createdAt'', JStr (pc_createdAt c)), (''updatedAt'', JStr (pc_updatedAt c))]"

definition comments_digest :: "'s MigrationDeps \<Rightarrow> RecoveryEvidence \<Rightarrow> string" where
  "comments_digest md ev = digest (md_env md) (JArr (map comment_document (sn_comments (rv_snapshot ev))))"

definition stopSource :: "'s MigrationDeps \<Rightarrow> SourceContext \<Rightarrow> ('s, unit) io" where
  "stopSource md sc = (case sc_cached sc of None \<Rightarrow> retM ()
     | Some c \<Rightarrow> thenM (dp_cancel (md_deps md) (cs_flowInstanceId c))
        (bindM (getM (dp_isRunning (md_deps md) (cs_flowInstanceId c))) (\<lambda>running.
          checkM running ''Old agent termination could not be confirmed'')))"

definition sameOwnership ::
  "'s MigrationDeps \<Rightarrow> RecoveryEvidence \<Rightarrow> SourceContext \<Rightarrow> RecoveryEvidence \<Rightarrow> RecoveryEvidence \<Rightarrow> Publication option \<Rightarrow> unit res" where
  "sameOwnership md ev sc fresh effective owner =
    checkR (map_option rm_id (rv_migration effective) \<noteq> map_option rm_id (rv_migration ev)
        \<or> map_option pb_key owner \<noteq> Some (pb_key (sc_owner sc))
        \<or> map_option (\<lambda>p. pm_controller (pb_metadata p)) owner \<noteq> Some (dp_controllerId (md_deps md))
        \<or> list_ex (\<lambda>a. a \<noteq> ''multiple linked pull requests'') (rv_ambiguities fresh))
      ''Source ownership or migration boundary changed while draining work''"

definition sameRequest ::
  "'s MigrationDeps \<Rightarrow> RecoveryEvidence \<Rightarrow> ProviderComment \<Rightarrow> RecoveryEvidence \<Rightarrow> ProviderComment option \<Rightarrow> ('s, unit) io" where
  "sameRequest md ev request fresh freshRequest =
    (let changed = ''Source activation, ownership or request changed while draining work'' in
     case freshRequest of None \<Rightarrow> failM changed
     | Some c \<Rightarrow>
        thenM (checkM (\<not> rv_complete fresh \<or> \<not> sn_open (rv_snapshot fresh) \<or> \<not> av_present (sn_activation (rv_snapshot fresh))
            \<or> sn_activation (rv_snapshot fresh) \<noteq> sn_activation (rv_snapshot ev)
            \<or> text_digest md (pc_body c) \<noteq> text_digest md (pc_body request) \<or> pc_actor c \<noteq> pc_actor request) changed)
        (bindM (permitted md ev (pc_actor c)) (\<lambda>allowed. checkM (\<not> allowed) changed)))"

definition newPublications ::
  "RecoveryEvidence \<Rightarrow> RecoveryEvidence \<Rightarrow> ProviderComment list \<Rightarrow> Publication list res" where
  "newPublications ev effective committed = filterR (\<lambda>p.
     if pb_key p \<in> set (map pb_key (rv_publications ev)) then ok False
     else bindR (existsR (\<lambda>c. bindR (publicationIdentity (pb_key p)) (\<lambda>(_, i). ok (i = JStr (pc_id c)))) committed) (\<lambda>b. ok (\<not> b)))
     (rv_publications effective)"

text \<open>Inl: the receipt is already published and recovered. Inr: the comments that already hold it.\<close>

definition drainSource ::
  "'s MigrationDeps \<Rightarrow> RecoveryEvidence \<Rightarrow> ProviderComment \<Rightarrow> MigrationRequest \<Rightarrow> SourceContext \<Rightarrow> Proposal
     \<Rightarrow> ('s, RecoveryEvidence + ProviderComment list) io" where
  "drainSource md ev request command sc proposal =
    thenM (stopSource md sc)
    (bindM (md_readRecoveryEvidence md (ev_ref ev) (Some (sc_label sc))) (\<lambda>read.
     bindM (liftR (scopeMigrationEvidence read (mq_pr command))) (\<lambda>fresh.
     bindM (recoverMigration (migration_access_of md) fresh) (\<lambda>effective.
      if opt_is (\<lambda>m. pc_body (rm_comment m) = pp_body proposal) (rv_migration effective) then retM (Inl effective)
      else
        bindM (liftR (sourceOwner effective (mq_pr command))) (\<lambda>owner.
        thenM (liftR (sameOwnership md ev sc fresh effective owner))
        (bindM (dp_readChangeRequest (md_deps md) (ev_ref ev) (mq_pr command)) (\<lambda>freshSelected.
        thenM (sameRequest md ev request fresh (comment_by_id fresh (pc_id request)))
        (thenM (checkM (comments_digest md fresh \<noteq> comments_digest md ev) ''Source comments changed while draining work'')
        (thenM (checkM (freshSelected \<noteq> sc_selected sc \<or> sn_labels (rv_snapshot fresh) \<noteq> sn_labels (rv_snapshot ev))
           ''Source stage or selected PR changed while draining work'')
        (let committed = filter (\<lambda>c. pc_body c = pp_body proposal) (sn_comments (rv_snapshot fresh)) in
         thenM (checkM (length committed > 1) ''Conflicting duplicate migration receipts'')
         (bindM (liftR (newPublications ev effective committed)) (\<lambda>added.
          thenM (checkM (added \<noteq> []) ''Source publications changed while draining work; reassess before migrating'')
            (retM (Inr committed))))))))))))))"

section \<open>Publishing the receipt\<close>

definition deliverReceipt ::
  "'s MigrationDeps \<Rightarrow> RecoveryEvidence \<Rightarrow> SourceContext \<Rightarrow> Proposal \<Rightarrow> ProviderComment list \<Rightarrow> ('s, RecoveryEvidence) io" where
  "deliverReceipt md ev sc proposal committed =
    bindM (case committed of c # _ \<Rightarrow> retM c | [] \<Rightarrow> md_createComment md (ev_ref ev) (pp_body proposal)) (\<lambda>created.
    bindM (dp_readComment (md_deps md) (ev_ref ev) (pc_id created)) (\<lambda>readback.
    thenM (checkM (pc_id readback \<noteq> pc_id created \<or> pc_body readback \<noteq> pp_body proposal \<or> pc_updatedAt readback \<noteq> pc_createdAt readback)
      ''Migration receipt readback mismatch; reconcile before retrying'')
    (bindM (md_readRecoveryEvidence md (ev_ref ev) (Some (sc_label sc))) (\<lambda>verified.
     thenM (checkM (\<not> rv_complete verified \<or> \<not> list_ex (\<lambda>c. pc_id c = pc_id created \<and> pc_body c = pp_body proposal) (sn_comments (rv_snapshot verified)))
       ''Migration receipt is not visible in complete recovery evidence'')
     (recoverMigration (migration_access_of md) verified)))))"

section \<open>One command\<close>

datatype Prepared =
    ForeignSource
  | NothingToMigrate
  | AlreadyMigrated RecoveryEvidence
  | ReadyToPublish SourceContext Proposal "ProviderComment list"

definition prepareMigration ::
  "'s MigrationDeps \<Rightarrow> RecoveryEvidence \<Rightarrow> ProviderComment \<Rightarrow> MigrationRequest \<Rightarrow> Proposal option \<Rightarrow> ('s, Prepared) io" where
  "prepareMigration md ev request command held =
    bindM (sourceContext md ev command) (\<lambda>ctx. case ctx of Inl _ \<Rightarrow> retM ForeignSource
     | Inr sc \<Rightarrow>
        bindM (case held of
            Some p \<Rightarrow> if mg_requestBodyHash (pp_receipt p) \<noteq> text_digest md (pc_body request)
               then failM ''Pending migration request was edited'' else retM (Some p)
          | None \<Rightarrow> newProposal md ev request command sc) (\<lambda>proposal. case proposal of None \<Rightarrow> retM NothingToMigrate
           | Some p \<Rightarrow>
              bindM (drainSource md ev request command sc p) (\<lambda>drained. case drained of
                 Inl effective \<Rightarrow> retM (AlreadyMigrated effective)
               | Inr committed \<Rightarrow> retM (ReadyToPublish sc p committed))))"

definition migrationScope ::
  "'s MigrationDeps \<Rightarrow> RecoveryEvidence \<Rightarrow> ProviderComment \<Rightarrow> (MigrationRequest \<times> RecoveryEvidence) res" where
  "migrationScope md ev request =
    bindR (parseMigrationRequest (pc_body request)) (\<lambda>parsed.
    bindR (checkR (md_kind md \<noteq> Github) ''GitLab workflow migration is not supported; ordinary GitLab flows are unchanged'') (\<lambda>_.
    (case parsed of None \<Rightarrow> fail ''TypeError''
     | Some command \<Rightarrow> bindR (scopeMigrationEvidence ev (mq_pr command)) (\<lambda>e. ok (command, e)))))"

definition rejectMigration :: "'s MigrationDeps \<Rightarrow> RecoveryEvidence \<Rightarrow> ProviderComment \<Rightarrow> err \<Rightarrow> ('s, unit) io" where
  "rejectMigration md ev request e =
    bindM (md_createComment md (ev_ref ev) (diagnosticOf md request @ [CHR 0x0A] @ ''Migration rejected: '' @ error_message md e
      @ ''. The source configuration and stage are unchanged. Submit a new request after resolving this diagnostic.'')) (\<lambda>_. retM ())"

text \<open>The world of the outer loop also holds the receipts that are not yet published.\<close>

definition world :: "('s, 'a) io \<Rightarrow> ('s \<times> pending, 'a) io" where
  "world m = (\<lambda>(s, p). case m s of (r, s') \<Rightarrow> (r, (s', p)))"

definition set_pending :: "TicketRef \<times> string \<Rightarrow> Proposal option \<Rightarrow> ('s \<times> pending, unit) io" where
  "set_pending key v = (\<lambda>(s, p). (ok (), (s, p(key := v))))"

datatype Handled = Finish RecoveryEvidence | Proceed RecoveryEvidence

definition reject_with ::
  "'s MigrationDeps \<Rightarrow> RecoveryEvidence \<Rightarrow> ProviderComment \<Rightarrow> err \<Rightarrow> ('s \<times> pending, Handled) io" where
  "reject_with md ev request e =
    thenM (set_pending (ev_ref ev, pc_id request) None)
    (thenM (world (rejectMigration md ev request e)) (retM (Proceed ev)))"

definition handleRequest ::
  "'s MigrationDeps \<Rightarrow> RecoveryEvidence \<Rightarrow> ProviderComment \<Rightarrow> ('s \<times> pending, Handled) io" where
  "handleRequest md ev request =
    (case migrationScope md ev request of
       Inl e \<Rightarrow> reject_with md ev request e
     | Inr (command, ev') \<Rightarrow>
        (let key = (ev_ref ev', pc_id request) in
         bindM (getM (\<lambda>(s, p). p key)) (\<lambda>held.
         bindM (world (attemptM (prepareMigration md ev' request command held))) (\<lambda>prepared.
         (case prepared of
            Inl e \<Rightarrow> reject_with md ev' request e
          | Inr ForeignSource \<Rightarrow> retM (Finish ev')
          | Inr NothingToMigrate \<Rightarrow> retM (Proceed ev')
          | Inr (AlreadyMigrated effective) \<Rightarrow> thenM (set_pending key None) (retM (Finish effective))
          | Inr (ReadyToPublish sc proposal committed) \<Rightarrow>
              thenM (set_pending key (Some proposal))
              (bindM (world (deliverReceipt md ev' sc proposal committed)) (\<lambda>result.
               thenM (set_pending key None) (retM (Finish result)))))))))"

fun processRequests ::
  "'s MigrationDeps \<Rightarrow> ProviderComment list \<Rightarrow> RecoveryEvidence \<Rightarrow> ('s \<times> pending, RecoveryEvidence) io" where
  "processRequests md [] ev = retM ev"
| "processRequests md (request # rest) ev =
    bindM (world (permitted md ev (pc_actor request))) (\<lambda>allowed.
     if \<not> allowed \<or> list_ex (\<lambda>c. starts_with (pc_body c) (diagnosticOf md request)) (sn_comments (rv_snapshot ev))
     then processRequests md rest ev
     else bindM (handleRequest md ev request) (\<lambda>handled. case handled of
        Finish ev' \<Rightarrow> retM ev' | Proceed ev' \<Rightarrow> processRequests md rest ev'))"

definition processMigration :: "'s MigrationDeps \<Rightarrow> RecoveryEvidence \<Rightarrow> ('s \<times> pending, RecoveryEvidence) io" where
  "processMigration md ev =
    (if \<not> rv_complete ev \<or> \<not> sn_open (rv_snapshot ev) \<or> \<not> av_present (sn_activation (rv_snapshot ev)) then retM ev
     else bindM (liftR (openRequests md ev)) (\<lambda>requests. processRequests md requests ev))"

section \<open>What a published receipt rests on\<close>

lemma attempt_iff [run_iff]: "attemptM m s = (Inr r, s') \<longleftrightarrow> m s = (r, s')" "attemptM m s \<noteq> (Inl e, s')"
  by (auto simp: attemptM_def ok_def split: prod.split)

lemma permitted_ok:
  assumes "permitted md ev actor s = (Inr True, s')"
  shows "\<exists>p. dp_permission (md_deps md) (tr_repository (ev_ref ev)) actor s = (Inr p, s') \<and> authorized_permission p"
  using assms by (auto simp: permitted_def run_iff)

lemma selectedChange_ok:
  assumes "selectedChange ev pr = ok (c, repository, branch)"
  shows "c \<in> set (rv_changes ev) \<and> nc_number c = pr \<and> nc_state c = CsOpen \<and> nc_repository c = tr_repository (ev_ref ev)
    \<and> nc_headRepository c = Some repository \<and> repository = nc_repository c
    \<and> (\<forall>x \<in> set (rv_changes ev). nc_state x = CsOpen \<longrightarrow> nc_number x = pr)"
proof -
  obtain x where x: "List.find (\<lambda>c. nc_number c = pr) (rv_changes ev) = Some x"
    using assms by (cases "List.find (\<lambda>c. nc_number c = pr) (rv_changes ev)") (simp_all add: selectedChange_def)
  then have "x = c \<and> nc_state c = CsOpen \<and> nc_repository c = tr_repository (ev_ref ev) \<and> nc_headRepository c = Some repository
     \<and> repository = nc_repository c \<and> \<not> list_ex (\<lambda>x. nc_number x \<noteq> pr \<and> nc_state x = CsOpen) (rv_changes ev)"
    using assms by (cases "nc_state x") (auto simp: selectedChange_def split: option.split_asm if_split_asm)
  then show ?thesis using find_in [OF x] by (auto simp: list_ex_iff)
qed

lemma sourceActivation_ok:
  "sourceActivation ev = ok (e, label, actor, t) \<Longrightarrow> av_label (sn_activation (rv_snapshot ev)) = Some label
    \<and> label \<in> set (sn_labels (rv_snapshot ev)) \<and> av_actor (sn_activation (rv_snapshot ev)) = Some actor"
  by (auto simp: sourceActivation_def Let_def truthy_def split: option.split_asm if_split_asm)

lemma ownedContext_ok:
  assumes "ownedContext md ev command owner s = (Inr sc, s')"
  shows "sc_owner sc = owner \<and> (\<exists>repository branch. selectedChange ev (mq_pr command) = ok (sc_selected sc, repository, branch))
    \<and> Some (sc_label sc) = av_label (sn_activation (rv_snapshot ev))
    \<and> (\<forall>c. sc_cached sc = Some c \<longrightarrow> cs_configRevision c = sc_sourcePin sc)"
proof -
  obtain e label actor t c repository branch where a: "sourceActivation ev = Inr (e, label, actor, t)"
    "selectedChange ev (mq_pr command) = Inr (c, repository, branch)"
    "sc_owner sc = owner" "sc_label sc = label" "sc_selected sc = c"
    "\<forall>c. sc_cached sc = Some c \<longrightarrow> cs_configRevision c = sc_sourcePin sc"
    using assms unfolding ownedContext_def Let_def by (auto simp: run_iff opt_is_iff)
  then show ?thesis using sourceActivation_ok [OF a(1) [folded ok_def]] by (auto simp: ok_def)
qed

lemma sourceContext_ok:
  assumes "sourceContext md ev command s = (Inr (Inr sc), s')"
  shows "sourceOwner ev (mq_pr command) = ok (Some (sc_owner sc))
    \<and> pm_controller (pb_metadata (sc_owner sc)) = dp_controllerId (md_deps md) \<and> rv_complete ev
    \<and> (\<exists>s1. ownedContext md ev command (sc_owner sc) s1 = (Inr sc, s'))"
proof -
  obtain el where el: "sourceOwner ev (mq_pr command) = Inr el" "completeSource ev = Inr ()"
    and k: "(case el of None \<Rightarrow> failM ''Migration requires verifiable local source ownership''
      | Some owner \<Rightarrow>
         if pm_controller (pb_metadata owner) \<noteq> dp_controllerId (md_deps md) then retM (Inl ())
         else bindM (ownedContext md ev command owner) (\<lambda>sc. retM (Inr sc))) s = (Inr (Inr sc), s')"
    using assms unfolding sourceContext_def by (auto simp: run_iff)
  obtain owner where o: "el = Some owner" using k by (cases el) (auto simp: run_iff)
  have own: "pm_controller (pb_metadata owner) = dp_controllerId (md_deps md)" "ownedContext md ev command owner s = (Inr sc, s')"
    using k o by (auto simp: run_iff split: if_split_asm)
  moreover have "rv_complete ev" using el(2) [folded ok_def] by (simp add: completeSource_def)
  ultimately show ?thesis using el o ownedContext_ok [OF own(2)] by (auto simp: ok_def)
qed

text \<open>
  The steps of draining the source, one after the other from the state s to the state s': the old agent is cancelled and
  does not run any more; only then the ticket is read, recovered and compared, the change request is read, and last the
  permission of the author of the command.
\<close>

definition drained ::
  "'s MigrationDeps \<Rightarrow> RecoveryEvidence \<Rightarrow> ProviderComment \<Rightarrow> MigrationRequest \<Rightarrow> SourceContext \<Rightarrow> string
     \<Rightarrow> ProviderComment list \<Rightarrow> 's \<Rightarrow> 's \<Rightarrow> bool" where
  "drained md ev request command sc body committed s s' \<longleftrightarrow>
    (\<exists>s1 s2 s3 s4 read fresh effective owner q.
       (case sc_cached sc of None \<Rightarrow> s1 = s
        | Some c \<Rightarrow> dp_cancel (md_deps md) (cs_flowInstanceId c) s = (Inr (), s1) \<and> \<not> dp_isRunning (md_deps md) (cs_flowInstanceId c) s1)
     \<and> md_readRecoveryEvidence md (ev_ref ev) (Some (sc_label sc)) s1 = (Inr read, s2)
     \<and> scopeMigrationEvidence read (mq_pr command) = ok fresh
     \<and> recoverMigration (migration_access_of md) fresh s2 = (Inr effective, s3)
     \<and> dp_readChangeRequest (md_deps md) (ev_ref ev) (mq_pr command) s3 = (Inr (sc_selected sc), s4)
     \<and> dp_permission (md_deps md) (tr_repository (ev_ref ev)) (pc_actor request) s4 = (Inr q, s') \<and> authorized_permission q
     \<and> rv_complete fresh \<and> sn_open (rv_snapshot fresh) \<and> sn_activation (rv_snapshot fresh) = sn_activation (rv_snapshot ev)
     \<and> sn_labels (rv_snapshot fresh) = sn_labels (rv_snapshot ev) \<and> comments_digest md fresh = comments_digest md ev
     \<and> opt_is (\<lambda>c. text_digest md (pc_body c) = text_digest md (pc_body request) \<and> pc_actor c = pc_actor request)
         (comment_by_id fresh (pc_id request))
     \<and> sourceOwner effective (mq_pr command) = ok (Some owner) \<and> pb_key owner = pb_key (sc_owner sc)
     \<and> pm_controller (pb_metadata owner) = dp_controllerId (md_deps md)
     \<and> map_option rm_id (rv_migration effective) = map_option rm_id (rv_migration ev)
     \<and> newPublications ev effective committed = ok []
     \<and> committed = filter (\<lambda>c. pc_body c = body) (sn_comments (rv_snapshot fresh)) \<and> length committed \<le> 1)"

lemma stopSource_ok:
  assumes "stopSource md sc s = (Inr u, s1)"
  shows "case sc_cached sc of None \<Rightarrow> s1 = s
    | Some c \<Rightarrow> dp_cancel (md_deps md) (cs_flowInstanceId c) s = (Inr (), s1) \<and> \<not> dp_isRunning (md_deps md) (cs_flowInstanceId c) s1"
  using assms by (auto simp: stopSource_def run_iff split: option.split_asm)

lemma sameRequest_ok:
  assumes "sameRequest md ev request fresh x s = (Inr u, s')"
  obtains c q where "x = Some c" "dp_permission (md_deps md) (tr_repository (ev_ref ev)) (pc_actor request) s = (Inr q, s')"
    "authorized_permission q" "rv_complete fresh" "sn_open (rv_snapshot fresh)"
    "sn_activation (rv_snapshot fresh) = sn_activation (rv_snapshot ev)"
    "text_digest md (pc_body c) = text_digest md (pc_body request)" "pc_actor c = pc_actor request"
proof (cases x)
  case None
  then show thesis using assms by (simp add: sameRequest_def Let_def run_iff)
next
  case (Some c)
  then have c: "rv_complete fresh" "sn_open (rv_snapshot fresh)" "sn_activation (rv_snapshot fresh) = sn_activation (rv_snapshot ev)"
    "text_digest md (pc_body c) = text_digest md (pc_body request)" "pc_actor c = pc_actor request"
    "permitted md ev (pc_actor c) s = (Inr True, s')"
    using assms by (auto simp: sameRequest_def Let_def run_iff)
  obtain q where "dp_permission (md_deps md) (tr_repository (ev_ref ev)) (pc_actor request) s = (Inr q, s')" "authorized_permission q"
    using permitted_ok [OF c(6)] c(5) by auto
  then show thesis using that Some c by blast
qed

lemma drainSource_ok:
  assumes "drainSource md ev request command sc p s = (Inr (Inr committed), s')"
  shows "drained md ev request command sc (pp_body p) committed s s'"
proof -
  obtain s1 read s2 fresh effective s3 owner s4 where r: "stopSource md sc s = (Inr (), s1)"
    "md_readRecoveryEvidence md (ev_ref ev) (Some (sc_label sc)) s1 = (Inr read, s2)"
    "scopeMigrationEvidence read (mq_pr command) = Inr fresh"
    "recoverMigration (migration_access_of md) fresh s2 = (Inr effective, s3)"
    "sourceOwner effective (mq_pr command) = Inr owner"
    "sameOwnership md ev sc fresh effective owner = Inr ()"
    "dp_readChangeRequest (md_deps md) (ev_ref ev) (mq_pr command) s3 = (Inr (sc_selected sc), s4)"
    "sameRequest md ev request fresh (comment_by_id fresh (pc_id request)) s4 = (Inr (), s')"
    "comments_digest md fresh = comments_digest md ev" "sn_labels (rv_snapshot fresh) = sn_labels (rv_snapshot ev)"
    "committed = filter (\<lambda>c. pc_body c = pp_body p) (sn_comments (rv_snapshot fresh))" "length committed \<le> 1"
    "newPublications ev effective committed = Inr []"
    using assms unfolding drainSource_def Let_def run_iff by (auto simp: run_iff not_less split: if_split_asm)
  obtain ow where ow: "owner = Some ow" "pb_key ow = pb_key (sc_owner sc)" "pm_controller (pb_metadata ow) = dp_controllerId (md_deps md)"
    "map_option rm_id (rv_migration effective) = map_option rm_id (rv_migration ev)"
    using r(6) [folded ok_def] by (cases owner) (simp_all add: sameOwnership_def)
  obtain c q where c: "comment_by_id fresh (pc_id request) = Some c"
    "dp_permission (md_deps md) (tr_repository (ev_ref ev)) (pc_actor request) s4 = (Inr q, s')"
    "authorized_permission q" "rv_complete fresh" "sn_open (rv_snapshot fresh)"
    "sn_activation (rv_snapshot fresh) = sn_activation (rv_snapshot ev)"
    "text_digest md (pc_body c) = text_digest md (pc_body request)" "pc_actor c = pc_actor request"
    using sameRequest_ok [OF r(8)] by blast
  show ?thesis unfolding drained_def
    by (intro exI [of _ s1] exI [of _ s2] exI [of _ s3] exI [of _ s4] exI [of _ read] exI [of _ fresh] exI [of _ effective]
        exI [of _ ow] exI [of _ q])
      (use stopSource_ok [OF r(1)] r ow c in \<open>simp add: ok_def opt_is_def\<close>)
qed

lemma prepareMigration_ok:
  assumes "prepareMigration md ev request command held s = (Inr (ReadyToPublish sc p committed), s')"
  shows "\<exists>s1 s2. sourceContext md ev command s = (Inr (Inr sc), s1) \<and> drainSource md ev request command sc p s2 = (Inr (Inr committed), s')
    \<and> (case held of Some q \<Rightarrow> q = p \<and> s2 = s1 \<and> mg_requestBodyHash (pp_receipt p) = text_digest md (pc_body request)
       | None \<Rightarrow> newProposal md ev request command sc s1 = (Inr (Some p), s2))"
proof -
  obtain ctx s1 where c: "sourceContext md ev command s = (Inr ctx, s1)"
    using assms by (auto simp: prepareMigration_def run_iff)
  obtain sc' where ctx: "ctx = Inr sc'" using assms c by (cases ctx) (auto simp: prepareMigration_def run_iff)
  obtain proposal s2 where n: "(case held of
            Some p \<Rightarrow> if mg_requestBodyHash (pp_receipt p) \<noteq> text_digest md (pc_body request)
               then failM ''Pending migration request was edited'' else retM (Some p)
          | None \<Rightarrow> newProposal md ev request command sc') s1 = (Inr proposal, s2)"
    and k: "(case proposal of None \<Rightarrow> retM NothingToMigrate
           | Some p \<Rightarrow> bindM (drainSource md ev request command sc' p) (\<lambda>drained. case drained of
                 Inl effective \<Rightarrow> retM (AlreadyMigrated effective)
               | Inr committed \<Rightarrow> retM (ReadyToPublish sc' p committed))) s2 = (Inr (ReadyToPublish sc p committed), s')"
    using assms c ctx unfolding prepareMigration_def by (simp add: bindM_Inr_iff) blast
  obtain x where x: "proposal = Some x" using k by (cases proposal) (auto simp: run_iff)
  obtain dr s3 where dr: "drainSource md ev request command sc' x s2 = (Inr dr, s3)" using k x by (auto simp: run_iff)
  have "dr = Inr committed \<and> sc' = sc \<and> x = p \<and> s3 = s'" using k x dr by (cases dr) (auto simp: run_iff)
  then have p: "proposal = Some p \<and> sc' = sc \<and> drainSource md ev request command sc p s2 = (Inr (Inr committed), s')"
    using x dr by simp
  show ?thesis using c ctx p n by (cases held) (auto simp: run_iff split: if_split_asm)
qed

lemma targetBundle_ok:
  assumes "targetBundle md selector s = (Inr target, s')"
  shows "\<exists>fx h. validateSemantics fx target = Inr h"
proof -
  obtain s1 s2 where "validatedBundle md target s1 = (Inr (), s2)"
    using assms by (auto simp: targetBundle_def run_iff split: option.split_asm)
  then show ?thesis
    by (cases "validateSemantics (md_fs md s1) target") (auto simp: validatedBundle_def run_iff fail_def)
qed

lemma draftReceipt_ok:
  assumes "draftReceipt md ev request command sc target sel s = (Inr p, s')"
  shows "renderMigrationReceipt (md_receipt md) (pp_receipt p) (dp_controllerId (md_deps md)) = ok (pp_body p)
    \<and> (\<exists>retained input marker. pp_receipt p = receiptOf md ev request sc (cb_revision target) target sel retained input marker)"
proof -
  have "returnsM (\<lambda>p. renderMigrationReceipt (md_receipt md) (pp_receipt p) (dp_controllerId (md_deps md)) = ok (pp_body p)
    \<and> (\<exists>retained input marker. pp_receipt p = receiptOf md ev request sc (cb_revision target) target sel retained input marker))
    (draftReceipt md ev request command sc target sel)"
    unfolding draftReceipt_def Let_def
    by (rule returns_last, rule returns_prod, rule returns_last, rule returns_last) (auto simp: returnsM_def run_iff ok_def, blast)
  then show ?thesis using assms by (rule returnsD)
qed

lemma newProposal_ok:
  assumes "newProposal md ev request command sc s = (Inr (Some p), s')"
  shows "\<exists>target sel fx h. cb_revision target = mg_targetConfig (pp_receipt p) \<and> validateSemantics fx target = Inr h
    \<and> selectMigration (md_env md) (sc_source sc) target (sc_label sc) (opt_or (sc_resume sc) (sc_stage sc)) (mq_resume command) = ok sel
    \<and> \<not> sel_noop sel \<and> sel_stage sel = mg_start (pp_receipt p) \<and> mg_requestBodyHash (pp_receipt p) = text_digest md (pc_body request)
    \<and> renderMigrationReceipt (md_receipt md) (pp_receipt p) (dp_controllerId (md_deps md)) = ok (pp_body p)"
proof -
  obtain target sel s1 s2 s3 where t: "targetBundle md (mq_to command) s = (Inr target, s1)"
    "selectMigration (md_env md) (sc_source sc) target (sc_label sc) (opt_or (sc_resume sc) (sc_stage sc)) (mq_resume command) = Inr sel"
    "\<not> sel_noop sel" "draftReceipt md ev request command sc target sel s2 = (Inr p, s3)"
    using assms unfolding newProposal_def by (auto simp: run_iff split: if_split_asm)
  obtain fx h where v: "validateSemantics fx target = Inr h" using targetBundle_ok [OF t(1)] by blast
  have r: "cb_revision target = mg_targetConfig (pp_receipt p)" "sel_stage sel = mg_start (pp_receipt p)"
    "mg_requestBodyHash (pp_receipt p) = text_digest md (pc_body request)"
    "renderMigrationReceipt (md_receipt md) (pp_receipt p) (dp_controllerId (md_deps md)) = ok (pp_body p)"
    using draftReceipt_ok [OF t(4)] by (auto simp: receiptOf_def)
  show ?thesis
    by (rule exI [of _ target], rule exI [of _ sel], rule exI [of _ fx], rule exI [of _ h])
       (use t v r in \<open>simp add: ok_def\<close>)
qed

section \<open>Where a migration comes from\<close>

lemma world_iff [run_iff]: "world m w = (r, w') \<longleftrightarrow> m (fst w) = (r, fst w') \<and> snd w' = snd w"
  by (cases w; cases w') (auto simp: world_def split: prod.split)

lemma set_pending_iff [run_iff]: "set_pending k v w = (Inr u, w') \<longleftrightarrow> w' = (fst w, (snd w)(k := v))" "set_pending k v w \<noteq> (Inl e, w')"
  by (cases w; auto simp: set_pending_def ok_def)+

lemma scope_keeps: "scopeMigrationEvidence ev n = ok ev' \<Longrightarrow> rv_migration ev' = rv_migration ev \<and> rv_snapshot ev' = rv_snapshot ev"
  by (auto simp: scopeMigrationEvidence_def Let_def split: option.split_asm)

text \<open>The evidence was recovered from the receipts found by a new reading of the ticket.\<close>

definition read_back :: "'s MigrationDeps \<Rightarrow> TicketRef \<Rightarrow> RecoveryEvidence \<Rightarrow> bool" where
  "read_back md ref ev' \<longleftrightarrow> (\<exists>label read fresh s1 s2 s3 s4. md_readRecoveryEvidence md ref label s1 = (Inr read, s2)
     \<and> (fresh = read \<or> (\<exists>n. scopeMigrationEvidence read n = ok fresh))
     \<and> recoverMigration (migration_access_of md) fresh s3 = (Inr ev', s4))"

definition handled_ok :: "'s MigrationDeps \<Rightarrow> RecoveryEvidence \<Rightarrow> Handled \<Rightarrow> bool" where
  "handled_ok md ev h = (case h of
      Finish ev' \<Rightarrow> (rv_migration ev' = rv_migration ev \<and> rv_snapshot ev' = rv_snapshot ev) \<or> read_back md (ev_ref ev) ev'
    | Proceed ev' \<Rightarrow> rv_migration ev' = rv_migration ev \<and> rv_snapshot ev' = rv_snapshot ev)"

lemma drained_read_back: "drainSource md ev request command sc p s = (Inr (Inl ev'), s') \<Longrightarrow> read_back md (ev_ref ev) ev'"
proof -
  assume a: "drainSource md ev request command sc p s = (Inr (Inl ev'), s')"
  obtain s1 read s2 fresh s3 where "md_readRecoveryEvidence md (ev_ref ev) (Some (sc_label sc)) s1 = (Inr read, s2)"
    "scopeMigrationEvidence read (mq_pr command) = Inr fresh" "recoverMigration (migration_access_of md) fresh s2 = (Inr ev', s3)"
    using a unfolding drainSource_def Let_def by (auto simp: run_iff split: if_split_asm)
  then show ?thesis unfolding read_back_def ok_def by blast
qed

lemma delivered_read_back: "deliverReceipt md ev sc p committed s = (Inr ev', s') \<Longrightarrow> read_back md (ev_ref ev) ev'"
proof -
  assume "deliverReceipt md ev sc p committed s = (Inr ev', s')"
  then obtain s1 read s2 where "md_readRecoveryEvidence md (ev_ref ev) (Some (sc_label sc)) s1 = (Inr read, s2)"
    "recoverMigration (migration_access_of md) read s2 = (Inr ev', s')"
    unfolding deliverReceipt_def by (auto simp: run_iff)
  then show ?thesis unfolding read_back_def by blast
qed

lemma prepared_read_back:
  assumes "prepareMigration md ev request command held s = (Inr (AlreadyMigrated ev'), s')"
  shows "read_back md (ev_ref ev) ev'"
proof -
  have "returnsM (\<lambda>r. case r of AlreadyMigrated e \<Rightarrow> read_back md (ev_ref ev) e | _ \<Rightarrow> True) (prepareMigration md ev request command held)"
    unfolding prepareMigration_def
  proof (rule returns_last)
    fix ctx :: "unit + SourceContext"
    let ?Q = "\<lambda>r. case r of AlreadyMigrated e \<Rightarrow> read_back md (ev_ref ev) e | _ \<Rightarrow> True"
    have d: "returnsM ?Q (bindM (drainSource md ev request command sc p) (\<lambda>drained. case drained of
        Inl effective \<Rightarrow> retM (AlreadyMigrated effective) | Inr committed \<Rightarrow> retM (ReadyToPublish sc p committed)))" for sc p
    proof (rule returns_bind [where R = "\<lambda>x. case x of Inl e \<Rightarrow> read_back md (ev_ref ev) e | Inr _ \<Rightarrow> True"])
      show "returnsM (\<lambda>x. case x of Inl e \<Rightarrow> read_back md (ev_ref ev) e | Inr _ \<Rightarrow> True) (drainSource md ev request command sc p)"
        by (auto simp: returnsM_def split: sum.split dest: drained_read_back)
    next
      fix x :: "RecoveryEvidence + ProviderComment list"
      assume "case x of Inl e \<Rightarrow> read_back md (ev_ref ev) e | Inr _ \<Rightarrow> True"
      then show "returnsM ?Q (case x of Inl e \<Rightarrow> retM (AlreadyMigrated e) | Inr committed \<Rightarrow> retM (ReadyToPublish sc p committed))"
        by (cases x) (auto intro: returns)
    qed
    show "returnsM ?Q (case ctx of Inl _ \<Rightarrow> retM ForeignSource | Inr sc \<Rightarrow>
        bindM (case held of Some p \<Rightarrow> if mg_requestBodyHash (pp_receipt p) \<noteq> text_digest md (pc_body request)
               then failM ''Pending migration request was edited'' else retM (Some p)
          | None \<Rightarrow> newProposal md ev request command sc) (\<lambda>proposal. case proposal of None \<Rightarrow> retM NothingToMigrate
           | Some p \<Rightarrow> bindM (drainSource md ev request command sc p) (\<lambda>drained. case drained of
                 Inl effective \<Rightarrow> retM (AlreadyMigrated effective)
               | Inr committed \<Rightarrow> retM (ReadyToPublish sc p committed))))"
      by (cases ctx) (auto intro!: returns_last returns_option d intro: returns)
  qed
  then show ?thesis using assms unfolding returnsM_def by fastforce
qed

lemma reject_with_ok: "reject_with md ev request e w = (Inr h, w') \<Longrightarrow> h = Proceed ev"
  by (auto simp: reject_with_def run_iff)

lemma handleRequest_ok:
  assumes "handleRequest md ev request w = (Inr h, w')"
  shows "handled_ok md ev h"
proof (cases "migrationScope md ev request")
  case (Inl e)
  then show ?thesis using assms by (auto simp: handleRequest_def handled_ok_def dest: reject_with_ok)
next
  case (Inr x)
  obtain command ev' where x: "x = (command, ev')" by fastforce
  have sc: "rv_migration ev' = rv_migration ev \<and> rv_snapshot ev' = rv_snapshot ev"
    using Inr x by (auto simp: migrationScope_def bindR_Inr_iff ok_def fail_def dest!: scope_keeps [unfolded ok_def] split: option.split_asm)
  then have ref: "ev_ref ev' = ev_ref ev" by (simp add: ev_ref_def)
  obtain held prepared w1 w2 where pr: "prepareMigration md ev' request command held (fst w1) = (prepared, fst w2)"
    and k: "(case prepared of
            Inl e \<Rightarrow> reject_with md ev' request e
          | Inr ForeignSource \<Rightarrow> retM (Finish ev')
          | Inr NothingToMigrate \<Rightarrow> retM (Proceed ev')
          | Inr (AlreadyMigrated effective) \<Rightarrow> thenM (set_pending (ev_ref ev', pc_id request) None) (retM (Finish effective))
          | Inr (ReadyToPublish sc proposal committed) \<Rightarrow>
              thenM (set_pending (ev_ref ev', pc_id request) (Some proposal))
              (bindM (world (deliverReceipt md ev' sc proposal committed)) (\<lambda>result.
               thenM (set_pending (ev_ref ev', pc_id request) None) (retM (Finish result))))) w2 = (Inr h, w')"
    using assms Inr x unfolding handleRequest_def Let_def by (auto simp: run_iff)
  show ?thesis
  proof (cases prepared)
    case (Inl e)
    then show ?thesis using k sc by (auto simp: handled_ok_def dest: reject_with_ok)
  next
    case (Inr p)
    then show ?thesis using k sc ref pr
      by (cases p) (auto simp: handled_ok_def run_iff dest: prepared_read_back delivered_read_back)
  qed
qed

lemma processRequests_ok:
  assumes "processRequests md requests ev w = (Inr ev', w')"
  shows "(rv_migration ev' = rv_migration ev \<and> rv_snapshot ev' = rv_snapshot ev) \<or> read_back md (ev_ref ev) ev'"
  using assms
proof (induction requests arbitrary: ev w)
  case (Cons request rest)
  obtain allowed w1 where w1: "(if \<not> allowed \<or> list_ex (\<lambda>c. starts_with (pc_body c) (diagnosticOf md request)) (sn_comments (rv_snapshot ev))
     then processRequests md rest ev
     else bindM (handleRequest md ev request) (\<lambda>handled. case handled of
        Finish ev' \<Rightarrow> retM ev' | Proceed ev' \<Rightarrow> processRequests md rest ev')) w1 = (Inr ev', w')"
    using Cons.prems unfolding processRequests.simps bindM_Inr_iff by blast
  show ?case
  proof (cases "\<not> allowed \<or> list_ex (\<lambda>c. starts_with (pc_body c) (diagnosticOf md request)) (sn_comments (rv_snapshot ev))")
    case True
    then show ?thesis using w1 Cons.IH [of ev w1] by simp
  next
    case False
    obtain h w2 where h: "handleRequest md ev request w1 = (Inr h, w2)"
      "(case h of Finish ev' \<Rightarrow> retM ev' | Proceed ev' \<Rightarrow> processRequests md rest ev') w2 = (Inr ev', w')"
      using w1 False by (auto simp: run_iff)
    note ok = handleRequest_ok [OF h(1)]
    show ?thesis
    proof (cases h)
      case (Finish x)
      then show ?thesis using h(2) ok by (auto simp: run_iff handled_ok_def)
    next
      case (Proceed x)
      then have "rv_migration x = rv_migration ev" "rv_snapshot x = rv_snapshot ev" "ev_ref x = ev_ref ev"
        using ok by (auto simp: handled_ok_def ev_ref_def)
      then show ?thesis using Cons.IH [of x w2] h(2) Proceed by auto
    qed
  qed
qed (simp add: run_iff)

section \<open>Properties\<close>

text \<open>
  C19: a migration receipt is about to be published only for work that this controller owns, for the one open change
  request of the ticket, and only after these steps of the same run, in this order: the source was examined, the receipt
  of this unedited command was drafted (or is the one still held), the old agent was cancelled and found not to run any
  more, and then the ticket was read again, its migration recovered and the change request read again, and the permission
  of the author of the command. The new reading is complete and shows the same activation, labels, comments, change
  request, owner and migration boundary and no new publication; at most one of its comments already holds the receipt.
\<close>

theorem receipt_published_when_drained:
  assumes "prepareMigration md ev request command held s = (Inr (ReadyToPublish sc p committed), s')"
  shows "sourceOwner ev (mq_pr command) = ok (Some (sc_owner sc))
    \<and> pm_controller (pb_metadata (sc_owner sc)) = dp_controllerId (md_deps md)
    \<and> nc_number (sc_selected sc) = mq_pr command \<and> nc_state (sc_selected sc) = CsOpen
    \<and> (\<forall>x \<in> set (rv_changes ev). nc_state x = CsOpen \<longrightarrow> nc_number x = mq_pr command)
    \<and> mg_requestBodyHash (pp_receipt p) = text_digest md (pc_body request)
    \<and> (\<exists>s1 s2. sourceContext md ev command s = (Inr (Inr sc), s1)
         \<and> (case held of Some q \<Rightarrow> q = p \<and> s2 = s1 | None \<Rightarrow> newProposal md ev request command sc s1 = (Inr (Some p), s2))
         \<and> drained md ev request command sc (pp_body p) committed s2 s')"
proof -
  obtain s1 s2 where pr: "sourceContext md ev command s = (Inr (Inr sc), s1)" "drainSource md ev request command sc p s2 = (Inr (Inr committed), s')"
    "case held of Some q \<Rightarrow> q = p \<and> s2 = s1 \<and> mg_requestBodyHash (pp_receipt p) = text_digest md (pc_body request)
       | None \<Rightarrow> newProposal md ev request command sc s1 = (Inr (Some p), s2)"
    using prepareMigration_ok [OF assms] by blast
  note own = sourceContext_ok [OF pr(1)]
  obtain s0 where "ownedContext md ev command (sc_owner sc) s0 = (Inr sc, s1)" using own by blast
  from ownedContext_ok [OF this] obtain repository branch
    where sel: "selectedChange ev (mq_pr command) = ok (sc_selected sc, repository, branch)" by blast
  have h: "mg_requestBodyHash (pp_receipt p) = text_digest md (pc_body request)"
    using pr(3) newProposal_ok by (cases held) fastforce+
  have "case held of Some q \<Rightarrow> q = p \<and> s2 = s1 | None \<Rightarrow> newProposal md ev request command sc s1 = (Inr (Some p), s2)"
    using pr(3) by (cases held) auto
  then show ?thesis using own selectedChange_ok [OF sel] h pr(1) drainSource_ok [OF pr(2)] by blast
qed

definition migrating_change :: NormalizedChangeRequest where
  "migrating_change = sample_change \<lparr> nc_body := sample_marker \<rparr>"

definition migrating_ticket :: RecoveryEvidence where
  "migrating_ticket = sample_evidence \<lparr>
     rv_snapshot := demo_snapshot \<lparr> sn_comments := [receipt_comment ''c1'' migrate_command] \<rparr>,
     rv_publications := [migration_owner], rv_changes := [migrating_change] \<rparr>"

definition migrating_deps :: "World MigrationDeps" where
  "migrating_deps = \<lparr> md_deps = demo_deps \<lparr> dp_loadPinned := (\<lambda>sha. retM (pinned_bundle sha)),
       dp_readChangeRequest := (\<lambda>_ _. retM migrating_change) \<rparr>,
     md_env = sample_migration_env,
     md_receipt = (\<lambda>v. if json_field ''kind'' v = Some (JStr ''MigrationReceipt'') then Some sample_migration else None),
     md_kind = Github, md_resolveTarget = Some (\<lambda>_. retM target_sha), md_validateTarget = None, md_fs = (\<lambda>_. sample_fs),
     md_createComment = (\<lambda>_ body. retM (receipt_comment ''c9'' body)),
     md_readRecoveryEvidence = (\<lambda>_ _. retM migrating_ticket), md_message = (\<lambda>_. ''error'') \<rparr>"

definition migrating_request :: MigrationRequest where
  "migrating_request = \<lparr> mq_pr = 34, mq_to = ''latest'', mq_resume = None \<rparr>"

definition migrating_context :: SourceContext where
  "migrating_context = \<lparr> sc_owner = migration_owner, sc_sourcePin = sample_sha, sc_cached = Some demo_control,
     sc_source = pinned_bundle sample_sha, sc_eventId = ''e1'', sc_label = ''agent-flow:development'', sc_actor = sample_actor,
     sc_occurredAt = ''2026-01-01T00:00:00Z'', sc_selected = migrating_change, sc_headRepository = ''acme/app'',
     sc_headBranch = ''work'', sc_marker = pb_metadata migration_owner, sc_stage = ''develop'', sc_resume = None \<rparr>"

definition migrating_selection :: MigrationSelection where
  "migrating_selection = sample_selection \<lparr> sel_stage := ''develop'', sel_retain := [] \<rparr>"

definition migrating_proposal :: Proposal where
  "migrating_proposal =
    (let r = receiptOf migrating_deps migrating_ticket (receipt_comment ''c1'' migrate_command) migrating_context target_sha
               (pinned_bundle target_sha) migrating_selection [] None sample_marker
     in \<lparr> pp_receipt = r, pp_body = (case renderMigrationReceipt (md_receipt migrating_deps) r sample_uuid of Inr b \<Rightarrow> b | Inl _ \<Rightarrow> []) \<rparr>)"

lemma migrating_source: "sourceContext migrating_deps migrating_ticket migrating_request demo_world = (ok (Inr migrating_context), demo_world)"
  by code_simp

lemma migrating_new: "newProposal migrating_deps migrating_ticket (receipt_comment ''c1'' migrate_command) migrating_request migrating_context demo_world
    = (ok (Some migrating_proposal), demo_world)"
  by code_simp

lemma migrating_drained: "drainSource migrating_deps migrating_ticket (receipt_comment ''c1'' migrate_command) migrating_request migrating_context
    migrating_proposal demo_world = (ok (Inr []), demo_world)"
  by code_simp

lemma migrating_prepared:
  "prepareMigration migrating_deps migrating_ticket (receipt_comment ''c1'' migrate_command) migrating_request None demo_world
    = (Inr (ReadyToPublish migrating_context migrating_proposal []), demo_world)"
  using migrating_source migrating_new migrating_drained by (simp add: prepareMigration_def bindM_def retM_def ok_def)

theorem receipt_published_when_drained_witness:
  "prepareMigration migrating_deps migrating_ticket (receipt_comment ''c1'' migrate_command) migrating_request None demo_world
    = (Inr (ReadyToPublish migrating_context migrating_proposal []), demo_world)
   \<and> nc_state (sc_selected migrating_context) = CsOpen
   \<and> mg_requestBodyHash (pp_receipt migrating_proposal) = text_digest migrating_deps migrate_command"
  using receipt_published_when_drained [OF migrating_prepared] migrating_prepared by (simp add: receipt_comment_def)

text \<open>
  C20: processing the commands of a ticket changes its migration only to one that was recovered from the
  receipts of a new reading of the ticket, never to the proposal in memory; otherwise the snapshot is the one it was given.
\<close>

theorem migration_only_published:
  assumes "processMigration md ev w = (Inr ev', w')"
  shows "(rv_migration ev' = rv_migration ev \<and> rv_snapshot ev' = rv_snapshot ev) \<or> read_back md (ev_ref ev) ev'"
proof (cases "\<not> rv_complete ev \<or> \<not> sn_open (rv_snapshot ev) \<or> \<not> av_present (sn_activation (rv_snapshot ev))")
  case True
  then show ?thesis using assms by (auto simp: processMigration_def run_iff)
next
  case False
  then obtain requests where "processRequests md requests ev w = (Inr ev', w')"
    using assms by (auto simp: processMigration_def run_iff)
  then show ?thesis by (rule processRequests_ok)
qed

lemma gitlab_processed:
  "(case processMigration (migrating_deps \<lparr> md_kind := Gitlab \<rparr>) (migrating_ticket \<lparr> rv_snapshot := demo_snapshot \<lparr> sn_comments :=
      [receipt_comment ''c1'' migrate_command \<lparr> pc_createdAt := ''2026-01-01T00:00:09Z'' \<rparr>] \<rparr> \<rparr>) (demo_world, \<lambda>_. None) of
     (Inr ev', w') \<Rightarrow> True | _ \<Rightarrow> False)"
  by code_simp

theorem migration_only_published_witness:
  "\<exists>ev' w'. processMigration (migrating_deps \<lparr> md_kind := Gitlab \<rparr>) (migrating_ticket \<lparr> rv_snapshot := demo_snapshot \<lparr> sn_comments :=
      [receipt_comment ''c1'' migrate_command \<lparr> pc_createdAt := ''2026-01-01T00:00:09Z'' \<rparr>] \<rparr> \<rparr>) (demo_world, \<lambda>_. None) = (Inr ev', w')
   \<and> (rv_migration ev' = None \<or> read_back (migrating_deps \<lparr> md_kind := Gitlab \<rparr>) sample_ref ev')"
proof -
  let ?e = "migrating_ticket \<lparr> rv_snapshot := demo_snapshot \<lparr> sn_comments :=
      [receipt_comment ''c1'' migrate_command \<lparr> pc_createdAt := ''2026-01-01T00:00:09Z'' \<rparr>] \<rparr> \<rparr>"
  obtain ev' w' where e: "processMigration (migrating_deps \<lparr> md_kind := Gitlab \<rparr>) ?e (demo_world, \<lambda>_. None) = (Inr ev', w')"
    using gitlab_processed by (auto split: prod.split_asm sum.split_asm)
  have "rv_migration ?e = None" "ev_ref ?e = sample_ref"
    by (simp_all add: migrating_ticket_def sample_evidence_def ev_ref_def demo_snapshot_def sample_snapshot_def)
  then show ?thesis using migration_only_published [OF e] e by auto
qed

end
