(* ===== verification/ControlComment.thy ===== *)
theory ControlComment
  imports JsonRound Samples
begin

text \<open>
  src/provider/control-comment.ts: a control state in a provider comment, as canonical base64 of its JSON
  text, and the two older forms that show the JSON. The schema of a control state, with the conversion
  between JSON values and the typed state, is a parameter. Texts hold 8-bit code units: a byte sequence
  that decodes to anything else counts as not decodable.
\<close>

section \<open>UTF-8\<close>

definition utf8_char :: "char \<Rightarrow> nat list" where
  "utf8_char c = (if code c < 128 then [code c] else [192 + code c div 64, 128 + code c mod 64])"

definition utf8_encode :: "string \<Rightarrow> nat list" where
  "utf8_encode s = concat (map utf8_char s)"

fun utf8_decode :: "nat list \<Rightarrow> string option" where
  "utf8_decode [] = Some []"
| "utf8_decode (b # bs) =
    (if b < 128 then map_option (\<lambda>s. char_of b # s) (utf8_decode bs)
     else (case bs of [] \<Rightarrow> None
       | d # ds \<Rightarrow> if (b = 194 \<or> b = 195) \<and> 128 \<le> d \<and> d < 192
            then map_option (\<lambda>s. char_of (64 * (b - 192) + (d - 128)) # s) (utf8_decode ds) else None))"

section \<open>Base64\<close>

definition alphabet :: string where
  "alphabet = ''ABCDEFGHIJKLMNOPQRSTUVWXYZabcdefghijklmnopqrstuvwxyz0123456789+/''"

definition sextet_char :: "nat \<Rightarrow> char" where
  "sextet_char n = alphabet ! n"

fun position_of :: "char \<Rightarrow> string \<Rightarrow> nat option" where
  "position_of c [] = None"
| "position_of c (x # xs) = (if c = x then Some 0 else map_option Suc (position_of c xs))"

definition sextet :: "char \<Rightarrow> nat option" where
  "sextet c = position_of c alphabet"

fun base64_encode :: "nat list \<Rightarrow> string" where
  "base64_encode [] = []"
| "base64_encode [a] = [sextet_char (a div 4), sextet_char (16 * (a mod 4)), CHR ''='', CHR ''='']"
| "base64_encode [a, b] = [sextet_char (a div 4), sextet_char (16 * (a mod 4) + b div 16), sextet_char (4 * (b mod 16)), CHR ''='']"
| "base64_encode (a # b # c # rest) =
    [sextet_char (a div 4), sextet_char (16 * (a mod 4) + b div 16), sextet_char (4 * (b mod 16) + c div 64), sextet_char (c mod 64)]
    @ base64_encode rest"

text \<open>The bytes of four letters; a shorter last group gives one byte less than it has letters.\<close>

fun sextets_bytes :: "nat list \<Rightarrow> nat list" where
  "sextets_bytes (p # q # r # s # rest) = [4 * p + q div 16, 16 * (q mod 16) + r div 4, 64 * (r mod 4) + s] @ sextets_bytes rest"
| "sextets_bytes [p, q, r] = [4 * p + q div 16, 16 * (q mod 16) + r div 4]"
| "sextets_bytes [p, q] = [4 * p + q div 16]"
| "sextets_bytes _ = []"

definition base64_decode :: "string \<Rightarrow> nat list" where
  "base64_decode s = sextets_bytes (List.map_filter sextet (takeWhile (\<lambda>c. c \<noteq> CHR ''='') s))"

definition base64_text :: "string \<Rightarrow> bool" where
  "base64_text s \<longleftrightarrow> (let body = takeWhile (\<lambda>c. c \<noteq> CHR ''='') s; pad = drop (length body) s
     in body \<noteq> [] \<and> list_all (\<lambda>c. c \<in> set alphabet) body \<and> length pad \<le> 2 \<and> list_all (\<lambda>c. c = CHR ''='') pad)"

section \<open>Comments\<close>

record ControlCodec =
  cc_read :: "json \<Rightarrow> ControlState option"
  cc_write :: "ControlState \<Rightarrow> json"

definition nl :: string where "nl = [CHR 0x0A]"

definition CONTROL_MARKER :: string where "CONTROL_MARKER = ''<!-- agent-flow-control:v1''"
definition LEGACY_CONTROL_MARKER :: string where "LEGACY_CONTROL_MARKER = CONTROL_MARKER @ '' -->''"

text \<open>The text between an opening and a closing one, up to one final line break.\<close>

definition enclosed :: "string \<Rightarrow> string \<Rightarrow> string \<Rightarrow> string option" where
  "enclosed opening closing body =
    (let b = (if ends_with body nl then butlast body else body); r = drop (length opening) b in
     if starts_with b opening \<and> ends_with r closing \<and> length r > length closing
     then Some (take (length r - length closing) r) else None)"

definition hidden_payload :: "string \<Rightarrow> string option" where
  "hidden_payload body = (case enclosed (CONTROL_MARKER @ nl) (nl @ ''-->'') body of
     Some p \<Rightarrow> if base64_text p then Some p else None | None \<Rightarrow> None)"

definition json_open :: string where "json_open = [CHR ''`'', CHR ''`'', CHR ''`''] @ ''json'' @ nl"
definition json_close :: string where "json_close = nl @ [CHR ''`'', CHR ''`'', CHR ''`'']"

definition legacy_payload :: "string \<Rightarrow> string option" where
  "legacy_payload body = enclosed (LEGACY_CONTROL_MARKER @ nl @ json_open) json_close body"

text \<open>The collapsed form names the state in its summary.\<close>

definition collapsed_payload :: "string \<Rightarrow> (string \<times> string) option" where
  "collapsed_payload body =
    (let opening = LEGACY_CONTROL_MARKER @ nl @ ''<details>'' @ nl @ ''<summary>Agent Flow '' @ [CHR 0xB7] @ '' '';
         rest = drop (length opening) body;
         summary = takeWhile (\<lambda>c. c \<noteq> CHR ''<'' \<and> c \<noteq> CHR 0x0A) rest
     in if \<not> starts_with body opening \<or> summary = [] then None
        else map_option (Pair summary) (enclosed (''</summary>'' @ nl @ nl @ json_open) (json_close @ nl @ nl @ ''</details>'')
               (drop (length summary) rest)))"

definition decodedPayload :: "string \<Rightarrow> string option" where
  "decodedPayload p = (case utf8_decode (base64_decode p) of
     Some json \<Rightarrow> if base64_encode (utf8_encode json) = p then Some json else None | None \<Rightarrow> None)"

definition parseControlComment :: "ControlCodec \<Rightarrow> string \<Rightarrow> ControlState option res" where
  "parseControlComment cc body =
    (let first = takeWhile (\<lambda>c. c \<noteq> CHR 0x0A) body; hidden = (first = CONTROL_MARKER) in
     if first \<noteq> CONTROL_MARKER \<and> first \<noteq> LEGACY_CONTROL_MARKER then ok None
     else
      (let collapsed = collapsed_payload body;
           payload = (if hidden then hidden_payload body else legacy_payload body) in
       bindR (checkR (payload = None \<and> collapsed = None) ''invalid control comment format'') (\<lambda>_.
       (case (if hidden then Option.bind payload decodedPayload
              else (case collapsed of Some (_, js) \<Rightarrow> Some js | None \<Rightarrow> payload)) of
          None \<Rightarrow> fail ''invalid control comment JSON''
        | Some js \<Rightarrow>
           (case json_parse js of None \<Rightarrow> fail ''invalid control comment JSON''
            | Some v \<Rightarrow>
               (case cc_read cc v of None \<Rightarrow> fail ''ControlState validation failed''
                | Some c \<Rightarrow>
                   bindR (checkR (opt_is (\<lambda>(summary, _). summary \<noteq> cs_stateId c) collapsed)
                     ''invalid control comment summary'') (\<lambda>_. ok (Some c))))))))"

definition renderControlComment :: "ControlCodec \<Rightarrow> ControlState \<Rightarrow> string res" where
  "renderControlComment cc c =
    (if cc_read cc (cc_write cc c) = None then fail ''ControlState validation failed''
     else ok (CONTROL_MARKER @ nl @ base64_encode (utf8_encode (json_print (cc_write cc c))) @ nl @ ''-->'' @ nl))"

definition parseExpectedControlComment :: "ControlCodec \<Rightarrow> string \<Rightarrow> ControlState \<Rightarrow> ControlState option res" where
  "parseExpectedControlComment cc body expected =
    bindR (renderControlComment cc expected) (\<lambda>canonicalBody.
     if body \<noteq> canonicalBody \<and> body \<noteq> butlast canonicalBody then ok None
     else bindR (parseControlComment cc body) (\<lambda>parsed. ok (if parsed = Some expected then parsed else None)))"

fun listControls :: "ControlCodec \<Rightarrow> string list \<Rightarrow> (string \<times> string) list \<Rightarrow> ((string \<times> string) \<times> ControlState) list res" where
  "listControls cc flowIds [] = ok []"
| "listControls cc flowIds (c # cs) =
    bindR (parseControlComment cc (snd c)) (\<lambda>parsed. case parsed of None \<Rightarrow> listControls cc flowIds cs
     | Some state \<Rightarrow>
        bindR (checkR (cs_flowInstanceId state \<in> set flowIds) (''duplicate control comment for flow '' @ cs_flowInstanceId state)) (\<lambda>_.
        bindR (listControls cc (cs_flowInstanceId state # flowIds) cs) (\<lambda>rest. ok ((c, state) # rest))))"

definition listControlComments :: "ControlCodec \<Rightarrow> (string \<times> string) list \<Rightarrow> ((string \<times> string) \<times> ControlState) list res" where
  "listControlComments cc comments = listControls cc [] comments"

definition selectActiveControlComment ::
  "((string \<times> string) \<times> ControlState) list \<Rightarrow> string list \<Rightarrow> ((string \<times> string) \<times> ControlState) option res" where
  "selectActiveControlComment comments finalStates =
    (case filter (\<lambda>(c, state). cs_stateId state \<notin> set finalStates) comments of
       [] \<Rightarrow> ok None | [x] \<Rightarrow> ok (Some x) | _ \<Rightarrow> fail ''multiple active control comments'')"

section \<open>Round trips\<close>

lemma utf8_decode_pair:
  assumes "k = 2 \<or> k = 3" "m < 64"
  shows "utf8_decode ((192 + k) # (128 + m) # bs) = map_option (\<lambda>s. char_of (64 * k + m) # s) (utf8_decode bs)"
  using assms(1)
proof (rule disjE)
  assume "k = 2"
  then show ?thesis using assms(2) by simp
next
  assume "k = 3"
  then show ?thesis using assms(2) by simp
qed

lemma utf8_roundtrip: "utf8_decode (utf8_encode s) = Some s"
proof (induction s)
  case (Cons c s)
  define k where "k = code c div 64"
  define m where "m = code c mod 64"
  have c: "char_of (code c) = c" "64 * k + m = code c" by (simp_all add: code_def k_def m_def)
  show ?case
  proof (cases "code c < 128")
    case True
    then show ?thesis using Cons c(1) by (simp add: utf8_encode_def utf8_char_def)
  next
    case False
    have m: "m < 64" by (simp add: m_def)
    then have "k = 2 \<or> k = 3" using False code_less [of c] c(2) by presburger
    moreover have "utf8_encode (c # s) = (192 + k) # (128 + m) # utf8_encode s"
      using False by (simp add: utf8_encode_def utf8_char_def k_def m_def)
    ultimately show ?thesis using Cons c m utf8_decode_pair [of k m "utf8_encode s"] by (simp del: utf8_decode.simps)
  qed
qed (simp add: utf8_encode_def)

lemma utf8_bytes: "b \<in> set (utf8_encode s) \<Longrightarrow> b < 256"
proof -
  assume "b \<in> set (utf8_encode s)"
  then obtain c where "b \<in> set (utf8_char c)" by (auto simp: utf8_encode_def)
  moreover have "code c div 64 < 4" using code_less [of c] by (simp add: less_mult_imp_div_less)
  moreover have "code c mod 64 < 64" by simp
  ultimately show ?thesis using code_less [of c] by (auto simp: utf8_char_def split: if_split_asm)
qed

lemma position_nth: "distinct xs \<Longrightarrow> n < length xs \<Longrightarrow> position_of (xs ! n) xs = Some n"
proof (induction xs arbitrary: n)
  case (Cons x xs)
  then show ?case by (cases n) (auto simp: in_set_conv_nth)
qed simp

lemma alphabet_facts: "distinct alphabet" "length alphabet = 64" "CHR ''='' \<notin> set alphabet" "CHR 0x0A \<notin> set alphabet"
  by code_simp+

lemma sextet_roundtrip [simp]: "n < 64 \<Longrightarrow> sextet (sextet_char n) = Some n"
  using position_nth [OF alphabet_facts(1)] alphabet_facts(2) by (simp add: sextet_def sextet_char_def)

lemma sextet_char_in: "n < 64 \<Longrightarrow> sextet_char n \<in> set alphabet"
  using alphabet_facts(2) by (simp add: sextet_char_def)

lemma sextet_char_ne [simp]: "n < 64 \<Longrightarrow> sextet_char n \<noteq> CHR ''=''" "n < 64 \<Longrightarrow> sextet_char n \<noteq> CHR 0x0A"
  using sextet_char_in [of n] alphabet_facts(3,4) by metis+

lemma byte_parts:
  assumes "(a::nat) < 256"
  shows "a div 4 < 64" "16 * (a mod 4) < 64" "4 * (a mod 16) < 64" "a mod 64 < 64"
proof -
  show "a div 4 < 64" using assms by (simp add: less_mult_imp_div_less)
  have "a mod 4 < 4" "a mod 16 < 16" by simp_all
  then show "16 * (a mod 4) < 64" "4 * (a mod 16) < 64" by linarith+
qed simp

lemma sextet_join:
  assumes "(b::nat) < 256"
  shows "16 * (a mod 4) + b div 16 < 64" "4 * (a mod 16) + b div 64 < 64"
proof -
  have "b div 16 < 16" "b div 64 < 4" using assms by (simp_all add: less_mult_imp_div_less)
  moreover have "a mod 4 < 4" "a mod 16 < 16" by simp_all
  ultimately show "16 * (a mod 4) + b div 16 < 64" "4 * (a mod 16) + b div 64 < 64" by linarith+
qed

lemma div_mod_join: "(y::nat) < k \<Longrightarrow> (k * x + y) div k = x" "(y::nat) < k \<Longrightarrow> (k * x + y) mod k = y"
  by simp_all

lemma sextets_back:
  assumes "(b::nat) < 256" "c < 256"
  shows "4 * (a div 4) + (16 * (a mod 4) + b div 16) div 16 = a"
    "16 * ((16 * (a mod 4) + b div 16) mod 16) + (4 * (b mod 16) + c div 64) div 4 = b"
    "64 * ((4 * (b mod 16) + c div 64) mod 4) + c mod 64 = c"
    "4 * (a div 4) + (16 * (a mod 4)) div 16 = a"
    "16 * ((16 * (a mod 4) + b div 16) mod 16) + (4 * (b mod 16)) div 4 = b"
proof -
  have b: "b div 16 < 16" and c: "c div 64 < 4" using assms by (simp_all add: less_mult_imp_div_less)
  show "4 * (a div 4) + (16 * (a mod 4) + b div 16) div 16 = a" "4 * (a div 4) + (16 * (a mod 4)) div 16 = a"
    unfolding div_mod_join [OF b] by simp_all
  show "16 * ((16 * (a mod 4) + b div 16) mod 16) + (4 * (b mod 16) + c div 64) div 4 = b"
    "16 * ((16 * (a mod 4) + b div 16) mod 16) + (4 * (b mod 16)) div 4 = b"
    unfolding div_mod_join [OF b] div_mod_join [OF c] by simp_all
  show "64 * ((4 * (b mod 16) + c div 64) mod 4) + c mod 64 = c" unfolding div_mod_join [OF c] by simp
qed

lemma base64_roundtrip: "(\<forall>b \<in> set bs. b < 256) \<Longrightarrow> base64_decode (base64_encode bs) = bs"
proof (induction bs rule: base64_encode.induct)
  case (2 a)
  then show ?case using byte_parts [of a] sextets_back(4) [where a = a and b = 0 and c = 0]
    by (simp add: base64_decode_def List.map_filter_def)
next
  case (3 a b)
  then show ?case using byte_parts [of a] byte_parts [of b] sextet_join [of b a] sextets_back(1,4,5) [where a = a and b = b and c = 0]
    by (simp add: base64_decode_def List.map_filter_def)
next
  case (4 a b c rest)
  then show ?case using byte_parts [of a] byte_parts [of b] byte_parts [of c] sextet_join [of b a] sextet_join [of c b] sextets_back(1,2) [where a = a and b = b and c = c] sextets_back(3) [where b = b and c = c]
    by (simp add: base64_decode_def List.map_filter_def)
qed (simp add: base64_decode_def List.map_filter_def)

lemma base64_encode_text:
  assumes "\<forall>b \<in> set bs. b < 256"
  shows "\<exists>body pad. base64_encode bs = body @ pad \<and> set body \<subseteq> set alphabet \<and> (bs \<noteq> [] \<longrightarrow> body \<noteq> [])
    \<and> length pad \<le> 2 \<and> set pad \<subseteq> {CHR ''=''}"
  using assms
proof (induction bs rule: base64_encode.induct)
  case 1
  then show ?case by (intro exI [of _ "[]"]) simp
next
  case (2 a)
  then show ?case using byte_parts [of a]
    by (intro exI [of _ "[sextet_char (a div 4), sextet_char (16 * (a mod 4))]"] exI [of _ "''==''"]) (simp add: sextet_char_in)
next
  case (3 a b)
  then show ?case using byte_parts [of a] byte_parts [of b] sextet_join [of b a]
    by (intro exI [of _ "[sextet_char (a div 4), sextet_char (16 * (a mod 4) + b div 16), sextet_char (4 * (b mod 16))]"]
        exI [of _ "''=''"]) (simp add: sextet_char_in)
next
  case (4 a b c rest)
  then obtain body pad where b: "base64_encode rest = body @ pad" "set body \<subseteq> set alphabet" "length pad \<le> 2" "set pad \<subseteq> {CHR ''=''}"
    by auto
  let ?h = "[sextet_char (a div 4), sextet_char (16 * (a mod 4) + b div 16), sextet_char (4 * (b mod 16) + c div 64), sextet_char (c mod 64)]"
  have "set ?h \<subseteq> set alphabet"
    using 4 byte_parts [of a] byte_parts [of c] sextet_join [of b a] sextet_join [of c b] by (simp add: sextet_char_in)
  then show ?case using b by (intro exI [of _ "?h @ body"] exI [of _ pad]) auto
qed

lemma takeWhile_prefix: "set xs \<subseteq> {x. P x} \<Longrightarrow> ys = [] \<or> \<not> P (hd ys) \<Longrightarrow> takeWhile P (xs @ ys) = xs"
  by (induction xs) (cases ys, auto)

lemma base64_text_encode:
  assumes "\<forall>b \<in> set bs. b < 256" "bs \<noteq> []"
  shows "base64_text (base64_encode bs)" "CHR 0x0A \<notin> set (base64_encode bs)"
proof -
  obtain body pad where b: "base64_encode bs = body @ pad" "set body \<subseteq> set alphabet" "body \<noteq> []" "length pad \<le> 2"
    "set pad \<subseteq> {CHR ''=''}" using base64_encode_text [OF assms(1)] assms(2) by blast
  have t: "takeWhile (\<lambda>c. c \<noteq> CHR ''='') (body @ pad) = body"
    using b alphabet_facts(3) by (intro takeWhile_prefix) (auto, cases pad, auto)
  then show "base64_text (base64_encode bs)" unfolding base64_text_def b(1) Let_def t using b by (auto simp: list_all_iff)
  show "CHR 0x0A \<notin> set (base64_encode bs)" using b alphabet_facts(4) by auto
qed

lemma takeWhile_first_line: "CHR 0x0A \<notin> set l \<Longrightarrow> takeWhile (\<lambda>c. c \<noteq> CHR 0x0A) (l @ CHR 0x0A # r) = l"
  by (intro takeWhile_prefix) auto

lemma ends_with_append: "ends_with (t @ p) p"
  by (simp add: ends_with_def)

lemma no_final_nl: "c \<noteq> [] \<Longrightarrow> last c \<noteq> CHR 0x0A \<Longrightarrow> \<not> ends_with (t @ c) nl"
  by (cases c rule: rev_cases) (auto simp: ends_with_def nl_def)

lemma enclosed_middle:
  assumes "m \<noteq> []" "closing \<noteq> []" "last closing \<noteq> CHR 0x0A"
  shows "enclosed opening closing (opening @ m @ closing @ nl) = Some m" "enclosed opening closing (opening @ m @ closing) = Some m"
proof -
  have e: "ends_with (opening @ m @ closing @ nl) nl" "\<not> ends_with (opening @ m @ closing) nl"
    using ends_with_append [of "opening @ m @ closing" nl] no_final_nl [OF assms(2,3), of "opening @ m"] by simp_all
  have b: "butlast (opening @ m @ closing @ nl) = opening @ m @ closing" by (simp add: nl_def butlast_append)
  have d: "starts_with (opening @ m @ closing) opening" "drop (length opening) (opening @ m @ closing) = m @ closing"
    "ends_with (m @ closing) closing" "take (length (m @ closing) - length closing) (m @ closing) = m"
    "length (m @ closing) > length closing" using assms(1) by (simp_all add: ends_with_append)
  show "enclosed opening closing (opening @ m @ closing @ nl) = Some m" "enclosed opening closing (opening @ m @ closing) = Some m"
    unfolding enclosed_def Let_def b using e d by simp_all
qed

text \<open>
  C21: a rendered control comment is read back as the control state it holds, whatever texts the state carries.
\<close>

theorem control_comment_roundtrip:
  assumes "renderControlComment cc c = ok body" "cc_read cc (cc_write cc c) = Some c" "printable (cc_write cc c)"
  shows "parseControlComment cc body = ok (Some c)"
proof -
  let ?js = "json_print (cc_write cc c)"
  let ?p = "base64_encode (utf8_encode ?js)"
  have body: "body = (CONTROL_MARKER @ nl) @ ?p @ (nl @ ''-->'') @ nl"
    using assms(1) by (simp add: renderControlComment_def split: if_split_asm)
  obtain x t where "json_text (\<lambda>s. s) (cc_write cc c) = x # t" using verbatim.json_text_opener [OF assms(3)] by blast
  then have ne: "utf8_encode ?js \<noteq> []" by (simp add: json_text_def utf8_encode_def utf8_char_def)
  have bytes: "\<forall>b \<in> set (utf8_encode ?js). b < 256" using utf8_bytes by blast
  note p = base64_text_encode [OF bytes ne]
  have pne: "?p \<noteq> []" using p(1) by (auto simp: base64_text_def Let_def)
  have first: "takeWhile (\<lambda>c. c \<noteq> CHR 0x0A) body = CONTROL_MARKER"
    unfolding body nl_def using takeWhile_first_line [of CONTROL_MARKER] by (simp add: CONTROL_MARKER_def)
  have "enclosed (CONTROL_MARKER @ nl) (nl @ ''-->'') body = Some ?p"
    unfolding body by (rule enclosed_middle(1)) (use pne in simp_all)
  then have hidden: "hidden_payload body = Some ?p" using p(1) by (simp add: hidden_payload_def)
  have "collapsed_payload body = None"
    unfolding body collapsed_payload_def Let_def LEGACY_CONTROL_MARKER_def by (simp add: CONTROL_MARKER_def nl_def)
  moreover have "decodedPayload ?p = Some ?js"
    by (simp add: decodedPayload_def base64_roundtrip [OF bytes] utf8_roundtrip)
  moreover have "json_parse ?js = Some (cc_write cc c)" by (rule verbatim.json_parse_text [OF assms(3)])
  ultimately show ?thesis using first hidden assms(2) by (simp add: parseControlComment_def Let_def)
qed

definition sample_codec :: ControlCodec where
  "sample_codec = \<lparr> cc_read = (\<lambda>v. if v = JObj [(''kind'', JStr ''ControlState''), (''sequence'', JInt 0)] then Some sample_control else None),
     cc_write = (\<lambda>c. JObj [(''kind'', JStr ''ControlState''), (''sequence'', JInt (cs_sequence c))]) \<rparr>"

lemma sample_codec_reads: "cc_read sample_codec (cc_write sample_codec sample_control) = Some sample_control"
  "printable (cc_write sample_codec sample_control)"
  by (simp_all add: sample_codec_def sample_control_def)

theorem control_comment_roundtrip_witness:
  "\<exists>body. renderControlComment sample_codec sample_control = ok body \<and> parseControlComment sample_codec body = ok (Some sample_control)"
proof -
  obtain body where b: "renderControlComment sample_codec sample_control = ok body"
    by (simp add: renderControlComment_def sample_codec_reads)
  show ?thesis using control_comment_roundtrip [OF b sample_codec_reads] b by blast
qed

end
