(* ===== verification/ProviderWriter.thy ===== *)
theory ProviderWriter
  imports ControlComment ControlState
begin

text \<open>
  The control writer of src/runtime/control-state.ts that keeps the control state in a comment of the
  ticket. Writes on one ticket are queued, each starts when the one before has settled, so a write is one
  operation on the world here. The provider adapter is a parameter.
\<close>

record 's CommentAccess =
  ca_codec :: ControlCodec
  ca_readTicket :: "TicketRef \<Rightarrow> ('s, ProviderTicketSnapshot) io"
  ca_updateComment :: "TicketRef \<Rightarrow> string \<Rightarrow> string \<Rightarrow> ('s, ProviderComment) io"
  ca_readComment :: "TicketRef \<Rightarrow> string \<Rightarrow> ('s, ProviderComment) io"

definition comment_bodies :: "ProviderComment list \<Rightarrow> (string \<times> string) list" where
  "comment_bodies cs = map (\<lambda>c. (pc_id c, pc_body c)) cs"

text \<open>The one control comment of the flow instance, when it is still the expected one.\<close>

definition expectedComment ::
  "ControlCodec \<Rightarrow> ProviderTicketSnapshot \<Rightarrow> ControlState \<Rightarrow> string res" where
  "expectedComment cc sn expected =
    bindR (listControlComments cc (comment_bodies (sn_comments sn))) (\<lambda>listed.
      (case filter (\<lambda>x. cs_flowInstanceId (snd x) = cs_flowInstanceId expected) listed of
         [x] \<Rightarrow> if cs_sequence (snd x) \<noteq> cs_sequence expected
            then fail ''control state compare-and-swap conflict'' else ok (fst (fst x))
       | _ \<Rightarrow> fail ''control state compare-and-swap conflict''))"

definition isExpected :: "ControlCodec \<Rightarrow> ProviderComment \<Rightarrow> string \<Rightarrow> ControlState \<Rightarrow> ControlState option res" where
  "isExpected cc c i expected =
    (if pc_id c \<noteq> i then ok None else parseExpectedControlComment cc (pc_body c) expected)"

definition provider_writer ::
  "'s CommentAccess \<Rightarrow> TicketRef \<Rightarrow> ControlState option \<Rightarrow> ControlState \<Rightarrow> ('s, ControlState) io" where
  "provider_writer a ref expected n =
    (case expected of None \<Rightarrow> failM ''provider control creation is not supported by the writer''
     | Some e \<Rightarrow>
        thenM (checkM (cs_flowInstanceId n \<noteq> cs_flowInstanceId e \<or> cs_sequence n \<noteq> cs_sequence e + 1)
          ''invalid control state update'')
       (bindM (ca_readTicket a ref) (\<lambda>sn.
        bindM (liftR (expectedComment (ca_codec a) sn e)) (\<lambda>i.
        bindM (liftR (renderControlComment (ca_codec a) n)) (\<lambda>body.
        bindM (ca_updateComment a ref i body) (\<lambda>updated.
        bindM (liftR (isExpected (ca_codec a) updated i n)) (\<lambda>u.
        thenM (checkM (u = None) ''control state update mismatch'')
       (bindM (ca_readComment a ref i) (\<lambda>readback.
        bindM (liftR (parseExpectedControlComment (ca_codec a) (pc_body readback) n)) (\<lambda>parsed.
        (case parsed of None \<Rightarrow> failM ''control state readback mismatch''
         | Some p \<Rightarrow> if pc_id readback \<noteq> i then failM ''control state readback mismatch'' else retM p)))))))))))"

section \<open>Listed control comments\<close>

lemma listControls_ok:
  assumes "listControls cc ids cs = ok listed"
  shows "(\<forall>(c, state) \<in> set listed. c \<in> set cs \<and> parseControlComment cc (snd c) = ok (Some state) \<and> cs_flowInstanceId state \<notin> set ids)
    \<and> distinct (map (cs_flowInstanceId \<circ> snd) listed)
    \<and> (\<forall>c \<in> set cs. \<forall>state. parseControlComment cc (snd c) = ok (Some state) \<longrightarrow> (c, state) \<in> set listed)"
  using assms
proof (induction cs arbitrary: ids listed)
  case (Cons c cs)
  obtain p where p: "parseControlComment cc (snd c) = ok p" using Cons.prems by auto
  show ?case
  proof (cases p)
    case None
    then show ?thesis using Cons.IH [of ids listed] Cons.prems p by auto
  next
    case (Some state)
    then obtain rest where rest: "listControls cc (cs_flowInstanceId state # ids) cs = ok rest"
      "listed = (c, state) # rest" "cs_flowInstanceId state \<notin> set ids" using Cons.prems p by auto
    show ?thesis using Cons.IH [OF rest(1)] p Some rest(2,3) by fastforce
  qed
qed simp

text \<open>On this ticket, this comment alone holds the control state of the flow instance, at its sequence number.\<close>

definition sole_control :: "ControlCodec \<Rightarrow> ProviderTicketSnapshot \<Rightarrow> ControlState \<Rightarrow> string \<Rightarrow> bool" where
  "sole_control cc sn e i \<longleftrightarrow>
    (\<exists>c \<in> set (sn_comments sn). \<exists>state. pc_id c = i \<and> parseControlComment cc (pc_body c) = ok (Some state) \<and>
       cs_flowInstanceId state = cs_flowInstanceId e \<and> cs_sequence state = cs_sequence e) \<and>
    (\<forall>c \<in> set (sn_comments sn). \<forall>state. parseControlComment cc (pc_body c) = ok (Some state) \<and>
       cs_flowInstanceId state = cs_flowInstanceId e \<longrightarrow> pc_id c = i)"

lemma singleton_filter: "filter P xs = [x] \<Longrightarrow> x \<in> set xs \<and> P x \<and> (\<forall>y \<in> set xs. P y \<longrightarrow> y = x)"
proof -
  assume "filter P xs = [x]"
  from arg_cong [OF this, of set] have eq: "{y \<in> set xs. P y} = {x}" by simp
  then show ?thesis by blast
qed

lemma expectedComment_ok:
  assumes "expectedComment cc sn e = ok i"
  shows "sole_control cc sn e i"
proof -
  let ?P = "\<lambda>x :: (string \<times> string) \<times> ControlState. cs_flowInstanceId (snd x) = cs_flowInstanceId e"
  obtain listed where l: "listControls cc [] (comment_bodies (sn_comments sn)) = ok listed"
    and f: "(case filter ?P listed of [x] \<Rightarrow> if cs_sequence (snd x) \<noteq> cs_sequence e
            then fail ''control state compare-and-swap conflict'' else ok (fst (fst x))
       | _ \<Rightarrow> fail ''control state compare-and-swap conflict'') = ok i"
    using assms unfolding expectedComment_def listControlComments_def bindR_ok_iff by blast
  obtain x where x: "filter ?P listed = [x]" "cs_sequence (snd x) = cs_sequence e" "fst (fst x) = i"
    using f by (cases "filter ?P listed" rule: remdups_adj.cases) (simp_all split: if_split_asm)
  note sf = singleton_filter [OF x(1)] and lo = listControls_ok [OF l]
  have "fst x \<in> set (comment_bodies (sn_comments sn)) \<and> parseControlComment cc (snd (fst x)) = ok (Some (snd x))"
    using conjunct1 [OF lo] sf by (cases x) fastforce
  then obtain c where c: "c \<in> set (sn_comments sn)" "fst x = (pc_id c, pc_body c)" "parseControlComment cc (pc_body c) = ok (Some (snd x))"
    by (auto simp: comment_bodies_def)
  have i: "pc_id c = i" using c(2) x(3) by simp
  have "pc_id c' = i" if c': "c' \<in> set (sn_comments sn)" "parseControlComment cc (pc_body c') = ok (Some s')"
    "cs_flowInstanceId s' = cs_flowInstanceId e" for c' s'
  proof -
    have "(pc_id c', pc_body c') \<in> set (comment_bodies (sn_comments sn))" using c' by (simp add: comment_bodies_def)
    then have "((pc_id c', pc_body c'), s') \<in> set listed" using conjunct2 [OF conjunct2 [OF lo]] c'(2) by simp
    then have "((pc_id c', pc_body c'), s') = x" using sf c'(3) by simp
    then show ?thesis using x(3) by auto
  qed
  then show ?thesis using c(1,3) i sf x(2) unfolding sole_control_def by blast
qed

lemma parseExpected_ok:
  assumes "parseExpectedControlComment cc body expected = ok (Some c)"
  shows "c = expected \<and> parseControlComment cc body = ok (Some expected)"
  using assms unfolding parseExpectedControlComment_def by (auto split: if_split_asm)

lemma isExpected_ok: "isExpected cc c i n = ok (Some u) \<Longrightarrow> pc_id c = i \<and> parseControlComment cc (pc_body c) = ok (Some n)"
  using parseExpected_ok by (auto simp: isExpected_def split: if_split_asm)

lemma provider_writer_ok:
  assumes "provider_writer a ref expected n s = (Inr c, s')"
  obtains e sn s1 i body updated s2 u readback where
    "expected = Some e" "cs_flowInstanceId n = cs_flowInstanceId e" "cs_sequence n = cs_sequence e + 1"
    "ca_readTicket a ref s = (Inr sn, s1)" "expectedComment (ca_codec a) sn e = Inr i"
    "renderControlComment (ca_codec a) n = Inr body" "ca_updateComment a ref i body s1 = (Inr updated, s2)"
    "isExpected (ca_codec a) updated i n = Inr (Some u)" "ca_readComment a ref i s2 = (Inr readback, s')"
    "parseExpectedControlComment (ca_codec a) (pc_body readback) n = Inr (Some c)" "pc_id readback = i"
proof (cases expected)
  case None
  then show ?thesis using assms by (simp add: provider_writer_def run_iff)
next
  case (Some e)
  show ?thesis using assms unfolding provider_writer_def Some option.case thenM_Inr_iff bindM_Inr_iff check_iff lift_iff
  proof (elim exE conjE, goal_cases)
    case (1 x1 s0 sn s1 i s1' body s1'' updated s2 u s2' x2 s2'' readback s3 parsed s3')
    obtain u' where u: "u = Some u'" using 1 by auto
    obtain p where p: "parsed = Some p" "pc_id readback = i" "p = c" "s3' = s'"
      using 1 by (cases parsed) (auto simp: run_iff split: if_split_asm)
    show ?case by (rule that) (use 1 u p Some in simp_all)
  qed
qed

text \<open>
  a write to a control comment succeeds only as a compare-and-swap that was confirmed: the ticket as it
  was read had exactly one control comment of the flow instance, with the expected sequence number, the state that
  was sent is the next one of that history, and both the reply and a later reading of that comment hold exactly
  this state.
\<close>

theorem provider_write_cas:
  assumes "provider_writer a ref expected n s = (Inr c, s')"
  shows "c = n \<and> (\<exists>e sn s1 i body updated s2 readback. expected = Some e \<and>
    cs_flowInstanceId n = cs_flowInstanceId e \<and> cs_sequence n = cs_sequence e + 1 \<and>
    ca_readTicket a ref s = (Inr sn, s1) \<and> sole_control (ca_codec a) sn e i \<and>
    renderControlComment (ca_codec a) n = ok body \<and>
    ca_updateComment a ref i body s1 = (Inr updated, s2) \<and> pc_id updated = i \<and>
    parseControlComment (ca_codec a) (pc_body updated) = ok (Some n) \<and>
    ca_readComment a ref i s2 = (Inr readback, s') \<and> pc_id readback = i \<and>
    parseControlComment (ca_codec a) (pc_body readback) = ok (Some n))"
  using assms
proof (rule provider_writer_ok)
  fix e sn s1 i body updated s2 u readback
  assume w: "expected = Some e" "cs_flowInstanceId n = cs_flowInstanceId e" "cs_sequence n = cs_sequence e + 1"
    "ca_readTicket a ref s = (Inr sn, s1)" "expectedComment (ca_codec a) sn e = Inr i"
    "renderControlComment (ca_codec a) n = Inr body" "ca_updateComment a ref i body s1 = (Inr updated, s2)"
    "isExpected (ca_codec a) updated i n = Inr (Some u)" "ca_readComment a ref i s2 = (Inr readback, s')"
    "parseExpectedControlComment (ca_codec a) (pc_body readback) n = Inr (Some c)" "pc_id readback = i"
  show ?thesis
    using w(1-4,6,7,9,11) expectedComment_ok [OF w(5) [folded ok_def]] isExpected_ok [OF w(8) [folded ok_def]]
      parseExpected_ok [OF w(10) [folded ok_def]] unfolding ok_def by blast
qed

text \<open>A ticket with one control comment, whose text is the world.\<close>

definition pair_codec :: ControlCodec where
  "pair_codec = \<lparr> cc_read = (\<lambda>v. if v = JObj [(''sequence'', JInt 0)] then Some sample_control
        else if v = JObj [(''sequence'', JInt 1)] then Some second_control else None),
     cc_write = (\<lambda>c. JObj [(''sequence'', JInt (cs_sequence c))]) \<rparr>"

definition held_comment :: "string \<Rightarrow> ProviderComment" where
  "held_comment body = \<lparr> pc_id = ''9'', pc_url = ''u9'', pc_body = body, pc_actor = sample_actor,
     pc_createdAt = ''2026-01-01T00:00:00Z'', pc_updatedAt = ''2026-01-01T00:00:00Z'' \<rparr>"

definition demo_access :: "string CommentAccess" where
  "demo_access = \<lparr> ca_codec = pair_codec,
     ca_readTicket = (\<lambda>_ body. (ok (sample_snapshot \<lparr> sn_comments := [held_comment body] \<rparr>), body)),
     ca_updateComment = (\<lambda>_ _ new _. (ok (held_comment new), new)),
     ca_readComment = (\<lambda>_ _ body. (ok (held_comment body), body)) \<rparr>"

definition first_body :: string where
  "first_body = (case renderControlComment pair_codec sample_control of Inr b \<Rightarrow> b | Inl _ \<Rightarrow> [])"

theorem provider_write_cas_witness:
  "\<exists>body. renderControlComment pair_codec second_control = ok body \<and>
     sole_control pair_codec (sample_snapshot \<lparr> sn_comments := [held_comment first_body] \<rparr>) sample_control ''9'' \<and>
     parseControlComment pair_codec body = ok (Some second_control)"
proof -
  have "fst (provider_writer demo_access sample_ref (Some sample_control) second_control first_body) = ok second_control"
    by code_simp
  then obtain s' where r: "provider_writer demo_access sample_ref (Some sample_control) second_control first_body = (Inr second_control, s')"
    by (metis ok_def prod.collapse)
  show ?thesis using provider_write_cas [OF r] by (auto simp: demo_access_def held_comment_def)
qed

end
