(* ===== verification/ReconcileTicket.thy ===== *)
theory ReconcileTicket
  imports ReconcileLocal MigrationProcess ProviderWriter
begin

text \<open>
  reconcileTicket of src/runtime/reconcile.ts, the entry point of every poll: the recovery evidence of the
  ticket, its migrations, the classification, and then one of three ways: the local store
  (reconcileLocal), a control state in the comments of the ticket, or the recovery mode without a store
  that only records its decision. With activate, cancel, loadControls and createControl of the comment way, and
  validateBundleDocument of src/config/load.ts.
\<close>

section \<open>Dependencies\<close>

text \<open>
  Beside the dependencies of the other ways: whether a controller identity is configured and whether the control
  writer is the one of the local store (load and recordRecovery are present on that writer only).
\<close>

record 's TicketDeps =
  tk_migration :: "'s MigrationDeps"
  tk_codec :: ControlCodec
  tk_readTicket :: "TicketRef \<Rightarrow> ('s, ProviderTicketSnapshot) io"
  tk_identity :: bool
  tk_localWriter :: bool
  tk_recordRecovery :: "(TicketRef \<Rightarrow> RecoveryEvidence \<Rightarrow> RecoveryDecision \<Rightarrow> ('s, unit) io) option"
  tk_pinnedSchema :: "ConfigBundle \<Rightarrow> ControlState \<Rightarrow> bool"

definition tk_deps :: "'s TicketDeps \<Rightarrow> 's Deps" where
  "tk_deps t = md_deps (tk_migration t)"

record LoadedControl =
  lc_comment :: string
  lc_state :: ControlState
  lc_bundle :: ConfigBundle
  lc_terminal :: bool

text \<open>toSorted by localeCompare, the latest first; equal times keep their order.\<close>

definition latest_first :: "'s TicketDeps \<Rightarrow> ('a \<Rightarrow> string) \<Rightarrow> 'a list \<Rightarrow> 'a list" where
  "latest_first t time xs = rev (sort_key (\<lambda>x. dp_collate (tk_deps t) (time x)) (rev xs))"

section \<open>Control comments\<close>

definition validateBundleDocument :: "'s TicketDeps \<Rightarrow> ConfigBundle \<Rightarrow> ControlState \<Rightarrow> unit res" where
  "validateBundleDocument t bundle c =
    bindR (checkR (\<not> dp_controlSchema (tk_deps t) c) ''ControlState validation failed'') (\<lambda>_.
      checkR (\<not> tk_pinnedSchema t bundle (c \<lparr> cs_latestReceipt := map_option (\<lambda>r. r \<lparr> ar_usage := None \<rparr>) (cs_latestReceipt c) \<rparr>))
        ''ControlState validation failed'')"

fun loadControls ::
  "'s TicketDeps \<Rightarrow> (string \<times> ConfigBundle) list \<Rightarrow> ((string \<times> string) \<times> ControlState) list \<Rightarrow> ('s, LoadedControl list) io" where
  "loadControls t bundles [] = retM []"
| "loadControls t bundles (((i, body), c) # rest) =
    (let d = tk_deps t in
     if terminal_state (cs_stateId c)
     then bindM (dp_loadCurrent d) (\<lambda>b.
       bindM (loadControls t bundles rest) (\<lambda>ls.
         retM (\<lparr> lc_comment = i, lc_state = c, lc_bundle = b, lc_terminal = True \<rparr> # ls)))
     else bindM (case map_of bundles (cs_configRevision c) of Some b \<Rightarrow> retM b
         | None \<Rightarrow> bindM (callM ''pinned configuration load failed'' (dp_loadPinned d (cs_configRevision c))) (\<lambda>b.
             thenM (liftR (assertBundle b (cs_configRevision c))) (retM b))) (\<lambda>b.
       thenM (liftR (validateBundleDocument t b c))
      (thenM (checkM (fd_id (cb_flow b) \<noteq> cs_flowId c) ''control flow does not match pinned configuration'')
       (case state_of (cb_flow b) (cs_stateId c) of None \<Rightarrow> failM ''control state does not exist in pinned flow''
        | Some st \<Rightarrow>
            bindM (loadControls t ((cs_configRevision c, b) # bundles) rest) (\<lambda>ls.
              retM (\<lparr> lc_comment = i, lc_state = c, lc_bundle = b, lc_terminal = (fs_kind st = KFinal) \<rparr> # ls))))))"

definition recoveryControls :: "'s TicketDeps \<Rightarrow> ProviderTicketSnapshot \<Rightarrow> ControlState list res" where
  "recoveryControls t sn =
    bindR (mapR (\<lambda>c. parseControlComment (tk_codec t) (pc_body c)) (sn_comments sn)) (\<lambda>parsed.
      ok (latest_first t cs_updatedAt (List.map_filter id parsed)))"

definition assertControlReadback :: "'s TicketDeps \<Rightarrow> TicketRef \<Rightarrow> string \<Rightarrow> ControlState \<Rightarrow> ('s, unit) io" where
  "assertControlReadback t ref i expected =
    bindM (callM ''provider control comment readback failed'' (dp_readComment (tk_deps t) ref i)) (\<lambda>readback.
    bindM (liftR (isExpected (tk_codec t) readback i expected)) (\<lambda>parsed.
      checkM (parsed = None) ''control comment readback mismatch''))"

definition createControl :: "'s TicketDeps \<Rightarrow> TicketRef \<Rightarrow> ControlState \<Rightarrow> ('s, unit) io" where
  "createControl t ref control =
    bindM (liftR (renderControlComment (tk_codec t) control)) (\<lambda>body.
    bindM (callM ''provider control comment create failed'' (md_createComment (tk_migration t) ref body)) (\<lambda>created.
      assertControlReadback t ref (pc_id created) control))"

section \<open>Activation\<close>

definition activatedControl ::
  "ConfigBundle \<Rightarrow> string \<Rightarrow> Actor \<Rightarrow> string \<Rightarrow> string \<Rightarrow> string \<Rightarrow> string \<Rightarrow> ControlState" where
  "activatedControl bundle flowInstanceId actor eventId occurredAt label timestamp =
    \<lparr> cs_flowInstanceId = flowInstanceId, cs_flowId = fd_id (cb_flow bundle), cs_configRevision = cb_revision bundle,
      cs_sequence = 0, cs_stateId = opt_or (map_of (fd_activationRoutes (cb_flow bundle)) label) (fd_initial (cb_flow bundle)),
      cs_resumeStateId = None, cs_activatedBy = actor, cs_activatedAt = occurredAt, cs_activationEventId = eventId,
      cs_activationLabel = Some label, cs_updatedAt = timestamp, cs_attemptSeries = None, cs_latestReceipt = None,
      cs_humanGate = None, cs_changeRequest = None \<rparr>"

definition unchangedOutcome :: "'s TicketDeps \<Rightarrow> ProviderTicketSnapshot \<Rightarrow> LoadedControl list \<Rightarrow> ('s, ReconcileOutcome) io" where
  "unchangedOutcome t sn history = liftR (if history = [] then outcome (tk_deps t) None None sn False False True
     else outcome (tk_deps t) (Some (lc_state (last history))) (Some (lc_bundle (last history))) sn False False
            (lc_terminal (last history)))"

definition activate :: "'s TicketDeps \<Rightarrow> ProviderTicketSnapshot \<Rightarrow> LoadedControl list \<Rightarrow> ('s, ReconcileOutcome) io" where
  "activate t sn history =
    (let d = tk_deps t; a = sn_activation sn in
     case (av_actor a, truthy (av_eventId a), truthy (av_occurredAt a), truthy (av_label a)) of
       (Some actor, Some eventId, Some occurredAt, Some label) \<Rightarrow>
         bindM (callM ''provider permission read failed'' (dp_permission d (tr_repository (sn_ref sn)) actor)) (\<lambda>p.
          if \<not> authorized_permission p then unchangedOutcome t sn history
          else bindM (callM ''current configuration load failed'' (dp_loadCurrent d)) (\<lambda>bundle.
            thenM (liftR (assertBundle bundle (cb_revision bundle)))
           (thenM (liftR (assertAllowed d (sn_ref sn)))
           (thenM (checkM (label \<notin> set (sn_labels sn)
               \<or> (label \<noteq> fd_activationLabel (cb_flow bundle) \<and> truthy (map_of (fd_activationRoutes (cb_flow bundle)) label) = None))
              ''activation snapshot does not match controller labels'')
           (bindM (dp_now d) (\<lambda>timestamp.
            bindM (dp_newFlowInstanceId d) (\<lambda>flowInstanceId.
             (let control = activatedControl bundle flowInstanceId actor eventId occurredAt label timestamp in
              thenM (createControl t (sn_ref sn) control)
             (thenM (ownLabels d (sn_ref sn) (sn_labels sn) bundle (cs_stateId control) False None)
             (bindM (startIfNeeded d sn bundle control []) (\<lambda>started.
                liftR (outcome d (Some control) (Some bundle) sn True started True))))))))))))
     | _ \<Rightarrow> unchangedOutcome t sn history)"

section \<open>Cancellation\<close>

definition current_attempt :: "ControlState \<Rightarrow> Attempt option" where
  "current_attempt c = Option.bind (cs_attemptSeries c) as_current"

definition series_id :: "ControlState \<Rightarrow> string option" where
  "series_id c = map_option as_seriesId (cs_attemptSeries c)"

text \<open>The attempt that ran when the cancellation began, and the one that was recorded as started.\<close>

definition activeAttempt :: "bool \<Rightarrow> ControlState \<Rightarrow> string option" where
  "activeAttempt running c = (if running then map_option at_attemptId (current_attempt c) else None)"

definition startedAttempt :: "ControlState \<Rightarrow> string option" where
  "startedAttempt c = (case current_attempt c of None \<Rightarrow> None
     | Some cur \<Rightarrow> if at_status cur = Started then Some (at_attemptId cur) else None)"

definition changedAttempt :: "ControlState \<Rightarrow> ControlState \<Rightarrow> string option \<Rightarrow> bool" where
  "changedAttempt before latest attempt \<longleftrightarrow> truthy attempt \<noteq> None \<and>
     (map_option at_attemptId (current_attempt latest) \<noteq> attempt \<or> series_id latest \<noteq> series_id before)"

definition latestControl :: "'s TicketDeps \<Rightarrow> TicketRef \<Rightarrow> LoadedControl \<Rightarrow> ('s, ControlState) io" where
  "latestControl t ref current =
    (let before = lc_state current; mismatch = ''control comment readback mismatch after cancellation'' in
     bindM (callM ''provider control comment readback failed'' (dp_readComment (tk_deps t) ref (lc_comment current))) (\<lambda>readback.
     bindM (liftR (parseControlComment (tk_codec t) (pc_body readback))) (\<lambda>parsed.
     (case parsed of None \<Rightarrow> failM mismatch
      | Some latest \<Rightarrow>
         if pc_id readback \<noteq> lc_comment current \<or> cs_flowInstanceId latest \<noteq> cs_flowInstanceId before
            \<or> cs_flowId latest \<noteq> cs_flowId before \<or> cs_configRevision latest \<noteq> cs_configRevision before
            \<or> cs_activationEventId latest \<noteq> cs_activationEventId before \<or> cs_sequence latest < cs_sequence before
         then failM mismatch else retM latest))))"

definition cancelPatch ::
  "ProviderTicketSnapshot \<Rightarrow> ControlState \<Rightarrow> ControlState \<Rightarrow> string option \<Rightarrow> string \<Rightarrow> ControlStatePatch" where
  "cancelPatch sn before latest active timestamp =
    (let cancelAttempt = (active \<noteq> None \<or> (startedAttempt before \<noteq> None
           \<and> map_option at_status (current_attempt latest) = Some Started));
         late = (active \<noteq> None \<and> map_option ar_attemptId (cs_latestReceipt latest) = active)
     in no_patch \<lparr> cp_stateId := Some ''cancelled'', cp_resumeStateId := Some None,
          cp_attemptSeries := Some (if cancelAttempt
            then map_option (\<lambda>s. s \<lparr> as_current := map_option (\<lambda>a. a \<lparr> at_status := AttCancelled, at_finishedAt := Some timestamp \<rparr>)
                   (as_current s) \<rparr>) (cs_attemptSeries latest)
            else cs_attemptSeries latest),
          cp_latestReceipt := Some (if late then cs_latestReceipt before else cs_latestReceipt latest),
          cp_humanGate := Some (if late then cs_humanGate before else cs_humanGate latest),
          cp_changeRequest := Some (if late then cs_changeRequest before
            else or_else (normalizedChange (sn_changeRequest sn)) (cs_changeRequest latest)) \<rparr>)"

definition cancelTicket :: "'s TicketDeps \<Rightarrow> LoadedControl \<Rightarrow> ProviderTicketSnapshot \<Rightarrow> ('s, ReconcileOutcome) io" where
  "cancelTicket t current sn =
    (let d = tk_deps t; before = lc_state current; ref = sn_ref sn in
     bindM (getM (dp_isRunning d (cs_flowInstanceId before))) (\<lambda>running.
     (let active = activeAttempt running before; started = startedAttempt before in
      thenM (dp_cancel d (cs_flowInstanceId before))
     (bindM (latestControl t ref current) (\<lambda>latest.
      bindM (dp_now d) (\<lambda>timestamp.
      thenM (checkM (changedAttempt before latest active) ''active attempt changed during cancellation'')
     (thenM (checkM (truthy active = None \<and> changedAttempt before latest started)
        ''persisted started attempt changed during cancellation'')
     (bindM (liftR (advanceControlState (dp_controlSchema d) latest (cancelPatch sn before latest active timestamp) timestamp)) (\<lambda>control.
      thenM (writeExistingControl d ref latest control None)
     (thenM (ownLabels d ref (sn_labels sn) (lc_bundle current) ''cancelled'' True None)
        (liftR (outcome d (Some control) (Some (lc_bundle current)) sn True False True))))))))))))"

section \<open>Tickets whose control state is in their comments\<close>

definition seenActivation :: "ProviderTicketSnapshot \<Rightarrow> LoadedControl list \<Rightarrow> bool" where
  "seenActivation sn loaded \<longleftrightarrow> (case av_eventId (sn_activation sn) of None \<Rightarrow> False
     | Some e \<Rightarrow> list_ex (\<lambda>l. cs_activationEventId (lc_state l) = e) loaded)"

definition idleTicket :: "'s TicketDeps \<Rightarrow> ProviderTicketSnapshot \<Rightarrow> LoadedControl list \<Rightarrow> ('s, ReconcileOutcome) io" where
  "idleTicket t sn loaded =
    (let d = tk_deps t; latest = latest_first t (\<lambda>l. cs_updatedAt (lc_state l)) loaded in
     if \<not> av_present (sn_activation sn) \<or> (latest \<noteq> [] \<and> seenActivation sn loaded)
     then (case latest of
         [] \<Rightarrow> liftR (outcome d None None sn False False True)
       | l # _ \<Rightarrow>
          thenM (ownLabels d (sn_ref sn) (sn_labels sn) (lc_bundle l) (cs_stateId (lc_state l)) True (cs_activationLabel (lc_state l)))
            (liftR (outcome d (Some (lc_state l)) (Some (lc_bundle l)) sn False False True)))
     else activate t sn loaded)"

definition commentTicket :: "'s TicketDeps \<Rightarrow> TicketRef \<Rightarrow> ProviderTicketSnapshot \<Rightarrow> ('s, ReconcileOutcome) io" where
  "commentTicket t ref sn =
    thenM (liftR (assertSnapshot sn ref))
   (bindM (liftR (listControlComments (tk_codec t) (comment_bodies (sn_comments sn)))) (\<lambda>parsed.
    bindM (loadControls t [] parsed) (\<lambda>loaded.
     (case filter (\<lambda>l. \<not> lc_terminal l) loaded of
        [] \<Rightarrow> idleTicket t sn loaded
      | [current] \<Rightarrow> reconcileWith (cancelTicket t current) (tk_deps t) sn (lc_bundle current) (lc_state current) [] []
      | _ \<Rightarrow> failM ''multiple active control comments''))))"

section \<open>Recovery without a local store\<close>

definition stage_named :: "ProviderTicketSnapshot \<Rightarrow> string option" where
  "stage_named sn = map_option (drop (length ''agent-stage:'')) (List.find (\<lambda>l. starts_with l ''agent-stage:'') (sn_labels sn))"

text \<open>The stage that the labels name must exist in this flow.\<close>

definition stageIn :: "'s Deps \<Rightarrow> TicketRef \<Rightarrow> ProviderTicketSnapshot \<Rightarrow> ConfigBundle \<Rightarrow> string \<Rightarrow> string \<Rightarrow> string res" where
  "stageIn d ref sn bundle revision missing =
    bindR (assertBundle bundle revision) (\<lambda>_.
    bindR (assertAllowed d ref) (\<lambda>_.
     (case stage_named sn of None \<Rightarrow> fail ''TypeError''
      | Some stage \<Rightarrow> if state_of (cb_flow bundle) stage = None then fail missing else ok stage)))"

text \<open>The decision, checked against the configuration it rests on, and whether the work resumes in a later poll.\<close>

definition checkedDecision ::
  "'s TicketDeps \<Rightarrow> TicketRef \<Rightarrow> RecoveryEvidence \<Rightarrow> ControlState list \<Rightarrow> RecoveryDecision \<Rightarrow> ('s, RecoveryDecision \<times> bool) io" where
  "checkedDecision t ref ev controls decided =
    (let d = tk_deps t; sn = rv_snapshot ev in
     case (rd_kind decided, rd_owner decided) of
       (RReassess, Some ow) \<Rightarrow>
         tryM (bindM (dp_loadPinned d (pm_config (pb_metadata ow))) (\<lambda>b.
                 bindM (liftR (stageIn d ref sn b (pm_config (pb_metadata ow)) ''provider stage does not exist in the winning flow''))
                   (\<lambda>_. retM (decided, False))))
              (\<lambda>_. retM (decision RAmbiguous (Some ow) (Some ''winning configuration or flow is unavailable''), False))
     | _ \<Rightarrow>
        if rd_kind decided = RResume \<and> rv_activeBoundary ev = BKnown \<and> controls = []
        then tryM (bindM (dp_loadCurrent d) (\<lambda>b.
                bindM (liftR (stageIn d ref sn b (cb_revision b) ''provider stage does not exist in the selected flow'')) (\<lambda>stage.
                bindM (liftR (entryStage (cb_flow b) (av_label (sn_activation sn)))) (\<lambda>entry. retM (decided, stage \<noteq> entry)))))
              (\<lambda>_. retM (decision RAmbiguous None (Some ''configuration or flow is unavailable''), False))
        else retM (decided, False))"

definition recordDecision :: "'s TicketDeps \<Rightarrow> TicketRef \<Rightarrow> RecoveryEvidence \<Rightarrow> RecoveryDecision \<Rightarrow> ('s, unit) io" where
  "recordDecision t ref ev decided = (case tk_recordRecovery t of None \<Rightarrow> retM () | Some record \<Rightarrow> record ref ev decided)"

definition first_control :: "ControlState list \<Rightarrow> ControlState option" where
  "first_control cs = (case cs of [] \<Rightarrow> None | c # _ \<Rightarrow> Some c)"

text \<open>The outcome of a decision that ends the poll, or nothing when the comments are looked at.\<close>

definition decidedOutcome ::
  "'s TicketDeps \<Rightarrow> TicketRef \<Rightarrow> RecoveryEvidence \<Rightarrow> ControlState list \<Rightarrow> RecoveryDecision \<Rightarrow> bool
     \<Rightarrow> ('s, ReconcileOutcome option) io" where
  "decidedOutcome t ref ev controls decided deferred =
    (let d = tk_deps t; sn = rv_snapshot ev;
         recorded = (\<lambda>control runnable. thenM (recordDecision t ref ev decided)
           (bindM (liftR (outcome d control None sn False False runnable)) (\<lambda>r. retM (Some r))))
     in if rd_kind decided = RInactive \<and> controls = [] then recorded None False
        else if rd_kind decided = RReassess then recorded (first_control controls) True
        else if rd_kind decided = RAmbiguous \<or> rd_kind decided = RForeign
        then thenM (forM (\<lambda>c. whenM (\<not> terminal_state (cs_stateId c)) (dp_cancel d (cs_flowInstanceId c))) controls)
               (recorded (first_control controls) False)
        else if deferred then recorded None True else retM None)"

definition recoveryTicket ::
  "'s TicketDeps \<Rightarrow> TicketRef \<Rightarrow> RecoveryEvidence \<Rightarrow> RecoveryDecision \<Rightarrow> ('s, ReconcileOutcome) io" where
  "recoveryTicket t ref ev decided0 =
    bindM (liftR (recoveryControls t (rv_snapshot ev))) (\<lambda>controls.
    bindM (checkedDecision t ref ev controls decided0) (\<lambda>(decided, deferred).
    bindM (decidedOutcome t ref ev controls decided deferred) (\<lambda>ended.
     (case ended of Some r \<Rightarrow> retM r | None \<Rightarrow> commentTicket t ref (rv_snapshot ev)))))"

section \<open>The poll of a ticket\<close>

text \<open>The stored control state of unfinished work pins the activation under which the evidence is read.\<close>

definition pinnedControl :: "ControlState option \<Rightarrow> ControlState option" where
  "pinnedControl cached = (case cached of None \<Rightarrow> None
     | Some c \<Rightarrow> if terminal_state (cs_stateId c) then None else Some c)"

definition pinActivation :: "ControlState option \<Rightarrow> RecoveryEvidence \<Rightarrow> RecoveryEvidence" where
  "pinActivation pinned ev =
    (case pinned of None \<Rightarrow> ev
     | Some c \<Rightarrow> (case truthy (cs_activationLabel c) of None \<Rightarrow> ev
        | Some label \<Rightarrow>
           if av_label (sn_activation (rv_snapshot ev)) = Some label then ev
           else ev \<lparr> rv_snapshot := (rv_snapshot ev) \<lparr> sn_activation :=
             \<lparr> av_present = (label \<in> set (sn_labels (rv_snapshot ev))), av_label = Some label,
                av_eventId = Some (cs_activationEventId c), av_actor = Some (cs_activatedBy c),
                av_occurredAt = Some (cs_activatedAt c) \<rparr> \<rparr> \<rparr>))"

definition add_ambiguity :: "'s TicketDeps \<Rightarrow> err \<Rightarrow> RecoveryEvidence \<Rightarrow> RecoveryEvidence" where
  "add_ambiguity t e ev = ev \<lparr> rv_ambiguities := rv_ambiguities ev @ [error_message (tk_migration t) e] \<rparr>"

text \<open>A migration that cannot be recovered or processed makes the evidence ambiguous.\<close>

definition migrateEvidence :: "'s TicketDeps \<Rightarrow> RecoveryEvidence \<Rightarrow> ('s \<times> pending, RecoveryEvidence) io" where
  "migrateEvidence t ev =
    bindM (attemptM (world (recoverMigration (migration_access_of (tk_migration t)) ev))) (\<lambda>recovered.
     (case recovered of Inl e \<Rightarrow> retM (add_ambiguity t e ev)
      | Inr ev1 \<Rightarrow>
         bindM (attemptM (processMigration (tk_migration t) ev1)) (\<lambda>processed.
          (case processed of Inl e \<Rightarrow> retM (add_ambiguity t e ev1) | Inr ev2 \<Rightarrow> retM ev2))))"

definition readEvidence :: "'s TicketDeps \<Rightarrow> TicketRef \<Rightarrow> ('s, RecoveryEvidence) io" where
  "readEvidence t ref =
    bindM (if tk_localWriter t then dp_load (tk_deps t) ref else retM None) (\<lambda>held.
     (let pinned = pinnedControl (stored_control held) in
      bindM (callM ''provider recovery evidence read failed''
         (md_readRecoveryEvidence (tk_migration t) ref (Option.bind pinned cs_activationLabel))) (\<lambda>observed.
        retM (currentActivationEvidence (pinActivation pinned observed)))))"

definition with_migration :: "'s TicketDeps \<Rightarrow> RecoveryEvidence \<Rightarrow> 's TicketDeps" where
  "with_migration t ev = t \<lparr> tk_migration := (tk_migration t) \<lparr> md_deps := (tk_deps t) \<lparr> dp_migration := rv_migration ev \<rparr> \<rparr> \<rparr>"

definition localTicket :: "'s TicketDeps \<Rightarrow> TicketRef \<Rightarrow> RecoveryEvidence \<Rightarrow> RecoveryDecision \<Rightarrow> ('s, ReconcileOutcome) io" where
  "localTicket t ref ev decided =
    bindM (reconcileLocal (tk_deps t) ev decided) (\<lambda>r.
    bindM (dp_load (tk_deps t) ref) (\<lambda>observed.
      retM (r \<lparr> ro_recoveryDisposition := map_option (\<lambda>st. le_disposition (st_value st)) observed,
                ro_recoveryReason := Option.bind observed (\<lambda>st. le_reason (st_value st)) \<rparr>)))"

definition reconcileTicket :: "'s TicketDeps \<Rightarrow> TicketRef \<Rightarrow> ('s \<times> pending, ReconcileOutcome) io" where
  "reconcileTicket t0 ref =
    thenM (checkM (md_kind (tk_migration t0) \<noteq> tr_provider ref) ''provider adapter does not match the ticket'')
    (if tk_identity t0 then
       bindM (world (readEvidence t0 ref)) (\<lambda>observed.
       bindM (migrateEvidence t0 observed) (\<lambda>ev.
        (let t = with_migration t0 ev in
         thenM (liftR (assertSnapshot (rv_snapshot ev) ref))
        (bindM (liftR (classifyRecovery ev (dp_controllerId (tk_deps t)))) (\<lambda>decided.
          world (if tk_localWriter t then localTicket t ref ev decided else recoveryTicket t ref ev decided))))))
     else bindM (world (callM ''provider ticket read failed'' (tk_readTicket t0 ref))) (\<lambda>sn. world (commentTicket t0 ref sn)))"

end
