(* ===== verification/RecoveryProps.thy ===== *)
theory RecoveryProps
  imports RecoveryIteration
begin

text \<open>
  The properties of the recovery of a ticket without local state: it ends, it keeps every marked object
  but the one to be revalidated, and the stage it accepts is justified by the publications of the owner.
\<close>

text \<open>
  C14: the reconstruction always ends. It either returns an iteration, whose baseline holds every marked
  object of the ticket except at most one publication, or throws because the provider did not answer a
  permission read, the configured address is no URL, or the activation label has no route.
\<close>

theorem recovery_ends:
  "case recoveryIteration d bundle ev stage oc s of
     (Inl e, s') \<Rightarrow> e \<in> {Err ''provider permission read failed'', Err ''Invalid URL'',
        Err ''activation route is not configured in the pinned flow''}
   | (Inr r, s') \<Rightarrow> \<exists>keys. markedObjectKeys (dp_url d) ev (dp_providerApiUrl d) = ok keys \<and>
       (case r of IterReady b c re \<Rightarrow> b = keys \<or> (\<exists>k. b = filter (\<lambda>x. x \<noteq> k) keys)
        | IterAmbiguous b reason \<Rightarrow> b = keys)"
proof (cases "recoveryIteration d bundle ev stage oc s")
  case (Pair x s')
  show ?thesis
  proof (cases x)
    case (Inl e)
    then show ?thesis using throws_recovery [of d _ ev stage oc] Pair
      unfolding throwsM_def recovery_errors_def by auto
  next
    case (Inr r)
    then show ?thesis using iteration_keys [of d _ ev stage oc s r s'] Pair by (simp add: keys_kept_def)
  qed
qed

text \<open>
  C15: a stage that the reconstruction accepts as it is, outside the migration and merge shortcuts, is justified by the
  publications of the owner that this very run has left. The replay from the state s leaves some of them, of these the
  superseded approvals are dropped, and what is then active begins with the kinds of results that the flow leaves on a way
  to the stage; at most one more is active and then kept out of the baseline, and the cutoff is the time of the last
  result. Every review among the results approves the head of the linked change request, and for each of them in turn the
  provider is asked, up to the final state, and reports that its author may write. Without a migration nothing is retired:
  the way is the one from the entry of the flow, and active are all publications of the owner in their order, but for
  consumed documentation reports and, at a review, reviews of other heads.
\<close>

theorem recovered_stage_justified:
  assumes "recoveryIteration d bundle ev stage oc s = (Inr (IterReady b c None), s')"
    "markedObjectKeys (dp_url d) ev (dp_providerApiUrl d) = ok keys"
    "settledIteration d (cb_flow bundle) ev stage oc keys = None"
  shows "\<exists>left committed active rs s1 s2.
    replayPublications d (cb_flow bundle) ev stage keys (documentationRework (cb_flow bundle) ev oc (ownerPublications d ev oc)) s
      = (Inr (Inr (left, committed)), s1) \<and>
    dropSuperseded d ev committed (currentHeadReviews (cb_flow bundle) ev stage left) s1 = (Inr active, s2) \<and>
    (\<exists>start. ev_path (cb_flow bundle) ev stage start = ok (Some committed)) \<and>
    subseq active (ownerPublications d ev oc) \<and>
    (rv_migration ev = None \<longrightarrow> ev_path (cb_flow bundle) ev stage None = ok (Some committed) \<and>
       active = currentHeadReviews (cb_flow bundle) ev stage
         (documentationRework (cb_flow bundle) ev oc (ownerPublications d ev oc))) \<and>
    startsWithKinds ev committed active \<and> length active \<le> length committed + 1 \<and>
    (\<forall>p \<in> set active. pub_kind ev p \<noteq> None \<and> pb_key p \<in> set keys) \<and>
    review_objects ev (zip committed active) = map Some rs \<and> approvedReviews d ev rs s2 s' \<and>
    b = (if length active = length committed then keys else filter (\<lambda>k. k \<noteq> pb_key (last active)) keys) \<and>
    c = (if committed = [] then None else Some (pb_createdAt (active ! (length committed - 1))))"
proof -
  let ?f = "cb_flow bundle" and ?a = "documentationRework (cb_flow bundle) ev oc (ownerPublications d ev oc)"
  obtain e s1 where e: "replayPublications d ?f ev stage keys ?a s = (Inr e, s1)"
    "(case e of Inl r \<Rightarrow> retM r | Inr (active, committed) \<Rightarrow>
        bindM (dropSuperseded d ev committed (currentHeadReviews ?f ev stage active))
          (judgeReplay d ?f ev stage keys committed)) s1 = (Inr (IterReady b c None), s')"
    using assms by (auto simp: recoveryIteration_def run_iff Let_def)
  have end_ok: "end_ok keys (leads_to ?f ev stage) ?a e" by (rule replay_ok [OF e(1)])
  obtain left committed where lc: "e = Inr (left, committed)"
    using e(2) end_ok by (cases e) (auto simp: run_iff end_ok_def)
  obtain active s2 where a: "dropSuperseded d ev committed (currentHeadReviews ?f ev stage left) s1 = (Inr active, s2)"
    "judgeReplay d ?f ev stage keys committed active s2 = (Inr (IterReady b c None), s')"
    using e(2) lc by (auto simp: run_iff)
  have "subseq active (currentHeadReviews ?f ev stage left)" by (rule returnsD [OF dropSuperseded_sub a(1)])
  then have "subseq active (ownerPublications d ev oc)"
    using currentHeadReviews_sub documentationRework_sub end_ok lc by (simp, meson subseq_order.trans)
  moreover obtain start where "ev_path ?f ev stage start = ok (Some committed)"
    using end_ok lc by (auto simp: leads_to_def)
  moreover have "ev_path ?f ev stage None = ok (Some committed) \<and> active = currentHeadReviews ?f ev stage ?a" if "rv_migration ev = None"
    using replay_plain [OF that e(1) [unfolded lc]] a(1) that by (auto simp: dropSuperseded_def run_iff)
  moreover obtain rs where "review_objects ev (zip committed active) = map Some rs" "approvedReviews d ev rs s2 s'"
    using judge_ready [OF a(2)] by blast
  ultimately show ?thesis using judge_ready [OF a(2)] e(1) a(1) lc
    by (intro exI [of _ left] exI [of _ committed] exI [of _ active] exI [of _ rs] exI [of _ s1] exI [of _ s2] conjI) auto
qed


text \<open>A ticket whose owner published one change request.\<close>

definition change_key :: string where
  "change_key = object_key sample_ref ''https://api'' PkChange ''34''"

definition recovered_evidence :: RecoveryEvidence where
  "recovered_evidence = sample_evidence \<lparr>
     rv_publications := [sample_publication change_key ''2026-01-01T00:00:00Z'' sample_uuid] \<rparr>"

lemma recovered_run:
  "fst (recoveryIteration demo_deps demo_bundle recovered_evidence ''done'' (Some sample_uuid) demo_world)
    = ok (IterReady [change_key] (Some ''2026-01-01T00:00:00Z'') None)"
  by code_simp

text \<open>The active publication is the change request, which development leaves on the way to the stage done.\<close>

theorem recovered_stage_justified_witness:
  "\<exists>committed active rs s2 s'. recoveryIteration demo_deps demo_bundle recovered_evidence ''done'' (Some sample_uuid) demo_world
      = (Inr (IterReady [change_key] (Some ''2026-01-01T00:00:00Z'') None), s') \<and>
     ev_path (cb_flow demo_bundle) recovered_evidence ''done'' None = ok (Some committed) \<and> map pb_key active = [change_key] \<and>
     startsWithKinds recovered_evidence committed active \<and>
     review_objects recovered_evidence (zip committed active) = map Some rs \<and> approvedReviews demo_deps recovered_evidence rs s2 s'"
proof -
  obtain s' where r: "recoveryIteration demo_deps demo_bundle recovered_evidence ''done'' (Some sample_uuid) demo_world
      = (Inr (IterReady [change_key] (Some ''2026-01-01T00:00:00Z'') None), s')"
    using recovered_run by (metis ok_def prod.collapse)
  have k: "markedObjectKeys (dp_url demo_deps) recovered_evidence (dp_providerApiUrl demo_deps) = ok [change_key]" by code_simp
  have n: "settledIteration demo_deps (cb_flow demo_bundle) recovered_evidence ''done'' (Some sample_uuid) [change_key] = None"
    by code_simp
  have m: "rv_migration recovered_evidence = None" by code_simp
  have a: "map pb_key (currentHeadReviews (cb_flow demo_bundle) recovered_evidence ''done''
      (documentationRework (cb_flow demo_bundle) recovered_evidence (Some sample_uuid)
        (ownerPublications demo_deps recovered_evidence (Some sample_uuid)))) = [change_key]" by code_simp
  from recovered_stage_justified [OF r k n] obtain committed active rs s2 where
    "ev_path (cb_flow demo_bundle) recovered_evidence ''done'' None = ok (Some committed)"
    "active = currentHeadReviews (cb_flow demo_bundle) recovered_evidence ''done''
      (documentationRework (cb_flow demo_bundle) recovered_evidence (Some sample_uuid)
        (ownerPublications demo_deps recovered_evidence (Some sample_uuid)))"
    "startsWithKinds recovered_evidence committed active"
    "review_objects recovered_evidence (zip committed active) = map Some rs" "approvedReviews demo_deps recovered_evidence rs s2 s'"
    using m by auto
  then show ?thesis using r a
    by (intro exI [of _ committed] exI [of _ active] exI [of _ rs] exI [of _ s2] exI [of _ s'] conjI) simp_all
qed

end
