(* ===== verification/TicketProps.thy ===== *)
theory TicketProps
  imports ReconcileTicket RecoveryProps
begin

text \<open>
  Properties of the poll of a ticket: what an attempt that it starts rests on, what it reports, and that a ticket of
  another controller is left alone.
\<close>

section \<open>The local way\<close>

lemma assertSnapshot_ok: "assertSnapshot sn ref = ok u \<Longrightarrow> sn_ref sn = ref"
  by (cases "sn_ref sn"; cases ref) (simp add: assertSnapshot_def)

lemma with_migration_deps:
  "tk_deps (with_migration t ev) = (tk_deps t) \<lparr> dp_migration := rv_migration ev \<rparr>"
  "tk_localWriter (with_migration t ev) = tk_localWriter t"
  by (simp_all add: with_migration_def tk_deps_def)

lemma reconcileTicket_local:
  assumes "reconcileTicket t ref w = (Inr r, w')" "tk_identity t" "tk_localWriter t"
  obtains observed w1 ev w2 dec where
    "md_kind (tk_migration t) = tr_provider ref"
    "world (readEvidence t ref) w = (Inr observed, w1)" "migrateEvidence t observed w1 = (Inr ev, w2)"
    "ev_ref ev = ref" "classifyRecovery ev (dp_controllerId (tk_deps t)) = ok dec"
    "localTicket (with_migration t ev) ref ev dec (fst w2) = (Inr r, fst w')"
proof -
  obtain observed w1 ev w2 dec where a: "md_kind (tk_migration t) = tr_provider ref"
    "world (readEvidence t ref) w = (Inr observed, w1)" "migrateEvidence t observed w1 = (Inr ev, w2)"
    "assertSnapshot (rv_snapshot ev) ref = Inr ()"
    "classifyRecovery ev (dp_controllerId (tk_deps (with_migration t ev))) = Inr dec"
    "world (localTicket (with_migration t ev) ref ev dec) w2 = (Inr r, w')"
    using assms unfolding reconcileTicket_def Let_def
    by (auto simp only: thenM_Inr_iff bindM_Inr_iff check_iff lift_iff with_migration_deps(2) if_True not_not ok_def)
  have "ev_ref ev = ref" using assertSnapshot_ok a(4) by (simp add: ev_ref_def ok_def)
  then show ?thesis using that a by (simp add: world_iff with_migration_deps ok_def)
qed

lemma from_store_migration: "from_store (tk_deps (with_migration t ev)) x s c \<longleftrightarrow> from_store (tk_deps t) x s c"
proof
  assume "from_store (tk_deps (with_migration t ev)) x s c"
  then show "from_store (tk_deps t) x s c" by (rule from_store_cong) (simp_all add: with_migration_deps)
next
  assume "from_store (tk_deps t) x s c"
  then show "from_store (tk_deps (with_migration t ev)) x s c" by (rule from_store_cong) (simp_all add: with_migration_deps)
qed

text \<open>
  C22: an attempt that the poll of a ticket starts with a local store rests on the evidence of this very ticket, read
  and migrated in this poll and classified for this controller as not belonging to another one; the repository is
  allowed; the attempt runs under the full commit that its control state pins; that state is one that the store holds:
  loaded by this poll, returned by the store for the decision that the poll records on this evidence, or written by
  compare-and-swap in the place of such a state; and a finished attempt before it had published all its results. After
  the start the poll only reads the stored record.
\<close>

theorem ticket_attempt_owned:
  assumes "reconcileTicket t ref w = (Inr r, w')" "tk_identity t" "tk_localWriter t" "ro_started r"
  shows "md_kind (tk_migration t) = tr_provider ref \<and> dp_isAllowed (tk_deps t) ref \<and>
    (\<exists>observed w1 ev w2 dec. world (readEvidence t ref) w = (Inr observed, w1) \<and>
      migrateEvidence t observed w1 = (Inr ev, w2) \<and> ev_ref ev = ref \<and>
      classifyRecovery ev (dp_controllerId (tk_deps t)) = ok dec \<and> rd_kind dec \<noteq> RForeign \<and>
      (\<exists>c q s0 s1 st. dp_start (tk_deps t) q s0 = (Inr (), s1) \<and> dp_load (tk_deps t) ref s1 = (Inr st, fst w') \<and>
         cs_configRevision (rq_control q) = cb_revision (rq_bundle q) \<and>
         isSha (cb_revision (rq_bundle q)) \<and> settled_receipt ev (dp_controllerId (tk_deps t)) c \<and>
         persisted (tk_deps t) ref c (rq_control q) \<and>
         from_store (tk_deps t) ev (fst w2) c \<and> from_store (tk_deps t) ev (fst w2) (rq_control q)))"
proof (rule reconcileTicket_local [OF assms(1-3)])
  fix observed w1 ev w2 dec
  assume a: "md_kind (tk_migration t) = tr_provider ref"
    "world (readEvidence t ref) w = (Inr observed, w1)" "migrateEvidence t observed w1 = (Inr ev, w2)"
    "ev_ref ev = ref" "classifyRecovery ev (dp_controllerId (tk_deps t)) = ok dec"
    "localTicket (with_migration t ev) ref ev dec (fst w2) = (Inr r, fst w')"
  let ?d = "tk_deps (with_migration t ev)"
  obtain r1 s1 st where r1: "reconcileLocal ?d ev dec (fst w2) = (Inr r1, s1)" "ro_started r1"
    "dp_load (tk_deps t) ref s1 = (Inr st, fst w')"
    using a(6) assms(4) by (auto simp: localTicket_def run_iff with_migration_deps)
  have p: "persisted ?d ref c n = persisted (tk_deps t) ref c n" for c n
    by (simp add: persisted_def with_migration_deps)
  have "rd_kind dec \<noteq> RForeign \<and> dp_isAllowed (tk_deps t) ref \<and>
      (\<exists>c q s0. dp_start (tk_deps t) q s0 = (Inr (), s1) \<and> cs_configRevision (rq_control q) = cb_revision (rq_bundle q) \<and>
         isSha (cb_revision (rq_bundle q)) \<and> settled_receipt ev (dp_controllerId (tk_deps t)) c \<and>
         persisted (tk_deps t) ref c (rq_control q) \<and>
         from_store (tk_deps t) ev (fst w2) c \<and> from_store (tk_deps t) ev (fst w2) (rq_control q))"
    using local_attempt_owned [OF r1(1,2), unfolded a(4) p from_store_migration] by (simp add: with_migration_deps)
  then show ?thesis using a(1-5) r1(3) by blast
qed

text \<open>
  C40: With a local store, the disposition and the reason that the poll reports are those of the stored record
  after the poll, whatever reason the step itself gave.
\<close>

theorem ticket_reports_record:
  assumes "reconcileTicket t ref w = (Inr r, w')" "tk_identity t" "tk_localWriter t"
  shows "\<exists>ev dec r1 s0 s1 st. reconcileLocal (tk_deps (with_migration t ev)) ev dec s0 = (Inr r1, s1) \<and>
    dp_load (tk_deps t) ref s1 = (Inr st, fst w') \<and>
    r = r1 \<lparr> ro_recoveryDisposition := map_option (\<lambda>x. le_disposition (st_value x)) st,
             ro_recoveryReason := Option.bind st (\<lambda>x. le_reason (st_value x)) \<rparr>"
proof (rule reconcileTicket_local [OF assms])
  fix observed w1 ev w2 dec
  assume "localTicket (with_migration t ev) ref ev dec (fst w2) = (Inr r, fst w')"
  then obtain r1 s1 st where "reconcileLocal (tk_deps (with_migration t ev)) ev dec (fst w2) = (Inr r1, s1)"
    "dp_load (tk_deps t) ref s1 = (Inr st, fst w')"
    "r = r1 \<lparr> ro_recoveryDisposition := map_option (\<lambda>x. le_disposition (st_value x)) st,
             ro_recoveryReason := Option.bind st (\<lambda>x. le_reason (st_value x)) \<rparr>"
    by (auto simp: localTicket_def run_iff with_migration_deps)
  then show ?thesis by blast
qed

section \<open>A concrete ticket\<close>

definition ticket_evidence :: RecoveryEvidence where
  "ticket_evidence = sample_evidence \<lparr> rv_snapshot := demo_snapshot, rv_publications := [], rv_activeBoundary := BFresh \<rparr>"

definition ticket_deps :: "World TicketDeps" where
  "ticket_deps = \<lparr> tk_migration = migrating_deps \<lparr> md_deps := demo_deps, md_readRecoveryEvidence := (\<lambda>_ _. retM ticket_evidence) \<rparr>,
     tk_codec = sample_codec, tk_readTicket = (\<lambda>_. retM demo_snapshot), tk_identity = True, tk_localWriter = True,
     tk_recordRecovery = None, tk_pinnedSchema = (\<lambda>_ _. True) \<rparr>"

lemma ticket_run:
  "(case reconcileTicket ticket_deps sample_ref (demo_world, \<lambda>_. None) of
     (Inr r, w') \<Rightarrow> ro_started r \<and> ro_recoveryDisposition r = Some DReady \<and> wo_started (fst w') = [''dev''] | _ \<Rightarrow> False)"
  by code_simp

lemma ticket_local: "tk_identity ticket_deps" "tk_localWriter ticket_deps"
  by (simp_all add: ticket_deps_def)

theorem ticket_attempt_owned_witness:
  "\<exists>r w'. reconcileTicket ticket_deps sample_ref (demo_world, \<lambda>_. None) = (Inr r, w') \<and> wo_started (fst w') = [''dev''] \<and>
     (\<exists>q s0 s1. dp_start (tk_deps ticket_deps) q s0 = (Inr (), s1) \<and> isSha (cb_revision (rq_bundle q)))"
proof -
  obtain r w' where r: "reconcileTicket ticket_deps sample_ref (demo_world, \<lambda>_. None) = (Inr r, w')" "ro_started r"
    "wo_started (fst w') = [''dev'']" using ticket_run by (auto split: prod.split_asm sum.split_asm)
  show ?thesis using ticket_attempt_owned [OF r(1) ticket_local r(2)] r by blast
qed

text \<open>The same ticket while its required check is pending: the step says why it waits, the poll does not.\<close>

definition waiting_evidence :: RecoveryEvidence where
  "waiting_evidence = ticket_evidence \<lparr> rv_changes := [sample_change], rv_publications :=
     [sample_publication change_key ''2026-01-01T00:00:00Z'' sample_uuid], rv_activeBoundary := BKnown \<rparr>"

definition waiting_deps :: "World TicketDeps" where
  "waiting_deps = ticket_deps \<lparr> tk_migration := (tk_migration ticket_deps) \<lparr>
     md_deps := demo_deps \<lparr> dp_loadPinned := (\<lambda>_. retM gated_bundle) \<rparr>,
     md_readRecoveryEvidence := (\<lambda>_ _. retM waiting_evidence) \<rparr> \<rparr>"

definition waiting_world :: World where
  "waiting_world = gated_world \<lparr> wo_checks := [(''verify'', CheckPending)] \<rparr>"

lemma waiting_step:
  "(case reconcileLocal (tk_deps waiting_deps) waiting_evidence (decision RReassess (Some (sample_publication change_key
       ''2026-01-01T00:00:00Z'' sample_uuid)) None) waiting_world of
     (Inr r, w') \<Rightarrow> ro_recoveryReason r = Some ''Waiting for required current-head CI: verify'' | _ \<Rightarrow> False)"
  by code_simp

lemma waiting_run:
  "(case reconcileTicket waiting_deps sample_ref (waiting_world, \<lambda>_. None) of
     (Inr r, w') \<Rightarrow> ro_recoveryReason r = None \<and> \<not> ro_changed r | _ \<Rightarrow> False)"
  by code_simp

theorem ticket_reports_record_witness:
  "\<exists>r w'. reconcileTicket waiting_deps sample_ref (waiting_world, \<lambda>_. None) = (Inr r, w') \<and> ro_recoveryReason r = None \<and>
     (\<exists>s1 st. dp_load (tk_deps waiting_deps) sample_ref s1 = (Inr st, fst w') \<and> ro_recoveryReason r = Option.bind st (\<lambda>x. le_reason (st_value x)))"
proof -
  obtain r w' where r: "reconcileTicket waiting_deps sample_ref (waiting_world, \<lambda>_. None) = (Inr r, w')" "ro_recoveryReason r = None"
    using waiting_run by (auto split: prod.split_asm sum.split_asm)
  have "tk_identity waiting_deps" "tk_localWriter waiting_deps" by (simp_all add: waiting_deps_def ticket_local)
  from ticket_reports_record [OF r(1) this] obtain r1 s1 st where
    "dp_load (tk_deps waiting_deps) sample_ref s1 = (Inr st, fst w')"
    "r = r1 \<lparr> ro_recoveryDisposition := map_option (\<lambda>x. le_disposition (st_value x)) st,
       ro_recoveryReason := Option.bind st (\<lambda>x. le_reason (st_value x)) \<rparr>" by blast
  then have "\<exists>s1 st. dp_load (tk_deps waiting_deps) sample_ref s1 = (Inr st, fst w') \<and>
      ro_recoveryReason r = Option.bind st (\<lambda>x. le_reason (st_value x))" by auto
  then show ?thesis using r by blast
qed

section \<open>Tickets of another controller\<close>

lemma keepsM_outcome: "keepsM I (bindM (liftR x) (\<lambda>r. retM (f r)))"
  by (intro keepsM_bind keepsM_lift keepsM_ret)

lemma foreign_local:
  assumes "rd_kind dec = RForeign" "\<And>r. keepsM I (dp_load d r)" "\<And>f. keepsM I (dp_cancel d f)"
    "\<And>r e x c k. keepsM I (dp_recordRecovery d r e x c k)"
  shows "keepsM I (reconcileLocal d ev dec)"
proof -
  have dec: "reassessedDecision ev st dec = dec" for st
    using assms(1) by (auto simp: reassessedDecision_def Let_def split: option.split)
  have "keepsM I (currentControl d ev st dec)" for st
    using assms(1,3) by (auto simp: currentControl_def migrationStarts_def split: option.split intro!: keepsM_then keepsM_when keepsM_ret)
  moreover have "keepsM I (suspendedTicket d ev dec c)" for c
    unfolding suspendedTicket_def recordedOutcome_def
    by (intro keepsM_then keepsM_bind keepsM_lift assms keepsM_opt keepsM_ret keepsM_when)
  ultimately show ?thesis unfolding reconcileLocal_def dec Let_def
    using assms(1) by (simp add: keepsM_bind keepsM_then keepsM_check assms(2))
qed

lemma foreign_comments:
  assumes "rd_kind dec = RForeign" "\<And>f. keepsM I (dp_cancel (tk_deps t) f)"
    "\<And>record x. tk_recordRecovery t = Some record \<Longrightarrow> keepsM I (record ref ev x)"
  shows "keepsM I (recoveryTicket t ref ev dec)"
proof -
  have c: "checkedDecision t ref ev controls dec = retM (dec, False)" for controls
    using assms(1) by (simp add: checkedDecision_def Let_def)
  have r: "keepsM I (recordDecision t ref ev dec)"
    using assms(3) by (auto simp: recordDecision_def split: option.split)
  have "keepsM I (bindM (decidedOutcome t ref ev controls dec False) (\<lambda>ended. case ended of Some r \<Rightarrow> retM r
      | None \<Rightarrow> commentTicket t ref (rv_snapshot ev)))" for controls
    using assms(1) r unfolding decidedOutcome_def Let_def
    by (simp add: thenM_def bindM_assoc keepsM_bind keepsM_for keepsM_when keepsM_lift keepsM_ret assms(2))
  then show ?thesis unfolding recoveryTicket_def c by (simp add: keepsM_bind keepsM_lift)
qed

lemma keeps_world: "keepsM I m \<Longrightarrow> keepsM (\<lambda>w. I (fst w)) (world m)"
  by (auto simp: keepsM_def world_def split: prod.split)

lemma keepsD: "keepsM I m \<Longrightarrow> m s = (r, s') \<Longrightarrow> I s \<Longrightarrow> I s'"
  unfolding keepsM_def by (metis snd_conv)

text \<open>Without a command in the comments, what becomes of the migrations of a ticket only reads.\<close>

lemma migrateEvidence_reads:
  assumes "migrateEvidence t ev w = (r, w')" "I (fst w)"
    "\<forall>c \<in> set (sn_comments (rv_snapshot ev)). \<not> isMigrationCommand (pc_body c)"
    "\<And>sha. keepsM I (dp_loadPinned (tk_deps t) sha)" "\<And>rp a. keepsM I (dp_permission (tk_deps t) rp a)"
  shows "I (fst w')"
proof -
  let ?m = "world (recoverMigration (migration_access_of (tk_migration t)) ev)"
  obtain x w1 where x: "?m w = (x, w1)" by (cases "?m w")
  have "keepsM I (recoverMigration (migration_access_of (tk_migration t)) ev)"
    by (rule recoverMigration_reads) (use assms(4,5) in \<open>auto simp: migration_access_of_def tk_deps_def\<close>)
  then have w1: "I (fst w1)" using keepsD [OF keeps_world x] assms(2) by blast
  show ?thesis
  proof (cases x)
    case (Inl e)
    then show ?thesis using assms(1) x w1 by (auto simp: migrateEvidence_def bindM_def attemptM_def retM_def ok_def)
  next
    case (Inr ev1)
    have c: "sn_comments (rv_snapshot ev1) = sn_comments (rv_snapshot ev)"
      using x Inr recoverMigration_comments by (auto simp: world_iff)
    have none: "filter (\<lambda>c. isMigrationCommand (pc_body c) \<and> P c) (sn_comments (rv_snapshot ev1)) = []" for P
      using assms(3) c by (simp add: filter_empty_conv)
    have "openRequests (tk_migration t) ev1 = ok [] \<or> (\<exists>e. openRequests (tk_migration t) ev1 = Inl e)"
      using none by (cases "receiptRows (md_receipt (tk_migration t)) ev1") (auto simp: openRequests_def bindR_def ok_def)
    then have "snd (processMigration (tk_migration t) ev1 w1) = w1"
      by (auto simp: processMigration_def bindM_def liftR_def retM_def ok_def)
    then have "snd (migrateEvidence t ev w) = w1"
      using x Inr by (auto simp: migrateEvidence_def bindM_def attemptM_def retM_def ok_def split: prod.split sum.split)
    then show ?thesis using assms(1) w1 by simp
  qed
qed

lemma readEvidence_reads:
  assumes "\<And>r. keepsM I (dp_load (tk_deps t) r)" "\<And>r l. keepsM I (md_readRecoveryEvidence (tk_migration t) r l)"
  shows "keepsM I (readEvidence t ref)"
  unfolding readEvidence_def Let_def by (intro keepsM_bind keepsM_if keepsM_call keepsM_ret assms)

text \<open>
  C23: the whole poll of a ticket whose active work belongs to another controller, and whose comments hold no migration
  command, does nothing but read, stop its own attempts and record the decision. Whatever the reads (of the stored record,
  the evidence, pinned configurations and permissions), the cancellation and the record of the decision leave unchanged,
  the poll leaves unchanged, whether it returns or throws: it sets no label, posts no comment, writes no control state and
  starts nothing. With a migration command this does not hold: see foreign_command_answered.
\<close>

theorem foreign_ticket_untouched:
  assumes "reconcileTicket t ref w = (x, w')" "tk_identity t" "I (fst w)"
    "world (readEvidence t ref) w = (Inr observed, w1)"
    "\<forall>c \<in> set (sn_comments (rv_snapshot observed)). \<not> isMigrationCommand (pc_body c)"
    "migrateEvidence t observed w1 = (Inr ev, w2)"
    "classifyRecovery ev (dp_controllerId (tk_deps t)) = ok dec" "rd_kind dec = RForeign"
    "\<And>r. keepsM I (dp_load (tk_deps t) r)" "\<And>r l. keepsM I (md_readRecoveryEvidence (tk_migration t) r l)"
    "\<And>sha. keepsM I (dp_loadPinned (tk_deps t) sha)" "\<And>rp a. keepsM I (dp_permission (tk_deps t) rp a)"
    "\<And>f. keepsM I (dp_cancel (tk_deps t) f)" "\<And>r e y c k. keepsM I (dp_recordRecovery (tk_deps t) r e y c k)"
    "\<And>record r e y. tk_recordRecovery t = Some record \<Longrightarrow> keepsM I (record r e y)"
  shows "I (fst w')"
proof -
  let ?t = "with_migration t ev" and ?J = "\<lambda>w. I (fst w)"
  have "keepsM I (readEvidence t ref)" using assms(9,10) by (rule readEvidence_reads)
  then have w1: "I (fst w1)" using keepsD [where I = ?J, OF keeps_world assms(4)] assms(3) by blast
  have w2: "I (fst w2)" using migrateEvidence_reads [where I = I, OF assms(6) w1 assms(5)] assms(11,12) by blast
  have "tk_recordRecovery ?t = tk_recordRecovery t" by (simp add: with_migration_def)
  then have "keepsM I (localTicket ?t ref ev dec)" "keepsM I (recoveryTicket ?t ref ev dec)"
    unfolding localTicket_def using assms(8-15)
    by (auto intro!: keepsM_bind keepsM_ret foreign_local foreign_comments simp: with_migration_deps)
  then have rest: "keepsM ?J (thenM (liftR (assertSnapshot (rv_snapshot ev) ref))
      (bindM (liftR (classifyRecovery ev (dp_controllerId (tk_deps ?t)))) (\<lambda>decided.
         world (if tk_localWriter ?t then localTicket ?t ref ev decided else recoveryTicket ?t ref ev decided))))"
    using assms(7) by (auto simp: with_migration_deps thenM_def keepsM_def bindM_def liftR_def ok_def world_def split: sum.split prod.split)
  have "reconcileTicket t ref w = (if md_kind (tk_migration t) \<noteq> tr_provider ref
      then (fail ''provider adapter does not match the ticket'', w)
      else thenM (liftR (assertSnapshot (rv_snapshot ev) ref))
        (bindM (liftR (classifyRecovery ev (dp_controllerId (tk_deps ?t)))) (\<lambda>decided.
           world (if tk_localWriter ?t then localTicket ?t ref ev decided else recoveryTicket ?t ref ev decided))) w2)"
    using assms(2,4,6) by (simp add: reconcileTicket_def Let_def thenM_def checkM_def failM_def retM_def bindM_def ok_def fail_def)
  moreover have "I (fst (snd (thenM (liftR (assertSnapshot (rv_snapshot ev) ref))
      (bindM (liftR (classifyRecovery ev (dp_controllerId (tk_deps ?t)))) (\<lambda>decided.
         world (if tk_localWriter ?t then localTicket ?t ref ev decided else recoveryTicket ?t ref ev decided))) w2)))"
    using rest w2 unfolding keepsM_def by blast
  moreover have "w' = snd (reconcileTicket t ref w)" using assms(1) by simp
  ultimately show ?thesis using assms(3) by (simp split: if_split)
qed

text \<open>A ticket whose only change request another controller published.\<close>

definition other_uuid :: string where
  "other_uuid = ''22222222-2222-4222-8222-222222222222''"

definition foreign_evidence :: RecoveryEvidence where
  "foreign_evidence = ticket_evidence \<lparr> rv_activeBoundary := BKnown,
     rv_publications := [sample_publication change_key ''2026-01-01T00:00:00Z'' other_uuid] \<rparr>"

definition foreign_deps :: "RecoveryEvidence \<Rightarrow> World TicketDeps" where
  "foreign_deps ev = ticket_deps \<lparr> tk_migration := (tk_migration ticket_deps) \<lparr>
     md_createComment := (\<lambda>_ body s. (ok (receipt_comment ''c9'' body), s \<lparr> wo_started := [''comment''] \<rparr>)),
     md_readRecoveryEvidence := (\<lambda>_ _. retM ev) \<rparr> \<rparr>"

lemma foreign_run:
  "(case reconcileTicket (foreign_deps foreign_evidence) sample_ref (demo_world, \<lambda>_. None) of
     (Inr r, w') \<Rightarrow> \<not> ro_started r | _ \<Rightarrow> False)"
  by code_simp

theorem foreign_ticket_untouched_witness:
  "\<exists>r w'. reconcileTicket (foreign_deps foreign_evidence) sample_ref (demo_world, \<lambda>_. None) = (Inr r, w') \<and> wo_started (fst w') = []"
proof -
  let ?t = "foreign_deps foreign_evidence" and ?w = "(demo_world, \<lambda>_. None)"
  obtain r w' where r: "reconcileTicket ?t sample_ref ?w = (Inr r, w')"
    using foreign_run by (auto split: prod.split_asm sum.split_asm)
  have e: "case world (readEvidence ?t sample_ref) ?w of
      (Inr observed, w1) \<Rightarrow> list_all (\<lambda>c. \<not> isMigrationCommand (pc_body c)) (sn_comments (rv_snapshot observed)) \<and>
        (case migrateEvidence ?t observed w1 of (Inr ev, w2) \<Rightarrow>
           (case classifyRecovery ev sample_uuid of Inr dec \<Rightarrow> rd_kind dec = RForeign | _ \<Rightarrow> False) | _ \<Rightarrow> False) | _ \<Rightarrow> False"
    by code_simp
  obtain z w1 where z: "world (readEvidence ?t sample_ref) ?w = (z, w1)" by (cases "world (readEvidence ?t sample_ref) ?w")
  obtain observed where zo: "z = Inr observed" using e z by (cases z) simp_all
  have o: "world (readEvidence ?t sample_ref) ?w = (Inr observed, w1)"
    "\<forall>c \<in> set (sn_comments (rv_snapshot observed)). \<not> isMigrationCommand (pc_body c)"
    and e1: "case migrateEvidence ?t observed w1 of (Inr ev, w2) \<Rightarrow>
           (case classifyRecovery ev sample_uuid of Inr dec \<Rightarrow> rd_kind dec = RForeign | _ \<Rightarrow> False) | _ \<Rightarrow> False"
    using e z zo by (simp_all add: list_all_iff)
  obtain y w2 where y: "migrateEvidence ?t observed w1 = (y, w2)" by (cases "migrateEvidence ?t observed w1")
  obtain ev where ev: "y = Inr ev" using e1 y by (cases y) simp_all
  obtain dec where m: "migrateEvidence ?t observed w1 = (Inr ev, w2)" "classifyRecovery ev sample_uuid = ok dec" "rd_kind dec = RForeign"
    using e1 y ev by (cases "classifyRecovery ev sample_uuid") (simp_all add: ok_def)
  have d: "tk_deps ?t = demo_deps" by (simp add: tk_deps_def foreign_deps_def ticket_deps_def)
  have id: "tk_identity ?t" "dp_controllerId demo_deps = sample_uuid" "tk_recordRecovery ?t = None"
    by (simp_all add: foreign_deps_def ticket_deps_def demo_deps_def)
  have m2: "classifyRecovery ev (dp_controllerId (tk_deps ?t)) = ok dec" using m(2) d id(2) by simp
  let ?I = "\<lambda>s :: World. wo_started s = []"
  have reads: "\<And>r. keepsM ?I (dp_load (tk_deps ?t) r)" "\<And>r l. keepsM ?I (md_readRecoveryEvidence (tk_migration ?t) r l)"
    "\<And>sha. keepsM ?I (dp_loadPinned (tk_deps ?t) sha)" "\<And>rp a. keepsM ?I (dp_permission (tk_deps ?t) rp a)"
    "\<And>f. keepsM ?I (dp_cancel (tk_deps ?t) f)" "\<And>r e y c k. keepsM ?I (dp_recordRecovery (tk_deps ?t) r e y c k)"
    unfolding d by (simp_all add: keepsM_def demo_deps_def retM_def foreign_deps_def ok_def split: option.split)
  have "wo_started (fst w') = []"
    by (rule foreign_ticket_untouched [where I = ?I, OF r id(1) _ o m(1) m2 m(3) reads]) (simp_all add: demo_world_def id(3))
  then show ?thesis using r by blast
qed

text \<open>
  A finding: the commands of a ticket are processed before its work is classified. A malformed command on a ticket of
  another controller is answered with a diagnostic comment, although the documentation of the architecture demands that a
  ticket of another controller sees no change at the provider.
\<close>

definition commanded_evidence :: RecoveryEvidence where
  "commanded_evidence = foreign_evidence \<lparr> rv_snapshot := demo_snapshot \<lparr> sn_comments :=
     [receipt_comment ''c1'' ''/agent-flow migrate'' \<lparr> pc_createdAt := ''2026-01-01T00:00:09Z'' \<rparr>] \<rparr> \<rparr>"

lemma foreign_command_answered:
  "(case reconcileTicket (foreign_deps commanded_evidence) sample_ref (demo_world, \<lambda>_. None) of
     (Inr r, w') \<Rightarrow> ro_recoveryDisposition r \<noteq> None \<and> \<not> ro_started r \<and> wo_started (fst w') = [''comment''] | _ \<Rightarrow> False) \<and>
   (case classifyRecovery commanded_evidence sample_uuid of Inr dec \<Rightarrow> rd_kind dec = RForeign | _ \<Rightarrow> False)"
  by code_simp

end
