(* ===== verification/Errors.thy ===== *)
theory Errors
  imports Types
begin

text \<open>
  src/runtime/errors.ts: an error of any class becomes an attempt error with a code, a fixed message and the
  decision whether another attempt makes sense, and from it the error that the control state keeps.
\<close>

definition classifyAttemptError :: "err \<Rightarrow> err" where
  "classifyAttemptError e = (case e of
     AttemptError c m r \<Rightarrow> AttemptError c m r
   | ProviderHttpError tr status \<Rightarrow>
       AttemptError (if tr then ''PROVIDER_TRANSIENT'' else ''PROVIDER_FAILED'') ''provider operation failed'' tr
   | HarnessProcessError r \<Rightarrow> AttemptError ''HARNESS_PROCESS_FAILED'' ''harness process failed'' r
   | HarnessTerminationError \<Rightarrow> AttemptError ''HARNESS_PROCESS_FAILED'' ''harness process failed'' False
   | HarnessPreflightError \<Rightarrow> AttemptError ''HARNESS_PREFLIGHT_FAILED'' ''harness preflight failed'' False
   | ApmPreflightError \<Rightarrow> AttemptError ''APM_PREFLIGHT_FAILED'' ''APM preflight failed'' False
   | InvalidDecisionError m \<Rightarrow> AttemptError ''INVALID_DECISION'' ''agent decision is invalid'' True
   | DecisionEvidenceUnavailableError m \<Rightarrow>
       AttemptError ''DECISION_EVIDENCE_UNAVAILABLE'' ''agent decision evidence is unavailable'' True
   | DecisionReadbackError \<Rightarrow>
       AttemptError ''DECISION_READBACK_FAILED'' ''provider decision evidence readback failed transiently'' True
   | DecisionTrustError m \<Rightarrow>
       AttemptError ''DECISION_TRUST_FAILED'' ''agent decision contradicts pinned provider evidence'' False
   | _ \<Rightarrow> AttemptError ''ATTEMPT_CONFIGURATION_FAILED'' ''attempt configuration failed'' False)"

text \<open>Every run of control characters becomes one blank.\<close>

definition control_char :: "char \<Rightarrow> bool" where
  "control_char c \<longleftrightarrow> code c < 32 \<or> code c = 127"

fun blank_controls :: "bool \<Rightarrow> string \<Rightarrow> string" where
  "blank_controls inside [] = []"
| "blank_controls inside (c # cs) =
    (if control_char c then (if inside then blank_controls True cs else CHR '' '' # blank_controls True cs)
     else c # blank_controls False cs)"

definition clean :: "string \<Rightarrow> string" where
  "clean message = (let value = take 240 (trim_str (blank_controls False message))
     in if value = [] then ''attempt failed'' else value)"

definition error_code :: "string \<Rightarrow> bool" where
  "error_code c \<longleftrightarrow> c \<noteq> [] \<and> is_upper (hd c) \<and> length c \<le> 64
     \<and> list_all (\<lambda>x. is_upper x \<or> is_digit x \<or> x = CHR ''_'') (tl c)"

definition controlError :: "err \<Rightarrow> ReceiptError" where
  "controlError e = (case classifyAttemptError e of
     AttemptError c m r \<Rightarrow> \<lparr> re_code = (if error_code c then c else ''ATTEMPT_FAILED''), re_message = clean m \<rparr>
   | _ \<Rightarrow> \<lparr> re_code = ''ATTEMPT_FAILED'', re_message = ''attempt failed'' \<rparr>)"

definition retryable :: "err \<Rightarrow> bool" where
  "retryable e = ae_retryable (classifyAttemptError e)"

lemma classified: "\<exists>c m r. classifyAttemptError e = AttemptError c m r"
  by (cases e) (auto simp: classifyAttemptError_def)

lemma classify_idem [simp]: "classifyAttemptError (classifyAttemptError e) = classifyAttemptError e"
  by (cases e) (simp_all add: classifyAttemptError_def)

lemma blank_controls_clean: "c \<in> set (blank_controls b s) \<Longrightarrow> \<not> control_char c"
proof (induction b s rule: blank_controls.induct)
  case (2 inside c' cs)
  then show ?case by (auto split: if_split_asm simp: control_char_def code_def)
qed simp

lemma trim_set: "c \<in> set (trim_str s) \<Longrightarrow> c \<in> set s"
  by (auto simp: trim_str_def trim_start_def trim_end_def dest!: set_dropWhileD)

lemma clean_message: "length (clean m) \<le> 240" "clean m \<noteq> []" "\<forall>c \<in> set (clean m). \<not> control_char c"
proof -
  show "length (clean m) \<le> 240" "clean m \<noteq> []" by (simp_all add: clean_def Let_def)
  have "\<forall>c \<in> set (take 240 (trim_str (blank_controls False m))). \<not> control_char c"
    using trim_set blank_controls_clean by (metis in_set_takeD)
  moreover have "\<forall>c \<in> set ''attempt failed''. \<not> control_char c" by code_simp
  ultimately show "\<forall>c \<in> set (clean m). \<not> control_char c" by (simp add: clean_def Let_def)
qed

end
