(* ===== verification/AgentProtocol.thy ===== *)
theory AgentProtocol
  imports Errors MigrationRecovery
begin

text \<open>
  src/runtime/agent-protocol.ts: who may raise an event, and the events that an agent may decide in a
  state of the flow.
\<close>

datatype EventSource = FromAgent | FromProvider | FromController

definition EVENT_SOURCES :: "(string \<times> EventSource) list" where
  "EVENT_SOURCES =
    [(''agent-succeeded'', FromAgent), (''agent-needs-human'', FromAgent), (''review-approved'', FromAgent),
     (''review-changes-requested'', FromAgent), (''human-approved'', FromAgent), (''human-changes-requested'', FromAgent),
     (''human-question'', FromAgent), (''human-unclear'', FromAgent), (''human-cancelled'', FromAgent),
     (''human-answer-accepted'', FromAgent), (''human-answer-cancelled'', FromAgent), (''human-answer-unclear'', FromAgent),
     (''change-request-updated'', FromProvider), (''change-request-merged'', FromProvider),
     (''change-request-closed'', FromProvider), (''ci-failed'', FromProvider),
     (''attempts-exhausted'', FromController), (''authorized-comment'', FromController)]"

definition mode_event :: "AttemptMode \<Rightarrow> string \<Rightarrow> bool" where
  "mode_event mode e = (case mode of
     MStage \<Rightarrow> starts_with e ''agent-'' \<or> starts_with e ''review-''
   | MHumanInput \<Rightarrow> starts_with e ''human-'')"

definition allowedAgentEvents :: "FlowDefinition \<Rightarrow> string \<Rightarrow> AttemptMode \<Rightarrow> string list res" where
  "allowedAgentEvents f stateId mode =
    (case state_of f stateId of None \<Rightarrow> fail (''flow state does not exist: '' @ stateId)
     | Some st \<Rightarrow> ok (filter (\<lambda>e. map_of EVENT_SOURCES e = Some FromAgent \<and> mode_event mode e) (map fst (fs_on st))))"

lemma event_sources: "map_of EVENT_SOURCES (event_name e) \<noteq> None"
  by (cases e) (simp_all add: EVENT_SOURCES_def)

text \<open>An allowed event is an event of the agent that the state has a transition for.\<close>

lemma allowed_transition:
  assumes "allowedAgentEvents f stateId mode = ok events" "event_name e \<in> set events"
  shows "transition_of f stateId e \<noteq> None \<and> mode_event mode (event_name e)
    \<and> e \<notin> {ChangeRequestUpdated, ChangeRequestMerged, ChangeRequestClosed, CiFailed, AttemptsExhausted, AuthorizedComment}"
proof -
  obtain st where st: "state_of f stateId = Some st" "event_name e \<in> fst ` set (fs_on st)"
    "map_of EVENT_SOURCES (event_name e) = Some FromAgent" "mode_event mode (event_name e)"
    using assms by (auto simp: allowedAgentEvents_def split: option.split_asm)
  then have "map_of (fs_on st) (event_name e) \<noteq> None" by (simp add: map_of_eq_None_iff)
  moreover have "e \<notin> {ChangeRequestUpdated, ChangeRequestMerged, ChangeRequestClosed, CiFailed, AttemptsExhausted, AuthorizedComment}"
    using st(3) by (auto simp: EVENT_SOURCES_def)
  ultimately show ?thesis using st by (simp add: transition_of_def)
qed

end
