(* ===== verification/Receipts.thy ===== *)
theory Receipts
  imports AgentProtocol ControlComment
begin

text \<open>
  src/runtime/receipts.ts: an agent only names an event; the receipt of its attempt is built from what the
  provider shows. Every comment, change request and review that the event needs is looked for on the ticket, read
  again, compared, and its author's permission is asked for, before and after a last reading of the ticket. The
  provider, the decision file and the schema of a decision are parameters.
\<close>

section \<open>Expectation and provider\<close>

record DecisionExpectation =
  de_migration :: "MigrationReceipt option"
  de_flow :: FlowDefinition
  de_stateId :: string
  de_mode :: AttemptMode
  de_resultContract :: ResultContract
  de_configRevision :: string
  de_activationLabel :: "string option"
  de_activatedAt :: "string option"
  de_controllerId :: string
  de_publicationKeys :: "string list"
  de_reusableCommentIds :: "string list"
  de_flowInstanceId :: string
  de_attemptId :: string
  de_ticket :: TicketRef
  de_sourceComment :: "ProviderComment option"
  de_pinned :: "NormalizedChangeRequest option"

record 's DecisionProvider =
  pv_kind :: ProviderKind
  pv_readTicket :: "TicketRef \<Rightarrow> string option \<Rightarrow> ('s, ProviderTicketSnapshot) io"
  pv_readComment :: "TicketRef \<Rightarrow> string \<Rightarrow> ('s, ProviderComment) io"
  pv_readChangeRequest :: "TicketRef \<Rightarrow> int \<Rightarrow> ('s, NormalizedChangeRequest) io"
  pv_findReview :: "TicketRef \<Rightarrow> int \<Rightarrow> string \<Rightarrow> string list \<Rightarrow> ('s, NormalizedReview option) io"
  pv_readReview :: "TicketRef \<Rightarrow> int \<Rightarrow> string \<Rightarrow> ('s, NormalizedReview) io"
  pv_permission :: "string \<Rightarrow> Actor \<Rightarrow> ('s, Permission) io"
  pv_createComment :: "TicketRef \<Rightarrow> string \<Rightarrow> ('s, ProviderComment) io"
  pv_url :: "string \<Rightarrow> Url option"

section \<open>Errors\<close>

definition invalidDecision :: "string \<Rightarrow> 'a res" where
  "invalidDecision m = Inl (InvalidDecisionError (take 240 m))"

definition evidenceUnavailable :: "string \<Rightarrow> 'a res" where
  "evidenceUnavailable m = Inl (DecisionEvidenceUnavailableError (take 240 m))"

definition decisionTrust :: "string \<Rightarrow> 'a res" where
  "decisionTrust m = Inl (DecisionTrustError (take 240 m))"

definition trustM :: "bool \<Rightarrow> string \<Rightarrow> ('s, unit) io" where
  "trustM b m = (if b then liftR (decisionTrust m) else retM ())"

definition unavailableM :: "bool \<Rightarrow> string \<Rightarrow> ('s, unit) io" where
  "unavailableM b m = (if b then liftR (evidenceUnavailable m) else retM ())"

definition invalidM :: "bool \<Rightarrow> string \<Rightarrow> ('s, unit) io" where
  "invalidM b m = (if b then liftR (invalidDecision m) else retM ())"

text \<open>What an error of the provider means for the decision.\<close>

definition providerOperationError :: "string \<Rightarrow> bool \<Rightarrow> err \<Rightarrow> err" where
  "providerOperationError trustMessage missingIsTrustViolation e = (case e of
     InvalidDecisionError m \<Rightarrow> e | DecisionEvidenceUnavailableError m \<Rightarrow> e | DecisionReadbackError \<Rightarrow> e | DecisionTrustError m \<Rightarrow> e
   | ProviderHttpError tr status \<Rightarrow>
       if tr then DecisionReadbackError
       else if \<not> missingIsTrustViolation \<and> (status = Some 404 \<or> status = Some 410)
       then DecisionEvidenceUnavailableError ''provider decision evidence is unavailable''
       else DecisionTrustError trustMessage
   | _ \<Rightarrow> DecisionTrustError trustMessage)"

definition decisionProviderOperation :: "('s, 'a) io \<Rightarrow> string \<Rightarrow> bool \<Rightarrow> ('s, 'a) io" where
  "decisionProviderOperation op m missing = tryM op (\<lambda>e. throwM (providerOperationError (take 240 m) missing e))"

definition decisionProviderRead :: "('s, 'a) io \<Rightarrow> string \<Rightarrow> ('s, 'a) io" where
  "decisionProviderRead op m = decisionProviderOperation op m False"

definition decisionProviderReadback :: "('s, 'a) io \<Rightarrow> string \<Rightarrow> ('s, 'a) io" where
  "decisionProviderReadback op m = decisionProviderOperation op m True"

section \<open>Identities\<close>

definition decisionMarker :: "DecisionExpectation \<Rightarrow> string res" where
  "decisionMarker x = renderPublication \<lparr> pm_config = de_configRevision x, pm_controller = de_controllerId x \<rparr>"

text \<open>The marker can be rendered when the body carries the metadata it is made of.\<close>

definition hasExpectedPublication :: "string \<Rightarrow> DecisionExpectation \<Rightarrow> bool" where
  "hasExpectedPublication body x = (case parsePublication body of
     PCurrent m \<Rightarrow> pm_config m = de_configRevision x \<and> pm_controller m = de_controllerId x
       \<and> (case decisionMarker x of Inr l \<Rightarrow> l \<in> set (lines_of body) | Inl _ \<Rightarrow> False)
   | _ \<Rightarrow> False)"

definition isText :: "json \<Rightarrow> bool" where
  "isText j = (case j of JStr s \<Rightarrow> s \<noteq> [] | _ \<Rightarrow> False)"

text \<open>The kind and the identity in a publication key of the ticket.\<close>

definition baselineKey :: "DecisionExpectation \<Rightarrow> string \<Rightarrow> (string \<times> string) res" where
  "baselineKey x key = (case json_parse key of
     Some (JArr [p, a, r, JStr k, JStr i]) \<Rightarrow>
       if p = JStr (provider_name (tr_provider (de_ticket x))) \<and> isText a \<and> r = JStr (tr_repository (de_ticket x))
          \<and> k \<in> {''comment'', ''change-request'', ''review''} \<and> i \<noteq> []
       then ok (k, i) else decisionTrust ''publication baseline is invalid''
   | _ \<Rightarrow> decisionTrust ''publication baseline is invalid'')"

definition baselineIds :: "DecisionExpectation \<Rightarrow> string \<Rightarrow> string list res" where
  "baselineIds x kind = bindR (mapR (baselineKey x) (de_publicationKeys x)) (\<lambda>ks.
     ok (map snd (filter (\<lambda>(k, i). k = kind) ks)))"

definition isBaseline :: "DecisionExpectation \<Rightarrow> string \<Rightarrow> string \<Rightarrow> bool res" where
  "isBaseline x kind i = bindR (baselineIds x kind) (\<lambda>ids. ok (i \<in> set ids))"

definition uri_byte :: "nat \<Rightarrow> string" where
  "uri_byte b = (let c = char_of b in
     if b < 128 \<and> (is_alnum c \<or> c \<in> set ''-_.!~*()'' \<or> c = CHR 0x27) then [c]
     else [CHR ''%'', ''0123456789ABCDEF'' ! (b div 16), ''0123456789ABCDEF'' ! (b mod 16)])"

definition encodeURIComponent :: "string \<Rightarrow> string" where
  "encodeURIComponent s = concat (map uri_byte (utf8_encode s))"

definition normalizedGitLabCommentUrl :: "(string \<Rightarrow> Url option) \<Rightarrow> string \<Rightarrow> TicketRef \<Rightarrow> string \<Rightarrow> string option" where
  "normalizedGitLabCommentUrl url u ticket commentId =
    (case url u of None \<Rightarrow> None
     | Some p \<Rightarrow>
        if u \<noteq> url_href p \<or> CHR ''?'' \<in> set u \<or> url_username p \<noteq> [] \<or> url_password p \<noteq> []
           \<or> url_hash p \<noteq> ''#note_'' @ commentId then None
        else
         (let repository = join_with ''/'' (map encodeURIComponent (split_char (CHR ''/'') (tr_repository ticket)));
              issue = ''/'' @ repository @ ''/-/issues/'' @ int_str (tr_number ticket);
              workItem = ''/'' @ repository @ ''/-/work_items/'' @ int_str (tr_number ticket);
              suffix = (if ends_with (url_pathname p) issue then Some issue
                        else if ends_with (url_pathname p) workItem then Some workItem else None)
          in case suffix of None \<Rightarrow> None
             | Some sx \<Rightarrow> Some (url_origin p @ take (length (url_pathname p) - length sx) (url_pathname p) @ issue @ url_hash p)))"

definition sameCommentUrl ::
  "'s DecisionProvider \<Rightarrow> string \<Rightarrow> string \<Rightarrow> DecisionExpectation \<Rightarrow> string \<Rightarrow> bool" where
  "sameCommentUrl pv published artifact x commentId =
    (published = artifact \<or>
      (pv_kind pv = Gitlab \<and>
       (let c = normalizedGitLabCommentUrl (pv_url pv) published (de_ticket x) commentId
        in c \<noteq> None \<and> c = normalizedGitLabCommentUrl (pv_url pv) artifact (de_ticket x) commentId)))"

definition sameProviderComment ::
  "'s DecisionProvider \<Rightarrow> DecisionExpectation \<Rightarrow> ProviderComment \<Rightarrow> ProviderComment \<Rightarrow> bool" where
  "sameProviderComment pv x l r \<longleftrightarrow> pc_id l = pc_id r \<and> sameCommentUrl pv (pc_url l) (pc_url r) x (pc_id l)
     \<and> pc_body l = pc_body r \<and> pc_actor l = pc_actor r \<and> pc_createdAt l = pc_createdAt r \<and> pc_updatedAt l = pc_updatedAt r"

definition sameChangeIdentity :: "NormalizedChangeRequest \<Rightarrow> NormalizedChangeRequest \<Rightarrow> bool" where
  "sameChangeIdentity l r \<longleftrightarrow> nc_provider l = nc_provider r \<and> nc_repository l = nc_repository r
     \<and> nc_number l = nc_number r \<and> nc_url l = nc_url r"

text \<open>Every field of a review is compared.\<close>

definition sameReview :: "NormalizedReview \<Rightarrow> NormalizedReview \<Rightarrow> bool" where
  "sameReview l r \<longleftrightarrow> l = r"

definition assertDecisionTicket :: "ProviderTicketSnapshot \<Rightarrow> TicketRef \<Rightarrow> ('s, unit) io" where
  "assertDecisionTicket sn ref =
    thenM (trustM (tr_provider (sn_ref sn) \<noteq> tr_provider ref \<or> tr_repository (sn_ref sn) \<noteq> tr_repository ref
        \<or> tr_number (sn_ref sn) \<noteq> tr_number ref) ''provider ticket snapshot does not match the expected ticket'')
      (trustM (pr_provider (sn_repository sn) \<noteq> tr_provider ref \<or> pr_name (sn_repository sn) \<noteq> tr_repository ref)
        ''provider repository snapshot does not match the expected repository'')"

definition assertChangeTicketIdentity :: "NormalizedChangeRequest \<Rightarrow> TicketRef \<Rightarrow> ('s, unit) io" where
  "assertChangeTicketIdentity c ref = trustM (nc_provider c \<noteq> tr_provider ref \<or> nc_repository c \<noteq> tr_repository ref)
     ''linked change request identity does not match the expected ticket''"

definition assertSameDecisionChange :: "NormalizedChangeRequest \<Rightarrow> NormalizedChangeRequest \<Rightarrow> ('s, unit) io" where
  "assertSameDecisionChange l r =
    thenM (trustM (nc_provider l \<noteq> nc_provider r \<or> nc_repository l \<noteq> nc_repository r \<or> nc_number l \<noteq> nc_number r)
      ''change request identity changed during readback'')
   (thenM (trustM (nc_url l \<noteq> nc_url r) ''change request URL changed during readback'')
   (thenM (trustM (nc_headSha l \<noteq> nc_headSha r) ''change request head SHA changed during readback'')
      (trustM (nc_state l \<noteq> nc_state r) ''change request state changed during readback'')))"

definition assertAuthorizedPublication :: "'s DecisionProvider \<Rightarrow> DecisionExpectation \<Rightarrow> Actor \<Rightarrow> ('s, unit) io" where
  "assertAuthorizedPublication pv x actor =
    bindM (decisionProviderReadback (pv_permission pv (tr_repository (de_ticket x)) actor)
        ''publication author permission could not be verified'') (\<lambda>p.
      trustM (\<not> authorized_permission p) ''publication author lacks write permission'')"

section \<open>Comments\<close>

definition artifactKind_name :: "ArtifactKind \<Rightarrow> string" where
  "artifactKind_name k = (case k of AkAssessment \<Rightarrow> ''assessment'' | AkPlan \<Rightarrow> ''plan'' | AkQuestion \<Rightarrow> ''question''
     | AkReview \<Rightarrow> ''review'' | AkDiagnostic \<Rightarrow> ''diagnostic'' | AkDocumentation \<Rightarrow> ''documentation'')"

text \<open>The comments that may be the evidence; fresh ones are preferred to those that can be used again.\<close>

definition candidateComment :: "DecisionExpectation \<Rightarrow> ProviderComment \<Rightarrow> bool res" where
  "candidateComment x c = bindR (isBaseline x ''comment'' (pc_id c)) (\<lambda>b.
     ok (\<not> b \<and> \<not> opt_is (\<lambda>m. pc_id c \<in> set (mg_baselineComments m)) (de_migration x)
       \<and> \<not> includes_str (pc_body c) ''<!-- agent-flow-migration:''))"

definition markedComments :: "ProviderTicketSnapshot \<Rightarrow> ArtifactKind \<Rightarrow> DecisionExpectation \<Rightarrow> ProviderComment list res" where
  "markedComments sn k x = bindR (filterR (candidateComment x) (sn_comments sn)) (\<lambda>candidates.
     (let marked = filter (\<lambda>c. hasExpectedPublication (pc_body c) x
            \<and> (k \<noteq> AkDocumentation \<or> parseDocumentation (pc_body c) \<noteq> None)
            \<and> (k \<noteq> AkQuestion \<or> parseDocumentation (pc_body c) = None)) candidates;
          fresh = filter (\<lambda>c. pc_id c \<notin> set (de_reusableCommentIds x)) marked
      in ok (if fresh \<noteq> [] then fresh else marked)))"

definition discoverDecisionComment ::
  "ProviderTicketSnapshot \<Rightarrow> ArtifactKind \<Rightarrow> DecisionExpectation \<Rightarrow> 's DecisionProvider \<Rightarrow> ('s, ProviderComment) io" where
  "discoverDecisionComment sn k x pv =
    bindM (liftR (decisionMarker x)) (\<lambda>expectedMarker.
    bindM (liftR (markedComments sn k x)) (\<lambda>matches.
    (case matches of
       [] \<Rightarrow> liftR (evidenceUnavailable (artifactKind_name k @ '' comment evidence is unavailable''))
     | [discovered] \<Rightarrow>
        bindM (decisionProviderReadback (pv_readComment pv (de_ticket x) (pc_id discovered))
            ''marked comment disappeared during readback'') (\<lambda>published.
         thenM (trustM (pc_id published \<noteq> pc_id discovered) ''provider comment ID changed during readback'')
        (thenM (trustM (\<not> sameCommentUrl pv (pc_url published) (pc_url discovered) x (pc_id discovered))
            ''provider comment URL changed during readback'')
        (thenM (trustM (expectedMarker \<notin> set (lines_of (pc_body published))) ''provider comment marker changed during readback'')
        (thenM (trustM (\<not> sameProviderComment pv x discovered published) ''provider comment changed during readback'')
        (thenM (trustM (list_ex (\<lambda>l. starts_with l ''<!-- agent-flow-review:'') (lines_of (pc_body published)))
            ''non-review comment contains review metadata'')
        (thenM (assertAuthorizedPublication pv x (pc_actor published)) (retM published)))))))
     | _ \<Rightarrow> liftR (decisionTrust ''duplicate marked comment evidence was published''))))"

definition commentArtifact :: "ProviderComment \<Rightarrow> ArtifactKind \<Rightarrow> DecisionExpectation \<Rightarrow> ReceiptComment res" where
  "commentArtifact c k x = bindR (decisionMarker x) (\<lambda>m.
     ok \<lparr> rcm_id = pc_id c, rcm_url = pc_url c, rcm_marker = m, rcm_artifactKind = k, rcm_inputHead = None \<rparr>)"

section \<open>Change requests and reviews\<close>

definition changeArtifact :: "NormalizedChangeRequest \<Rightarrow> ReceiptArtifact" where
  "changeArtifact c = ArtChangeRequest \<lparr> rcr_number = nc_number c, rcr_url = nc_url c, rcr_headSha = nc_headSha c, rcr_state = nc_state c \<rparr>"

definition carriedM :: "NormalizedChangeRequest \<Rightarrow> DecisionExpectation \<Rightarrow> ('s, unit) io" where
  "carriedM c x = (case de_migration x of None \<Rightarrow> retM () | Some m \<Rightarrow> liftR (assertCarriedChange c m))"

definition notUpdated :: "DecisionExpectation \<Rightarrow> NormalizedChangeRequest \<Rightarrow> bool res" where
  "notUpdated x lk =
    (if de_migration x \<noteq> None \<or> de_resultContract x = RDocumentation then ok False
     else bindR (isBaseline x ''change-request'' (int_str (nc_number lk))) (\<lambda>b.
       ok (b \<and> (case de_pinned x of None \<Rightarrow> True | Some p \<Rightarrow> nc_headSha lk = nc_headSha p))))"

definition readDecisionChange ::
  "ProviderTicketSnapshot \<Rightarrow> DecisionExpectation \<Rightarrow> 's DecisionProvider \<Rightarrow> ('s, NormalizedChangeRequest) io" where
  "readDecisionChange sn x pv =
    (case sn_changeRequest sn of None \<Rightarrow> liftR (evidenceUnavailable ''linked change request evidence is unavailable'')
     | Some lk \<Rightarrow>
        thenM (assertChangeTicketIdentity lk (de_ticket x))
       (thenM (trustM (opt_is (\<lambda>p. \<not> sameChangeIdentity lk p) (de_pinned x))
          ''linked change request identity does not match the pinned change request'')
       (thenM (trustM (nc_state lk \<noteq> CsOpen) ''linked change request state is not open'')
       (thenM (unavailableM (\<not> hasExpectedPublication (nc_body lk) x \<and> de_migration x = None)
          ''linked change request publication marker is unavailable'')
       (thenM (carriedM lk x)
       (bindM (liftR (notUpdated x lk)) (\<lambda>stale.
        thenM (unavailableM stale ''linked change request was not updated for the current iteration'')
       (bindM (decisionProviderReadback (pv_readChangeRequest pv (de_ticket x) (nc_number lk))
           ''linked change request disappeared during readback'') (\<lambda>published.
        thenM (assertChangeTicketIdentity published (de_ticket x))
       (thenM (assertSameDecisionChange lk published)
       (thenM (trustM (\<not> hasExpectedPublication (nc_body published) x \<and> de_migration x = None)
          ''linked change request publication marker changed during readback'')
       (thenM (carriedM published x)
       (thenM (assertAuthorizedPublication pv x (nc_actor published)) (retM published))))))))))))))"

definition verdict_of :: "FlowEventType \<Rightarrow> ReviewVerdict" where
  "verdict_of e = (if e = ReviewApproved then VApproved else VChangesRequested)"

definition verdict_name :: "ReviewVerdict \<Rightarrow> string" where
  "verdict_name v = (case v of VApproved \<Rightarrow> ''approved'' | VChangesRequested \<Rightarrow> ''changes-requested'' | VCommented \<Rightarrow> ''commented'')"

definition reviewMetadata :: "string \<Rightarrow> ReviewVerdict \<Rightarrow> string" where
  "reviewMetadata head v = ''<!-- agent-flow-review:v1 head='' @ head @ '' verdict='' @ verdict_name v @ '' -->''"

definition nth_line :: "string list \<Rightarrow> nat \<Rightarrow> string option" where
  "nth_line ls n = (if n < length ls then Some (ls ! n) else None)"

definition readDecisionReview ::
  "ProviderTicketSnapshot \<Rightarrow> FlowEventType \<Rightarrow> DecisionExpectation \<Rightarrow> 's DecisionProvider \<Rightarrow> ('s, NormalizedReview) io" where
  "readDecisionReview sn e x pv =
    (case de_pinned x of None \<Rightarrow> liftR (decisionTrust ''review decision requires a pinned change request'')
     | Some pinned \<Rightarrow>
    (case sn_changeRequest sn of
       None \<Rightarrow> liftR (evidenceUnavailable ''linked change request evidence is unavailable for review'')
     | Some lk \<Rightarrow>
        thenM (assertChangeTicketIdentity lk (de_ticket x))
       (thenM (trustM (\<not> sameChangeIdentity lk pinned)
          ''linked change request identity does not match the pinned change request'')
       (thenM (trustM (nc_headSha lk \<noteq> nc_headSha pinned)
          ''linked change request head SHA does not match the pinned head SHA'')
       (thenM (trustM (nc_state lk \<noteq> CsOpen) ''linked change request state is not open for review'')
       (bindM (liftR (decisionMarker x)) (\<lambda>reviewMarker.
        bindM (liftR (baselineIds x ''review'')) (\<lambda>excludedIds.
        bindM (decisionProviderRead (pv_findReview pv (de_ticket x) (nc_number lk) reviewMarker excludedIds)
           ''provider review evidence could not be verified'') (\<lambda>found.
        (case found of None \<Rightarrow> liftR (evidenceUnavailable ''provider review evidence is unavailable'')
         | Some discovered \<Rightarrow>
            bindM (decisionProviderReadback (pv_readReview pv (de_ticket x) (nc_number lk) (nr_id discovered))
               ''provider review disappeared during readback'') (\<lambda>published.
             thenM (trustM (nr_id published \<noteq> nr_id discovered) ''provider review ID changed during readback'')
            (thenM (trustM (nr_url published \<noteq> nr_url discovered) ''provider review URL changed during readback'')
            (thenM (trustM (nr_headSha published \<noteq> nc_headSha pinned)
               ''provider review head SHA does not match the pinned head SHA'')
            (thenM (trustM (nr_verdict published \<noteq> verdict_of e) ''provider review verdict does not match the decision event'')
            (thenM (trustM (nth_line (lines_of (nr_body published)) 0 \<noteq> Some reviewMarker)
               ''provider review marker does not match the attempt'')
            (thenM (trustM (\<not> hasExpectedPublication (nr_body published) x) ''provider review publication marker is invalid'')
            (thenM (trustM (nth_line (lines_of (nr_body published)) 1 \<noteq> Some (reviewMetadata (nc_headSha pinned) (verdict_of e)))
               ''provider review metadata does not match the logical verdict'')
            (thenM (trustM (\<not> sameReview discovered published) ''provider review changed during readback'')
            (thenM (assertAuthorizedPublication pv x (nr_actor published)) (retM published))))))))))))))))))))"

section \<open>Human input\<close>

definition readHumanSource ::
  "ProviderTicketSnapshot \<Rightarrow> DecisionExpectation \<Rightarrow> 's DecisionProvider \<Rightarrow> ('s, ProviderComment) io" where
  "readHumanSource sn x pv =
    (case de_sourceComment x of None \<Rightarrow> liftR (decisionTrust ''human decision requires a pinned source comment'')
     | Some pinned \<Rightarrow>
        bindM (decisionProviderReadback (pv_readComment pv (de_ticket x) (pc_id pinned))
           ''human source comment disappeared during readback'') (\<lambda>published.
         thenM (trustM (parsePublication (pc_body published) \<noteq> PUnmarked) ''human source comment must be unmarked'')
        (thenM (trustM (\<not> sameProviderComment pv x pinned published)
           ''human source comment does not match the pinned source comment'')
        (thenM (trustM (\<not> list_ex (\<lambda>c. sameProviderComment pv x c published) (sn_comments sn))
           ''human source comment does not belong to the expected ticket'')
        (bindM (decisionProviderReadback (pv_permission pv (tr_repository (de_ticket x)) (pc_actor published))
           ''human source permission could not be verified'') (\<lambda>p.
         thenM (trustM (\<not> authorized_permission p) ''human source actor lacks write permission'')
           (retM published)))))))"

definition humanVerdict :: "FlowEventType \<Rightarrow> HumanVerdict res" where
  "humanVerdict e = (case e of
     HumanApproved \<Rightarrow> ok HvApproved | HumanAnswerAccepted \<Rightarrow> ok HvApproved
   | HumanChangesRequested \<Rightarrow> ok HvChangesRequested | HumanQuestion \<Rightarrow> ok HvQuestion
   | HumanUnclear \<Rightarrow> ok HvUnclear | HumanAnswerUnclear \<Rightarrow> ok HvUnclear
   | HumanCancelled \<Rightarrow> ok HvCancelled | HumanAnswerCancelled \<Rightarrow> ok HvCancelled
   | _ \<Rightarrow> invalidDecision ''decision event is not a human-input event'')"

section \<open>The last reading of the ticket\<close>

definition assertDecisionCommentMembership ::
  "ProviderComment list \<Rightarrow> ProviderTicketSnapshot \<Rightarrow> DecisionExpectation \<Rightarrow> 's DecisionProvider \<Rightarrow> ('s, unit) io" where
  "assertDecisionCommentMembership verified sn x pv =
    forM (\<lambda>published. trustM (length (filter (\<lambda>c. sameProviderComment pv x c published) (sn_comments sn)) \<noteq> 1)
      ''verified comment does not belong to the final expected ticket snapshot'') verified"

definition assertFinalDecisionChange ::
  "ProviderTicketSnapshot \<Rightarrow> NormalizedChangeRequest \<Rightarrow> DecisionExpectation \<Rightarrow> ('s, unit) io" where
  "assertFinalDecisionChange sn published x =
    (case sn_changeRequest sn of
       None \<Rightarrow> liftR (decisionTrust ''linked change request is missing from the final ticket snapshot'')
     | Some c \<Rightarrow> thenM (assertChangeTicketIdentity c (de_ticket x)) (assertSameDecisionChange c published))"

definition assertPinnedChange :: "ProviderTicketSnapshot \<Rightarrow> DecisionExpectation \<Rightarrow> string \<Rightarrow> ('s, unit) io" where
  "assertPinnedChange sn x stage =
    (case de_pinned x of None \<Rightarrow> liftR (decisionTrust (stage @ '' has no pinned change request''))
     | Some pinned \<Rightarrow>
    (case sn_changeRequest sn of
       None \<Rightarrow> liftR (decisionTrust (''linked change request is missing from the '' @ stage @ '' snapshot''))
     | Some c \<Rightarrow>
        thenM (trustM (\<not> sameChangeIdentity c pinned) (''linked change request identity changed during '' @ stage @ '' readback''))
       (thenM (trustM (nc_headSha c \<noteq> nc_headSha pinned) (''linked change request head SHA changed during '' @ stage @ '' readback''))
          (trustM (nc_state c \<noteq> CsOpen) (''linked change request state changed during '' @ stage @ '' readback'')))))"

section \<open>The decision file\<close>

text \<open>What opening and reading the file gives: its kind, the size that stat reports, and the bytes read with their text.\<close>

record DecisionFile =
  df_isFile :: bool
  df_size :: int
  df_bytes :: int
  df_text :: string

definition MAX_DECISION_BYTES :: int where "MAX_DECISION_BYTES = 1024 * 1024"

definition readBoundedDecision :: "DecisionFile option \<Rightarrow> string res" where
  "readBoundedDecision file =
    (case file of None \<Rightarrow> invalidDecision ''decision file could not be read''
     | Some f \<Rightarrow>
        if \<not> df_isFile f then invalidDecision ''decision path is not a regular file''
        else if df_size f > MAX_DECISION_BYTES then invalidDecision ''decision exceeds the maximum size''
        else if df_bytes f > MAX_DECISION_BYTES then invalidDecision ''decision exceeds the maximum size''
        else ok (df_text f))"

definition decidedEvent :: "(json \<Rightarrow> FlowEventType option) \<Rightarrow> DecisionExpectation \<Rightarrow> DecisionFile option \<Rightarrow> FlowEventType res" where
  "decidedEvent validate x file =
    bindR (readBoundedDecision file) (\<lambda>source.
    (case json_parse source of None \<Rightarrow> invalidDecision ''decision contains invalid JSON''
     | Some v \<Rightarrow>
    (case validate v of None \<Rightarrow> invalidDecision ''decision does not match the AgentDecision schema''
     | Some e \<Rightarrow>
    (case allowedAgentEvents (de_flow x) (de_stateId x) (de_mode x) of
       Inl _ \<Rightarrow> invalidDecision ''decision state is not configured in the pinned flow''
     | Inr allowed \<Rightarrow>
        if event_name e \<notin> set allowed then invalidDecision ''decision event is not allowed by the pinned flow state''
        else ok e))))"

section \<open>The receipt\<close>

record Evidence =
  ev_artifacts :: "ReceiptArtifact list"
  ev_comments :: "ProviderComment list"
  ev_change :: "NormalizedChangeRequest option"
  ev_gate :: "ReceiptHumanGate option"
  ev_outcome :: Outcome

definition no_evidence :: Evidence where
  "no_evidence = \<lparr> ev_artifacts = [], ev_comments = [], ev_change = None, ev_gate = None, ev_outcome = Succeeded \<rparr>"

definition comment_evidence ::
  "DecisionExpectation \<Rightarrow> ArtifactKind \<Rightarrow> ProviderComment \<Rightarrow> Evidence \<Rightarrow> Evidence res" where
  "comment_evidence x k published ev = bindR (commentArtifact published k x) (\<lambda>a.
     ok (ev \<lparr> ev_artifacts := ev_artifacts ev @ [ArtComment a], ev_comments := ev_comments ev @ [published] \<rparr>))"

definition commentKind :: "ResultContract \<Rightarrow> ArtifactKind option" where
  "commentKind c = (case c of RAssessment \<Rightarrow> Some AkAssessment | RPlan \<Rightarrow> Some AkPlan | RDiagnostic \<Rightarrow> Some AkDiagnostic
     | RVerification \<Rightarrow> Some AkDiagnostic | _ \<Rightarrow> None)"

definition documentationEvidence ::
  "ProviderTicketSnapshot \<Rightarrow> DecisionExpectation \<Rightarrow> 's DecisionProvider \<Rightarrow> ('s, Evidence) io" where
  "documentationEvidence sn x pv =
    (case de_pinned x of None \<Rightarrow> liftR (decisionTrust ''documentation requires a pinned implementation input'')
     | Some pinned \<Rightarrow>
        bindM (discoverDecisionComment sn AkDocumentation x pv) (\<lambda>published.
         thenM (trustM (\<not> list_ex (\<lambda>l. trim_str l \<noteq> [] \<and> \<not> starts_with (trim_str l) ''<!--'') (lines_of (pc_body published)))
            ''documentation report has no substantive result'')
        (case parseDocumentation (pc_body published) of
           None \<Rightarrow> liftR (decisionTrust ''documentation report does not match the pinned implementation iteration'')
         | Some m \<Rightarrow>
            thenM (trustM (dm_change m \<noteq> nc_number pinned \<or> dm_inputHead m \<noteq> nc_headSha pinned)
               ''documentation report does not match the pinned implementation iteration'')
           (bindM (readDecisionChange sn x pv) (\<lambda>change.
            thenM (trustM (dm_resultHead m \<noteq> nc_headSha change)
               ''documentation report result head does not match the linked request'')
           (bindM (liftR (commentArtifact published AkDocumentation x)) (\<lambda>a.
            retM (no_evidence \<lparr> ev_artifacts := [ArtComment (a \<lparr> rcm_inputHead := Some (dm_inputHead m) \<rparr>), changeArtifact change],
              ev_comments := [published], ev_change := Some change \<rparr>))))))))"

definition developmentEvidence ::
  "ProviderTicketSnapshot \<Rightarrow> DecisionExpectation \<Rightarrow> 's DecisionProvider \<Rightarrow> ('s, Evidence) io" where
  "developmentEvidence sn x pv =
    bindM (if de_migration x = None then retM no_evidence
           else bindM (discoverDecisionComment sn AkDiagnostic x pv) (\<lambda>proof_comment.
             liftR (comment_evidence x AkDiagnostic proof_comment no_evidence))) (\<lambda>ev.
    bindM (readDecisionChange sn x pv) (\<lambda>change.
      retM (ev \<lparr> ev_artifacts := ev_artifacts ev @ [changeArtifact change], ev_change := Some change \<rparr>)))"

definition successEvidence ::
  "ProviderTicketSnapshot \<Rightarrow> DecisionExpectation \<Rightarrow> 's DecisionProvider \<Rightarrow> ('s, Evidence) io" where
  "successEvidence sn x pv =
    (case commentKind (de_resultContract x) of
       Some k \<Rightarrow>
         bindM (discoverDecisionComment sn k x pv) (\<lambda>published.
          thenM (trustM (de_resultContract x = RVerification \<and> \<not> isVerifiedBugReceipt (pc_body published))
            (''bug verification requires a BUG RECEIPT '' @ [CHR 0xB7] @ '' VERIFIED diagnostic''))
            (liftR (comment_evidence x k published no_evidence)))
     | None \<Rightarrow>
         if de_resultContract x = RDocumentation then documentationEvidence sn x pv
         else if de_resultContract x = RDevelopment then developmentEvidence sn x pv
         else liftR (invalidDecision ''agent-succeeded is not configured for the pinned result contract''))"

definition questionEvidence ::
  "ProviderTicketSnapshot \<Rightarrow> DecisionExpectation \<Rightarrow> 's DecisionProvider \<Rightarrow> Evidence \<Rightarrow> ('s, Evidence) io" where
  "questionEvidence sn x pv ev = bindM (discoverDecisionComment sn AkQuestion x pv) (\<lambda>published.
     liftR (comment_evidence x AkQuestion published ev))"

definition humanEvidence ::
  "ProviderTicketSnapshot \<Rightarrow> FlowEventType \<Rightarrow> DecisionExpectation \<Rightarrow> 's DecisionProvider \<Rightarrow> ('s, Evidence) io" where
  "humanEvidence sn e x pv =
    bindM (readHumanSource sn x pv) (\<lambda>source.
    bindM (liftR (humanVerdict e)) (\<lambda>verdict.
     (let ev = no_evidence \<lparr> ev_comments := [source],
            ev_gate := Some \<lparr> rhg_sourceCommentId = pc_id source, rhg_verdict = verdict, rhg_notes = [] \<rparr> \<rparr>
      in if verdict = HvQuestion \<or> verdict = HvUnclear then questionEvidence sn x pv ev else retM ev)))"

definition reviewArtifact :: "NormalizedReview \<Rightarrow> ReceiptArtifact" where
  "reviewArtifact r = ArtReview \<lparr> rrv_id = nr_id r, rrv_url = nr_url r, rrv_headSha = nr_headSha r, rrv_verdict = nr_verdict r \<rparr>"

definition eventEvidence ::
  "ProviderTicketSnapshot \<Rightarrow> FlowEventType \<Rightarrow> DecisionExpectation \<Rightarrow> 's DecisionProvider \<Rightarrow> ('s, Evidence) io" where
  "eventEvidence sn e x pv =
    (if e = AgentSucceeded then successEvidence sn x pv
     else if e = AgentNeedsHuman
     then bindM (questionEvidence sn x pv no_evidence) (\<lambda>ev. retM (ev \<lparr> ev_outcome := NeedsHuman \<rparr>))
     else if e = ReviewApproved \<or> e = ReviewChangesRequested
     then bindM (readDecisionReview sn e x pv) (\<lambda>r. retM (no_evidence \<lparr> ev_artifacts := [reviewArtifact r] \<rparr>))
     else humanEvidence sn e x pv)"

fun decision_summary :: "FlowEventType \<Rightarrow> string" where
  "decision_summary AgentSucceeded = ''Agent completed the stage.''"
| "decision_summary AgentNeedsHuman = ''Agent requested human input.''"
| "decision_summary ReviewApproved = ''Review approved the change.''"
| "decision_summary ReviewChangesRequested = ''Review requested changes.''"
| "decision_summary HumanApproved = ''Human approved the result.''"
| "decision_summary HumanChangesRequested = ''Human requested changes.''"
| "decision_summary HumanQuestion = ''Human asked a question.''"
| "decision_summary HumanUnclear = ''Human intent was unclear.''"
| "decision_summary HumanCancelled = ''Human cancelled the flow.''"
| "decision_summary HumanAnswerAccepted = ''Human answer was accepted.''"
| "decision_summary HumanAnswerCancelled = ''Human answer cancelled the flow.''"
| "decision_summary HumanAnswerUnclear = ''Human answer was unclear.''"
| "decision_summary e = []"

definition pinnedEvidence ::
  "ProviderTicketSnapshot \<Rightarrow> FlowEventType \<Rightarrow> DecisionExpectation \<Rightarrow> ('s, unit) io" where
  "pinnedEvidence sn e x = whenM (de_resultContract x = RVerification \<and> e = AgentSucceeded) (assertPinnedChange sn x ''verification'')"

text \<open>The last reading: everything that was verified is still on the ticket.\<close>

definition finalEvidence ::
  "ProviderTicketSnapshot \<Rightarrow> FlowEventType \<Rightarrow> Evidence \<Rightarrow> DecisionExpectation \<Rightarrow> 's DecisionProvider \<Rightarrow> ('s, unit) io" where
  "finalEvidence sn e ev x pv =
    thenM (assertDecisionTicket sn (de_ticket x))
   (thenM (assertDecisionCommentMembership (ev_comments ev) sn x pv)
   (thenM (case ev_change ev of None \<Rightarrow> retM () | Some c \<Rightarrow> assertFinalDecisionChange sn c x)
   (thenM (whenM (e = ReviewApproved \<or> e = ReviewChangesRequested) (assertPinnedChange sn x ''review''))
      (pinnedEvidence sn e x))))"

definition builtReceipt :: "DecisionExpectation \<Rightarrow> FlowEventType \<Rightarrow> Evidence \<Rightarrow> AgentReceipt" where
  "builtReceipt x e ev = \<lparr> ar_flowInstanceId = de_flowInstanceId x, ar_attemptId = de_attemptId x, ar_outcome = ev_outcome ev,
     ar_summary = decision_summary e, ar_artifacts = ev_artifacts ev, ar_humanGate = ev_gate ev,
     ar_error = None, ar_usage = None \<rparr>"

definition readDecisionAndBuildReceipt ::
  "(json \<Rightarrow> FlowEventType option) \<Rightarrow> ('s, DecisionFile option) io \<Rightarrow> DecisionExpectation \<Rightarrow> 's DecisionProvider \<Rightarrow> bool
     \<Rightarrow> ('s, AgentReceipt) io" where
  "readDecisionAndBuildReceipt validate readFile x pv cancelled =
    thenM (trustM cancelled ''cancelled attempt cannot accept a decision'')
   (thenM (trustM (pv_kind pv \<noteq> tr_provider (de_ticket x)) ''provider does not match the expected ticket'')
   (bindM readFile (\<lambda>file.
    bindM (liftR (decidedEvent validate x file)) (\<lambda>e.
    bindM (decisionProviderRead (pv_readTicket pv (de_ticket x) (de_activationLabel x))
       ''provider decision evidence could not be verified'') (\<lambda>initial.
     thenM (assertDecisionTicket initial (de_ticket x))
    (thenM (pinnedEvidence initial e x)
    (bindM (eventEvidence initial e x pv) (\<lambda>ev.
     bindM (decisionProviderReadback (pv_readTicket pv (de_ticket x) (de_activationLabel x))
        ''provider ticket disappeared during final readback'') (\<lambda>final.
      thenM (finalEvidence final e ev x pv)
       (retM (builtReceipt x e ev)))))))))))"

end
