(* ===== verification/ReceiptProps.thy ===== *)
theory ReceiptProps
  imports Receipts
begin

text \<open>
  Properties of the receipts of attempts: what a receipt rests on, and which errors a decision that cannot be
  verified raises.
\<close>

section \<open>Steps\<close>

lemma trust_iff [run_iff]:
  "trustM b m s = (Inr u, s') \<longleftrightarrow> \<not> b \<and> s' = s"
  "trustM b m s = (Inl e, s') \<longleftrightarrow> b \<and> e = DecisionTrustError (take 240 m) \<and> s' = s"
  by (auto simp: trustM_def decisionTrust_def retM_def liftR_def ok_def)

lemma unavailable_iff [run_iff]:
  "unavailableM b m s = (Inr u, s') \<longleftrightarrow> \<not> b \<and> s' = s"
  "unavailableM b m s = (Inl e, s') \<longleftrightarrow> b \<and> e = DecisionEvidenceUnavailableError (take 240 m) \<and> s' = s"
  by (auto simp: unavailableM_def evidenceUnavailable_def retM_def liftR_def ok_def)

lemma operation_iff [run_iff]:
  "decisionProviderOperation op m b s = (Inr x, s') \<longleftrightarrow> op s = (Inr x, s')"
  "decisionProviderOperation op m b s = (Inl e, s') \<longleftrightarrow> (\<exists>e0. op s = (Inl e0, s') \<and> e = providerOperationError (take 240 m) b e0)"
  by (auto simp: decisionProviderOperation_def tryM_def throwM_def split: prod.splits sum.splits)

lemma read_iff [run_iff]:
  "decisionProviderRead op m s = (Inr x, s') \<longleftrightarrow> op s = (Inr x, s')"
  "decisionProviderReadback op m s = (Inr x, s') \<longleftrightarrow> op s = (Inr x, s')"
  by (simp_all add: decisionProviderRead_def decisionProviderReadback_def run_iff)

lemma refused [simp]: "decisionTrust m \<noteq> Inr x" "evidenceUnavailable m \<noteq> Inr x" "invalidDecision m \<noteq> Inr x"
  by (simp_all add: decisionTrust_def evidenceUnavailable_def invalidDecision_def)

section \<open>Evidence\<close>

text \<open>The provider answered that the actor may write to the repository of the ticket.\<close>

definition may_write :: "'s DecisionProvider \<Rightarrow> DecisionExpectation \<Rightarrow> Actor \<Rightarrow> bool" where
  "may_write pv x actor \<longleftrightarrow> (\<exists>s p s'. pv_permission pv (tr_repository (de_ticket x)) actor s = (Inr p, s') \<and> authorized_permission p)"

definition published_by :: "'s DecisionProvider \<Rightarrow> DecisionExpectation \<Rightarrow> ProviderComment \<Rightarrow> bool" where
  "published_by pv x c \<longleftrightarrow> hasExpectedPublication (pc_body c) x \<and> isBaseline x ''comment'' (pc_id c) = ok False
     \<and> may_write pv x (pc_actor c) \<and> (\<exists>s s'. pv_readComment pv (de_ticket x) (pc_id c) s = (Inr c, s'))"

lemma authorized_ok: "assertAuthorizedPublication pv x actor s = (Inr u, s') \<Longrightarrow> may_write pv x actor"
  unfolding assertAuthorizedPublication_def may_write_def by (auto simp: run_iff)

lemma filterR_set: "filterR p xs = ok ys \<Longrightarrow> y \<in> set ys \<Longrightarrow> y \<in> set xs \<and> p y = ok True"
proof (induction xs arbitrary: ys)
  case (Cons x xs)
  then show ?case by (auto split: if_split_asm)
qed simp

lemma marked_ok:
  assumes "markedComments sn k x = ok cs" "c \<in> set cs"
  shows "c \<in> set (sn_comments sn) \<and> hasExpectedPublication (pc_body c) x \<and> isBaseline x ''comment'' (pc_id c) = ok False
    \<and> (k = AkDocumentation \<longrightarrow> parseDocumentation (pc_body c) \<noteq> None)"
proof -
  obtain candidates where c: "filterR (candidateComment x) (sn_comments sn) = ok candidates" "c \<in> set candidates"
    "hasExpectedPublication (pc_body c) x" "k = AkDocumentation \<longrightarrow> parseDocumentation (pc_body c) \<noteq> None"
    using assms by (auto simp: markedComments_def Let_def split: if_split_asm)
  have "c \<in> set (sn_comments sn)" "candidateComment x c = ok True" using filterR_set [OF c(1,2)] by auto
  then show ?thesis using c(3,4) by (auto simp: candidateComment_def)
qed

lemma same_comment_body: "sameProviderComment pv x l r \<Longrightarrow> pc_body l = pc_body r \<and> pc_id l = pc_id r"
  by (simp add: sameProviderComment_def)

lemma discover_ok:
  assumes "discoverDecisionComment sn k x pv s = (Inr c, s')"
  shows "published_by pv x c \<and> (k = AkDocumentation \<longrightarrow> parseDocumentation (pc_body c) \<noteq> None)"
proof -
  obtain mk cs where mk: "decisionMarker x = Inr mk" "markedComments sn k x = Inr cs"
    "(case cs of [] \<Rightarrow> liftR (evidenceUnavailable (artifactKind_name k @ '' comment evidence is unavailable''))
     | [discovered] \<Rightarrow>
        bindM (decisionProviderReadback (pv_readComment pv (de_ticket x) (pc_id discovered))
            ''marked comment disappeared during readback'') (\<lambda>published.
         thenM (trustM (pc_id published \<noteq> pc_id discovered) ''provider comment ID changed during readback'')
        (thenM (trustM (\<not> sameCommentUrl pv (pc_url published) (pc_url discovered) x (pc_id discovered))
            ''provider comment URL changed during readback'')
        (thenM (trustM (mk \<notin> set (lines_of (pc_body published))) ''provider comment marker changed during readback'')
        (thenM (trustM (\<not> sameProviderComment pv x discovered published) ''provider comment changed during readback'')
        (thenM (trustM (list_ex (\<lambda>l. starts_with l ''<!-- agent-flow-review:'') (lines_of (pc_body published)))
            ''non-review comment contains review metadata'')
        (thenM (assertAuthorizedPublication pv x (pc_actor published)) (retM published)))))))
     | _ \<Rightarrow> liftR (decisionTrust ''duplicate marked comment evidence was published'')) s = (Inr c, s')"
    using assms unfolding discoverDecisionComment_def bindM_Inr_iff lift_iff by blast
  obtain d where d: "cs = [d]" using mk(3) by (cases cs rule: remdups_adj.cases) (auto simp: run_iff)
  obtain s1 s2 where r: "pv_readComment pv (de_ticket x) (pc_id d) s = (Inr c, s1)" "sameProviderComment pv x d c"
    "assertAuthorizedPublication pv x (pc_actor c) s1 = (Inr (), s2)"
    using mk(3) unfolding d by (auto simp: run_iff)
  have "d \<in> set cs" using d by simp
  note m = marked_ok [OF mk(2) [folded ok_def] this] and b = same_comment_body [OF r(2)]
  show ?thesis using m b r(1) authorized_ok [OF r(3)] unfolding published_by_def by metis
qed

text \<open>The linked change request: open, of the ticket, by an author who may write, with the marker or carried by the migration.\<close>

definition proven_change :: "'s DecisionProvider \<Rightarrow> DecisionExpectation \<Rightarrow> NormalizedChangeRequest \<Rightarrow> bool" where
  "proven_change pv x c \<longleftrightarrow> nc_state c = CsOpen \<and> nc_provider c = tr_provider (de_ticket x)
     \<and> nc_repository c = tr_repository (de_ticket x) \<and> may_write pv x (nc_actor c)
     \<and> (case de_migration x of None \<Rightarrow> hasExpectedPublication (nc_body c) x | Some m \<Rightarrow> assertCarriedChange c m = ok ())
     \<and> (\<forall>p. de_pinned x = Some p \<longrightarrow> sameChangeIdentity c p)
     \<and> (\<exists>s s'. pv_readChangeRequest pv (de_ticket x) (nc_number c) s = (Inr c, s'))"

lemma same_change_ok: "assertSameDecisionChange l r s = (Inr u, s') \<Longrightarrow>
    nc_provider l = nc_provider r \<and> nc_repository l = nc_repository r \<and> nc_number l = nc_number r \<and> nc_url l = nc_url r
    \<and> nc_headSha l = nc_headSha r \<and> nc_state l = nc_state r \<and> s' = s"
  by (auto simp: assertSameDecisionChange_def run_iff)

lemma readDecisionChange_ok:
  assumes "readDecisionChange sn x pv s = (Inr c, s')"
  shows "proven_change pv x c"
proof -
  obtain l where l: "sn_changeRequest sn = Some l"
    using assms by (cases "sn_changeRequest sn") (auto simp: readDecisionChange_def run_iff)
  obtain s1 s2 s3 s4 s5 where r: "\<not> opt_is (\<lambda>p. \<not> sameChangeIdentity l p) (de_pinned x)" "nc_state l = CsOpen"
    "pv_readChangeRequest pv (de_ticket x) (nc_number l) s1 = (Inr c, s2)"
    "assertChangeTicketIdentity c (de_ticket x) s2 = (Inr (), s3)" "assertSameDecisionChange l c s3 = (Inr (), s4)"
    "hasExpectedPublication (nc_body c) x \<or> de_migration x \<noteq> None" "carriedM c x s4 = (Inr (), s5)"
    "assertAuthorizedPublication pv x (nc_actor c) s5 = (Inr (), s')"
    using assms unfolding readDecisionChange_def l by (auto simp: run_iff)
  note sm = same_change_ok [OF r(5)]
  have t: "nc_provider c = tr_provider (de_ticket x) \<and> nc_repository c = tr_repository (de_ticket x)"
    using r(4) by (auto simp: assertChangeTicketIdentity_def run_iff)
  have "case de_migration x of None \<Rightarrow> hasExpectedPublication (nc_body c) x | Some m \<Rightarrow> assertCarriedChange c m = ok ()"
    using r(6,7) by (auto simp: carriedM_def run_iff ok_def split: option.split_asm)
  moreover have "\<forall>p. de_pinned x = Some p \<longrightarrow> sameChangeIdentity c p"
    using r(1) sm by (auto simp: sameChangeIdentity_def)
  ultimately show ?thesis using sm t r(2,3) authorized_ok [OF r(8)] unfolding proven_change_def by metis
qed

definition proven_review :: "'s DecisionProvider \<Rightarrow> DecisionExpectation \<Rightarrow> FlowEventType \<Rightarrow> NormalizedReview \<Rightarrow> bool" where
  "proven_review pv x e r \<longleftrightarrow> nr_verdict r = verdict_of e \<and> map_option nc_headSha (de_pinned x) = Some (nr_headSha r)
     \<and> hasExpectedPublication (nr_body r) x \<and> may_write pv x (nr_actor r)"

lemma readDecisionReview_ok:
  assumes "readDecisionReview sn e x pv s = (Inr r, s')"
  shows "proven_review pv x e r"
proof -
  obtain p where p: "de_pinned x = Some p" using assms by (cases "de_pinned x") (auto simp: readDecisionReview_def run_iff)
  obtain l where l: "sn_changeRequest sn = Some l"
    using assms p by (cases "sn_changeRequest sn") (auto simp: readDecisionReview_def run_iff)
  obtain mk ex s1 found s2 where f: "(case found of None \<Rightarrow> liftR (evidenceUnavailable ''provider review evidence is unavailable'')
         | Some discovered \<Rightarrow>
            bindM (decisionProviderReadback (pv_readReview pv (de_ticket x) (nc_number l) (nr_id discovered))
               ''provider review disappeared during readback'') (\<lambda>published.
             thenM (trustM (nr_id published \<noteq> nr_id discovered) ''provider review ID changed during readback'')
            (thenM (trustM (nr_url published \<noteq> nr_url discovered) ''provider review URL changed during readback'')
            (thenM (trustM (nr_headSha published \<noteq> nc_headSha p)
               ''provider review head SHA does not match the pinned head SHA'')
            (thenM (trustM (nr_verdict published \<noteq> verdict_of e) ''provider review verdict does not match the decision event'')
            (thenM (trustM (nth_line (lines_of (nr_body published)) 0 \<noteq> Some mk)
               ''provider review marker does not match the attempt'')
            (thenM (trustM (\<not> hasExpectedPublication (nr_body published) x) ''provider review publication marker is invalid'')
            (thenM (trustM (nth_line (lines_of (nr_body published)) 1 \<noteq> Some (reviewMetadata (nc_headSha p) (verdict_of e)))
               ''provider review metadata does not match the logical verdict'')
            (thenM (trustM (\<not> sameReview discovered published) ''provider review changed during readback'')
            (thenM (assertAuthorizedPublication pv x (nr_actor published)) (retM published))))))))))) s2 = (Inr r, s')"
    using assms unfolding readDecisionReview_def p l option.case thenM_Inr_iff bindM_Inr_iff lift_iff by blast
  obtain d where d: "found = Some d" using f by (cases found) (auto simp: run_iff)
  obtain s3 s4 where "nr_headSha r = nc_headSha p" "nr_verdict r = verdict_of e" "hasExpectedPublication (nr_body r) x"
    "assertAuthorizedPublication pv x (nr_actor r) s3 = (Inr (), s4)"
    using f unfolding d by (auto simp: run_iff)
  then show ?thesis using p authorized_ok unfolding proven_review_def by fastforce
qed

text \<open>The answered comment: the pinned one, without marker, by an author who may write.\<close>

definition proven_source :: "'s DecisionProvider \<Rightarrow> DecisionExpectation \<Rightarrow> ProviderComment \<Rightarrow> bool" where
  "proven_source pv x c \<longleftrightarrow> (\<exists>p. de_sourceComment x = Some p \<and> sameProviderComment pv x p c)
     \<and> parsePublication (pc_body c) = PUnmarked \<and> may_write pv x (pc_actor c)"

lemma readHumanSource_ok:
  assumes "readHumanSource sn x pv s = (Inr c, s')"
  shows "proven_source pv x c"
proof -
  obtain p where p: "de_sourceComment x = Some p" using assms by (cases "de_sourceComment x") (auto simp: readHumanSource_def run_iff)
  obtain s1 q s2 where "parsePublication (pc_body c) = PUnmarked" "sameProviderComment pv x p c"
    "pv_permission pv (tr_repository (de_ticket x)) (pc_actor c) s1 = (Inr q, s2)" "authorized_permission q"
    using assms unfolding readHumanSource_def p by (auto simp: run_iff)
  then show ?thesis using p unfolding proven_source_def may_write_def by blast
qed

text \<open>What an event may rest on: every artifact and the gate come from a verified publication that the last reading still checks.\<close>

definition artifact_backed :: "'s DecisionProvider \<Rightarrow> DecisionExpectation \<Rightarrow> FlowEventType \<Rightarrow> Evidence \<Rightarrow> ReceiptArtifact \<Rightarrow> bool" where
  "artifact_backed pv x e ev a \<longleftrightarrow> (case a of
     ArtComment c \<Rightarrow> \<exists>p \<in> set (ev_comments ev). published_by pv x p \<and> rcm_id c = pc_id p \<and> rcm_url c = pc_url p
       \<and> decisionMarker x = ok (rcm_marker c)
   | ArtChangeRequest c \<Rightarrow> \<exists>p. ev_change ev = Some p \<and> proven_change pv x p \<and> a = changeArtifact p
   | ArtReview r \<Rightarrow> (e = ReviewApproved \<or> e = ReviewChangesRequested) \<and> (\<exists>p. proven_review pv x e p \<and> a = reviewArtifact p))"

definition gate_backed :: "'s DecisionProvider \<Rightarrow> DecisionExpectation \<Rightarrow> FlowEventType \<Rightarrow> Evidence \<Rightarrow> ReceiptHumanGate \<Rightarrow> bool" where
  "gate_backed pv x e ev g \<longleftrightarrow> humanVerdict e = ok (rhg_verdict g)
     \<and> (\<exists>p \<in> set (ev_comments ev). proven_source pv x p \<and> rhg_sourceCommentId g = pc_id p)"

definition evidence_backed :: "'s DecisionProvider \<Rightarrow> DecisionExpectation \<Rightarrow> FlowEventType \<Rightarrow> Evidence \<Rightarrow> bool" where
  "evidence_backed pv x e ev \<longleftrightarrow> list_all (artifact_backed pv x e ev) (ev_artifacts ev)
     \<and> (\<forall>g. ev_gate ev = Some g \<longrightarrow> gate_backed pv x e ev g)"

lemma discover_returns: "returnsM (\<lambda>c. published_by pv x c) (discoverDecisionComment sn k x pv)"
  unfolding returnsM_def using discover_ok by metis

lemma change_returns: "returnsM (\<lambda>c. proven_change pv x c) (readDecisionChange sn x pv)"
  unfolding returnsM_def using readDecisionChange_ok by metis

lemma review_returns: "returnsM (\<lambda>r. proven_review pv x e r) (readDecisionReview sn e x pv)"
  unfolding returnsM_def using readDecisionReview_ok by metis

lemma source_returns: "returnsM (\<lambda>c. proven_source pv x c) (readHumanSource sn x pv)"
  unfolding returnsM_def using readHumanSource_ok by metis

lemma returns_lift: "(\<And>y. r = Inr y \<Longrightarrow> Q y) \<Longrightarrow> returnsM Q (liftR r)"
  by (auto simp: returnsM_def run_iff)

lemma returns_then [returns]: "returnsM Q n \<Longrightarrow> returnsM Q (thenM m n)"
  unfolding returnsM_def run_iff by blast

lemma comment_artifact_backed:
  "commentArtifact p k x = Inr a \<Longrightarrow> rcm_id a = pc_id p \<and> rcm_url a = pc_url p \<and> decisionMarker x = ok (rcm_marker a)"
  by (cases "decisionMarker x") (auto simp: commentArtifact_def ok_def)

text \<open>Adding the artifact of a verified comment keeps what is backed.\<close>

lemma comment_evidence_backed:
  assumes "evidence_backed pv x e ev" "published_by pv x p" "comment_evidence x k p ev = Inr ev'"
  shows "evidence_backed pv x e ev'"
proof -
  obtain a where a: "commentArtifact p k x = Inr a"
    and ev': "ev' = ev \<lparr> ev_artifacts := ev_artifacts ev @ [ArtComment a], ev_comments := ev_comments ev @ [p] \<rparr>"
    using assms(3) by (auto simp: comment_evidence_def bindR_Inr_iff)
  have mono: "artifact_backed pv x e ev b \<Longrightarrow> artifact_backed pv x e ev' b" for b
    by (auto simp: artifact_backed_def ev' split: ReceiptArtifact.splits)
  have "artifact_backed pv x e ev' (ArtComment a)"
    using comment_artifact_backed [OF a] assms(2) by (auto simp: artifact_backed_def ev')
  then show ?thesis using assms(1) mono by (auto simp: evidence_backed_def list_all_iff ev' gate_backed_def)
qed

lemma no_evidence_backed: "evidence_backed pv x e no_evidence"
  by (simp add: evidence_backed_def no_evidence_def)

lemma comment_then: "evidence_backed pv x e ev \<Longrightarrow> published_by pv x p \<Longrightarrow> returnsM (evidence_backed pv x e) (liftR (comment_evidence x k p ev))"
  by (blast intro: returns_lift comment_evidence_backed)

lemma question_backed: "evidence_backed pv x e ev \<Longrightarrow> returnsM (evidence_backed pv x e) (questionEvidence sn x pv ev)"
  unfolding questionEvidence_def by (blast intro: returns_bind discover_returns comment_then)

lemma documentation_backed: "returnsM (evidence_backed pv x e) (documentationEvidence sn x pv)"
proof -
  have built: "returnsM (evidence_backed pv x e) (retM (no_evidence \<lparr>
      ev_artifacts := [ArtComment (a \<lparr> rcm_inputHead := i \<rparr>), changeArtifact c], ev_comments := [p], ev_change := Some c \<rparr>))"
    if "published_by pv x p" "proven_change pv x c" "commentArtifact p k x = Inr a" for p c a k i
    using that(1,2) comment_artifact_backed [OF that(3)]
    by (intro returns_ret) (auto simp: evidence_backed_def no_evidence_def artifact_backed_def changeArtifact_def)
  have lifted: "returnsM (\<lambda>a. commentArtifact p k x = Inr a) (liftR (commentArtifact p k x))" for p k
    by (rule returns_lift)
  show ?thesis unfolding documentationEvidence_def
    by (rule returns_option, rule returns_lift, simp, rule returns_bind [OF discover_returns], rule returns_then,
      rule returns_option, rule returns_lift, simp, rule returns_then, rule returns_bind [OF change_returns],
      rule returns_then, rule returns_bind [OF lifted]) (rule built)
qed

lemma development_backed: "returnsM (evidence_backed pv x e) (developmentEvidence sn x pv)"
proof -
  have add: "evidence_backed pv x e (ev \<lparr> ev_artifacts := ev_artifacts ev @ [changeArtifact c], ev_change := Some c \<rparr>)"
    if "evidence_backed pv x e ev" "ev_change ev = None" "proven_change pv x c" for ev c
  proof -
    have "artifact_backed pv x e ev a \<Longrightarrow> artifact_backed pv x e (ev \<lparr> ev_artifacts := ev_artifacts ev @ [changeArtifact c], ev_change := Some c \<rparr>) a" for a
      using that(2) by (auto simp: artifact_backed_def split: ReceiptArtifact.splits)
    moreover have "artifact_backed pv x e (ev \<lparr> ev_artifacts := ev_artifacts ev @ [changeArtifact c], ev_change := Some c \<rparr>) (changeArtifact c)"
      using that(3) by (simp add: artifact_backed_def changeArtifact_def)
    ultimately show ?thesis using that(1) by (simp add: evidence_backed_def list_all_iff gate_backed_def)
  qed
  have fresh: "returnsM (\<lambda>ev. evidence_backed pv x e ev \<and> ev_change ev = None)
      (liftR (comment_evidence x k p no_evidence))" if "published_by pv x p" for k p
  proof (rule returns_lift, rule conjI)
    fix ev assume ev: "comment_evidence x k p no_evidence = Inr ev"
    show "evidence_backed pv x e ev" by (rule comment_evidence_backed [OF no_evidence_backed that ev])
    show "ev_change ev = None" using ev by (auto simp: comment_evidence_def bindR_Inr_iff no_evidence_def)
  qed
  have first: "returnsM (\<lambda>ev. evidence_backed pv x e ev \<and> ev_change ev = None)
      (if de_migration x = None then retM no_evidence
       else bindM (discoverDecisionComment sn AkDiagnostic x pv) (\<lambda>p. liftR (comment_evidence x AkDiagnostic p no_evidence)))"
  proof (rule returns_if)
    show "returnsM (\<lambda>ev. evidence_backed pv x e ev \<and> ev_change ev = None) (retM no_evidence)"
      by (rule returns_ret) (simp add: no_evidence_backed, simp add: no_evidence_def)
    show "returnsM (\<lambda>ev. evidence_backed pv x e ev \<and> ev_change ev = None)
       (bindM (discoverDecisionComment sn AkDiagnostic x pv) (\<lambda>p. liftR (comment_evidence x AkDiagnostic p no_evidence)))"
      by (rule returns_bind [OF discover_returns]) (rule fresh)
  qed
  show ?thesis unfolding developmentEvidence_def
    by (rule returns_bind [OF first], rule returns_bind [OF change_returns], rule returns_ret) (simp add: add)
qed

lemma success_backed: "returnsM (evidence_backed pv x e) (successEvidence sn x pv)"
  unfolding successEvidence_def
  by (auto intro!: returns_option returns_if returns_lift documentation_backed development_backed returns_then
      returns_bind [OF discover_returns] comment_evidence_backed [OF no_evidence_backed])

lemma human_backed: "returnsM (evidence_backed pv x e) (humanEvidence sn e x pv)"
proof -
  have gate: "evidence_backed pv x e (no_evidence \<lparr> ev_comments := [c],
      ev_gate := Some \<lparr> rhg_sourceCommentId = pc_id c, rhg_verdict = v, rhg_notes = [] \<rparr> \<rparr>)"
    if "proven_source pv x c" "humanVerdict e = Inr v" for c v
    using that by (simp add: evidence_backed_def no_evidence_def gate_backed_def)
  have lifted: "returnsM (\<lambda>v. humanVerdict e = Inr v) (liftR (humanVerdict e))" by (rule returns_lift)
  show ?thesis unfolding humanEvidence_def Let_def
    by (rule returns_bind [OF source_returns], rule returns_bind [OF lifted], rule returns_if)
      (auto intro: question_backed gate returns_ret)
qed

lemma event_backed: "returnsM (evidence_backed pv x e) (eventEvidence sn e x pv)"
proof -
  have out: "artifact_backed pv x e (ev \<lparr> ev_outcome := v \<rparr>) = artifact_backed pv x e ev" for ev v
    by (rule ext) (simp add: artifact_backed_def split: ReceiptArtifact.split)
  have question: "returnsM (evidence_backed pv x e) (bindM (questionEvidence sn x pv no_evidence) (\<lambda>ev. retM (ev \<lparr> ev_outcome := NeedsHuman \<rparr>)))"
    by (rule returns_bind [OF question_backed [OF no_evidence_backed, of pv x e]], rule returns_ret)
      (simp add: evidence_backed_def gate_backed_def out)
  have review: "returnsM (evidence_backed pv x e) (bindM (readDecisionReview sn e x pv) (\<lambda>r. retM (no_evidence \<lparr> ev_artifacts := [reviewArtifact r] \<rparr>)))"
    if "e = ReviewApproved \<or> e = ReviewChangesRequested"
    using that by (intro returns_bind [OF review_returns] returns_ret)
      (auto simp: evidence_backed_def no_evidence_def artifact_backed_def reviewArtifact_def)
  show ?thesis unfolding eventEvidence_def
    by (intro returns_if success_backed question human_backed) (rule review)
qed

definition outcome_of :: "FlowEventType \<Rightarrow> Outcome" where
  "outcome_of e = (if e = AgentNeedsHuman then NeedsHuman else Succeeded)"

lemma comment_outcome: "comment_evidence x k p ev = Inr ev' \<Longrightarrow> ev_outcome ev' = ev_outcome ev"
  by (auto simp: comment_evidence_def bindR_Inr_iff)

lemma question_outcome: "returnsM (\<lambda>ev'. ev_outcome ev' = ev_outcome ev) (questionEvidence sn x pv ev)"
  unfolding questionEvidence_def by (rule returns_last, rule returns_lift) (simp add: comment_outcome)

lemma event_outcome: "returnsM (\<lambda>ev. ev_outcome ev = outcome_of e) (eventEvidence sn e x pv)"
proof -
  have kept: "returnsM (\<lambda>ev. ev_outcome ev = Succeeded) (liftR (comment_evidence x k p no_evidence))" for k p
    by (rule returns_lift) (auto simp: comment_outcome no_evidence_def)
  have success: "returnsM (\<lambda>ev. ev_outcome ev = Succeeded) (successEvidence sn x pv)"
    unfolding successEvidence_def documentationEvidence_def developmentEvidence_def
    by (intro returns_option returns_if returns_last returns_then kept returns_ret returns_lift
        returns_bind [of "\<lambda>ev. ev_outcome ev = Succeeded"])
      (auto simp: no_evidence_def returns_ret intro!: returns_last kept [unfolded no_evidence_def])
  have human: "returnsM (\<lambda>ev. ev_outcome ev = Succeeded) (humanEvidence sn e x pv)"
    unfolding humanEvidence_def Let_def
    by (intro returns_last returns_if returns_ret) (auto intro!: returns_mono [OF question_outcome] simp: no_evidence_def)
  show ?thesis unfolding eventEvidence_def
    by (intro returns_if) (auto simp: outcome_of_def no_evidence_def intro!: success human returns_last returns_ret)
qed

section \<open>The receipt\<close>

text \<open>What an artifact of a receipt says is verified, and the last reading of the ticket still shows it.\<close>

definition artifact_shown :: "'s DecisionProvider \<Rightarrow> DecisionExpectation \<Rightarrow> FlowEventType \<Rightarrow> ProviderTicketSnapshot \<Rightarrow> ReceiptArtifact \<Rightarrow> bool" where
  "artifact_shown pv x e final a \<longleftrightarrow> (case a of
     ArtComment c \<Rightarrow> \<exists>p. published_by pv x p \<and> rcm_id c = pc_id p \<and> rcm_url c = pc_url p \<and> decisionMarker x = ok (rcm_marker c)
       \<and> length (filter (\<lambda>q. sameProviderComment pv x q p) (sn_comments final)) = 1
   | ArtChangeRequest c \<Rightarrow> \<exists>p l. proven_change pv x p \<and> a = changeArtifact p \<and> sn_changeRequest final = Some l \<and> a = changeArtifact l
   | ArtReview r \<Rightarrow> \<exists>p l pin. proven_review pv x e p \<and> a = reviewArtifact p \<and> de_pinned x = Some pin
       \<and> sn_changeRequest final = Some l \<and> sameChangeIdentity l pin \<and> nc_headSha l = rrv_headSha r \<and> nc_state l = CsOpen)"

lemma membership_ok: "assertDecisionCommentMembership cs final x pv s = (Inr u, s') \<Longrightarrow> p \<in> set cs
    \<Longrightarrow> length (filter (\<lambda>q. sameProviderComment pv x q p) (sn_comments final)) = 1"
  unfolding assertDecisionCommentMembership_def
  by (induction cs arbitrary: s) (auto simp: run_iff)

lemma pinned_ok: "assertPinnedChange final x st s = (Inr u, s') \<Longrightarrow> \<exists>l pin. de_pinned x = Some pin
    \<and> sn_changeRequest final = Some l \<and> sameChangeIdentity l pin \<and> nc_headSha l = nc_headSha pin \<and> nc_state l = CsOpen"
  by (auto simp: assertPinnedChange_def run_iff split: option.split_asm)

lemma final_change_ok: "assertFinalDecisionChange final c x s = (Inr u, s') \<Longrightarrow> \<exists>l. sn_changeRequest final = Some l \<and> changeArtifact c = changeArtifact l"
  by (cases "sn_changeRequest final") (auto simp: assertFinalDecisionChange_def run_iff changeArtifact_def dest: same_change_ok)

lemma final_ok:
  assumes f: "finalEvidence final e ev x pv s = (Inr u, s')" and b: "evidence_backed pv x e ev"
  shows "tr_repository (sn_ref final) = tr_repository (de_ticket x) \<and> tr_number (sn_ref final) = tr_number (de_ticket x)"
    and "\<forall>a \<in> set (ev_artifacts ev). artifact_shown pv x e final a"
    and "ev_gate ev = Some g \<Longrightarrow> humanVerdict e = ok (rhg_verdict g) \<and> (\<exists>p. proven_source pv x p \<and> rhg_sourceCommentId g = pc_id p
      \<and> length (filter (\<lambda>q. sameProviderComment pv x q p) (sn_comments final)) = 1)"
proof -
  obtain s1 s2 s3 s4 where r: "assertDecisionTicket final (de_ticket x) s = (Inr (), s1)"
    "assertDecisionCommentMembership (ev_comments ev) final x pv s1 = (Inr (), s2)"
    "(case ev_change ev of None \<Rightarrow> retM () | Some c \<Rightarrow> assertFinalDecisionChange final c x) s2 = (Inr (), s3)"
    "whenM (e = ReviewApproved \<or> e = ReviewChangesRequested) (assertPinnedChange final x ''review'') s3 = (Inr (), s4)"
    using f unfolding finalEvidence_def thenM_Inr_iff by auto
  note member = membership_ok [OF r(2)]
  show "tr_repository (sn_ref final) = tr_repository (de_ticket x) \<and> tr_number (sn_ref final) = tr_number (de_ticket x)"
    using r(1) by (auto simp: assertDecisionTicket_def run_iff)
  have "artifact_shown pv x e final a" if backed: "artifact_backed pv x e ev a" for a
  proof (cases a)
    case (ArtComment c)
    then show ?thesis using backed member by (auto simp: artifact_backed_def artifact_shown_def)
  next
    case (ArtChangeRequest c)
    then show ?thesis using backed r(3) final_change_ok by (fastforce simp: artifact_backed_def artifact_shown_def)
  next
    case (ArtReview v)
    then obtain p where p: "proven_review pv x e p" "a = reviewArtifact p" "e = ReviewApproved \<or> e = ReviewChangesRequested"
      using backed by (auto simp: artifact_backed_def)
    then have "assertPinnedChange final x ''review'' s3 = (Inr (), s4)" using r(4) by (simp add: whenM_def)
    from pinned_ok [OF this] p ArtReview show ?thesis
      by (auto simp: artifact_shown_def proven_review_def reviewArtifact_def)
  qed
  then show "\<forall>a \<in> set (ev_artifacts ev). artifact_shown pv x e final a" using b by (auto simp: evidence_backed_def list_all_iff)
  show "humanVerdict e = ok (rhg_verdict g) \<and> (\<exists>p. proven_source pv x p \<and> rhg_sourceCommentId g = pc_id p
      \<and> length (filter (\<lambda>q. sameProviderComment pv x q p) (sn_comments final)) = 1)" if "ev_gate ev = Some g"
    using b that member by (auto simp: evidence_backed_def gate_backed_def)
qed

lemma decided_ok:
  assumes "decidedEvent validate x fl = Inr e"
  shows "transition_of (de_flow x) (de_stateId x) e \<noteq> None \<and> mode_event (de_mode x) (event_name e)"
proof -
  obtain source v e' where v: "readBoundedDecision fl = Inr source" "json_parse source = Some v" "validate v = Some e'"
    using assms by (auto simp: decidedEvent_def bindR_Inr_iff split: option.split_asm)
  have d: "(case allowedAgentEvents (de_flow x) (de_stateId x) (de_mode x) of
       Inl _ \<Rightarrow> invalidDecision ''decision state is not configured in the pinned flow''
     | Inr allowed \<Rightarrow>
        if event_name e' \<notin> set allowed then invalidDecision ''decision event is not allowed by the pinned flow state''
        else ok e') = Inr e"
    using assms v by (auto simp: decidedEvent_def bindR_Inr_iff)
  then obtain allowed where "allowedAgentEvents (de_flow x) (de_stateId x) (de_mode x) = ok allowed" "event_name e \<in> set allowed"
    by (cases "allowedAgentEvents (de_flow x) (de_stateId x) (de_mode x)") (auto simp: ok_def split: if_split_asm)
  from allowed_transition [OF this] show ?thesis by simp
qed

text \<open>
  C24: A receipt is made only from verified evidence. The attempt was not cancelled, the receipt names its flow
  instance and attempt, the event it rests on is one the agent may raise and the flow has a transition for, and at a
  last reading of the ticket of the attempt every comment, change request and review that the receipt names is a
  verified publication that this reading still shows (a comment exactly once, the change request and the reviewed
  head unchanged and open), and a human gate rests on the pinned, unmarked comment of an author who may write.
\<close>

theorem receipt_evidenced:
  assumes "readDecisionAndBuildReceipt validate readFile x pv cancelled s = (Inr r, s')"
  shows "\<not> cancelled \<and> ar_flowInstanceId r = de_flowInstanceId x \<and> ar_attemptId r = de_attemptId x
    \<and> (\<exists>e final s1 s2. transition_of (de_flow x) (de_stateId x) e \<noteq> None \<and> mode_event (de_mode x) (event_name e)
       \<and> ar_outcome r = outcome_of e
       \<and> pv_readTicket pv (de_ticket x) (de_activationLabel x) s1 = (Inr final, s2)
       \<and> tr_repository (sn_ref final) = tr_repository (de_ticket x) \<and> tr_number (sn_ref final) = tr_number (de_ticket x)
       \<and> list_all (artifact_shown pv x e final) (ar_artifacts r)
       \<and> (case ar_humanGate r of None \<Rightarrow> True | Some g \<Rightarrow> humanVerdict e = ok (rhg_verdict g)
           \<and> (\<exists>p. proven_source pv x p \<and> rhg_sourceCommentId g = pc_id p
             \<and> length (filter (\<lambda>q. sameProviderComment pv x q p) (sn_comments final)) = 1)))"
proof -
  obtain fl e initial ev final s1 s2 s3 s4 s5 s6 where r: "\<not> cancelled" "decidedEvent validate x fl = Inr e"
    "eventEvidence initial e x pv s3 = (Inr ev, s4)"
    "pv_readTicket pv (de_ticket x) (de_activationLabel x) s4 = (Inr final, s5)"
    "finalEvidence final e ev x pv s5 = (Inr (), s6)" "r = builtReceipt x e ev"
    using assms unfolding readDecisionAndBuildReceipt_def by (auto simp: run_iff)
  note b = returnsD [OF event_backed r(3)] and o = returnsD [OF event_outcome r(3)]
  note f = final_ok [OF r(5) b]
  have "case ar_humanGate r of None \<Rightarrow> True | Some g \<Rightarrow> humanVerdict e = ok (rhg_verdict g)
      \<and> (\<exists>p. proven_source pv x p \<and> rhg_sourceCommentId g = pc_id p
        \<and> length (filter (\<lambda>q. sameProviderComment pv x q p) (sn_comments final)) = 1)"
    using f(3) by (cases "ev_gate ev") (auto simp: r(6) builtReceipt_def)
  then show ?thesis using r(1,4) decided_ok [OF r(2)] f(1,2) o unfolding r(6)
    by (intro conjI exI [of _ e] exI [of _ final] exI [of _ s4] exI [of _ s5]) (auto simp: builtReceipt_def list_all_iff)
qed

text \<open>A provider with one comment on the ticket of the samples: a plan with the publication marker of the attempt.\<close>

definition plan_comment :: ProviderComment where
  "plan_comment = \<lparr> pc_id = ''c1'', pc_url = ''https://github.com/acme/app/issues/12#c1'',
     pc_body = (case renderPublication \<lparr> pm_config = sample_sha, pm_controller = sample_uuid \<rparr> of Inr m \<Rightarrow> m | Inl _ \<Rightarrow> []),
     pc_actor = sample_actor, pc_createdAt = ''2026-01-02T00:00:00Z'', pc_updatedAt = ''2026-01-02T00:00:00Z'' \<rparr>"

definition plan_provider :: "bool \<Rightarrow> unit DecisionProvider" where
  "plan_provider published = \<lparr> pv_kind = Github,
     pv_readTicket = (\<lambda>_ _. retM (sample_snapshot \<lparr> sn_comments := if published then [plan_comment] else [] \<rparr>)),
     pv_readComment = (\<lambda>_ _. retM plan_comment), pv_readChangeRequest = (\<lambda>_ _. failM ''none''),
     pv_findReview = (\<lambda>_ _ _ _. retM None), pv_readReview = (\<lambda>_ _ _. failM ''none''), pv_permission = (\<lambda>_ _. retM PWrite),
     pv_createComment = (\<lambda>_ _. failM ''none''), pv_url = (\<lambda>_. None) \<rparr>"

definition plan_expectation :: DecisionExpectation where
  "plan_expectation = \<lparr> de_migration = None, de_flow = sample_flow, de_stateId = ''develop'', de_mode = MStage,
     de_resultContract = RPlan, de_configRevision = sample_sha, de_activationLabel = None, de_activatedAt = None,
     de_controllerId = sample_uuid, de_publicationKeys = [], de_reusableCommentIds = [], de_flowInstanceId = ''f1'',
     de_attemptId = ''a1'', de_ticket = sample_ref, de_sourceComment = None, de_pinned = None \<rparr>"

definition plan_schema :: "json \<Rightarrow> FlowEventType option" where
  "plan_schema j = (if j = JObj [(''event'', JStr ''agent-succeeded'')] then Some AgentSucceeded else None)"

definition plan_file :: "(unit, DecisionFile option) io" where
  "plan_file = retM (Some \<lparr> df_isFile = True, df_size = 27, df_bytes = 27, df_text =
     [CHR ''{'', CHR 0x22] @ ''event'' @ [CHR 0x22, CHR '':'', CHR 0x22] @ ''agent-succeeded'' @ [CHR 0x22, CHR ''}''] \<rparr>)"

definition plan_receipt :: AgentReceipt where
  "plan_receipt = builtReceipt plan_expectation AgentSucceeded (no_evidence \<lparr>
     ev_artifacts := [ArtComment \<lparr> rcm_id = ''c1'', rcm_url = pc_url plan_comment, rcm_marker = pc_body plan_comment,
       rcm_artifactKind = AkPlan, rcm_inputHead = None \<rparr>], ev_comments := [plan_comment] \<rparr>)"

lemma plan_run: "readDecisionAndBuildReceipt plan_schema plan_file plan_expectation (plan_provider True) False () = (Inr plan_receipt, ())"
  by code_simp

lemma plan_shape: "ar_flowInstanceId plan_receipt = ''f1''" "ar_attemptId plan_receipt = ''a1''" "ar_outcome plan_receipt = Succeeded"
    "ar_humanGate plan_receipt = None" "length (ar_artifacts plan_receipt) = 1"
  by (simp_all add: plan_receipt_def builtReceipt_def no_evidence_def plan_expectation_def)

theorem receipt_evidenced_witness:
  "\<exists>e final. transition_of sample_flow ''develop'' e \<noteq> None \<and> ar_outcome plan_receipt = outcome_of e
     \<and> list_all (artifact_shown (plan_provider True) plan_expectation e final) (ar_artifacts plan_receipt)
     \<and> length (ar_artifacts plan_receipt) = 1"
  using receipt_evidenced [OF plan_run] plan_shape(5) by (fastforce simp: plan_expectation_def)

section \<open>Errors\<close>

text \<open>The errors of a decision that cannot be verified, and the plain error of a marker or a carried change request.\<close>

definition decision_errors :: "err set" where
  "decision_errors = {e. \<exists>m. e = InvalidDecisionError m \<or> e = DecisionEvidenceUnavailableError m \<or> e = DecisionReadbackError
     \<or> e = DecisionTrustError m \<or> e = Err m}"

lemma decision_error [simp]: "InvalidDecisionError m \<in> decision_errors" "DecisionEvidenceUnavailableError m \<in> decision_errors"
    "DecisionReadbackError \<in> decision_errors" "DecisionTrustError m \<in> decision_errors" "Err m \<in> decision_errors"
  by (auto simp: decision_errors_def)

definition errsR :: "'a res \<Rightarrow> bool" where
  "errsR r \<longleftrightarrow> (\<forall>e. r = Inl e \<longrightarrow> e \<in> decision_errors)"

lemma errs_simps [simp]: "errsR (ok x)" "errsR (fail m)" "errsR (invalidDecision m)" "errsR (evidenceUnavailable m)"
    "errsR (decisionTrust m)" "errsR (checkR b m)"
  by (auto simp: errsR_def ok_def fail_def invalidDecision_def evidenceUnavailable_def decisionTrust_def checkR_def)

lemma errs_bind [intro]: "errsR r \<Longrightarrow> (\<And>x. errsR (f x)) \<Longrightarrow> errsR (bindR r f)"
  by (cases r) (auto simp: errsR_def)

lemma errs_map [intro]: "(\<And>x. errsR (f x)) \<Longrightarrow> errsR (mapR f xs)"
  by (induction xs) (auto intro!: errs_bind)

lemma errs_filter [intro]: "(\<And>x. errsR (p x)) \<Longrightarrow> errsR (filterR p xs)"
  by (induction xs) (auto intro!: errs_bind)

lemma errs_parts [simp]: "errsR (decisionMarker x)" "errsR (isBaseline x k i)" "errsR (baselineIds x k)"
    "errsR (markedComments sn ak x)" "errsR (commentArtifact c ak x)" "errsR (comment_evidence x ak c ev)" "errsR (humanVerdict e)"
    "errsR (notUpdated x lk)" "errsR (assertCarriedChange lk m)" "errsR (decidedEvent v x fl)"
proof -
  show d: "errsR (decisionMarker x)" by (simp add: decisionMarker_def renderPublication_def)
  have k: "errsR (baselineKey x j)" for j
    by (auto simp: baselineKey_def split: option.split json.split list.split)
  show ids: "errsR (baselineIds x k)" for k unfolding baselineIds_def by (intro errs_bind errs_map k) simp
  show base: "errsR (isBaseline x k i)" for k i unfolding isBaseline_def by (intro errs_bind ids) simp
  show "errsR (markedComments sn ak x)" unfolding markedComments_def Let_def candidateComment_def
    by (intro errs_bind errs_filter base) simp_all
  show art: "errsR (commentArtifact c ak x)" for c ak unfolding commentArtifact_def by (intro errs_bind d) simp
  show "errsR (comment_evidence x ak c ev)" unfolding comment_evidence_def by (intro errs_bind art) simp
  show "errsR (humanVerdict e)" by (cases e) (simp_all add: humanVerdict_def)
  show "errsR (notUpdated x lk)" using base by (auto simp: notUpdated_def)
  show "errsR (assertCarriedChange lk m)" unfolding assertCarriedChange_def Let_def by (intro errs_bind) simp_all
  have "errsR (readBoundedDecision fl)" by (simp add: readBoundedDecision_def split: option.split)
  then show "errsR (decidedEvent v x fl)" unfolding decidedEvent_def
    by (intro errs_bind) (simp_all split: option.split sum.split)
qed

abbreviation decisive :: "('s, 'a) io \<Rightarrow> bool" where "decisive \<equiv> throwsM decision_errors"

lemma decisive_lift: "errsR r \<Longrightarrow> decisive (liftR r)"
  by (auto simp: errsR_def throwsM_def run_iff)

lemma decisive_then: "throwsM E m \<Longrightarrow> throwsM E n \<Longrightarrow> throwsM E (thenM m n)"
  unfolding throwsM_def run_iff by blast

lemma decisive_when: "throwsM E m \<Longrightarrow> throwsM E (whenM b m)"
  unfolding throwsM_def run_iff by blast

lemma decisive_for: "(\<And>x. throwsM E (f x)) \<Longrightarrow> throwsM E (forM f xs)"
  by (induction xs) (auto intro: throws_ret decisive_then)

lemma decisive_checks: "decisive (trustM b m)" "decisive (unavailableM b m)"
  by (auto simp: throwsM_def run_iff)

text \<open>Whatever the provider throws, the operations of a decision throw only errors of decisions.\<close>

lemma decisive_operation: "decisive (decisionProviderRead op m)" "decisive (decisionProviderReadback op m)"
proof -
  have "providerOperationError m b e \<in> decision_errors" for m b e
    by (cases e) (simp_all add: providerOperationError_def)
  then show "decisive (decisionProviderRead op m)" "decisive (decisionProviderReadback op m)"
    by (auto simp: throwsM_def decisionProviderRead_def decisionProviderReadback_def run_iff)
qed

lemmas decisive_rules = throws_ret throws_bind throws_if throws_option throws_list throws_let decisive_lift decisive_then
  decisive_when decisive_for decisive_checks decisive_operation

lemma decisive_asserts: "decisive (assertAuthorizedPublication pv x a)" "decisive (assertChangeTicketIdentity c ref)"
    "decisive (assertSameDecisionChange c d)" "decisive (carriedM c x)" "decisive (assertDecisionTicket sn ref)"
    "decisive (assertPinnedChange sn x st)" "decisive (assertFinalDecisionChange sn c x)"
    "decisive (assertDecisionCommentMembership cs sn x pv)"
  unfolding assertAuthorizedPublication_def assertChangeTicketIdentity_def assertSameDecisionChange_def carriedM_def
    assertDecisionTicket_def assertPinnedChange_def assertFinalDecisionChange_def assertDecisionCommentMembership_def
  by (intro decisive_rules | simp)+

lemma decisive_reads: "decisive (discoverDecisionComment sn k x pv)" "decisive (readDecisionChange sn x pv)"
    "decisive (readDecisionReview sn e x pv)" "decisive (readHumanSource sn x pv)"
  unfolding discoverDecisionComment_def readDecisionChange_def readDecisionReview_def readHumanSource_def
  by (intro decisive_rules decisive_asserts | simp)+

lemma decisive_evidence: "decisive (eventEvidence sn e x pv)"
  unfolding eventEvidence_def successEvidence_def questionEvidence_def humanEvidence_def documentationEvidence_def
    developmentEvidence_def
  by (intro decisive_rules decisive_asserts decisive_reads | simp)+

lemma decisive_final: "decisive (finalEvidence sn e ev x pv)" "decisive (pinnedEvidence sn e x)"
  unfolding finalEvidence_def pinnedEvidence_def
  by (intro decisive_rules decisive_asserts | simp)+

text \<open>
  C25: When no receipt can be made, the error says why in the classes of errors of decisions, whatever the provider
  threw: never a raw error of the provider. Another attempt is made exactly when the agent's decision is invalid, its
  evidence is missing or the provider failed for the moment, never when the decision contradicts the pinned evidence,
  and an attempt that was cancelled is refused before anything is read.
\<close>

theorem receipt_errors:
  assumes "readDecisionAndBuildReceipt validate readFile x pv cancelled s = (Inl e, s')" "throwsM {} readFile"
  shows "e \<in> decision_errors \<and> (retryable e \<longleftrightarrow> (\<forall>m. e \<noteq> DecisionTrustError m \<and> e \<noteq> Err m))
    \<and> (cancelled \<longrightarrow> (\<exists>m. e = DecisionTrustError m) \<and> s' = s)"
proof -
  have "decisive readFile" using assms(2) by (simp add: throwsM_def)
  then have "decisive (readDecisionAndBuildReceipt validate readFile x pv cancelled)"
    unfolding readDecisionAndBuildReceipt_def
    by (intro decisive_rules decisive_asserts decisive_evidence decisive_final | simp)+
  then have e: "e \<in> decision_errors" using assms(1) by (auto simp: throwsM_def)
  moreover have "retryable e \<longleftrightarrow> (\<forall>m. e \<noteq> DecisionTrustError m \<and> e \<noteq> Err m)"
    using e by (auto simp: decision_errors_def retryable_def classifyAttemptError_def)
  moreover have "cancelled \<longrightarrow> (\<exists>m. e = DecisionTrustError m) \<and> s' = s"
    using assms(1) by (auto simp: readDecisionAndBuildReceipt_def run_iff)
  ultimately show ?thesis by blast
qed

text \<open>At a ticket without the comment the evidence is missing, and the attempt is made again.\<close>

theorem receipt_errors_witness:
  "\<exists>m. readDecisionAndBuildReceipt plan_schema plan_file plan_expectation (plan_provider False) False ()
      = (Inl (DecisionEvidenceUnavailableError m), ()) \<and> retryable (DecisionEvidenceUnavailableError m)"
proof -
  let ?m = "''plan comment evidence is unavailable''"
  have run: "readDecisionAndBuildReceipt plan_schema plan_file plan_expectation (plan_provider False) False ()
      = (Inl (DecisionEvidenceUnavailableError ?m), ())"
    by code_simp
  have "throwsM {} plan_file" by (simp add: plan_file_def throws_ret)
  from receipt_errors [OF run this] show ?thesis using run by blast
qed

end
