(* ===== verification/Filesystem.thy ===== *)
theory Filesystem
  imports Semantic MigrationReceiptText
begin

text \<open>
  src/runtime/filesystem.ts: files below a data root are reached only through directories that are no symbolic
  links. The file system of the operating system is a map from canonical paths to directories, files with their
  text, and symbolic links; a path is resolved through links, at most 40 of them, as the system does. Every call may
  fail: the world holds a list that says of each next call whether it succeeds or breaks, and a write that breaks
  leaves the first characters of its text.
\<close>

section \<open>The file system\<close>

datatype node = Dir | Regular string | Link string

record fsys =
  fs_node :: "path \<Rightarrow> node option"
  fs_faults :: "nat option list"
  fs_uuids :: "string list"

text \<open>The canonical path a path leads to; the last link is followed or not.\<close>

function walk :: "(path \<Rightarrow> node option) \<Rightarrow> bool \<Rightarrow> nat \<Rightarrow> path \<Rightarrow> string list \<Rightarrow> path res" where
  "walk nodes follow k acc [] = ok acc"
| "walk nodes follow k acc (c # cs) =
    (if c = [] \<or> c = ''.'' then walk nodes follow k acc cs
     else if c = ''..'' then walk nodes follow k (butlast acc) cs
     else (case nodes (acc @ [c]) of
         None \<Rightarrow> Inl FileMissing
       | Some Dir \<Rightarrow> walk nodes follow k (acc @ [c]) cs
       | Some (Regular t) \<Rightarrow> if cs = [] then ok (acc @ [c]) else fail ''ENOTDIR''
       | Some (Link t) \<Rightarrow>
           if cs = [] \<and> \<not> follow then ok (acc @ [c])
           else if k = 0 then Inl FileLoop
           else walk nodes follow (k - 1) (if starts_with t ''/'' then [] else acc) (split_char (CHR ''/'') t @ cs)))"
  by pat_completeness auto
termination by (relation "measures [\<lambda>(n, f, k, a, cs). k, \<lambda>(n, f, k, a, cs). length cs]") auto

definition MAX_LINKS :: nat where "MAX_LINKS = 40"

text \<open>A call of the system: it breaks when the list says so.\<close>

definition fault :: "('a fsys_scheme, nat option) io" where
  "fault s = (case fs_faults s of [] \<Rightarrow> (ok None, s) | b # bs \<Rightarrow> (ok b, s \<lparr> fs_faults := bs \<rparr>))"

definition callFs :: "('a fsys_scheme, 'b) io \<Rightarrow> ('a fsys_scheme, 'b) io" where
  "callFs op = bindM fault (\<lambda>b. if b = None then op else failM ''EIO'')"

definition resolved :: "bool \<Rightarrow> path \<Rightarrow> ('a fsys_scheme, path) io" where
  "resolved follow p = bindM (getM fs_node) (\<lambda>nodes. liftR (walk nodes follow MAX_LINKS [] p))"

text \<open>The canonical place of an entry that may not exist yet.\<close>

definition entry_path :: "path \<Rightarrow> ('a fsys_scheme, path) io" where
  "entry_path p = bindM (resolved True (butlast p)) (\<lambda>d. retM (d @ [last p]))"

definition node_at :: "path \<Rightarrow> ('a fsys_scheme, node option) io" where
  "node_at p = getM (\<lambda>s. if p = [] then Some Dir else fs_node s p)"

definition set_node :: "path \<Rightarrow> node option \<Rightarrow> ('a fsys_scheme, unit) io" where
  "set_node p n s = (ok (), s \<lparr> fs_node := (fs_node s)(p := n) \<rparr>)"

definition lstat :: "path \<Rightarrow> ('a fsys_scheme, node) io" where
  "lstat p = callFs (bindM (resolved False p) (\<lambda>q. bindM (node_at q) (\<lambda>n. case n of None \<Rightarrow> throwM FileMissing | Some v \<Rightarrow> retM v)))"

definition realpath :: "path \<Rightarrow> ('a fsys_scheme, path) io" where
  "realpath p = callFs (resolved True p)"

definition mkdir :: "path \<Rightarrow> ('a fsys_scheme, unit) io" where
  "mkdir p = callFs (bindM (entry_path p) (\<lambda>q. bindM (node_at q) (\<lambda>n.
     if n = None then set_node q (Some Dir) else throwM FileExists)))"

text \<open>mkdir with the recursive option: the missing directories of the path, in order.\<close>

fun mkdir_each :: "path \<Rightarrow> string list \<Rightarrow> ('a fsys_scheme, unit) io" where
  "mkdir_each acc [] = retM ()"
| "mkdir_each acc (c # cs) = (let p = acc @ [c] in
     bindM (getM fs_node) (\<lambda>nodes.
      (case walk nodes True MAX_LINKS [] p of
         Inr q \<Rightarrow> bindM (node_at q) (\<lambda>n. if n = Some Dir then mkdir_each p cs else throwM FileExists)
       | Inl e \<Rightarrow> if e = FileMissing
           then bindM (entry_path p) (\<lambda>q. thenM (set_node q (Some Dir)) (mkdir_each p cs)) else throwM e)))"

definition mkdir_recursive :: "path \<Rightarrow> ('a fsys_scheme, unit) io" where
  "mkdir_recursive p = callFs (mkdir_each [] p)"

definition rm :: "path \<Rightarrow> ('a fsys_scheme, unit) io" where
  "rm p = callFs (bindM (resolved False p) (\<lambda>q. bindM (node_at q) (\<lambda>n.
     if n = Some Dir then failM ''ERR_FS_EISDIR'' else if n = None then throwM FileMissing else set_node q None)))"

text \<open>open with O_EXCL: a new, empty file, at its canonical path.\<close>

definition create_new :: "path \<Rightarrow> ('a fsys_scheme, path) io" where
  "create_new p = callFs (bindM (entry_path p) (\<lambda>q. bindM (node_at q) (\<lambda>n.
     if n \<noteq> None then throwM FileExists else thenM (set_node q (Some (Regular []))) (retM q))))"

text \<open>Writing a text to the open file: a write that breaks leaves its beginning.\<close>

definition write_text :: "path \<Rightarrow> string \<Rightarrow> ('a fsys_scheme, unit) io" where
  "write_text q text = bindM fault (\<lambda>b. case b of None \<Rightarrow> set_node q (Some (Regular text))
     | Some k \<Rightarrow> thenM (set_node q (Some (Regular (take k text)))) (failM ''EIO''))"

text \<open>sync and close of an open file.\<close>

definition flush :: "('a fsys_scheme, unit) io" where
  "flush = callFs (retM ())"

text \<open>writeFile with the flag wx.\<close>

definition write_new :: "path \<Rightarrow> string \<Rightarrow> ('a fsys_scheme, unit) io" where
  "write_new p text = bindM (create_new p) (\<lambda>q. thenM (write_text q text) flush)"

text \<open>open with O_NOFOLLOW and read.\<close>

definition read_file :: "path \<Rightarrow> ('a fsys_scheme, string) io" where
  "read_file p = callFs (bindM (resolved False p) (\<lambda>q. bindM (node_at q) (\<lambda>n.
     (case n of None \<Rightarrow> throwM FileMissing | Some Dir \<Rightarrow> failM ''EISDIR'' | Some (Link t) \<Rightarrow> throwM FileLoop
      | Some (Regular t) \<Rightarrow> retM t))))"

text \<open>rename replaces its target in one step.\<close>

definition rename_file :: "path \<Rightarrow> path \<Rightarrow> ('a fsys_scheme, unit) io" where
  "rename_file a b = callFs (bindM (entry_path a) (\<lambda>p. bindM (entry_path b) (\<lambda>q. bindM (node_at p) (\<lambda>n. bindM (node_at q) (\<lambda>m.
     if n = None then throwM FileMissing
     else if n = Some Dir \<or> m = Some Dir then failM ''EISDIR''
     else if p = q then retM ()
     else thenM (set_node q n) (set_node p None))))))"

definition hardlink :: "path \<Rightarrow> path \<Rightarrow> ('a fsys_scheme, unit) io" where
  "hardlink a b = callFs (bindM (entry_path a) (\<lambda>p. bindM (entry_path b) (\<lambda>q. bindM (node_at p) (\<lambda>n. bindM (node_at q) (\<lambda>m.
     if n = None then throwM FileMissing else if m \<noteq> None then throwM FileExists
     else if n = Some Dir then failM ''EPERM'' else set_node q n)))))"

definition randomUUID :: "('a fsys_scheme, string) io" where
  "randomUUID s = (case fs_uuids s of [] \<Rightarrow> (fail ''no randomness'', s) | u # us \<Rightarrow> (ok u, s \<lparr> fs_uuids := us \<rparr>))"

definition path_str :: "path \<Rightarrow> string" where
  "path_str p = ''/'' @ join_with ''/'' p"

section \<open>Safe paths\<close>

definition contained :: "path \<Rightarrow> path \<Rightarrow> bool" where
  "contained rt p = (let remainder = relative_path rt p in
     remainder = [] \<or> (remainder \<noteq> ''..'' \<and> \<not> starts_with remainder ''../'' \<and> \<not> starts_with remainder ''/''))"

definition assertContained :: "path \<Rightarrow> path \<Rightarrow> string \<Rightarrow> ('a fsys_scheme, unit) io" where
  "assertContained rt p label = checkM (\<not> contained rt p) (label @ '' escapes data directory: '' @ path_str p)"

definition is_regular :: "node \<Rightarrow> bool" where "is_regular n = (case n of Regular t \<Rightarrow> True | _ \<Rightarrow> False)"
definition is_link :: "node \<Rightarrow> bool" where "is_link n = (case n of Link t \<Rightarrow> True | _ \<Rightarrow> False)"

fun safe_parts :: "string \<Rightarrow> bool \<Rightarrow> path \<Rightarrow> string list \<Rightarrow> ('a fsys_scheme, unit) io" where
  "safe_parts label directory current [] = retM ()"
| "safe_parts label directory current (c # cs) = (let p = current @ [c] in
     bindM (lstat p) (\<lambda>info.
      thenM (checkM (is_link info) (label @ '' must not contain a symbolic link: '' @ path_str p))
     (thenM (checkM (cs \<noteq> [] \<and> info \<noteq> Dir) (label @ '' parent is not a directory: '' @ path_str p))
     (thenM (checkM (cs = [] \<and> directory \<and> info \<noteq> Dir) (label @ '' is not a directory: '' @ path_str p))
     (thenM (checkM (cs = [] \<and> \<not> directory \<and> \<not> is_regular info) (label @ '' is not a regular file: '' @ path_str p))
        (safe_parts label directory p cs))))))"

definition assertSafePath :: "path \<Rightarrow> path \<Rightarrow> string \<Rightarrow> bool \<Rightarrow> ('a fsys_scheme, path) io" where
  "assertSafePath rt target label directory =
    thenM (assertContained rt target label)
   (thenM (safe_parts label directory rt (relative_segs rt target))
   (bindM (realpath target) (\<lambda>canonical.
    thenM (assertContained rt canonical label) (retM canonical))))"

definition assertSafeDirectory :: "path \<Rightarrow> path \<Rightarrow> string \<Rightarrow> ('a fsys_scheme, path) io" where
  "assertSafeDirectory rt p label = bindM (assertSafePath rt p label True) realpath"

definition assertSafeFile :: "path \<Rightarrow> path \<Rightarrow> string \<Rightarrow> ('a fsys_scheme, path) io" where
  "assertSafeFile rt p label = assertSafePath rt p label False"

text \<open>A file that may be written: a safe file, or a place in a safe directory that has no entry.\<close>

definition assertSafeWritableFile :: "path \<Rightarrow> path \<Rightarrow> string \<Rightarrow> ('a fsys_scheme, path) io" where
  "assertSafeWritableFile rt target label =
    thenM (assertContained rt target label)
   (thenM (assertSafeDirectory rt (butlast target) (label @ '' parent''))
   (bindM (tryM (bindM (lstat target) (\<lambda>_. retM True)) (\<lambda>e. if e = FileMissing then retM False else throwM e)) (\<lambda>there.
     if there then assertSafeFile rt target label else retM target)))"

definition removeSafeFile :: "path \<Rightarrow> path \<Rightarrow> string \<Rightarrow> ('a fsys_scheme, unit) io" where
  "removeSafeFile rt p label =
    bindM (tryM (bindM (assertSafeFile rt p label) (\<lambda>_. retM True)) (\<lambda>e. if e = FileMissing then retM False else throwM e))
      (\<lambda>there. if there then rm p else retM ())"

definition prepareDataRoot :: "path \<Rightarrow> ('a fsys_scheme, path) io" where
  "prepareDataRoot rt =
    thenM (mkdir_recursive rt)
   (bindM (lstat rt) (\<lambda>info.
    thenM (checkM (is_link info) (''data directory must not be a symbolic link: '' @ path_str rt))
   (thenM (checkM (info \<noteq> Dir) (''data directory is not a directory: '' @ path_str rt))
      (realpath rt))))"

definition ensureSafeDirectory :: "path \<Rightarrow> path \<Rightarrow> string \<Rightarrow> ('a fsys_scheme, path) io" where
  "ensureSafeDirectory rt p label =
    thenM (assertSafeDirectory rt (butlast p) (label @ '' parent''))
   (thenM (tryM (mkdir p) (\<lambda>e. if e = FileExists then retM () else throwM e))
      (assertSafeDirectory rt p label))"

text \<open>An existing directory is refused, with the error of the check when it is not safe.\<close>

definition createSafeDirectory :: "path \<Rightarrow> path \<Rightarrow> string \<Rightarrow> ('a fsys_scheme, path) io" where
  "createSafeDirectory rt p label =
    thenM (assertSafeDirectory rt (butlast p) (label @ '' parent''))
   (thenM (tryM (mkdir p) (\<lambda>e. thenM (if e = FileExists then bindM (assertSafeDirectory rt p label) (\<lambda>_. retM ()) else retM ()) (throwM e)))
      (assertSafeDirectory rt p label))"

definition assertCanonicalUuid :: "string \<Rightarrow> string \<Rightarrow> ('s, unit) io" where
  "assertCanonicalUuid value label = checkM (\<not> isCanonicalUuid value) (label @ '' must be a canonical UUID'')"

section \<open>Reading changes nothing\<close>

definition still :: "'a fsys_scheme \<Rightarrow> 'a fsys_scheme \<Rightarrow> bool" where
  "still s0 s \<longleftrightarrow> s \<lparr> fs_faults := [] \<rparr> = s0 \<lparr> fs_faults := [] \<rparr>"

lemma still_refl [simp]: "still s s" by (simp add: still_def)

lemma still_node: "still s0 s \<Longrightarrow> fs_node s = fs_node s0"
  unfolding still_def by (metis fsys.select_convs(1) fsys.surjective fsys.update_convs(2))

lemma still_uuids: "still s0 s \<Longrightarrow> fs_uuids s = fs_uuids s0"
  unfolding still_def by (metis fsys.select_convs(3) fsys.surjective fsys.update_convs(2))

lemma still_more: "still s0 s \<Longrightarrow> fsys.more s = fsys.more s0"
  unfolding still_def by (metis fsys.select_convs(4) fsys.surjective fsys.update_convs(2))

lemma still_trans: "still s0 s1 \<Longrightarrow> still s1 s2 \<Longrightarrow> still s0 s2"
  by (simp add: still_def)

named_theorems still_intros "operations that only read"

lemma still_fault [still_intros]: "keepsM (still s0) fault"
  by (auto simp: keepsM_def fault_def still_def split: list.split)

lemmas keepsM_intros = keepsM_ret keepsM_fail keepsM_throw keepsM_lift keepsM_check keepsM_bind keepsM_then keepsM_when
  keepsM_try keepsM_get keepsM_if keepsM_opt

lemma still_call [still_intros]: "keepsM (still s0) op \<Longrightarrow> keepsM (still s0) (callFs op)"
  unfolding callFs_def by (intro keepsM_intros still_intros)

lemma still_resolved [still_intros]: "keepsM (still s0) (resolved f p)" "keepsM (still s0) (node_at p)"
  unfolding resolved_def node_at_def by (intro keepsM_intros)+

lemma still_reads [still_intros]: "keepsM (still s0) (lstat p)" "keepsM (still s0) (realpath p)" "keepsM (still s0) (read_file p)"
  unfolding lstat_def realpath_def read_file_def
  by (intro still_intros keepsM_intros | auto split: node.split)+

lemma still_parts [still_intros]: "keepsM (still s0) (safe_parts label d current cs)"
proof (induction cs arbitrary: current)
  case (Cons c cs)
  then show ?case unfolding safe_parts.simps Let_def by (intro still_intros keepsM_intros)
qed (simp add: keepsM_ret)

lemma still_asserts [still_intros]: "keepsM (still s0) (assertContained rt p label)" "keepsM (still s0) (assertSafePath rt p label d)"
    "keepsM (still s0) (assertSafeDirectory rt p label)" "keepsM (still s0) (assertSafeFile rt p label)"
    "keepsM (still s0) (assertSafeWritableFile rt p label)"
  unfolding assertContained_def assertSafeWritableFile_def assertSafePath_def assertSafeDirectory_def assertSafeFile_def
  by (intro still_intros keepsM_intros | simp add: assertContained_def)+

lemma stillD: "keepsM (still s) m \<Longrightarrow> m s = (r, s') \<Longrightarrow> still s s'"
  unfolding keepsM_def by (metis snd_conv still_refl)

section \<open>Paths through directories\<close>

definition proper :: "string \<Rightarrow> bool" where "proper c \<longleftrightarrow> c \<noteq> [] \<and> c \<noteq> ''.'' \<and> c \<noteq> ''..''"

text \<open>A canonical directory: every part of its path is a directory and no link.\<close>

definition real_dir :: "(path \<Rightarrow> node option) \<Rightarrow> path \<Rightarrow> bool" where
  "real_dir nodes p \<longleftrightarrow> list_all proper p \<and> (\<forall>n. 0 < n \<longrightarrow> n \<le> length p \<longrightarrow> nodes (take n p) = Some Dir)"

lemma real_dir_snoc: "real_dir nodes (p @ [c]) \<longleftrightarrow> real_dir nodes p \<and> proper c \<and> nodes (p @ [c]) = Some Dir"
proof -
  have "(\<forall>n. 0 < n \<longrightarrow> n \<le> length (p @ [c]) \<longrightarrow> nodes (take n (p @ [c])) = Some Dir)
    \<longleftrightarrow> (\<forall>n. 0 < n \<longrightarrow> n \<le> length p \<longrightarrow> nodes (take n p) = Some Dir) \<and> nodes (p @ [c]) = Some Dir"
    by (auto simp: le_Suc_eq)
  then show ?thesis by (auto simp: real_dir_def)
qed

lemma real_dir_Nil [simp]: "real_dir nodes []" by (simp add: real_dir_def)

lemma walk_dirs: "real_dir nodes (acc @ cs) \<Longrightarrow> walk nodes f k acc (cs @ ds) = walk nodes f k (acc @ cs) ds"
proof (induction cs arbitrary: acc)
  case (Cons c cs)
  have "nodes (acc @ [c]) = Some Dir" using Cons.prems
    by (auto simp: real_dir_def dest: spec [of _ "Suc (length acc)"])
  moreover have "proper c" using Cons.prems by (simp add: real_dir_def)
  ultimately show ?case using Cons.IH [of "acc @ [c]"] Cons.prems by (simp add: proper_def)
qed simp

lemma walk_entry:
  assumes "real_dir nodes p" "proper c"
  shows "walk nodes f k [] (p @ [c]) = (case nodes (p @ [c]) of None \<Rightarrow> Inl FileMissing
    | Some (Link t) \<Rightarrow> if \<not> f then ok (p @ [c]) else walk nodes f k p [c] | _ \<Rightarrow> ok (p @ [c]))"
  using assms walk_dirs [of nodes "[]" p f k "[c]"] by (auto simp: proper_def split: option.split node.split)

lemma walk_dir: "real_dir nodes p \<Longrightarrow> walk nodes f k [] p = ok p"
  using walk_dirs [of nodes "[]" p f k "[]"] by simp

lemma contained_prefix: "contained rt p \<Longrightarrow> \<exists>t. p = rt @ t"
proof (rule ccontr)
  assume a: "contained rt p" "\<nexists>t. p = rt @ t"
  then obtain rest where "relative_segs rt p = ''..'' # rest" using relative_segs_outside by blast
  then show False using a(1) by (cases rest) (auto simp: contained_def relative_path_def join_with_def)
qed

text \<open>What a call answers when it does not break.\<close>

lemma callFs_iff: "callFs op s = (Inr x, s') \<longleftrightarrow> (\<exists>s1. fault s = (ok None, s1) \<and> op s1 = (Inr x, s'))"
  unfolding callFs_def run_iff by (auto simp: run_iff ok_def split: if_split_asm)

lemma fault_still: "fault s = (b, s1) \<Longrightarrow> still s s1"
  using stillD still_fault by blast

lemma lstat_entry:
  assumes "real_dir (fs_node s) p" "proper c" "lstat (p @ [c]) s = (Inr n, s')"
  shows "fs_node s (p @ [c]) = Some n"
proof -
  obtain s1 q s2 s3 where r: "fault s = (ok None, s1)" "walk (fs_node s1) False MAX_LINKS [] (p @ [c]) = Inr q"
    "node_at q s2 = (Inr (Some n), s3)" "s2 = s1"
    using assms(3) unfolding lstat_def callFs_iff resolved_def by (auto simp: run_iff split: option.split_asm)
  have s1: "fs_node s1 = fs_node s" using fault_still [OF r(1)] still_node by blast
  have "q = p @ [c]" using r(2) walk_entry [OF assms(1,2), of False MAX_LINKS] by (auto simp: s1 ok_def split: option.split_asm node.split_asm)
  then show ?thesis using r(3,4) s1 by (auto simp: node_at_def run_iff)
qed

lemma safe_parts_ok:
  assumes "safe_parts label d current cs s = (Inr u, s')" "real_dir (fs_node s) current" "list_all proper cs" "cs \<noteq> []"
  shows "real_dir (fs_node s) (current @ butlast cs)
    \<and> (\<exists>n. fs_node s (current @ cs) = Some n \<and> (if d then n = Dir else is_regular n))"
  using assms
proof (induction cs arbitrary: current s)
  case (Cons c cs)
  obtain info s1 where r: "lstat (current @ [c]) s = (Inr info, s1)" "\<not> is_link info" "cs \<noteq> [] \<Longrightarrow> info = Dir"
    "cs = [] \<Longrightarrow> if d then info = Dir else is_regular info" "safe_parts label d (current @ [c]) cs s1 = (Inr u, s')"
    using Cons.prems(1) by (auto simp: Let_def run_iff)
  have n: "fs_node s (current @ [c]) = Some info" using lstat_entry [OF _ _ r(1)] Cons.prems by simp
  have s1: "fs_node s1 = fs_node s" using stillD [OF still_reads(1) r(1)] still_node by blast
  show ?case
  proof (cases "cs = []")
    case True
    then show ?thesis using r(4) n Cons.prems by auto
  next
    case False
    then have "real_dir (fs_node s) (current @ [c])" using n r(3) Cons.prems by (simp add: real_dir_snoc)
    then show ?thesis using Cons.IH [OF r(5)] Cons.prems False s1 by simp
  qed
qed simp

lemma realpath_entry:
  assumes "realpath p s = (Inr q, s')" "real_dir (fs_node s) (butlast p)" "p = [] \<or> proper (last p)"
    "p = [] \<or> (\<exists>n. fs_node s p = Some n \<and> \<not> is_link n)"
  shows "q = p"
proof -
  obtain s1 where r: "fault s = (ok None, s1)" "walk (fs_node s1) True MAX_LINKS [] p = Inr q"
    using assms(1) unfolding realpath_def callFs_iff resolved_def by (auto simp: run_iff)
  have s1: "fs_node s1 = fs_node s" using fault_still [OF r(1)] still_node by blast
  show ?thesis
  proof (cases p rule: rev_cases)
    case Nil
    then show ?thesis using r(2) by (simp add: ok_def)
  next
    case (snoc ps c)
    obtain n where n: "fs_node s p = Some n" "\<not> is_link n" using assms(4) snoc by auto
    then show ?thesis using r(2) walk_entry [of "fs_node s" ps c True MAX_LINKS] assms(2,3) snoc s1
      by (cases n) (auto simp: is_link_def ok_def)
  qed
qed

text \<open>
  What a safe path is: it lies below the root, every directory between is no link, and it is the directory or the
  regular file that was asked for; the path is returned as it is.
\<close>

definition safe_at :: "(path \<Rightarrow> node option) \<Rightarrow> path \<Rightarrow> path \<Rightarrow> bool \<Rightarrow> bool" where
  "safe_at nodes rt p d \<longleftrightarrow> (\<exists>cs. p = rt @ cs \<and> (cs = [] \<or> (real_dir nodes (rt @ butlast cs)
     \<and> (\<exists>n. nodes p = Some n \<and> (if d then n = Dir else is_regular n)))))"

lemma assertSafePath_ok:
  assumes "assertSafePath rt p label d s = (Inr q, s')" "real_dir (fs_node s) rt" "list_all proper p"
  shows "q = p \<and> safe_at (fs_node s) rt p d"
proof -
  obtain s1 s2 where r: "contained rt p" "safe_parts label d rt (relative_segs rt p) s = (Inr (), s1)" "realpath p s1 = (Inr q, s2)"
    using assms(1) unfolding assertSafePath_def by (auto simp: run_iff assertContained_def)
  obtain cs where cs: "p = rt @ cs" using contained_prefix [OF r(1)] by blast
  have s1: "fs_node s1 = fs_node s" using stillD [OF still_parts r(2)] still_node by blast
  show ?thesis
  proof (cases "cs = []")
    case True
    then have "walk (fs_node s) True MAX_LINKS [] p = ok p" using walk_dir assms(2) cs by simp
    moreover obtain s3 where "fault s1 = (ok None, s3)" "walk (fs_node s3) True MAX_LINKS [] p = Inr q"
      using r(3) unfolding realpath_def callFs_iff resolved_def by (auto simp: run_iff)
    ultimately have "q = p" using fault_still still_node s1 by (metis ok_def sum.inject(2))
    then show ?thesis using True cs by (simp add: safe_at_def)
  next
    case False
    then have sp: "real_dir (fs_node s) (rt @ butlast cs)" "\<exists>n. fs_node s (rt @ cs) = Some n \<and> (if d then n = Dir else is_regular n)"
      using safe_parts_ok [OF r(2) assms(2)] assms(3) cs by (auto simp: relative_segs_prefix)
    have "proper (last p)" using assms(3) cs False by (simp add: list_all_iff)
    moreover have "\<exists>n. fs_node s1 p = Some n \<and> \<not> is_link n" using sp(2) cs s1 by (auto simp: is_link_def is_regular_def split: if_split_asm node.split_asm)
    ultimately have "q = p" using realpath_entry [OF r(3)] sp(1) cs False s1 by (simp add: butlast_append)
    then show ?thesis using sp cs by (auto simp: safe_at_def)
  qed
qed

section \<open>Writing below a canonical directory\<close>

lemma resolved_dir: "real_dir (fs_node s) p \<Longrightarrow> resolved f p s = (ok p, s)"
  by (simp add: resolved_def bindM_def getM_def liftR_def walk_dir ok_def)

lemma entry_path_at: "real_dir (fs_node s) rt \<Longrightarrow> entry_path (rt @ [c]) s = (ok (rt @ [c]), s)"
  using resolved_dir [of s rt True] by (simp add: entry_path_def bindM_def retM_def ok_def)

lemma node_at_entry: "node_at (rt @ [c]) s = (ok (fs_node s (rt @ [c])), s)"
  by (simp add: node_at_def getM_def)

text \<open>Two worlds whose files agree except at the given paths; the rest of the world is the same.\<close>

definition differs_at :: "path set \<Rightarrow> 'a fsys_scheme \<Rightarrow> 'a fsys_scheme \<Rightarrow> bool" where
  "differs_at P s s' \<longleftrightarrow> (\<forall>p. p \<notin> P \<longrightarrow> fs_node s' p = fs_node s p) \<and> fsys.more s' = fsys.more s"

lemma differs_refl [simp]: "differs_at P s s" by (simp add: differs_at_def)

lemma differs_trans: "differs_at P s1 s2 \<Longrightarrow> differs_at P s2 s3 \<Longrightarrow> differs_at P s1 s3"
  by (simp add: differs_at_def)

lemma differs_mono: "differs_at P s1 s2 \<Longrightarrow> P \<subseteq> Q \<Longrightarrow> differs_at Q s1 s2"
  by (auto simp: differs_at_def)

lemma still_differs: "still s s' \<Longrightarrow> differs_at P s s'"
  by (simp add: differs_at_def still_node still_more)

lemma differs_dir: "differs_at P s s' \<Longrightarrow> real_dir (fs_node s) rt \<Longrightarrow> (\<And>p. p \<in> P \<Longrightarrow> length rt < length p) \<Longrightarrow> real_dir (fs_node s') rt"
  unfolding real_dir_def differs_at_def by (metis length_take min.absorb2 not_le)

lemma uuid_still: "randomUUID s = (r, s') \<Longrightarrow> fs_node s' = fs_node s \<and> fsys.more s' = fsys.more s"
  by (auto simp: randomUUID_def split: list.split_asm)

lemma fault_cases: "fault s = (ok b, s') \<Longrightarrow> still s s'" "fault s \<noteq> (Inl e, s')"
  using fault_still by (auto simp: fault_def ok_def split: list.split)

lemma callFs_cases:
  "callFs op s = (r, s') \<longleftrightarrow> (\<exists>b s1. fault s = (ok b, s1) \<and> (if b = None then op s1 = (r, s') else r = fail ''EIO'' \<and> s' = s1))"
  unfolding callFs_def bindM_def by (cases "fault s") (auto simp: fault_def ok_def failM_def split: list.split_asm if_split_asm)

lemma create_new_at:
  assumes "create_new (rt @ [c]) s = (Inr q, s')" "real_dir (fs_node s) rt"
  shows "q = rt @ [c] \<and> fs_node s (rt @ [c]) = None \<and> fs_node s' = (fs_node s)(rt @ [c] := Some (Regular []))
    \<and> fsys.more s' = fsys.more s"
proof -
  obtain s1 where r: "fault s = (ok None, s1)"
    "bindM (entry_path (rt @ [c])) (\<lambda>q. bindM (node_at q) (\<lambda>n.
       if n \<noteq> None then throwM FileExists else thenM (set_node q (Some (Regular []))) (retM q))) s1 = (Inr q, s')"
    using assms(1) unfolding create_new_def callFs_cases by (auto simp: fail_def split: if_split_asm)
  note st = fault_cases(1) [OF r(1)]
  have d: "real_dir (fs_node s1) rt" using assms(2) still_node [OF st] by simp
  show ?thesis using r(2) still_node [OF st] still_more [OF st]
    by (auto simp: bindM_def thenM_def entry_path_at [OF d] node_at_entry set_node_def retM_def throwM_def ok_def split: if_split_asm)
qed

lemma create_new_fails: "create_new (rt @ [c]) s = (Inl e, s') \<Longrightarrow> real_dir (fs_node s) rt \<Longrightarrow> still s s'"
proof -
  assume a: "create_new (rt @ [c]) s = (Inl e, s')" "real_dir (fs_node s) rt"
  then obtain b s1 where r: "fault s = (ok b, s1)" "if b = None then
     bindM (entry_path (rt @ [c])) (\<lambda>q. bindM (node_at q) (\<lambda>n.
       if n \<noteq> None then throwM FileExists else thenM (set_node q (Some (Regular []))) (retM q))) s1 = (Inl e, s') else s' = s1"
    unfolding create_new_def callFs_cases by (auto split: if_split_asm)
  note st = fault_cases(1) [OF r(1)]
  have d: "real_dir (fs_node s1) rt" using a(2) still_node [OF st] by simp
  have "s' = s1" using r(2)
    by (auto simp: bindM_def thenM_def entry_path_at [OF d] node_at_entry set_node_def retM_def throwM_def ok_def split: if_split_asm)
  then show ?thesis using st by simp
qed

lemma fault_total: "\<exists>b s1. fault s = (ok b, s1)"
  by (cases "fs_faults s") (simp_all add: fault_def)

lemma write_text_at:
  assumes "write_text q text s = (r, s')"
  shows "differs_at {q} s s' \<and> (r = Inr () \<longrightarrow> fs_node s' q = Some (Regular text))"
proof -
  obtain b s1 where f: "fault s = (ok b, s1)" using fault_total by blast
  then have s': "s' = s1 \<lparr> fs_node := (fs_node s1)(q := Some (Regular (case b of None \<Rightarrow> text | Some k \<Rightarrow> take k text))) \<rparr>"
      "r = (if b = None then Inr () else fail ''EIO'')"
    using assms unfolding write_text_def bindM_def thenM_def by (auto simp: set_node_def failM_def ok_def fail_def split: option.split_asm)
  have "differs_at {q} s s1" using still_differs fault_cases(1) [OF f] by blast
  then show ?thesis using s' by (auto simp: differs_at_def fail_def)
qed

lemma still_flush [still_intros]: "keepsM (still s0) flush"
  unfolding flush_def by (intro still_intros keepsM_intros)

lemma rename_at:
  assumes "rename_file (rt @ [a]) (rt @ [b]) s = (r, s')" "real_dir (fs_node s) rt" "a \<noteq> b"
  shows "fsys.more s' = fsys.more s \<and> (case r of Inl e \<Rightarrow> fs_node s' = fs_node s
    | Inr u \<Rightarrow> fs_node s' = (fs_node s)(rt @ [b] := fs_node s (rt @ [a]), rt @ [a] := None))"
proof -
  obtain bb s1 where f: "fault s = (ok bb, s1)" and r: "if bb = None then
      bindM (entry_path (rt @ [a])) (\<lambda>p. bindM (entry_path (rt @ [b])) (\<lambda>q. bindM (node_at p) (\<lambda>n. bindM (node_at q) (\<lambda>m.
     if n = None then throwM FileMissing
     else if n = Some Dir \<or> m = Some Dir then failM ''EISDIR''
     else if p = q then retM ()
     else thenM (set_node q n) (set_node p None))))) s1 = (r, s') else r = fail ''EIO'' \<and> s' = s1"
    using assms(1) unfolding rename_file_def callFs_cases by auto
  note st = fault_cases(1) [OF f]
  have d: "real_dir (fs_node s1) rt" using assms(2) still_node [OF st] by simp
  show ?thesis
  proof (cases "bb = None")
    case True
    then show ?thesis using r still_node [OF st] still_more [OF st] assms(3)
      by (auto simp: bindM_def thenM_def entry_path_at [OF d] node_at_entry set_node_def retM_def throwM_def failM_def fail_def ok_def split: if_split_asm)
  qed (use r still_node [OF st] still_more [OF st] in \<open>auto simp: fail_def\<close>)
qed

lemma rm_at:
  assumes "rm (rt @ [a]) s = (r, s')" "real_dir (fs_node s) rt" "proper a"
  shows "differs_at {rt @ [a]} s s'"
proof -
  obtain b s1 where f: "fault s = (ok b, s1)" and r: "if b = None then
      bindM (resolved False (rt @ [a])) (\<lambda>q. bindM (node_at q) (\<lambda>n.
     if n = Some Dir then failM ''ERR_FS_EISDIR'' else if n = None then throwM FileMissing else set_node q None)) s1 = (r, s') else s' = s1"
    using assms(1) unfolding rm_def callFs_cases by (auto split: if_split_asm)
  note st = fault_cases(1) [OF f]
  have d: "real_dir (fs_node s1) rt" using assms(2) still_node [OF st] by simp
  have "differs_at {rt @ [a]} s1 s'"
  proof (cases "b = None")
    case True
    have "walk (fs_node s1) False MAX_LINKS [] (rt @ [a]) = (if fs_node s1 (rt @ [a]) = None then Inl FileMissing else ok (rt @ [a]))"
      using walk_entry [OF d assms(3), of False MAX_LINKS] by (auto split: option.split node.split)
    then show ?thesis using r True
      by (auto simp: resolved_def bindM_def getM_def liftR_def node_at_entry set_node_def throwM_def failM_def fail_def ok_def differs_at_def split: if_split_asm)
  qed (use r in simp)
  then show ?thesis using still_differs [OF st] differs_trans by blast
qed

end
