(* ===== verification/UsageRecords.thy ===== *)
theory UsageRecords
  imports Filesystem
begin

text \<open>
  src/runtime/usage-records.ts and src/runtime/usage-annotation.ts: the JSON documents that an attempt keeps in its
  session directory, replaced in one step, the archive of its receipt, and the line that states its usage.
\<close>

section \<open>Documents\<close>

definition MAX_USAGE_BYTES :: int where "MAX_USAGE_BYTES = 1048576"

definition readUsageJson :: "path \<Rightarrow> string \<Rightarrow> ('a fsys_scheme, json) io" where
  "readUsageJson rt name = (let p = rt @ [name] in
     bindM (assertSafeFile rt p ''usage record'') (\<lambda>_.
     bindM (read_file p) (\<lambda>text.
      thenM (checkM (MAX_USAGE_BYTES < byteLength text) ''usage record exceeds size limit'')
        (case json_parse text of None \<Rightarrow> failM ''SyntaxError'' | Some v \<Rightarrow> retM v))))"

definition temporary_name :: "string \<Rightarrow> string" where
  "temporary_name u = ''.usage-'' @ u @ ''.tmp''"

text \<open>The text is written to a new file that then takes the place of the document.\<close>

definition replace_document :: "path \<Rightarrow> path \<Rightarrow> path \<Rightarrow> path \<Rightarrow> string \<Rightarrow> ('a fsys_scheme, unit) io" where
  "replace_document rt handle temporary target text =
    tryM (thenM (write_text handle text)
         (thenM flush
         (thenM flush
         (bindM (assertSafeWritableFile rt target ''usage record'') (\<lambda>_.
            rename_file temporary target)))))
      (\<lambda>e. thenM (tryM flush (\<lambda>_. retM ()))
          (thenM (tryM (removeSafeFile rt temporary ''temporary usage record'') (\<lambda>_. retM ()))
            (throwM e)))"

definition writeUsageJson :: "path \<Rightarrow> string \<Rightarrow> json \<Rightarrow> ('a fsys_scheme, unit) io" where
  "writeUsageJson rt name v =
    bindM (assertSafeWritableFile rt (rt @ [name]) ''usage record'') (\<lambda>target.
    bindM randomUUID (\<lambda>u. (let temporary = rt @ [temporary_name u] in
    bindM (assertSafeWritableFile rt temporary ''temporary usage record'') (\<lambda>_.
    bindM (create_new temporary) (\<lambda>handle.
      replace_document rt handle temporary target (json_print v @ [CHR 0x0A]))))))"

section \<open>The archive of the receipt\<close>

text \<open>Deep equality of two documents: the keys of an object may stand in another order.\<close>

fun same_json :: "json \<Rightarrow> json \<Rightarrow> bool"
and same_items :: "json list \<Rightarrow> json list \<Rightarrow> bool"
and same_pairs :: "(string \<times> json) list \<Rightarrow> (string \<times> json) list \<Rightarrow> bool" where
  "same_json (JArr xs) (JArr ys) = same_items xs ys"
| "same_json (JObj ps) (JObj qs) = (length ps = length qs \<and> same_pairs ps qs)"
| "same_json v w = (v = w)"
| "same_items [] ys = (ys = [])"
| "same_items (x # xs) ys = (case ys of [] \<Rightarrow> False | y # ys' \<Rightarrow> same_json x y \<and> same_items xs ys')"
| "same_pairs [] qs = True"
| "same_pairs ((k, v) # ps) qs = ((case map_of qs k of None \<Rightarrow> False | Some w \<Rightarrow> same_json v w) \<and> same_pairs ps qs)"

definition truthy :: "json \<Rightarrow> bool" where
  "truthy v \<longleftrightarrow> v \<notin> {JNull, JBool False, JInt 0, JStr []}"

definition archiveReceipt :: "(json \<Rightarrow> bool) \<Rightarrow> path \<Rightarrow> json \<Rightarrow> ('a fsys_scheme, unit) io" where
  "archiveReceipt valid rt receipt =
    thenM (checkM (\<not> valid receipt) ''AgentReceipt is invalid'')
   (bindM (tryM (bindM (readUsageJson rt ''receipt.json'') (\<lambda>v. retM (Some v)))
       (\<lambda>e. if e = FileMissing then retM None else throwM e)) (\<lambda>existing.
    (case existing of
       Some v \<Rightarrow> if truthy v then
           thenM (checkM (\<not> valid v) ''AgentReceipt is invalid'')
             (checkM (\<not> same_json v receipt) ''archived attempt receipt is immutable'')
         else writeUsageJson rt ''receipt.json'' receipt
     | None \<Rightarrow> writeUsageJson rt ''receipt.json'' receipt)))"

section \<open>The usage line\<close>

text \<open>Digits in groups of three, as toLocaleString prints them in English.\<close>

fun group_rev :: "string \<Rightarrow> string" where
  "group_rev (a # b # c # d # ds) = a # b # c # CHR '','' # group_rev (d # ds)"
| "group_rev ds = ds"

definition toLocaleString :: "int \<Rightarrow> string" where
  "toLocaleString n = (if n < 0 then ''-'' else []) @ rev (group_rev (rev (nat_str (nat \<bar>n\<bar>))))"

text \<open>toFixed(2) of a number that is not negative: the nearest hundredth, the larger of two.\<close>

definition toFixed2 :: "rat \<Rightarrow> string" where
  "toFixed2 r = (let n = nat \<lfloor>r * 100 + 1 / 2\<rfloor>
     in nat_str (n div 100) @ ''.'' @ drop 1 (nat_str (100 + n mod 100)))"

definition usage_cost :: "AttemptUsage \<Rightarrow> string option" where
  "usage_cost u = (case (au_costUsd u, au_costSource u) of
     (Some c, Some source) \<Rightarrow>
       Some ((if 0 < c \<and> c < 1 / 100 then ''<$0.01'' else ''$'' @ toFixed2 c) @ '' ''
         @ (if source = CostEstimated then ''estimated'' else ''harness estimate''))
   | _ \<Rightarrow> if au_costError u = None \<or> au_costError u = Some [] then None else Some ''cost unavailable'')"

definition usageLine :: "AttemptUsage option \<Rightarrow> string option" where
  "usageLine usage = (case usage of None \<Rightarrow> None
     | Some u \<Rightarrow>
        (let parts = (case au_totalTokens u of None \<Rightarrow> [] | Some n \<Rightarrow> [toLocaleString n @ '' tokens''])
           @ (case usage_cost u of None \<Rightarrow> [] | Some c \<Rightarrow> [c])
         in if parts = [] then None else Some (''Usage: '' @ join_with ('' '' @ [CHR 0xB7] @ '' '') parts)))"

lemma usage_line_example:
  "toLocaleString 1234567 = ''1,234,567''" "toFixed2 (1/8) = ''0.13''"
  by (simp_all add: toLocaleString_def toFixed2_def nat_str.simps digit_char_def)

section \<open>What the records leave\<close>

text \<open>The document of a session, and what a session directory is.\<close>

definition document :: "path \<Rightarrow> string \<Rightarrow> 'a fsys_scheme \<Rightarrow> node option" where
  "document rt name s = fs_node s (rt @ [name])"

definition temporaries :: "path \<Rightarrow> path set" where
  "temporaries rt = {p. \<exists>u. p = rt @ [temporary_name u]}"

lemma temporary_proper: "proper (temporary_name u)"
  by (simp add: proper_def temporary_name_def)

definition document_name :: "string \<Rightarrow> bool" where
  "document_name name \<longleftrightarrow> proper name \<and> \<not> starts_with name ''.usage-''"

lemma document_not_temporary: "document_name name \<Longrightarrow> rt @ [name] \<notin> temporaries rt"
  by (auto simp: document_name_def temporaries_def temporary_name_def)

lemma removeSafeFile_at:
  assumes "removeSafeFile rt (rt @ [a]) label s = (r, s')" "real_dir (fs_node s) rt" "proper a"
  shows "differs_at {rt @ [a]} s s'"
proof -
  obtain b s1 where b: "tryM (bindM (assertSafeFile rt (rt @ [a]) label) (\<lambda>_. retM True)) (\<lambda>e. if e = FileMissing then retM False else throwM e) s = (b, s1)"
    "(case b of Inl e \<Rightarrow> (Inl e, s1) | Inr there \<Rightarrow> (if there then rm (rt @ [a]) else retM ()) s1) = (r, s')"
    using assms(1) unfolding removeSafeFile_def bindM_def by (auto split: prod.split_asm)
  have "keepsM (still s) (tryM (bindM (assertSafeFile rt (rt @ [a]) label) (\<lambda>_. retM True)) (\<lambda>e. if e = FileMissing then retM False else throwM e))"
    by (intro still_intros keepsM_intros)
  then have st: "still s s1" using b(1) stillD by blast
  have d: "real_dir (fs_node s1) rt" using assms(2) still_node [OF st] by simp
  have "differs_at {rt @ [a]} s1 s'"
    using b(2) rm_at [OF _ d assms(3)] by (auto simp: retM_def split: sum.split_asm if_split_asm)
  then show ?thesis using still_differs [OF st] differs_trans by blast
qed

text \<open>Replacing a document changes nothing but the document, and the document only when it returns.\<close>

lemma replace_document_at:
  assumes "replace_document rt (rt @ [t]) (rt @ [t]) (rt @ [name]) text s = (r, s')" "real_dir (fs_node s) rt"
    "proper t" "t \<noteq> name"
  shows "case r of Inl e \<Rightarrow> differs_at {rt @ [t]} s s'
    | Inr u \<Rightarrow> differs_at {rt @ [t], rt @ [name]} s s' \<and> fs_node s' (rt @ [name]) = Some (Regular text)"
proof -
  let ?body = "thenM (write_text (rt @ [t]) text) (thenM flush (thenM flush
     (bindM (assertSafeWritableFile rt (rt @ [name]) ''usage record'') (\<lambda>_. rename_file (rt @ [t]) (rt @ [name])))))"
  obtain q s1 where b: "?body s = (q, s1)" by (cases "?body s")
  let ?check = "thenM flush (thenM flush (assertSafeWritableFile rt (rt @ [name]) ''usage record''))"
  have body: "case q of Inl e \<Rightarrow> differs_at {rt @ [t]} s s1
    | Inr u \<Rightarrow> differs_at {rt @ [t], rt @ [name]} s s1 \<and> fs_node s1 (rt @ [name]) = Some (Regular text)"
  proof -
    obtain w s2 where w: "write_text (rt @ [t]) text s = (w, s2)" by (cases "write_text (rt @ [t]) text s")
    note wt = write_text_at [OF w]
    obtain c s3 where c: "?check s2 = (c, s3)" by (cases "?check s2")
    have "keepsM (still s2) ?check" by (intro still_intros keepsM_intros)
    then have st: "still s2 s3" using c stillD by blast
    have d2: "real_dir (fs_node s2) rt" using differs_dir [OF conjunct1 [OF wt] assms(2)] by simp
    then have d3: "real_dir (fs_node s3) rt" using still_node [OF st] by simp
    have run: "(q, s1) = (case w of Inl e \<Rightarrow> (Inl e, s2) | Inr u \<Rightarrow>
        (case c of Inl e \<Rightarrow> (Inl e, s3) | Inr u \<Rightarrow> rename_file (rt @ [t]) (rt @ [name]) s3))"
      using b w c unfolding thenM_def bindM_def by (auto split: prod.splits sum.splits)
    show ?thesis
    proof (cases w)
      case (Inl e)
      then show ?thesis using run wt by simp
    next
      case (Inr u)
      have p: "fs_node s2 (rt @ [t]) = Some (Regular text)" "differs_at {rt @ [t]} s s2" using wt Inr by auto
      have d23: "differs_at {rt @ [t]} s s3" using p(2) still_differs [OF st] differs_trans by blast
      show ?thesis
      proof (cases c)
        case (Inl e)
        then show ?thesis using run Inr d23 by simp
      next
        case (Inr v)
        then have rn: "rename_file (rt @ [t]) (rt @ [name]) s3 = (q, s1)" using run \<open>w = Inr u\<close> by simp
        show ?thesis using rename_at [OF rn d3 assms(4)] d23 p(1) still_node [OF st] assms(4)
          by (auto simp: differs_at_def split: sum.splits)
      qed
    qed
  qed
  show ?thesis
  proof (cases q)
    case (Inr u)
    then show ?thesis using assms(1) b body by (auto simp: replace_document_def tryM_def)
  next
    case (Inl e)
    let ?clean = "thenM (tryM flush (\<lambda>_. retM ())) (thenM (tryM (removeSafeFile rt (rt @ [t]) ''temporary usage record'') (\<lambda>_. retM ())) (throwM e))"
    have run: "?clean s1 = (r, s')" using assms(1) b Inl by (simp add: replace_document_def tryM_def)
    obtain y s2 where fl: "flush s1 = (y, s2)" by (cases "flush s1")
    then have f: "tryM flush (\<lambda>_. retM ()) s1 = (ok (), s2)"
      by (cases y) (simp_all add: tryM_def retM_def ok_def)
    have "keepsM (still s1) (tryM flush (\<lambda>_. retM ()))" by (intro still_intros keepsM_intros)
    then have st: "still s1 s2" using f stillD by blast
    obtain x s3 where x: "removeSafeFile rt (rt @ [t]) ''temporary usage record'' s2 = (x, s3)"
      by (cases "removeSafeFile rt (rt @ [t]) ''temporary usage record'' s2")
    have "r = Inl e \<and> s' = s3" using run f x
      by (cases x) (auto simp: thenM_def bindM_def tryM_def retM_def throwM_def ok_def)
    moreover have "differs_at {rt @ [t]} s s2" using body Inl still_differs [OF st] differs_trans by fastforce
    moreover have "real_dir (fs_node s2) rt" using differs_dir [OF calculation(2) assms(2)] by simp
    ultimately show ?thesis using removeSafeFile_at [OF x _ assms(3)] differs_trans by fastforce
  qed
qed

lemma real_dir_proper: "real_dir nodes rt \<Longrightarrow> list_all proper rt"
  by (simp add: real_dir_def)

lemma writable_target:
  assumes "assertSafeWritableFile rt (rt @ [c]) label s = (Inr q, s')" "real_dir (fs_node s) rt" "proper c"
  shows "q = rt @ [c]"
proof -
  obtain there s1 where r: "(if there then assertSafeFile rt (rt @ [c]) label else retM (rt @ [c])) s1 = (Inr q, s')"
    "thenM (assertContained rt (rt @ [c]) label) (thenM (assertSafeDirectory rt rt (label @ '' parent''))
      (tryM (bindM (lstat (rt @ [c])) (\<lambda>_. retM True)) (\<lambda>e. if e = FileMissing then retM False else throwM e))) s = (Inr there, s1)"
    using assms(1) unfolding assertSafeWritableFile_def run_iff by auto
  have "keepsM (still s) (thenM (assertContained rt (rt @ [c]) label) (thenM (assertSafeDirectory rt rt (label @ '' parent''))
      (tryM (bindM (lstat (rt @ [c])) (\<lambda>_. retM True)) (\<lambda>e. if e = FileMissing then retM False else throwM e))))"
    by (intro still_intros keepsM_intros)
  then have "still s s1" using r(2) stillD by blast
  then have "real_dir (fs_node s1) rt" using still_node assms(2) by metis
  then show ?thesis using r(1) assms(3) assertSafePath_ok [of rt "rt @ [c]" label False s1 q s'] real_dir_proper [OF assms(2)]
    by (cases there) (auto simp: assertSafeFile_def run_iff)
qed

text \<open>Writing a document changes only the document and temporary files, and the document only when the write returns.\<close>

lemma writeUsageJson_at:
  assumes "writeUsageJson rt name v s = (r, s')" "real_dir (fs_node s) rt" "document_name name"
  shows "case r of Inl e \<Rightarrow> differs_at (temporaries rt) s s'
    | Inr u \<Rightarrow> differs_at (insert (rt @ [name]) (temporaries rt)) s s' \<and> document rt name s' = Some (Regular (json_print v @ [CHR 0x0A]))"
proof -
  let ?w = "\<lambda>p l. assertSafeWritableFile rt p l"
  obtain t s1 where t: "?w (rt @ [name]) ''usage record'' s = (t, s1)" by (cases "?w (rt @ [name]) ''usage record'' s")
  have s1: "still s s1" using t stillD still_asserts(5) by blast
  note d1 = differs_dir [OF still_differs [OF s1, of "{}"] assms(2)]
  show ?thesis
  proof (cases t)
    case (Inl e)
    then show ?thesis using assms(1) t still_differs [OF s1] by (auto simp: writeUsageJson_def bindM_def)
  next
    case (Inr target)
    have target: "target = rt @ [name]" using writable_target [OF t [unfolded Inr] assms(2)] assms(3) by (simp add: document_name_def)
    obtain u s2 where u: "randomUUID s1 = (u, s2)" by (cases "randomUUID s1")
    have n2: "fs_node s2 = fs_node s" "fsys.more s2 = fsys.more s" using uuid_still [OF u] still_node [OF s1] still_more [OF s1] by simp_all
    show ?thesis
    proof (cases u)
      case (Inl e)
      then show ?thesis using assms(1) t Inr u n2 by (auto simp: writeUsageJson_def bindM_def differs_at_def)
    next
      case (Inr uuid)
      let ?t = "temporary_name uuid"
      obtain x s3 where x: "?w (rt @ [?t]) ''temporary usage record'' s2 = (x, s3)" by (cases "?w (rt @ [?t]) ''temporary usage record'' s2")
      have s3: "still s2 s3" using x stillD still_asserts(5) by blast
      have n3: "fs_node s3 = fs_node s" "fsys.more s3 = fsys.more s" using still_node [OF s3] still_more [OF s3] n2 by simp_all
      obtain h s4 where h: "create_new (rt @ [?t]) s3 = (h, s4)" by (cases "create_new (rt @ [?t]) s3")
      have run: "(r, s') = (case x of Inl e \<Rightarrow> (Inl e, s3) | Inr y \<Rightarrow> (case h of Inl e \<Rightarrow> (Inl e, s4)
          | Inr handle \<Rightarrow> replace_document rt handle (rt @ [?t]) (rt @ [name]) (json_print v @ [CHR 0x0A]) s4))"
        using assms(1) t \<open>t = Inr target\<close> target u Inr x h unfolding writeUsageJson_def bindM_def Let_def
        by (auto split: sum.splits prod.splits)
      have d3: "real_dir (fs_node s3) rt" using assms(2) n3 by simp
      have base: "differs_at P s s3" for P using n3 by (simp add: differs_at_def)
      show ?thesis
      proof (cases x)
        case (Inl e)
        then show ?thesis using run base by simp
      next
        case (Inr y)
        show ?thesis
        proof (cases h)
          case (Inl e)
          have "still s3 s4" using create_new_fails [OF h [unfolded Inl] d3] .
          then show ?thesis using run \<open>x = Inr y\<close> Inl differs_trans [OF base still_differs] by simp
        next
          case (Inr q)
          note c = create_new_at [OF h [unfolded Inr] d3]
          have d34: "differs_at {rt @ [?t]} s s4" using c n3 by (auto simp: differs_at_def)
          have d4: "real_dir (fs_node s4) rt" using differs_dir [OF d34 assms(2)] by simp
          have tn: "?t \<noteq> name" using document_not_temporary [OF assms(3), of rt] by (auto simp: temporaries_def)
          have "replace_document rt (rt @ [?t]) (rt @ [?t]) (rt @ [name]) (json_print v @ [CHR 0x0A]) s4 = (r, s')"
            using run \<open>x = Inr y\<close> Inr c by simp
          note rp = replace_document_at [OF this d4 temporary_proper tn]
          have sub: "{rt @ [?t]} \<subseteq> temporaries rt" by (auto simp: temporaries_def)
          show ?thesis
          proof (cases r)
            case (Inl e)
            then show ?thesis using rp differs_mono [OF differs_trans [OF d34] sub] by simp
          next
            case (Inr w)
            have "differs_at (insert (rt @ [name]) (temporaries rt)) s s4" "differs_at (insert (rt @ [name]) (temporaries rt)) s4 s'"
              using differs_mono [OF d34] rp Inr differs_mono [of "{rt @ [?t], rt @ [name]}" s4 s'] sub by auto
            then show ?thesis using rp Inr differs_trans by (auto simp: document_def)
          qed
        qed
      qed
    qed
  qed
qed

text \<open>What reading gives: the parsed text of the regular file, and the world as before.\<close>

lemma still_usage [still_intros]: "keepsM (still s0) (readUsageJson rt name)"
  unfolding readUsageJson_def Let_def by (intro still_intros keepsM_intros | auto split: option.split)+

lemma read_file_at:
  assumes "read_file (rt @ [c]) s = (Inr tx, s')" "real_dir (fs_node s) rt" "proper c"
  shows "fs_node s (rt @ [c]) = Some (Regular tx)"
proof -
  obtain s1 q s2 n where r: "fault s = (ok None, s1)" "resolved False (rt @ [c]) s1 = (Inr q, s2)"
    "(case fs_node s2 q of None \<Rightarrow> throwM FileMissing | Some Dir \<Rightarrow> failM ''EISDIR'' | Some (Link t) \<Rightarrow> throwM FileLoop
      | Some (Regular t) \<Rightarrow> retM t) n = (Inr tx, s')" "q \<noteq> []"
    using assms(1) unfolding read_file_def callFs_iff
    by (fastforce simp: run_iff node_at_def split: option.split_asm if_split_asm)
  have s1: "fs_node s1 = fs_node s" using fault_still [OF r(1)] still_node by blast
  have "q = rt @ [c]" "s2 = s1" using r(2) walk_entry [OF assms(2,3), of False MAX_LINKS]
    by (auto simp: resolved_def run_iff s1 ok_def split: option.split_asm node.split_asm)
  then show ?thesis using r(3) s1 by (auto simp: run_iff split: option.split_asm node.split_asm)
qed

lemma readUsageJson_at:
  assumes "readUsageJson rt name s = (Inr v, s')" "real_dir (fs_node s) rt" "proper name"
  shows "\<exists>tx. document rt name s = Some (Regular tx) \<and> json_parse tx = Some v"
proof -
  obtain q s1 tx s2 where r: "assertSafeFile rt (rt @ [name]) ''usage record'' s = (Inr q, s1)"
    "read_file (rt @ [name]) s1 = (Inr tx, s2)" "json_parse tx = Some v"
    using assms(1) unfolding readUsageJson_def Let_def run_iff by (auto simp: run_iff split: option.split_asm)
  have "fs_node s1 = fs_node s" using stillD [OF still_asserts(4) r(1)] still_node by blast
  then show ?thesis using read_file_at [OF r(2)] assms(2,3) r(3) by (auto simp: document_def)
qed

text \<open>A document is missing only when it has no entry.\<close>

lemma callFs_missing: "callFs op s = (Inl FileMissing, s') \<longleftrightarrow> (\<exists>s1. fault s = (ok None, s1) \<and> op s1 = (Inl FileMissing, s'))"
  unfolding callFs_cases by (auto simp: fail_def)

lemma walk_entry_missing:
  assumes "real_dir nodes rt" "proper c" "\<forall>t. nodes (rt @ [c]) \<noteq> Some (Link t)"
  shows "walk nodes f k [] (rt @ [c]) = (if nodes (rt @ [c]) = None then Inl FileMissing else ok (rt @ [c]))"
  using walk_entry [OF assms(1,2), of f k] assms(3) by (auto split: option.split node.split)

lemma resolved_missing:
  assumes "resolved f (rt @ [c]) s = (r, s')" "real_dir (fs_node s) rt" "proper c" "\<forall>t. fs_node s (rt @ [c]) \<noteq> Some (Link t)"
  shows "s' = s \<and> r = (if fs_node s (rt @ [c]) = None then Inl FileMissing else ok (rt @ [c]))"
  using assms(1) walk_entry_missing [OF assms(2-4), of f MAX_LINKS]
  by (auto simp: resolved_def bindM_def getM_def liftR_def ok_def)

lemma entry_missing:
  assumes "real_dir (fs_node s) rt" "proper c" "\<forall>t. fs_node s (rt @ [c]) \<noteq> Some (Link t)" "fs_node s (rt @ [c]) \<noteq> None"
  shows "lstat (rt @ [c]) s \<noteq> (Inl FileMissing, s')" "realpath (rt @ [c]) s \<noteq> (Inl FileMissing, s')"
    "read_file (rt @ [c]) s \<noteq> (Inl FileMissing, s')"
proof -
  have r: "resolved f (rt @ [c]) s1 = (ok (rt @ [c]), s1)" if "fault s = (ok None, s1)" for f s1
    using resolved_missing [of f rt c s1] assms still_node [OF fault_cases(1) [OF that]]
    by (cases "resolved f (rt @ [c]) s1") auto
  have n: "node_at (rt @ [c]) s1 = (ok (fs_node s (rt @ [c])), s1)" if "fault s = (ok None, s1)" for s1
    using still_node [OF fault_cases(1) [OF that]] by (simp add: node_at_entry)
  show "lstat (rt @ [c]) s \<noteq> (Inl FileMissing, s')"
    using r n assms(4) unfolding lstat_def callFs_missing by (auto simp: bindM_def ok_def retM_def throwM_def)
  show "realpath (rt @ [c]) s \<noteq> (Inl FileMissing, s')"
    using r unfolding realpath_def callFs_missing by (auto simp: ok_def)
  show "read_file (rt @ [c]) s \<noteq> (Inl FileMissing, s')"
    using r n assms(3,4) unfolding read_file_def callFs_missing
    by (auto simp: bindM_def ok_def retM_def throwM_def failM_def fail_def split: node.split_asm)
qed

lemma safe_file_missing:
  assumes "assertSafeFile rt (rt @ [c]) label s = (Inl FileMissing, s')" "real_dir (fs_node s) rt" "proper c"
  shows "fs_node s (rt @ [c]) = None"
proof (rule ccontr)
  assume some: "fs_node s (rt @ [c]) \<noteq> None"
  obtain l s1 where l: "lstat (rt @ [c]) s = (l, s1)" by (cases "lstat (rt @ [c]) s")
  have s1: "fs_node s1 = fs_node s" using stillD [OF still_reads(1) l] still_node by blast
  show False
  proof (cases l)
    case (Inl e)
    then have "lstat (rt @ [c]) s = (Inl FileMissing, s1)"
      using assms(1) l unfolding assertSafeFile_def assertSafePath_def
      by (auto simp: assertContained_def relative_segs_prefix Let_def run_iff)
    then obtain s2 where "fault s = (ok None, s2)" "bindM (resolved False (rt @ [c])) (\<lambda>q. bindM (node_at q)
        (\<lambda>n. case n of None \<Rightarrow> throwM FileMissing | Some v \<Rightarrow> retM v)) s2 = (Inl FileMissing, s1)"
      unfolding lstat_def callFs_missing by blast
    moreover have n2: "fs_node s2 = fs_node s" using fault_cases(1) [OF calculation(1)] still_node by blast
    have "walk (fs_node s) False MAX_LINKS [] (rt @ [c]) = ok (rt @ [c])"
      using walk_entry [OF assms(2,3), of False MAX_LINKS] some by (auto split: option.split node.split)
    ultimately show False using some n2
      by (auto simp: bindM_def resolved_def getM_def liftR_def node_at_entry ok_def retM_def split: option.split_asm)
  next
    case (Inr info)
    have info: "fs_node s (rt @ [c]) = Some info" using lstat_entry [OF assms(2,3) l [unfolded Inr]] .
    show False
    proof (cases "is_link info")
      case True
      then show False using assms(1) l Inr unfolding assertSafeFile_def assertSafePath_def
        by (auto simp: assertContained_def relative_segs_prefix Let_def run_iff)
    next
      case False
      then have nl: "\<forall>t. fs_node s1 (rt @ [c]) \<noteq> Some (Link t)" using info s1 by (auto simp: is_link_def)
      obtain s2 where "realpath (rt @ [c]) s1 = (Inl FileMissing, s2)"
        using assms(1) l Inr False unfolding assertSafeFile_def assertSafePath_def
        by (auto simp: assertContained_def relative_segs_prefix Let_def run_iff)
      then show False using entry_missing(2) [of s1 rt c s2] assms(2,3) nl some s1 by simp
    qed
  qed
qed

lemma readUsageJson_missing:
  assumes "readUsageJson rt name s = (Inl FileMissing, s')" "real_dir (fs_node s) rt" "proper name"
  shows "document rt name s = None"
proof (rule ccontr)
  assume some: "document rt name s \<noteq> None"
  obtain q s1 where q: "assertSafeFile rt (rt @ [name]) ''usage record'' s = (q, s1)"
    by (cases "assertSafeFile rt (rt @ [name]) ''usage record'' s")
  have n1: "fs_node s1 = fs_node s" using stillD [OF still_asserts(4) q] still_node by blast
  show False
  proof (cases q)
    case (Inl e)
    then have "assertSafeFile rt (rt @ [name]) ''usage record'' s = (Inl FileMissing, s1)"
      using assms(1) q by (auto simp: readUsageJson_def Let_def run_iff)
    from safe_file_missing [OF this assms(2,3)] show False using some by (simp add: document_def)
  next
    case (Inr p)
    have "safe_at (fs_node s) rt (rt @ [name]) False"
      using assertSafePath_ok [of rt "rt @ [name]" _ False s p s1] q Inr assms(2,3) real_dir_proper [OF assms(2)]
      by (simp add: assertSafeFile_def)
    then have nl: "\<forall>t. fs_node s1 (rt @ [name]) \<noteq> Some (Link t)"
      using n1 by (auto simp: safe_at_def is_regular_def)
    obtain tx s2 where r: "read_file (rt @ [name]) s1 = (tx, s2)" by (cases "read_file (rt @ [name]) s1")
    have "tx = Inl FileMissing" using assms(1) q Inr r
      by (cases tx) (auto simp: readUsageJson_def Let_def run_iff bindM_def split: option.split_asm)
    then show False using entry_missing(3) [of s1 rt name s2] r assms(2,3) nl some n1 by (simp add: document_def)
  qed
qed

section \<open>The archive is immutable\<close>

lemma same_refl: "printable v \<Longrightarrow> same_json v v"
proof (induction v)
  case (JArr xs)
  then have "\<forall>v \<in> set xs. same_json v v" by (auto simp: list_all_iff)
  then have "same_items xs xs" by (induction xs) auto
  then show ?case by simp
next
  case (JObj ps)
  then have all: "\<forall>(k, v) \<in> set ps. same_json v v" "distinct (map fst ps)" by (fastforce simp: list_all_iff)+
  have "set qs \<subseteq> set ps \<Longrightarrow> same_pairs qs ps" for qs
    using all by (induction qs) (auto simp: map_of_eq_Some_iff split: option.split)
  then show ?case by simp
qed simp_all

definition holds_document :: "path \<Rightarrow> string \<Rightarrow> 'a fsys_scheme \<Rightarrow> json \<Rightarrow> bool" where
  "holds_document rt name s v \<longleftrightarrow> (\<exists>tx. document rt name s = Some (Regular tx) \<and> json_parse tx = Some v)"

lemma receipt_name: "document_name ''receipt.json''"
  by code_simp

text \<open>
  The archived receipt of an attempt is immutable. Archiving never changes a receipt that the session directory
  holds, whatever calls of the file system break; it returns only when the directory holds a valid receipt equal to the
  one given, and apart from that document it leaves the files as they were but for its own temporary files.
\<close>

theorem archive_immutable:
  assumes "archiveReceipt valid rt receipt s = (r, s')" "real_dir (fs_node s) rt" "printable receipt"
  shows "(\<forall>v. holds_document rt ''receipt.json'' s v \<and> truthy v \<longrightarrow> document rt ''receipt.json'' s' = document rt ''receipt.json'' s)
    \<and> (r = Inr () \<longrightarrow> valid receipt \<and> (\<exists>v. holds_document rt ''receipt.json'' s' v \<and> valid v \<and> same_json v receipt))
    \<and> differs_at (insert (rt @ [''receipt.json'']) (temporaries rt)) s s'"
proof (cases "valid receipt")
  case False
  then show ?thesis using assms(1) by (auto simp: archiveReceipt_def thenM_def bindM_def checkM_def failM_def fail_def)
next
  case True
  let ?n = "''receipt.json''" and ?D = "insert (rt @ [''receipt.json'']) (temporaries rt)"
  have pn: "proper ?n" using receipt_name by (simp add: document_name_def)
  obtain o1 s1 where o1: "readUsageJson rt ?n s = (o1, s1)" by (cases "readUsageJson rt ?n s")
  have st: "still s s1" using o1 stillD still_usage by blast
  have doc: "document rt ?n s1 = document rt ?n s" using still_node [OF st] by (simp add: document_def)
  have d1: "real_dir (fs_node s1) rt" using assms(2) still_node [OF st] by simp
  have same: "holds_document rt ?n s1 v = holds_document rt ?n s v" for v using doc by (simp add: holds_document_def)
  have written: ?thesis if w: "writeUsageJson rt ?n receipt s1 = (r, s')" and none: "\<not> (\<exists>v. holds_document rt ?n s v \<and> truthy v)"
  proof -
    have "case r of Inl e \<Rightarrow> differs_at (temporaries rt) s1 s'
        | Inr u \<Rightarrow> differs_at ?D s1 s' \<and> document rt ?n s' = Some (Regular (json_print receipt @ [CHR 0x0A]))"
      by (rule writeUsageJson_at [OF w d1 receipt_name])
    then have "differs_at ?D s1 s'" "r = Inr () \<longrightarrow> document rt ?n s' = Some (Regular (json_print receipt @ [CHR 0x0A]))"
      using differs_mono [of "temporaries rt" s1 s' ?D] by (auto split: sum.split_asm)
    moreover have "json_parse (json_print receipt @ [CHR 0x0A]) = Some receipt" by (rule json_parse_line [OF assms(3)])
    ultimately show ?thesis using none True same_refl [OF assms(3)] differs_trans [OF still_differs [OF st, of ?D]]
      unfolding holds_document_def by blast
  qed
  show ?thesis
  proof (cases o1)
    case (Inl e)
    show ?thesis
    proof (cases "e = FileMissing")
      case True
      then have "document rt ?n s = None" using readUsageJson_missing [OF _ assms(2) pn] o1 Inl by blast
      then have "\<not> (\<exists>v. holds_document rt ?n s v \<and> truthy v)" by (simp add: holds_document_def)
      moreover have "writeUsageJson rt ?n receipt s1 = (r, s')" using assms(1) \<open>valid receipt\<close> o1 Inl True
        by (simp add: archiveReceipt_def thenM_def bindM_def tryM_def retM_def ok_def)
      ultimately show ?thesis by (rule written [rotated])
    next
      case False
      then have "r = Inl e \<and> s' = s1" using assms(1) \<open>valid receipt\<close> o1 Inl
        by (auto simp: archiveReceipt_def thenM_def bindM_def tryM_def throwM_def retM_def ok_def)
      then show ?thesis using doc still_differs [OF st] by auto
    qed
  next
    case (Inr v)
    have held: "holds_document rt ?n s v" using readUsageJson_at [OF o1 [unfolded Inr] assms(2) pn] by (simp add: holds_document_def)
    have unique: "w = v" if "holds_document rt ?n s w" for w using that held by (auto simp: holds_document_def)
    have run: "(if truthy v then thenM (checkM (\<not> valid v) ''AgentReceipt is invalid'')
             (checkM (\<not> same_json v receipt) ''archived attempt receipt is immutable'')
         else writeUsageJson rt ?n receipt) s1 = (r, s')" using assms(1) True o1 Inr
      by (simp add: archiveReceipt_def thenM_def bindM_def tryM_def retM_def ok_def)
    show ?thesis
    proof (cases "truthy v")
      case True
      then have "s' = s1 \<and> (r = Inr () \<longrightarrow> valid v \<and> same_json v receipt)" using run
        by (cases "valid v"; cases "same_json v receipt") (auto simp: thenM_def bindM_def failM_def retM_def fail_def ok_def)
      then show ?thesis using doc still_differs [OF st, of ?D] same [of v] held \<open>valid receipt\<close> by metis
    next
      case False
      then show ?thesis using run unique by (intro written) auto
    qed
  qed
qed

definition sample_files :: fsys where
  "sample_files = \<lparr> fs_node = (\<lambda>p. if p = [''s''] then Some Dir
       else if p = [''s'', ''receipt.json''] then Some (Regular (json_print (JObj [(''attempt'', JStr ''a1'')]) @ [CHR 0x0A])) else None),
     fs_faults = [], fs_uuids = [''u''] \<rparr>"

lemma sample_files_dir: "real_dir (fs_node sample_files) [''s'']"
  by (auto simp: real_dir_def sample_files_def proper_def le_Suc_eq)

theorem archive_immutable_witness:
  "\<exists>e s'. archiveReceipt (\<lambda>v. True) [''s''] (JObj [(''attempt'', JStr ''a2'')]) sample_files = (Inl e, s')
     \<and> document [''s''] ''receipt.json'' s' = document [''s''] ''receipt.json'' sample_files"
proof -
  let ?r = "JObj [(''attempt'', JStr ''a2'')]"
  have "case archiveReceipt (\<lambda>v. True) [''s''] ?r sample_files of (Inl e, s') \<Rightarrow> True | _ \<Rightarrow> False" by code_simp
  then obtain e s' where run: "archiveReceipt (\<lambda>v. True) [''s''] ?r sample_files = (Inl e, s')" by (auto split: prod.split_asm sum.split_asm)
  have "json_parse (json_print (JObj [(''attempt'', JStr ''a1'')]) @ [CHR 0x0A]) = Some (JObj [(''attempt'', JStr ''a1'')])"
    by (rule json_parse_line) simp
  then have "holds_document [''s''] ''receipt.json'' sample_files (JObj [(''attempt'', JStr ''a1'')])"
    by (simp add: holds_document_def document_def sample_files_def)
  then show ?thesis using run archive_immutable [OF run sample_files_dir] by (auto simp: truthy_def)
qed

end
