(* ===== verification/PreparedPublication.thy ===== *)
theory PreparedPublication
  imports Receipts UsageRecords
begin

text \<open>
  src/runtime/prepared-publication.ts: with the prepared protocol the model writes the text of its comment to a file
  and the controller publishes it. The publication is frozen in the session directory once the model has ended, and
  delivered from there however often the controller restarts, without ever posting it twice. The schema of a decision
  and the one of a receipt, which checks the usage, are parameters.
\<close>

section \<open>The frozen publication\<close>

datatype PreparedStatus = PsReady | PsWriting | PsDelivered

record PrepEnv =
  pe_event :: "json \<Rightarrow> FlowEventType option"
  pe_usage :: "json \<Rightarrow> AttemptUsage option"
  pe_usageJson :: "AttemptUsage \<Rightarrow> json"

text \<open>The document with the fields that are read from it.\<close>

record PreparedPublication =
  pp_document :: "(string \<times> json) list"
  pp_event :: FlowEventType
  pp_body :: "string option"
  pp_publicationKeys :: "string list"
  pp_reusableCommentIds :: "string list"
  pp_usage :: "AttemptUsage option"
  pp_status :: PreparedStatus

definition needsPreparedComment :: "DecisionExpectation \<Rightarrow> FlowEventType \<Rightarrow> bool" where
  "needsPreparedComment x e \<longleftrightarrow> e \<in> {AgentNeedsHuman, HumanQuestion, HumanUnclear, HumanAnswerUnclear}
     \<or> (e = AgentSucceeded \<and> (de_resultContract x \<in> {RAssessment, RPlan, RDiagnostic, RVerification, RDocumentation}
          \<or> (de_resultContract x = RDevelopment \<and> de_migration x \<noteq> None)))"

definition PREPARED :: string where "PREPARED = ''prepared-publication.json''"

definition attempt_marker :: "DecisionExpectation \<Rightarrow> string" where
  "attempt_marker x = ''<!-- agent-flow-attempt:v1 attempt='' @ de_attemptId x @ '' -->''"

definition status_name :: "PreparedStatus \<Rightarrow> string" where
  "status_name s = (case s of PsReady \<Rightarrow> ''ready'' | PsWriting \<Rightarrow> ''writing'' | PsDelivered \<Rightarrow> ''delivered'')"

definition status_of :: "json option \<Rightarrow> PreparedStatus option" where
  "status_of v = (if v = Some (JStr ''ready'') then Some PsReady else if v = Some (JStr ''writing'') then Some PsWriting
     else if v = Some (JStr ''delivered'') then Some PsDelivered else None)"

fun json_strings :: "json list \<Rightarrow> string list option" where
  "json_strings [] = Some []"
| "json_strings (JStr s # vs) = map_option (\<lambda>ss. s # ss) (json_strings vs)"
| "json_strings (_ # vs) = None"

definition string_array :: "json option \<Rightarrow> string list option" where
  "string_array v = (case v of Some (JArr vs) \<Rightarrow> json_strings vs | _ \<Rightarrow> None)"

text \<open>The body: null, or a string of at most 65000 code units.\<close>

definition prepared_body :: "json option \<Rightarrow> string option option" where
  "prepared_body v = (case v of Some JNull \<Rightarrow> Some None
     | Some (JStr s) \<Rightarrow> if length s \<le> 65000 then Some (Some s) else None
     | _ \<Rightarrow> None)"

definition prepared_identity :: "DecisionExpectation \<Rightarrow> (string \<times> json) list \<Rightarrow> bool" where
  "prepared_identity x ps \<longleftrightarrow> map_of ps ''version'' = Some (JInt 1)
     \<and> (case map_of ps ''ticket'' of Some t \<Rightarrow> same_json t (ref_document (de_ticket x)) | None \<Rightarrow> False)
     \<and> map_of ps ''configRevision'' = Some (JStr (de_configRevision x))
     \<and> map_of ps ''controllerId'' = Some (JStr (de_controllerId x))
     \<and> map_of ps ''flowInstanceId'' = Some (JStr (de_flowInstanceId x))
     \<and> map_of ps ''attemptId'' = Some (JStr (de_attemptId x))"

definition decision_document :: "json option \<Rightarrow> json" where
  "decision_document v = JObj (case v of None \<Rightarrow> [] | Some e \<Rightarrow> [(''event'', e)])"

definition allowedEvent :: "DecisionExpectation \<Rightarrow> FlowEventType \<Rightarrow> string \<Rightarrow> ('s, unit) io" where
  "allowedEvent x e m = bindM (liftR (allowedAgentEvents (de_flow x) (de_stateId x) (de_mode x))) (\<lambda>allowed.
     invalidM (event_name e \<notin> set allowed) m)"

text \<open>The body carries the publication marker of the configuration and the controller.\<close>

definition hasPublication :: "string \<Rightarrow> DecisionExpectation \<Rightarrow> bool" where
  "hasPublication body x \<longleftrightarrow> parsePublication body = PCurrent \<lparr> pm_config = de_configRevision x, pm_controller = de_controllerId x \<rparr>"

definition prepared_usage :: "PrepEnv \<Rightarrow> json option \<Rightarrow> ('s, AttemptUsage option) io" where
  "prepared_usage env v = (case v of None \<Rightarrow> retM None
     | Some u \<Rightarrow> if \<not> truthy u then retM None
         else (case pe_usage env u of None \<Rightarrow> failM ''AgentReceipt is invalid'' | Some w \<Rightarrow> retM (Some w)))"

definition readPreparedPublication ::
  "PrepEnv \<Rightarrow> path \<Rightarrow> DecisionExpectation \<Rightarrow> ('a fsys_scheme, PreparedPublication) io" where
  "readPreparedPublication env rt x =
    bindM (readUsageJson rt PREPARED) (\<lambda>value.
    (case value of
       JObj ps \<Rightarrow>
        (case (string_array (map_of ps ''publicationKeys''), string_array (map_of ps ''reusableCommentIds''),
               status_of (map_of ps ''status''), prepared_body (map_of ps ''body'')) of
           (Some keys, Some reusable, Some status, Some body) \<Rightarrow>
             thenM (checkM (\<not> prepared_identity x ps) ''prepared publication identity is invalid'')
            (case pe_event env (decision_document (map_of ps ''event'')) of
               None \<Rightarrow> failM ''AgentDecision is invalid''
             | Some e \<Rightarrow>
                thenM (allowedEvent x e ''retained decision is not allowed by the pinned flow state'')
               (bindM (readUsageJson rt ''decision.json'') (\<lambda>d.
                (case pe_event env d of
                   None \<Rightarrow> failM ''AgentDecision is invalid''
                 | Some decided \<Rightarrow>
                    thenM (invalidM (decided \<noteq> e) ''prepared decision changed after completion'')
                   (thenM (checkM (opt_is (\<lambda>b. \<not> needsPreparedComment x e \<or> \<not> hasPublication b x
                        \<or> \<not> includes_str b (attempt_marker x)) body) ''prepared comment metadata is invalid'')
                   (bindM (prepared_usage env (map_of ps ''usage'')) (\<lambda>usage.
                      retM \<lparr> pp_document = ps, pp_event = e, pp_body = body, pp_publicationKeys = keys,
                        pp_reusableCommentIds = reusable, pp_usage = usage, pp_status = status \<rparr>)))))))
         | _ \<Rightarrow> failM ''prepared publication identity is invalid'')
     | _ \<Rightarrow> failM ''prepared publication identity is invalid''))"

section \<open>Freezing\<close>

text \<open>A line that is a documentation marker: at most three blanks before it, blanks or tabs after it.\<close>

definition documentation_line :: "string \<Rightarrow> bool" where
  "documentation_line l = (let indent = takeWhile (\<lambda>c. c = CHR '' '') l;
       opening = ''<!-- agent-flow-documentation:v1 '';
       r = rev (dropWhile (\<lambda>c. c = CHR '' '' \<or> c = CHR 0x09) (rev (drop (length indent + length opening) l)))
     in length indent \<le> 3 \<and> starts_with (drop (length indent) l) opening \<and> ends_with r '' -->'' \<and> 4 < length r)"

fun drop_first :: "('a \<Rightarrow> bool) \<Rightarrow> 'a list \<Rightarrow> 'a list" where
  "drop_first p [] = []"
| "drop_first p (x # xs) = (if p x then xs else x # drop_first p xs)"

text \<open>The text without its documentation marker; lines end at a line feed or a carriage return.\<close>

definition without_documentation :: "string \<Rightarrow> string" where
  "without_documentation t = join_with [CHR 0x0A]
     (drop_first documentation_line (concat (map (split_char (CHR 0x0D)) (split_char (CHR 0x0A) t))))"

definition ascii_lower :: "char \<Rightarrow> char" where
  "ascii_lower c = (if is_upper c then char_of (code c + 32) else c)"

fun mentions_marker :: "string \<Rightarrow> bool" where
  "mentions_marker [] = False"
| "mentions_marker (c # s) \<longleftrightarrow>
    (starts_with (c # s) ''<!--'' \<and> starts_with (map ascii_lower (dropWhile is_ws (drop 3 s))) ''agent-flow'')
    \<or> mentions_marker s"

definition BUG_RECEIPT :: string where "BUG_RECEIPT = ''BUG RECEIPT '' @ [CHR 0xB7] @ '' VERIFIED''"

definition result_marker_of :: "DecisionExpectation \<Rightarrow> FlowEventType \<Rightarrow> string" where
  "result_marker_of x e =
    (if e = AgentSucceeded \<and> (de_resultContract x \<in> {RAssessment, RPlan, RDiagnostic}
         \<or> (de_resultContract x = RDevelopment \<and> de_migration x \<noteq> None))
     then CHR 0x0A # ''<!-- agent-flow-result:v1 state='' @ de_stateId x @ '' -->'' else [])"

definition commentBody :: "DecisionExpectation \<Rightarrow> FlowEventType \<Rightarrow> AttemptUsage option \<Rightarrow> string \<Rightarrow> string res" where
  "commentBody x e usage t =
    (let documented = de_resultContract x = RDocumentation \<and> e = AgentSucceeded \<and> parseDocumentation t \<noteq> None;
         substantive = (if documented then without_documentation t else t)
     in if trim_str substantive = [] \<or> mentions_marker substantive then invalidDecision ''prepared comment text is invalid''
        else if de_resultContract x = RVerification \<and> e = AgentSucceeded \<and> hd (lines_of t) \<noteq> BUG_RECEIPT
        then invalidDecision (''prepared verification must begin with '' @ BUG_RECEIPT)
        else bindR (decisionMarker x) (\<lambda>marker.
          ok (marker @ [CHR 0x0A] @ t @ result_marker_of x e @ [CHR 0x0A, CHR 0x0A] @ attempt_marker x
            @ (case usageLine usage of None \<Rightarrow> [] | Some l \<Rightarrow> CHR 0x0A # l))))"

definition preparedText :: "path \<Rightarrow> ('a fsys_scheme, string) io" where
  "preparedText rt = bindM (assertSafeFile rt (rt @ [''prepared-comment.txt'']) ''prepared comment'') (\<lambda>p.
     bindM (read_file p) (\<lambda>t. thenM (invalidM (60000 < byteLength t) ''prepared comment is too large'') (retM (trim_str t))))"

definition preparedComment ::
  "path \<Rightarrow> DecisionExpectation \<Rightarrow> FlowEventType \<Rightarrow> AttemptUsage option \<Rightarrow> ('a fsys_scheme, string option) io" where
  "preparedComment rt x e usage =
    (if \<not> needsPreparedComment x e then retM None
     else tryM (bindM (preparedText rt) (\<lambda>t. bindM (liftR (commentBody x e usage t)) (\<lambda>b. retM (Some b))))
       (\<lambda>err. if err = FileMissing then retM None else throwM err))"

definition preparedDecision :: "PrepEnv \<Rightarrow> path \<Rightarrow> ('a fsys_scheme, FlowEventType) io" where
  "preparedDecision env rt =
    tryM (bindM (readUsageJson rt ''decision.json'') (\<lambda>d.
        case pe_event env d of None \<Rightarrow> failM ''AgentDecision is invalid'' | Some e \<Rightarrow> retM e))
      (\<lambda>_. liftR (invalidDecision ''decision does not match the AgentDecision schema''))"

definition prepared_document ::
  "PrepEnv \<Rightarrow> DecisionExpectation \<Rightarrow> FlowEventType \<Rightarrow> string option \<Rightarrow> AttemptUsage option \<Rightarrow> json" where
  "prepared_document env x e body usage = JObj
    ([(''version'', JInt 1), (''ticket'', ref_document (de_ticket x)), (''configRevision'', JStr (de_configRevision x)),
      (''controllerId'', JStr (de_controllerId x)), (''flowInstanceId'', JStr (de_flowInstanceId x)),
      (''attemptId'', JStr (de_attemptId x)), (''event'', JStr (event_name e)),
      (''body'', case body of None \<Rightarrow> JNull | Some b \<Rightarrow> JStr b),
      (''publicationKeys'', JArr (map JStr (de_publicationKeys x))),
      (''reusableCommentIds'', JArr (map JStr (de_reusableCommentIds x)))]
     @ (case usage of None \<Rightarrow> [] | Some u \<Rightarrow> [(''usage'', pe_usageJson env u)])
     @ [(''status'', JStr ''ready'')])"

definition isFrozen :: "PrepEnv \<Rightarrow> path \<Rightarrow> DecisionExpectation \<Rightarrow> ('a fsys_scheme, bool) io" where
  "isFrozen env rt x = tryM (bindM (readPreparedPublication env rt x) (\<lambda>_. retM True))
     (\<lambda>e. if e = FileMissing then retM False else throwM e)"

definition freezePreparedPublication ::
  "PrepEnv \<Rightarrow> path \<Rightarrow> DecisionExpectation \<Rightarrow> AttemptUsage option \<Rightarrow> ('a fsys_scheme, unit) io" where
  "freezePreparedPublication env rt x usage =
    bindM (isFrozen env rt x) (\<lambda>frozen.
      if frozen then retM ()
      else bindM (preparedDecision env rt) (\<lambda>e.
        thenM (allowedEvent x e ''decision event is not allowed by the pinned flow state'')
       (bindM (preparedComment rt x e usage) (\<lambda>body.
        thenM (invalidM (body = None \<and> needsPreparedComment x e \<and> de_reusableCommentIds x = [])
            ''final stage comment text was not prepared and no reusable result is available'')
          (writeUsageJson rt PREPARED (prepared_document env x e body usage))))))"

section \<open>Delivery\<close>

definition json_at :: "json \<Rightarrow> nat \<Rightarrow> json option" where
  "json_at v n = (case v of JArr xs \<Rightarrow> if n < length xs then Some (xs ! n) else None
     | JObj ps \<Rightarrow> map_of ps (nat_str n) | _ \<Rightarrow> None)"

definition names_key :: "string \<Rightarrow> string \<Rightarrow> string \<Rightarrow> bool res" where
  "names_key key kind i = (case json_parse key of None \<Rightarrow> fail ''SyntaxError''
     | Some v \<Rightarrow> if v = JNull then fail ''TypeError''
         else ok (json_at v 3 = Some (JStr kind) \<and> json_at v 4 = Some (JStr i)))"

definition older_than :: "string option \<Rightarrow> string \<Rightarrow> bool" where
  "older_than activatedAt createdAt = (case activatedAt of None \<Rightarrow> False
     | Some a \<Rightarrow> a \<noteq> [] \<and> (case (date_parse createdAt, date_parse a) of (Some c, Some b) \<Rightarrow> c < b | _ \<Rightarrow> False))"

definition comment_publications :: "DecisionExpectation \<Rightarrow> ProviderComment list \<Rightarrow> Publication list" where
  "comment_publications x cs = concat (map (\<lambda>c. (case parsePublication (pc_body c) of
       PCurrent m \<Rightarrow> if older_than (de_activatedAt x) (pc_createdAt c) then []
         else [\<lparr> pb_ownershipEligible = None, pb_key = pc_id c, pb_createdAt = pc_createdAt c, pb_metadata = m \<rparr>]
     | _ \<Rightarrow> [])) cs)"

definition retainedOwner :: "DecisionExpectation \<Rightarrow> Publication \<Rightarrow> bool res" where
  "retainedOwner x owner = (case de_migration x of None \<Rightarrow> ok False
     | Some m \<Rightarrow> bindR (names_key (mg_ownerKey m) ''comment'' (pb_key owner)) (\<lambda>b.
         ok (b \<and> pm_config (pb_metadata owner) = mg_ownerConfig m)))"

definition assertPublicationOwner :: "DecisionExpectation \<Rightarrow> ProviderTicketSnapshot \<Rightarrow> ('s, unit) io" where
  "assertPublicationOwner x ticket =
    bindM (liftR (electOwner (comment_publications x (sn_comments ticket)))) (\<lambda>owner.
    (case owner of None \<Rightarrow> retM ()
     | Some p \<Rightarrow> bindM (liftR (retainedOwner x p)) (\<lambda>retained.
         checkM (pm_controller (pb_metadata p) \<noteq> de_controllerId x
             \<or> (if de_migration x \<noteq> None then \<not> retained else pm_config (pb_metadata p) \<noteq> de_configRevision x))
           ''publication ownership changed'')))"

definition with_status :: "PreparedPublication \<Rightarrow> PreparedStatus \<Rightarrow> json" where
  "with_status value status = JObj (put_key ''status'' (JStr (status_name status)) (pp_document value))"

text \<open>The provider refused the request, so that no comment was made.\<close>

definition rejected :: "err \<Rightarrow> bool" where
  "rejected e = (case e of ProviderHttpError tr (Some status) \<Rightarrow> status \<in> {400, 401, 403, 404, 422, 429} | _ \<Rightarrow> False)"

definition postPrepared ::
  "path \<Rightarrow> DecisionExpectation \<Rightarrow> ('a fsys_scheme) DecisionProvider \<Rightarrow> ('a fsys_scheme \<Rightarrow> bool) \<Rightarrow> PreparedPublication \<Rightarrow> string
     \<Rightarrow> ('a fsys_scheme, ProviderComment) io" where
  "postPrepared rt x pv canWrite value body =
    thenM (checkM (pp_status value \<noteq> PsReady) ''uncertain publication requires provider reconciliation'')
   (bindM (getM canWrite) (\<lambda>active.
    thenM (checkM (\<not> active) ''publication was cancelled'')
   (thenM (writeUsageJson rt PREPARED (with_status value PsWriting))
      (tryM (pv_createComment pv (de_ticket x) body) (\<lambda>e.
         thenM (if rejected e then writeUsageJson rt PREPARED (JObj (pp_document value)) else retM ()) (throwM e))))))"

definition deliverPreparedPublication ::
  "PrepEnv \<Rightarrow> path \<Rightarrow> DecisionExpectation \<Rightarrow> ('a fsys_scheme) DecisionProvider \<Rightarrow> ('a fsys_scheme \<Rightarrow> bool)
     \<Rightarrow> ('a fsys_scheme, AttemptUsage option) io" where
  "deliverPreparedPublication env rt x pv canWrite =
    bindM (readPreparedPublication env rt x) (\<lambda>value.
    (case pp_body value of None \<Rightarrow> retM (pp_usage value)
     | Some body \<Rightarrow>
        bindM (getM canWrite) (\<lambda>active.
        thenM (checkM (\<not> active \<or> pv_kind pv \<noteq> tr_provider (de_ticket x)) ''publication is not active'')
       (bindM (pv_readTicket pv (de_ticket x) (de_activationLabel x)) (\<lambda>ticket.
        thenM (checkM (sn_ref ticket \<noteq> de_ticket x \<or> \<not> sn_open ticket \<or> \<not> av_present (sn_activation ticket))
           ''publication ticket is not active'')
         (let matches = filter (\<lambda>c. includes_str (pc_body c) (attempt_marker x)) (sn_comments ticket) in
          thenM (checkM (1 < length matches \<or> (length matches = 1 \<and> pc_body (hd matches) \<noteq> body))
             ''prepared publication evidence is ambiguous'')
         (thenM (assertPublicationOwner x ticket)
         (bindM (if matches = [] then postPrepared rt x pv canWrite value body else retM (hd matches)) (\<lambda>comment.
          bindM (pv_readComment pv (de_ticket x) (pc_id comment)) (\<lambda>readback.
          thenM (checkM (pc_id readback \<noteq> pc_id comment \<or> pc_url readback \<noteq> pc_url comment \<or> pc_body readback \<noteq> body)
             ''prepared publication readback is uncertain'')
         (thenM (writeUsageJson rt PREPARED (with_status value PsDelivered))
            (retM (pp_usage value)))))))))))))"

end
