(* ===== verification/PreparedProps.thy ===== *)
theory PreparedProps
  imports PreparedPublication
begin

text \<open>
  What the delivery of prepared publications promises: however often it is repeated, and whatever calls of the file
  system or the provider break, at most one comment is ever posted for an attempt, and an attempt is taken as delivered
  only when the provider shows exactly the frozen text.
\<close>

section \<open>What the parser reads can be printed\<close>

lemma mk_num_printable: "printable (mk_num m fr ex)"
  by (simp add: mk_num_def Let_def)

lemma json_number_printable: "json_number s = Some (v, r) \<Longrightarrow> printable v"
  by (auto simp: json_number_def Let_def mk_num_printable split: if_split_asm option.split_asm prod.split_asm)

lemma put_key_keys: "set (map fst (put_key k v ps)) = insert k (set (map fst ps))"
proof (induction ps)
  case (Cons p ps)
  then show ?case by (cases p) (simp add: insert_commute)
qed simp

lemma put_key_printable:
  "printable (JObj ps) \<Longrightarrow> printable v \<Longrightarrow> printable (JObj (put_key k v ps))"
proof (induction ps)
  case (Cons p ps)
  obtain k' v' where p: "p = (k', v')" by (cases p)
  show ?case
  proof (cases "k = k'")
    case False
    have "printable (JObj ps)" "k' \<notin> set (map fst ps)" "printable v'" using Cons.prems p by auto
    then have "printable (JObj (put_key k v ps))" "k' \<notin> set (map fst (put_key k v ps))"
      using Cons.IH Cons.prems(2) False put_key_keys [of k v ps] by auto
    then show ?thesis using False p \<open>printable v'\<close> by simp
  qed (use Cons.prems p in auto)
qed simp

lemma json_value_printable:
  "json_value n s = Some (v, r) \<Longrightarrow> printable v"
  "json_items n acc s = Some (v, r) \<Longrightarrow> list_all printable acc \<Longrightarrow> printable v"
  "json_pairs n ps s = Some (v, r) \<Longrightarrow> printable (JObj ps) \<Longrightarrow> printable v"
proof (induction n s and n acc s and n ps s arbitrary: v r and v r and v r rule: json_value_json_items_json_pairs.induct)
  case (2 n s)
  then show ?case
    by (auto simp: Let_def split: if_split_asm option.split_asm dest: json_number_printable)
next
  case (4 n acc s)
  then show ?case by (fastforce split: option.split_asm prod.split_asm)
next
  case (6 n acc s)
  then show ?case by (fastforce simp del: printable.simps(3) intro: put_key_printable split: option.split_asm prod.split_asm)
qed simp_all

lemma json_parse_printable: "json_parse s = Some v \<Longrightarrow> printable v"
  by (auto simp: json_parse_def simp del: json_value.simps split: option.split_asm prod.split_asm if_split_asm dest: json_value_printable(1))

lemma put_key_lookup: "map_of (put_key k v ps) k' = (if k' = k then Some v else map_of ps k')"
  by (induction ps) auto

section \<open>The world of a delivery\<close>

text \<open>
  The files, the provider and the requests to create a comment, in their order: the text and whether the provider
  refused it. Every other failing request may have created the comment.
\<close>

record 'p dworld = fsys +
  dw_provider :: 'p
  dw_posts :: "(string \<times> bool) list"

definition at_provider :: "('p, 'b) io \<Rightarrow> ('p dworld, 'b) io" where
  "at_provider op s = (case op (dw_provider s) of (r, p) \<Rightarrow> (r, s \<lparr> dw_provider := p \<rparr>))"

definition posting :: "('p, 'b) io \<Rightarrow> string \<Rightarrow> ('p dworld, 'b) io" where
  "posting op body s = (case at_provider op s of (r, s') \<Rightarrow>
     (r, s' \<lparr> dw_posts := dw_posts s' @ [(body, case r of Inl e \<Rightarrow> rejected e | Inr _ \<Rightarrow> False)] \<rparr>))"

definition world_provider :: "'p DecisionProvider \<Rightarrow> ('p dworld) DecisionProvider" where
  "world_provider pv = \<lparr> pv_kind = pv_kind pv,
     pv_readTicket = (\<lambda>t l. at_provider (pv_readTicket pv t l)),
     pv_readComment = (\<lambda>t i. at_provider (pv_readComment pv t i)),
     pv_readChangeRequest = (\<lambda>t n. at_provider (pv_readChangeRequest pv t n)),
     pv_findReview = (\<lambda>t n m xs. at_provider (pv_findReview pv t n m xs)),
     pv_readReview = (\<lambda>t n i. at_provider (pv_readReview pv t n i)),
     pv_permission = (\<lambda>r a. at_provider (pv_permission pv r a)),
     pv_createComment = (\<lambda>t b. posting (pv_createComment pv t b) b), pv_url = pv_url pv \<rparr>"

definition posted :: "'p dworld \<Rightarrow> (string \<times> bool) list" where
  "posted s = filter (\<lambda>p. \<not> snd p) (dw_posts s)"

text \<open>The document that is there and does not say that the publication is ready to be posted.\<close>

definition not_ready :: "path \<Rightarrow> 'a fsys_scheme \<Rightarrow> bool" where
  "not_ready rt s \<longleftrightarrow> (\<exists>tx. document rt PREPARED s = Some (Regular tx)
     \<and> (\<forall>ps. json_parse tx = Some (JObj ps) \<longrightarrow> status_of (map_of ps ''status'') \<noteq> Some PsReady))"

definition posted_once :: "path \<Rightarrow> 'p dworld \<Rightarrow> bool" where
  "posted_once rt s \<longleftrightarrow> real_dir (fs_node s) rt \<and> (posted s = [] \<or> (length (posted s) = 1 \<and> not_ready rt s))"

lemma posts_more: "fsys.more (s' :: 'p dworld) = fsys.more s \<Longrightarrow> dw_posts s' = dw_posts s"
  by (cases s; cases s') simp

lemma posted_once_differs:
  assumes "differs_at P s s'" "posted_once rt s" "\<And>p. p \<in> P \<Longrightarrow> length rt < length p" "rt @ [PREPARED] \<notin> P"
  shows "posted_once rt s'"
proof -
  have "real_dir (fs_node s') rt" using differs_dir [OF assms(1)] assms(2,3) by (simp add: posted_once_def)
  moreover have "posted s' = posted s" using assms(1) posts_more [of s' s] by (simp add: posted_def differs_at_def)
  moreover have "document rt PREPARED s' = document rt PREPARED s" using assms(1,4) by (simp add: differs_at_def document_def)
  ultimately show ?thesis using assms(2) by (simp add: posted_once_def not_ready_def)
qed

lemma temporaries_long: "p \<in> temporaries rt \<Longrightarrow> length rt < length p"
  by (auto simp: temporaries_def)

lemma prepared_name: "document_name PREPARED" "proper PREPARED"
  by code_simp+

lemma still_posted_once: "still s s' \<Longrightarrow> posted_once rt s \<Longrightarrow> posted_once rt s'"
  using posted_once_differs [of "{}" s s' rt] still_differs by fastforce

lemma keeps_still: "(\<And>s0. keepsM (still s0) m) \<Longrightarrow> keepsM (posted_once rt) m"
  unfolding keepsM_def using still_posted_once still_refl by blast

section \<open>Postconditions\<close>

text \<open>Started where P holds, the operation ends where Q holds, whether it returns or throws.\<close>

definition leadsM :: "('s \<Rightarrow> bool) \<Rightarrow> ('s, 'a) io \<Rightarrow> ('s \<Rightarrow> bool) \<Rightarrow> bool" where
  "leadsM P m Q \<longleftrightarrow> (\<forall>s. P s \<longrightarrow> Q (snd (m s)))"

lemma leads_bind: "keepsM P m \<Longrightarrow> (\<And>x. leadsM P (f x) Q) \<Longrightarrow> (\<And>s. P s \<Longrightarrow> Q s) \<Longrightarrow> leadsM P (bindM m f) Q"
  unfolding leadsM_def keepsM_def bindM_def by (fastforce split: prod.splits sum.splits)

lemma leads_then: "keepsM P m \<Longrightarrow> leadsM P n Q \<Longrightarrow> (\<And>s. P s \<Longrightarrow> Q s) \<Longrightarrow> leadsM P (thenM m n) Q"
  unfolding thenM_def by (rule leads_bind)

lemma leads_seq: "leadsM P m Q \<Longrightarrow> (\<And>x. keepsM Q (f x)) \<Longrightarrow> leadsM P (bindM m f) Q"
  unfolding leadsM_def keepsM_def bindM_def by (fastforce split: prod.splits sum.splits)

lemma leads_keeps: "keepsM P m \<Longrightarrow> (\<And>s. P s \<Longrightarrow> Q s) \<Longrightarrow> leadsM P m Q"
  unfolding leadsM_def keepsM_def by blast

lemma leads_from: "leadsM Q m Q = keepsM Q m"
  unfolding leadsM_def keepsM_def by simp

lemma provider_node: "at_provider op s = (r, s') \<Longrightarrow> fs_node s' = fs_node s \<and> dw_posts s' = dw_posts s"
  by (auto simp: at_provider_def split: prod.split_asm)

text \<open>The reading calls of the provider change neither the files nor the posts.\<close>

lemma keeps_provider:
  assumes "\<And>s s' :: 'p dworld. fs_node s' = fs_node s \<Longrightarrow> dw_posts s' = dw_posts s \<Longrightarrow> I s \<Longrightarrow> I s'"
  shows "keepsM I (at_provider op :: ('p dworld, 'b) io)"
  using assms provider_node unfolding keepsM_def by (metis eq_snd_iff)

lemma posted_once_same:
  "fs_node s' = fs_node s \<Longrightarrow> dw_posts s' = dw_posts s \<Longrightarrow> posted_once rt s \<Longrightarrow> posted_once rt s'"
  by (simp add: posted_once_def posted_def not_ready_def document_def)

section \<open>At most one post\<close>

text \<open>Writing a status that is not ready.\<close>

lemma keeps_write_status:
  assumes "status \<noteq> PsReady" "printable (JObj (pp_document val))"
  shows "keepsM (posted_once rt) (writeUsageJson rt PREPARED (with_status val status))"
  unfolding keepsM_def
proof (intro allI impI)
  fix s assume inv: "posted_once rt s"
  let ?v = "with_status val status"
  obtain r s' where w: "writeUsageJson rt PREPARED ?v s = (r, s')" by (cases "writeUsageJson rt PREPARED ?v s")
  have d: "real_dir (fs_node s) rt" using inv by (simp add: posted_once_def)
  note e = writeUsageJson_at [OF w d prepared_name(1)]
  have "printable ?v" using put_key_printable [OF assms(2)] by (simp add: with_status_def del: printable.simps(3))
  note parsed = json_parse_line [OF this]
  have "posted_once rt s'"
  proof (cases r)
    case (Inl x)
    then show ?thesis using e posted_once_differs [OF _ inv temporaries_long document_not_temporary [OF prepared_name(1)]] by auto
  next
    case (Inr u)
    then have f: "differs_at (insert (rt @ [PREPARED]) (temporaries rt)) s s'" "document rt PREPARED s' = Some (Regular (json_print ?v @ [CHR 0x0A]))"
      using e by auto
    have "not_ready rt s'" using f(2) parsed assms(1)
      by (auto simp: not_ready_def with_status_def put_key_lookup status_of_def status_name_def split: PreparedStatus.splits)
    moreover have "posted s' = posted s" using f(1) posts_more [of s' s] by (simp add: posted_def differs_at_def)
    moreover have "real_dir (fs_node s') rt"
      by (rule differs_dir [OF f(1) d]) (auto dest: temporaries_long)
    ultimately show ?thesis using inv by (auto simp: posted_once_def)
  qed
  then show "posted_once rt (snd (writeUsageJson rt PREPARED ?v s))" using w by simp
qed

text \<open>Before a post: nothing was posted if the document said ready.\<close>

definition before_post :: "path \<Rightarrow> PreparedPublication \<Rightarrow> 'p dworld \<Rightarrow> bool" where
  "before_post rt val s \<longleftrightarrow> posted_once rt s \<and> (pp_status val = PsReady \<longrightarrow> posted s = [])"

text \<open>The request itself: the document says writing, and nothing was posted before.\<close>

definition at_post :: "path \<Rightarrow> 'p dworld \<Rightarrow> bool" where
  "at_post rt s \<longleftrightarrow> real_dir (fs_node s) rt \<and> posted s = [] \<and> not_ready rt s"

lemma posting_result:
  assumes "posting op body s = (r, s')" "at_post rt s"
  shows "posted_once rt s' \<and> (\<forall>e. r = Inl e \<longrightarrow> rejected e \<longrightarrow> real_dir (fs_node s') rt \<and> posted s' = [])"
proof -
  obtain s1 where a: "at_provider op s = (r, s1)"
    "s' = s1 \<lparr> dw_posts := dw_posts s1 @ [(body, case r of Inl e \<Rightarrow> rejected e | Inr _ \<Rightarrow> False)] \<rparr>"
    using assms(1) by (auto simp: posting_def split: prod.split_asm)
  note p = provider_node [OF a(1)]
  have "not_ready rt s'" "real_dir (fs_node s') rt" using assms(2) p a(2) by (simp_all add: at_post_def not_ready_def document_def)
  moreover have "posted s' = (if (case r of Inl e \<Rightarrow> rejected e | Inr _ \<Rightarrow> False) then [] else [(body, False)])"
    using assms(2) p a(2) by (auto simp: at_post_def posted_def)
  ultimately show ?thesis by (auto simp: posted_once_def)
qed

text \<open>Restoring the ready document after a refused request.\<close>

lemma restore_keeps:
  assumes "real_dir (fs_node s) rt" "posted s = []" "writeUsageJson rt PREPARED v s = (r, s')"
  shows "posted_once rt s'"
proof -
  have "differs_at (insert (rt @ [PREPARED]) (temporaries rt)) s s'"
    using writeUsageJson_at [OF assms(3,1) prepared_name(1)] differs_mono [of "temporaries rt" s s' "insert (rt @ [PREPARED]) (temporaries rt)"]
    by (auto split: sum.split_asm)
  moreover have "real_dir (fs_node s') rt"
    by (rule differs_dir [OF calculation assms(1)]) (auto dest: temporaries_long)
  ultimately show ?thesis using assms(2) posts_more [of s' s] by (simp add: posted_once_def posted_def differs_at_def)
qed

lemma create_keeps:
  assumes "at_post rt s"
    "tryM (posting op body) (\<lambda>e. thenM (if rejected e then writeUsageJson rt PREPARED v else retM ()) (throwM e)) s = (r, s')"
  shows "posted_once rt s'"
proof -
  obtain r1 s1 where p: "posting op body s = (r1, s1)" by (cases "posting op body s")
  note pr = posting_result [OF p assms(1)]
  show ?thesis
  proof (cases r1)
    case (Inr y)
    then show ?thesis using pr p assms(2) by (auto simp: tryM_def)
  next
    case (Inl e)
    obtain r2 s2 where w: "(if rejected e then writeUsageJson rt PREPARED v else retM ()) s1 = (r2, s2)"
      by (cases "(if rejected e then writeUsageJson rt PREPARED v else retM ()) s1")
    have "s' = s2" using assms(2) p Inl w by (cases r2) (auto simp: tryM_def thenM_def bindM_def throwM_def)
    moreover have "posted_once rt s2" using pr Inl w restore_keeps [of s1 rt v r2 s2]
      by (cases "rejected e") (auto simp: retM_def)
    ultimately show ?thesis by simp
  qed
qed

lemma postPrepared_leads:
  fixes pv :: "'p DecisionProvider"
  assumes "printable (JObj (pp_document val))"
  shows "leadsM (before_post rt val) (postPrepared rt x (world_provider pv) canWrite val body) (posted_once rt)"
  unfolding leadsM_def
proof (intro allI impI)
  fix s :: "'p dworld" assume b: "before_post rt val s"
  let ?create = "tryM (pv_createComment (world_provider pv) (de_ticket x) body) (\<lambda>e.
      thenM (if rejected e then writeUsageJson rt PREPARED (JObj (pp_document val)) else retM ()) (throwM e))"
  obtain r s' where run: "postPrepared rt x (world_provider pv) canWrite val body s = (r, s')"
    by (cases "postPrepared rt x (world_provider pv) canWrite val body s")
  show "posted_once rt (snd (postPrepared rt x (world_provider pv) canWrite val body s))"
  proof (cases "pp_status val = PsReady \<and> canWrite s")
    case False
    then have "s' = s" using run by (auto simp: postPrepared_def thenM_def bindM_def checkM_def failM_def retM_def getM_def fail_def ok_def split: if_split_asm)
    then show ?thesis using b run by (simp add: before_post_def)
  next
    case True
    obtain w s1 where w: "writeUsageJson rt PREPARED (with_status val PsWriting) s = (w, s1)"
      by (cases "writeUsageJson rt PREPARED (with_status val PsWriting) s")
    have run1: "(case w of Inl e \<Rightarrow> (Inl e, s1) | Inr u \<Rightarrow> ?create s1) = (r, s')"
      using run True w by (cases w) (simp_all add: postPrepared_def thenM_def bindM_def retM_def getM_def ok_def)
    have k: "posted_once rt s1" using keeps_write_status [of PsWriting val rt, OF _ assms] b w unfolding keepsM_def before_post_def
      by (metis PreparedStatus.distinct(1) snd_conv)
    show ?thesis
    proof (cases w)
      case (Inl e)
      then show ?thesis using run1 k run by simp
    next
      case (Inr u)
      have d: "real_dir (fs_node s) rt" "posted s = []" using b True by (auto simp: before_post_def posted_once_def)
      have e: "differs_at (insert (rt @ [PREPARED]) (temporaries rt)) s s1"
        "document rt PREPARED s1 = Some (Regular (json_print (with_status val PsWriting) @ [CHR 0x0A]))"
        using writeUsageJson_at [OF w d(1) prepared_name(1)] Inr by auto
      have pt: "printable (with_status val PsWriting)" using put_key_printable [OF assms] by (simp add: with_status_def del: printable.simps(3))
      have "not_ready rt s1" using e(2) json_parse_line [OF pt]
        by (auto simp: not_ready_def with_status_def put_key_lookup status_of_def status_name_def)
      moreover have "posted s1 = []" using e(1) posts_more [of s1 s] d(2) by (simp add: posted_def differs_at_def)
      moreover have "real_dir (fs_node s1) rt" using k by (simp add: posted_once_def)
      ultimately have "at_post rt s1" by (simp add: at_post_def)
      moreover have "?create s1 = (r, s')" using run1 Inr by simp
      ultimately show ?thesis using create_keeps run by (simp add: world_provider_def)
    qed
  qed
qed

lemma before_post_same:
  "fs_node s' = fs_node s \<Longrightarrow> dw_posts s' = dw_posts s \<Longrightarrow> before_post rt val s \<Longrightarrow> before_post rt val s'"
  using posted_once_same [of s' s rt] by (simp add: before_post_def posted_def)

text \<open>What the reading of the frozen publication says of the document.\<close>

lemma readPrepared_document:
  assumes "readPreparedPublication env rt x s = (Inr val, s')"
  shows "\<exists>s1. readUsageJson rt PREPARED s = (Inr (JObj (pp_document val)), s1)
    \<and> status_of (map_of (pp_document val) ''status'') = Some (pp_status val)"
proof -
  obtain v s1 where r: "readUsageJson rt PREPARED s = (Inr v, s1)"
    using assms unfolding readPreparedPublication_def run_iff by blast
  show ?thesis
  proof (cases v)
    case (JObj ps)
    then show ?thesis using assms r unfolding readPreparedPublication_def
      by (auto simp: run_iff split: option.split_asm)
  qed (use assms r in \<open>auto simp: readPreparedPublication_def run_iff\<close>)
qed

lemma still_prepared [still_intros]: "keepsM (still s0) (readPreparedPublication env rt x)"
proof -
  have "keepsM (still s0) (allowedEvent x e m)" "keepsM (still s0) (invalidM b m)" "keepsM (still s0) (prepared_usage env v)" for e m b v
    unfolding allowedEvent_def invalidM_def prepared_usage_def by (intro keepsM_intros | auto split: option.split)+
  then show ?thesis unfolding readPreparedPublication_def
    by (intro still_intros keepsM_intros | auto split: json.split option.split)+
qed

lemma read_before_post:
  assumes "readPreparedPublication env rt x s = (Inr val, s')" "posted_once rt s"
  shows "before_post rt val s' \<and> printable (JObj (pp_document val))"
proof -
  obtain s1 where r: "readUsageJson rt PREPARED s = (Inr (JObj (pp_document val)), s1)"
    "status_of (map_of (pp_document val) ''status'') = Some (pp_status val)"
    using readPrepared_document [OF assms(1)] by blast
  have st: "still s s'" using stillD [OF still_prepared assms(1)] .
  have p: "posted_once rt s'" using still_posted_once [OF st assms(2)] .
  have d: "real_dir (fs_node s) rt" using assms(2) by (simp add: posted_once_def)
  obtain tx where tx: "document rt PREPARED s = Some (Regular tx)" "json_parse tx = Some (JObj (pp_document val))"
    using readUsageJson_at [OF r(1) d prepared_name(2)] by blast
  have "pp_status val = PsReady \<Longrightarrow> \<not> not_ready rt s'"
    using tx r(2) still_node [OF st] by (auto simp: not_ready_def document_def)
  then show ?thesis using p json_parse_printable [OF tx(2)] by (auto simp: before_post_def posted_once_def)
qed

lemma deliver_keeps:
  fixes pv :: "'p DecisionProvider"
  shows "keepsM (posted_once rt) (deliverPreparedPublication env rt x (world_provider pv) canWrite)"
  unfolding keepsM_def
proof (intro allI impI)
  fix s :: "'p dworld" assume inv: "posted_once rt s"
  obtain q s1 where q: "readPreparedPublication env rt x s = (q, s1)" by (cases "readPreparedPublication env rt x s")
  let ?deliver = "deliverPreparedPublication env rt x (world_provider pv) canWrite"
  show "posted_once rt (snd (?deliver s))"
  proof (cases q)
    case (Inl e)
    then show ?thesis using q still_posted_once [OF stillD [OF still_prepared q] inv]
      by (simp add: deliverPreparedPublication_def bindM_def)
  next
    case (Inr val)
    note b = read_before_post [OF q [unfolded Inr] inv]
    let ?I = "before_post rt val"
    have weak: "?I s \<Longrightarrow> posted_once rt s" for s by (simp add: before_post_def)
    have prov: "keepsM ?I (at_provider op :: ('p dworld, 'b) io)" for op :: "('p, 'b) io"
      using keeps_provider before_post_same by blast
    have ticket: "keepsM ?I (pv_readTicket (world_provider pv) t l)" for t l by (simp add: world_provider_def prov)
    have comment: "keepsM (posted_once rt) (pv_readComment (world_provider pv) t i)" for t i
      by (simp add: world_provider_def) (rule keeps_provider, rule posted_once_same)
    have owner: "keepsM ?I (assertPublicationOwner x t)" for t
      unfolding assertPublicationOwner_def by (intro keepsM_intros)
    have final: "keepsM (posted_once rt) (bindM (pv_readComment (world_provider pv) (de_ticket x) (pc_id c)) (\<lambda>readback.
          thenM (checkM (pc_id readback \<noteq> pc_id c \<or> pc_url readback \<noteq> pc_url c \<or> pc_body readback \<noteq> body)
             ''prepared publication readback is uncertain'')
         (thenM (writeUsageJson rt PREPARED (with_status val PsDelivered)) (retM (pp_usage val)))))" for c body
      using b by (intro keepsM_intros comment keeps_write_status) simp_all
    have post: "leadsM ?I (if ms = [] then postPrepared rt x (world_provider pv) canWrite val body else retM (hd ms)) (posted_once rt)" for ms body
      using postPrepared_leads [OF conjunct2 [OF b], of rt x pv canWrite body] leads_keeps [OF keepsM_ret weak] by auto
    have "leadsM ?I (case pp_body val of None \<Rightarrow> retM (pp_usage val)
     | Some body \<Rightarrow>
        bindM (getM canWrite) (\<lambda>active.
        thenM (checkM (\<not> active \<or> pv_kind (world_provider pv) \<noteq> tr_provider (de_ticket x)) ''publication is not active'')
       (bindM (pv_readTicket (world_provider pv) (de_ticket x) (de_activationLabel x)) (\<lambda>ticket.
        thenM (checkM (sn_ref ticket \<noteq> de_ticket x \<or> \<not> sn_open ticket \<or> \<not> av_present (sn_activation ticket))
           ''publication ticket is not active'')
         (let matches = filter (\<lambda>c. includes_str (pc_body c) (attempt_marker x)) (sn_comments ticket) in
          thenM (checkM (1 < length matches \<or> (length matches = 1 \<and> pc_body (hd matches) \<noteq> body))
             ''prepared publication evidence is ambiguous'')
         (thenM (assertPublicationOwner x ticket)
         (bindM (if matches = [] then postPrepared rt x (world_provider pv) canWrite val body else retM (hd matches)) (\<lambda>comment.
          bindM (pv_readComment (world_provider pv) (de_ticket x) (pc_id comment)) (\<lambda>readback.
          thenM (checkM (pc_id readback \<noteq> pc_id comment \<or> pc_url readback \<noteq> pc_url comment \<or> pc_body readback \<noteq> body)
             ''prepared publication readback is uncertain'')
         (thenM (writeUsageJson rt PREPARED (with_status val PsDelivered))
            (retM (pp_usage val)))))))))))) (posted_once rt)"
    proof (cases "pp_body val")
      case None
      then show ?thesis using leads_keeps [OF keepsM_ret weak] by simp
    next
      case (Some body)
      show ?thesis unfolding Some option.case Let_def
        by (rule leads_bind [OF keepsM_get _ weak], rule leads_then [OF keepsM_check _ weak],
          rule leads_bind [OF ticket _ weak], rule leads_then [OF keepsM_check _ weak],
          rule leads_then [OF keepsM_check _ weak], rule leads_then [OF owner _ weak], rule leads_seq [OF post])
          (rule final)
    qed
    then show ?thesis using q Inr b unfolding leadsM_def by (simp add: deliverPreparedPublication_def bindM_def)
  qed
qed

text \<open>Freezing never touches a document that is there.\<close>

lemma readPrepared_missing:
  assumes "readPreparedPublication env rt x s = (Inl FileMissing, s')" "real_dir (fs_node s) rt" "document rt PREPARED s \<noteq> None"
  shows "document rt ''decision.json'' s = None"
proof -
  have missing: "readUsageJson rt ''decision.json'' s1 = (Inl FileMissing, s2) \<Longrightarrow> fs_node s1 = fs_node s \<Longrightarrow> ?thesis" for s1 s2
    using readUsageJson_missing [of rt "''decision.json''" s1 s2] assms(2) by (simp add: document_def proper_def)
  obtain q s1 where q: "readUsageJson rt PREPARED s = (q, s1)" by (cases "readUsageJson rt PREPARED s")
  have n: "fs_node s1 = fs_node s" using stillD [OF still_usage q] still_node by blast
  have "q \<noteq> Inl FileMissing" using readUsageJson_missing [of rt PREPARED s s1] q assms(2,3) prepared_name(2) by auto
  then obtain v where v: "q = Inr v" using assms(1) q by (cases q) (auto simp: readPreparedPublication_def run_iff)
  show ?thesis
  proof (cases v)
    case (JObj ps)
    then show ?thesis using assms(1) q v n missing unfolding readPreparedPublication_def
      by (auto simp: run_iff allowedEvent_def invalidM_def prepared_usage_def invalidDecision_def allowedAgentEvents_def
          ok_def fail_def split: option.split_asm if_split_asm)
  qed (use assms(1) q v in \<open>auto simp: readPreparedPublication_def run_iff\<close>)
qed

lemma still_freeze_parts [still_intros]: "keepsM (still s0) (isFrozen env rt x)" "keepsM (still s0) (preparedDecision env rt)"
    "keepsM (still s0) (allowedEvent x e m)" "keepsM (still s0) (preparedComment rt x e usage)" "keepsM (still s0) (invalidM b m)"
  unfolding isFrozen_def preparedDecision_def allowedEvent_def preparedComment_def preparedText_def invalidM_def
  by (intro still_intros keepsM_intros | auto split: option.split)+

lemma preparedDecision_missing:
  assumes "preparedDecision env rt s = (Inr e, s')" "real_dir (fs_node s) rt"
  shows "document rt ''decision.json'' s \<noteq> None"
proof -
  obtain d s1 where "readUsageJson rt ''decision.json'' s = (Inr d, s1)"
    using assms(1) by (auto simp: preparedDecision_def tryM_def liftR_def invalidDecision_def run_iff split: prod.split_asm sum.split_asm)
  from readUsageJson_at [OF this assms(2)] show ?thesis by (auto simp: proper_def)
qed

lemma freeze_keeps: "keepsM (posted_once rt) (freezePreparedPublication env rt x usage :: ('p dworld, unit) io)"
  unfolding keepsM_def
proof (intro allI impI)
  fix s :: "'p dworld" assume inv: "posted_once rt s"
  let ?freeze = "freezePreparedPublication env rt x usage"
  obtain r s' where run: "?freeze s = (r, s')" by (cases "?freeze s")
  have d: "real_dir (fs_node s) rt" using inv by (simp add: posted_once_def)
  show "posted_once rt (snd (?freeze s))"
  proof (cases "document rt PREPARED s = None")
    case True
    then have none: "posted s = []" using inv by (auto simp: posted_once_def not_ready_def)
    define I where "I = (\<lambda>s1 :: 'p dworld. still s s1)"
    have w: "leadsM I (writeUsageJson rt PREPARED v) (posted_once rt)" for v
      unfolding leadsM_def
    proof (intro allI impI)
      fix s1 :: "'p dworld" assume st: "I s1"
      obtain q s2 where q: "writeUsageJson rt PREPARED v s1 = (q, s2)" by (cases "writeUsageJson rt PREPARED v s1")
      have "real_dir (fs_node s1) rt" "posted s1 = []" using st d none posts_more [OF still_more [of s s1]] still_node [of s s1]
        by (simp_all add: I_def posted_def)
      then show "posted_once rt (snd (writeUsageJson rt PREPARED v s1))" using restore_keeps q by auto
    qed
    have weak: "I s1 \<Longrightarrow> posted_once rt s1" for s1 using still_posted_once inv by (simp add: I_def)
    have still: "(\<And>s0. keepsM (still s0) m) \<Longrightarrow> keepsM I m" for m :: "('p dworld, 'b) io" by (simp add: I_def)
    have "leadsM I ?freeze (posted_once rt)"
      unfolding freezePreparedPublication_def
    proof (rule leads_bind [OF _ _ weak])
      show "keepsM I (isFrozen env rt x)" unfolding I_def by (rule still_intros)
      show "leadsM I (if frozen then retM () else bindM (preparedDecision env rt) (\<lambda>e.
          thenM (allowedEvent x e ''decision event is not allowed by the pinned flow state'')
         (bindM (preparedComment rt x e usage) (\<lambda>body.
          thenM (invalidM (body = None \<and> needsPreparedComment x e \<and> de_reusableCommentIds x = [])
              ''final stage comment text was not prepared and no reusable result is available'')
            (writeUsageJson rt PREPARED (prepared_document env x e body usage)))))) (posted_once rt)" for frozen
      proof (cases frozen)
        case True
        then show ?thesis using leads_keeps [OF keepsM_ret weak] by simp
      next
        case False
        show ?thesis unfolding if_not_P [OF False]
          by (rule leads_bind [OF _ _ weak], unfold I_def, rule still_intros, fold I_def,
            rule leads_then [OF _ _ weak], unfold I_def, rule still_intros, fold I_def,
            rule leads_bind [OF _ _ weak], unfold I_def, rule still_intros, fold I_def,
            rule leads_then [OF _ _ weak], unfold I_def, rule still_intros, fold I_def, rule w)
      qed
    qed
    then show ?thesis unfolding leadsM_def I_def by simp
  next
    case False
    have "still s s'"
    proof -
      obtain f s1 where f: "isFrozen env rt x s = (f, s1)" by (cases "isFrozen env rt x s")
      have st: "still s s1" using stillD [OF still_freeze_parts(1) f] .
      show ?thesis
      proof (cases "f = Inr False")
        case True
        then have "readPreparedPublication env rt x s = (Inl FileMissing, s1)" using f
          by (auto simp: isFrozen_def tryM_def run_iff bindM_def retM_def throwM_def ok_def split: prod.split_asm sum.split_asm if_split_asm)
        then have none: "document rt ''decision.json'' s1 = None" using readPrepared_missing d False still_node [OF st] by (fastforce simp: document_def)
        obtain e s2 where e: "preparedDecision env rt s1 = (e, s2)" by (cases "preparedDecision env rt s1")
        then obtain y where "e = Inl y" using preparedDecision_missing [of env rt s1 _ s2] none d still_node [OF st] by (cases e) auto
        then have "s' = s2" using run f True e by (simp add: freezePreparedPublication_def bindM_def)
        then show ?thesis using still_trans [OF st stillD [OF still_freeze_parts(2) e]] by simp
      next
        case False
        then have "s' = s1" using run f by (cases f) (auto simp: freezePreparedPublication_def bindM_def retM_def)
        then show ?thesis using st by simp
      qed
    qed
    then show ?thesis using run still_posted_once inv by simp
  qed
qed

section \<open>The life of a session\<close>

text \<open>
  What happens to the session directory of an attempt: its publication is frozen or delivered, by this controller or
  a later one, each time with any provider answers, cancellations and broken calls; in between the agent and other
  processes may change everything but the frozen document, the directories above it and the comments posted.
\<close>

inductive session_step :: "path \<Rightarrow> 'p dworld \<Rightarrow> 'p dworld \<Rightarrow> bool" for rt where
  freezing: "freezePreparedPublication env rt x usage s = (r, s') \<Longrightarrow> session_step rt s s'"
| delivering: "deliverPreparedPublication env rt x (world_provider pv) canWrite s = (r, s') \<Longrightarrow> session_step rt s s'"
| elsewhere: "document rt PREPARED s' = document rt PREPARED s \<Longrightarrow> real_dir (fs_node s') rt \<Longrightarrow> dw_posts s' = dw_posts s
    \<Longrightarrow> session_step rt s s'"

inductive_cases session_stepE: "session_step rt s s'"

lemma session_keeps: "session_step rt s s' \<Longrightarrow> posted_once rt s \<Longrightarrow> posted_once rt s'"
proof (induction rule: session_step.induct)
  case (freezing env x usage s r s')
  then show ?case using freeze_keeps [of rt env x usage] unfolding keepsM_def by (metis snd_conv)
next
  case (delivering env x pv canWrite s r s')
  then show ?case using deliver_keeps [of rt env x pv canWrite] unfolding keepsM_def by (metis snd_conv)
next
  case (elsewhere s' s)
  then show ?case by (simp add: posted_once_def posted_def not_ready_def)
qed

lemma session_reaches: "(session_step rt)\<^sup>*\<^sup>* s s' \<Longrightarrow> posted_once rt s \<Longrightarrow> posted_once rt s'"
  by (induction rule: rtranclp_induct) (auto intro: session_keeps)

text \<open>
  C38: A prepared comment is posted at most once. However often the publication of an attempt is frozen and delivered,
  by whichever controllers, whatever the provider answers and whichever calls of the file system break, at most one
  request to create the comment is ever made that the provider did not refuse outright.
\<close>

theorem prepared_posted_once:
  assumes "(session_step rt)\<^sup>*\<^sup>* s s'" "real_dir (fs_node s) rt" "posted s = []"
  shows "length (posted s') \<le> 1"
  using session_reaches [OF assms(1)] assms(2,3) by (auto simp: posted_once_def)

text \<open>A provider whose reply to the request is lost after the comment was made.\<close>

definition lossy_provider :: "(ProviderComment list) DecisionProvider" where
  "lossy_provider = \<lparr> pv_kind = Github,
     pv_readTicket = (\<lambda>_ _ cs. (ok (sample_snapshot \<lparr> sn_comments := cs \<rparr>), cs)),
     pv_readComment = (\<lambda>_ i cs. (case List.find (\<lambda>c. pc_id c = i) cs of None \<Rightarrow> Inl (ProviderHttpError False (Some 404)) | Some c \<Rightarrow> ok c, cs)),
     pv_readChangeRequest = (\<lambda>_ _. failM ''none''), pv_findReview = (\<lambda>_ _ _ _. retM None), pv_readReview = (\<lambda>_ _ _. failM ''none''),
     pv_permission = (\<lambda>_ _. retM PWrite),
     pv_createComment = (\<lambda>_ b cs. (Inl (ProviderHttpError True None),
        cs @ [\<lparr> pc_id = ''c1'', pc_url = ''u1'', pc_body = b, pc_actor = sample_actor, pc_createdAt = ''2026-01-02T00:00:00Z'',
          pc_updatedAt = ''2026-01-02T00:00:00Z'' \<rparr>])), pv_url = (\<lambda>_. None) \<rparr>"

definition prepared_env :: PrepEnv where
  "prepared_env = \<lparr> pe_event = (\<lambda>j. if j = JObj [(''event'', JStr ''agent-succeeded'')] then Some AgentSucceeded else None),
     pe_usage = (\<lambda>_. None), pe_usageJson = (\<lambda>_. JNull) \<rparr>"

definition prepared_expectation :: DecisionExpectation where
  "prepared_expectation = \<lparr> de_migration = None, de_flow = sample_flow, de_stateId = ''develop'', de_mode = MStage,
     de_resultContract = RPlan, de_configRevision = sample_sha, de_activationLabel = None, de_activatedAt = None,
     de_controllerId = sample_uuid, de_publicationKeys = [], de_reusableCommentIds = [], de_flowInstanceId = ''f1'',
     de_attemptId = ''a1'', de_ticket = sample_ref, de_sourceComment = None, de_pinned = None \<rparr>"

text \<open>A session with a decision and the text of a plan.\<close>

definition prepared_world :: "(ProviderComment list) dworld" where
  "prepared_world = \<lparr> fs_node = (\<lambda>p. if p = [''s''] then Some Dir
       else if p = [''s'', ''decision.json''] then Some (Regular (json_print (JObj [(''event'', JStr ''agent-succeeded'')])))
       else if p = [''s'', ''prepared-comment.txt''] then Some (Regular ''Plan ready'') else None),
     fs_faults = [], fs_uuids = [''u1'', ''u2'', ''u3'', ''u4''], dw_provider = [], dw_posts = [] \<rparr>"

definition frozen_world :: "(ProviderComment list) dworld" where
  "frozen_world = snd (freezePreparedPublication prepared_env [''s''] prepared_expectation None prepared_world)"

definition lost_world :: "(ProviderComment list) dworld" where
  "lost_world = snd (deliverPreparedPublication prepared_env [''s''] prepared_expectation (world_provider lossy_provider) (\<lambda>_. True) frozen_world)"

definition delivered_world :: "(ProviderComment list) dworld" where
  "delivered_world = snd (deliverPreparedPublication prepared_env [''s''] prepared_expectation (world_provider lossy_provider) (\<lambda>_. True) lost_world)"

lemma prepared_world_start: "real_dir (fs_node prepared_world) [''s'']" "posted prepared_world = []"
  by (auto simp: real_dir_def prepared_world_def proper_def posted_def le_Suc_eq)

text \<open>Frozen, posted with a lost reply, and delivered again.\<close>

theorem prepared_posted_once_witness: "length (posted delivered_world) \<le> 1"
proof -
  have "session_step [''s''] prepared_world frozen_world"
    unfolding frozen_world_def by (rule freezing) (rule prod.collapse [symmetric])
  moreover have "session_step [''s''] frozen_world lost_world"
    unfolding lost_world_def by (rule delivering) (rule prod.collapse [symmetric])
  moreover have "session_step [''s''] lost_world delivered_world"
    unfolding delivered_world_def by (rule delivering) (rule prod.collapse [symmetric])
  ultimately have "(session_step [''s''])\<^sup>*\<^sup>* prepared_world delivered_world" by (auto intro: rtranclp.rtrancl_into_rtrancl)
  from prepared_posted_once [OF this prepared_world_start] show ?thesis .
qed

section \<open>What a delivery has seen\<close>

definition shown_active :: "'s DecisionProvider \<Rightarrow> DecisionExpectation \<Rightarrow> bool" where
  "shown_active pv x \<longleftrightarrow> (\<exists>s ticket s'. pv_readTicket pv (de_ticket x) (de_activationLabel x) s = (Inr ticket, s')
     \<and> sn_ref ticket = de_ticket x \<and> sn_open ticket \<and> av_present (sn_activation ticket)
     \<and> (\<exists>owner. electOwner (comment_publications x (sn_comments ticket)) = Inr owner
         \<and> (\<forall>p. owner = Some p \<longrightarrow> pm_controller (pb_metadata p) = de_controllerId x)))"

definition shown_body :: "'s DecisionProvider \<Rightarrow> DecisionExpectation \<Rightarrow> string \<Rightarrow> bool" where
  "shown_body pv x body \<longleftrightarrow> (\<exists>i s c s'. pv_readComment pv (de_ticket x) i s = (Inr c, s') \<and> pc_id c = i \<and> pc_body c = body)"

text \<open>
  C39: An attempt counts as delivered only on evidence. When the delivery returns, it gives the usage of the frozen
  publication of this attempt; and if that publication has a comment, the provider has shown the ticket open and
  activated and owned by no other controller, and has shown a comment with exactly the frozen text.
\<close>

theorem delivered_published:
  "case deliverPreparedPublication env rt x pv canWrite s of (Inl e, s') \<Rightarrow> True
   | (Inr usage, s') \<Rightarrow> \<exists>val s1. readPreparedPublication env rt x s = (Inr val, s1) \<and> usage = pp_usage val
       \<and> (case pp_body val of None \<Rightarrow> True | Some body \<Rightarrow> canWrite s1 \<and> shown_active pv x \<and> shown_body pv x body)"
proof -
  obtain r s' where run: "deliverPreparedPublication env rt x pv canWrite s = (r, s')"
    by (cases "deliverPreparedPublication env rt x pv canWrite s")
  show ?thesis
  proof (cases r)
    case (Inl e)
    then show ?thesis using run by simp
  next
    case (Inr usage)
    obtain val s1 where v: "readPreparedPublication env rt x s = (Inr val, s1)"
      using run [unfolded Inr] unfolding deliverPreparedPublication_def run_iff by blast
    have "usage = pp_usage val \<and> (case pp_body val of None \<Rightarrow> True | Some body \<Rightarrow> canWrite s1 \<and> shown_active pv x \<and> shown_body pv x body)"
    proof (cases "pp_body val")
      case None
      then show ?thesis using run Inr v by (auto simp: deliverPreparedPublication_def bindM_def retM_def ok_def)
    next
      case (Some body)
      obtain ticket s2 i s3 s4 readback s5 where t: "canWrite s1"
        "pv_readTicket pv (de_ticket x) (de_activationLabel x) s1 = (Inr ticket, s2)"
        "sn_ref ticket = de_ticket x" "sn_open ticket" "av_present (sn_activation ticket)"
        "assertPublicationOwner x ticket s2 = (Inr (), s3)"
        "pv_readComment pv (de_ticket x) i s4 = (Inr readback, s5)" "pc_id readback = i" "pc_body readback = body"
        "usage = pp_usage val"
        using run [unfolded Inr] v Some unfolding deliverPreparedPublication_def Let_def
        by (auto simp: run_iff simp del: One_nat_def)
      obtain owner where "electOwner (comment_publications x (sn_comments ticket)) = Inr owner"
        "\<forall>p. owner = Some p \<longrightarrow> pm_controller (pb_metadata p) = de_controllerId x"
        using t(6) unfolding assertPublicationOwner_def by (auto simp: run_iff split: option.split_asm)
      then show ?thesis using t Some unfolding shown_active_def shown_body_def by auto
    qed
    then show ?thesis using run Inr v by auto
  qed
qed

end
