(* ===== verification/Prompt.thy ===== *)
theory Prompt
  imports Receipts ReconcileBase
begin

text \<open>
  renderRuntimePrompt of src/runtime/agent-protocol.ts: the task that the controller gives to the agent, with the
  events that the agent may decide in its state and the publication that the controller will ask for with each.
\<close>

record RuntimePromptInput =
  ri_migration :: "MigrationReceipt option"
  ri_flow :: FlowDefinition
  ri_stateId :: string
  ri_mode :: AttemptMode
  ri_resultContract :: ResultContract
  ri_configRevision :: string
  ri_controllerId :: string
  ri_contextPath :: string
  ri_decisionPath :: string
  ri_ticket :: TicketRef
  ri_change :: "NormalizedChangeRequest option"
  ri_sourceComment :: "ProviderComment option"
  ri_excludedCommentIds :: "string list"
  ri_excludedReviewIds :: "string list"
  ri_preparedCommentPath :: "string option"
  ri_previousFailureCode :: "string option"

definition prompt_marker :: "RuntimePromptInput \<Rightarrow> string res" where
  "prompt_marker i = renderPublication \<lparr> pm_config = ri_configRevision i, pm_controller = ri_controllerId i \<rparr>"

definition contract_name :: "ResultContract \<Rightarrow> string" where
  "contract_name c = (case c of RAssessment \<Rightarrow> ''assessment'' | RPlan \<Rightarrow> ''plan'' | RDevelopment \<Rightarrow> ''development''
     | RReview \<Rightarrow> ''review'' | RDiagnostic \<Rightarrow> ''diagnostic'' | RVerification \<Rightarrow> ''verification'' | RHumanGate \<Rightarrow> ''human-gate''
     | RDocumentation \<Rightarrow> ''documentation'' | RNone \<Rightarrow> ''none'')"

definition change_name :: "NormalizedChangeRequest \<Rightarrow> string" where
  "change_name c = nc_repository c @ ''#'' @ int_str (nc_number c)"

definition ticket_name :: "TicketRef \<Rightarrow> string" where
  "ticket_name t = provider_name (tr_provider t) @ '' '' @ tr_repository t @ ''#'' @ int_str (tr_number t)"

text \<open>The distinct elements, in the order of their first occurrence.\<close>

definition distinct_first :: "'a list \<Rightarrow> 'a list" where
  "distinct_first xs = rev (remdups (rev xs))"

section \<open>The evidence of an event\<close>

definition question_event :: "string \<Rightarrow> bool" where
  "question_event e \<longleftrightarrow> e \<in> {''agent-needs-human'', ''human-question'', ''human-unclear'', ''human-answer-unclear''}"

definition exactly :: "RuntimePromptInput \<Rightarrow> string \<Rightarrow> string res" where
  "exactly i opening = bindR (prompt_marker i) (\<lambda>m. ok (opening @ m))"

definition documentationContract :: "RuntimePromptInput \<Rightarrow> NormalizedChangeRequest \<Rightarrow> string res" where
  "documentationContract i c =
    bindR (case ri_preparedCommentPath i of
        Some p \<Rightarrow> ok (''report prepared at '' @ p @ '' for controller publication, with a metadata line in this form: '')
      | None \<Rightarrow> bindR (prompt_marker i) (\<lambda>m. ok (''report on the ticket containing exactly '' @ m @ '' and a metadata line in this form: ''))) (\<lambda>report.
    bindR (renderDocumentation \<lparr> dm_change = nc_number c, dm_inputHead = nc_headSha c, dm_resultHead = nc_headSha c \<rparr>) (\<lambda>line.
      ok (''the same linked open change request '' @ change_name c @ '' and a final documentation '' @ report @ line @ ''. ''
        @ ''Keep inputHead fixed to the supplied implementation boundary; replace resultHead with the current full head ''
        @ ''after inspecting the complete diff against the target branch, including rework. Report affected documents ''
        @ ''and checks, or a reasoned no-op with equal heads and no empty commit. Reconcile any head movement before ''
        @ ''claiming completion. Reuse a suitable final report, never an obsolete iteration report; on a retry after ''
        @ ''pushing, inspect existing work and finish the report without duplicating commits. If the implementation ''
        @ ''boundary or concurrent changes cannot be established, ask a focused question. Do not create another request'')))"

definition developmentContract :: "RuntimePromptInput \<Rightarrow> string res" where
  "developmentContract i =
    (case ri_change i of
       None \<Rightarrow> exactly i ''creation of one linked open change request whose description contains exactly ''
     | Some c \<Rightarrow>
        bindR (prompt_marker i) (\<lambda>m.
         if ri_migration i \<noteq> None
         then ok (''the existing PR '' @ nc_url c @ '' to remain open with its original marker intact, ''
           @ ''plus a fresh marked development completion comment on ticket '' @ ticket_name (ri_ticket i)
           @ '' containing exactly '' @ m @ ''. ''
           @ ''Explain the revalidated work even if no code change was needed. Never create another PR'')
         else ok (''the exact pinned change request '' @ provider_name (nc_provider c) @ '' '' @ change_name c @ '' to remain open ''
           @ ''and be updated during this attempt. Its description must contain exactly '' @ m @ ''. ''
           @ ''Do not create another change request'')))"

definition succeededContract :: "RuntimePromptInput \<Rightarrow> string res" where
  "succeededContract i =
    (case ri_resultContract i of
       RAssessment \<Rightarrow> exactly i ''a marked assessment comment containing exactly ''
     | RPlan \<Rightarrow> exactly i ''a marked plan comment containing exactly ''
     | RDiagnostic \<Rightarrow> exactly i ''a marked diagnostic comment containing exactly ''
     | RVerification \<Rightarrow> bindR (exactly i ''a marked diagnostic comment containing exactly '') (\<lambda>t.
         (case ri_change i of None \<Rightarrow> fail ''TypeError''
          | Some c \<Rightarrow> ok (t @ '' followed by BUG RECEIPT '' @ [CHR 0xB7] @ '' VERIFIED for pinned head '' @ nc_headSha c)))
     | RDocumentation \<Rightarrow>
        (case ri_change i of
           Some c \<Rightarrow> if nc_state c = CsOpen then documentationContract i c
             else ok (''an open pinned linked change request; documentation cannot succeed with a missing or closed request. ''
               @ ''Publish a focused marked question and return agent-needs-human'')
         | None \<Rightarrow> ok (''an open pinned linked change request; documentation cannot succeed with a missing or closed request. ''
               @ ''Publish a focused marked question and return agent-needs-human''))
     | RDevelopment \<Rightarrow> developmentContract i
     | _ \<Rightarrow> fail (''result contract '' @ contract_name (ri_resultContract i) @ '' does not support agent-succeeded''))"

definition reviewContract :: "RuntimePromptInput \<Rightarrow> string \<Rightarrow> string res" where
  "reviewContract i e =
    (case ri_change i of None \<Rightarrow> fail ''review event requires a pinned change request''
     | Some c \<Rightarrow> bindR (prompt_marker i) (\<lambda>m.
         ok (''a provider-native review on '' @ nc_headSha c @ '' beginning exactly with '' @ m @ '' ''
           @ ''and '' @ reviewMetadata (nc_headSha c) (if e = ''review-approved'' then VApproved else VChangesRequested))))"

definition preparedContract :: "RuntimePromptInput \<Rightarrow> string \<Rightarrow> string option" where
  "preparedContract i e =
    (case ri_preparedCommentPath i of None \<Rightarrow> None
     | Some p \<Rightarrow>
        if ri_migration i \<noteq> None \<and> ri_resultContract i = RDevelopment \<and> e = ''agent-succeeded'' \<and> ri_change i \<noteq> None
        then map_option (\<lambda>c. ''the existing PR '' @ nc_url c @ '' to remain open with its original marker intact, plus fresh development ''
           @ ''completion comment text prepared at '' @ p @ '' for controller publication on the canonical issue. ''
           @ ''Explain the revalidated work even if no code change was needed. Never create another PR'') (ri_change i)
        else if question_event e
           \<or> (e = ''agent-succeeded'' \<and> ri_resultContract i \<in> {RAssessment, RPlan, RDiagnostic, RVerification})
        then Some (''final substantive comment text prepared at '' @ p @ '', or reuse of an existing suitable marked result'')
        else None)"

definition evidence :: "RuntimePromptInput \<Rightarrow> string \<Rightarrow> string res" where
  "evidence i e =
    (case preparedContract i e of Some t \<Rightarrow> ok t
     | None \<Rightarrow>
        if question_event e then exactly i ''a marked question comment containing exactly ''
        else if starts_with e ''human-'' then ok ''no new provider publication''
        else if e = ''review-approved'' \<or> e = ''review-changes-requested'' then reviewContract i e
        else if e = ''agent-succeeded'' then succeededContract i
        else fail (''result contract '' @ contract_name (ri_resultContract i) @ '' does not support '' @ e))"

section \<open>The prompt\<close>

definition opt_line :: "bool \<Rightarrow> string \<Rightarrow> string list" where
  "opt_line b l = (if b then [l] else [])"

definition opening_lines :: "RuntimePromptInput \<Rightarrow> string list" where
  "opening_lines i =
    [''Read the attempt context from '' @ ri_contextPath i @ ''.'',
     ''Write exactly one allowed JSON object to '' @ ri_decisionPath i @ '', with no other fields.'',
     ''Result and question comments belong on ticket '' @ ticket_name (ri_ticket i) @ '' ''
       @ ''from context.ticket. A PR/MR comment does not satisfy this requirement. ''
       @ ''Change-request descriptions and provider-native reviews belong on the selected PR/MR as required below.'']"

definition prepared_lines :: "RuntimePromptInput \<Rightarrow> string list res" where
  "prepared_lines i = (case ri_preparedCommentPath i of None \<Rightarrow> ok []
     | Some p \<Rightarrow> bindR (prompt_marker i) (\<lambda>m.
         ok [''Prepare the final stage comment text locally at '' @ p @ ''. ''
           @ ''Do not publish stage comments. The controller publishes the prepared text, publication marker, and usage together ''
           @ ''after the agent and its native subagents finish. Write only substantive text, without publication or usage markers. ''
           @ ''Keep the decision JSON unchanged. When reusing a suitable existing result, leave this file absent. ''
           @ ''The controller adds '' @ m @ ''. ''
           @ ''Change-request creation/updates and provider-native reviews still use the existing publication protocol.'']))"

definition excluded_lines :: "RuntimePromptInput \<Rightarrow> string list" where
  "excluded_lines i =
    (let ids = distinct_first (ri_excludedCommentIds i @ (case ri_migration i of None \<Rightarrow> [] | Some m \<Rightarrow> mg_baselineComments m))
     in opt_line (ids \<noteq> []) (''Do not reuse these existing comment IDs as result or question evidence: '' @ join_with '', '' ids @ ''. ''
       @ ''They belong to the publication baseline. Only eligible comments outside this list can satisfy an agent publication requirement.''))"

definition failure_lines :: "RuntimePromptInput \<Rightarrow> string list" where
  "failure_lines i = opt_line (ri_previousFailureCode i = Some ''DECISION_EVIDENCE_UNAVAILABLE'')
     (''Previous attempt failed with DECISION_EVIDENCE_UNAVAILABLE. ''
      @ ''Repair the required provider publication before returning the decision. ''
      @ ''Check its location, marker, and excluded IDs against the evidence contract below. ''
      @ ''A successful test run or completion report on the PR/MR alone cannot replace a required ticket comment. ''
      @ ''Reuse completed implementation and checks unless a new change or unresolved failure requires more work.'')"

definition source_lines :: "RuntimePromptInput \<Rightarrow> string list" where
  "source_lines i =
    (case ri_sourceComment i of None \<Rightarrow> []
     | Some c \<Rightarrow> [''Interpret the authorized human comment '' @ pc_id c @ '' from the attempt context.''])
    @ (case ri_change i of None \<Rightarrow> []
     | Some c \<Rightarrow> [''Pinned change request: '' @ provider_name (nc_provider c) @ '' '' @ change_name c @ '', '' @ nc_url c @ '', ''
         @ ''head '' @ nc_headSha c @ '', state '' @ change_state_name (nc_state c) @ ''.''])"

definition human_lines :: "RuntimePromptInput \<Rightarrow> string list" where
  "human_lines i = opt_line (ri_mode i = MHumanInput)
     (''Human-input mode: interpret only the supplied authorized human comment. Do not perform stage work or publish ''
      @ ''stage artifacts or a review verdict. Accepted, rejected, or cancelled decisions publish nothing. A question ''
      @ ''or unclear decision may publish only the required clarification question.'')"

definition closed_lines :: "RuntimePromptInput \<Rightarrow> string list" where
  "closed_lines i = opt_line (ri_stateId i = ''needs-human'' \<and> ri_mode i = MStage \<and> ri_resultContract i = RReview
       \<and> opt_is (\<lambda>c. nc_state c = CsClosed) (ri_change i))
     (''Because the linked change request is closed, do not review its head. Publish exactly one question asking whether ''
      @ ''to reopen the same change request or cancel the flow, then write ''
      @ json_print (JObj [(''event'', JStr ''agent-needs-human'')]) @ ''.'')"

definition migration_lines :: "RuntimePromptInput \<Rightarrow> string list" where
  "migration_lines i = (if ri_migration i = None then [] else
     [''This execution follows an accepted migration/replay. Historical publications remain context. The selected stage and downstream results/approvals in migration.baseline are ineligible for reuse. ''
      @ ''Revalidate and publish a fresh eligible result. Keep updating the exact existing PR and branch; never create a replacement. ''
      @ ''Preserve its original description marker. New comments/reviews use the current marker.'',
      ''Migration receipts are control records, never stage results or questions.''])"

definition result_lines :: "RuntimePromptInput \<Rightarrow> string list" where
  "result_lines i =
    opt_line (ri_preparedCommentPath i = None \<and> ri_mode i = MStage \<and> ri_resultContract i \<in> {RAssessment, RPlan, RDiagnostic})
      (''Append <!-- agent-flow-result:v1 state='' @ ri_stateId i @ '' --> on its own line to a new successful final result comment. ''
       @ ''This identifies its stage across human-gate revisions; keep the common publication marker unchanged. ''
       @ ''Do not add this result annotation to questions or progress notes, or rewrite historical results.'')"

definition stage_lines :: "RuntimePromptInput \<Rightarrow> string list" where
  "stage_lines i = opt_line (ri_mode i = MStage)
     (''Inspect the supplied prior publications and code before deciding that the stage is complete. ''
      @ ''Reuse an existing suitable final result by returning its matching decision without publishing a duplicate. ''
      @ ''A question, progress note, partial implementation, or obsolete review is not a completed result. ''
      @ ''If the existing publication asks an unresolved question, reuse it with agent-needs-human. ''
      @ ''If the evidence is still ambiguous, request human clarification instead of claiming success.'')"

definition review_lines :: "RuntimePromptInput \<Rightarrow> string list" where
  "review_lines i = (if ri_resultContract i = RReview \<and> ri_mode i = MStage
     then opt_line (ri_excludedReviewIds i \<noteq> [])
         (''Do not reuse these existing review IDs for this attempt: '' @ join_with '', '' (ri_excludedReviewIds i) @ ''.'')
       @ [''If one existing provider-native review already satisfies either exact review evidence contract for this pinned ''
          @ ''head, reuse it by writing the matching decision without publishing another review.'']
     else [])"

definition event_line :: "RuntimePromptInput \<Rightarrow> string \<Rightarrow> string res" where
  "event_line i e = bindR (evidence i e) (\<lambda>t.
     ok (json_print (JObj [(''event'', JStr e)]) @ '' requires '' @ t @ ''.''))"

definition prompt_text :: "RuntimePromptInput \<Rightarrow> string list \<Rightarrow> string list \<Rightarrow> string" where
  "prompt_text i prepared allowed = join_with [CHR 0x0A] (opening_lines i @ prepared @ excluded_lines i @ failure_lines i @ source_lines i
        @ human_lines i @ closed_lines i @ migration_lines i @ result_lines i @ stage_lines i @ review_lines i
        @ [''Allowed decisions and required provider evidence:''] @ allowed
        @ [''Add the publication marker only to the final result, question, review body, or change-request description. ''
            @ ''Do not mark progress notes.'',
           ''Do not edit labels beginning with `agent-flow:` or `agent-stage:`.''])"

definition renderRuntimePrompt :: "RuntimePromptInput \<Rightarrow> string res" where
  "renderRuntimePrompt i =
    bindR (allowedAgentEvents (ri_flow i) (ri_stateId i) (ri_mode i)) (\<lambda>events.
    bindR (checkR (events = []) (''flow state '' @ ri_stateId i @ '' has no permitted model event for ''
        @ (case ri_mode i of MStage \<Rightarrow> ''stage'' | MHumanInput \<Rightarrow> ''human-input'') @ '' mode'')) (\<lambda>_.
    bindR (checkR (ri_resultContract i = RVerification \<and> ri_change i = None) ''verification requires a pinned change request'') (\<lambda>_.
    bindR (prepared_lines i) (\<lambda>prepared.
    bindR (mapR (event_line i) events) (\<lambda>allowed.
      ok (prompt_text i prepared allowed))))))"

section \<open>What the prompt offers\<close>

lemma join_includes: "l \<in> set ls \<Longrightarrow> includes_str (join_with sep ls) l"
proof (induction ls)
  case (Cons x xs)
  show ?case
  proof (cases "xs = []")
    case False
    note j = join_with_Cons [OF False, of sep x]
    show ?thesis
    proof (cases "l = x")
      case True
      then have "\<exists>a b. join_with sep (x # xs) = a @ l @ b" using j by (metis append_Nil)
      then show ?thesis by (simp add: includes_str_iff)
    next
      case False
      then have "includes_str (join_with sep xs) l" using Cons by simp
      then show ?thesis using includes_str_sub [of "join_with sep xs" l "x @ sep" "[]"] j by simp
    qed
  qed (use Cons.prems in \<open>simp add: includes_str_iff, metis append_Nil append_Nil2\<close>)
qed simp

lemma mapR_member: "mapR f xs = ok ys \<Longrightarrow> x \<in> set xs \<Longrightarrow> \<exists>y \<in> set ys. f x = ok y"
  by (induction xs arbitrary: ys) auto

text \<open>A contract under which the receipt of a success can be built.\<close>

definition success_contract :: "ResultContract \<Rightarrow> bool" where
  "success_contract c \<longleftrightarrow> commentKind c \<noteq> None \<or> c = RDocumentation \<or> c = RDevelopment"

lemma evidence_verifiable:
  assumes "evidence i e = ok t"
  shows "(e = ''agent-succeeded'' \<longrightarrow> success_contract (ri_resultContract i))
    \<and> (e = ''review-approved'' \<or> e = ''review-changes-requested'' \<longrightarrow> ri_change i \<noteq> None)"
proof -
  have "success_contract (ri_resultContract i)" if e: "e = ''agent-succeeded''"
  proof (cases "preparedContract i e")
    case None
    then have "succeededContract i = ok t" using assms e by (simp add: evidence_def question_event_def)
    then show ?thesis by (cases "ri_resultContract i") (simp_all add: succeededContract_def success_contract_def commentKind_def)
  next
    case (Some u)
    then have "ri_resultContract i \<in> {RDevelopment, RAssessment, RPlan, RDiagnostic, RVerification}" using e
      by (auto simp: preparedContract_def question_event_def split: option.split_asm if_split_asm)
    then show ?thesis by (auto simp: success_contract_def commentKind_def)
  qed
  moreover have "ri_change i \<noteq> None" if e: "e = ''review-approved'' \<or> e = ''review-changes-requested''"
  proof -
    have "preparedContract i e = None" using e
      by (auto simp: preparedContract_def question_event_def split: option.split)
    then have "reviewContract i e = ok t" using assms e by (auto simp: evidence_def question_event_def)
    then show ?thesis by (auto simp: reviewContract_def split: option.split_asm)
  qed
  ultimately show ?thesis by blast
qed

lemma render_ok:
  assumes "renderRuntimePrompt i = ok prompt"
  obtains events prepared allowed where "allowedAgentEvents (ri_flow i) (ri_stateId i) (ri_mode i) = ok events"
    "events \<noteq> []" "mapR (event_line i) events = ok allowed" "prompt_text i prepared allowed = prompt"
  using assms unfolding renderRuntimePrompt_def bindR_ok_iff checkR_ok_iff ok_fail_iff by (elim exE conjE)

lemma prompt_includes: "l \<in> set allowed \<Longrightarrow> includes_str (prompt_text i prepared allowed) l"
  unfolding prompt_text_def by (intro join_includes) (simp only: set_append Un_iff simp_thms)

text \<open>
  The prompt offers the agent exactly the decisions that the controller will accept, and only ones that it can
  verify: some event is allowed; each one is in the prompt with the publication it requires; a success is offered only
  under a contract whose receipt can be built, and a review verdict only on a pinned change request.
\<close>

theorem prompt_offers_verifiable:
  assumes "renderRuntimePrompt i = ok prompt"
  shows "\<exists>events. allowedAgentEvents (ri_flow i) (ri_stateId i) (ri_mode i) = ok events \<and> events \<noteq> []
    \<and> (\<forall>e \<in> set events. \<exists>t. evidence i e = ok t
         \<and> includes_str prompt (json_print (JObj [(''event'', JStr e)]) @ '' requires '' @ t @ ''.'')
         \<and> (e = ''agent-succeeded'' \<longrightarrow> success_contract (ri_resultContract i))
         \<and> (e = ''review-approved'' \<or> e = ''review-changes-requested'' \<longrightarrow> ri_change i \<noteq> None))"
proof -
  obtain events prepared allowed where r: "allowedAgentEvents (ri_flow i) (ri_stateId i) (ri_mode i) = ok events"
    "events \<noteq> []" "mapR (event_line i) events = ok allowed" "prompt_text i prepared allowed = prompt"
    using assms by (rule render_ok)
  have line: "\<exists>t. evidence i e = ok t \<and> includes_str prompt (json_print (JObj [(''event'', JStr e)]) @ '' requires '' @ t @ ''.'')"
    if e: "e \<in> set events" for e
  proof -
    obtain l where l: "l \<in> set allowed" "event_line i e = ok l" using mapR_member [OF r(3) e] by blast
    have "includes_str prompt l" using prompt_includes [OF l(1), of i prepared] unfolding r(4) .
    then show ?thesis using l(2) by (auto simp: event_line_def)
  qed
  show ?thesis
  proof (rule exI [of _ events], intro conjI ballI)
    show "allowedAgentEvents (ri_flow i) (ri_stateId i) (ri_mode i) = ok events" "events \<noteq> []" by fact+
    fix e assume "e \<in> set events"
    from line [OF this] obtain t where t: "evidence i e = ok t"
      "includes_str prompt (json_print (JObj [(''event'', JStr e)]) @ '' requires '' @ t @ ''.'')" by blast
    show "\<exists>t. evidence i e = ok t
         \<and> includes_str prompt (json_print (JObj [(''event'', JStr e)]) @ '' requires '' @ t @ ''.'')
         \<and> (e = ''agent-succeeded'' \<longrightarrow> success_contract (ri_resultContract i))
         \<and> (e = ''review-approved'' \<or> e = ''review-changes-requested'' \<longrightarrow> ri_change i \<noteq> None)"
      by (rule exI [of _ t], intro conjI t) (use evidence_verifiable [OF t(1)] in simp_all)
  qed
qed

definition prompt_input :: RuntimePromptInput where
  "prompt_input = \<lparr> ri_migration = None, ri_flow = sample_flow, ri_stateId = ''develop'', ri_mode = MStage,
     ri_resultContract = RDevelopment, ri_configRevision = sample_sha, ri_controllerId = sample_uuid, ri_contextPath = ''c'',
     ri_decisionPath = ''d'', ri_ticket = sample_ref, ri_change = None, ri_sourceComment = None, ri_excludedCommentIds = [],
     ri_excludedReviewIds = [], ri_preparedCommentPath = None, ri_previousFailureCode = None \<rparr>"

theorem prompt_offers_verifiable_witness:
  "\<exists>prompt t. renderRuntimePrompt prompt_input = ok prompt
     \<and> includes_str prompt (json_print (JObj [(''event'', JStr ''agent-succeeded'')]) @ '' requires '' @ t @ ''.'')"
proof -
  have "is_ok (renderRuntimePrompt prompt_input)" by code_simp
  then obtain prompt where p: "renderRuntimePrompt prompt_input = ok prompt" by (auto simp: is_ok_iff)
  have "allowedAgentEvents (ri_flow prompt_input) (ri_stateId prompt_input) (ri_mode prompt_input) = ok [''agent-succeeded'', ''agent-needs-human'']"
    by code_simp
  then show ?thesis using prompt_offers_verifiable [OF p] p by auto
qed

end
