(* ===== verification/Sessions.thy ===== *)
theory Sessions
  imports UsageRecords
begin

text \<open>
  src/runtime/sessions.ts and src/runtime/identity.ts: the directory of an attempt with the files it starts with, and the
  identity that the controllers of one data directory share. The pretty-printed text of the context is an argument.
\<close>

section \<open>Sessions\<close>

record AttemptSession =
  ses_root :: path
  ses_contextPath :: path
  ses_decisionPath :: path
  ses_logPath :: path
  ses_harnessSessionDirectory :: path

definition publishContext :: "path \<Rightarrow> path \<Rightarrow> string \<Rightarrow> ('a fsys_scheme, unit) io" where
  "publishContext rt contextPath context =
    (let temporary = rt @ [''.context.json.tmp''] in
     bindM (assertSafeWritableFile rt temporary ''temporary context path'') (\<lambda>_.
     bindM (create_new temporary) (\<lambda>h.
      tryM (thenM (tryM (thenM (write_text h context) (thenM flush flush))
                (\<lambda>e. thenM (tryM flush (\<lambda>_. retM ())) (throwM e)))
           (thenM (bindM (assertSafeWritableFile rt contextPath ''context path'') (\<lambda>_. retM ()))
           (thenM (rename_file temporary contextPath)
             (bindM (assertSafeFile rt contextPath ''context path'') (\<lambda>_. retM ())))))
        (\<lambda>e. thenM (tryM (removeSafeFile rt temporary ''temporary context path'') (\<lambda>_. retM ())) (throwM e)))))"

definition newFile :: "path \<Rightarrow> path \<Rightarrow> string \<Rightarrow> ('a fsys_scheme, unit) io" where
  "newFile rt p label = bindM (assertSafeWritableFile rt p label) (\<lambda>_. write_new p [])"

definition sessionDirectory :: "path \<Rightarrow> string \<Rightarrow> ('a fsys_scheme, path) io" where
  "sessionDirectory flowRoot attemptId =
    tryM (createSafeDirectory flowRoot (flowRoot @ [attemptId]) ''attempt session directory'')
      (\<lambda>e. if e = FileExists then failM (''attempt session already exists: '' @ path_str (flowRoot @ [attemptId])) else throwM e)"

definition createAttemptSession :: "path \<Rightarrow> string \<Rightarrow> string \<Rightarrow> string \<Rightarrow> ('a fsys_scheme, AttemptSession) io" where
  "createAttemptSession dataDirectory flowInstanceId attemptId context =
    thenM (assertCanonicalUuid flowInstanceId ''flow instance ID'')
   (thenM (assertCanonicalUuid attemptId ''attempt ID'')
   (bindM (prepareDataRoot dataDirectory) (\<lambda>dataRoot.
    bindM (ensureSafeDirectory dataRoot (dataRoot @ [''sessions'']) ''sessions directory'') (\<lambda>sessions.
    bindM (ensureSafeDirectory sessions (sessions @ [flowInstanceId]) ''flow session directory'') (\<lambda>flowRoot.
    bindM (sessionDirectory flowRoot attemptId) (\<lambda>rt.
     thenM (publishContext rt (rt @ [''context.json'']) context)
    (thenM (newFile rt (rt @ [''decision.json'']) ''decision path'')
    (thenM (newFile rt (rt @ [''harness.log'']) ''harness log path'')
    (bindM (createSafeDirectory rt (rt @ [''harness-session'']) ''harness session directory'') (\<lambda>h.
      retM \<lparr> ses_root = rt, ses_contextPath = rt @ [''context.json''], ses_decisionPath = rt @ [''decision.json''],
        ses_logPath = rt @ [''harness.log''], ses_harnessSessionDirectory = h \<rparr>))))))))))"

section \<open>The identity of a controller\<close>

definition MAX_IDENTITY_BYTES :: int where "MAX_IDENTITY_BYTES = 128"

text \<open>An operation with a finally block: its error is replaced by an error of the block.\<close>

definition finallyM :: "('s, 'a) io \<Rightarrow> ('s, unit) io \<Rightarrow> ('s, 'a) io" where
  "finallyM m f s = (case m s of (r, s') \<Rightarrow> (case f s' of (Inl e, s'') \<Rightarrow> (Inl e, s'') | (Inr u, s'') \<Rightarrow> (r, s'')))"

definition identity_text :: "string \<Rightarrow> string res" where
  "identity_text t =
    bindR (checkR (MAX_IDENTITY_BYTES < byteLength t) ''controller ID is too large'') (\<lambda>_.
     (let i = trim_str t in bindR (checkR (\<not> isCanonicalUuid i) ''controller ID must be a canonical UUID'') (\<lambda>_. ok i)))"

text \<open>The file is opened without following a link, and must be a regular file.\<close>

definition readControllerId :: "path \<Rightarrow> ('a fsys_scheme, string) io" where
  "readControllerId p =
    bindM (tryM (read_file p) (\<lambda>e. if e = FileLoop then failM ''controller ID path must not be a symbolic link''
        else if e = Err ''EISDIR'' then failM ''controller ID path must be a regular file'' else throwM e)) (\<lambda>t.
      liftR (identity_text t))"

definition loadControllerId :: "path \<Rightarrow> ('a fsys_scheme, string) io" where
  "loadControllerId directory =
    bindM (prepareDataRoot directory) (\<lambda>rt.
     (let identity = rt @ [''controller-id''] in
      bindM randomUUID (\<lambda>u.
       (let temporary = rt @ [''.controller-id-'' @ u] in
        thenM (bindM (assertSafeWritableFile rt temporary ''temporary controller ID path'') (\<lambda>_. retM ()))
       (thenM (finallyM
          (bindM randomUUID (\<lambda>i.
            thenM (write_new temporary (i @ [CHR 0x0A]))
              (tryM (hardlink temporary identity) (\<lambda>e. if e = FileExists then retM () else throwM e))))
          (removeSafeFile rt temporary ''temporary controller ID path''))
        (readControllerId identity))))))"

section \<open>What the operations change\<close>

lemma real_dir_front: "real_dir nodes (p @ q) \<Longrightarrow> real_dir nodes p"
  by (induction q rule: rev_induct) (simp_all flip: append_assoc add: real_dir_snoc)

lemma mkdir_each_still:
  "real_dir (fs_node s) (acc @ cs) \<Longrightarrow> mkdir_each acc cs s = (ok (), s)"
proof (induction cs arbitrary: acc)
  case (Cons c cs)
  have d: "real_dir (fs_node s) (acc @ [c])" using Cons.prems real_dir_front [of _ "acc @ [c]" cs] by simp
  then have n: "fs_node s (acc @ [c]) = Some Dir" by (simp add: real_dir_snoc)
  have "walk (fs_node s) True MAX_LINKS [] (acc @ [c]) = Inr (acc @ [c])" using walk_dir [OF d] by (simp add: ok_def)
  moreover have "mkdir_each (acc @ [c]) cs s = (ok (), s)" using Cons by simp
  ultimately show ?case using n by (simp add: Let_def bindM_def getM_def ok_def node_at_def)
qed (simp add: retM_def)

lemma still_realpath:
  assumes "realpath p s = (Inr q, s')" "real_dir (fs_node s) p"
  shows "q = p"
proof -
  obtain s1 where r: "fault s = (ok None, s1)" "walk (fs_node s1) True MAX_LINKS [] p = Inr q"
    using assms(1) unfolding realpath_def callFs_iff resolved_def by (auto simp: run_iff)
  have "walk (fs_node s1) True MAX_LINKS [] p = ok p"
    using walk_dir [of "fs_node s1" p] assms(2) still_node [OF fault_still [OF r(1)]] by simp
  then show ?thesis using r(2) by (simp add: ok_def)
qed

lemma prepareDataRoot_at:
  assumes "prepareDataRoot rt s = (r, s')" "real_dir (fs_node s) rt"
  shows "still s s' \<and> (\<forall>q. r = Inr q \<longrightarrow> q = rt)"
proof -
  let ?check = "bindM (lstat rt) (\<lambda>info.
    thenM (checkM (is_link info) (''data directory must not be a symbolic link: '' @ path_str rt))
      (checkM (info \<noteq> Dir) (''data directory is not a directory: '' @ path_str rt)))"
  have k: "keepsM (still s) (mkdir_recursive rt)"
    unfolding keepsM_def
  proof (intro allI impI)
    fix s0 assume s0: "still s s0"
    obtain b s1 where f: "fault s0 = (ok b, s1)" using fault_total by blast
    have s1: "still s s1" using still_trans [OF s0 fault_cases(1) [OF f]] .
    have "mkdir_each [] rt s1 = (ok (), s1)" using mkdir_each_still [of s1 "[]" rt] assms(2) still_node [OF s1] by simp
    then have "snd (mkdir_recursive rt s0) = s1"
      using f by (simp add: mkdir_recursive_def callFs_def bindM_def failM_def ok_def)
    then show "still s (snd (mkdir_recursive rt s0))" using s1 by simp
  qed
  have "keepsM (still s) (prepareDataRoot rt)" unfolding prepareDataRoot_def by (intro k still_intros keepsM_intros)
  then have st: "still s s'" using stillD assms(1) by blast
  have "q = rt" if rq: "r = Inr q" for q
  proof -
    obtain s2 where r: "thenM (mkdir_recursive rt) ?check s = (Inr (), s2)" "realpath rt s2 = (Inr q, s')"
      using assms(1) rq unfolding prepareDataRoot_def by (fastforce simp: run_iff)
    have "keepsM (still s) (thenM (mkdir_recursive rt) ?check)" by (intro k still_intros keepsM_intros)
    then have "still s s2" using stillD r(1) by blast
    then show ?thesis using still_realpath [OF r(2)] still_node assms(2) by metis
  qed
  then show ?thesis using st by blast
qed

lemma try_rethrown:
  assumes "tryM m (\<lambda>e. thenM (h e) (throwM e)) s = (Inr x, s')"
  shows "m s = (Inr x, s')"
  using assms by (cases "m s"; cases "fst (m s)") (auto simp: tryM_def run_iff)

lemma mkdir_at:
  assumes "mkdir (rt @ [c]) s = (r, s')" "real_dir (fs_node s) rt"
  shows "differs_at {rt @ [c]} s s' \<and> (r = Inr () \<longrightarrow> fs_node s (rt @ [c]) = None \<and> fs_node s' (rt @ [c]) = Some Dir)
    \<and> (\<forall>e. r = Inl e \<longrightarrow> still s s')"
proof -
  obtain b s1 where f: "fault s = (ok b, s1)" and r: "if b = None then
      bindM (entry_path (rt @ [c])) (\<lambda>q. bindM (node_at q) (\<lambda>n.
     if n = None then set_node q (Some Dir) else throwM FileExists)) s1 = (r, s') else r = fail ''EIO'' \<and> s' = s1"
    using assms(1) unfolding mkdir_def callFs_cases by auto
  note st = fault_cases(1) [OF f]
  have d: "real_dir (fs_node s1) rt" using assms(2) still_node [OF st] by simp
  show ?thesis
  proof (cases "b = None")
    case True
    then show ?thesis using r still_node [OF st] still_more [OF st] st
      by (auto simp: bindM_def entry_path_at [OF d] node_at_entry set_node_def throwM_def ok_def differs_at_def split: if_split_asm)
  qed (use r st still_differs [OF st] in \<open>auto simp: fail_def\<close>)
qed

lemma assertSafeDirectory_at:
  assumes "assertSafeDirectory rt (rt @ [c]) label s = (Inr q, s')" "real_dir (fs_node s) rt" "proper c"
  shows "q = rt @ [c] \<and> real_dir (fs_node s) (rt @ [c])"
proof -
  obtain p s1 where r: "assertSafePath rt (rt @ [c]) label True s = (Inr p, s1)" "realpath p s1 = (Inr q, s')"
    using assms(1) unfolding assertSafeDirectory_def run_iff by blast
  have "keepsM (still s) (assertSafePath rt (rt @ [c]) label True)" by (intro still_intros)
  then have st: "still s s1" using r(1) stillD by blast
  have "p = rt @ [c]" "safe_at (fs_node s) rt (rt @ [c]) True"
    using assertSafePath_ok [OF r(1) assms(2)] assms(3) real_dir_proper [OF assms(2)] by auto
  then have "p = rt @ [c]" "real_dir (fs_node s) (rt @ [c])" using assms(2,3) by (auto simp: safe_at_def real_dir_snoc)
  then show ?thesis using still_realpath [OF r(2)] still_node [OF st] by simp
qed

lemma ensureSafeDirectory_at:
  assumes "ensureSafeDirectory rt (rt @ [c]) label s = (Inr q, s')" "real_dir (fs_node s) rt" "proper c"
  shows "q = rt @ [c] \<and> differs_at {rt @ [c]} s s' \<and> real_dir (fs_node s') (rt @ [c])"
proof -
  obtain x s1 u s2 where r: "assertSafeDirectory rt rt (label @ '' parent'') s = (Inr x, s1)"
    "tryM (mkdir (rt @ [c])) (\<lambda>e. if e = FileExists then retM () else throwM e) s1 = (Inr u, s2)"
    "assertSafeDirectory rt (rt @ [c]) label s2 = (Inr q, s')"
    using assms(1) unfolding ensureSafeDirectory_def by (auto simp: run_iff)
  have "keepsM (still s) (assertSafeDirectory rt rt (label @ '' parent''))" by (intro still_intros)
  then have st: "still s s1" using r(1) stillD by blast
  have d1: "real_dir (fs_node s1) rt" using assms(2) still_node [OF st] by simp
  obtain y s3 where m: "mkdir (rt @ [c]) s1 = (y, s3)" by (cases "mkdir (rt @ [c]) s1")
  then have "s3 = s2" using r(2) by (cases y) (auto simp: tryM_def retM_def throwM_def split: if_split_asm)
  then have d12: "differs_at {rt @ [c]} s1 s2" using mkdir_at [OF m d1] by simp
  have d2: "real_dir (fs_node s2) rt" using differs_dir [OF d12 d1] by simp
  have "keepsM (still s2) (assertSafeDirectory rt (rt @ [c]) label)" by (intro still_intros)
  then have st2: "still s2 s'" using r(3) stillD by blast
  show ?thesis using assertSafeDirectory_at [OF r(3) d2 assms(3)] still_node [OF st2]
      differs_trans [OF still_differs [OF st] differs_trans [OF d12 still_differs [OF st2]]] by simp
qed

lemma createSafeDirectory_at:
  assumes "createSafeDirectory rt (rt @ [c]) label s = (Inr q, s')" "real_dir (fs_node s) rt" "proper c"
  shows "q = rt @ [c] \<and> fs_node s (rt @ [c]) = None \<and> differs_at {rt @ [c]} s s' \<and> real_dir (fs_node s') (rt @ [c])"
proof -
  obtain x s1 u s2 where r0: "assertSafeDirectory rt rt (label @ '' parent'') s = (Inr x, s1)"
    "tryM (mkdir (rt @ [c])) (\<lambda>e. thenM (if e = FileExists then bindM (assertSafeDirectory rt (rt @ [c]) label) (\<lambda>_. retM ()) else retM ()) (throwM e)) s1 = (Inr u, s2)"
    "assertSafeDirectory rt (rt @ [c]) label s2 = (Inr q, s')"
    using assms(1) unfolding createSafeDirectory_def by (auto simp: run_iff)
  have "mkdir (rt @ [c]) s1 = (Inr u, s2)" using r0(2) by (rule try_rethrown)
  then have r: "assertSafeDirectory rt rt (label @ '' parent'') s = (Inr x, s1)"
    "mkdir (rt @ [c]) s1 = (Inr (), s2)" "assertSafeDirectory rt (rt @ [c]) label s2 = (Inr q, s')"
    using r0 by auto
  have "keepsM (still s) (assertSafeDirectory rt rt (label @ '' parent''))" by (intro still_intros)
  then have st: "still s s1" using r(1) stillD by blast
  have d1: "real_dir (fs_node s1) rt" using assms(2) still_node [OF st] by simp
  note m = mkdir_at [OF r(2) d1]
  have d2: "real_dir (fs_node s2) rt" using differs_dir [OF conjunct1 [OF m] d1] by simp
  have "keepsM (still s2) (assertSafeDirectory rt (rt @ [c]) label)" by (intro still_intros)
  then have st2: "still s2 s'" using r(3) stillD by blast
  show ?thesis using assertSafeDirectory_at [OF r(3) d2 assms(3)] still_node [OF st2] still_node [OF st] m
      differs_trans [OF still_differs [OF st] differs_trans [OF conjunct1 [OF m] still_differs [OF st2]]] by simp
qed

lemma write_new_at:
  assumes "write_new (rt @ [c]) tx s = (r, s')" "real_dir (fs_node s) rt"
  shows "differs_at {rt @ [c]} s s' \<and> (r = Inr () \<longrightarrow> fs_node s (rt @ [c]) = None \<and> fs_node s' (rt @ [c]) = Some (Regular tx))"
proof -
  obtain q s1 where c: "create_new (rt @ [c]) s = (q, s1)" by (cases "create_new (rt @ [c]) s")
  show ?thesis
  proof (cases q)
    case (Inl e)
    then have "r = Inl e" "s' = s1" using assms(1) c by (auto simp: write_new_def bindM_def)
    then show ?thesis using create_new_fails [OF c [unfolded Inl] assms(2)] still_differs by blast
  next
    case (Inr p)
    note cr = create_new_at [OF c [unfolded Inr] assms(2)]
    obtain w s2 where w: "write_text p tx s1 = (w, s2)" by (cases "write_text p tx s1")
    obtain f s3 where f: "flush s2 = (f, s3)" by (cases "flush s2")
    have st: "still s2 s3" using stillD [OF still_flush f] .
    have run: "(r, s') = (case w of Inl e \<Rightarrow> (Inl e, s2) | Inr u \<Rightarrow> (f, s3))"
      using assms(1) c Inr w f by (auto simp: write_new_def bindM_def thenM_def split: sum.splits)
    have d: "differs_at {rt @ [c]} s s2" using write_text_at [OF w] cr by (auto simp: differs_at_def)
    then show ?thesis using run write_text_at [OF w] cr st still_node [OF st] still_differs [OF st] differs_trans
      by (cases w) fastforce+
  qed
qed

lemma newFile_at:
  assumes "newFile rt (rt @ [c]) label s = (Inr u, s')" "real_dir (fs_node s) rt"
  shows "differs_at {rt @ [c]} s s' \<and> fs_node s (rt @ [c]) = None \<and> fs_node s' (rt @ [c]) = Some (Regular [])"
proof -
  obtain x s1 where r: "assertSafeWritableFile rt (rt @ [c]) label s = (Inr x, s1)" "write_new (rt @ [c]) [] s1 = (Inr u, s')"
    using assms(1) unfolding newFile_def run_iff by blast
  have "keepsM (still s) (assertSafeWritableFile rt (rt @ [c]) label)" by (intro still_intros)
  then have st: "still s s1" using r(1) stillD by blast
  have "real_dir (fs_node s1) rt" using assms(2) still_node [OF st] by simp
  then show ?thesis using write_new_at [OF r(2)] still_node [OF st] differs_trans [OF still_differs [OF st]] by simp
qed

lemma publishContext_at:
  assumes "publishContext rt (rt @ [''context.json'']) context s = (Inr u, s')" "real_dir (fs_node s) rt"
  shows "differs_at {rt @ [''.context.json.tmp''], rt @ [''context.json'']} s s'
    \<and> fs_node s' (rt @ [''context.json'']) = Some (Regular context)"
proof -
  let ?tmp = "rt @ [''.context.json.tmp'']" let ?doc = "rt @ [''context.json'']"
  obtain x s1 q s2 where r: "assertSafeWritableFile rt ?tmp ''temporary context path'' s = (Inr x, s1)"
      "create_new ?tmp s1 = (Inr q, s2)"
    and b: "tryM (thenM (tryM (thenM (write_text q context) (thenM flush flush))
                (\<lambda>e. thenM (tryM flush (\<lambda>_. retM ())) (throwM e)))
           (thenM (bindM (assertSafeWritableFile rt ?doc ''context path'') (\<lambda>_. retM ()))
           (thenM (rename_file ?tmp ?doc)
             (bindM (assertSafeFile rt ?doc ''context path'') (\<lambda>_. retM ())))))
        (\<lambda>e. thenM (tryM (removeSafeFile rt ?tmp ''temporary context path'') (\<lambda>_. retM ())) (throwM e)) s2 = (Inr u, s')"
    using assms(1) unfolding publishContext_def Let_def bindM_Inr_iff by blast
  have "keepsM (still s) (assertSafeWritableFile rt ?tmp ''temporary context path'')" by (intro still_intros)
  then have st1: "still s s1" using r(1) stillD by blast
  have d1: "real_dir (fs_node s1) rt" using assms(2) still_node [OF st1] by simp
  note cr = create_new_at [OF r(2) d1]
  have d12: "differs_at {?tmp} s1 s2" using cr by (simp add: differs_at_def)
  have "thenM (tryM (thenM (write_text q context) (thenM flush flush))
                (\<lambda>e. thenM (tryM flush (\<lambda>_. retM ())) (throwM e)))
           (thenM (bindM (assertSafeWritableFile rt ?doc ''context path'') (\<lambda>_. retM ()))
           (thenM (rename_file ?tmp ?doc)
             (bindM (assertSafeFile rt ?doc ''context path'') (\<lambda>_. retM ())))) s2 = (Inr u, s')"
    using b by (rule try_rethrown)
  then obtain v s3 w s4 z s5 where c:
    "tryM (thenM (write_text q context) (thenM flush flush)) (\<lambda>e. thenM (tryM flush (\<lambda>_. retM ())) (throwM e)) s2 = (Inr v, s3)"
    "bindM (assertSafeWritableFile rt ?doc ''context path'') (\<lambda>_. retM ()) s3 = (Inr w, s4)"
    "rename_file ?tmp ?doc s4 = (Inr z, s5)" "bindM (assertSafeFile rt ?doc ''context path'') (\<lambda>_. retM ()) s5 = (Inr u, s')"
    unfolding thenM_Inr_iff by blast
  have "thenM (write_text q context) (thenM flush flush) s2 = (Inr v, s3)" using c(1) by (rule try_rethrown)
  then obtain v1 s6 where w: "write_text q context s2 = (Inr v1, s6)" "thenM flush flush s6 = (Inr v, s3)"
    unfolding thenM_Inr_iff by blast
  have "keepsM (still s6) (thenM flush flush)" by (intro still_intros keepsM_intros)
  then have st6: "still s6 s3" using w(2) stillD by blast
  have q: "q = ?tmp" using cr by simp
  have d26: "differs_at {?tmp} s2 s6" "fs_node s6 ?tmp = Some (Regular context)" using write_text_at [OF w(1)] q by auto
  have "keepsM (still s3) (bindM (assertSafeWritableFile rt ?doc ''context path'') (\<lambda>_. retM ()))" by (intro still_intros keepsM_intros)
  then have "still s3 s4" using c(2) stillD by blast
  then have st4: "still s6 s4" using st6 still_trans by blast
  have d4: "differs_at {?tmp} s s4" using still_differs [OF st1] d12 d26(1) still_differs [OF st4] differs_trans by blast
  have rd: "real_dir (fs_node s4) rt" using differs_dir [OF d4 assms(2)] by simp
  have "keepsM (still s5) (bindM (assertSafeFile rt ?doc ''context path'') (\<lambda>_. retM ()))" by (intro still_intros keepsM_intros)
  then have st5: "still s5 s'" using c(4) stillD by blast
  have "fs_node s5 = (fs_node s4)(?doc := fs_node s4 ?tmp, ?tmp := None)" "fsys.more s5 = fsys.more s4"
    using rename_at [OF c(3) rd] by auto
  then have "differs_at {?tmp, ?doc} s4 s5" "fs_node s5 ?doc = Some (Regular context)"
    using d26(2) still_node [OF st4] by (auto simp: differs_at_def)
  then have "differs_at {?tmp, ?doc} s s5" using differs_trans [OF differs_mono [OF d4]] by blast
  then show ?thesis using differs_trans [OF _ still_differs [OF st5]] still_node [OF st5] \<open>fs_node s5 ?doc = _\<close> by simp
qed

lemma bindM_InrE: "bindM m f s = (Inr y, s'') \<Longrightarrow> (\<And>x s'. m s = (Inr x, s') \<Longrightarrow> f x s' = (Inr y, s'') \<Longrightarrow> P) \<Longrightarrow> P"
  unfolding bindM_Inr_iff by blast

lemma thenM_InrE: "thenM m n s = (Inr y, s'') \<Longrightarrow> (\<And>x s'. m s = (Inr x, s') \<Longrightarrow> n s' = (Inr y, s'') \<Longrightarrow> P) \<Longrightarrow> P"
  unfolding thenM_Inr_iff by blast

lemma uuid_proper: "isCanonicalUuid u \<Longrightarrow> proper u"
  by (auto simp: isCanonicalUuid_def proper_def)

text \<open>The paths that a new session adds: its flow's directories, and everything at and below its own.\<close>

definition session_paths :: "path \<Rightarrow> string \<Rightarrow> string \<Rightarrow> path set" where
  "session_paths d f a = {d @ [''sessions''], d @ [''sessions'', f]} \<union> {p. \<exists>q. p = d @ [''sessions'', f, a] @ q}"

lemma session_paths_below:
  "d @ [''sessions'', f, a] @ q \<in> session_paths d f a" "(d @ [''sessions'', f, a]) @ q \<in> session_paths d f a"
  by (auto simp: session_paths_def)

lemma sessionDirectory_at:
  assumes "sessionDirectory rt a s = (Inr q, s')" "real_dir (fs_node s) rt" "proper a"
  shows "q = rt @ [a] \<and> fs_node s (rt @ [a]) = None \<and> differs_at {rt @ [a]} s s' \<and> real_dir (fs_node s') (rt @ [a])"
proof -
  have "createSafeDirectory rt (rt @ [a]) ''attempt session directory'' s = (Inr q, s')"
    using assms(1) unfolding sessionDirectory_def tryM_def
    by (auto simp: run_iff split: prod.split_asm sum.split_asm if_split_asm)
  then show ?thesis using createSafeDirectory_at assms(2,3) by blast
qed

text \<open>What the files of a new session hold.\<close>

lemma session_files:
  assumes "publishContext rt (rt @ [''context.json'']) context s = (Inr u, s1)"
    "newFile rt (rt @ [''decision.json'']) l1 s1 = (Inr v, s2)" "newFile rt (rt @ [''harness.log'']) l2 s2 = (Inr w, s3)"
    "createSafeDirectory rt (rt @ [''harness-session'']) l3 s3 = (Inr h, s')" "real_dir (fs_node s) rt"
  shows "h = rt @ [''harness-session''] \<and> real_dir (fs_node s') h \<and> fs_node s' (rt @ [''context.json'']) = Some (Regular context)
    \<and> fs_node s' (rt @ [''decision.json'']) = Some (Regular []) \<and> fs_node s' (rt @ [''harness.log'']) = Some (Regular [])
    \<and> differs_at {p. \<exists>q. p = rt @ q \<and> q \<noteq> []} s s'"
proof -
  note p = publishContext_at [OF assms(1,5)]
  have d1: "real_dir (fs_node s1) rt" by (rule differs_dir [OF conjunct1 [OF p] assms(5)]) auto
  note n1 = newFile_at [OF assms(2) d1]
  have d2: "real_dir (fs_node s2) rt" using differs_dir [OF conjunct1 [OF n1] d1] by simp
  note n2 = newFile_at [OF assms(3) d2]
  have d3: "real_dir (fs_node s3) rt" using differs_dir [OF conjunct1 [OF n2] d2] by simp
  have "proper ''harness-session''" by (simp add: proper_def)
  note c = createSafeDirectory_at [OF assms(4) d3 this]
  let ?P = "{p. \<exists>q. p = rt @ q \<and> q \<noteq> []}"
  have "differs_at ?P s s1" "differs_at ?P s1 s2" "differs_at ?P s2 s3" "differs_at ?P s3 s'"
    using p n1 n2 c by (auto intro: differs_mono)
  then have "differs_at ?P s s'" using differs_trans by blast
  then show ?thesis using p n1 n2 c by (simp add: differs_at_def)
qed

text \<open>
  C29: A session of an attempt is always a fresh directory. Creating a session succeeds only for canonical identifiers,
  below the data directory, at a place where nothing was before, so two attempts never share one; it leaves the whole
  context, an empty decision, an empty log and a directory for the harness, and changes nothing outside the directories
  of the flow and of the attempt.
\<close>

theorem session_fresh:
  assumes "createAttemptSession d f a context s = (Inr session, s')" "real_dir (fs_node s) d"
  shows "isCanonicalUuid f \<and> isCanonicalUuid a \<and> ses_root session = d @ [''sessions'', f, a]
    \<and> fs_node s (ses_root session) = None \<and> real_dir (fs_node s') (ses_root session)
    \<and> fs_node s' (ses_contextPath session) = Some (Regular context) \<and> fs_node s' (ses_decisionPath session) = Some (Regular [])
    \<and> fs_node s' (ses_logPath session) = Some (Regular []) \<and> real_dir (fs_node s') (ses_harnessSessionDirectory session)
    \<and> differs_at (session_paths d f a) s s'"
proof -
  obtain dr s1 ss s2 fr s3 rt s4 u s5 v s6 w s7 h where
    ids: "isCanonicalUuid f" "isCanonicalUuid a"
    and r: "prepareDataRoot d s = (Inr dr, s1)" "ensureSafeDirectory dr (dr @ [''sessions'']) ''sessions directory'' s1 = (Inr ss, s2)"
      "ensureSafeDirectory ss (ss @ [f]) ''flow session directory'' s2 = (Inr fr, s3)" "sessionDirectory fr a s3 = (Inr rt, s4)"
    and f: "publishContext rt (rt @ [''context.json'']) context s4 = (Inr u, s5)"
      "newFile rt (rt @ [''decision.json'']) ''decision path'' s5 = (Inr v, s6)"
      "newFile rt (rt @ [''harness.log'']) ''harness log path'' s6 = (Inr w, s7)"
      "createSafeDirectory rt (rt @ [''harness-session'']) ''harness session directory'' s7 = (Inr h, s')"
    and ses: "session = \<lparr> ses_root = rt, ses_contextPath = rt @ [''context.json''], ses_decisionPath = rt @ [''decision.json''],
        ses_logPath = rt @ [''harness.log''], ses_harnessSessionDirectory = h \<rparr>"
    using assms(1) unfolding createAttemptSession_def assertCanonicalUuid_def
    by (elim thenM_InrE bindM_InrE) (simp only: ret_iff check_iff not_not)
  note p = prepareDataRoot_at [OF r(1) assms(2)]
  have d1: "dr = d" "real_dir (fs_node s1) d" using p assms(2) still_node by metis+
  have "proper ''sessions''" by (simp add: proper_def)
  note e1 = ensureSafeDirectory_at [OF r(2) [unfolded d1(1)] d1(2) this]
  note e2 = ensureSafeDirectory_at [OF r(3), unfolded conjunct1 [OF e1], OF _ uuid_proper [OF ids(1)]]
  have e2': "fr = (d @ [''sessions'']) @ [f]" "differs_at {(d @ [''sessions'']) @ [f]} s2 s3" "real_dir (fs_node s3) ((d @ [''sessions'']) @ [f])"
    using e1 e2 by auto
  note e3 = sessionDirectory_at [OF r(4) [unfolded e2'(1)] e2'(3) uuid_proper [OF ids(2)]]
  have d4: "real_dir (fs_node s4) rt" using e3 by simp
  note fs = session_files [OF f d4]
  let ?P = "session_paths d f a"
  have rt: "rt = d @ [''sessions'', f, a]" using e3 by simp
  have "differs_at ?P s s1" using p still_differs by blast
  moreover have "differs_at ?P s1 s2" "differs_at ?P s2 s3"
    using e1 differs_mono [OF e2'(2), of ?P] differs_mono [of "{d @ [''sessions'']}" s1 s2 ?P] by (auto simp: session_paths_def)
  moreover have "differs_at ?P s3 s4"
    using e3 differs_mono [of "{((d @ [''sessions'']) @ [f]) @ [a]}" s3 s4 ?P] by (simp add: session_paths_def)
  moreover have "{p. \<exists>q. p = rt @ q \<and> q \<noteq> []} \<subseteq> ?P" using rt by (auto simp: session_paths_def)
  then have "differs_at ?P s4 s'" using fs differs_mono by blast
  ultimately have "differs_at ?P s s'" using differs_trans by blast
  moreover have "fs_node s rt = None"
  proof -
    have "fs_node s3 rt = fs_node s2 rt" "fs_node s2 rt = fs_node s1 rt" "fs_node s1 rt = fs_node s rt"
      using e1 e2'(2) rt still_node [OF conjunct1 [OF p]] by (auto simp: differs_at_def)
    then show ?thesis using e3 rt by simp
  qed
  moreover have "real_dir (fs_node s') rt" using fs real_dir_front by blast
  ultimately show ?thesis using ids fs ses rt by auto
qed

section \<open>The identity is shared\<close>

lemma hardlink_at:
  assumes "hardlink (rt @ [a]) (rt @ [b]) s = (r, s')" "real_dir (fs_node s) rt"
  shows "differs_at {rt @ [b]} s s' \<and> (fs_node s (rt @ [b]) \<noteq> None \<longrightarrow> still s s')"
proof -
  obtain bb s1 where f: "fault s = (ok bb, s1)" and r: "if bb = None then
      bindM (entry_path (rt @ [a])) (\<lambda>p. bindM (entry_path (rt @ [b])) (\<lambda>q. bindM (node_at p) (\<lambda>n. bindM (node_at q) (\<lambda>m.
     if n = None then throwM FileMissing else if m \<noteq> None then throwM FileExists
     else if n = Some Dir then failM ''EPERM'' else set_node q n)))) s1 = (r, s') else s' = s1"
    using assms(1) unfolding hardlink_def callFs_cases by (auto split: if_split_asm)
  note st = fault_cases(1) [OF f]
  have d: "real_dir (fs_node s1) rt" using assms(2) still_node [OF st] by simp
  show ?thesis
  proof (cases "bb = None")
    case True
    then show ?thesis using r still_node [OF st] still_more [OF st] st
      by (auto simp: bindM_def entry_path_at [OF d] node_at_entry set_node_def throwM_def failM_def fail_def ok_def differs_at_def split: if_split_asm)
  qed (use r st still_differs [OF st] in simp)
qed

text \<open>Operations below a directory that keep an entry they do not name, once it is there.\<close>

definition kept_entry :: "path \<Rightarrow> string \<Rightarrow> node option \<Rightarrow> 'a fsys_scheme \<Rightarrow> bool" where
  "kept_entry rt c x s \<longleftrightarrow> real_dir (fs_node s) rt \<and> (\<forall>n. x = Some n \<longrightarrow> fs_node s (rt @ [c]) = Some n)"

lemma kept_still: "kept_entry rt c n s \<Longrightarrow> still s s' \<Longrightarrow> kept_entry rt c n s'"
  by (simp add: kept_entry_def still_node)

lemma kept_reads: "(\<And>s0. keepsM (still s0) m) \<Longrightarrow> keepsM (kept_entry rt c n) m"
  unfolding keepsM_def using kept_still still_refl by blast

lemma kept_differs: "kept_entry rt c n s \<Longrightarrow> differs_at {rt @ [t]} s s' \<Longrightarrow> t \<noteq> c \<Longrightarrow> kept_entry rt c n s'"
  using differs_dir [of "{rt @ [t]}" s s' rt] by (simp add: kept_entry_def differs_at_def)

lemma kept_step:
  assumes "\<And>s r s'. kept_entry rt c n s \<Longrightarrow> m s = (r, s') \<Longrightarrow> kept_entry rt c n s'"
  shows "keepsM (kept_entry rt c n) m"
  unfolding keepsM_def using assms by (metis prod.collapse)

lemma kept_dir: "kept_entry rt c n s \<Longrightarrow> real_dir (fs_node s) rt"
  by (simp add: kept_entry_def)

lemma kept_write:
  assumes "t \<noteq> c"
  shows "keepsM (kept_entry rt c n) (write_new (rt @ [t]) tx)"
proof (rule kept_step)
  fix s r s' assume k: "kept_entry rt c n s" and w: "write_new (rt @ [t]) tx s = (r, s')"
  show "kept_entry rt c n s'" using kept_differs [OF k conjunct1 [OF write_new_at [OF w kept_dir [OF k]]] assms] .
qed

lemma kept_remove:
  assumes "t \<noteq> c" "proper t"
  shows "keepsM (kept_entry rt c n) (removeSafeFile rt (rt @ [t]) label)"
proof (rule kept_step)
  fix s r s' assume k: "kept_entry rt c n s" and w: "removeSafeFile rt (rt @ [t]) label s = (r, s')"
  show "kept_entry rt c n s'" using kept_differs [OF k removeSafeFile_at [OF w kept_dir [OF k] assms(2)] assms(1)] .
qed

lemma kept_link: "keepsM (kept_entry rt c n) (hardlink (rt @ [t]) (rt @ [c]))"
proof (rule kept_step)
  fix s r s' assume k: "kept_entry rt c n s" and w: "hardlink (rt @ [t]) (rt @ [c]) s = (r, s')"
  note h = hardlink_at [OF w kept_dir [OF k]]
  show "kept_entry rt c n s'"
  proof (cases n)
    case None
    then show ?thesis using differs_dir [OF conjunct1 [OF h] kept_dir [OF k]] by (simp add: kept_entry_def)
  next
    case (Some m)
    then show ?thesis using kept_still [OF k] h k by (auto simp: kept_entry_def)
  qed
qed

lemma kept_uuid: "keepsM (kept_entry rt c n) randomUUID"
proof (rule kept_step)
  fix s r s' assume k: "kept_entry rt c n s" and w: "randomUUID s = (r, s')"
  show "kept_entry rt c n s'" using k uuid_still [OF w] by (simp add: kept_entry_def)
qed

lemma keepsM_finally: "keepsM I m \<Longrightarrow> keepsM I f \<Longrightarrow> keepsM I (finallyM m f)"
  unfolding keepsM_def finallyM_def by (fastforce split: prod.splits sum.splits)

lemma kept_prepare:
  "keepsM (kept_entry rt c n) (prepareDataRoot rt)"
proof (rule kept_step)
  fix s r s' assume k: "kept_entry rt c n s" and w: "prepareDataRoot rt s = (r, s')"
  show "kept_entry rt c n s'" using kept_still [OF k conjunct1 [OF prepareDataRoot_at [OF w kept_dir [OF k]]]] .
qed

definition identity_name :: string where "identity_name = ''controller-id''"

lemma identity_temporary: "''.controller-id-'' @ u \<noteq> identity_name" "proper (''.controller-id-'' @ u)" "proper identity_name"
  by (simp_all add: identity_name_def proper_def)

definition publishIdentity :: "path \<Rightarrow> string \<Rightarrow> ('a fsys_scheme, unit) io" where
  "publishIdentity rt u = (let temporary = rt @ [''.controller-id-'' @ u] in
     thenM (bindM (assertSafeWritableFile rt temporary ''temporary controller ID path'') (\<lambda>_. retM ()))
      (finallyM
          (bindM randomUUID (\<lambda>i.
            thenM (write_new temporary (i @ [CHR 0x0A]))
              (tryM (hardlink temporary (rt @ [identity_name])) (\<lambda>e. if e = FileExists then retM () else throwM e))))
          (removeSafeFile rt temporary ''temporary controller ID path'')))"

lemma kept_publish: "keepsM (kept_entry rt identity_name n) (publishIdentity rt u)"
  unfolding publishIdentity_def Let_def
  by (intro keepsM_then keepsM_bind keepsM_finally keepsM_try keepsM_if keepsM_ret keepsM_throw kept_reads kept_uuid kept_write
    kept_remove kept_link identity_temporary still_intros)

lemma then_assoc: "thenM (thenM m n) k = thenM m (thenM n k)"
  by (intro ext) (simp add: thenM_def bindM_def split: prod.split sum.split)

lemma load_parts:
  "loadControllerId d = bindM (prepareDataRoot d) (\<lambda>rt. bindM randomUUID (\<lambda>u.
     thenM (publishIdentity rt u) (readControllerId (rt @ [identity_name]))))"
  by (simp add: loadControllerId_def publishIdentity_def Let_def then_assoc identity_name_def)

lemma still_identity [still_intros]: "keepsM (still s0) (readControllerId p)"
  unfolding readControllerId_def by (intro still_intros keepsM_intros)

lemma readControllerId_at:
  assumes "readControllerId (rt @ [c]) s = (Inr i, s')" "real_dir (fs_node s) rt" "proper c"
  shows "\<exists>t. fs_node s (rt @ [c]) = Some (Regular t) \<and> identity_text t = Inr i"
proof -
  obtain t s1 where "read_file (rt @ [c]) s = (Inr t, s1)" "identity_text t = Inr i"
    using assms(1) unfolding readControllerId_def tryM_def
    by (auto simp: run_iff split: prod.split_asm sum.split_asm if_split_asm)
  then show ?thesis using read_file_at assms(2,3) by blast
qed

lemma load_keeps: "keepsM (kept_entry d identity_name x) (loadControllerId d)"
proof (rule kept_step)
  fix s r s' assume k: "kept_entry d identity_name x s" and l: "loadControllerId d s = (r, s')"
  obtain q s1 where q: "prepareDataRoot d s = (q, s1)" by (cases "prepareDataRoot d s")
  have k1: "kept_entry d identity_name x s1" using kept_prepare k q unfolding keepsM_def by (metis snd_conv)
  show "kept_entry d identity_name x s'"
  proof (cases q)
    case (Inl e)
    then show ?thesis using l q k1 by (simp add: load_parts bindM_def)
  next
    case (Inr rt)
    then have "rt = d" using prepareDataRoot_at [OF q kept_dir [OF k]] by simp
    then have "(r, s') = bindM randomUUID (\<lambda>u. thenM (publishIdentity d u) (readControllerId (d @ [identity_name]))) s1"
      using l q Inr by (simp add: load_parts bindM_def)
    moreover have "keepsM (kept_entry d identity_name x) (bindM randomUUID (\<lambda>u.
      thenM (publishIdentity d u) (readControllerId (d @ [identity_name]))))"
      by (intro keepsM_bind keepsM_then kept_uuid kept_publish kept_reads still_intros)
    ultimately show ?thesis using k1 unfolding keepsM_def by (metis snd_conv)
  qed
qed

lemma load_reads:
  assumes "loadControllerId d s = (Inr i, s')" "real_dir (fs_node s) d"
  shows "\<exists>t. fs_node s' (d @ [identity_name]) = Some (Regular t) \<and> identity_text t = Inr i"
proof -
  obtain rt s1 u s2 v s3 where r: "prepareDataRoot d s = (Inr rt, s1)" "randomUUID s1 = (Inr u, s2)"
    "publishIdentity rt u s2 = (Inr v, s3)" "readControllerId (rt @ [identity_name]) s3 = (Inr i, s')"
    using assms(1) unfolding load_parts bindM_Inr_iff thenM_Inr_iff by blast
  have rt: "rt = d" and k: "kept_entry d identity_name None s1"
    using prepareDataRoot_at [OF r(1) assms(2)] assms(2) still_node [of s s1] by (auto simp: kept_entry_def)
  have "kept_entry d identity_name None s2" using kept_uuid k r(2) unfolding keepsM_def by (metis snd_conv)
  then have "kept_entry d identity_name None s3" using kept_publish r(3) rt unfolding keepsM_def by (metis snd_conv)
  then have "\<exists>t. fs_node s3 (d @ [identity_name]) = Some (Regular t) \<and> identity_text t = Inr i"
    using readControllerId_at [OF r(4) [unfolded rt]] identity_temporary(3) by (simp add: kept_entry_def)
  moreover have "still s3 s'" using stillD [OF still_identity r(4)] .
  ultimately show ?thesis using still_node by metis
qed

text \<open>
  C30: The controllers of one data directory share one identity. Once a controller has loaded an identity, any later load,
  by whatever controller and with whatever random identifiers and breaks of the file system, leaves the identity file as
  it is; a later load that returns returns the same identity, and it is a canonical UUID.
\<close>

theorem identity_shared:
  assumes "loadControllerId d s = (Inr i, s1)" "real_dir (fs_node s) d"
    and "fs_node s2 = fs_node s1" "loadControllerId d s2 = (r, s3)"
  shows "isCanonicalUuid i \<and> fs_node s3 (d @ [''controller-id'']) = fs_node s1 (d @ [''controller-id''])
    \<and> (case r of Inr j \<Rightarrow> j = i | Inl e \<Rightarrow> True)"
proof -
  obtain t where t: "fs_node s1 (d @ [identity_name]) = Some (Regular t)" "identity_text t = Inr i"
    using load_reads [OF assms(1,2)] by blast
  have "kept_entry d identity_name None s" using assms(2) by (simp add: kept_entry_def)
  then have "kept_entry d identity_name None s1" using load_keeps assms(1) unfolding keepsM_def by (metis snd_conv)
  then have d2: "real_dir (fs_node s2) d" using assms(3) by (simp add: kept_entry_def)
  then have "kept_entry d identity_name (Some (Regular t)) s2" using t(1) assms(3) by (simp add: kept_entry_def)
  then have "kept_entry d identity_name (Some (Regular t)) s3" using load_keeps assms(4) unfolding keepsM_def by (metis snd_conv)
  then have t3: "fs_node s3 (d @ [identity_name]) = Some (Regular t)" by (simp add: kept_entry_def)
  have "isCanonicalUuid i" using t(2) by (auto simp: identity_text_def Let_def checkR_def bindR_def ok_def fail_def split: if_split_asm)
  moreover have "case r of Inr j \<Rightarrow> j = i | Inl e \<Rightarrow> True"
    using load_reads [of d s2 _ s3] assms(4) d2 t(2) t3 by (cases r) auto
  ultimately show ?thesis using t3 t(1) by (simp add: identity_name_def)
qed

definition uuid_of :: "char \<Rightarrow> string" where
  "uuid_of c = replicate 8 c @ ''-'' @ replicate 4 c @ ''-4'' @ replicate 3 c @ ''-8'' @ replicate 3 c @ ''-'' @ replicate 12 c"

definition new_data :: fsys where
  "new_data = \<lparr> fs_node = (\<lambda>p. if p = [''d''] then Some Dir else None), fs_faults = [],
     fs_uuids = [uuid_of (CHR ''1''), uuid_of (CHR ''2''), uuid_of (CHR ''3''), uuid_of (CHR ''4'')] \<rparr>"

lemma new_data_dir: "real_dir (fs_node new_data) [''d'']"
  by (auto simp: real_dir_def new_data_def proper_def le_Suc_eq)

theorem identity_shared_witness:
  "\<exists>s1 s3. loadControllerId [''d''] new_data = (Inr (uuid_of (CHR ''2'')), s1)
     \<and> loadControllerId [''d''] s1 = (Inr (uuid_of (CHR ''2'')), s3)
     \<and> fs_node s3 [''d'', ''controller-id''] = fs_node s1 [''d'', ''controller-id'']"
proof -
  have a: "fst (loadControllerId [''d''] new_data) = Inr (uuid_of (CHR ''2''))" by code_simp
  have b: "fst (loadControllerId [''d''] (snd (loadControllerId [''d''] new_data))) = Inr (uuid_of (CHR ''2''))" by code_simp
  obtain s1 where s1: "loadControllerId [''d''] new_data = (Inr (uuid_of (CHR ''2'')), s1)" using a by (metis prod.collapse)
  obtain r s3 where s3: "loadControllerId [''d''] s1 = (r, s3)" by (cases "loadControllerId [''d''] s1")
  have "r = Inr (uuid_of (CHR ''2''))" using b s1 s3 by simp
  then show ?thesis using identity_shared [OF s1 new_data_dir refl s3] s1 s3 by auto
qed

theorem session_fresh_witness:
  "\<exists>session s'. createAttemptSession [''d''] (uuid_of (CHR ''5'')) (uuid_of (CHR ''6'')) ''{}'' new_data = (Inr session, s')
     \<and> ses_root session = [''d'', ''sessions'', uuid_of (CHR ''5''), uuid_of (CHR ''6'')]
     \<and> fs_node s' (ses_contextPath session) = Some (Regular ''{}'')"
proof -
  let ?run = "createAttemptSession [''d''] (uuid_of (CHR ''5'')) (uuid_of (CHR ''6'')) ''{}'' new_data"
  have "(case fst ?run of Inr x \<Rightarrow> True | Inl e \<Rightarrow> False)" by code_simp
  then obtain session s' where run: "?run = (Inr session, s')" by (cases "?run"; cases "fst ?run") auto
  then show ?thesis using session_fresh [OF run new_data_dir] by auto
qed

end
