(* ===== verification/AttemptRunner.thy ===== *)
theory AttemptRunner
  imports PreparedPublication Prompt ControlState Sessions
begin

text \<open>
  src/runtime/attempt-runner.ts: the series of attempts that the controller runs for one stage. Each attempt is first
  written to the control state, then run, and its result is verified and written, or its failure, with another attempt
  while the budget lasts. The world of a run holds the files, whatever else the dependencies change, the fields of the
  running attempt, the local variables of the current attempt, and a log of the control states written and the harness
  runs started. An operation of a dependency may also cancel the attempt: whether it is cancelled is read from the world.
\<close>

section \<open>Dependencies\<close>

datatype HarnessEnd =
    Ended "AttemptUsage option" "int option" bool bool   \<comment> \<open>usage, exit code, whether a signal ended it, time-out\<close>
  | Broke err "AttemptUsage option"
record CompiledAgent =
  ca_agentId :: string
  ca_target :: HarnessTarget

record HarnessRun =
  hr_workspace :: string
  hr_session :: AttemptSession
  hr_prompt :: string
  hr_execution :: ExecutionSnapshot

record 's RunnerDeps =
  rd_cancelled :: "'s \<Rightarrow> bool"
  rd_dataDirectory :: path
  rd_provider :: "'s DecisionProvider"
  rd_apiUrl :: string
  rd_repositories :: "string list"
  rd_credentialProvider :: ProviderKind
  rd_credentialApiUrl :: string
  rd_preparePinnedAgent :: "string \<Rightarrow> string \<Rightarrow> path \<Rightarrow> ('s, ConfigBundle \<times> path) io"
  rd_execution :: "string \<Rightarrow> ('s, string \<times> ExecutionSnapshot) io"
  rd_prepareWorkspace :: "ProviderRepository \<Rightarrow> TicketRef \<Rightarrow> string \<Rightarrow> (MigrationReceipt \<times> string) option \<Rightarrow> ('s, string) io"
  rd_createSession :: "string \<Rightarrow> string \<Rightarrow> ProviderTicketSnapshot \<Rightarrow> ControlState \<Rightarrow> AttemptMode \<Rightarrow> MigrationReceipt option
     \<Rightarrow> ('s, AttemptSession) io"
  rd_compileAgent :: "string \<Rightarrow> path \<Rightarrow> HarnessTarget \<Rightarrow> path \<Rightarrow> ('s, CompiledAgent) io"
  rd_harness :: "HarnessTarget \<Rightarrow> (HarnessTarget \<times> (HarnessRun \<Rightarrow> 's \<Rightarrow> HarnessEnd \<times> 's)) option"
  rd_writeControl :: "TicketRef \<Rightarrow> ControlState option \<Rightarrow> ControlState \<Rightarrow> string list option \<Rightarrow> ('s, ControlState) io"
  rd_verifyDecision :: "path \<Rightarrow> DecisionExpectation \<Rightarrow> bool \<Rightarrow> ('s, AgentReceipt) io"
  rd_archiveReceipt :: "path \<Rightarrow> AgentReceipt \<Rightarrow> ('s, unit) io"
  rd_delay :: "int \<Rightarrow> ('s, unit) io"
  rd_now :: "('s, string) io"
  rd_newId :: "('s, string) io"
  rd_prepared :: PrepEnv
  rd_controlSchema :: "ControlState \<Rightarrow> bool"
  rd_receiptSchema :: "AgentReceipt \<Rightarrow> bool"

datatype run_event = Persisted ControlState | Ran string | Verified AgentReceipt

record 's rworld =
  rw_env :: 's
  rw_attemptId :: "string option"
  rw_control :: ControlState
  rw_launched :: bool
  rw_ready :: bool
  rw_terminating :: bool
  rw_sessionRoot :: "path option"
  rw_usage :: "AttemptUsage option"
  rw_ended :: bool
  rw_archived :: bool
  rw_log :: "run_event list"

section \<open>The world of a run\<close>

definition envM :: "('s, 'a) io \<Rightarrow> ('s rworld, 'a) io" where
  "envM op w = (case op (rw_env w) of (r, s) \<Rightarrow> (r, w \<lparr> rw_env := s \<rparr>))"

definition modM :: "('s \<Rightarrow> 's) \<Rightarrow> ('s, unit) io" where
  "modM f s = (ok (), f s)"

definition logM :: "run_event \<Rightarrow> ('s rworld, unit) io" where
  "logM e = modM (\<lambda>w. w \<lparr> rw_log := rw_log w @ [e] \<rparr>)"

definition cancelledM :: "'s RunnerDeps \<Rightarrow> ('s rworld, bool) io" where
  "cancelledM d = getM (\<lambda>w. rd_cancelled d (rw_env w))"

definition resolveReady :: "('s rworld, unit) io" where
  "resolveReady = modM (\<lambda>w. w \<lparr> rw_ready := True \<rparr>)"

definition attemptErr :: "string \<Rightarrow> string \<Rightarrow> bool \<Rightarrow> 'a res" where
  "attemptErr c m r = Inl (AttemptError c m r)"

definition attemptCheck :: "bool \<Rightarrow> string \<Rightarrow> string \<Rightarrow> bool \<Rightarrow> unit res" where
  "attemptCheck b c m r = (if b then attemptErr c m r else ok ())"

text \<open>An operation whose errors are dropped.\<close>

definition quietM :: "('s, unit) io \<Rightarrow> ('s, unit) io" where
  "quietM op = tryM op (\<lambda>_. retM ())"

section \<open>The request\<close>

definition selectedState :: "ConfigBundle \<Rightarrow> ControlState \<Rightarrow> FlowState option" where
  "selectedState b c =
    (if cs_stateId c \<noteq> ''needs-human'' then state_of (cb_flow b) (cs_stateId c)
     else (case cs_resumeStateId c of None \<Rightarrow> None | Some r \<Rightarrow> if r = [] then None else state_of (cb_flow b) r))"

definition assertModeContract :: "AttemptRequest \<Rightarrow> unit res" where
  "assertModeContract q =
    (if cs_stateId (rq_control q) = ''needs-human'' then
       (if cs_resumeStateId (rq_control q) \<in> {None, Some []}
        then attemptErr ''CONFIGURATION_INVALID'' ''paused attempt has no resume state'' False
        else if rq_mode q = MHumanInput
        then attemptCheck (rq_sourceComment q = None \<or> rq_resultContract q \<noteq> RHumanGate)
               ''CONFIGURATION_INVALID'' ''human input attempt contract is invalid'' False
        else attemptCheck (rq_sourceComment q \<noteq> None \<or> Some (rq_resultContract q) \<noteq> fs_resultContract (rq_state q))
               ''CONFIGURATION_INVALID'' ''paused stage attempt contract is invalid'' False)
     else if fs_kind (rq_state q) = KHumanGate
     then attemptCheck (rq_mode q \<noteq> MHumanInput \<or> rq_sourceComment q = None \<or> rq_resultContract q \<noteq> RHumanGate)
            ''CONFIGURATION_INVALID'' ''human gate attempt contract is invalid'' False
     else attemptCheck (rq_mode q \<noteq> MStage \<or> rq_sourceComment q \<noteq> None \<or> Some (rq_resultContract q) \<noteq> fs_resultContract (rq_state q))
            ''CONFIGURATION_INVALID'' ''agent stage attempt contract is invalid'' False)"

definition safePackageDirectory :: "ConfigBundle \<Rightarrow> string \<Rightarrow> path res" where
  "safePackageDirectory b package =
    (let candidate = resolve_path (cb_root b) package; child = relative_path (cb_root b) candidate
     in bindR (attemptCheck (child = [] \<or> starts_with child ''..'' \<or> starts_with child ''/'')
            ''AGENT_PACKAGE_INVALID'' ''agent package path is invalid'' False) (\<lambda>_. ok candidate))"

text \<open>The identity of the ticket in the request and its snapshot, and the pinned configuration. States are compared by value.\<close>

definition ticketMismatch :: "'s RunnerDeps \<Rightarrow> AttemptRequest \<Rightarrow> bool" where
  "ticketMismatch d q \<longleftrightarrow> (let ref = rq_ref q; sn = rq_snapshot q in
     pv_kind (rd_provider d) \<noteq> tr_provider ref \<or> tr_provider (sn_ref sn) \<noteq> tr_provider ref
     \<or> tr_repository (sn_ref sn) \<noteq> tr_repository ref \<or> tr_number (sn_ref sn) \<noteq> tr_number ref
     \<or> pr_provider (sn_repository sn) \<noteq> tr_provider ref \<or> pr_name (sn_repository sn) \<noteq> tr_repository ref)"

definition configMismatch :: "AttemptRequest \<Rightarrow> bool" where
  "configMismatch q \<longleftrightarrow> (let b = rq_bundle q; c = rq_control q in
     cs_configRevision c \<noteq> cb_revision b \<or> cs_flowId c \<noteq> fd_id (cb_flow b) \<or> rq_stateId q \<noteq> cs_stateId c
     \<or> selectedState b c \<noteq> Some (rq_state q) \<or> fs_agent (rq_state q) \<noteq> Some (rq_agentId q))"

definition validateRequest :: "'s RunnerDeps \<Rightarrow> AttemptRequest \<Rightarrow> path res" where
  "validateRequest d q =
    bindR (checkR (\<not> rd_controlSchema d (rq_control q)) ''ControlState validation failed'') (\<lambda>_.
    bindR (attemptCheck (ticketMismatch d q) ''TICKET_IDENTITY_INVALID'' ''ticket identity does not match'' False) (\<lambda>_.
    bindR (attemptCheck (configMismatch q) ''CONFIGURATION_INVALID'' ''attempt does not match pinned configuration'' False) (\<lambda>_.
    bindR (attemptCheck (\<not> sn_open (rq_snapshot q) \<or> \<not> av_present (sn_activation (rq_snapshot q)) \<or> fs_kind (rq_state q) = KFinal)
      ''FLOW_NOT_ACTIVE'' ''flow is not active'' False) (\<lambda>_.
    bindR (attemptCheck (tr_repository (rq_ref q) \<notin> set (rd_repositories d))
      ''REPOSITORY_NOT_ALLOWED'' ''repository is not allowlisted'' False) (\<lambda>_.
    bindR (attemptCheck (rd_credentialProvider d \<noteq> tr_provider (rq_ref q) \<or> rd_credentialApiUrl d \<noteq> rd_apiUrl d)
      ''PROVIDER_CREDENTIAL_INVALID'' ''provider credential does not match'' False) (\<lambda>_.
    (case map_of (ac_agents (cb_catalog (rq_bundle q))) (rq_agentId q) of
       None \<Rightarrow> attemptErr ''AGENT_NOT_CONFIGURED'' ''agent is not configured'' False
     | Some package \<Rightarrow> bindR (assertModeContract q) (\<lambda>_. safePackageDirectory (rq_bundle q) package))))))))"

definition matchingSeries :: "AttemptSeries option \<Rightarrow> AttemptRequest \<Rightarrow> bool" where
  "matchingSeries series q = opt_is (\<lambda>x. as_agentId x = rq_agentId q \<and> as_stateId x = rq_stateId q
     \<and> as_inputRevision x = rq_inputRevision q) series"

definition series_status :: "AttemptSeries \<Rightarrow> AttemptStatus option" where
  "series_status x = map_option at_status (as_current x)"

definition shouldNotStart :: "AttemptRequest \<Rightarrow> int \<Rightarrow> bool res" where
  "shouldNotStart q maxAttempts =
    (if \<not> matchingSeries (cs_attemptSeries (rq_control q)) q then ok False
     else (case cs_attemptSeries (rq_control q) of None \<Rightarrow> ok False
       | Some x \<Rightarrow> bindR (attemptCheck (as_maxAttempts x \<noteq> maxAttempts)
             ''RETRY_POLICY_MISMATCH'' ''persisted retry policy does not match configuration'' False) (\<lambda>_.
           ok (series_status x = Some AttSucceeded \<or> series_status x = Some AttCancelled))))"

definition newSeries :: "AttemptRequest \<Rightarrow> string \<times> ExecutionSnapshot \<Rightarrow> string \<Rightarrow> AttemptSeries" where
  "newSeries q binding seriesId = \<lparr> as_seriesId = seriesId, as_agentId = rq_agentId q, as_stateId = rq_stateId q,
     as_inputRevision = rq_inputRevision q, as_runtimeDigest = Some (fst binding), as_executionSnapshot = Some (snd binding),
     as_maxAttempts = ex_maxAttempts (snd binding), as_consumed = 0, as_current = None \<rparr>"

section \<open>What an attempt is checked against\<close>

definition pinnedAttemptChange :: "AttemptRequest \<Rightarrow> NormalizedChangeRequest option res" where
  "pinnedAttemptChange q =
    (case sn_changeRequest (rq_snapshot q) of
       None \<Rightarrow> ok None
     | Some observed \<Rightarrow>
        if rq_resultContract q \<noteq> RDocumentation then ok (Some observed)
        else (case cs_changeRequest (rq_control q) of
            None \<Rightarrow> attemptErr ''DOCUMENTATION_INPUT_UNAVAILABLE'' ''documentation implementation boundary is unavailable'' False
          | Some i \<Rightarrow>
              if ccr_provider i \<noteq> nc_provider observed \<or> ccr_repository i \<noteq> nc_repository observed
                 \<or> ccr_number i \<noteq> nc_number observed \<or> ccr_url i \<noteq> nc_url observed
              then attemptErr ''DOCUMENTATION_INPUT_UNAVAILABLE'' ''documentation implementation boundary is unavailable'' False
              else ok (Some (observed \<lparr> nc_headSha := ccr_headSha i \<rparr>))))"

text \<open>The comments of an earlier attempt that may be used again: of this controller and configuration, and no part of the baseline.\<close>

definition reusableComment :: "AttemptRequest \<Rightarrow> ControlState \<Rightarrow> ProviderComment \<Rightarrow> bool res" where
  "reusableComment q control c =
    (case parsePublication (pc_body c) of
       PCurrent m \<Rightarrow>
         if pm_config m = cs_configRevision control \<and> pm_controller m = rq_controllerId q
         then bindR (existsR (\<lambda>key. names_key key ''comment'' (pc_id c)) (rq_publicationKeys q)) (\<lambda>b. ok (\<not> b))
         else ok False
     | _ \<Rightarrow> ok False)"

definition expectedDecision :: "AttemptRequest \<Rightarrow> ControlState \<Rightarrow> Attempt \<Rightarrow> DecisionExpectation res" where
  "expectedDecision q control attempt =
    bindR (filterR (reusableComment q control) (sn_comments (rq_snapshot q))) (\<lambda>reusable.
    bindR (pinnedAttemptChange q) (\<lambda>pinned.
      ok \<lparr> de_migration = map_option rm_receipt (rq_migration q), de_flow = cb_flow (rq_bundle q), de_stateId = rq_stateId q,
        de_mode = rq_mode q, de_resultContract = rq_resultContract q, de_configRevision = cs_configRevision control,
        de_activationLabel = Some (opt_or (cs_activationLabel control) (fd_activationLabel (cb_flow (rq_bundle q)))),
        de_activatedAt = Some (cs_activatedAt control), de_controllerId = rq_controllerId q,
        de_publicationKeys = rq_publicationKeys q, de_reusableCommentIds = map pc_id reusable,
        de_flowInstanceId = cs_flowInstanceId control, de_attemptId = at_attemptId attempt, de_ticket = rq_ref q,
        de_sourceComment = rq_sourceComment q, de_pinned = pinned \<rparr>))"

definition controlGate :: "AttemptRequest \<Rightarrow> AgentReceipt \<Rightarrow> ReceiptHumanGate \<Rightarrow> ControlHumanGate res" where
  "controlGate q r g =
    (case rq_sourceComment q of
       None \<Rightarrow> attemptErr ''HUMAN_GATE_INVALID'' ''verified human gate has no source comment'' False
     | Some c \<Rightarrow> ok \<lparr> chg_sourceCommentId = rhg_sourceCommentId g, chg_actor = pc_actor c, chg_verdict = rhg_verdict g,
         chg_interpretedByAttemptId = ar_attemptId r, chg_notes = rhg_notes g \<rparr>)"

definition artifact_change :: "ReceiptArtifact \<Rightarrow> ReceiptChangeRequest option" where
  "artifact_change a = (case a of ArtChangeRequest c \<Rightarrow> Some c | _ \<Rightarrow> None)"

definition receiptChangeRequest :: "AttemptRequest \<Rightarrow> AgentReceipt \<Rightarrow> ControlChangeRequest option" where
  "receiptChangeRequest q r =
    (case List.map_filter artifact_change (ar_artifacts r) of
       [] \<Rightarrow> None
     | c # _ \<Rightarrow> Some \<lparr> ccr_provider = tr_provider (rq_ref q), ccr_repository = tr_repository (rq_ref q), ccr_number = rcr_number c,
         ccr_url = rcr_url c, ccr_headSha = rcr_headSha c, ccr_state = rcr_state c \<rparr>)"

definition successPatch :: "AttemptRequest \<Rightarrow> ControlState \<Rightarrow> AttemptSeries \<Rightarrow> AgentReceipt \<Rightarrow> ControlStatePatch res" where
  "successPatch q control series r =
    bindR (case ar_humanGate r of None \<Rightarrow> ok (cs_humanGate control)
           | Some g \<Rightarrow> bindR (controlGate q r g) (\<lambda>c. ok (Some c))) (\<lambda>gate.
      ok (no_patch \<lparr> cp_attemptSeries := Some (Some series), cp_latestReceipt := Some (Some r), cp_humanGate := Some gate,
        cp_changeRequest := Some (case receiptChangeRequest q r of None \<Rightarrow> cs_changeRequest control | Some c \<Rightarrow> Some c) \<rparr>))"

section \<open>Writing the control state\<close>

definition started_patch :: "ControlStatePatch \<Rightarrow> bool" where
  "started_patch p \<longleftrightarrow> (case cp_attemptSeries p of Some (Some x) \<Rightarrow> series_status x = Some Started | _ \<Rightarrow> False)"

definition persist ::
  "'s RunnerDeps \<Rightarrow> string \<Rightarrow> AttemptRequest \<Rightarrow> ControlState \<Rightarrow> ControlStatePatch \<Rightarrow> ('s rworld, ControlState) io" where
  "persist d timestamp q control patch =
    bindM (getM rw_control) (\<lambda>current.
     thenM (liftR (attemptCheck (cs_sequence current \<noteq> cs_sequence control)
        ''CONTROL_CONFLICT'' ''control state changed concurrently'' False))
    (bindM (liftR (advanceControlState (rd_controlSchema d) control patch timestamp)) (\<lambda>n.
     bindM (envM (writeControlCas (rd_writeControl d) (rq_ref q) (Some control) n
        (if started_patch patch then Some (rq_publicationKeys q) else None))) (\<lambda>readback.
      thenM (modM (\<lambda>w. w \<lparr> rw_control := readback \<rparr>)) (thenM (logM (Persisted readback)) (retM readback))))))"

definition nowM :: "'s RunnerDeps \<Rightarrow> ('s rworld, string) io" where
  "nowM d = envM (rd_now d)"

definition series_patch :: "AttemptSeries \<Rightarrow> AgentReceipt option \<Rightarrow> ControlStatePatch" where
  "series_patch x receipt = no_patch \<lparr> cp_attemptSeries := Some (Some x), cp_latestReceipt := map_option Some receipt \<rparr>"

definition persistSeries ::
  "'s RunnerDeps \<Rightarrow> AttemptRequest \<Rightarrow> ControlState \<Rightarrow> AttemptSeries \<Rightarrow> AgentReceipt option \<Rightarrow> ('s rworld, ControlState) io" where
  "persistSeries d q control x receipt = bindM (nowM d) (\<lambda>ts. persist d ts q control (series_patch x receipt))"

definition failed_attempt :: "Attempt \<Rightarrow> string \<Rightarrow> ReceiptError \<Rightarrow> Attempt" where
  "failed_attempt a ts e = a \<lparr> at_status := AttFailed, at_finishedAt := Some ts, at_error := Some e \<rparr>"

definition persistBlocked ::
  "'s RunnerDeps \<Rightarrow> AttemptRequest \<Rightarrow> ControlState \<Rightarrow> AttemptSeries \<Rightarrow> ReceiptError \<Rightarrow> AgentReceipt option \<Rightarrow> ('s rworld, unit) io" where
  "persistBlocked d q control x e receipt =
    bindM (nowM d) (\<lambda>ts.
     (let failed = (case as_current x of None \<Rightarrow> None
            | Some a \<Rightarrow> Some (if at_status a = AttFailed then a else failed_attempt a ts e))
      in bindM (persist d ts q control (series_patch (x \<lparr> as_current := failed \<rparr>) receipt
            \<lparr> cp_stateId := Some ''blocked'', cp_resumeStateId := Some (Some (rq_stateId q)) \<rparr>)) (\<lambda>_. retM ())))"

text \<open>A failed attempt: blocked when another one makes no sense or the budget is used up, or the state from which the next one starts.\<close>

definition recordFailure ::
  "'s RunnerDeps \<Rightarrow> AttemptRequest \<Rightarrow> ControlState \<Rightarrow> AttemptSeries \<Rightarrow> err \<Rightarrow> Attempt \<Rightarrow> AgentReceipt option
     \<Rightarrow> ('s rworld, (ControlState \<times> AttemptSeries) option) io" where
  "recordFailure d q control x e attempt failure =
    bindM (nowM d) (\<lambda>ts.
     (let failedSeries = x \<lparr> as_current := Some (failed_attempt attempt ts (controlError e)) \<rparr>
      in if \<not> retryable e \<or> as_maxAttempts failedSeries \<le> as_consumed failedSeries
         then thenM (persistBlocked d q control failedSeries (controlError e) failure) (retM None)
         else bindM (persistSeries d q control failedSeries failure) (\<lambda>c. retM (Some (c, failedSeries)))))"

section \<open>The result of an attempt\<close>

definition failedReceipt :: "ControlState \<Rightarrow> Attempt \<Rightarrow> ReceiptError \<Rightarrow> AttemptUsage option \<Rightarrow> AgentReceipt" where
  "failedReceipt control attempt e usage = \<lparr> ar_flowInstanceId = cs_flowInstanceId control, ar_attemptId = at_attemptId attempt,
     ar_outcome = Failed, ar_summary = ''Agent attempt did not complete successfully.'', ar_artifacts = [], ar_humanGate = None,
     ar_error = Some e, ar_usage = usage \<rparr>"

definition cancelled_error :: ReceiptError where
  "cancelled_error = \<lparr> re_code = ''ATTEMPT_CANCELLED'', re_message = ''Attempt was cancelled.'' \<rparr>"

definition retainCancelled :: "'s RunnerDeps \<Rightarrow> path \<Rightarrow> ControlState \<Rightarrow> Attempt \<Rightarrow> AttemptUsage option \<Rightarrow> ('s rworld, unit) io" where
  "retainCancelled d rt control attempt usage =
    quietM (envM (rd_archiveReceipt d rt ((failedReceipt control attempt cancelled_error usage)
      \<lparr> ar_summary := ''Agent attempt was cancelled.'' \<rparr>)))"

definition preparedProtocol :: "AttemptRequest \<Rightarrow> bool" where
  "preparedProtocol q = sd_preparedPublication (cb_stack (rq_bundle q))"

text \<open>
  The delivery of a prepared publication: what it was frozen with and its usage, or that the result stays pending or
  cancelled. The diagnostics of pending results are no part of the model.
\<close>

datatype Delivery = Settled | Delivered DecisionExpectation "AttemptUsage option" bool

definition deliverPrepared ::
  "('a fsys_scheme) RunnerDeps \<Rightarrow> path \<Rightarrow> ControlState \<Rightarrow> Attempt \<Rightarrow> AttemptUsage option \<Rightarrow> DecisionExpectation
     \<Rightarrow> (('a fsys_scheme) rworld, Delivery) io" where
  "deliverPrepared d rt control attempt usage expected =
    bindM (envM (readPreparedPublication (rd_prepared d) rt expected)) (\<lambda>retained.
     (let x = expected \<lparr> de_publicationKeys := pp_publicationKeys retained, de_reusableCommentIds := pp_reusableCommentIds retained \<rparr>
      in tryM (bindM (envM (deliverPreparedPublication (rd_prepared d) rt x (rd_provider d) (\<lambda>s. \<not> rd_cancelled d s))) (\<lambda>u.
             retM (Delivered x u (pp_body retained \<noteq> None))))
          (\<lambda>e. case e of
             InvalidDecisionError m \<Rightarrow> throwM e
           | ProviderHttpError False st \<Rightarrow> throwM e
           | _ \<Rightarrow> bindM (cancelledM d) (\<lambda>c. thenM (whenM c (retainCancelled d rt control attempt usage)) (retM Settled)))))"

definition finishVerified ::
  "'s RunnerDeps \<Rightarrow> AttemptRequest \<Rightarrow> path \<Rightarrow> ControlState \<Rightarrow> AttemptSeries \<Rightarrow> Attempt \<Rightarrow> AgentReceipt \<Rightarrow> ('s rworld, unit) io" where
  "finishVerified d q rt control x attempt receipt =
    thenM (checkM (\<not> rd_receiptSchema d receipt) ''AgentReceipt validation failed'')
   (thenM (quietM (envM (rd_archiveReceipt d rt receipt)))
   (bindM (cancelledM d) (\<lambda>c.
    if c then retM ()
    else bindM (nowM d) (\<lambda>finished.
     (let series = x \<lparr> as_current := Some (attempt \<lparr> at_status := AttSucceeded, at_finishedAt := Some finished \<rparr>) \<rparr>
      in tryM (bindM (nowM d) (\<lambda>ts. bindM (liftR (successPatch q control series receipt)) (\<lambda>patch.
              bindM (persist d ts q control patch) (\<lambda>_. retM ()))))
           (\<lambda>e. if preparedProtocol q then retM () else throwM e))))))"

definition verifyAttempt ::
  "'s RunnerDeps \<Rightarrow> AttemptRequest \<Rightarrow> path \<Rightarrow> ControlState \<Rightarrow> AttemptSeries \<Rightarrow> Attempt \<Rightarrow> DecisionExpectation
     \<Rightarrow> AttemptUsage option \<Rightarrow> bool \<Rightarrow> ('s rworld, unit) io" where
  "verifyAttempt d q rt control x attempt expected usage hasComment =
    bindM (cancelledM d) (\<lambda>c.
    if c then retainCancelled d rt control attempt usage
    else bindM (tryM (bindM (envM (rd_verifyDecision d rt expected c)) (\<lambda>r. thenM (logM (Verified r)) (retM (Some r))))
            (\<lambda>e. if hasComment \<and> e = DecisionReadbackError then retM None else throwM e)) (\<lambda>verified.
      (case verified of None \<Rightarrow> retM ()
       | Some r \<Rightarrow> bindM (cancelledM d) (\<lambda>c.
           if c then retainCancelled d rt control attempt usage
           else finishVerified d q rt control x attempt (if usage = None then r else r \<lparr> ar_usage := usage \<rparr>)))))"

definition finishAttempt ::
  "('a fsys_scheme) RunnerDeps \<Rightarrow> AttemptRequest \<Rightarrow> path \<Rightarrow> ControlState \<Rightarrow> AttemptSeries \<Rightarrow> Attempt \<Rightarrow> AttemptUsage option
     \<Rightarrow> (('a fsys_scheme) rworld, unit) io" where
  "finishAttempt d q rt control x attempt usage =
    bindM (liftR (expectedDecision q control attempt)) (\<lambda>expected.
     if preparedProtocol q
     then bindM (deliverPrepared d rt control attempt usage expected) (\<lambda>delivery.
        (case delivery of Settled \<Rightarrow> retM ()
         | Delivered e u p \<Rightarrow> verifyAttempt d q rt control x attempt e u p))
     else verifyAttempt d q rt control x attempt expected usage False)"

section \<open>Before the attempts\<close>

text \<open>A part of the series either ends it or leaves the control state and the series from which it goes on.\<close>

datatype Progress = Halt | GoOn ControlState AttemptSeries

definition session_root :: "'s RunnerDeps \<Rightarrow> ControlState \<Rightarrow> Attempt \<Rightarrow> path" where
  "session_root d control a = normalize_segs (rd_dataDirectory d)
     (''sessions'' # split_char (CHR ''/'') (cs_flowInstanceId control) @ split_char (CHR ''/'') (at_attemptId a))"

definition cancellableDelay :: "'s RunnerDeps \<Rightarrow> ExecutionSnapshot \<Rightarrow> ('s rworld, unit) io" where
  "cancellableDelay d ex = bindM (cancelledM d) (\<lambda>c. whenM (\<not> c) (envM (rd_delay d (ex_delaySeconds ex * 1000))))"

definition delayed :: "'s RunnerDeps \<Rightarrow> ExecutionSnapshot \<Rightarrow> ControlState \<Rightarrow> AttemptSeries \<Rightarrow> ('s rworld, Progress) io" where
  "delayed d ex control x = thenM (cancellableDelay d ex) (bindM (cancelledM d) (\<lambda>c. retM (if c then Halt else GoOn control x)))"

definition bindSeries ::
  "'s RunnerDeps \<Rightarrow> AttemptRequest \<Rightarrow> string \<times> ExecutionSnapshot \<Rightarrow> ('s rworld, ControlState \<times> AttemptSeries) io" where
  "bindSeries d q binding =
    bindM (case cs_attemptSeries (rq_control q) of
        Some x \<Rightarrow> if matchingSeries (Some x) q then retM x else bindM (envM (rd_newId d)) (\<lambda>i. retM (newSeries q binding i))
      | None \<Rightarrow> bindM (envM (rd_newId d)) (\<lambda>i. retM (newSeries q binding i))) (\<lambda>x.
     if as_runtimeDigest x \<in> {None, Some []} \<or> as_executionSnapshot x = None
     then (let bound = x \<lparr> as_runtimeDigest := Some (fst binding), as_executionSnapshot := Some (snd binding) \<rparr>
       in bindM (persistSeries d q (rq_control q) bound None) (\<lambda>c. retM (c, bound)))
     else retM (rq_control q, x))"

text \<open>A completed result that is still frozen is delivered without running the model again.\<close>

definition readRetained ::
  "('a fsys_scheme) RunnerDeps \<Rightarrow> AttemptRequest \<Rightarrow> path \<Rightarrow> ControlState \<Rightarrow> Attempt
     \<Rightarrow> (('a fsys_scheme) rworld, PreparedPublication option option) io" where
  "readRetained d q rt control attempt =
    tryM (bindM (liftR (expectedDecision q control attempt)) (\<lambda>expected.
          bindM (envM (readPreparedPublication (rd_prepared d) rt expected)) (\<lambda>p. retM (Some (Some p)))))
      (\<lambda>e. retM (if e = FileMissing then Some None else None))"

definition resumePrepared ::
  "('a fsys_scheme) RunnerDeps \<Rightarrow> AttemptRequest \<Rightarrow> ControlState \<Rightarrow> AttemptSeries \<Rightarrow> (('a fsys_scheme) rworld, Progress) io" where
  "resumePrepared d q control x =
    (case as_current x of None \<Rightarrow> retM (GoOn control x)
     | Some attempt \<Rightarrow>
        if \<not> preparedProtocol q \<or> at_status attempt \<noteq> Started then retM (GoOn control x)
        else (let rt = session_root d control attempt in
          bindM (readRetained d q rt control attempt) (\<lambda>retained.
          (case retained of None \<Rightarrow> retM Halt
           | Some None \<Rightarrow> retM (GoOn control x)
           | Some (Some p) \<Rightarrow>
              thenM (modM (\<lambda>w. w \<lparr> rw_attemptId := Some (at_attemptId attempt) \<rparr>))
             (thenM resolveReady
               (tryM (thenM (finishAttempt d q rt control x attempt (pp_usage p)) (retM Halt))
                 (\<lambda>e. bindM (cancelledM d) (\<lambda>c.
                   if c then thenM (retainCancelled d rt control attempt (pp_usage p)) (retM Halt)
                   else (let failure = failedReceipt control attempt (controlError e) (pp_usage p) in
                     thenM (quietM (envM (rd_archiveReceipt d rt failure)))
                    (bindM (recordFailure d q control x e attempt (Some failure)) (\<lambda>next_series.
                      (case next_series of None \<Rightarrow> retM Halt | Some (control', x') \<Rightarrow> retM (GoOn control' x')))))))))))))"

definition restarted_error :: ReceiptError where
  "restarted_error = \<lparr> re_code = ''CONTROLLER_RESTARTED'', re_message = ''attempt was interrupted by a controller restart'' \<rparr>"

definition exhausted_error :: ReceiptError where
  "exhausted_error = \<lparr> re_code = ''ATTEMPT_BUDGET_EXHAUSTED'', re_message = ''attempt retry budget exhausted'' \<rparr>"

text \<open>An attempt that a restart interrupted has failed.\<close>

definition resumeInterrupted ::
  "'s RunnerDeps \<Rightarrow> AttemptRequest \<Rightarrow> ExecutionSnapshot \<Rightarrow> ControlState \<Rightarrow> AttemptSeries \<Rightarrow> ('s rworld, Progress) io" where
  "resumeInterrupted d q ex control x =
    (case as_current x of None \<Rightarrow> retM (GoOn control x)
     | Some a \<Rightarrow>
        if at_status a = Started then
          bindM (nowM d) (\<lambda>ts. (let interrupted = x \<lparr> as_current := Some (failed_attempt a ts restarted_error) \<rparr> in
           if as_maxAttempts interrupted \<le> as_consumed interrupted
           then thenM (persistBlocked d q control interrupted restarted_error None) (thenM resolveReady (retM Halt))
           else bindM (persistSeries d q control interrupted None) (\<lambda>c.
             thenM resolveReady (delayed d ex c interrupted))))
        else if at_status a = AttFailed \<and> as_consumed x < as_maxAttempts x
        then thenM resolveReady (delayed d ex control x)
        else retM (GoOn control x))"

definition blockExhausted ::
  "'s RunnerDeps \<Rightarrow> AttemptRequest \<Rightarrow> ControlState \<Rightarrow> AttemptSeries \<Rightarrow> ('s rworld, Progress) io" where
  "blockExhausted d q control x =
    (case as_current x of
       Some a \<Rightarrow> if at_status a = AttFailed \<and> as_maxAttempts x \<le> as_consumed x
         then thenM (persistBlocked d q control x (opt_or (at_error a) exhausted_error) None) (thenM resolveReady (retM Halt))
         else retM (GoOn control x)
     | None \<Rightarrow> retM (GoOn control x))"

section \<open>One attempt\<close>

definition assertCurrent :: "'s RunnerDeps \<Rightarrow> AttemptSeries \<Rightarrow> Attempt \<Rightarrow> ('s rworld, unit) io" where
  "assertCurrent d x a = bindM (cancelledM d) (\<lambda>c. bindM (getM rw_attemptId) (\<lambda>i.
     liftR (attemptCheck (c \<or> i \<noteq> Some (at_attemptId a) \<or> map_option at_attemptId (as_current x) \<noteq> Some (at_attemptId a))
       ''ATTEMPT_CANCELLED'' ''attempt was cancelled'' False)))"

definition archiveM :: "'s RunnerDeps \<Rightarrow> path \<Rightarrow> AgentReceipt \<Rightarrow> ('s rworld, unit) io" where
  "archiveM d rt r = thenM (modM (\<lambda>w. w \<lparr> rw_archived := True \<rparr>)) (quietM (envM (rd_archiveReceipt d rt r)))"

definition excluded_key :: "string \<Rightarrow> string \<Rightarrow> string list res" where
  "excluded_key kind key = (case json_parse key of None \<Rightarrow> fail ''SyntaxError''
     | Some v \<Rightarrow> if v = JNull then fail ''TypeError''
         else ok (if json_at v 3 = Some (JStr kind) then (case json_at v 4 of Some (JStr i) \<Rightarrow> [i] | _ \<Rightarrow> []) else []))"

definition excludedIds :: "AttemptRequest \<Rightarrow> string \<Rightarrow> string list res" where
  "excludedIds q kind = bindR (mapR (excluded_key kind) (rq_publicationKeys q)) (\<lambda>xs. ok (concat xs))"

definition failure_code :: "AttemptSeries \<Rightarrow> string option" where
  "failure_code x = (case as_current x of None \<Rightarrow> None
     | Some a \<Rightarrow> if at_status a = AttFailed then map_option re_code (at_error a) else None)"

definition attemptPrompt ::
  "AttemptRequest \<Rightarrow> ControlState \<Rightarrow> AttemptSession \<Rightarrow> string option \<Rightarrow> string res" where
  "attemptPrompt q control session prev =
    bindR (pinnedAttemptChange q) (\<lambda>change.
    bindR (excludedIds q ''comment'') (\<lambda>comments.
    bindR (excludedIds q ''review'') (\<lambda>reviews.
      renderRuntimePrompt \<lparr> ri_migration = map_option rm_receipt (rq_migration q), ri_flow = cb_flow (rq_bundle q),
        ri_stateId = rq_stateId q, ri_mode = rq_mode q, ri_resultContract = rq_resultContract q,
        ri_configRevision = cs_configRevision control, ri_controllerId = rq_controllerId q,
        ri_contextPath = path_str (ses_contextPath session), ri_decisionPath = path_str (ses_decisionPath session), ri_ticket = rq_ref q,
        ri_change = change, ri_sourceComment = rq_sourceComment q, ri_excludedCommentIds = comments,
        ri_excludedReviewIds = reviews,
        ri_preparedCommentPath = (if preparedProtocol q then Some (path_str (ses_root session @ [''prepared-comment.txt''])) else None),
        ri_previousFailureCode = prev \<rparr>)))"

definition carriedHead :: "AttemptRequest \<Rightarrow> (MigrationReceipt \<times> string) option res" where
  "carriedHead q = (case rq_migration q of None \<Rightarrow> ok None
     | Some m \<Rightarrow> (case sn_changeRequest (rq_snapshot q) of None \<Rightarrow> fail ''TypeError''
         | Some c \<Rightarrow> ok (Some (rm_receipt m, nc_headSha c))))"

definition assertCompiled :: "CompiledAgent \<Rightarrow> string \<Rightarrow> HarnessTarget \<Rightarrow> unit res" where
  "assertCompiled c agentId target = attemptCheck (ca_agentId c \<noteq> agentId \<or> ca_target c \<noteq> target)
     ''APM_OUTPUT_INVALID'' ''compiled agent does not match the catalog'' False"

definition configuredHarness ::
  "'s RunnerDeps \<Rightarrow> HarnessTarget \<Rightarrow> (HarnessRun \<Rightarrow> 's \<Rightarrow> HarnessEnd \<times> 's) res" where
  "configuredHarness d t = (case rd_harness d t of
     Some (u, run) \<Rightarrow> if u = t then ok run else attemptErr ''HARNESS_NOT_CONFIGURED'' ''configured harness is unavailable'' False
   | None \<Rightarrow> attemptErr ''HARNESS_NOT_CONFIGURED'' ''configured harness is unavailable'' False)"

text \<open>The workspace, the session, the pinned agent and the prompt of an attempt; what the harness is run with.\<close>

definition prepareAttempt ::
  "'s RunnerDeps \<Rightarrow> AttemptRequest \<Rightarrow> ExecutionSnapshot \<Rightarrow> ControlState \<Rightarrow> AttemptSeries \<Rightarrow> Attempt \<Rightarrow> string option
     \<Rightarrow> ('s rworld, HarnessRun \<times> (HarnessRun \<Rightarrow> 's \<Rightarrow> HarnessEnd \<times> 's)) io" where
  "prepareAttempt d q ex control x attempt prev =
    bindM (liftR (carriedHead q)) (\<lambda>carried.
    bindM (envM (rd_prepareWorkspace d (sn_repository (rq_snapshot q)) (rq_ref q) (cs_flowInstanceId control) carried)) (\<lambda>workspace.
     thenM (assertCurrent d x attempt)
    (bindM (envM (rd_createSession d (cs_flowInstanceId control) (at_attemptId attempt) (rq_snapshot q) control (rq_mode q)
        (map_option rm_receipt (rq_migration q)))) (\<lambda>session.
     thenM (modM (\<lambda>w. w \<lparr> rw_sessionRoot := Some (ses_root session) \<rparr>))
    (thenM (assertCurrent d x attempt)
    (bindM (envM (rd_preparePinnedAgent d (cs_configRevision control) (rq_agentId q) (ses_root session @ [''pinned-package'']))) (\<lambda>(bundle, package).
    bindM (liftR (case selectedState bundle control of
        None \<Rightarrow> attemptErr ''CONFIGURATION_INVALID'' ''attempt state is missing from pinned configuration'' False
      | Some st \<Rightarrow> validateRequest d (q \<lparr> rq_bundle := bundle, rq_state := st \<rparr>))) (\<lambda>_.
    bindM (envM (rd_compileAgent d (rq_agentId q) package (ex_harness ex) (ses_harnessSessionDirectory session))) (\<lambda>compiled.
     thenM (liftR (assertCompiled compiled (rq_agentId q) (ex_harness ex)))
    (bindM (liftR (configuredHarness d (ex_harness ex))) (\<lambda>run.
    bindM (liftR (attemptPrompt q control session prev)) (\<lambda>prompt.
     retM (\<lparr> hr_workspace = workspace, hr_session = session, hr_prompt = prompt, hr_execution = ex \<rparr>, run)))))))))))))"

text \<open>The harness runs: the attempt is launched, and at its end the usage is known.\<close>

definition awaitHarness ::
  "(HarnessRun \<Rightarrow> 's \<Rightarrow> HarnessEnd \<times> 's) \<Rightarrow> HarnessRun \<Rightarrow> ('s rworld, int option \<times> bool \<times> bool) io" where
  "awaitHarness run input w =
    (case run input (rw_env w) of
       (Ended usage exitCode signal timedOut, s) \<Rightarrow>
          (ok (exitCode, signal, timedOut), w \<lparr> rw_env := s, rw_ended := True, rw_usage := usage \<rparr>)
     | (Broke e usage, s) \<Rightarrow>
          (Inl e, w \<lparr> rw_env := s, rw_usage := (case e of HarnessProcessError r \<Rightarrow> usage | _ \<Rightarrow> rw_usage w) \<rparr>))"

definition runHarness ::
  "(HarnessRun \<Rightarrow> 's \<Rightarrow> HarnessEnd \<times> 's) \<Rightarrow> HarnessRun \<Rightarrow> Attempt \<Rightarrow> ('s rworld, int option \<times> bool \<times> bool) io" where
  "runHarness run input attempt =
    thenM (logM (Ran (at_attemptId attempt)))
   (thenM (modM (\<lambda>w. w \<lparr> rw_launched := True, rw_ready := True \<rparr>)) (awaitHarness run input))"

definition assertProcessResult :: "int option \<times> bool \<times> bool \<Rightarrow> unit res" where
  "assertProcessResult r = (case r of (exitCode, signal, timedOut) \<Rightarrow>
     bindR (attemptCheck timedOut ''HARNESS_TIMEOUT'' ''harness timed out'' True) (\<lambda>_.
       attemptCheck (exitCode \<noteq> Some 0 \<or> signal) ''HARNESS_EXIT_FAILED'' ''harness exited unsuccessfully'' True))"

definition attemptBody ::
  "('a fsys_scheme) RunnerDeps \<Rightarrow> AttemptRequest \<Rightarrow> ExecutionSnapshot \<Rightarrow> ControlState \<Rightarrow> AttemptSeries \<Rightarrow> Attempt \<Rightarrow> string option
     \<Rightarrow> (('a fsys_scheme) rworld, unit) io" where
  "attemptBody d q ex control x attempt prev =
    bindM (prepareAttempt d q ex control x attempt prev) (\<lambda>(input, run).
    bindM (runHarness run input attempt) (\<lambda>result.
    (let rt = ses_root (hr_session input) in
     bindM (getM rw_usage) (\<lambda>usage.
     bindM (cancelledM d) (\<lambda>c.
     if c then archiveM d rt (failedReceipt control attempt cancelled_error usage)
     else thenM (liftR (assertProcessResult result))
       (if preparedProtocol q
        then bindM (liftR (expectedDecision q control attempt)) (\<lambda>expected.
             thenM (envM (freezePreparedPublication (rd_prepared d) rt expected usage))
               (finishAttempt d q rt control x attempt usage))
        else thenM (finishAttempt d q rt control x attempt usage) (modM (\<lambda>w. w \<lparr> rw_archived := True \<rparr>))))))))"

text \<open>What an error of an attempt leads to. A run whose process may still live blocks everything else.\<close>

definition attemptFailed ::
  "'s RunnerDeps \<Rightarrow> AttemptRequest \<Rightarrow> ExecutionSnapshot \<Rightarrow> ControlState \<Rightarrow> AttemptSeries \<Rightarrow> Attempt \<Rightarrow> err \<Rightarrow> ('s rworld, Progress) io" where
  "attemptFailed d q ex control x attempt e =
    (if e = HarnessTerminationError then thenM (modM (\<lambda>w. w \<lparr> rw_terminating := True \<rparr>)) (retM Halt)
     else thenM (case e of HarnessProcessError r \<Rightarrow> modM (\<lambda>w. w \<lparr> rw_ended := True \<rparr>) | _ \<Rightarrow> retM ())
      (bindM (cancelledM d) (\<lambda>c. bindM (getM rw_usage) (\<lambda>usage. bindM (getM rw_ended) (\<lambda>ended.
        (let failure = failedReceipt control attempt (if c then cancelled_error else controlError e) usage in
         bindM (getM rw_sessionRoot) (\<lambda>rt. bindM (getM rw_archived) (\<lambda>archived.
          thenM (case rt of Some r \<Rightarrow> whenM (ended \<and> \<not> archived) (archiveM d r failure) | None \<Rightarrow> retM ())
         (bindM (cancelledM d) (\<lambda>c.
          if c then retM Halt
          else bindM (recordFailure d q control x e attempt (if ended then Some failure else None)) (\<lambda>next_series.
            (case next_series of
               None \<Rightarrow> bindM (getM rw_launched) (\<lambda>l. if l then retM Halt else throwM (classifyAttemptError e))
             | Some (control', x') \<Rightarrow> delayed d ex control' x'))))))))))))"

definition oneAttempt ::
  "('a fsys_scheme) RunnerDeps \<Rightarrow> AttemptRequest \<Rightarrow> ExecutionSnapshot \<Rightarrow> ControlState \<Rightarrow> AttemptSeries
     \<Rightarrow> (('a fsys_scheme) rworld, Progress) io" where
  "oneAttempt d q ex control x =
    bindM (cancelledM d) (\<lambda>c.
    if c then retM Halt
    else bindM (envM (rd_newId d)) (\<lambda>i. bindM (nowM d) (\<lambda>ts.
     (let attempt = \<lparr> at_attemptId = i, at_status = Started, at_startedAt = ts, at_finishedAt = None, at_error = None \<rparr>;
          x' = x \<lparr> as_consumed := as_consumed x + 1, as_current := Some attempt \<rparr>
      in thenM (modM (\<lambda>w. w \<lparr> rw_attemptId := Some i, rw_sessionRoot := None, rw_usage := None, rw_ended := False, rw_archived := False \<rparr>))
        (bindM (persistSeries d q control x' None) (\<lambda>control'.
         bindM (cancelledM d) (\<lambda>c.
         if c then retM Halt
         else tryM (thenM (attemptBody d q ex control' x' attempt (failure_code x)) (retM Halt))
           (attemptFailed d q ex control' x' attempt))))))))"

section \<open>The series\<close>

definition attempts_left :: "AttemptSeries \<Rightarrow> nat" where
  "attempts_left x = nat (as_maxAttempts x - as_consumed x)"

text \<open>A round that goes on has used one attempt of the series.\<close>

definition goes_on :: "AttemptSeries \<Rightarrow> Progress \<Rightarrow> bool" where
  "goes_on x p = (case p of Halt \<Rightarrow> True
     | GoOn c y \<Rightarrow> as_consumed y = as_consumed x \<and> as_maxAttempts y = as_maxAttempts x
         \<and> (series_status x \<noteq> Some AttSucceeded \<longrightarrow> series_status y \<noteq> Some AttSucceeded))"

lemma goes_halt [simp]: "goes_on x Halt" by (simp add: goes_on_def)

lemma goes_same [simp]: "goes_on x (GoOn c x)" by (simp add: goes_on_def)

lemma goes_failed [simp]:
  "goes_on x (GoOn c (x \<lparr> as_current := Some (failed_attempt a ts e) \<rparr>))"
  by (simp add: goes_on_def series_status_def failed_attempt_def)

lemma delayed_goes: "goes_on x (GoOn c y) \<Longrightarrow> returnsM (goes_on x) (delayed d ex c y)"
  unfolding delayed_def thenM_def by (intro returns_last returns_ret) simp

lemma recordFailure_goes:
  "returnsM (\<lambda>r. \<forall>c y. r = Some (c, y) \<longrightarrow> goes_on x (GoOn c y)) (recordFailure d q control x e a f)"
  unfolding recordFailure_def Let_def thenM_def by (intro returns_last returns_if returns_ret) simp_all

lemma attemptFailed_goes: "returnsM (goes_on x) (attemptFailed d q ex control x a e)"
proof -
  have "returnsM (goes_on x) (bindM (recordFailure d q control x e a f) (\<lambda>n. case n of
      None \<Rightarrow> bindM (getM rw_launched) (\<lambda>l. if l then retM Halt else throwM (classifyAttemptError e))
    | Some (c, y) \<Rightarrow> delayed d ex c y))" for f
    by (rule returns_bind [OF recordFailure_goes])
      (auto split: option.split intro!: returns_last returns_if returns_ret delayed_goes simp: returnsM_def [of _ "throwM _"] run_iff)
  note r = this
  show ?thesis unfolding attemptFailed_def Let_def thenM_def
    by (rule r | rule returns_if | rule returns_ret | rule goes_halt | rule returns_last)+
qed

definition used_one :: "AttemptSeries \<Rightarrow> AttemptSeries" where
  "used_one x = x \<lparr> as_consumed := as_consumed x + 1 \<rparr>"

lemma goes_used:
  "goes_on (x \<lparr> as_consumed := n, as_current := c \<rparr>) p \<Longrightarrow> series_status (x \<lparr> as_consumed := n, as_current := c \<rparr>) \<noteq> Some AttSucceeded
     \<Longrightarrow> (case p of Halt \<Rightarrow> True | GoOn c y \<Rightarrow> as_consumed y = n \<and> as_maxAttempts y = as_maxAttempts x
        \<and> series_status y \<noteq> Some AttSucceeded)"
  by (cases p) (auto simp: goes_on_def)

definition round_on :: "AttemptSeries \<Rightarrow> Progress \<Rightarrow> bool" where
  "round_on x p = (case p of Halt \<Rightarrow> True | GoOn c y \<Rightarrow> as_consumed y = as_consumed x + 1 \<and> as_maxAttempts y = as_maxAttempts x
     \<and> series_status y \<noteq> Some AttSucceeded)"

lemma returns_try: "returnsM Q m \<Longrightarrow> (\<And>e. returnsM Q (h e)) \<Longrightarrow> returnsM Q (tryM m h)"
  unfolding returnsM_def tryM_def by (fastforce split: prod.splits sum.splits)

lemma oneAttempt_round: "returnsM (round_on x) (oneAttempt d q ex control x)"
proof -
  have r: "returnsM (round_on x) (tryM (thenM (attemptBody d q ex control' y a prev) (retM Halt)) (attemptFailed d q ex control' y a))"
    if "y = x \<lparr> as_consumed := as_consumed x + 1, as_current := Some a \<rparr>" "at_status a = Started" for control' y a prev
    using that goes_used [where x = x and n = "as_consumed x + 1" and c = "Some a"]
    by (auto simp: thenM_def round_on_def series_status_def
        intro!: returns_try returns_last returns_ret returns_mono [OF attemptFailed_goes])
  show ?thesis unfolding oneAttempt_def Let_def thenM_def [of "modM _"]
    by (intro returns_last returns_if returns_ret r) (simp_all add: round_on_def)
qed

lemma attempts_left_round: "round_on x (GoOn c y) \<Longrightarrow> as_consumed x < as_maxAttempts x \<Longrightarrow> attempts_left x = Suc (attempts_left y)"
  by (simp add: round_on_def attempts_left_def)

text \<open>
  The loop: while the series has consumed fewer attempts than its maximum, another one. That it ends is a fact of the
  body: a round that goes on has counted its attempt.
\<close>

function attempts ::
  "('a fsys_scheme) RunnerDeps \<Rightarrow> AttemptRequest \<Rightarrow> ExecutionSnapshot \<Rightarrow> ControlState \<Rightarrow> AttemptSeries
     \<Rightarrow> (('a fsys_scheme) rworld, unit) io" where
  "attempts d q ex control x w =
    (if as_consumed x < as_maxAttempts x
     then (case oneAttempt d q ex control x w of
         (Inl e, w') \<Rightarrow> (Inl e, w')
       | (Inr Halt, w') \<Rightarrow> (ok (), w')
       | (Inr (GoOn control' x'), w') \<Rightarrow> attempts d q ex control' x' w')
     else (ok (), w))"
  by pat_completeness auto
termination
  by (relation "measure (\<lambda>(d, q, ex, control, x, w). attempts_left x)")
    (auto dest!: returnsD [OF oneAttempt_round, OF sym] dest: attempts_left_round)

declare attempts.simps [simp del]

text \<open>The loop as an operation of the monad.\<close>

lemma attempts_step:
  "attempts d q ex control x =
    (if as_consumed x < as_maxAttempts x
     then bindM (oneAttempt d q ex control x) (\<lambda>p. case p of Halt \<Rightarrow> retM () | GoOn c y \<Rightarrow> attempts d q ex c y)
     else retM ())"
  by (rule ext) (auto simp: attempts.simps [of d q ex control x] bindM_def retM_def split: prod.split sum.split Progress.split)

definition onwards :: "('s, Progress) io \<Rightarrow> (ControlState \<Rightarrow> AttemptSeries \<Rightarrow> ('s, unit) io) \<Rightarrow> ('s, unit) io" where
  "onwards m f = bindM m (\<lambda>p. case p of Halt \<Rightarrow> retM () | GoOn control x \<Rightarrow> f control x)"

definition runSeries ::
  "('a fsys_scheme) RunnerDeps \<Rightarrow> AttemptRequest \<Rightarrow> string \<times> ExecutionSnapshot \<Rightarrow> (('a fsys_scheme) rworld, unit) io" where
  "runSeries d q binding =
    bindM (bindSeries d q binding) (\<lambda>(control, x).
     onwards (resumePrepared d q control x) (\<lambda>control x.
     onwards (resumeInterrupted d q (snd binding) control x) (\<lambda>control x.
     onwards (blockExhausted d q control x) (\<lambda>control x.
       attempts d q (snd binding) control x))))"

section \<open>Starting and cancelling\<close>

text \<open>
  The runner: the flows with a running attempt, the callbacks that count attempts, and the tickets whose settling was
  reported. A start is followed through to the end of its job, whose errors before the launch the caller receives. A
  flow stays active only while the process of its attempt could not be confirmed to have ended.
\<close>

record 's runner =
  ru_env :: 's
  ru_active :: "string list"
  ru_started :: nat
  ru_finished :: nat
  ru_settled :: "TicketRef list"

definition isRunning :: "'s runner \<Rightarrow> string \<Rightarrow> bool" where
  "isRunning r flowId \<longleftrightarrow> flowId \<in> set (ru_active r)"

definition persistedBinding :: "AttemptRequest \<Rightarrow> (string \<times> ExecutionSnapshot) option" where
  "persistedBinding q =
    (if \<not> matchingSeries (cs_attemptSeries (rq_control q)) q then None
     else (case cs_attemptSeries (rq_control q) of None \<Rightarrow> None
       | Some x \<Rightarrow> (case (as_runtimeDigest x, as_executionSnapshot x) of
            (Some g, Some ex) \<Rightarrow> if g = [] then None else Some (g, ex) | _ \<Rightarrow> None)))"

definition ruM :: "('s, 'a) io \<Rightarrow> ('s runner, 'a) io" where
  "ruM op r = (case op (ru_env r) of (x, s) \<Rightarrow> (x, r \<lparr> ru_env := s \<rparr>))"

definition new_run :: "'s \<Rightarrow> ControlState \<Rightarrow> 's rworld" where
  "new_run s control = \<lparr> rw_env = s, rw_attemptId = None, rw_control = control, rw_launched = False, rw_ready = False,
     rw_terminating = False, rw_sessionRoot = None, rw_usage = None, rw_ended = False, rw_archived = False, rw_log = [] \<rparr>"

text \<open>The end of a job: a rejection reaches the caller unless the attempt is ready already.\<close>

definition jobEnded ::
  "'s RunnerDeps \<Rightarrow> AttemptRequest \<Rightarrow> unit res \<Rightarrow> 's rworld \<Rightarrow> ('s runner, unit) io" where
  "jobEnded d q result w r =
    (let flowId = cs_flowInstanceId (rq_control q) in
     ((case result of Inl e \<Rightarrow> if rw_launched w \<or> rw_ready w then ok () else Inl (classifyAttemptError e) | Inr _ \<Rightarrow> ok ()),
      r \<lparr> ru_env := rw_env w,
          ru_finished := ru_finished r + (if rw_terminating w then 0 else 1),
          ru_active := (if rw_terminating w then ru_active r else removeAll flowId (ru_active r)),
          ru_settled := (if rw_launched w \<and> \<not> rd_cancelled d (rw_env w) then ru_settled r @ [rq_ref q] else ru_settled r) \<rparr>))"

definition startAttempt ::
  "('a fsys_scheme) RunnerDeps \<Rightarrow> AttemptRequest \<Rightarrow> (('a fsys_scheme) runner, unit) io" where
  "startAttempt d q r =
    (let flowId = cs_flowInstanceId (rq_control q) in
     if isRunning r flowId then (ok (), r)
     else bindM (case persistedBinding q of Some b \<Rightarrow> retM b | None \<Rightarrow> ruM (rd_execution d (rq_agentId q))) (\<lambda>binding.
          bindM (liftR (validateRequest d q)) (\<lambda>_.
          bindM (liftR (shouldNotStart q (ex_maxAttempts (snd binding)))) (\<lambda>stop.
           if stop then retM ()
           else (\<lambda>r. case runSeries d q binding (new_run (ru_env r) (rq_control q)) of (result, w) \<Rightarrow>
                  jobEnded d q result w (r \<lparr> ru_active := flowId # ru_active r, ru_started := ru_started r + 1 \<rparr>))))) r)"

text \<open>A cancellation waits for the job. What it finds then is a flow that is active only while its process may live.\<close>

definition cancelAttempt :: "string \<Rightarrow> ('s runner, unit) io" where
  "cancelAttempt flowId r =
    (if isRunning r flowId then failM ''Cannot confirm old agent termination; migration is blocked'' r else (ok (), r))"

text \<open>The process of a terminating attempt has ended.\<close>

definition terminationConfirmed :: "string \<Rightarrow> 's runner \<Rightarrow> 's runner" where
  "terminationConfirmed flowId r =
    (if isRunning r flowId then r \<lparr> ru_active := removeAll flowId (ru_active r), ru_finished := ru_finished r + 1 \<rparr> else r)"

end
