(* ===== verification/AttemptProps.thy ===== *)
theory AttemptProps
  imports AttemptRunner
begin

text \<open>
  What the attempt runner promises: a model runs only in an attempt that the control state already counts, no more
  attempts run than the budget allows, a success is only ever written with the receipt that was verified, a failure ends
  in a retry or in the blocked state, and every started attempt is accounted for.
\<close>

section \<open>The history of a run\<close>

definition series_now :: "ControlState \<Rightarrow> (AttemptSeries \<times> Attempt) option" where
  "series_now c = (case cs_attemptSeries c of None \<Rightarrow> None | Some x \<Rightarrow> map_option (Pair x) (as_current x))"

definition counted :: "string \<Rightarrow> ControlState \<Rightarrow> bool" where
  "counted i c = opt_is (\<lambda>(x, a). at_attemptId a = i \<and> at_status a = Started \<and> as_consumed x \<le> as_maxAttempts x) (series_now c)"

definition succeeded :: "ControlState \<Rightarrow> bool" where
  "succeeded c = opt_is (\<lambda>(x, a). at_status a = AttSucceeded) (series_now c)"

text \<open>The receipt that a control state holds is the verified one, with the usage of the run.\<close>

definition holds_receipt :: "ControlState \<Rightarrow> AgentReceipt \<Rightarrow> bool" where
  "holds_receipt c r \<longleftrightarrow> (\<exists>u. cs_latestReceipt c = Some (r \<lparr> ar_usage := u \<rparr>))"

definition justified :: "run_event set \<Rightarrow> run_event \<Rightarrow> bool" where
  "justified past e = (case e of
     Ran i \<Rightarrow> \<exists>c. Persisted c \<in> past \<and> counted i c
   | Persisted c \<Rightarrow> succeeded c \<longrightarrow> (\<exists>r. Verified r \<in> past \<and> holds_receipt c r)
   | Verified r \<Rightarrow> True)"

definition well_run :: "run_event list \<Rightarrow> bool" where
  "well_run es \<longleftrightarrow> (\<forall>i < length es. justified (set (take i es)) (es ! i))"

lemma justified_mono: "justified A e \<Longrightarrow> A \<subseteq> B \<Longrightarrow> justified B e"
  by (cases e) (auto simp: justified_def)

lemma well_run_snoc: "well_run (es @ [e]) \<longleftrightarrow> well_run es \<and> justified (set es) e"
  by (auto simp: well_run_def nth_append less_Suc_eq all_conj_distrib)

definition keeps_log :: "run_event set \<Rightarrow> 's rworld \<Rightarrow> bool" where
  "keeps_log E w \<longleftrightarrow> well_run (rw_log w) \<and> E \<subseteq> set (rw_log w)"

named_theorems log_intros "the operations that leave a justified history"

lemma log_env [log_intros]: "keepsM (keeps_log E) (envM op)"
  by (simp add: keepsM_def envM_def keeps_log_def split: prod.split)

lemma log_mod: "(\<And>w. rw_log (f w) = rw_log w) \<Longrightarrow> keepsM (keeps_log E) (modM f)"
  by (simp add: keepsM_def modM_def keeps_log_def)

lemma log_ready [log_intros]: "keepsM (keeps_log E) resolveReady"
  unfolding resolveReady_def by (rule log_mod) simp

lemma log_cancelled [log_intros]: "keepsM (keeps_log E) (cancelledM d)"
  unfolding cancelledM_def by (rule keepsM_get)

lemma log_event: "justified E e \<Longrightarrow> keepsM (keeps_log E) (logM e)"
  using justified_mono by (fastforce simp: keepsM_def logM_def modM_def keeps_log_def well_run_snoc)

lemma log_quiet [log_intros]: "keepsM (keeps_log E) op \<Longrightarrow> keepsM (keeps_log E) (quietM op)"
  unfolding quietM_def by (intro keepsM_try keepsM_ret)

lemma log_now [log_intros]: "keepsM (keeps_log E) (nowM d)"
  unfolding nowM_def by (rule log_env)

text \<open>An event that an operation adds justifies what follows it.\<close>

lemma log_gain:
  fixes m :: "('s rworld, 'a) io"
  assumes "keepsM (keeps_log E) m"
    and "\<And>w x w'. keeps_log E w \<Longrightarrow> m w = (Inr x, w') \<Longrightarrow> ev x \<subseteq> set (rw_log w') \<and> F x"
    and "\<And>x. F x \<Longrightarrow> keepsM (keeps_log (ev x \<union> E)) (f x)"
  shows "keepsM (keeps_log E) (bindM m f)"
  unfolding keepsM_def
proof (intro allI impI)
  fix w :: "'s rworld" assume w: "keeps_log E w"
  obtain r w' where m: "m w = (r, w')" by fastforce
  have k: "keeps_log E w'" using assms(1) w m unfolding keepsM_def by (metis snd_conv)
  show "keeps_log E (snd (bindM m f w))"
  proof (cases r)
    case (Inl e)
    then show ?thesis using m k by (simp add: bindM_def)
  next
    case (Inr x)
    then have "keeps_log (ev x \<union> E) w'" "F x" using assms(2) [OF w] m k by (auto simp: keeps_log_def)
    then have "keeps_log (ev x \<union> E) (snd (f x w'))" using assms(3) unfolding keepsM_def by blast
    then show ?thesis using m Inr by (simp add: bindM_def keeps_log_def)
  qed
qed

lemmas log_rules = log_intros keepsM_bind keepsM_then keepsM_when keepsM_try keepsM_ret keepsM_throw keepsM_lift keepsM_check
  keepsM_get keepsM_if keepsM_opt


section \<open>Writes\<close>

lemma persist_result:
  assumes "persist d ts q control patch w = (Inr c, w')"
  shows "advanceControlState (rd_controlSchema d) control patch ts = Inr c" "Persisted c \<in> set (rw_log w')"
  using assms unfolding persist_def run_iff lift_iff writeControlCas_def
  by (auto simp: envM_def logM_def modM_def ok_def retM_def checkM_def failM_def fail_def bindM_def thenM_def
      split: prod.splits sum.splits if_splits)

lemma log_persist:
  fixes d :: "'s RunnerDeps"
  assumes "\<And>c. advanceControlState (rd_controlSchema d) control patch ts = Inr c \<Longrightarrow> justified E (Persisted c)"
  shows "keepsM (keeps_log E) (persist d ts q control patch)"
  unfolding keepsM_def
proof (intro allI impI)
  fix w :: "'s rworld" assume w: "keeps_log E w"
  obtain r w' where p: "persist d ts q control patch w = (r, w')" by fastforce
  show "keeps_log E (snd (persist d ts q control patch w))"
  proof (cases "\<exists>c. advanceControlState (rd_controlSchema d) control patch ts = Inr c \<and> rw_log w' = rw_log w @ [Persisted c]")
    case True
    then obtain c where "advanceControlState (rd_controlSchema d) control patch ts = Inr c" "rw_log w' = rw_log w @ [Persisted c]"
      by blast
    then show ?thesis using w p assms justified_mono by (auto simp: keeps_log_def well_run_snoc)
  next
    case False
    then have "rw_log w' = rw_log w" using p unfolding persist_def writeControlCas_def
      by (auto simp: envM_def logM_def modM_def ok_def retM_def checkM_def failM_def fail_def bindM_def thenM_def liftR_def getM_def
          split: prod.splits sum.splits if_splits)
    then show ?thesis using w p by (simp add: keeps_log_def)
  qed
qed

lemma series_written:
  assumes "advanceControlState schema control patch ts = Inr c" "cp_attemptSeries patch = Some (Some x)"
  shows "series_now c = map_option (Pair x) (as_current x)"
proof -
  have "cs_attemptSeries c = Some x"
    using advance_ok [of schema control patch ts c] assms by (simp add: ok_def opt_or_def)
  then show ?thesis by (simp add: series_now_def)
qed

lemma log_persistSeries:
  "series_status x \<noteq> Some AttSucceeded \<Longrightarrow> keepsM (keeps_log E) (persistSeries d q control x r)"
  unfolding persistSeries_def
  by (intro keepsM_bind log_now log_persist)
    (auto dest!: series_written simp: series_patch_def justified_def succeeded_def opt_is_def series_status_def split: option.splits)

lemma log_persistBlocked: "keepsM (keeps_log E) (persistBlocked d q control x e r)"
  unfolding persistBlocked_def Let_def
  by (intro keepsM_bind log_now log_persist keepsM_ret)
    (auto dest!: series_written simp: series_patch_def justified_def succeeded_def opt_is_def failed_attempt_def
      split: option.splits if_split_asm)

lemma log_recordFailure: "keepsM (keeps_log E) (recordFailure d q control x e a f)"
  unfolding recordFailure_def Let_def
  by (intro keepsM_bind keepsM_if keepsM_then keepsM_ret log_now log_persistBlocked log_persistSeries)
    (simp add: series_status_def failed_attempt_def)


section \<open>The result of an attempt\<close>

lemma log_retain: "keepsM (keeps_log E) (retainCancelled d rt control a u)"
  unfolding retainCancelled_def by (intro log_quiet log_env)

lemma log_archive: "keepsM (keeps_log E) (archiveM d rt r)"
  unfolding archiveM_def by (intro keepsM_then log_mod log_quiet log_env) simp

lemma log_deliver: "keepsM (keeps_log E) (deliverPrepared d rt control a u x)"
  unfolding deliverPrepared_def Let_def
  by (intro keepsM_bind log_env keepsM_try keepsM_ret) (auto split: err.split bool.split intro!: log_rules log_retain)

lemma success_series:
  assumes "successPatch q control x receipt = Inr patch"
  shows "cp_attemptSeries patch = Some (Some x)" "cp_latestReceipt patch = Some (Some receipt)"
  using assms by (auto simp: successPatch_def bindR_Inr_iff ok_def)

lemma log_success:
  assumes "Verified r \<in> E" "receipt = r \<lparr> ar_usage := u \<rparr>"
  shows "keepsM (keeps_log E) (bindM (liftR (successPatch q control x receipt)) (\<lambda>patch.
    bindM (persist d ts q control patch) (\<lambda>_. retM ())))"
proof (cases "successPatch q control x receipt")
  case (Inl e)
  then show ?thesis by (simp add: keepsM_def bindM_def liftR_def)
next
  case (Inr patch)
  have "justified E (Persisted c)" if "advanceControlState (rd_controlSchema d) control patch ts = Inr c" for c
    using advance_ok [of "rd_controlSchema d" control patch ts c] that assms success_series [OF Inr]
    by (auto simp: justified_def holds_receipt_def ok_def opt_or_def)
  then have "keepsM (keeps_log E) (bindM (persist d ts q control patch) (\<lambda>_. retM ()))"
    by (intro keepsM_bind log_persist keepsM_ret)
  then show ?thesis using Inr by (simp add: keepsM_def bindM_def [of "liftR _"] liftR_def)
qed

lemma log_finishVerified:
  assumes "Verified r \<in> E" "receipt = r \<lparr> ar_usage := u \<rparr>"
  shows "keepsM (keeps_log E) (finishVerified d q rt control x a receipt)"
  unfolding finishVerified_def Let_def
  by (intro log_rules log_success [OF assms])

lemma log_verify: "keepsM (keeps_log E) (verifyAttempt d q rt control x a expected u b)"
proof -
  let ?v = "\<lambda>c. tryM (bindM (envM (rd_verifyDecision d rt expected c)) (\<lambda>r. thenM (logM (Verified r)) (retM (Some r))))
            (\<lambda>e. if b \<and> e = DecisionReadbackError then retM None else throwM e)"
  have v: "keepsM (keeps_log E) (?v c)" for c E
    by (intro keepsM_try keepsM_bind keepsM_then keepsM_if keepsM_ret keepsM_throw log_env log_event) (simp add: justified_def)
  have f: "keepsM (keeps_log (Verified ` set_option verified \<union> E)) (case verified of None \<Rightarrow> retM ()
       | Some r \<Rightarrow> bindM (cancelledM d) (\<lambda>c.
           if c then retainCancelled d rt control a u
           else finishVerified d q rt control x a (if u = None then r else r \<lparr> ar_usage := u \<rparr>)))" for verified
  proof (cases verified)
    case (Some r)
    have "(if u = None then r else r \<lparr> ar_usage := u \<rparr>) = r \<lparr> ar_usage := if u = None then ar_usage r else u \<rparr>" by simp
    then show ?thesis unfolding Some option.case
      by (intro keepsM_bind keepsM_if log_cancelled log_retain log_finishVerified [where r = r and u = "if u = None then ar_usage r else u"]) simp_all
  qed (simp add: keepsM_ret)
  show ?thesis unfolding verifyAttempt_def
    by (intro keepsM_bind keepsM_if log_cancelled log_retain
        log_gain [where ev = "\<lambda>v. Verified ` set_option v" and F = "\<lambda>_. True"] v f)
      (auto simp: tryM_def bindM_def thenM_def envM_def logM_def modM_def retM_def throwM_def ok_def split: prod.splits sum.splits if_splits)
qed

lemma log_finish: "keepsM (keeps_log E) (finishAttempt d q rt control x a u)"
  unfolding finishAttempt_def
  by (intro keepsM_bind keepsM_lift keepsM_if log_deliver log_verify) (auto split: Delivery.split intro!: log_verify keepsM_ret)


section \<open>The history of an attempt\<close>

lemma log_assert [log_intros]: "keepsM (keeps_log E) (assertCurrent d x a)"
  unfolding assertCurrent_def by (intro keepsM_bind log_cancelled keepsM_get keepsM_lift)

lemma log_prepare: "keepsM (keeps_log E) (prepareAttempt d q ex control x a prev)"
  unfolding prepareAttempt_def by (intro log_rules log_mod log_assert) (auto intro!: log_rules log_mod log_assert)

lemma log_runHarness:
  assumes "Persisted c \<in> E" "counted (at_attemptId a) c"
  shows "keepsM (keeps_log E) (runHarness run input a)"
proof -
  have r: "keepsM (keeps_log E) (awaitHarness run input)"
    unfolding keepsM_def keeps_log_def awaitHarness_def by (auto split: prod.split HarnessEnd.split)
  have "justified E (Ran (at_attemptId a))" using assms by (auto simp: justified_def)
  then show ?thesis unfolding runHarness_def by (intro keepsM_then log_event log_mod r) simp_all
qed

lemma log_body:
  assumes "Persisted c \<in> E" "counted (at_attemptId a) c"
  shows "keepsM (keeps_log E) (attemptBody d q ex control x a prev)"
proof -
  have "keepsM (keeps_log E) (case p of (input, run) \<Rightarrow>
    bindM (runHarness run input a) (\<lambda>result.
    (let rt = ses_root (hr_session input) in
     bindM (getM rw_usage) (\<lambda>usage.
     bindM (cancelledM d) (\<lambda>c.
     if c then archiveM d rt (failedReceipt control a cancelled_error usage)
     else thenM (liftR (assertProcessResult result))
       (if preparedProtocol q
        then bindM (liftR (expectedDecision q control a)) (\<lambda>expected.
             thenM (envM (freezePreparedPublication (rd_prepared d) rt expected usage))
               (finishAttempt d q rt control x a usage))
        else thenM (finishAttempt d q rt control x a usage) (modM (\<lambda>w. w \<lparr> rw_archived := True \<rparr>))))))))" for p
    unfolding Let_def
    by (cases p) (auto intro!: log_rules log_runHarness [OF assms] log_archive log_finish log_mod)
  then show ?thesis unfolding attemptBody_def by (intro keepsM_bind log_prepare)
qed

lemma log_delayed: "keepsM (keeps_log E) (delayed d ex control x)"
  unfolding delayed_def cancellableDelay_def by (intro log_rules)

lemma log_failed: "keepsM (keeps_log E) (attemptFailed d q ex control x a e)"
proof -
  have o': "keepsM (keeps_log E) (case rt of Some r \<Rightarrow> whenM b (archiveM d r f) | None \<Rightarrow> retM ())" for rt b f
    by (cases rt) (auto intro!: log_rules log_archive)
  have n: "keepsM (keeps_log E) (case n of None \<Rightarrow> bindM (getM rw_launched) (\<lambda>l. if l then retM Halt else throwM (classifyAttemptError e))
    | Some (control', x') \<Rightarrow> delayed d ex control' x')" for n
    by (cases n) (auto intro!: log_rules log_delayed)
  have h: "keepsM (keeps_log E) (case e of HarnessProcessError r \<Rightarrow> modM (\<lambda>w. w \<lparr> rw_ended := True \<rparr>) | _ \<Rightarrow> retM ())"
    by (cases e) (auto intro!: log_rules log_mod)
  show ?thesis unfolding attemptFailed_def Let_def
    by (intro keepsM_if keepsM_then keepsM_bind keepsM_ret log_cancelled keepsM_get o' n h log_recordFailure log_mod) simp
qed

lemma log_oneAttempt:
  assumes "as_consumed x < as_maxAttempts x"
  shows "keepsM (keeps_log E) (oneAttempt d q ex control x)"
proof -
  have start: "keepsM (keeps_log E) (bindM (persistSeries d q control y None) (\<lambda>control'.
         bindM (cancelledM d) (\<lambda>c.
         if c then retM Halt
         else tryM (thenM (attemptBody d q ex control' y a (failure_code x)) (retM Halt)) (attemptFailed d q ex control' y a))))"
    if a: "at_status a = Started" and y: "y = x \<lparr> as_consumed := as_consumed x + 1, as_current := Some a \<rparr>" for a y
  proof (rule log_gain [where ev = "\<lambda>c. {Persisted c}" and F = "counted (at_attemptId a)"])
    show "keepsM (keeps_log E) (persistSeries d q control y None)"
      by (rule log_persistSeries) (simp add: y a series_status_def)
    show "{Persisted c} \<subseteq> set (rw_log w') \<and> counted (at_attemptId a) c"
      if written: "persistSeries d q control y None w = (Inr c, w')" for w c w'
    proof -
      obtain ts w1 where p: "persist d ts q control (series_patch y None) w1 = (Inr c, w')"
        using written unfolding persistSeries_def bindM_Inr_iff by blast
      from series_written [OF persist_result(1) [OF p]] have "series_now c = Some (y, a)"
        by (simp add: series_patch_def y)
      then show ?thesis using persist_result(2) [OF p] assms a y by (simp add: counted_def opt_is_def)
    qed
    show "keepsM (keeps_log ({Persisted c} \<union> E)) (bindM (cancelledM d) (\<lambda>k.
         if k then retM Halt
         else tryM (thenM (attemptBody d q ex c y a (failure_code x)) (retM Halt)) (attemptFailed d q ex c y a)))"
      if "counted (at_attemptId a) c" for c
      by (intro keepsM_bind keepsM_if keepsM_ret keepsM_try keepsM_then log_cancelled log_body [where c = c] log_failed that) simp
  qed
  show ?thesis unfolding oneAttempt_def Let_def
    by (intro keepsM_bind keepsM_if keepsM_then keepsM_ret log_cancelled log_env log_now log_mod start) simp_all
qed

lemma keeps_returning:
  assumes "keepsM I m" "returnsM Q m" "\<And>x. Q x \<Longrightarrow> keepsM I (f x)"
  shows "keepsM I (bindM m f)"
  unfolding keepsM_def
proof (intro allI impI)
  fix s assume "I s"
  obtain r s' where m: "m s = (r, s')" by fastforce
  then have "I s'" using assms(1) \<open>I s\<close> unfolding keepsM_def by (metis snd_conv)
  then show "I (snd (bindM m f s))"
    using m assms(2,3) unfolding bindM_def keepsM_def returnsM_def by (cases r) auto
qed

lemma log_attempts: "keepsM (keeps_log E) (attempts d q ex control x)"
proof (induction "attempts_left x" arbitrary: control x rule: less_induct)
  case less
  show ?case
  proof (cases "as_consumed x < as_maxAttempts x")
    case True
    have "keepsM (keeps_log E) (case p of Halt \<Rightarrow> retM () | GoOn c y \<Rightarrow> attempts d q ex c y)" if "round_on x p" for p
      using that less attempts_left_round [OF _ True] by (cases p) (auto intro: keepsM_ret)
    then show ?thesis using True by (simp add: attempts_step [of d q ex control x] keeps_returning [OF log_oneAttempt [OF True] oneAttempt_round])
  qed (simp add: attempts_step keepsM_ret)
qed


section \<open>The history of a series\<close>

lemma log_binding:
  assumes "shouldNotStart q m = Inr False"
  shows "keepsM (keeps_log E) (bindSeries d q binding)"
proof -
  have fresh: "series_status x \<noteq> Some AttSucceeded" if "cs_attemptSeries (rq_control q) = Some x" "matchingSeries (Some x) q" for x
    using assms that by (auto simp: shouldNotStart_def bindR_Inr_iff ok_def)
  have new: "series_status (newSeries q binding i) \<noteq> Some AttSucceeded" for i
    by (simp add: newSeries_def series_status_def)
  have select: "keepsM (keeps_log E) (case cs_attemptSeries (rq_control q) of
        Some x \<Rightarrow> if matchingSeries (Some x) q then retM x else bindM (envM (rd_newId d)) (\<lambda>i. retM (newSeries q binding i))
      | None \<Rightarrow> bindM (envM (rd_newId d)) (\<lambda>i. retM (newSeries q binding i)))"
    by (auto split: option.split intro!: log_rules)
  have selected: "returnsM (\<lambda>x. series_status x \<noteq> Some AttSucceeded) (case cs_attemptSeries (rq_control q) of
        Some x \<Rightarrow> if matchingSeries (Some x) q then retM x else bindM (envM (rd_newId d)) (\<lambda>i. retM (newSeries q binding i))
      | None \<Rightarrow> bindM (envM (rd_newId d)) (\<lambda>i. retM (newSeries q binding i)))"
    using fresh new by (auto split: option.split intro!: returns_last returns_ret)
  show ?thesis unfolding bindSeries_def Let_def
  proof (rule keeps_returning [OF select selected])
    fix x :: AttemptSeries assume "series_status x \<noteq> Some AttSucceeded"
    then have "series_status (x \<lparr> as_runtimeDigest := g, as_executionSnapshot := ex \<rparr>) \<noteq> Some AttSucceeded" for g ex
      by (simp add: series_status_def)
    then show "keepsM (keeps_log E) (if as_runtimeDigest x \<in> {None, Some []} \<or> as_executionSnapshot x = None
       then bindM (persistSeries d q (rq_control q) (x \<lparr> as_runtimeDigest := Some (fst binding), as_executionSnapshot := Some (snd binding) \<rparr>) None)
         (\<lambda>c. retM (c, x \<lparr> as_runtimeDigest := Some (fst binding), as_executionSnapshot := Some (snd binding) \<rparr>))
       else retM (rq_control q, x))"
      by (intro keepsM_if keepsM_bind keepsM_ret log_persistSeries)
  qed
qed

lemma log_retained: "keepsM (keeps_log E) (readRetained d q rt control a)"
  unfolding readRetained_def by (intro log_rules)

lemma log_resumePrepared: "keepsM (keeps_log E) (resumePrepared d q control x)"
proof -
  have k: "keepsM (keeps_log E) (case n of None \<Rightarrow> retM Halt | Some (control', x') \<Rightarrow> retM (GoOn control' x'))" for n
    by (cases n) (auto intro: keepsM_ret)
  have h: "keepsM (keeps_log E) (case retained of None \<Rightarrow> retM Halt
           | Some None \<Rightarrow> retM (GoOn control x)
           | Some (Some p) \<Rightarrow>
              thenM (modM (\<lambda>w. w \<lparr> rw_attemptId := Some (at_attemptId attempt) \<rparr>))
             (thenM resolveReady
               (tryM (thenM (finishAttempt d q rt control x attempt (pp_usage p)) (retM Halt))
                 (\<lambda>e. bindM (cancelledM d) (\<lambda>c.
                   if c then thenM (retainCancelled d rt control attempt (pp_usage p)) (retM Halt)
                   else (let failure = failedReceipt control attempt (controlError e) (pp_usage p) in
                     thenM (quietM (envM (rd_archiveReceipt d rt failure)))
                    (bindM (recordFailure d q control x e attempt (Some failure)) (\<lambda>n.
                      (case n of None \<Rightarrow> retM Halt | Some (control', x') \<Rightarrow> retM (GoOn control' x'))))))))))" for retained rt attempt
    unfolding Let_def
    by (auto split: option.split intro!: log_rules log_mod log_finish log_retain log_recordFailure k simp del: split_paired_All)
  show ?thesis unfolding resumePrepared_def Let_def [of "session_root _ _ _"]
    by (auto split: option.split intro!: keepsM_ret keepsM_bind log_retained h)
qed

lemma log_resumeInterrupted: "keepsM (keeps_log E) (resumeInterrupted d q ex control x)"
proof -
  have "series_status (x \<lparr> as_current := Some (failed_attempt a ts e) \<rparr>) \<noteq> Some AttSucceeded" for a ts e
    by (simp add: series_status_def failed_attempt_def)
  then show ?thesis unfolding resumeInterrupted_def Let_def
    by (auto split: option.split intro!: log_rules log_delayed log_persistBlocked log_persistSeries)
qed

lemma log_blockExhausted: "keepsM (keeps_log E) (blockExhausted d q control x)"
  unfolding blockExhausted_def by (auto split: option.split intro!: log_rules log_persistBlocked)

lemma keeps_onwards:
  "keepsM I m \<Longrightarrow> (\<And>control x. keepsM I (f control x)) \<Longrightarrow> keepsM I (onwards m f)"
  unfolding onwards_def by (rule keepsM_bind) (auto split: Progress.split intro: keepsM_ret)

lemma log_runSeries:
  "shouldNotStart q m = Inr False \<Longrightarrow> keepsM (keeps_log E) (runSeries d q binding)"
  unfolding runSeries_def
  by (auto intro!: keepsM_bind log_binding keeps_onwards log_resumePrepared log_resumeInterrupted log_blockExhausted log_attempts)


section \<open>The number of runs\<close>

definition is_run :: "run_event \<Rightarrow> bool" where
  "is_run e = (case e of Ran i \<Rightarrow> True | _ \<Rightarrow> False)"

definition runs :: "'s rworld \<Rightarrow> nat" where
  "runs w = length (filter is_run (rw_log w))"

definition below :: "nat \<Rightarrow> 's rworld \<Rightarrow> bool" where
  "below n w \<longleftrightarrow> runs w \<le> n"

lemma below_env: "keepsM (below n) (envM op)"
  by (simp add: keepsM_def envM_def below_def runs_def split: prod.split)

lemma below_mod: "(\<And>w. rw_log (f w) = rw_log w) \<Longrightarrow> keepsM (below n) (modM f)"
  by (simp add: keepsM_def modM_def below_def runs_def)

lemma below_ready: "keepsM (below n) resolveReady"
  unfolding resolveReady_def by (rule below_mod) simp

lemma below_cancelled: "keepsM (below n) (cancelledM d)"
  unfolding cancelledM_def by (rule keepsM_get)

lemma below_now: "keepsM (below n) (nowM d)"
  unfolding nowM_def by (rule below_env)

lemma below_event: "\<not> is_run e \<Longrightarrow> keepsM (below n) (logM e)"
  by (simp add: keepsM_def logM_def modM_def below_def runs_def)

lemmas below_rules = below_env below_ready below_cancelled below_now keepsM_bind keepsM_then keepsM_when keepsM_try keepsM_ret
  keepsM_throw keepsM_lift keepsM_check keepsM_get keepsM_if keepsM_opt

lemma below_quiet: "keepsM (below n) op \<Longrightarrow> keepsM (below n) (quietM op)"
  unfolding quietM_def by (intro keepsM_try keepsM_ret)

lemma below_persist: "keepsM (below n) (persist d ts q control patch)"
  unfolding persist_def by (intro below_rules below_mod below_event) (simp_all add: is_run_def)

lemma below_series: "keepsM (below n) (persistSeries d q control x r)"
  unfolding persistSeries_def by (intro below_rules below_persist)

lemma below_blocked: "keepsM (below n) (persistBlocked d q control x e r)"
  unfolding persistBlocked_def Let_def by (intro below_rules below_persist)

lemma below_failure: "keepsM (below n) (recordFailure d q control x e a f)"
  unfolding recordFailure_def Let_def by (intro below_rules below_blocked below_series)

lemma below_retain: "keepsM (below n) (retainCancelled d rt control a u)"
  unfolding retainCancelled_def by (intro below_quiet below_env)

lemma below_archive: "keepsM (below n) (archiveM d rt r)"
  unfolding archiveM_def by (intro below_rules below_mod below_quiet) simp

lemma below_deliver: "keepsM (below n) (deliverPrepared d rt control a u x)"
  unfolding deliverPrepared_def Let_def
  by (intro below_rules) (auto split: err.split bool.split intro!: below_rules below_retain)

lemma below_verify: "keepsM (below n) (verifyAttempt d q rt control x a expected u b)"
proof -
  have f: "keepsM (below n) (finishVerified d q rt control x a r)" for r
    unfolding finishVerified_def Let_def by (intro below_rules below_quiet below_persist)
  show ?thesis unfolding verifyAttempt_def
    by (intro below_rules below_retain below_event f) (simp add: is_run_def)
qed

lemma below_finish: "keepsM (below n) (finishAttempt d q rt control x a u)"
  unfolding finishAttempt_def
  by (intro below_rules below_deliver below_verify) (auto split: Delivery.split intro!: below_verify keepsM_ret)

lemma below_prepare: "keepsM (below n) (prepareAttempt d q ex control x a prev)"
  unfolding prepareAttempt_def assertCurrent_def
  by (intro below_rules below_mod) (auto intro!: below_rules below_mod)

lemma below_delayed: "keepsM (below n) (delayed d ex control x)"
  unfolding delayed_def cancellableDelay_def by (intro below_rules)

lemma below_failed: "keepsM (below n) (attemptFailed d q ex control x a e)"
proof -
  have o': "keepsM (below n) (case rt of Some r \<Rightarrow> whenM b (archiveM d r f) | None \<Rightarrow> retM ())" for rt b f
    by (cases rt) (auto intro!: below_rules below_archive)
  have c: "keepsM (below n) (case n' of None \<Rightarrow> bindM (getM rw_launched) (\<lambda>l. if l then retM Halt else throwM (classifyAttemptError e))
    | Some (control', x') \<Rightarrow> delayed d ex control' x')" for n'
    by (cases n') (auto intro!: below_rules below_delayed)
  have h: "keepsM (below n) (case e of HarnessProcessError r \<Rightarrow> modM (\<lambda>w. w \<lparr> rw_ended := True \<rparr>) | _ \<Rightarrow> retM ())"
    by (cases e) (auto intro!: below_rules below_mod)
  show ?thesis unfolding attemptFailed_def Let_def
    by (intro keepsM_if keepsM_then keepsM_bind keepsM_ret below_cancelled keepsM_get o' c h below_failure below_mod) simp
qed

definition runsM :: "nat \<Rightarrow> ('s rworld, 'a) io \<Rightarrow> bool" where
  "runsM k m \<longleftrightarrow> (\<forall>w n. below n w \<longrightarrow> below (n + k) (snd (m w)))"

lemma runs_none: "(\<And>n. keepsM (below n) m) \<Longrightarrow> runsM k m"
  unfolding runsM_def keepsM_def below_def by (meson le_add1 le_trans)

lemma runs_after: "(\<And>n. keepsM (below n) m) \<Longrightarrow> (\<And>x. runsM k (f x)) \<Longrightarrow> runsM k (bindM m f)"
  unfolding runsM_def keepsM_def bindM_def below_def by (fastforce split: prod.splits sum.splits)


lemma runs_first: "runsM k m \<Longrightarrow> (\<And>x n. keepsM (below n) (f x)) \<Longrightarrow> runsM k (bindM m f)"
  unfolding runsM_def keepsM_def bindM_def by (fastforce split: prod.splits sum.splits)

lemma runs_body: "runsM 1 (attemptBody d q ex control x a prev)"
proof -
  have e: "runsM 1 (logM (Ran i))" for i
    by (simp add: runsM_def below_def runs_def logM_def modM_def is_run_def)
  have r: "keepsM (below n) (awaitHarness run input)" for n run input
    unfolding keepsM_def below_def runs_def awaitHarness_def by (auto split: prod.split HarnessEnd.split)
  have h: "runsM 1 (runHarness run input a)" for run input
    unfolding runHarness_def thenM_def [of "logM _"] by (intro runs_first e keepsM_then below_mod r) simp
  show ?thesis unfolding attemptBody_def Let_def
    by (intro runs_after below_prepare)
      (auto intro!: runs_first h below_rules below_archive below_finish below_mod simp del: One_nat_def split: prod.split)
qed

lemma runs_round: "runsM 1 (oneAttempt d q ex control x)"
proof -
  have t: "runsM 1 (tryM (thenM (attemptBody d q ex c y a prev) (retM Halt)) (attemptFailed d q ex c y a))" for c y a prev
    using runs_body [of d q ex c y a prev] below_failed [of _ d q ex c y a]
    unfolding runsM_def keepsM_def tryM_def thenM_def bindM_def retM_def ok_def by (fastforce split: prod.splits sum.splits)
  have s: "runsM 1 (if b then retM Halt else tryM (thenM (attemptBody d q ex c y a prev) (retM Halt)) (attemptFailed d q ex c y a))"
    for b c y a prev
    using t by (auto intro: runs_none keepsM_ret)
  have m: "runsM 1 (if b then retM Halt else f)" if "runsM 1 f" for b and f :: "('b rworld, Progress) io"
    using that by (auto intro: runs_none keepsM_ret)
  show ?thesis unfolding oneAttempt_def Let_def thenM_def [of "modM _"]
    by (intro runs_after m below_cancelled below_env below_now below_mod below_series s) simp
qed

text \<open>The operations before the attempts and the rounds return what the budget that is left rests on.\<close>

lemma runs_seq_returning:
  fixes m :: "('s rworld, 'a) io"
  assumes "runsM j m" "returnsM Q m" "\<And>x. Q x \<Longrightarrow> runsM k (f x)"
  shows "runsM (j + k) (bindM m f)"
  unfolding runsM_def
proof (intro allI impI)
  fix w :: "'s rworld" and n assume "below n w"
  obtain r w' where m: "m w = (r, w')" by fastforce
  then have w': "below (n + j) w'" using assms(1) \<open>below n w\<close> unfolding runsM_def by (metis snd_conv)
  show "below (n + (j + k)) (snd (bindM m f w))"
  proof (cases r)
    case (Inl e)
    then show ?thesis using m w' by (simp add: bindM_def below_def)
  next
    case (Inr x)
    then have "Q x" using assms(2) m unfolding returnsM_def by blast
    then have "below (n + j + k) (snd (f x w'))" using assms(3) w' unfolding runsM_def by blast
    then show ?thesis using m Inr by (simp add: bindM_def add.assoc)
  qed
qed

lemma runs_attempts: "runsM (attempts_left x) (attempts d q ex control x)"
proof (induction "attempts_left x" arbitrary: control x rule: less_induct)
  case less
  show ?case
  proof (cases "as_consumed x < as_maxAttempts x")
    case True
    have next_round: "runsM (attempts_left x - 1) (case p of Halt \<Rightarrow> retM () | GoOn c y \<Rightarrow> attempts d q ex c y)" if "round_on x p" for p
    proof (cases p)
      case (GoOn c y)
      then have "attempts_left x = Suc (attempts_left y)" using that attempts_left_round [OF _ True] by simp
      then show ?thesis using less [of y c] GoOn by simp
    qed (auto intro: runs_none keepsM_ret)
    have "0 < attempts_left x" using True by (simp add: attempts_left_def)
    then show ?thesis using runs_seq_returning [OF runs_round oneAttempt_round next_round] True
      by (simp add: attempts_step [of d q ex control x])
  qed (simp add: attempts_step runs_none keepsM_ret)
qed

section \<open>The runs of a series\<close>

definition series_budget :: "AttemptRequest \<Rightarrow> ExecutionSnapshot \<Rightarrow> nat" where
  "series_budget q ex = (case cs_attemptSeries (rq_control q) of
     Some x \<Rightarrow> if matchingSeries (Some x) q then attempts_left x else nat (ex_maxAttempts ex)
   | None \<Rightarrow> nat (ex_maxAttempts ex))"

lemma bindSeries_budget: "returnsM (\<lambda>(c, x). attempts_left x = series_budget q (snd binding)) (bindSeries d q binding)"
proof -
  have "returnsM (\<lambda>x. attempts_left x = series_budget q (snd binding)) (case cs_attemptSeries (rq_control q) of
        Some x \<Rightarrow> if matchingSeries (Some x) q then retM x else bindM (envM (rd_newId d)) (\<lambda>i. retM (newSeries q binding i))
      | None \<Rightarrow> bindM (envM (rd_newId d)) (\<lambda>i. retM (newSeries q binding i)))"
    by (auto split: option.split intro!: returns_last returns_ret simp: series_budget_def newSeries_def attempts_left_def)
  then show ?thesis unfolding bindSeries_def Let_def
    by (rule returns_bind) (auto intro!: returns_last returns_ret simp: attempts_left_def)
qed

lemma returns_goes_mono: "returnsM (goes_on x) m \<Longrightarrow> goes_on y (GoOn c x) \<Longrightarrow> returnsM (goes_on y) m"
  by (erule returns_mono) (auto simp: goes_on_def split: Progress.split_asm)

lemma resumePrepared_goes: "returnsM (goes_on x) (resumePrepared d q control x)"
proof -
  have r: "returnsM (goes_on x) (bindM (recordFailure d q control x e a f) (\<lambda>n. case n of
      None \<Rightarrow> retM Halt | Some (control', x') \<Rightarrow> retM (GoOn control' x')))" for e a f
    by (rule returns_bind [OF recordFailure_goes]) (auto split: option.split intro: returns_ret)
  show ?thesis unfolding resumePrepared_def Let_def thenM_def
    by (auto split: option.split intro!: returns_ret returns_try)
      (rule r | rule returns_if | rule returns_ret | rule goes_halt | rule goes_same | rule returns_try | rule returns_option | rule returns_last)+
qed


lemma resumeInterrupted_goes: "returnsM (goes_on x) (resumeInterrupted d q ex control x)"
  unfolding resumeInterrupted_def Let_def thenM_def
  by (auto split: option.split intro!: returns_ret returns_last returns_if delayed_goes)

lemma blockExhausted_goes: "returnsM (goes_on x) (blockExhausted d q control x)"
  unfolding blockExhausted_def Let_def thenM_def
  by (auto split: option.split intro!: returns_ret returns_last returns_if)

lemma below_retained: "keepsM (below n) (readRetained d q rt control a)"
  unfolding readRetained_def by (intro below_rules)

lemma below_resumePrepared: "keepsM (below n) (resumePrepared d q control x)"
proof -
  have k: "keepsM (below n) (case p of None \<Rightarrow> retM Halt | Some (control', x') \<Rightarrow> retM (GoOn control' x'))" for p
    by (cases p) (auto intro: keepsM_ret)
  show ?thesis unfolding resumePrepared_def Let_def
    by (auto split: option.split intro!: keepsM_ret keepsM_bind below_retained)
      (intro k below_rules below_mod below_quiet below_finish below_retain below_failure, simp_all)
qed

lemma below_resumeInterrupted: "keepsM (below n) (resumeInterrupted d q ex control x)"
  unfolding resumeInterrupted_def Let_def
  by (auto split: option.split intro!: below_rules below_delayed below_blocked below_series)

lemma below_blockExhausted: "keepsM (below n) (blockExhausted d q control x)"
  unfolding blockExhausted_def by (auto split: option.split intro!: below_rules below_blocked)

lemma below_binding: "keepsM (below n) (bindSeries d q binding)"
  unfolding bindSeries_def Let_def
  by (intro keepsM_bind) (auto split: option.split intro!: below_rules below_series)

lemma runs_returning:
  fixes m :: "('s rworld, 'a) io"
  assumes "\<And>n. keepsM (below n) m" "returnsM Q m" "\<And>x. Q x \<Longrightarrow> runsM k (f x)"
  shows "runsM k (bindM m f)"
  unfolding runsM_def
proof (intro allI impI)
  fix w :: "'s rworld" and n assume "below n w"
  obtain r w' where m: "m w = (r, w')" by fastforce
  then have w': "below n w'" using assms(1) \<open>below n w\<close> unfolding keepsM_def by (metis snd_conv)
  then have "below (n + k) w'" by (simp add: below_def)
  show "below (n + k) (snd (bindM m f w))"
  proof (cases r)
    case (Inl e)
    then show ?thesis using m \<open>below (n + k) w'\<close> by (simp add: bindM_def)
  next
    case (Inr x)
    then have "Q x" using assms(2) m unfolding returnsM_def by blast
    then have "below (n + k) (snd (f x w'))" using assms(3) w' unfolding runsM_def by blast
    then show ?thesis using m Inr by (simp add: bindM_def)
  qed
qed

lemma runs_onwards:
  assumes "\<And>n. keepsM (below n) m" "returnsM (goes_on x) m" "\<And>c y. attempts_left y = attempts_left x \<Longrightarrow> runsM k (f c y)"
  shows "runsM k (onwards m f)"
  unfolding onwards_def
  by (rule runs_returning [OF assms(1,2)])
    (auto split: Progress.split intro!: runs_none keepsM_ret assms(3) simp: goes_on_def attempts_left_def)

lemma runs_series: "runsM (series_budget q (snd binding)) (runSeries d q binding)"
proof -
  have a: "runsM (attempts_left x) (attempts d q (snd binding) control y)"
    if "attempts_left y = attempts_left x" for x y control
    using runs_attempts that by metis
  have b: "runsM (attempts_left x) (onwards (blockExhausted d q control y) (\<lambda>control y.
       attempts d q (snd binding) control y))" if "attempts_left y = attempts_left x" for x y control
    using that by (intro runs_onwards [OF below_blockExhausted blockExhausted_goes] a) simp
  have c: "runsM (attempts_left x) (onwards (resumeInterrupted d q (snd binding) control y) (\<lambda>control y.
     onwards (blockExhausted d q control y) (\<lambda>control y.
       attempts d q (snd binding) control y)))" if "attempts_left y = attempts_left x" for x y control
    using that by (intro runs_onwards [OF below_resumeInterrupted resumeInterrupted_goes] b) simp
  have all: "runsM k (onwards (resumePrepared d q control x) (\<lambda>control y.
     onwards (resumeInterrupted d q (snd binding) control y) (\<lambda>control y.
     onwards (blockExhausted d q control y) (\<lambda>control y.
       attempts d q (snd binding) control y))))" if "attempts_left x = k" for control x k
    using that by (auto intro!: runs_onwards [OF below_resumePrepared resumePrepared_goes] c)
  show ?thesis unfolding runSeries_def
    by (rule runs_returning [OF below_binding bindSeries_budget]) (auto intro!: all)
qed

section \<open>Recorded failures\<close>

lemma persist_last:
  assumes "persist d ts q control patch w = (Inr c, w')"
  shows "rw_log w' = rw_log w @ [Persisted c]"
  using assms unfolding persist_def writeControlCas_def
  by (auto simp: envM_def logM_def modM_def ok_def retM_def checkM_def failM_def fail_def bindM_def thenM_def liftR_def getM_def
      split: prod.splits sum.splits if_splits)

lemma now_log: "nowM d w = (r, w') \<Longrightarrow> rw_log w' = rw_log w"
  by (auto simp: nowM_def envM_def split: prod.split_asm)

text \<open>A failed attempt in the control state, blocked with the state to resume or not.\<close>

definition failure_written :: "AttemptRequest \<Rightarrow> AttemptSeries \<Rightarrow> Attempt \<Rightarrow> err \<Rightarrow> bool \<Rightarrow> ControlState \<Rightarrow> bool" where
  "failure_written q x a e blocked c \<longleftrightarrow>
     (\<exists>ts. cs_attemptSeries c = Some (x \<lparr> as_current := Some (failed_attempt a ts (controlError e)) \<rparr>))
     \<and> (blocked \<longrightarrow> cs_stateId c = ''blocked'' \<and> cs_resumeStateId c = Some (rq_stateId q))"

lemma blocked_written:
  assumes "persistBlocked d q control x e receipt w = (Inr u, w')" "as_current x = Some a" "at_status a = AttFailed"
  shows "\<exists>c. rw_log w' = rw_log w @ [Persisted c] \<and> cs_attemptSeries c = Some x \<and> cs_stateId c = ''blocked''
    \<and> cs_resumeStateId c = Some (rq_stateId q)"
proof -
  from assms(1) obtain ts w1 c where n: "nowM d w = (Inr ts, w1)"
    and p: "persist d ts q control (series_patch (x \<lparr> as_current := Some a \<rparr>) receipt
            \<lparr> cp_stateId := Some ''blocked'', cp_resumeStateId := Some (Some (rq_stateId q)) \<rparr>) w1 = (Inr c, w')"
    unfolding persistBlocked_def Let_def bindM_Inr_iff ret_iff using assms(2,3) by auto
  have "x \<lparr> as_current := Some a \<rparr> = x" using assms(2) by (cases x) simp
  then show ?thesis
    using advance_ok [of "rd_controlSchema d" control _ ts c] persist_result(1) [OF p] persist_last [OF p] now_log [OF n]
    by (auto simp: ok_def opt_or_def series_patch_def)
qed

lemma recorded:
  assumes "recordFailure d q control x e a failure w = (Inr r, w')"
  shows "\<exists>c. rw_log w' = rw_log w @ [Persisted c] \<and> failure_written q x a e (r = None) c
    \<and> (r = None \<longleftrightarrow> \<not> retryable e \<or> as_maxAttempts x \<le> as_consumed x)"
proof -
  from assms obtain ts w1 where n: "nowM d w = (Inr ts, w1)" and
    m: "(let y = x \<lparr> as_current := Some (failed_attempt a ts (controlError e)) \<rparr>
      in if \<not> retryable e \<or> as_maxAttempts y \<le> as_consumed y
         then thenM (persistBlocked d q control y (controlError e) failure) (retM None)
         else bindM (persistSeries d q control y failure) (\<lambda>c. retM (Some (c, y)))) w1 = (Inr r, w')"
    unfolding recordFailure_def bindM_Inr_iff by blast
  define y where y: "y = x \<lparr> as_current := Some (failed_attempt a ts (controlError e)) \<rparr>"
  have st: "as_current y = Some (failed_attempt a ts (controlError e))" "at_status (failed_attempt a ts (controlError e)) = AttFailed"
    by (simp_all add: y failed_attempt_def)
  show ?thesis
  proof (cases "\<not> retryable e \<or> as_maxAttempts x \<le> as_consumed x")
    case True
    then have "persistBlocked d q control y (controlError e) failure w1 = (Inr (), w')" "r = None"
      using m by (auto simp: Let_def y thenM_Inr_iff ret_iff)
    from blocked_written [OF this(1) st] True \<open>r = None\<close> now_log [OF n] show ?thesis
      by (auto simp: failure_written_def y)
  next
    case False
    then obtain c w2 where s: "persistSeries d q control y failure w1 = (Inr c, w')" and r: "r = Some (c, y)"
      using m by (auto simp: Let_def y bindM_Inr_iff ret_iff)
    from s obtain ts2 w3 where n2: "nowM d w1 = (Inr ts2, w3)" and p: "persist d ts2 q control (series_patch y failure) w3 = (Inr c, w')"
      unfolding persistSeries_def bindM_Inr_iff by blast
    show ?thesis
      using advance_ok [of "rd_controlSchema d" control _ ts2 c] persist_result(1) [OF p] persist_last [OF p] now_log [OF n] now_log [OF n2] False r
      by (auto simp: ok_def opt_or_def series_patch_def failure_written_def y)
  qed
qed


section \<open>The runner\<close>

text \<open>What happens to a runner: starts, cancellations that throw or not, and confirmed terminations.\<close>

inductive runner_step :: "('a fsys_scheme) RunnerDeps \<Rightarrow> ('a fsys_scheme) runner \<Rightarrow> ('a fsys_scheme) runner \<Rightarrow> bool"
  for d :: "('a fsys_scheme) RunnerDeps" where
  start: "startAttempt d q r = (x, r') \<Longrightarrow> runner_step d r r'"
| cancel: "cancelAttempt flowId r = (x, r') \<Longrightarrow> runner_step d r r'"
| confirmed: "runner_step d r (terminationConfirmed flowId r)"
| elsewhere: "runner_step d r (r \<lparr> ru_env := s \<rparr>)"

inductive_cases runner_stepE: "runner_step d r r'"

definition accounted :: "'s runner \<Rightarrow> bool" where
  "accounted r \<longleftrightarrow> distinct (ru_active r) \<and> ru_started r = ru_finished r + length (ru_active r)"

lemma removed_one: "distinct xs \<Longrightarrow> x \<in> set xs \<Longrightarrow> length xs = Suc (length (removeAll x xs))"
  by (induction xs) auto

lemma jobEnded_accounts:
  "accounted r \<Longrightarrow> cs_flowInstanceId (rq_control q) \<notin> set (ru_active r) \<Longrightarrow>
    jobEnded d q result w (r \<lparr> ru_active := cs_flowInstanceId (rq_control q) # ru_active r, ru_started := ru_started r + 1 \<rparr>) = (x, r')
    \<Longrightarrow> accounted r'"
  by (auto simp: jobEnded_def Let_def accounted_def)

lemma startAttempt_accounts:
  fixes d :: "('a fsys_scheme) RunnerDeps"
  assumes "accounted r" "startAttempt d q r = (x, r')"
  shows "accounted r'"
proof (cases "isRunning r (cs_flowInstanceId (rq_control q))")
  case True
  then show ?thesis using assms by (simp add: startAttempt_def Let_def)
next
  case False
  let ?b = "case persistedBinding q of Some b \<Rightarrow> retM b | None \<Rightarrow> ruM (rd_execution d (rq_agentId q))"
  obtain y r1 where b: "?b r = (y, r1)" by fastforce
  have r1: "accounted r1" "ru_active r1 = ru_active r"
    using b assms(1) by (auto simp: ruM_def accounted_def retM_def split: option.split_asm prod.split_asm)
  show ?thesis
  proof (cases y)
    case (Inl e)
    then show ?thesis using assms(2) b r1 False by (simp add: startAttempt_def bindM_def)
  next
    case (Inr binding)
    note y = this
    have run: "(bindM (liftR (validateRequest d q)) (\<lambda>_. bindM (liftR (shouldNotStart q (ex_maxAttempts (snd binding)))) (\<lambda>stop.
       if stop then retM ()
       else (\<lambda>r. case runSeries d q binding (new_run (ru_env r) (rq_control q)) of (result, w) \<Rightarrow>
              jobEnded d q result w (r \<lparr> ru_active := cs_flowInstanceId (rq_control q) # ru_active r, ru_started := ru_started r + 1 \<rparr>))))) r1
       = (x, r')"
      using assms(2) b y False by (simp add: startAttempt_def Let_def bindM_def [of ?b])
    show ?thesis
    proof (cases "validateRequest d q")
      case (Inl e)
      then show ?thesis using run r1 by (simp add: bindM_def liftR_def)
    next
      case (Inr p)
      note v = this
      show ?thesis
      proof (cases "shouldNotStart q (ex_maxAttempts (snd binding))")
        case (Inl e)
        then show ?thesis using run v r1 by (simp add: bindM_def liftR_def)
      next
        case (Inr stop)
        show ?thesis
        proof (cases stop)
          case True
          then show ?thesis using run v Inr r1 by (simp add: bindM_def liftR_def retM_def)
        next
          case noStop: False
          obtain result w where s: "runSeries d q binding (new_run (ru_env r1) (rq_control q)) = (result, w)" by fastforce
          then have "jobEnded d q result w (r1 \<lparr> ru_active := cs_flowInstanceId (rq_control q) # ru_active r1, ru_started := ru_started r1 + 1 \<rparr>) = (x, r')"
            using run v Inr noStop by (simp add: bindM_def liftR_def)
          then show ?thesis using jobEnded_accounts r1 False by (metis isRunning_def)
        qed
      qed
    qed
  qed
qed

lemma step_accounts: "runner_step d r r' \<Longrightarrow> accounted r \<Longrightarrow> accounted r'"
proof (erule runner_stepE)
  fix flowId x assume "cancelAttempt flowId r = (x, r')" "accounted r"
  then show ?thesis by (auto simp: cancelAttempt_def failM_def split: if_split_asm)
next
  fix flowId assume "r' = terminationConfirmed flowId r" "accounted r"
  then show ?thesis using removed_one [of "ru_active r" flowId] by (auto simp: terminationConfirmed_def isRunning_def accounted_def distinct_removeAll)
next
  fix q x assume "startAttempt d q r = (x, r')" "accounted r"
  then show ?thesis by (rule startAttempt_accounts [rotated])
qed (simp add: accounted_def)

section \<open>A concrete runner\<close>

definition demo_provider :: "fsys DecisionProvider" where
  "demo_provider = \<lparr> pv_kind = Github, pv_readTicket = (\<lambda>_ _. failM ''none''), pv_readComment = (\<lambda>_ _. failM ''none''),
     pv_readChangeRequest = (\<lambda>_ _. failM ''none''), pv_findReview = (\<lambda>_ _ _ _. retM None),
     pv_readReview = (\<lambda>_ _ _. failM ''none''), pv_permission = (\<lambda>_ _. retM PWrite),
     pv_createComment = (\<lambda>_ _. failM ''none''), pv_url = (\<lambda>_. None) \<rparr>"

definition demo_binding :: "string \<times> ExecutionSnapshot" where
  "demo_binding = (''digest'', \<lparr> ex_harness = Claude, ex_model = ''m'', ex_reasoning = High, ex_maxAttempts = 2,
     ex_delaySeconds = 0, ex_timeoutSeconds = 60 \<rparr>)"

definition runner_bundle :: ConfigBundle where
  "runner_bundle = sample_bundle \<lparr> cb_revision := sample_sha,
     cb_stack := (cb_stack sample_bundle) \<lparr> sd_preparedPublication := False \<rparr> \<rparr>"

definition runner_control :: ControlState where
  "runner_control = sample_control \<lparr> cs_configRevision := sample_sha, cs_attemptSeries := None, cs_latestReceipt := None \<rparr>"

definition runner_request :: AttemptRequest where
  "runner_request = \<lparr> rq_migration = None, rq_ref = sample_ref, rq_snapshot = sample_snapshot, rq_control = runner_control,
     rq_bundle = runner_bundle, rq_stateId = ''develop'', rq_state = the (state_of sample_flow ''develop''), rq_agentId = ''dev'',
     rq_mode = MStage, rq_sourceComment = None, rq_resultContract = RDevelopment, rq_inputRevision = ''i1'',
     rq_controllerId = sample_uuid, rq_publicationKeys = [] \<rparr>"

text \<open>The harness fails once and then succeeds.\<close>

definition runner_harness :: "HarnessRun \<Rightarrow> fsys \<Rightarrow> HarnessEnd \<times> fsys" where
  "runner_harness r s = (if fs_uuids s = [] then Ended None (Some 0) False False else Ended None (Some 1) False False, s)"

definition runner_deps :: "fsys RunnerDeps" where
  "runner_deps = \<lparr> rd_cancelled = (\<lambda>_. False), rd_dataDirectory = [''data''], rd_provider = demo_provider, rd_apiUrl = ''u'',
     rd_repositories = [''acme/app''], rd_credentialProvider = Github, rd_credentialApiUrl = ''u'',
     rd_preparePinnedAgent = (\<lambda>_ _ p. retM (runner_bundle, p)), rd_execution = (\<lambda>_. retM demo_binding),
     rd_prepareWorkspace = (\<lambda>_ _ _ _. retM ''w''),
     rd_createSession = (\<lambda>_ _ _ _ _ _. retM \<lparr> ses_root = [''s''], ses_contextPath = [''s'', ''c''],
       ses_decisionPath = [''s'', ''d''], ses_logPath = [''s'', ''l''], ses_harnessSessionDirectory = [''s'', ''h''] \<rparr>),
     rd_compileAgent = (\<lambda>i _ t _. retM \<lparr> ca_agentId = i, ca_target = t \<rparr>),
     rd_harness = (\<lambda>t. if t = Claude then Some (Claude, runner_harness) else None),
     rd_writeControl = (\<lambda>_ _ n _. retM n), rd_verifyDecision = (\<lambda>_ _ _. retM sample_receipt),
     rd_archiveReceipt = (\<lambda>_ _. retM ()), rd_delay = (\<lambda>_. retM ()), rd_now = retM ''2026-01-02T00:00:00Z'', rd_newId = randomUUID,
     rd_prepared = \<lparr> pe_event = (\<lambda>_. None), pe_usage = (\<lambda>_. None), pe_usageJson = (\<lambda>_. JNull) \<rparr>,
     rd_controlSchema = (\<lambda>_. True), rd_receiptSchema = (\<lambda>_. True) \<rparr>"

definition runner_files :: fsys where
  "runner_files = \<lparr> fs_node = (\<lambda>_. None), fs_faults = [], fs_uuids = [''s1'', ''a1'', ''a2''] \<rparr>"

definition event_kind :: "run_event \<Rightarrow> string" where
  "event_kind e = (case e of Ran i \<Rightarrow> ''ran '' @ i | Verified r \<Rightarrow> ''verified''
     | Persisted c \<Rightarrow> (case series_now c of None \<Rightarrow> ''none'' | Some (x, a) \<Rightarrow> (case at_status a of Started \<Rightarrow> ''started''
          | AttFailed \<Rightarrow> ''failed'' | AttSucceeded \<Rightarrow> ''succeeded'' | AttCancelled \<Rightarrow> ''cancelled'')))"


section \<open>Properties\<close>

text \<open>
  C26: In every run of a series that may be started, the model runs only in an attempt that was first written to the
  control state as started, within the budget; and a success is written only together with the receipt that the provider
  confirmed before (with the usage of the run), whatever the dependencies do or break.
\<close>

theorem attempts_justified:
  assumes "shouldNotStart q m = Inr False"
  shows "well_run (rw_log (snd (runSeries d q binding (new_run s c))))"
proof -
  have "keeps_log {} (new_run s c)" by (simp add: keeps_log_def well_run_def new_run_def)
  then show ?thesis using log_runSeries [OF assms, of "{}"] unfolding keepsM_def keeps_log_def by blast
qed

definition runner_log :: "run_event list" where
  "runner_log = rw_log (snd (runSeries runner_deps runner_request demo_binding (new_run runner_files runner_control)))"

lemma runner_log_kinds:
  "map event_kind runner_log = [''started'', ''ran a1'', ''failed'', ''started'', ''ran a2'', ''verified'', ''succeeded'']"
  by code_simp

theorem attempts_justified_witness:
  "map event_kind runner_log = [''started'', ''ran a1'', ''failed'', ''started'', ''ran a2'', ''verified'', ''succeeded'']
     \<and> well_run runner_log"
proof -
  have "shouldNotStart runner_request 2 = Inr False" by code_simp
  from attempts_justified [OF this] show ?thesis using runner_log_kinds unfolding runner_log_def by blast
qed

text \<open>
  C27: However often attempts fail and whatever the dependencies do, a series that is taken up with its persisted budget
  runs the model at most as often as the attempts left in that budget (or the configured maximum, for a new series). The
  loop is the while loop of the code, so that the bound rests on each round counting its attempt.
\<close>

theorem attempts_bounded:
  "length (filter is_run (rw_log (snd (runSeries d q binding (new_run s c))))) \<le> series_budget q (snd binding)"
proof -
  have "below 0 (new_run s c)" by (simp add: below_def runs_def new_run_def)
  then have "below (0 + series_budget q (snd binding)) (snd (runSeries d q binding (new_run s c)))"
    using runs_series unfolding runsM_def by blast
  then show ?thesis by (simp add: below_def runs_def)
qed

text \<open>
  C28: A failed attempt is always written to the control state with its classified error: when another attempt makes
  sense and the budget is not used up, to try again, and otherwise as blocked, with the stage to resume.
\<close>

theorem failure_recorded:
  assumes "recordFailure d q control x e a failure w = (Inr r, w')"
  shows "\<exists>c. rw_log w' = rw_log w @ [Persisted c] \<and> failure_written q x a e (r = None) c
    \<and> (r = None \<longleftrightarrow> \<not> retryable e \<or> as_maxAttempts x \<le> as_consumed x)"
  by (rule recorded [OF assms])

text \<open>The first attempt of the series times out, with another two left.\<close>

definition timed_out :: "(ControlState \<times> AttemptSeries) option res \<times> fsys rworld" where
  "timed_out = recordFailure runner_deps runner_request runner_control sample_series (AttemptError ''HARNESS_TIMEOUT'' ''t'' True)
     \<lparr> at_attemptId = ''a1'', at_status = Started, at_startedAt = [], at_finishedAt = None, at_error = None \<rparr> None
     (new_run runner_files runner_control)"

theorem failure_recorded_witness:
  "\<exists>c. rw_log (snd timed_out) = [Persisted c] \<and> \<not> (\<not> retryable (AttemptError ''HARNESS_TIMEOUT'' ''t'' True)
     \<or> as_maxAttempts sample_series \<le> as_consumed sample_series)"
proof -
  have k: "case fst timed_out of Inr (Some x) \<Rightarrow> True | _ \<Rightarrow> False" by code_simp
  then obtain x where "fst timed_out = Inr (Some x)" by (auto split: sum.split_asm option.split_asm)
  then have x: "timed_out = (Inr (Some x), snd timed_out)" by (metis prod.collapse)
  have "rw_log (new_run runner_files runner_control) = []" by (simp add: new_run_def)
  then show ?thesis using failure_recorded [OF x [unfolded timed_out_def], folded timed_out_def] by auto
qed

text \<open>
  Whatever starts, cancellations and confirmed terminations a runner sees, no flow is active twice, and every started
  attempt is either finished or belongs to an active flow, whose process may still live.
\<close>

theorem runner_accounted:
  assumes "(runner_step d)\<^sup>*\<^sup>* \<lparr> ru_env = s, ru_active = [], ru_started = 0, ru_finished = 0, ru_settled = [] \<rparr> r"
  shows "distinct (ru_active r) \<and> ru_started r = ru_finished r + length (ru_active r)"
proof -
  have "accounted r" using assms
  proof induction
    case base
    show ?case by (simp add: accounted_def)
  qed (rule step_accounts)
  then show ?thesis by (simp add: accounted_def)
qed


definition runner_after :: "unit res \<times> fsys runner" where
  "runner_after = startAttempt runner_deps runner_request
     \<lparr> ru_env = runner_files, ru_active = [], ru_started = 0, ru_finished = 0, ru_settled = [] \<rparr>"

theorem runner_accounted_witness:
  "ru_started (snd runner_after) = 1 \<and> ru_settled (snd runner_after) = [sample_ref] \<and> distinct (ru_active (snd runner_after))
     \<and> ru_started (snd runner_after) = ru_finished (snd runner_after) + length (ru_active (snd runner_after))"
proof -
  let ?r = "\<lparr> ru_env = runner_files, ru_active = [], ru_started = 0, ru_finished = 0, ru_settled = [] \<rparr>"
  have "startAttempt runner_deps runner_request ?r = (fst runner_after, snd runner_after)"
    by (simp add: runner_after_def)
  then have "(runner_step runner_deps)\<^sup>*\<^sup>* ?r (snd runner_after)"
    using runner_step.start by blast
  moreover have "ru_started (snd runner_after) = 1 \<and> ru_settled (snd runner_after) = [sample_ref]" by code_simp
  ultimately show ?thesis using runner_accounted by blast
qed

end
