(* ===== verification/HarnessProcess.thy ===== *)
theory HarnessProcess
  imports Filesystem
begin

text \<open>
  src/harness/process.ts and src/config/provider-credentials.ts: the environment and the prompt of a harness, its
  preflight, the checks of the files it is given, and the supervision of its process. The supervised process is a state
  machine: its events are those of the timers, of the child, of its streams and log, the cancellation, and the passing
  of a millisecond. A timer that is due fires before time passes. The kill call of an event may fail: the flag of the
  event says whether it succeeded.
\<close>

section \<open>Environment and prompt\<close>

definition MAX_PROMPT_BYTES :: int where "MAX_PROMPT_BYTES = 1048576"
definition MAX_ENVIRONMENT_VALUE_BYTES :: int where "MAX_ENVIRONMENT_VALUE_BYTES = 4096"
definition POST_EXIT_DRAIN_MS :: nat where "POST_EXIT_DRAIN_MS = 1000"
definition SIGNAL_FAILURE_SETTLE_MS :: nat where "SIGNAL_FAILURE_SETTLE_MS = 1000"
definition TERMINATION_GRACE_MS :: nat where "TERMINATION_GRACE_MS = 10000"

definition INHERITED_ENVIRONMENT :: "string list" where
  "INHERITED_ENVIRONMENT = [''PATH'', ''HOME'', ''LANG'', ''LC_ALL'', ''TMPDIR'', ''SSL_CERT_FILE'', ''SSL_CERT_DIR'', ''NODE_EXTRA_CA_CERTS'']"

definition buildPrompt :: "string \<Rightarrow> string \<Rightarrow> string res" where
  "buildPrompt instructions stagePrompt =
    (let prompt = trim_str instructions @ [CHR 0x0A, CHR 0x0A] @ trim_str stagePrompt @ [CHR 0x0A]
     in bindR (checkR (MAX_PROMPT_BYTES < byteLength prompt) ''harness prompt exceeds 1048576 bytes'') (\<lambda>_. ok prompt))"

definition safeEnvironmentValue :: "string \<Rightarrow> bool" where
  "safeEnvironmentValue v \<longleftrightarrow> CHR 0x00 \<notin> set v \<and> byteLength v \<le> MAX_ENVIRONMENT_VALUE_BYTES"

definition safe_name :: "string \<Rightarrow> bool" where
  "safe_name n \<longleftrightarrow> (case n of [] \<Rightarrow> False | c # cs \<Rightarrow> is_upper c \<and> list_all (\<lambda>c. is_upper c \<or> is_digit c \<or> c = CHR ''_'') cs)"

fun override :: "(string \<rightharpoonup> string) \<Rightarrow> (string \<times> string) list \<Rightarrow> (string \<rightharpoonup> string) res" where
  "override environment [] = ok environment"
| "override environment ((name, val) # xs) =
    bindR (checkR (\<not> safe_name name) (''invalid harness environment name: '' @ name)) (\<lambda>_.
    bindR (checkR (\<not> safeEnvironmentValue val) (''invalid harness environment value: '' @ name)) (\<lambda>_.
      override (environment(name \<mapsto> val)) xs))"

definition inherited :: "(string \<rightharpoonup> string) \<Rightarrow> string \<rightharpoonup> string" where
  "inherited outer n = (if n \<in> set INHERITED_ENVIRONMENT \<and> opt_is safeEnvironmentValue (outer n) then outer n else None)"

definition harnessEnvironment :: "(string \<rightharpoonup> string) \<Rightarrow> (string \<times> string) list \<Rightarrow> (string \<rightharpoonup> string) res" where
  "harnessEnvironment outer overrides =
    bindR (checkR (inherited outer ''PATH'' \<in> {None, Some []}) ''PATH is required for harness execution'') (\<lambda>_.
      override (inherited outer) overrides)"

definition isProviderTokenEnvironment :: "ProviderKind \<Rightarrow> string \<Rightarrow> bool" where
  "isProviderTokenEnvironment p name =
    (case p of Gitlab \<Rightarrow> name = ''GITLAB_TOKEN'' | Github \<Rightarrow> name = ''GH_TOKEN'' \<or> name = ''GH_ENTERPRISE_TOKEN'')"

text \<open>The host name of a URL, in lower case, is a parameter.\<close>

definition providerTokenEnvironment :: "(string \<Rightarrow> string res) \<Rightarrow> ProviderKind \<Rightarrow> string \<Rightarrow> string res" where
  "providerTokenEnvironment hostname p apiUrl =
    (case p of Gitlab \<Rightarrow> ok ''GITLAB_TOKEN''
     | Github \<Rightarrow> bindR (hostname apiUrl) (\<lambda>h.
         ok (if h = ''github.com'' \<or> h = ''api.github.com'' \<or> ends_with h ''.ghe.com'' then ''GH_TOKEN'' else ''GH_ENTERPRISE_TOKEN'')))"

definition providerCredentialEnvironment :: "ProviderKind \<Rightarrow> string \<Rightarrow> string \<Rightarrow> (string \<times> string) list res" where
  "providerCredentialEnvironment p name val =
    bindR (checkR (\<not> isProviderTokenEnvironment p name) ''unsupported provider credential environment'') (\<lambda>_. ok [(name, val)])"

section \<open>Source files\<close>

text \<open>A regular source is reached from the root through directories that are no links.\<close>

fun source_parts :: "string \<Rightarrow> path \<Rightarrow> node \<Rightarrow> string list \<Rightarrow> ('a fsys_scheme, node) io" where
  "source_parts label current info [] = retM info"
| "source_parts label current info (c # cs) = (let p = current @ [c] in
     bindM (lstat p) (\<lambda>info.
      thenM (checkM (is_link info) (label @ '' must not contain symbolic links''))
     (thenM (checkM (cs \<noteq> [] \<and> info \<noteq> Dir) (label @ '' parent must be a directory''))
        (source_parts label p info cs))))"

definition assertRegularSource :: "path \<Rightarrow> bool \<Rightarrow> string \<Rightarrow> ('a fsys_scheme, path) io" where
  "assertRegularSource p directory label =
    bindM (lstat []) (\<lambda>info. bindM (source_parts label [] info (filter (\<lambda>c. c \<noteq> []) p)) (\<lambda>info.
     thenM (checkM (if directory then info \<noteq> Dir else \<not> is_regular info)
        (label @ '' must be a regular '' @ (if directory then ''directory'' else ''file''))) (retM p)))"

definition pathIs :: "path \<Rightarrow> bool \<Rightarrow> string \<Rightarrow> ('a fsys_scheme, bool) io" where
  "pathIs p directory label = tryM (bindM (assertRegularSource p directory label) (\<lambda>_. retM True))
     (\<lambda>e. if e = FileMissing then retM False else throwM e)"

definition pathIsDirectory :: "path \<Rightarrow> ('a fsys_scheme, bool) io" where
  "pathIsDirectory p = pathIs p True ''source directory''"

definition pathIsFile :: "path \<Rightarrow> ('a fsys_scheme, bool) io" where
  "pathIsFile p = pathIs p False ''source file''"

text \<open>The two directories below the root are made one after the other here.\<close>

definition createCliConfigEnvironment :: "path \<Rightarrow> ('a fsys_scheme, (string \<times> string) list) io" where
  "createCliConfigEnvironment home =
    bindM (createSafeDirectory home (home @ [''cli-config'']) ''CLI configuration directory'') (\<lambda>rt.
    bindM (createSafeDirectory rt (rt @ [''gh'']) ''GitHub CLI configuration directory'') (\<lambda>github.
    bindM (createSafeDirectory rt (rt @ [''glab'']) ''GitLab CLI configuration directory'') (\<lambda>gitlab.
      retM [(''GH_CONFIG_DIR'', path_str github), (''GLAB_CONFIG_DIR'', path_str gitlab)])))"

section \<open>Preflight\<close>

text \<open>The temporary home is made, used and removed; every failure is the one error of the preflight.\<close>

definition preflightHarness ::
  "HarnessTarget \<Rightarrow> (string \<rightharpoonup> string) \<Rightarrow> ('s, string) io \<Rightarrow> (string \<Rightarrow> ('s, unit) io) \<Rightarrow> (string \<Rightarrow> ('s, unit) io)
     \<Rightarrow> (string \<Rightarrow> string list \<Rightarrow> (string \<rightharpoonup> string) \<Rightarrow> ('s, unit) io) \<Rightarrow> ('s, unit) io" where
  "preflightHarness target outer makeHome removeHome seedHome runCommand =
    bindM (tryM (bindM makeHome (\<lambda>h. retM (Some h))) (\<lambda>_. retM None)) (\<lambda>home.
     (case home of None \<Rightarrow> throwM HarnessPreflightError
      | Some h \<Rightarrow>
         bindM (tryM (thenM (seedHome h)
                (bindM (liftR (harnessEnvironment outer [(if target = Codex then ''CODEX_HOME'' else ''CLAUDE_CONFIG_DIR'', h)])) (\<lambda>environment.
                 (let command = (if target = Codex then ''codex'' else ''claude'') in
                 thenM (runCommand command [''--version''] environment)
                (thenM (runCommand command (if target = Codex then [''login'', ''status''] else [''auth'', ''status'']) environment)
                   (retM False))))))
               (\<lambda>_. retM True)) (\<lambda>failed.
         bindM (tryM (thenM (removeHome h) (retM failed)) (\<lambda>_. retM True)) (\<lambda>failed.
           if failed then throwM HarnessPreflightError else retM ()))))"

section \<open>The supervised process\<close>

datatype Failure = ProcessFailure bool | TerminationFailure

datatype timer = Unset | Running nat | Cleared

datatype RunEnd = Resolved "int option" "string option" bool | Rejected Failure

record proc =
  px_now :: nat
  px_started :: bool
  px_childExit :: "int option"
  px_childSignal :: "string option"
  px_settled :: bool
  px_timedOut :: bool
  px_terminating :: bool
  px_exited :: bool
  px_confirmed :: bool
  px_listening :: bool
  px_aborted :: bool
  px_failure :: "Failure option"
  px_timeout :: timer
  px_grace :: timer
  px_drain :: timer
  px_drainArgs :: "int option \<times> string option"
  px_terminal :: timer
  px_pending :: "int option \<times> string option"
  px_end :: "RunEnd option"
  px_sent :: "(string \<times> nat) list"

definition child_ended :: "proc \<Rightarrow> bool" where
  "child_ended p \<longleftrightarrow> px_childExit p \<noteq> None \<or> px_childSignal p \<noteq> None"

definition cleared :: "timer \<Rightarrow> timer" where
  "cleared t = (if t = Unset then Unset else Cleared)"

definition stopLifecycle :: "proc \<Rightarrow> proc" where
  "stopLifecycle p = p \<lparr> px_timeout := cleared (px_timeout p), px_grace := cleared (px_grace p),
     px_drain := cleared (px_drain p), px_terminal := cleared (px_terminal p), px_listening := False \<rparr>"

text \<open>The first part of complete; the second one follows when the log has ended.\<close>

definition complete :: "int option \<Rightarrow> string option \<Rightarrow> proc \<Rightarrow> proc" where
  "complete exitCode signal p =
    (if px_settled p then p else (stopLifecycle p) \<lparr> px_settled := True, px_pending := (exitCode, signal) \<rparr>)"

definition logEnded :: "bool \<Rightarrow> proc \<Rightarrow> proc" where
  "logEnded logFailed p =
    (let failure = (if logFailed \<and> px_failure p \<noteq> Some TerminationFailure then Some (ProcessFailure False) else px_failure p)
     in p \<lparr> px_failure := failure,
          px_end := Some (case failure of Some f \<Rightarrow> Rejected f
            | None \<Rightarrow> Resolved (fst (px_pending p)) (snd (px_pending p)) (px_timedOut p)) \<rparr>)"

definition failing :: "Failure \<Rightarrow> proc \<Rightarrow> proc" where
  "failing f p = p \<lparr> px_failure := (case px_failure p of None \<Rightarrow> Some f | Some g \<Rightarrow> Some g) \<rparr>"

definition signalChild :: "string \<Rightarrow> bool \<Rightarrow> proc \<Rightarrow> proc" where
  "signalChild signal killed p =
    (let q = p \<lparr> px_sent := px_sent p @ [(signal, px_now p)] \<rparr>
     in if killed then q else failing (ProcessFailure False) q)"

definition exitChild :: "int option \<Rightarrow> string option \<Rightarrow> proc \<Rightarrow> proc" where
  "exitChild exitCode signal p =
    (let q = p \<lparr> px_exited := True, px_timeout := cleared (px_timeout p), px_grace := cleared (px_grace p),
         px_terminal := cleared (px_terminal p) \<rparr>
     in if px_drain p = Unset
        then q \<lparr> px_drain := Running (px_now p + POST_EXIT_DRAIN_MS), px_drainArgs := (exitCode, signal) \<rparr> else q)"

definition terminate :: "bool \<Rightarrow> bool \<Rightarrow> proc \<Rightarrow> proc" where
  "terminate forTimeout killed p =
    (if px_settled p \<or> px_terminating p then p
     else if px_exited p \<or> child_ended p then exitChild (px_childExit p) (px_childSignal p) p
     else signalChild ''SIGTERM'' killed (p \<lparr> px_terminating := True, px_timedOut := forTimeout,
       px_timeout := cleared (px_timeout p), px_grace := Running (px_now p + TERMINATION_GRACE_MS) \<rparr>))"

definition escalate :: "bool \<Rightarrow> proc \<Rightarrow> proc" where
  "escalate killed p =
    (if px_settled p then p
     else if px_exited p \<or> child_ended p then exitChild (px_childExit p) (px_childSignal p) p
     else signalChild ''SIGKILL'' killed (p \<lparr> px_terminal := Running (px_now p + SIGNAL_FAILURE_SETTLE_MS) \<rparr>))"

definition giveUp :: "proc \<Rightarrow> proc" where
  "giveUp p = complete (px_childExit p) (px_childSignal p) (p \<lparr> px_failure := Some TerminationFailure \<rparr>)"

definition processError :: "bool \<Rightarrow> bool \<Rightarrow> proc \<Rightarrow> proc" where
  "processError missingBinary killed p =
    (if px_failure p = Some TerminationFailure then p
     else let q = p \<lparr> px_failure := Some (ProcessFailure (\<not> px_started p \<and> \<not> missingBinary)) \<rparr>
       in if \<not> px_started p then complete None None q
          else if \<not> px_terminating p \<and> \<not> px_exited p then terminate False killed q else q)"

definition streamError :: "bool \<Rightarrow> proc \<Rightarrow> proc" where
  "streamError killed p = (let q = failing (ProcessFailure False) p in if px_exited q then q else terminate False killed q)"

definition new_proc :: "nat \<Rightarrow> bool \<Rightarrow> proc" where
  "new_proc timeoutSeconds started = \<lparr> px_now = 0, px_started = started, px_childExit = None, px_childSignal = None,
     px_settled = False, px_timedOut = False, px_terminating = False, px_exited = False, px_confirmed = False,
     px_listening = True, px_aborted = False, px_failure = None, px_timeout = Running (timeoutSeconds * 1000),
     px_grace = Unset, px_drain = Unset, px_drainArgs = (None, None), px_terminal = Unset, px_pending = (None, None),
     px_end = None, px_sent = [] \<rparr>"

subsection \<open>Events\<close>

definition due :: "proc \<Rightarrow> timer \<Rightarrow> bool" where
  "due p t = (case t of Running d \<Rightarrow> d \<le> px_now p | _ \<Rightarrow> False)"

definition quiet_timers :: "proc \<Rightarrow> bool" where
  "quiet_timers p \<longleftrightarrow> \<not> due p (px_timeout p) \<and> \<not> due p (px_grace p) \<and> \<not> due p (px_drain p) \<and> \<not> due p (px_terminal p)"

datatype proc_event =
    Tick | TimeoutFires | GraceFires | TerminalFires | DrainFires | Abort
  | ChildEnds "int option" "string option" | ExitEvent | CloseEvent | ProcessErrorEvent bool | StreamErrorEvent | LogEnds bool

text \<open>When an event can happen. The listeners of exit and close are removed by stopLifecycle, those of errors after the log's end.\<close>

definition possible :: "proc_event \<Rightarrow> proc \<Rightarrow> bool" where
  "possible e p = (case e of
     Tick \<Rightarrow> quiet_timers p
   | TimeoutFires \<Rightarrow> due p (px_timeout p)
   | GraceFires \<Rightarrow> due p (px_grace p)
   | TerminalFires \<Rightarrow> due p (px_terminal p)
   | DrainFires \<Rightarrow> due p (px_drain p)
   | Abort \<Rightarrow> px_listening p \<and> \<not> px_aborted p
   | ChildEnds c s \<Rightarrow> \<not> child_ended p \<and> (c \<noteq> None \<or> s \<noteq> None)
   | ExitEvent \<Rightarrow> child_ended p
   | CloseEvent \<Rightarrow> child_ended p
   | ProcessErrorEvent m \<Rightarrow> px_end p = None
   | StreamErrorEvent \<Rightarrow> px_end p = None
   | LogEnds f \<Rightarrow> px_settled p \<and> px_end p = None)"

definition react :: "proc_event \<Rightarrow> bool \<Rightarrow> proc \<Rightarrow> proc" where
  "react e killed p = (case e of
     Tick \<Rightarrow> p \<lparr> px_now := px_now p + 1 \<rparr>
   | TimeoutFires \<Rightarrow> terminate True killed (p \<lparr> px_timeout := Cleared \<rparr>)
   | GraceFires \<Rightarrow> escalate killed (p \<lparr> px_grace := Cleared \<rparr>)
   | TerminalFires \<Rightarrow> giveUp (p \<lparr> px_terminal := Cleared \<rparr>)
   | DrainFires \<Rightarrow> (case px_drainArgs p of (c, s) \<Rightarrow> complete c s (p \<lparr> px_drain := Cleared \<rparr>))
   | Abort \<Rightarrow> terminate False killed (p \<lparr> px_aborted := True \<rparr>)
   | ChildEnds c s \<Rightarrow> p \<lparr> px_childExit := c, px_childSignal := s \<rparr>
   | ExitEvent \<Rightarrow> (let q = p \<lparr> px_confirmed := True \<rparr> in
       if px_listening q then exitChild (px_childExit q) (px_childSignal q) q else q)
   | CloseEvent \<Rightarrow> (let q = p \<lparr> px_confirmed := True \<rparr> in
       if px_listening q then complete (px_childExit q) (px_childSignal q) q else q)
   | ProcessErrorEvent m \<Rightarrow> processError m killed p
   | StreamErrorEvent \<Rightarrow> streamError killed p
   | LogEnds f \<Rightarrow> logEnded f p)"

inductive proc_step :: "proc \<Rightarrow> proc \<Rightarrow> bool" where
  happens: "possible e p \<Longrightarrow> proc_step p (react e killed p)"

inductive_cases proc_stepE: "proc_step p p'"

section \<open>Starting the process\<close>

text \<open>
  Before the process runs: the time-out is checked, the log is opened, and the process is spawned, which may fail
  because its binary is missing or otherwise. The cancellation is read where the code reads it.
\<close>

datatype Launch = Cancelled | Supervised proc

definition cancelledResult :: RunEnd where
  "cancelledResult = Resolved None (Some ''SIGTERM'') False"

definition launch_end :: "Launch \<Rightarrow> RunEnd option" where
  "launch_end l = (case l of Cancelled \<Rightarrow> Some cancelledResult | Supervised p \<Rightarrow> px_end p)"

definition runHarnessProcess ::
  "('a fsys_scheme \<Rightarrow> bool) \<Rightarrow> ('a fsys_scheme, bool) io \<Rightarrow> int \<Rightarrow> path \<Rightarrow> ('a fsys_scheme, Launch) io" where
  "runHarnessProcess aborted spawn timeoutSeconds logPath =
    thenM (checkM (timeoutSeconds < 1 \<or> 86400 < timeoutSeconds) ''harness timeout must be an integer from 1 to 86400 seconds'')
   (bindM (getM aborted) (\<lambda>a. if a then retM Cancelled
    else thenM (bindM (assertSafeFile (butlast logPath) logPath ''harness log'') (\<lambda>_. retM ()))
        (thenM (bindM (read_file logPath) (\<lambda>_. retM ()))
        (bindM (getM aborted) (\<lambda>a. if a then retM Cancelled
         else bindM (tryM spawn (\<lambda>e. throwM (HarnessProcessError (e \<noteq> FileMissing)))) (\<lambda>started.
              retM (Supervised (new_proc (nat timeoutSeconds) started))))))))"


section \<open>Invariants of the supervision\<close>

lemmas react_defs = react_def terminate_def escalate_def giveUp_def complete_def stopLifecycle_def exitChild_def
  processError_def streamError_def failing_def signalChild_def logEnded_def Let_def child_ended_def

text \<open>What an end rests on: the end of the child, its start that failed, or the time to give up.\<close>

definition end_known :: "proc \<Rightarrow> bool" where
  "end_known p \<longleftrightarrow> (px_exited p \<longrightarrow> child_ended p) \<and> (px_drain p \<noteq> Unset \<longrightarrow> px_exited p)
     \<and> (px_listening p \<longleftrightarrow> \<not> px_settled p)
     \<and> (px_settled p \<longrightarrow> child_ended p \<or> px_failure p = Some TerminationFailure \<or> (\<not> px_started p \<and> px_failure p \<noteq> None))
     \<and> (case px_end p of None \<Rightarrow> True | Some r \<Rightarrow> px_settled p
          \<and> (r = Rejected TerminationFailure \<or> child_ended p \<or> (\<not> px_started p \<and> (\<exists>f. r = Rejected f))))"

lemma end_known_new: "end_known (new_proc T started)"
  by (simp add: end_known_def new_proc_def)

lemma cleared_iff [simp]: "cleared t = Unset \<longleftrightarrow> t = Unset" "cleared t \<noteq> Running d"
  by (simp_all add: cleared_def)

lemma due_iff: "due p t \<longleftrightarrow> (\<exists>d. t = Running d \<and> d \<le> px_now p)"
  by (simp add: due_def split: timer.split)

text \<open>The deadline that every phase of a run has.\<close>

definition stopped :: "timer \<Rightarrow> bool" where
  "stopped t \<longleftrightarrow> (\<forall>d. t \<noteq> Running d)"

lemma stopped_simps [simp]: "stopped (cleared t)" "stopped Unset" "stopped Cleared" "\<not> stopped (Running d)"
  by (simp_all add: stopped_def)

lemma stopped_due [simp]: "stopped t \<Longrightarrow> \<not> due p t"
  by (auto simp: stopped_def due_iff)

definition phase_deadline :: "nat \<Rightarrow> proc \<Rightarrow> nat" where
  "phase_deadline T p = (if px_exited p then T + (TERMINATION_GRACE_MS + SIGNAL_FAILURE_SETTLE_MS + POST_EXIT_DRAIN_MS)
     else if \<not> px_terminating p then T
     else if px_terminal p = Unset then T + TERMINATION_GRACE_MS else T + (TERMINATION_GRACE_MS + SIGNAL_FAILURE_SETTLE_MS))"

definition phase_timer :: "proc \<Rightarrow> timer" where
  "phase_timer p = (if px_exited p then px_drain p else if \<not> px_terminating p then px_timeout p
     else if px_terminal p = Unset then px_grace p else px_terminal p)"

definition on_time :: "nat \<Rightarrow> proc \<Rightarrow> bool" where
  "on_time T p \<longleftrightarrow> (px_listening p \<longleftrightarrow> \<not> px_settled p)
     \<and> (px_settled p \<longrightarrow> stopped (px_timeout p) \<and> stopped (px_grace p) \<and> stopped (px_drain p) \<and> stopped (px_terminal p))
     \<and> (\<not> px_settled p \<longrightarrow>
          (\<exists>d. phase_timer p = Running d \<and> px_now p \<le> d \<and> d \<le> phase_deadline T p)
          \<and> (px_exited p \<longrightarrow> stopped (px_timeout p) \<and> stopped (px_grace p) \<and> stopped (px_terminal p))
          \<and> (\<not> px_exited p \<longrightarrow> px_drain p = Unset)
          \<and> (\<not> px_exited p \<and> px_terminating p \<longrightarrow> stopped (px_timeout p) \<and> (px_terminal p \<noteq> Unset \<longrightarrow> stopped (px_grace p)))
          \<and> (\<not> px_exited p \<and> \<not> px_terminating p \<longrightarrow> px_grace p = Unset \<and> px_terminal p = Unset))"

lemma on_time_new: "on_time (T * 1000) (new_proc T started)"
  by (simp add: on_time_def new_proc_def phase_timer_def phase_deadline_def)

lemmas grace_defs = TERMINATION_GRACE_MS_def SIGNAL_FAILURE_SETTLE_MS_def POST_EXIT_DRAIN_MS_def

lemma end_known_step: "possible e p \<Longrightarrow> end_known p \<Longrightarrow> end_known (react e killed p)"
  by (cases e; auto simp: end_known_def react_defs possible_def due_iff split: option.splits if_splits prod.splits)

lemma on_time_step: "possible e p \<Longrightarrow> on_time T p \<Longrightarrow> on_time T (react e killed p)"
  by (cases e; auto simp: on_time_def react_defs grace_defs phase_timer_def phase_deadline_def possible_def quiet_timers_def due_iff
      split: if_splits prod.splits)

text \<open>The kill follows the request to terminate after the time of grace, and giving up follows the kill.\<close>

definition escalated :: "nat \<Rightarrow> proc \<Rightarrow> bool" where
  "escalated T p \<longleftrightarrow>
     (\<forall>t. (''SIGKILL'', t) \<in> set (px_sent p) \<longrightarrow> (\<exists>u. (''SIGTERM'', u) \<in> set (px_sent p) \<and> u + TERMINATION_GRACE_MS \<le> t))
     \<and> (\<forall>g. px_grace p = Running g \<longrightarrow> (\<exists>u. (''SIGTERM'', u) \<in> set (px_sent p) \<and> g = u + TERMINATION_GRACE_MS))
     \<and> (\<forall>u. px_terminal p = Running u \<longrightarrow> (\<exists>t. (''SIGKILL'', t) \<in> set (px_sent p) \<and> u = t + SIGNAL_FAILURE_SETTLE_MS))
     \<and> (px_failure p = Some TerminationFailure \<longrightarrow>
          (\<exists>t. (''SIGKILL'', t) \<in> set (px_sent p) \<and> t + SIGNAL_FAILURE_SETTLE_MS \<le> px_now p))
     \<and> (\<forall>d. px_timeout p = Running d \<longrightarrow> d = T)
     \<and> (px_timedOut p \<longrightarrow> (\<exists>t. T \<le> t \<and> (''SIGTERM'', t) \<in> set (px_sent p)))
     \<and> (px_end p = Some (Rejected TerminationFailure) \<longrightarrow> px_failure p = Some TerminationFailure)"

lemma escalated_new: "escalated (T * 1000) (new_proc T started)"
  by (simp add: escalated_def new_proc_def)

lemma escalated_step: "possible e p \<Longrightarrow> escalated T p \<Longrightarrow> escalated T (react e killed p)"
  by (cases e; fastforce simp: escalated_def react_defs possible_def due_iff split: option.splits if_splits prod.splits)


section \<open>Properties\<close>

text \<open>A sequence of events, none of them impossible.\<close>

fun run_events :: "(proc_event \<times> bool) list \<Rightarrow> proc \<Rightarrow> proc option" where
  "run_events [] p = Some p"
| "run_events ((e, killed) # es) p = (if possible e p then run_events es (react e killed p) else None)"

lemma run_events_reach: "run_events es p = Some p' \<Longrightarrow> proc_step\<^sup>*\<^sup>* p p'"
proof (induction es arbitrary: p)
  case (Cons x es)
  obtain e killed where x: "x = (e, killed)" by (cases x)
  then have "possible e p" "run_events es (react e killed p) = Some p'" using Cons.prems by (auto split: if_split_asm)
  then show ?case using Cons.IH proc_step.happens by (blast intro: converse_rtranclp_into_rtranclp)
qed simp

lemma started_step: "proc_step p p' \<Longrightarrow> px_started p' = px_started p"
  by (erule proc_stepE; rename_tac e k; case_tac e; simp add: react_defs split: prod.splits)

lemma reached:
  assumes "proc_step\<^sup>*\<^sup>* (new_proc T started) p"
  shows "end_known p \<and> on_time (T * 1000) p \<and> escalated (T * 1000) p \<and> px_started p = started"
  using assms
proof induction
  case base
  have "px_started (new_proc T started) = started" by (simp add: new_proc_def)
  then show ?case using end_known_new on_time_new escalated_new by simp
next
  case (step p p')
  from step.hyps(2) obtain e k where "p' = react e k p" "possible e p" by (auto elim: proc_stepE)
  then show ?case using step.IH started_step [OF step.hyps(2)] end_known_step on_time_step escalated_step by blast
qed

text \<open>
  C31: The end of a harness run is never reported while its process may still live: when the run ends, its process has
  ended, or it never started and the run failed, or the error of an unconfirmed termination is raised, at least a second
  after the process was killed, which in turn followed the request to terminate by the whole time of grace.
\<close>

theorem harness_end_confirmed:
  assumes "proc_step\<^sup>*\<^sup>* (new_proc T started) p" "px_end p = Some r"
  shows "child_ended p \<or> (\<not> started \<and> (\<exists>f. r = Rejected f))
    \<or> (r = Rejected TerminationFailure \<and> (\<exists>u t. (''SIGTERM'', u) \<in> set (px_sent p) \<and> (''SIGKILL'', t) \<in> set (px_sent p)
        \<and> u + TERMINATION_GRACE_MS \<le> t \<and> t + SIGNAL_FAILURE_SETTLE_MS \<le> px_now p))"
proof -
  have i: "end_known p" "escalated (T * 1000) p" "px_started p = started" using reached [OF assms(1)] by auto
  then have "r = Rejected TerminationFailure \<or> child_ended p \<or> (\<not> started \<and> (\<exists>f. r = Rejected f))"
    using assms(2) by (simp add: end_known_def)
  then show ?thesis using i(2) assms(2) by (fastforce simp: escalated_def)
qed

definition failed_start :: "proc option" where
  "failed_start = run_events [(ProcessErrorEvent True, True), (LogEnds False, True)] (new_proc 60 False)"

theorem harness_end_confirmed_witness:
  "\<exists>p r. failed_start = Some p \<and> px_end p = Some r \<and> r = Rejected (ProcessFailure False) \<and> px_sent p = []
     \<and> (child_ended p \<or> (\<exists>f. r = Rejected f) \<or> (\<exists>u. (''SIGTERM'', u) \<in> set (px_sent p)))"
proof -
  have r: "case failed_start of None \<Rightarrow> False | Some p \<Rightarrow> px_end p = Some (Rejected (ProcessFailure False)) \<and> px_sent p = []"
    by (simp add: failed_start_def new_proc_def react_defs possible_def)
  then obtain p where p: "failed_start = Some p" "px_end p = Some (Rejected (ProcessFailure False))" "px_sent p = []"
    by (auto split: option.split_asm)
  have "proc_step\<^sup>*\<^sup>* (new_proc 60 False) p" using p(1) run_events_reach unfolding failed_start_def by blast
  from harness_end_confirmed [OF this p(2)] p show ?thesis by blast
qed

text \<open>
  C32: A run settles in time whatever its process does: while it has not settled, no more than its time-out and the
  twelve seconds of termination, kill and draining have passed; time can always pass or a timer fire, so that it settles;
  and it is reported as timed out only when the process was asked to terminate at the end of its time-out.
\<close>

theorem harness_in_time:
  assumes "proc_step\<^sup>*\<^sup>* (new_proc T started) p"
  shows "(px_settled p \<or> px_now p \<le> T * 1000 + 12000)
    \<and> (\<exists>e. e \<in> {Tick, TimeoutFires, GraceFires, TerminalFires, DrainFires} \<and> possible e p)
    \<and> (px_timedOut p \<longrightarrow> (\<exists>t. T * 1000 \<le> t \<and> (''SIGTERM'', t) \<in> set (px_sent p)))"
proof -
  have i: "on_time (T * 1000) p" "escalated (T * 1000) p" using reached [OF assms] by auto
  have "px_settled p \<or> px_now p \<le> phase_deadline (T * 1000) p" using i(1) by (auto simp: on_time_def)
  moreover have "phase_deadline (T * 1000) p \<le> T * 1000 + 12000" by (simp add: phase_deadline_def grace_defs)
  moreover have "possible Tick p \<or> possible TimeoutFires p \<or> possible GraceFires p \<or> possible TerminalFires p \<or> possible DrainFires p"
    by (auto simp: possible_def quiet_timers_def)
  then have "\<exists>e. e \<in> {Tick, TimeoutFires, GraceFires, TerminalFires, DrainFires} \<and> possible e p" by blast
  ultimately show ?thesis using i(2) by (auto simp: escalated_def)
qed

definition aborted_run :: "proc option" where
  "aborted_run = run_events [(Tick, True), (Abort, False), (Tick, True), (ChildEnds None (Some ''SIGTERM''), True),
     (ExitEvent, True), (CloseEvent, True), (LogEnds False, True)] (new_proc 1 True)"

theorem harness_in_time_witness:
  "\<exists>p. aborted_run = Some p \<and> px_end p = Some (Rejected (ProcessFailure False)) \<and> px_sent p = [(''SIGTERM'', 1)]
     \<and> (px_settled p \<or> px_now p \<le> 1 * 1000 + 12000)"
proof -
  have r: "case aborted_run of None \<Rightarrow> False | Some p \<Rightarrow> px_end p = Some (Rejected (ProcessFailure False)) \<and> px_sent p = [(''SIGTERM'', 1)]"
    by (simp add: aborted_run_def new_proc_def react_defs possible_def quiet_timers_def due_def cleared_def grace_defs)
  then obtain p where p: "aborted_run = Some p" "px_end p = Some (Rejected (ProcessFailure False)) \<and> px_sent p = [(''SIGTERM'', 1)]"
    by (auto split: option.split_asm)
  have "proc_step\<^sup>*\<^sup>* (new_proc 1 True) p" using p(1) run_events_reach unfolding aborted_run_def by blast
  then have "px_settled p \<or> px_now p \<le> 1 * 1000 + 12000" using harness_in_time by blast
  then show ?thesis using p by blast
qed

end
