(* ===== verification/RateLimiter.thy ===== *)
theory RateLimiter
  imports LocalStore
begin

text \<open>
  src/runtime/rate-limiter.ts: the calls to a provider, spaced and paused. The limiter is a state machine over the queue
  of acquisitions (the promise chain of the code) and the acquisitions that wait for the quota; the head of the queue
  looks at the clock whenever it wakes, at any time. Times are rational milliseconds, and a number that is not finite is
  None. Acquisitions are numbered in the order of the calls, and the log says when each was granted.
\<close>

section \<open>The limiter\<close>

record Quota =
  qt_remaining :: rat
  qt_limit :: rat
  qt_resetAt :: rat

record limiter =
  rl_now :: rat
  rl_spacing :: rat
  rl_reservePercent :: rat
  rl_queue :: "nat list"
  rl_waiting :: "nat list"
  rl_lastStart :: "rat option"
  rl_quota :: "Quota option"
  rl_blockedUntil :: rat
  rl_next :: nat
  rl_granted :: "(nat \<times> rat) list"

definition validateOptions :: "rat option \<Rightarrow> rat \<Rightarrow> unit res" where
  "validateOptions maxCalls reserve =
    bindR (checkR (\<not> opt_is (\<lambda>m. 0 < m) maxCalls) ''maxCallsPerMinute must be positive'') (\<lambda>_.
      checkR (reserve < 0 \<or> 100 < reserve) ''quotaReservePercent must be between 0 and 100'')"

definition spacing_of :: "rat option \<Rightarrow> rat" where
  "spacing_of maxCalls = 60000 / opt_or maxCalls 1"

definition createLimiter :: "rat option \<Rightarrow> rat \<Rightarrow> rat \<Rightarrow> limiter res" where
  "createLimiter maxCalls reserve now =
    bindR (validateOptions maxCalls reserve) (\<lambda>_. ok \<lparr> rl_now = now, rl_spacing = spacing_of maxCalls, rl_reservePercent = reserve,
      rl_queue = [], rl_waiting = [], rl_lastStart = None, rl_quota = None, rl_blockedUntil = 0, rl_next = 0, rl_granted = [] \<rparr>)"

definition updateLimiter :: "rat option \<Rightarrow> rat \<Rightarrow> limiter \<Rightarrow> limiter res" where
  "updateLimiter maxCalls reserve l =
    bindR (validateOptions maxCalls reserve) (\<lambda>_. ok (l \<lparr> rl_spacing := spacing_of maxCalls, rl_reservePercent := reserve \<rparr>))"

definition atReserve :: "limiter \<Rightarrow> bool" where
  "atReserve l = opt_is (\<lambda>q. rl_now l < qt_resetAt q \<and> qt_remaining q * 100 \<le> qt_limit q * rl_reservePercent l) (rl_quota l)"

definition enqueue :: "nat \<Rightarrow> limiter \<Rightarrow> limiter" where
  "enqueue i l = l \<lparr> rl_queue := rl_queue l @ [i] \<rparr>"

definition acquire :: "bool \<Rightarrow> limiter \<Rightarrow> limiter" where
  "acquire background l =
    (let i = rl_next l; l' = l \<lparr> rl_next := i + 1 \<rparr>
     in if background \<and> atReserve l then l' \<lparr> rl_waiting := rl_waiting l @ [i] \<rparr> else enqueue i l')"

text \<open>A waiting acquisition wakes: it goes on waiting, or joins the queue.\<close>

definition wakeReserve :: "nat \<Rightarrow> limiter \<Rightarrow> limiter" where
  "wakeReserve i l = (if i \<notin> set (rl_waiting l) \<or> atReserve l then l
     else enqueue i (l \<lparr> rl_waiting := removeAll i (rl_waiting l) \<rparr>))"

definition startAt :: "limiter \<Rightarrow> rat" where
  "startAt l = (let t = max (rl_now l) (rl_blockedUntil l)
     in case rl_lastStart l of None \<Rightarrow> t | Some s \<Rightarrow> max t (s + rl_spacing l))"

text \<open>The head of the queue wakes: it is granted, or sleeps for the time that is left.\<close>

definition pollQueue :: "limiter \<Rightarrow> limiter" where
  "pollQueue l = (case rl_queue l of [] \<Rightarrow> l
     | i # is \<Rightarrow> if startAt l \<le> rl_now l
         then l \<lparr> rl_queue := is, rl_lastStart := Some (rl_now l), rl_granted := rl_granted l @ [(i, rl_now l)] \<rparr> else l)"

definition sleepTime :: "limiter \<Rightarrow> rat" where
  "sleepTime l = startAt l - rl_now l"

definition observe :: "rat option \<Rightarrow> rat option \<Rightarrow> rat option \<Rightarrow> limiter \<Rightarrow> limiter" where
  "observe remaining limit resetAt l =
    (case (remaining, limit, resetAt) of
       (Some r, Some m, Some t) \<Rightarrow> if 0 < m then l \<lparr> rl_quota := Some \<lparr> qt_remaining = r, qt_limit = m, qt_resetAt = t \<rparr> \<rparr> else l
     | _ \<Rightarrow> l)"

definition pauseUntil :: "rat option \<Rightarrow> limiter \<Rightarrow> limiter" where
  "pauseUntil timestamp l = (case timestamp of None \<Rightarrow> l | Some t \<Rightarrow> l \<lparr> rl_blockedUntil := max (rl_blockedUntil l) t \<rparr>)"

definition pauseFor :: "rat option \<Rightarrow> limiter \<Rightarrow> limiter" where
  "pauseFor milliseconds l =
    (case milliseconds of None \<Rightarrow> l | Some m \<Rightarrow> if 0 \<le> m then pauseUntil (Some (rl_now l + m)) l else l)"

definition pass :: "rat \<Rightarrow> limiter \<Rightarrow> limiter" where
  "pass d l = l \<lparr> rl_now := rl_now l + d \<rparr>"

section \<open>Steps\<close>

text \<open>
  The steps of a limiter under one configuration, with a clock that does not go back. A reload of the configuration
  (updateLimiter) changes the rate itself and is no step here: what follows is about the calls between two reloads.
\<close>

inductive limiter_step :: "limiter \<Rightarrow> limiter \<Rightarrow> bool" where
  call: "limiter_step l (acquire background l)"
| wakes: "limiter_step l (wakeReserve i l)"
| polls: "limiter_step l (pollQueue l)"
| observes: "limiter_step l (observe r m t l)"
| pausesUntil: "limiter_step l (pauseUntil t l)"
| pausesFor: "limiter_step l (pauseFor m l)"
| passes: "0 \<le> d \<Longrightarrow> limiter_step l (pass d l)"

inductive_cases limiter_stepE: "limiter_step l l'"

lemmas limiter_defs = acquire_def wakeReserve_def pollQueue_def observe_def pauseUntil_def pauseFor_def pass_def enqueue_def Let_def

text \<open>The grants in their order, each at least the spacing after the one before, and the last one known.\<close>

fun spaced :: "rat \<Rightarrow> (nat \<times> rat) list \<Rightarrow> bool" where
  "spaced d [] = True"
| "spaced d [x] = True"
| "spaced d (x # y # xs) = (snd x + d \<le> snd y \<and> spaced d (y # xs))"

lemma spaced_snoc: "spaced d (xs @ [x]) \<longleftrightarrow> spaced d xs \<and> (xs \<noteq> [] \<longrightarrow> snd (last xs) + d \<le> snd x)"
proof (induction d xs rule: spaced.induct)
  case (3 d x y xs)
  then show ?case by (cases xs) auto
qed simp_all

lemma spaced_nth: "spaced d xs \<Longrightarrow> i \<le> j \<Longrightarrow> j < length xs \<Longrightarrow> snd (xs ! i) + of_nat (j - i) * d \<le> snd (xs ! j)"
proof (induction d xs arbitrary: i j rule: spaced.induct)
  case (3 d x y xs)
  show ?case
  proof (cases i)
    case 0
    show ?thesis
    proof (cases j)
      case (Suc k)
      have "snd y + of_nat k * d \<le> snd ((y # xs) ! k)" using "3.IH" [of 0 k] "3.prems" Suc by simp
      then show ?thesis using 0 Suc "3.prems"(1) by (simp add: algebra_simps)
    qed (simp add: 0)
  next
    case (Suc i')
    then obtain j' where "j = Suc j'" using "3.prems"(2) by (cases j) auto
    then show ?thesis using "3.IH" [of i' j'] "3.prems" Suc by simp
  qed
qed auto

definition limiter_ok :: "limiter \<Rightarrow> bool" where
  "limiter_ok l \<longleftrightarrow> spaced (rl_spacing l) (rl_granted l)
     \<and> rl_lastStart l = (if rl_granted l = [] then None else Some (snd (last (rl_granted l))))
     \<and> distinct (rl_queue l @ rl_waiting l @ map fst (rl_granted l))
     \<and> (\<forall>i \<in> set (rl_queue l @ rl_waiting l @ map fst (rl_granted l)). i < rl_next l)"

lemma acquire_ok: "limiter_ok l \<Longrightarrow> limiter_ok (acquire b l)"
  by (cases "b \<and> atReserve l") (auto simp: limiter_ok_def acquire_def enqueue_def Let_def less_SucI)

lemma wake_ok: "limiter_ok l \<Longrightarrow> limiter_ok (wakeReserve i l)"
  by (auto simp: limiter_ok_def wakeReserve_def enqueue_def distinct_removeAll)

lemma in_fst: "(a, b) \<in> A \<Longrightarrow> a \<in> fst ` A"
  by force

lemma poll_ok: "limiter_ok l \<Longrightarrow> limiter_ok (pollQueue l)"
  by (auto simp: limiter_ok_def pollQueue_def startAt_def spaced_snoc Let_def split: list.split if_split_asm dest: in_fst)

lemma limiter_step_ok: "limiter_step l l' \<Longrightarrow> limiter_ok l \<Longrightarrow> limiter_ok l'"
  by (erule limiter_stepE; auto simp: acquire_ok wake_ok poll_ok)
    (auto simp: limiter_ok_def observe_def pauseUntil_def pauseFor_def pass_def split: option.splits)


section \<open>Properties\<close>

lemma created_ok: "createLimiter m r t = ok l \<Longrightarrow> limiter_ok l \<and> rl_spacing l = 60000 / opt_or m 1 \<and> opt_is (\<lambda>x. 0 < x) m"
  by (auto simp: createLimiter_def validateOptions_def spacing_of_def limiter_ok_def)

lemma spacing_step: "limiter_step l l' \<Longrightarrow> rl_spacing l' = rl_spacing l"
  by (erule limiter_stepE; auto simp: acquire_def enqueue_def wakeReserve_def pollQueue_def observe_def pauseUntil_def pauseFor_def pass_def Let_def
      split: list.split option.split)

text \<open>
  C35: Calls are limited: whatever is observed or paused and however the callers and the clock interleave, between the
  i-th and the j-th call that a limiter grants lie at least j - i times the spacing of its configured rate, so that a
  minute never starts more calls than the rate (and one at its very end); and no acquisition is granted twice.
\<close>

theorem calls_limited:
  assumes "createLimiter (Some m) reserve t = ok l0" "limiter_step\<^sup>*\<^sup>* l0 l" "i \<le> j" "j < length (rl_granted l)"
  shows "snd (rl_granted l ! i) + of_nat (j - i) * (60000 / m) \<le> snd (rl_granted l ! j) \<and> distinct (map fst (rl_granted l))"
proof -
  have l0: "limiter_ok l0 \<and> rl_spacing l0 = 60000 / m" using created_ok [OF assms(1)] by simp
  have "limiter_ok l \<and> rl_spacing l = 60000 / m" using assms(2)
  proof induction
    case base
    show ?case by (rule l0)
  qed (use limiter_step_ok spacing_step in metis)
  then have "spaced (60000 / m) (rl_granted l)" "distinct (map fst (rl_granted l))" by (auto simp: limiter_ok_def)
  then show ?thesis using spaced_nth [OF _ assms(3,4)] by blast
qed

definition busy_limiter :: limiter where
  "busy_limiter = pollQueue (pass 30000 (pollQueue (pass 1000 (pollQueue (acquire True (acquire False
     \<lparr> rl_now = 5, rl_spacing = 30000, rl_reservePercent = 10, rl_queue = [], rl_waiting = [], rl_lastStart = None, rl_quota = None,
       rl_blockedUntil = 0, rl_next = 0, rl_granted = [] \<rparr>))))))"

lemma reach6: "r a b \<Longrightarrow> r b c \<Longrightarrow> r c d \<Longrightarrow> r d e \<Longrightarrow> r e f \<Longrightarrow> r f g \<Longrightarrow> r g h \<Longrightarrow> r\<^sup>*\<^sup>* a h"
  by (blast intro: converse_rtranclp_into_rtranclp)

theorem calls_limited_witness:
  "rl_granted busy_limiter = [(0, 5), (1, 31005)] \<and> snd (rl_granted busy_limiter ! 0) + of_nat (1 - 0) * (60000 / 2) \<le> snd (rl_granted busy_limiter ! 1)"
proof -
  let ?l = "\<lparr> rl_now = 5, rl_spacing = 30000, rl_reservePercent = 10, rl_queue = [], rl_waiting = [], rl_lastStart = None, rl_quota = None,
       rl_blockedUntil = 0, rl_next = 0, rl_granted = [] \<rparr> :: limiter"
  have c: "createLimiter (Some 2) 10 5 = ok ?l" by (simp add: createLimiter_def validateOptions_def spacing_of_def)
  have "limiter_step\<^sup>*\<^sup>* ?l busy_limiter"
    unfolding busy_limiter_def
    by (rule reach6; (rule limiter_step.call | rule limiter_step.polls | (rule limiter_step.passes, simp)))
  moreover have g: "rl_granted busy_limiter = [(0, 5), (1, 31005)]"
    by (simp add: busy_limiter_def limiter_defs startAt_def atReserve_def)
  ultimately show ?thesis using calls_limited [OF c, of busy_limiter 0 1] by simp
qed

text \<open>The head that has slept for the time that was left is granted, unless a pause came in between.\<close>

lemma head_granted:
  assumes "rl_queue l = i # is" "sleepTime l \<le> d"
  shows "rl_granted (pollQueue (pass d l)) = rl_granted l @ [(i, rl_now l + d)]"
proof -
  have "startAt (pass d l) \<le> rl_now (pass d l)"
    using assms(2) by (auto simp: startAt_def sleepTime_def pass_def Let_def split: option.splits)
  then show ?thesis using assms(1) by (simp add: pollQueue_def pass_def)
qed

end
