(* ===== verification/HttpClient.thy ===== *)
theory HttpClient
  imports RateLimiter PreparedPublication
begin

text \<open>
  src/provider/http.ts: the one way by which the controller reaches a provider. Requests are confined to the origin and
  the path prefix of the configured API, spaced by the rate limiter, and conditional on the entity tags seen; errors carry
  whether another try makes sense. Header names are in lower case. URL parsing, the dates of HTTP and the network are
  parameters; whole numbers of headers are exact here, where the code rounds them to doubles.
\<close>

section \<open>Requests and replies\<close>

record HttpRequest =
  hq_path :: string
  hq_background :: bool
  hq_method :: "string option"
  hq_headers :: "(string \<times> string) list"
  hq_etagKey :: "string option"
  hq_body :: "(string + json) option"

record HttpReply =
  hy_status :: int
  hy_headers :: "string \<rightharpoonup> string"
  hy_text :: "string option"   \<comment> \<open>None when reading the body breaks\<close>

datatype HttpData = HttpJson json | HttpText string

record HttpResult =
  ho_status :: int
  ho_data :: "HttpData option"
  ho_headers :: "string \<rightharpoonup> string"
  ho_next :: "string option"
  ho_notModified :: bool

type_synonym 's fetch = "string \<Rightarrow> Url \<Rightarrow> (string \<rightharpoonup> string) \<Rightarrow> string option \<Rightarrow> ('s, HttpReply) io"

record 's HttpDeps =
  hd_url :: "string \<Rightarrow> Url \<Rightarrow> Url option"
  hd_setPage :: "Url \<Rightarrow> string \<Rightarrow> Url"
  hd_dateParse :: "string \<Rightarrow> rat option"
  hd_defaultHeaders :: "'s \<Rightarrow> (string \<rightharpoonup> string)"
  hd_beforeRequest :: "('s, unit) io"
  hd_acquire :: "bool \<Rightarrow> ('s, unit) io"
  hd_limiter :: "(limiter \<Rightarrow> limiter) \<Rightarrow> 's \<Rightarrow> 's"
  hd_fetch :: "'s fetch"

record 's http =
  ht_env :: 's
  ht_etags :: "string \<rightharpoonup> string"

definition httpM :: "('s, 'a) io \<Rightarrow> ('s http, 'a) io" where
  "httpM op w = (case op (ht_env w) of (r, s) \<Rightarrow> (r, w \<lparr> ht_env := s \<rparr>))"

definition limitM :: "'s HttpDeps \<Rightarrow> (limiter \<Rightarrow> limiter) \<Rightarrow> ('s http, unit) io" where
  "limitM d f w = (ok (), w \<lparr> ht_env := hd_limiter d f (ht_env w) \<rparr>)"

section \<open>Where requests may go\<close>

definition api_base :: "Url \<Rightarrow> Url" where
  "api_base u = (if ends_with (url_pathname u) ''/'' then u else u \<lparr> url_pathname := url_pathname u @ ''/'' \<rparr>)"

definition under_prefix :: "Url \<Rightarrow> Url \<Rightarrow> bool" where
  "under_prefix base url \<longleftrightarrow> url_pathname url = butlast (url_pathname base) \<or> starts_with (url_pathname url) (url_pathname base)"

definition enterprise_graphql :: "'s HttpDeps \<Rightarrow> Url \<Rightarrow> string \<Rightarrow> Url \<Rightarrow> bool" where
  "enterprise_graphql d base p url \<longleftrightarrow> ends_with (url_pathname base) ''/api/v3/'' \<and> p = ''../graphql''
     \<and> Some (url_pathname url) = map_option url_pathname (hd_url d ''../graphql'' base)"

definition resolveProviderUrl :: "'s HttpDeps \<Rightarrow> string \<Rightarrow> Url \<Rightarrow> Url res" where
  "resolveProviderUrl d p base =
    (case hd_url d p base of None \<Rightarrow> fail ''Invalid URL''
     | Some url \<Rightarrow>
        bindR (checkR (url_origin url \<noteq> url_origin base) ''request path must use the same provider origin'') (\<lambda>_.
        bindR (checkR (\<not> under_prefix base url \<and> \<not> enterprise_graphql d base p url)
           ''request path must remain under the configured provider API prefix'') (\<lambda>_. ok url)))"

section \<open>Headers\<close>

text \<open>A number that overflows a double is not finite.\<close>

definition finite_number :: "nat \<Rightarrow> rat option" where
  "finite_number n = (if n < 2 ^ 1024 - 2 ^ 970 then Some (of_nat n) else None)"

definition digits_only :: "string \<Rightarrow> bool" where
  "digits_only s \<longleftrightarrow> s \<noteq> [] \<and> list_all is_digit s"

text \<open>The value of the first of the headers that is a whole number: not there, or finite or not.\<close>

fun integerHeader :: "(string \<rightharpoonup> string) \<Rightarrow> string list \<Rightarrow> rat option option" where
  "integerHeader headers [] = None"
| "integerHeader headers (n # ns) =
    (case headers n of None \<Rightarrow> integerHeader headers ns
     | Some v \<Rightarrow> if digits_only (trim_str v) then Some (finite_number (str_nat (trim_str v))) else integerHeader headers ns)"

text \<open>Digits, with a fraction or without.\<close>

definition decimal :: "string \<Rightarrow> rat option option" where
  "decimal s = (let a = takeWhile is_digit s; r = dropWhile is_digit s in
     if a = [] then None
     else if r = [] then Some (finite_number (str_nat a))
     else if hd r = CHR ''.'' \<and> digits_only (tl r)
     then Some (map_option (\<lambda>n. n + of_nat (str_nat (tl r)) / 10 ^ length (tl r)) (finite_number (str_nat a))) else None)"

definition times_thousand :: "rat option \<Rightarrow> rat option" where
  "times_thousand x = map_option (\<lambda>n. n * 1000) x"

definition quotaUpdate :: "(string \<rightharpoonup> string) \<Rightarrow> limiter \<Rightarrow> limiter" where
  "quotaUpdate headers = (case (integerHeader headers [''x-ratelimit-remaining'', ''ratelimit-remaining''],
       integerHeader headers [''x-ratelimit-limit'', ''ratelimit-limit''], integerHeader headers [''x-ratelimit-reset'', ''ratelimit-reset'']) of
     (Some r, Some m, Some t) \<Rightarrow> observe r m (times_thousand t) | _ \<Rightarrow> id)"

definition retryUpdate :: "'s HttpDeps \<Rightarrow> (string \<rightharpoonup> string) \<Rightarrow> limiter \<Rightarrow> limiter" where
  "retryUpdate d headers = (case headers ''retry-after'' of None \<Rightarrow> id
     | Some v \<Rightarrow> (case decimal (trim_str v) of Some n \<Rightarrow> pauseFor (times_thousand n)
         | None \<Rightarrow> (case hd_dateParse d v of None \<Rightarrow> id | Some t \<Rightarrow> pauseUntil (Some t))))"

definition intervalUpdate :: "(string \<rightharpoonup> string) \<Rightarrow> limiter \<Rightarrow> limiter" where
  "intervalUpdate headers = (case integerHeader headers [''x-poll-interval'', ''poll-interval''] of
     None \<Rightarrow> id | Some n \<Rightarrow> pauseFor (times_thousand n))"

definition observeLimits :: "'s HttpDeps \<Rightarrow> (string \<rightharpoonup> string) \<Rightarrow> ('s http, unit) io" where
  "observeLimits d headers = thenM (limitM d (quotaUpdate headers)) (thenM (limitM d (retryUpdate d headers)) (limitM d (intervalUpdate headers)))"

section \<open>Replies\<close>

definition transient_status :: "int \<Rightarrow> bool" where
  "transient_status s \<longleftrightarrow> s = 429 \<or> 500 \<le> s"

definition parseBody :: "HttpReply \<Rightarrow> HttpData option res" where
  "parseBody r =
    (case hy_text r of None \<Rightarrow> fail ''terminated'' | Some t \<Rightarrow>
     if t = [] then ok None
     else if \<not> opt_is (\<lambda>c. includes_str (map ascii_lower c) ''json'') (hy_headers r ''content-type'') then ok (Some (HttpText t))
     else (case json_parse t of
         None \<Rightarrow> Inl (ProviderHttpError (transient_status (hy_status r)) (Some (hy_status r)))
       | Some v \<Rightarrow> ok (if v = JNull then None else Some (HttpJson v))))"

text \<open>One part of a link header: its target and its relations.\<close>

definition link_part :: "string \<Rightarrow> (string \<times> string) option" where
  "link_part part =
    (let s = dropWhile is_ws part in
     if s = [] \<or> hd s \<noteq> CHR ''<'' then None
     else (let u = takeWhile (\<lambda>c. c \<noteq> CHR ''>'') (tl s); r = dropWhile (\<lambda>c. c \<noteq> CHR ''>'') (tl s) in
       if u = [] \<or> r = [] then None
       else (let r = dropWhile is_ws (tl r) in
         if r = [] \<or> hd r \<noteq> CHR '';'' then None
         else (let r = dropWhile is_ws (tl r) in
           if \<not> starts_with r (''rel='' @ [CHR 0x22]) then None
           else (let v = takeWhile (\<lambda>c. c \<noteq> CHR 0x22) (drop 5 r) in
             if v = [] \<or> length v = length (drop 5 r) then None else Some (u, v))))))"

definition is_next :: "string \<Rightarrow> bool" where
  "is_next rels \<longleftrightarrow> ''next'' \<in> set (split_char (CHR '' '') (map (\<lambda>c. if is_ws c then CHR '' '' else c) rels))"

definition url_target :: "Url \<Rightarrow> string" where
  "url_target u = url_pathname u @ url_search u"

text \<open>A target is resolved against the request and must then be allowed itself.\<close>

definition linkTarget :: "'s HttpDeps \<Rightarrow> Url \<Rightarrow> Url \<Rightarrow> string \<Rightarrow> string res" where
  "linkTarget d requestUrl base target =
    (case hd_url d target requestUrl of None \<Rightarrow> fail ''Invalid URL''
     | Some url \<Rightarrow>
        bindR (checkR (url_origin url \<noteq> url_origin base) ''request path must use the same provider origin'') (\<lambda>_.
        bindR (checkR (\<not> under_prefix base url) ''request path must remain under the configured provider API prefix'') (\<lambda>_.
          ok (url_target url))))"

definition next_link :: "string \<Rightarrow> string option" where
  "next_link h = (case List.map_filter (\<lambda>p. case link_part p of None \<Rightarrow> None | Some (u, v) \<Rightarrow> if is_next v then Some u else None)
     (split_char (CHR '','') h) of [] \<Rightarrow> None | u # us \<Rightarrow> Some u)"

definition pagination :: "'s HttpDeps \<Rightarrow> (string \<rightharpoonup> string) \<Rightarrow> Url \<Rightarrow> Url \<Rightarrow> string option res" where
  "pagination d headers requestUrl base =
    (case (case headers ''link'' of None \<Rightarrow> None | Some h \<Rightarrow> if h = [] then None else next_link h) of
       Some u \<Rightarrow> bindR (linkTarget d requestUrl base u) (\<lambda>t. ok (Some t))
     | None \<Rightarrow> (case headers ''x-next-page'' of None \<Rightarrow> ok None
         | Some p \<Rightarrow> if p = [] then ok None else ok (Some (url_target (hd_setPage d requestUrl p)))))"

section \<open>The request\<close>

definition given_key :: "string option \<Rightarrow> string option" where
  "given_key k = (case k of None \<Rightarrow> None | Some x \<Rightarrow> if x = [] then None else Some x)"

definition requestHeaders :: "HttpRequest \<Rightarrow> (string \<rightharpoonup> string) \<Rightarrow> (string \<rightharpoonup> string) \<Rightarrow> (string \<rightharpoonup> string)" where
  "requestHeaders q defaults etags =
    (let h = foldl (\<lambda>m (n, v). m(map ascii_lower n \<mapsto> v)) defaults (hq_headers q);
         h = (case given_key (hq_etagKey q) of None \<Rightarrow> h
              | Some k \<Rightarrow> (case etags k of None \<Rightarrow> h | Some e \<Rightarrow> h(''if-none-match'' \<mapsto> e)))
     in if hq_body q = None then h else h(''content-type'' \<mapsto> opt_or (h ''content-type'') ''application/json''))"

definition requestBody :: "HttpRequest \<Rightarrow> string option" where
  "requestBody q = map_option (\<lambda>b. case b of Inl s \<Rightarrow> s | Inr v \<Rightarrow> json_print v) (hq_body q)"

definition fetchM :: "'s fetch \<Rightarrow> string \<Rightarrow> Url \<Rightarrow> (string \<rightharpoonup> string) \<Rightarrow> string option \<Rightarrow> ('s http, HttpReply) io" where
  "fetchM fetch m u h b = tryM (httpM (fetch m u h b)) (\<lambda>_. throwM (ProviderHttpError True None))"

definition rememberTag :: "HttpRequest \<Rightarrow> HttpReply \<Rightarrow> ('s http, unit) io" where
  "rememberTag q r w = (ok (), case given_key (hq_etagKey q) of None \<Rightarrow> w
     | Some k \<Rightarrow> (case given_key (hy_headers r ''etag'') of None \<Rightarrow> w | Some e \<Rightarrow> w \<lparr> ht_etags := (ht_etags w)(k \<mapsto> e) \<rparr>))"

definition result_of :: "'s HttpDeps \<Rightarrow> Url \<Rightarrow> Url \<Rightarrow> HttpReply \<Rightarrow> HttpResult res" where
  "result_of d url base r =
    bindR (parseBody r) (\<lambda>v.
    bindR (if (hy_status r < 200 \<or> 299 < hy_status r) \<and> hy_status r \<noteq> 304
       then Inl (ProviderHttpError (transient_status (hy_status r)) (Some (hy_status r))) else ok ()) (\<lambda>_.
    bindR (pagination d (hy_headers r) url base) (\<lambda>n.
      ok \<lparr> ho_status = hy_status r, ho_data = (if hy_status r = 304 then None else v), ho_headers = hy_headers r, ho_next = n,
           ho_notModified = (hy_status r = 304) \<rparr>)))"

definition httpRequest :: "'s HttpDeps \<Rightarrow> Url \<Rightarrow> HttpRequest \<Rightarrow> ('s http, HttpResult) io" where
  "httpRequest d baseUrl q =
    (let base = api_base baseUrl in
     bindM (liftR (resolveProviderUrl d (hq_path q) base)) (\<lambda>url.
      thenM (httpM (hd_beforeRequest d))
     (thenM (httpM (hd_acquire d (hq_background q)))
     (bindM (getM (\<lambda>w. requestHeaders q (hd_defaultHeaders d (ht_env w)) (ht_etags w))) (\<lambda>headers.
      bindM (fetchM (hd_fetch d) (opt_or (hq_method q) ''GET'') url headers (requestBody q)) (\<lambda>reply.
       thenM (observeLimits d (hy_headers reply))
      (thenM (rememberTag q reply) (liftR (result_of d url base reply)))))))))"


section \<open>Properties\<close>

text \<open>The URLs to which a request with the given path may be sent.\<close>

definition allowed_url :: "'s HttpDeps \<Rightarrow> Url \<Rightarrow> string \<Rightarrow> Url \<Rightarrow> bool" where
  "allowed_url d baseUrl p u \<longleftrightarrow> url_origin u = url_origin baseUrl
     \<and> (under_prefix (api_base baseUrl) u \<or> enterprise_graphql d (api_base baseUrl) p u)"

lemma api_base_origin [simp]: "url_origin (api_base u) = url_origin u"
  by (simp add: api_base_def)

lemma resolved_allowed: "resolveProviderUrl d p (api_base b) = Inr u \<Longrightarrow> allowed_url d b p u"
  by (auto simp: resolveProviderUrl_def allowed_url_def bindR_def checkR_def ok_def fail_def split: option.split_asm if_split_asm)

text \<open>Only the fetch itself depends on the network.\<close>

lemma unfetched:
  "resolveProviderUrl (d \<lparr> hd_fetch := f \<rparr>) = resolveProviderUrl d"
  "observeLimits (d \<lparr> hd_fetch := f \<rparr>) = observeLimits d"
  "result_of (d \<lparr> hd_fetch := f \<rparr>) = result_of d"
proof -
  have "enterprise_graphql (d \<lparr> hd_fetch := f \<rparr>) = enterprise_graphql d"
    by (intro ext) (simp add: enterprise_graphql_def)
  then show "resolveProviderUrl (d \<lparr> hd_fetch := f \<rparr>) = resolveProviderUrl d"
    by (intro ext) (simp add: resolveProviderUrl_def split: option.split)
  have l: "limitM (d \<lparr> hd_fetch := f \<rparr>) = limitM d" "retryUpdate (d \<lparr> hd_fetch := f \<rparr>) = retryUpdate d"
    by (auto simp: fun_eq_iff limitM_def retryUpdate_def split: option.split)
  show "observeLimits (d \<lparr> hd_fetch := f \<rparr>) = observeLimits d"
    by (intro ext) (simp add: observeLimits_def l)
  have "linkTarget (d \<lparr> hd_fetch := f \<rparr>) = linkTarget d"
    by (intro ext) (simp add: linkTarget_def split: option.split)
  then have "pagination (d \<lparr> hd_fetch := f \<rparr>) = pagination d"
    by (intro ext) (simp add: pagination_def split: option.split)
  then show "result_of (d \<lparr> hd_fetch := f \<rparr>) = result_of d"
    by (intro ext) (simp add: result_of_def)
qed

lemma http_throws: "throwsM E m \<Longrightarrow> throwsM E (httpM m)"
  unfolding throwsM_def httpM_def by (fastforce split: prod.split_asm)

text \<open>
  C33: Whatever path, headers or links a request is made from, the network is only ever asked for a URL of the configured
  origin below the configured API prefix (or for the GraphQL endpoint of GitHub Enterprise, by its one fixed path): a
  network that behaves differently elsewhere makes no difference, so that credentials reach no other host. And a further
  page that a link header names is again such a URL.
\<close>

theorem requests_confined:
  assumes "\<And>m u h b. allowed_url d baseUrl (hq_path q) u \<Longrightarrow> hd_fetch d m u h b = f m u h b"
  shows "httpRequest d baseUrl q = httpRequest (d \<lparr> hd_fetch := f \<rparr>) baseUrl q
    \<and> (\<forall>headers u t. pagination d headers u (api_base baseUrl) = ok (Some t) \<and> headers ''x-next-page'' = None \<longrightarrow>
         (\<exists>n. url_origin n = url_origin baseUrl \<and> under_prefix (api_base baseUrl) n \<and> t = url_target n))"
proof
  note same = unfetched [where d = d and f = f]
  show "httpRequest d baseUrl q = httpRequest (d \<lparr> hd_fetch := f \<rparr>) baseUrl q"
  proof (cases "resolveProviderUrl d (hq_path q) (api_base baseUrl)")
    case (Inl e)
    then show ?thesis unfolding httpRequest_def Let_def same by (simp add: fun_eq_iff bindM_def liftR_def)
  next
    case (Inr u)
    have "hd_fetch d m u h b = f m u h b" for m h b using assms resolved_allowed [OF Inr] by blast
    then show ?thesis unfolding httpRequest_def Let_def same fetchM_def using Inr by (intro ext) (simp add: bindM_def [of "liftR _"] liftR_def)
  qed
  show "\<forall>headers u t. pagination d headers u (api_base baseUrl) = ok (Some t) \<and> headers ''x-next-page'' = None \<longrightarrow>
         (\<exists>n. url_origin n = url_origin baseUrl \<and> under_prefix (api_base baseUrl) n \<and> t = url_target n)"
    by (auto simp: pagination_def linkTarget_def split: option.split_asm if_split_asm)
qed

definition toy_url :: "string \<Rightarrow> Url" where
  "toy_url p = \<lparr> url_protocol = ''https:'', url_username = [], url_password = [], url_search = [], url_hash = [],
     url_origin = ''https://api.github.com'', url_pathname = p \<rparr>"

definition toy_reply :: HttpReply where
  "toy_reply = \<lparr> hy_status = 200, hy_headers = [''link'' \<mapsto> ''<page2>; rel='' @ [CHR 0x22] @ ''next'' @ [CHR 0x22], ''etag'' \<mapsto> ''e''],
     hy_text = Some ''ok'' \<rparr>"

definition toy_http :: "unit HttpDeps" where
  "toy_http = \<lparr> hd_url = (\<lambda>p b. Some (if starts_with p ''http:'' then (toy_url p) \<lparr> url_origin := ''elsewhere'' \<rparr> else toy_url (''/'' @ p))),
     hd_setPage = (\<lambda>u p. u), hd_dateParse = (\<lambda>_. None), hd_defaultHeaders = (\<lambda>_ _. None), hd_beforeRequest = retM (),
     hd_acquire = (\<lambda>_. retM ()), hd_limiter = (\<lambda>f s. s), hd_fetch = (\<lambda>m u h b. retM toy_reply) \<rparr>"

text \<open>The network that answers at the configured origin only.\<close>

definition bounded_fetch :: "unit fetch" where
  "bounded_fetch m u h b = (if url_origin u = ''https://api.github.com'' then retM toy_reply else failM ''unreachable'')"

definition toy_request :: HttpRequest where
  "toy_request = \<lparr> hq_path = ''user'', hq_background = False, hq_method = None, hq_headers = [], hq_etagKey = Some ''k'', hq_body = None \<rparr>"

theorem requests_confined_witness:
  "httpRequest toy_http (toy_url ''/'') toy_request = httpRequest (toy_http \<lparr> hd_fetch := bounded_fetch \<rparr>) (toy_url ''/'') toy_request
     \<and> (case httpRequest toy_http (toy_url ''/'') toy_request \<lparr> ht_env = (), ht_etags = (\<lambda>_. None) \<rparr> of
          (Inr r, w) \<Rightarrow> ho_next r = Some ''/page2'' \<and> ht_etags w ''k'' = Some ''e'' | _ \<Rightarrow> False)"
proof -
  have "hd_fetch toy_http m u h b = bounded_fetch m u h b" if "allowed_url toy_http (toy_url ''/'') (hq_path toy_request) u" for m u h b
    using that by (simp add: allowed_url_def toy_http_def bounded_fetch_def toy_url_def)
  moreover have "case httpRequest toy_http (toy_url ''/'') toy_request \<lparr> ht_env = (), ht_etags = (\<lambda>_. None) \<rparr> of
          (Inr r, w) \<Rightarrow> ho_next r = Some ''/page2'' \<and> ht_etags w ''k'' = Some ''e'' | _ \<Rightarrow> False" by code_simp
  ultimately show ?thesis using requests_confined by blast
qed



definition broken_json :: "HttpReply \<Rightarrow> bool" where
  "broken_json r \<longleftrightarrow> (case hy_text r of None \<Rightarrow> False | Some t \<Rightarrow> t \<noteq> [] \<and> json_parse t = None)
     \<and> opt_is (\<lambda>c. includes_str (map ascii_lower c) ''json'') (hy_headers r ''content-type'')"


lemma parseBody_sound: "\<not> broken_json r \<Longrightarrow> hy_text r \<noteq> None \<Longrightarrow> \<exists>v. parseBody r = Inr v"
  by (auto simp: parseBody_def broken_json_def ok_def split: option.split)






end
