(* ===== verification/Controller.thy ===== *)
theory Controller
  imports ReconcileBase Scheduler
begin

text \<open>
  src/runtime/controller.ts: the polling loop over the repositories. A sweep scans every repository: the tickets updated
  since the cursor of the repository are discovered page by page and reconciled, and then the cursor moves. The controller
  is a state machine over three schedulers; what happens between two awaits is one step, and the steps interleave freely.
  An observation is an object that the code shares and changes: objects and calls are numbered. A step that waits for a
  promise may be taken at any time once the promise has settled. The log records, beside the state of the code, what was
  listed, started, ended and advanced; no step reads it.
\<close>

section \<open>State\<close>

datatype Lifecycle = Created | Bootstrapping | Ready | Running | Failed | Stopped

record ObservedTicket =
  ob_flowInstanceId :: "string option"
  ob_stateId :: "string option"
  ob_configRevision :: "string option"
  ob_stateKind :: "StateKind option"
  ob_repositoryUrl :: "string option"
  ob_ticketUrl :: "string option"
  ob_actionUrl :: "string option"
  ob_observedAt :: "string option"
  ob_recoveryDisposition :: "Disposition option"
  ob_recoveryReason :: "string option"

record RepositoryScan =
  sc_provider :: ProviderKind
  sc_repository :: string
  sc_nextWindow :: string

record ScanCall =
  sk_scan :: RepositoryScan
  sk_window :: string
  sk_tickets :: "TicketRef list"

text \<open>Where the run of a scan waits: for its discovery, for the reconciliation of its tickets, or it has thrown.\<close>

datatype ScanRun = Discovering nat nat | Waiting "nat option list" nat | Broken

text \<open>Where bootstrap waits.\<close>

datatype Boot = NoBoot
  | BootRead "(ProviderKind \<times> string) list" "(string \<times> TicketRef) list" string
  | BootPrepare "(string \<times> TicketRef) list"
  | BootWait "nat option list"

datatype event_log =
    Listed nat string                        \<comment> \<open>call, ticket\<close>
  | Started nat string                       \<comment> \<open>reconciliation, ticket\<close>
  | Finished nat bool
  | Advanced string string string nat        \<comment> \<open>repository, old and new cursor, call\<close>
  | CancelPass "string list"
  | Stopping

record controller =
  ct_lifecycle :: Lifecycle
  ct_stopping :: bool
  ct_interval :: int
  ct_cursors :: "string \<rightharpoonup> string"
  ct_flows :: "string list"
  ct_store :: "nat \<Rightarrow> ObservedTicket"
  ct_objects :: nat
  ct_observed :: "(string \<times> nat) list"
  ct_accepted :: "(nat \<times> (TicketRef \<times> nat)) list"
  ct_active :: "(string \<times> TicketRef) list"
  ct_errors :: "string list"
  ct_tickets :: "(TicketRef \<times> nat) sched"
  ct_scanCalls :: "(RepositoryScan \<times> nat) sched"
  ct_scans :: "RepositoryScan sched"
  ct_calls :: "nat \<Rightarrow> ScanCall"
  ct_callCount :: nat
  ct_scanRuns :: "nat \<Rightarrow> ScanRun option"
  ct_caughtScans :: "nat list"
  ct_caughtTickets :: "nat list"
  ct_boot :: Boot
  ct_ending :: "Lifecycle option"
  ct_log :: "event_log list"

record ControllerDeps =
  cd_providers :: "(ProviderKind \<times> string list) list"
  cd_concurrency :: int
  cd_interval :: int

definition ticketKey :: "TicketRef \<Rightarrow> string" where
  "ticketKey r = provider_name (tr_provider r) @ '':'' @ tr_repository r @ ''#'' @ int_str (tr_number r)"

definition repositoryKey :: "ProviderKind \<Rightarrow> string \<Rightarrow> string" where
  "repositoryKey p repository = provider_name p @ '':'' @ repository"

definition scan_key :: "RepositoryScan \<Rightarrow> string" where "scan_key n = repositoryKey (sc_provider n) (sc_repository n)"

definition repositories :: "ControllerDeps \<Rightarrow> (ProviderKind \<times> string) list" where
  "repositories d = concat (map (\<lambda>(p, rs). map (Pair p) rs) (cd_providers d))"

definition map_set :: "'k \<Rightarrow> 'v \<Rightarrow> ('k \<times> 'v) list \<Rightarrow> ('k \<times> 'v) list" where
  "map_set k v xs = (if k \<in> set (map fst xs) then map (\<lambda>(k', v'). (k', if k' = k then v else v')) xs else xs @ [(k, v)])"

definition map_delete :: "'k \<Rightarrow> ('k \<times> 'v) list \<Rightarrow> ('k \<times> 'v) list" where
  "map_delete k xs = filter (\<lambda>(k', v). k' \<noteq> k) xs"

definition no_observation :: ObservedTicket where
  "no_observation = \<lparr> ob_flowInstanceId = None, ob_stateId = None, ob_configRevision = None, ob_stateKind = None,
     ob_repositoryUrl = None, ob_ticketUrl = None, ob_actionUrl = None, ob_observedAt = None, ob_recoveryDisposition = None,
     ob_recoveryReason = None \<rparr>"

definition no_call :: ScanCall where
  "no_call = \<lparr> sk_scan = \<lparr> sc_provider = Github, sc_repository = [], sc_nextWindow = [] \<rparr>, sk_window = [], sk_tickets = [] \<rparr>"

definition logged :: "event_log \<Rightarrow> controller \<Rightarrow> controller" where
  "logged e s = s \<lparr> ct_log := ct_log s @ [e] \<rparr>"

definition createController :: "ControllerDeps \<Rightarrow> controller res" where
  "createController d =
    bindR (checkR (cd_interval d * 1000 \<le> 0) ''polling interval must be positive'') (\<lambda>_.
    bindR (createScheduler (\<lparr> tr_provider = Github, tr_repository = [], tr_number = 0 \<rparr>, 0) (cd_concurrency d)) (\<lambda>tickets.
    bindR (createScheduler (sk_scan no_call, 0) 1) (\<lambda>calls.
    bindR (createScheduler (sk_scan no_call) (max 1 (int (length (repositories d))))) (\<lambda>scans.
      ok \<lparr> ct_lifecycle = Created, ct_stopping = False, ct_interval = cd_interval d * 1000, ct_cursors = Map.empty, ct_flows = [],
        ct_store = (\<lambda>_. no_observation), ct_objects = 0, ct_observed = [], ct_accepted = [], ct_active = [], ct_errors = [],
        ct_tickets = tickets, ct_scanCalls = calls, ct_scans = scans, ct_calls = (\<lambda>_. no_call), ct_callCount = 0,
        ct_scanRuns = Map.empty, ct_caughtScans = [], ct_caughtTickets = [], ct_boot = NoBoot, ct_ending = None, ct_log = [] \<rparr>))))"

section \<open>Tickets\<close>

definition reportError :: "controller \<Rightarrow> controller" where
  "reportError s = (let e = ct_errors s @ [''controller error''] in
     s \<lparr> ct_errors := (if 10 < length e then tl e else e) \<rparr>)"

definition reports :: "nat \<Rightarrow> controller \<Rightarrow> controller" where
  "reports n s = (reportError ^^ n) s"

definition removeObservation :: "string \<Rightarrow> nat \<Rightarrow> controller \<Rightarrow> controller" where
  "removeObservation i obs s =
    (if map_of (ct_observed s) i = Some obs then s \<lparr> ct_observed := map_delete i (ct_observed s) \<rparr> else s)"

definition ticket_value_key :: "TicketRef \<times> nat \<Rightarrow> string" where "ticket_value_key v = ticketKey (fst v)"

text \<open>None is a promise that is rejected at once, when the scheduler is closed; its observation is removed again.\<close>

definition scheduleTicket :: "TicketRef \<Rightarrow> controller \<Rightarrow> nat option \<times> controller" where
  "scheduleTicket ref s =
    (let i = ticketKey ref; obs = ct_objects s;
         observation = (case map_of (ct_observed s) i of Some previous \<Rightarrow> ct_store s previous | None \<Rightarrow> no_observation)
     in case schedule ticket_value_key (ref, obs) (ct_tickets s) of
          (Inl e, t) \<Rightarrow> (None, s \<lparr> ct_observed := map_delete i (ct_observed s) \<rparr>)
        | (Inr p, t) \<Rightarrow>
            let accepted = (case map_of (ct_accepted s) p of Some a \<Rightarrow> a | None \<Rightarrow> (ref, obs))
            in (Some p, s \<lparr> ct_store := (ct_store s)(obs := observation), ct_objects := Suc obs, ct_tickets := t,
                 ct_accepted := map_set p accepted (ct_accepted s), ct_observed := map_set i (snd accepted) (ct_observed s) \<rparr>))"

fun scheduleAll :: "TicketRef list \<Rightarrow> controller \<Rightarrow> nat option list \<times> controller" where
  "scheduleAll [] s = ([], s)"
| "scheduleAll (r # rs) s = (case scheduleTicket r s of (p, s1) \<Rightarrow> (case scheduleAll rs s1 of (ps, s2) \<Rightarrow> (p # ps, s2)))"

text \<open>The microtask of the next ticket: its reconciliation is started.\<close>

definition startTicket :: "controller \<Rightarrow> controller" where
  "startTicket s = (case sd_micro (ct_tickets s) of [] \<Rightarrow> s | t # ms \<Rightarrow>
     (let before = ct_tickets s \<lparr> sd_micro := ms \<rparr>; after = start_entry False t before;
          s1 = s \<lparr> ct_tickets := after \<rparr>
      in if sd_closed before \<or> \<not> ready before t then s1
         else logged (Started t (ticketKey (fst (sd_value after t)))) s1))"

definition applyOutcome :: "TicketRef \<Rightarrow> nat \<Rightarrow> ReconcileOutcome \<Rightarrow> string \<Rightarrow> controller \<Rightarrow> controller" where
  "applyOutcome ref obs r now s =
    (let i = ticketKey ref; w = ct_store s obs;
         w' = w \<lparr> ob_flowInstanceId := ro_flowInstanceId r, ob_stateId := ro_stateId r, ob_configRevision := ro_configRevision r,
                ob_stateKind := ro_stateKind r, ob_repositoryUrl := Some (ro_repositoryUrl r), ob_ticketUrl := Some (ro_ticketUrl r),
                ob_actionUrl := Some (ro_actionUrl r), ob_recoveryDisposition := ro_recoveryDisposition r,
                ob_recoveryReason := (if ro_recoveryDisposition r = None then None else ro_recoveryReason r), ob_observedAt := Some now \<rparr>;
         s1 = s \<lparr> ct_store := (ct_store s)(obs := w'),
              ct_flows := (case ro_flowInstanceId r of None \<Rightarrow> ct_flows s
                | Some f \<Rightarrow> if f = [] \<or> f \<in> set (ct_flows s) then ct_flows s else ct_flows s @ [f]) \<rparr>
     in if ro_runnable r \<and> opt_is (\<lambda>f. f \<noteq> []) (ro_flowInstanceId r) \<and> ro_stateId r \<notin> {Some ''done'', Some ''cancelled''}
        then s1 \<lparr> ct_active := map_set i ref (ct_active s1) \<rparr>
        else (let s2 = (if ro_recoveryDisposition r \<in> {Some DAmbiguous, Some DForeign} then s1 else removeObservation i obs s1)
              in s2 \<lparr> ct_active := map_delete i (ct_active s2) \<rparr>))"

definition endTicket :: "nat \<Rightarrow> ReconcileOutcome res \<Rightarrow> string \<Rightarrow> controller \<Rightarrow> controller" where
  "endTicket t r now s =
    (if t \<notin> set (sd_running (ct_tickets s)) then s
     else (case sd_value (ct_tickets s) t of (ref, obs) \<Rightarrow>
       (let s1 = (case r of Inr x \<Rightarrow> applyOutcome ref obs x now s | Inl e \<Rightarrow> removeObservation (ticketKey ref) obs s)
        in logged (Finished t (is_ok r)) (s1 \<lparr> ct_tickets := finish t (is_ok r) (ct_tickets s1) \<rparr>))))"

definition settled_as :: "'v sched \<Rightarrow> nat \<Rightarrow> bool \<Rightarrow> bool" where
  "settled_as s t b \<longleftrightarrow> (t, b) \<in> set (sd_settled s)"

text \<open>The callbacks of the promise of a ticket, once it has settled.\<close>

definition ticketCallback :: "nat \<Rightarrow> controller \<Rightarrow> controller" where
  "ticketCallback p s = (case map_of (ct_accepted s) p of None \<Rightarrow> s | Some (ref, obs) \<Rightarrow>
     if settled_as (ct_tickets s) p True then s \<lparr> ct_accepted := map_delete p (ct_accepted s),
        ct_caughtTickets := filter (\<lambda>q. q \<noteq> p) (ct_caughtTickets s) \<rparr>
     else if settled_as (ct_tickets s) p False then
       reports (length (filter (\<lambda>q. q = p) (ct_caughtTickets s)))
         (removeObservation (ticketKey ref) obs (s \<lparr> ct_accepted := map_delete p (ct_accepted s),
            ct_caughtTickets := filter (\<lambda>q. q \<noteq> p) (ct_caughtTickets s) \<rparr>))
     else s)"

text \<open>A ticket that the launcher reports, or that an operator asks for.\<close>

definition onSettled :: "TicketRef \<Rightarrow> controller \<Rightarrow> controller" where
  "onSettled ref s = (if ct_stopping s then s else (case scheduleTicket ref s of
      (None, s1) \<Rightarrow> reportError s1 | (Some p, s1) \<Rightarrow> s1 \<lparr> ct_caughtTickets := p # ct_caughtTickets s1 \<rparr>))"

definition assertAllowedRef :: "ControllerDeps \<Rightarrow> TicketRef \<Rightarrow> unit res" where
  "assertAllowedRef d ref =
    bindR (checkR (\<not> safe_int (tr_number ref) \<or> tr_number ref < 1) ''invalid ticket identity'') (\<lambda>_.
      checkR (repositoryKey (tr_provider ref) (tr_repository ref) \<notin> (\<lambda>(p, r). repositoryKey p r) ` set (repositories d))
        ''ticket repository is not allowlisted'')"

definition reconcileNow :: "ControllerDeps \<Rightarrow> TicketRef \<Rightarrow> controller \<Rightarrow> unit res \<times> controller" where
  "reconcileNow d ref s =
    (if ct_lifecycle s \<notin> {Ready, Running} then (fail ''controller reconcileNow requires ready or running'', s)
     else (case assertAllowedRef d ref of Inl e \<Rightarrow> (Inl e, s)
       | Inr u \<Rightarrow> (case scheduleTicket ref s of (None, s1) \<Rightarrow> (fail ''scheduler is closed'', s1) | (Some p, s1) \<Rightarrow> (ok (), s1))))"

section \<open>Scans\<close>

definition queueScan :: "string \<Rightarrow> ProviderKind \<times> string \<Rightarrow> controller \<Rightarrow> controller" where
  "queueScan now r s =
    (if ct_cursors s (repositoryKey (fst r) (snd r)) = None then s
     else (case schedule scan_key \<lparr> sc_provider = fst r, sc_repository = snd r, sc_nextWindow = now \<rparr> (ct_scans s) of
         (Inl e, q) \<Rightarrow> reportError s
       | (Inr t, q) \<Rightarrow> s \<lparr> ct_scans := q, ct_caughtScans := t # ct_caughtScans s \<rparr>))"

definition queueSweep :: "ControllerDeps \<Rightarrow> string \<Rightarrow> controller \<Rightarrow> controller" where
  "queueSweep d now s = fold (queueScan now) (repositories d) s"

definition call_key :: "RepositoryScan \<times> nat \<Rightarrow> string" where "call_key v = scan_key (fst v)"

text \<open>reconcileRepository up to its first await.\<close>

definition beginScan :: "nat \<Rightarrow> controller \<Rightarrow> controller" where
  "beginScan e s = (let scan = sd_value (ct_scans s) e in
     case ct_cursors s (scan_key scan) of None \<Rightarrow> s \<lparr> ct_scanRuns := (ct_scanRuns s)(e \<mapsto> Broken) \<rparr>
     | Some w \<Rightarrow> (let c = ct_callCount s;
           s1 = s \<lparr> ct_calls := (ct_calls s)(c := \<lparr> sk_scan = scan, sk_window = w, sk_tickets = [] \<rparr>), ct_callCount := Suc c \<rparr>
         in case schedule call_key (scan, c) (ct_scanCalls s1) of
              (Inl x, q) \<Rightarrow> s1 \<lparr> ct_scanRuns := (ct_scanRuns s1)(e \<mapsto> Broken) \<rparr>
            | (Inr p, q) \<Rightarrow> s1 \<lparr> ct_scanCalls := q, ct_scanRuns := (ct_scanRuns s1)(e \<mapsto> Discovering c p) \<rparr>))"

definition startScan :: "controller \<Rightarrow> controller" where
  "startScan s = (case sd_micro (ct_scans s) of [] \<Rightarrow> s | t # ms \<Rightarrow>
     (let before = ct_scans s \<lparr> sd_micro := ms \<rparr>;
          s1 = s \<lparr> ct_scans := start_entry False t before \<rparr>
      in if sd_closed before \<or> \<not> ready before t then s1 else beginScan t s1))"

definition startCall :: "controller \<Rightarrow> controller" where
  "startCall s = (case sd_micro (ct_scanCalls s) of [] \<Rightarrow> s | t # ms \<Rightarrow>
     s \<lparr> ct_scanCalls := start_entry False t (ct_scanCalls s \<lparr> sd_micro := ms \<rparr>) \<rparr>)"

definition assertTicketIdentity :: "ProviderKind \<Rightarrow> string \<Rightarrow> TicketRef \<Rightarrow> unit res" where
  "assertTicketIdentity p repository ref =
    checkR (tr_provider ref \<noteq> p \<or> tr_repository ref \<noteq> repository \<or> \<not> safe_int (tr_number ref) \<or> tr_number ref < 1)
      ''discovered ticket identity does not match its allowlisted repository''"

text \<open>The tickets of a page are added, up to one that does not belong to the repository.\<close>

definition addListed :: "nat \<Rightarrow> TicketRef \<Rightarrow> controller \<Rightarrow> controller" where
  "addListed c ref s = (if ticketKey ref \<in> ticketKey ` set (sk_tickets (ct_calls s c)) then s
     else logged (Listed c (ticketKey ref)) (s \<lparr> ct_calls := (ct_calls s)(c := (ct_calls s c)
       \<lparr> sk_tickets := sk_tickets (ct_calls s c) @ [ref] \<rparr>) \<rparr>))"

fun addPage :: "nat \<Rightarrow> TicketRef list \<Rightarrow> controller \<Rightarrow> bool \<times> controller" where
  "addPage c [] s = (True, s)"
| "addPage c (ref # rs) s =
    (if is_ok (assertTicketIdentity (sc_provider (sk_scan (ct_calls s c))) (sc_repository (sk_scan (ct_calls s c))) ref)
     then addPage c rs (addListed c ref s) else (False, s))"

definition endCall :: "nat \<Rightarrow> bool \<Rightarrow> controller \<Rightarrow> controller" where
  "endCall t b s = s \<lparr> ct_scanCalls := finish t b (ct_scanCalls s) \<rparr>"

text \<open>The reply of the provider to discoverRepository: a page with the cursor of the next one.\<close>

definition pageReply :: "nat \<Rightarrow> (TicketRef list \<times> string option) res \<Rightarrow> controller \<Rightarrow> controller" where
  "pageReply t r s =
    (if t \<notin> set (sd_running (ct_scanCalls s)) then s
     else (case r of Inl e \<Rightarrow> endCall t False s
       | Inr (tickets, cursor) \<Rightarrow>
           if ct_stopping s then endCall t True s
           else (case addPage (snd (sd_value (ct_scanCalls s) t)) tickets s of
               (False, s1) \<Rightarrow> endCall t False s1
             | (True, s1) \<Rightarrow> if cursor = None then endCall t True s1 else s1)))"

definition endScan :: "nat \<Rightarrow> bool \<Rightarrow> controller \<Rightarrow> controller" where
  "endScan e b s =
    (let n = (if b then 0 else length (filter (\<lambda>q. q = e) (ct_caughtScans s)))
     in reports n (s \<lparr> ct_scans := finish e b (ct_scans s), ct_scanRuns := (ct_scanRuns s)(e := None),
          ct_caughtScans := filter (\<lambda>q. q \<noteq> e) (ct_caughtScans s) \<rparr>))"

text \<open>The tickets of the call, each at its first place, and the active tickets of the repository.\<close>

definition found_tickets :: "ScanCall \<Rightarrow> (string \<times> TicketRef) list \<Rightarrow> TicketRef list" where
  "found_tickets c active = map snd (fold (\<lambda>r m. map_set (ticketKey r) r m)
     (sk_tickets c @ filter (\<lambda>r. tr_provider r = sc_provider (sk_scan c) \<and> tr_repository r = sc_repository (sk_scan c)) (map snd active)) [])"

definition resumeScan :: "nat \<Rightarrow> controller \<Rightarrow> controller" where
  "resumeScan e s = (case ct_scanRuns s e of
     Some (Discovering c p) \<Rightarrow>
       if settled_as (ct_scanCalls s) p False then endScan e False s
       else if settled_as (ct_scanCalls s) p True then
         (if ct_stopping s then endScan e True s
          else (case scheduleAll (found_tickets (ct_calls s c) (ct_active s)) s of
            (ps, s1) \<Rightarrow> s1 \<lparr> ct_scanRuns := (ct_scanRuns s1)(e \<mapsto> Waiting ps c) \<rparr>))
       else s
   | Some (Waiting ps c) \<Rightarrow>
       if \<exists>q \<in> set ps. (case q of None \<Rightarrow> True | Some p \<Rightarrow> settled_as (ct_tickets s) p False) then endScan e False s
       else if \<forall>q \<in> set ps. (case q of None \<Rightarrow> False | Some p \<Rightarrow> settled_as (ct_tickets s) p True) then
         (let scan = sd_value (ct_scans s) e; k = scan_key scan
          in endScan e True (logged (Advanced k (sk_window (ct_calls s c)) (sc_nextWindow scan) c)
               (s \<lparr> ct_cursors := (ct_cursors s)(k \<mapsto> sc_nextWindow scan) \<rparr>)))
       else s
   | Some Broken \<Rightarrow> endScan e False s
   | None \<Rightarrow> s)"

section \<open>The life of the controller\<close>

text \<open>cleanup up to its first await, and after its last; what it collects are errors that its caller throws.\<close>

definition beginCleanup :: "Lifecycle \<Rightarrow> controller \<Rightarrow> controller" where
  "beginCleanup target s = logged (CancelPass (ct_flows s)) (logged Stopping (s \<lparr> ct_stopping := True,
     ct_scans := close_scheduler (ct_scans s), ct_scanCalls := close_scheduler (ct_scanCalls s),
     ct_tickets := close_scheduler (ct_tickets s), ct_boot := NoBoot, ct_ending := Some target \<rparr>))"

definition idle :: "'v sched \<Rightarrow> bool" where "idle q \<longleftrightarrow> sd_active q = 0 \<and> sd_pending q = []"

definition endCleanup :: "controller \<Rightarrow> controller" where
  "endCleanup s = (case ct_ending s of None \<Rightarrow> s | Some target \<Rightarrow>
     if idle (ct_scans s) \<and> idle (ct_scanCalls s) \<and> idle (ct_tickets s)
     then logged (CancelPass (ct_flows s)) (s \<lparr> ct_lifecycle := target, ct_ending := None \<rparr>) else s)"

definition bootstrap :: "ControllerDeps \<Rightarrow> string \<Rightarrow> controller \<Rightarrow> unit res \<times> controller" where
  "bootstrap d now s = (if ct_lifecycle s \<noteq> Created then (fail ''controller bootstrap may only run once'', s)
     else (ok (), s \<lparr> ct_lifecycle := Bootstrapping,
       ct_boot := (if repositories d = [] then BootPrepare [] else BootRead (repositories d) [] now) \<rparr>))"

fun addFound :: "ProviderKind \<Rightarrow> string \<Rightarrow> TicketRef list \<Rightarrow> (string \<times> TicketRef) list \<Rightarrow> (string \<times> TicketRef) list res" where
  "addFound p r [] found = ok found"
| "addFound p r (ref # rs) found = bindR (assertTicketIdentity p r ref) (\<lambda>_. addFound p r rs (map_set (ticketKey ref) ref found))"

definition bootReply :: "TicketRef list res \<Rightarrow> controller \<Rightarrow> controller" where
  "bootReply reply s = (case ct_boot s of
     BootRead ((p, r) # rest) found started \<Rightarrow>
       (case bindR reply (\<lambda>refs. addFound p r refs found) of
          Inl e \<Rightarrow> beginCleanup Failed s
        | Inr found' \<Rightarrow> s \<lparr> ct_cursors := (ct_cursors s)(repositoryKey p r \<mapsto> started),
            ct_boot := (if rest = [] then BootPrepare found' else BootRead rest found' started) \<rparr>)
   | _ \<Rightarrow> s)"

definition bootPrepared :: "bool \<Rightarrow> controller \<Rightarrow> controller" where
  "bootPrepared b s = (case ct_boot s of
     BootPrepare found \<Rightarrow>
       if \<not> b then beginCleanup Failed s
       else (case scheduleAll (map snd found) s of (ps, s1) \<Rightarrow> s1 \<lparr> ct_boot := BootWait ps \<rparr>)
   | _ \<Rightarrow> s)"

definition bootDone :: "controller \<Rightarrow> controller" where
  "bootDone s = (case ct_boot s of
     BootWait ps \<Rightarrow>
       if \<forall>q \<in> set ps. (case q of None \<Rightarrow> True | Some p \<Rightarrow> settled_as (ct_tickets s) p True \<or> settled_as (ct_tickets s) p False) then
         (if \<exists>q \<in> set ps. (case q of None \<Rightarrow> True | Some p \<Rightarrow> settled_as (ct_tickets s) p False) then beginCleanup Failed s
          else s \<lparr> ct_lifecycle := Ready, ct_boot := NoBoot \<rparr>)
       else s
   | _ \<Rightarrow> s)"

definition run :: "controller \<Rightarrow> unit res \<times> controller" where
  "run s = (if ct_lifecycle s \<in> {Created, Bootstrapping, Failed} then (fail ''controller run requires a successful bootstrap'', s)
     else if ct_lifecycle s \<noteq> Ready then (fail ''controller run may only run once'', s)
     else (ok (), s \<lparr> ct_lifecycle := Running \<rparr>))"

definition looping :: "controller \<Rightarrow> bool" where
  "looping s \<longleftrightarrow> ct_lifecycle s = Running \<and> ct_ending s = None"

text \<open>One turn of the loop after its delay, with the state of the runtime when there is one: it may start work, the interval and the concurrency.\<close>

definition tick :: "ControllerDeps \<Rightarrow> (bool \<times> int \<times> int) option res \<Rightarrow> string \<Rightarrow> controller \<Rightarrow> controller" where
  "tick d r now s = (if \<not> looping s then s
     else (case r of Inl e \<Rightarrow> beginCleanup Stopped s
       | Inr None \<Rightarrow> queueSweep d now s
       | Inr (Some (mayStartWork, interval, concurrency)) \<Rightarrow>
           (let s1 = s \<lparr> ct_interval := interval * 1000 \<rparr> in
            if interval * 1000 \<le> 0 then beginCleanup Stopped s1
            else (case setConcurrency concurrency (ct_tickets s1) of
                (Inl e, q) \<Rightarrow> beginCleanup Stopped s1
              | (Inr u, q) \<Rightarrow> if mayStartWork then queueSweep d now (s1 \<lparr> ct_tickets := q \<rparr>) else s1 \<lparr> ct_tickets := q \<rparr>))))"

definition aborted :: "controller \<Rightarrow> controller" where
  "aborted s = (if looping s then beginCleanup Stopped s else s)"

section \<open>Steps\<close>

datatype ctl_event =
    Bootstrap string | BootReply "TicketRef list res" | BootPrepared bool | BootDone
  | Run | Tick "(bool \<times> int \<times> int) option res" string | Abort | Request TicketRef | LauncherSettled TicketRef
  | ScanMicro | CallMicro | TicketMicro | PageReply nat "(TicketRef list \<times> string option) res" | Resume nat
  | TicketEnds nat "ReconcileOutcome res" string | Callback nat | Drained

fun react :: "ControllerDeps \<Rightarrow> ctl_event \<Rightarrow> controller \<Rightarrow> controller" where
  "react d (Bootstrap now) s = snd (bootstrap d now s)"
| "react d (BootReply r) s = bootReply r s"
| "react d (BootPrepared b) s = bootPrepared b s"
| "react d BootDone s = bootDone s"
| "react d Run s = snd (run s)"
| "react d (Tick r now) s = tick d r now s"
| "react d Abort s = aborted s"
| "react d (Request ref) s = snd (reconcileNow d ref s)"
| "react d (LauncherSettled ref) s = onSettled ref s"
| "react d ScanMicro s = startScan s"
| "react d CallMicro s = startCall s"
| "react d TicketMicro s = startTicket s"
| "react d (PageReply t r) s = pageReply t r s"
| "react d (Resume e) s = resumeScan e s"
| "react d (TicketEnds t r now) s = endTicket t r now s"
| "react d (Callback p) s = ticketCallback p s"
| "react d Drained s = endCleanup s"

text \<open>The snapshot that the dashboard shows; the fields of a ticket reference are in its key.\<close>

record ControllerSnapshot =
  cn_lifecycle :: Lifecycle
  cn_repositories :: "(ProviderKind \<times> string \<times> string option) list"
  cn_tickets :: "(string \<times> ObservedTicket) list"
  cn_queue :: "int \<times> int \<times> int"
  cn_locks :: "TicketRef list"
  cn_activeWork :: "TicketRef list"
  cn_errors :: "string list"

definition schedulerLocks :: "controller \<Rightarrow> TicketRef list" where
  "schedulerLocks s = map snd (fold (\<lambda>(p, ref, obs) m. map_set (ticketKey ref) ref m) (ct_accepted s) [])"

definition controller_snapshot :: "ControllerDeps \<Rightarrow> controller \<Rightarrow> ControllerSnapshot" where
  "controller_snapshot d s = \<lparr> cn_lifecycle = ct_lifecycle s,
     cn_repositories = map (\<lambda>(p, r). (p, r, ct_cursors s (repositoryKey p r))) (repositories d),
     cn_tickets = map (\<lambda>(i, obs). (i, ct_store s obs)) (ct_observed s), cn_queue = snapshot (ct_tickets s), cn_locks = schedulerLocks s,
     cn_activeWork = map snd (ct_active s), cn_errors = ct_errors s \<rparr>"

end
