(* ===== verification/ControllerProps.thy ===== *)
theory ControllerProps
  imports Controller
begin

text \<open>
  What the polling loop promises: the cursor of a repository moves only when every ticket listed for its window has been
  reconciled since it was listed, and a controller that stops starts nothing more and ends only when its work has ended.
\<close>

section \<open>Schedulers with their outcomes\<close>

text \<open>A scheduler whose entries have the keys of their values, and whose settled entries are gone.\<close>

definition sched_wf :: "('v \<Rightarrow> string) \<Rightarrow> 'v sched \<Rightarrow> bool" where
  "sched_wf key q \<longleftrightarrow> sched_inv q \<and> (\<forall>t < sd_next q. sd_id q t = key (sd_value q t))
     \<and> (\<forall>(t, b) \<in> set (sd_settled q). t < sd_next q \<and> \<not> live q t)"

lemma sched_wf_inv: "sched_wf key q \<Longrightarrow> sched_inv q" by (simp add: sched_wf_def)

definition grows :: "'v sched \<Rightarrow> 'v sched \<Rightarrow> bool" where
  "grows q q' \<longleftrightarrow> sd_next q \<le> sd_next q' \<and> (\<forall>t < sd_next q. sd_id q' t = sd_id q t \<and> sd_value q' t = sd_value q t)
     \<and> (\<forall>t. sd_started q t \<longrightarrow> sd_started q' t) \<and> set (sd_settled q) \<subseteq> set (sd_settled q') \<and> (sd_closed q \<longrightarrow> sd_closed q')"

lemma grows_refl [simp]: "grows q q" by (simp add: grows_def)

lemma grows_trans:
  assumes "grows q1 q2" "grows q2 q3"
  shows "grows q1 q3"
proof -
  have "sd_id q3 t = sd_id q1 t \<and> sd_value q3 t = sd_value q1 t" if "t < sd_next q1" for t
    using assms that less_le_trans [OF that, of "sd_next q2"] by (simp add: grows_def)
  then show ?thesis using assms by (auto simp: grows_def)
qed

lemma live_below: "sched_inv q \<Longrightarrow> live q t \<Longrightarrow> t < sd_next q"
  unfolding sched_inv_def by (meson not_le)

lemma running_live: "sched_inv q \<Longrightarrow> t \<in> set (sd_running q) \<Longrightarrow> live q t \<and> sd_started q t \<and> t < sd_next q"
  using live_below inv_running by metis

lemma pump_frame:
  "sd_next (pump s) = sd_next s \<and> sd_value (pump s) = sd_value s \<and> sd_settled (pump s) = sd_settled s
    \<and> sd_started (pump s) = sd_started s \<and> sd_id (pump s) = sd_id s \<and> sd_keyed (pump s) = sd_keyed s \<and> sd_closed (pump s) = sd_closed s
    \<and> sd_running (pump s) = sd_running s"
proof (induction s rule: pump.induct)
  case (1 s)
  show ?case
  proof (cases "sd_active s < sd_concurrency s \<and> List.find (ready s) (sd_pending s) \<noteq> None")
    case True
    then obtain t where t: "List.find (ready s) (sd_pending s) = Some t" by auto
    then have "pump s = pump (claim t s)" using True by (subst pump.simps) simp
    then show ?thesis using 1 [OF _ t] True by (simp add: claim_def)
  next
    case False
    then have "pump s = s" by (subst pump.simps) auto
    then show ?thesis by simp
  qed
qed

lemma live_cong: "sd_keyed q' = sd_keyed q \<Longrightarrow> sd_id q' = sd_id q \<Longrightarrow> live q' t = live q t"
  by (simp add: live_def)

lemma sched_wf_cong:
  assumes "sched_wf key q" "sched_inv q'" "sd_next q' = sd_next q" "sd_id q' = sd_id q" "sd_value q' = sd_value q"
    "sd_settled q' = sd_settled q" "sd_keyed q' = sd_keyed q"
  shows "sched_wf key q'"
  using assms live_cong [of q' q] by (simp add: sched_wf_def)

lemma schedule_wf:
  assumes "sched_wf key q" "schedule key v q = (r, q')"
  shows "sched_wf key q' \<and> grows q q' \<and> sd_started q' = sd_started q \<and> sd_settled q' = sd_settled q \<and> sd_running q' = sd_running q
    \<and> sd_closed q' = sd_closed q \<and> (case r of Inl e \<Rightarrow> sd_closed q \<and> q' = q
      | Inr p \<Rightarrow> \<not> sd_closed q \<and> p < sd_next q' \<and> sd_id q' p = key v \<and> \<not> sd_started q' p \<and> live q' p
          \<and> (\<forall>t. sd_next q \<le> t \<and> t < sd_next q' \<longrightarrow> t = p \<and> sd_value q' t = v))"
proof (cases "sd_closed q")
  case True
  then show ?thesis using assms by (auto simp: schedule_def fail_def)
next
  case open_: False
  note i = sched_wf_inv [OF assms(1)]
  show ?thesis
  proof (cases "sd_keyed q (key v) \<noteq> [] \<and> \<not> sd_started q (last (sd_keyed q (key v)))")
    case True
    let ?p = "last (sd_keyed q (key v))"
    have r: "r = Inr ?p" "q' = q" using assms(2) True open_ by (auto simp: schedule_def Let_def ok_def)
    have "?p \<in> set (sd_keyed q (key v))" using True by simp
    then have "sd_id q ?p = key v" "?p < sd_next q" using inv_gens [OF i, of "key v"] by (auto simp: gens_ok_def)
    then show ?thesis using r True open_ assms(1) \<open>?p \<in> _\<close> by (auto simp: live_def)
  next
    case False
    have r: "r = Inr (sd_next q)" "q' = pump (new_entry key v q)"
      using assms(2) False open_ by (auto simp: schedule_def Let_def ok_def)
    let ?n = "new_entry key v q"
    have inv: "sched_inv ?n" using new_entry_inv [OF i open_] False by blast
    then have inv': "sched_inv q'" using pump_props r(2) by blast
    have f: "sd_next q' = Suc (sd_next q)" "sd_value q' = (sd_value q)(sd_next q := v)" "sd_settled q' = sd_settled q"
      "sd_id q' = (sd_id q)(sd_next q := key v)" "sd_started q' = (sd_started q)(sd_next q := False)" "sd_closed q' = sd_closed q"
      "sd_keyed q' = (sd_keyed q)(key v := sd_keyed q (key v) @ [sd_next q])" "sd_running q' = sd_running q"
      unfolding r(2) using pump_frame [of ?n] by (simp_all add: new_entry_def Let_def)
    have ns: "\<not> sd_started q (sd_next q)" using i unfolding sched_inv_def by blast
    then have st: "sd_started q' = sd_started q" using f(5) by (intro ext) simp
    have dead: "\<not> live q' t" if "t < sd_next q" "\<not> live q t" for t
      using that f(4,7) by (auto simp: live_def)
    have "sched_wf key q'" using assms(1) inv' f dead by (auto simp: sched_wf_def less_Suc_eq)
    moreover have "live q' (sd_next q)" using f by (simp add: live_def)
    ultimately show ?thesis using r f st ns open_ by (auto simp: grows_def less_Suc_eq)
  qed
qed

lemma start_wf:
  assumes "sched_wf key q" "sd_micro q = t # ms"
  defines "b \<equiv> q \<lparr> sd_micro := ms \<rparr>"
  defines "q' \<equiv> start_entry False t b"
  shows "sched_wf key q' \<and> grows q q' \<and> sd_settled q' = sd_settled q \<and> sd_closed q' = sd_closed q \<and> sd_next q' = sd_next q
    \<and> sd_value q' = sd_value q \<and> sd_id q' = sd_id q
    \<and> (if sd_closed b \<or> \<not> ready b t then sd_started q' = sd_started q \<and> sd_running q' = sd_running q
       else t < sd_next q \<and> sd_started q' = (sd_started q)(t := True) \<and> sd_running q' = sd_running q @ [t])"
proof -
  have inv: "sched_inv q'" using start_inv [OF sched_wf_inv [OF assms(1)] assms(2)] unfolding q'_def b_def .
  have t: "t < sd_next q" if "ready b t"
    using live_below [OF sched_wf_inv [OF assms(1)]] ready_live [OF that] unfolding b_def by (simp add: live_def)
  have f: "sd_next q' = sd_next q" "sd_value q' = sd_value q" "sd_id q' = sd_id q" "sd_settled q' = sd_settled q"
    "sd_keyed q' = sd_keyed q" "sd_closed q' = sd_closed q"
    unfolding q'_def b_def by (simp_all add: start_entry_def Let_def)
  have "sched_wf key q'" by (rule sched_wf_cong [OF assms(1) inv f(1,3,2,4,5)])
  then show ?thesis using f t by (auto simp: q'_def b_def start_entry_def Let_def grows_def)
qed

lemma finish_frame:
  "sd_next (finish t b q) = sd_next q \<and> sd_value (finish t b q) = sd_value q \<and> sd_id (finish t b q) = sd_id q
    \<and> sd_started (finish t b q) = sd_started q \<and> sd_settled (finish t b q) = sd_settled q @ [(t, b)]
    \<and> sd_keyed (finish t b q) = sd_keyed (release t q) \<and> sd_closed (finish t b q) = sd_closed q
    \<and> sd_running (finish t b q) = remove1 t (sd_running q)"
  using pump_frame [of "release t q"]
  by (simp add: finish_def Let_def settleDrain_def release_def remove_entry_def)

lemma finish_wf:
  assumes "sched_wf key q" "t \<in> set (sd_running q)"
  shows "sched_wf key (finish t b q) \<and> grows q (finish t b q)"
proof -
  note i = sched_wf_inv [OF assms(1)] and f = finish_frame [of t b q]
  have lv: "live (finish t b q) u \<longleftrightarrow> live q u \<and> u \<noteq> t" for u
    using live_remove [OF i, of t u] live_cong [of "finish t b q" "release t q" u] f by (simp add: release_def remove_entry_def)
  have "t < sd_next q" using running_live [OF i assms(2)] by simp
  then show ?thesis using assms(1) finish_inv [OF i assms(2)] lv f by (auto simp: sched_wf_def grows_def)
qed

lemma concurrency_wf:
  assumes "sched_wf key q" "setConcurrency n q = (r, q')"
  shows "sched_wf key q' \<and> grows q q' \<and> sd_started q' = sd_started q \<and> sd_settled q' = sd_settled q \<and> sd_running q' = sd_running q
    \<and> sd_value q' = sd_value q \<and> sd_closed q' = sd_closed q \<and> sd_next q' = sd_next q \<and> sd_id q' = sd_id q"
proof -
  have "sched_inv q'" using concurrency_inv [OF sched_wf_inv [OF assms(1)], of n] assms(2) by simp
  then show ?thesis using assms pump_frame [of "q \<lparr> sd_concurrency := n \<rparr>"]
    by (auto simp: setConcurrency_def grows_def fail_def ok_def split: if_split_asm intro!: sched_wf_cong [OF assms(1)])
qed

lemma cancel_frame:
  "sd_next (fold cancel_entry ts q) = sd_next q \<and> sd_value (fold cancel_entry ts q) = sd_value q \<and> sd_id (fold cancel_entry ts q) = sd_id q
    \<and> sd_started (fold cancel_entry ts q) = sd_started q \<and> sd_running (fold cancel_entry ts q) = sd_running q
    \<and> sd_settled (fold cancel_entry ts q) = sd_settled q @ map (\<lambda>t. (t, False)) ts \<and> sd_closed (fold cancel_entry ts q) = sd_closed q"
  by (induction ts arbitrary: q) (simp_all add: cancel_entry_def remove_entry_def Let_def)

lemma close_wf:
  assumes "sched_wf key q"
  shows "sched_wf key (close_scheduler q) \<and> grows q (close_scheduler q) \<and> sd_closed (close_scheduler q)
    \<and> sd_started (close_scheduler q) = sd_started q \<and> sd_running (close_scheduler q) = sd_running q
    \<and> sd_next (close_scheduler q) = sd_next q \<and> sd_value (close_scheduler q) = sd_value q \<and> sd_id (close_scheduler q) = sd_id q
    \<and> (\<forall>t. (t, True) \<in> set (sd_settled (close_scheduler q)) \<longleftrightarrow> (t, True) \<in> set (sd_settled q))"
proof (cases "sd_closed q")
  case True
  then show ?thesis using assms by (simp add: close_scheduler_def)
next
  case False
  note i = sched_wf_inv [OF assms]
  define ts where "ts = filter (\<lambda>t. t \<in> set (sd_keyed q (sd_id q t)) \<and> \<not> sd_started q t) [0..<sd_next q]"
  let ?q = "q \<lparr> sd_closed := True \<rparr>" let ?c = "close_scheduler q"
  have c: "?c = settleDrain (fold cancel_entry ts ?q)" using False by (simp add: close_scheduler_def ts_def)
  have "\<exists>kd. fold cancel_entry ts ?q = ?q \<lparr> sd_keyed := kd, sd_pending := filter (\<lambda>u. u \<notin> set ts) (sd_pending ?q),
      sd_active := sd_active ?q - int (length (filter (sd_claimed ?q) ts)),
      sd_settled := sd_settled ?q @ map (\<lambda>t. (t, False)) ts \<rparr>
    \<and> (\<forall>k. kd k = filter (\<lambda>u. u \<notin> set ts \<or> sd_id ?q u \<noteq> k) (sd_keyed ?q k))"
    by (rule fold_cancel) (use i in \<open>auto simp: ts_def sched_inv_def gens_ok_def\<close>)
  then obtain kd where kd: "sd_keyed (fold cancel_entry ts ?q) = kd"
      "\<forall>k. kd k = filter (\<lambda>u. u \<notin> set ts \<or> sd_id q u \<noteq> k) (sd_keyed q k)" by auto
  have f: "sd_next ?c = sd_next q" "sd_value ?c = sd_value q" "sd_id ?c = sd_id q" "sd_started ?c = sd_started q" "sd_running ?c = sd_running q"
      "sd_settled ?c = sd_settled q @ map (\<lambda>t. (t, False)) ts" "sd_closed ?c" "sd_keyed ?c = kd"
    unfolding c using cancel_frame [of ts ?q] kd(1) by (simp_all add: settleDrain_def)
  have lv: "live ?c u \<longleftrightarrow> live q u \<and> u \<notin> set ts" for u using f(3,8) kd(2) by (auto simp: live_def)
  have "t < sd_next q" if "t \<in> set ts" for t using that by (simp add: ts_def)
  then show ?thesis using assms close_inv [OF i] f lv by (auto simp: sched_wf_def grows_def)
qed

lemma create_wf: "createScheduler dv n = Inr q \<Longrightarrow> sched_wf key q \<and> sd_settled q = [] \<and> sd_next q = 0 \<and> \<not> sd_closed q
    \<and> sd_started q = (\<lambda>_. False) \<and> sd_running q = []"
  using create_inv [of dv n q] by (auto simp: createScheduler_def sched_wf_def ok_def fail_def split: if_split_asm)

section \<open>The log\<close>

text \<open>A ticket was listed before an entry started; a start and its successful end; a ticket reconciled since it was listed.\<close>

definition listed_before :: "event_log list \<Rightarrow> nat \<Rightarrow> string \<Rightarrow> nat \<Rightarrow> bool" where
  "listed_before lg c i p \<longleftrightarrow> (\<exists>as bs. lg = as @ bs \<and> Listed c i \<in> set as \<and> (\<forall>k. Started p k \<notin> set as))"

definition ran :: "event_log list \<Rightarrow> nat \<Rightarrow> string \<Rightarrow> bool" where
  "ran lg p k \<longleftrightarrow> (\<exists>as bs cs. lg = as @ Started p k # bs @ Finished p True # cs)"

definition reconciled_since :: "event_log list \<Rightarrow> nat \<Rightarrow> string \<Rightarrow> bool" where
  "reconciled_since lg c i \<longleftrightarrow>
    (\<exists>p as bs cs. lg = as @ Started p i # bs @ Finished p True # cs \<and> Listed c i \<in> set as)"

lemma listed_before_append: "listed_before lg c i p \<Longrightarrow> listed_before (lg @ es) c i p"
  unfolding listed_before_def by (metis append_assoc)

lemma ran_append: "ran lg p k \<Longrightarrow> ran (lg @ es) p k"
  unfolding ran_def by (metis append_Cons append_assoc)

lemma reconciled_append: "reconciled_since lg c i \<Longrightarrow> reconciled_since (lg @ es) c i"
  unfolding reconciled_since_def by (metis append_Cons append_assoc)

lemma ran_since:
  assumes "listed_before lg c i p" "ran lg p i"
  shows "reconciled_since lg c i"
proof -
  obtain as bs where l: "lg = as @ bs" "Listed c i \<in> set as" "\<forall>k. Started p k \<notin> set as" using assms(1) unfolding listed_before_def by blast
  obtain as' bs' cs where r: "lg = as' @ Started p i # bs' @ Finished p True # cs" using assms(2) unfolding ran_def by blast
  then obtain us where "as @ us = as' \<or> (as = as' @ us \<and> us @ bs = Started p i # bs' @ Finished p True # cs)"
    using l(1) by (metis append_eq_append_conv2)
  then have "Listed c i \<in> set as'" using l(2,3) by (cases us) auto
  then show ?thesis using r unfolding reconciled_since_def by blast
qed

definition covered :: "event_log list \<Rightarrow> bool" where
  "covered lg \<longleftrightarrow> (\<forall>xs k w n c ys i. lg = xs @ Advanced k w n c # ys \<longrightarrow> Listed c i \<in> set xs \<longrightarrow> reconciled_since xs c i)"

definition advance :: "event_log \<Rightarrow> bool" where
  "advance e = (case e of Advanced k w n c \<Rightarrow> True | _ \<Rightarrow> False)"

lemma snoc_split: "l @ [e] = xs @ a # ys \<longleftrightarrow> (ys = [] \<and> xs = l \<and> a = e) \<or> (\<exists>zs. ys = zs @ [e] \<and> l = xs @ a # zs)"
  by (cases ys rule: rev_cases) auto

lemma covered_snoc:
  "covered (lg @ [e]) \<longleftrightarrow> covered lg \<and> (\<forall>k w n c i. e = Advanced k w n c \<longrightarrow> Listed c i \<in> set lg \<longrightarrow> reconciled_since lg c i)"
  (is "?l = ?r")
proof
  assume l: ?l
  have "reconciled_since xs c i" if "lg = xs @ Advanced k w n c # ys" "Listed c i \<in> set xs" for xs k w n c ys i
    using l [unfolded covered_def, rule_format, of xs k w n c "ys @ [e]" i] that by simp
  moreover have "reconciled_since lg c i" if "e = Advanced k w n c" "Listed c i \<in> set lg" for k w n c i
    using l [unfolded covered_def, rule_format, of lg k w n c "[]" i] that by simp
  ultimately show ?r by (auto simp: covered_def)
next
  assume r: ?r
  show ?l unfolding covered_def
  proof (intro allI impI)
    fix xs k w n c ys i assume a: "lg @ [e] = xs @ Advanced k w n c # ys" "Listed c i \<in> set xs"
    then show "reconciled_since xs c i" using r unfolding snoc_split covered_def by blast
  qed
qed

text \<open>After a stop nothing is started.\<close>

definition quiet_after :: "event_log list \<Rightarrow> bool" where
  "quiet_after lg \<longleftrightarrow> (\<forall>xs ys p k. lg = xs @ Stopping # ys \<longrightarrow> Started p k \<notin> set ys)"

lemma quiet_snoc: "quiet_after (lg @ [e]) \<longleftrightarrow> quiet_after lg \<and> (\<forall>p k. e = Started p k \<longrightarrow> Stopping \<notin> set lg)"
  (is "?l = ?r")
proof
  assume l: ?l
  then have "quiet_after lg" unfolding quiet_after_def snoc_split by fastforce
  moreover have "Stopping \<notin> set lg" if "e = Started p k" for p k
  proof
    assume "Stopping \<in> set lg"
    then obtain xs ys where "lg = xs @ Stopping # ys" by (meson split_list)
    then show False using l [unfolded quiet_after_def, rule_format, of xs "ys @ [e]" p k] that by simp
  qed
  ultimately show ?r by blast
next
  assume r: ?r
  then show ?l unfolding quiet_after_def snoc_split by fastforce
qed

section \<open>The invariant\<close>

definition waits_ok :: "(TicketRef \<times> nat) sched \<Rightarrow> event_log list \<Rightarrow> nat option list \<Rightarrow> nat \<Rightarrow> bool" where
  "waits_ok T lg ps c \<longleftrightarrow> (\<forall>i. Listed c i \<in> set lg \<longrightarrow> None \<in> set ps \<or>
     (\<exists>p. Some p \<in> set ps \<and> p < sd_next T \<and> sd_id T p = i \<and> listed_before lg c i p))"

definition run_ok :: "controller \<Rightarrow> ScanRun \<Rightarrow> bool" where
  "run_ok s r = (case r of
     Discovering c p \<Rightarrow> c < ct_callCount s \<and> (\<forall>t < sd_next (ct_scanCalls s). snd (sd_value (ct_scanCalls s) t) = c \<longrightarrow> t = p)
   | Waiting ps c \<Rightarrow> c < ct_callCount s \<and> waits_ok (ct_tickets s) (ct_log s) ps c
       \<and> (\<forall>t < sd_next (ct_scanCalls s). snd (sd_value (ct_scanCalls s) t) = c \<longrightarrow> settled_as (ct_scanCalls s) t True)
   | Broken \<Rightarrow> True)"

definition cinv :: "controller \<Rightarrow> bool" where
  "cinv s \<longleftrightarrow> sched_wf ticket_value_key (ct_tickets s) \<and> sched_wf call_key (ct_scanCalls s) \<and> sched_wf scan_key (ct_scans s)
     \<and> (\<forall>t. sd_started (ct_tickets s) t \<longrightarrow> t < sd_next (ct_tickets s))
     \<and> (\<forall>t k. Started t k \<in> set (ct_log s) \<longrightarrow> sd_started (ct_tickets s) t \<and> k = sd_id (ct_tickets s) t)
     \<and> (\<forall>t. sd_started (ct_tickets s) t \<longrightarrow> Started t (sd_id (ct_tickets s) t) \<in> set (ct_log s))
     \<and> (\<forall>t. settled_as (ct_tickets s) t True \<longrightarrow> ran (ct_log s) t (sd_id (ct_tickets s) t))
     \<and> (\<forall>c i. Listed c i \<in> set (ct_log s) \<longrightarrow> c < ct_callCount s \<and> i \<in> ticketKey ` set (sk_tickets (ct_calls s c)))
     \<and> (\<forall>t < sd_next (ct_scanCalls s). snd (sd_value (ct_scanCalls s) t) < ct_callCount s)
     \<and> (\<forall>e r. ct_scanRuns s e = Some r \<longrightarrow> run_ok s r)
     \<and> (\<forall>e. ct_scanRuns s e \<noteq> None \<longrightarrow> e \<in> set (sd_running (ct_scans s)))
     \<and> covered (ct_log s) \<and> quiet_after (ct_log s)
     \<and> (Stopping \<in> set (ct_log s) \<longrightarrow> sd_closed (ct_tickets s))"

text \<open>Worlds that agree on what the invariant reads.\<close>

definition core :: "controller \<Rightarrow> controller \<Rightarrow> bool" where
  "core s s' \<longleftrightarrow> ct_tickets s' = ct_tickets s \<and> ct_scanCalls s' = ct_scanCalls s \<and> ct_scans s' = ct_scans s
     \<and> ct_scanRuns s' = ct_scanRuns s \<and> ct_calls s' = ct_calls s \<and> ct_callCount s' = ct_callCount s \<and> ct_log s' = ct_log s"

lemma cinv_core: "core s s' \<Longrightarrow> cinv s \<Longrightarrow> cinv s'"
  by (simp add: cinv_def core_def run_ok_def cong: ScanRun.case_cong)

lemma core_refl [simp]: "core s s" by (simp add: core_def)

lemma core_trans: "core s1 s2 \<Longrightarrow> core s2 s3 \<Longrightarrow> core s1 s3" by (simp add: core_def)

lemma core_report [simp]: "core s (reportError s)" by (simp add: core_def reportError_def Let_def)

lemma core_reports [simp]: "core s (reports n s)"
  unfolding reports_def by (induction n) (auto intro: core_trans)

lemma core_remove [simp]: "core s (removeObservation i obs s)" by (simp add: core_def removeObservation_def)

lemma core_outcome [simp]: "core s (applyOutcome ref obs r now s)"
  by (simp add: core_def applyOutcome_def removeObservation_def Let_def)

lemma cinv_parts:
  assumes "cinv s"
  shows "sched_wf ticket_value_key (ct_tickets s)" "sched_wf call_key (ct_scanCalls s)" "sched_wf scan_key (ct_scans s)"
    "\<And>t k. Started t k \<in> set (ct_log s) \<Longrightarrow> sd_started (ct_tickets s) t \<and> k = sd_id (ct_tickets s) t"
    "\<And>c i. Listed c i \<in> set (ct_log s) \<Longrightarrow> c < ct_callCount s \<and> i \<in> ticketKey ` set (sk_tickets (ct_calls s c))"
    "\<And>e r. ct_scanRuns s e = Some r \<Longrightarrow> run_ok s r"
    "\<And>t. sd_started (ct_tickets s) t \<Longrightarrow> t < sd_next (ct_tickets s)"
    "\<And>e. ct_scanRuns s e \<noteq> None \<Longrightarrow> e \<in> set (sd_running (ct_scans s))"
    "\<And>t. t < sd_next (ct_scanCalls s) \<Longrightarrow> snd (sd_value (ct_scanCalls s) t) < ct_callCount s"
  using assms unfolding cinv_def by blast+

text \<open>The tickets' scheduler moves on without starting or succeeding.\<close>

lemma waits_grow: "waits_ok T lg ps c \<Longrightarrow> grows T T' \<Longrightarrow> waits_ok T' lg ps c"
  unfolding waits_ok_def grows_def using less_le_trans by metis

lemma cinv_tickets:
  assumes "cinv s" "sched_wf ticket_value_key T" "grows (ct_tickets s) T" "sd_started T = sd_started (ct_tickets s)"
    "\<forall>t. settled_as T t True \<longrightarrow> settled_as (ct_tickets s) t True"
    and s': "ct_tickets s' = T" "ct_scanCalls s' = ct_scanCalls s" "ct_scans s' = ct_scans s"
     "ct_scanRuns s' = ct_scanRuns s" "ct_calls s' = ct_calls s" "ct_callCount s' = ct_callCount s" "ct_log s' = ct_log s"
  shows "cinv s'"
proof -
  have ids: "sd_id T t = sd_id (ct_tickets s) t" if "sd_started (ct_tickets s) t" for t
    using cinv_parts(7) [OF assms(1) that] assms(3) by (simp add: grows_def)
  have st: "t < sd_next T" if "sd_started T t" for t
    using cinv_parts(7) [OF assms(1)] that assms(3,4) by (auto simp: grows_def intro: less_le_trans)
  have sett: "sd_started (ct_tickets s) t" if "settled_as (ct_tickets s) t True" for t
  proof -
    have "ran (ct_log s) t (sd_id (ct_tickets s) t)" using assms(1) that by (simp add: cinv_def)
    then have "Started t (sd_id (ct_tickets s) t) \<in> set (ct_log s)" unfolding ran_def by auto
    then show ?thesis using cinv_parts(4) [OF assms(1)] by blast
  qed
  have runs: "run_ok s' r" if "ct_scanRuns s e = Some r" for e r
    using cinv_parts(6) [OF assms(1) that] waits_grow [OF _ assms(3)] s' by (cases r) (auto simp: run_ok_def)
  have cl: "sd_closed (ct_tickets s) \<longrightarrow> sd_closed T" using assms(3) by (simp add: grows_def)
  show ?thesis unfolding cinv_def s'(1-3) s'(4-7)
  proof (intro conjI allI impI)
    fix t assume "settled_as T t True"
    then have "settled_as (ct_tickets s) t True" using assms(5) by blast
    then show "ran (ct_log s) t (sd_id T t)" using assms(1) sett [of t] ids [of t] by (simp add: cinv_def)
  qed (use assms(1,2,4) ids st runs cl in \<open>auto simp: cinv_def\<close>)
qed

section \<open>Every step keeps it\<close>

lemma scheduleTicket_ok:
  assumes "cinv s" "scheduleTicket ref s = (r, s')"
  shows "cinv s' \<and> grows (ct_tickets s) (ct_tickets s') \<and> sd_started (ct_tickets s') = sd_started (ct_tickets s)
    \<and> ct_scanCalls s' = ct_scanCalls s \<and> ct_scans s' = ct_scans s \<and> ct_scanRuns s' = ct_scanRuns s \<and> ct_calls s' = ct_calls s
    \<and> ct_callCount s' = ct_callCount s \<and> ct_log s' = ct_log s \<and> ct_cursors s' = ct_cursors s
    \<and> ct_lifecycle s' = ct_lifecycle s \<and> ct_boot s' = ct_boot s
    \<and> (\<forall>p. r = Some p \<longrightarrow> p < sd_next (ct_tickets s') \<and> sd_id (ct_tickets s') p = ticketKey ref \<and> \<not> sd_started (ct_tickets s') p)"
proof -
  obtain x q where q: "schedule ticket_value_key (ref, ct_objects s) (ct_tickets s) = (x, q)"
    by (cases "schedule ticket_value_key (ref, ct_objects s) (ct_tickets s)")
  note w = schedule_wf [OF cinv_parts(1) [OF assms(1)] q]
  show ?thesis
  proof (cases x)
    case (Inl e)
    then have s': "r = None" "s' = s \<lparr> ct_observed := map_delete (ticketKey ref) (ct_observed s) \<rparr>"
      using assms(2) q by (auto simp: scheduleTicket_def Let_def)
    have "cinv s'" by (rule cinv_core [OF _ assms(1)]) (simp add: s' core_def)
    then show ?thesis using s' by simp
  next
    case (Inr p)
    then have f: "r = Some p" "ct_tickets s' = q" "ct_scanCalls s' = ct_scanCalls s" "ct_scans s' = ct_scans s"
      "ct_scanRuns s' = ct_scanRuns s" "ct_calls s' = ct_calls s" "ct_callCount s' = ct_callCount s" "ct_log s' = ct_log s"
      "ct_cursors s' = ct_cursors s" "ct_lifecycle s' = ct_lifecycle s" "ct_boot s' = ct_boot s"
      using assms(2) q by (auto simp: scheduleTicket_def Let_def)
    have "cinv s'" by (rule cinv_tickets [OF assms(1) _ _ _ _ f(2-8)]) (use w in \<open>auto simp: settled_as_def\<close>)
    then show ?thesis using f w Inr by (auto simp: ticket_value_key_def)
  qed
qed

definition handled :: "(TicketRef \<times> nat) sched \<Rightarrow> nat option list \<Rightarrow> TicketRef \<Rightarrow> bool" where
  "handled T ps r \<longleftrightarrow> None \<in> set ps \<or> (\<exists>p. Some p \<in> set ps \<and> p < sd_next T \<and> sd_id T p = ticketKey r \<and> \<not> sd_started T p)"

lemma scheduleAll_ok:
  assumes "cinv s" "scheduleAll rs s = (ps, s')"
  shows "cinv s' \<and> grows (ct_tickets s) (ct_tickets s') \<and> sd_started (ct_tickets s') = sd_started (ct_tickets s)
    \<and> ct_scanCalls s' = ct_scanCalls s \<and> ct_scans s' = ct_scans s \<and> ct_scanRuns s' = ct_scanRuns s \<and> ct_calls s' = ct_calls s
    \<and> ct_callCount s' = ct_callCount s \<and> ct_log s' = ct_log s \<and> ct_cursors s' = ct_cursors s
    \<and> ct_lifecycle s' = ct_lifecycle s \<and> ct_boot s' = ct_boot s
    \<and> (\<forall>r \<in> set rs. handled (ct_tickets s') ps r)"
  using assms
proof (induction rs arbitrary: s ps s')
  case (Cons r rs)
  obtain p s1 where p: "scheduleTicket r s = (p, s1)" by (cases "scheduleTicket r s")
  obtain qs s2 where qs: "scheduleAll rs s1 = (qs, s2)" by (cases "scheduleAll rs s1")
  have ps: "ps = p # qs" "s' = s2" using Cons.prems p qs by auto
  note a = scheduleTicket_ok [OF Cons.prems(1) p] and b = Cons.IH [OF _ qs]
  have b': "grows (ct_tickets s1) (ct_tickets s2)" "sd_started (ct_tickets s2) = sd_started (ct_tickets s1)" using a b ps(2) by auto
  have "handled (ct_tickets s2) ps r"
  proof (cases p)
    case (Some x)
    then have "x < sd_next (ct_tickets s1)" "sd_id (ct_tickets s1) x = ticketKey r" "\<not> sd_started (ct_tickets s1) x" using a by auto
    then have "x < sd_next (ct_tickets s2)" "sd_id (ct_tickets s2) x = ticketKey r" "\<not> sd_started (ct_tickets s2) x"
      using b' by (auto simp: grows_def)
    then show ?thesis using Some ps by (auto simp: handled_def)
  qed (use ps in \<open>simp add: handled_def\<close>)
  moreover have "handled (ct_tickets s2) qs x \<Longrightarrow> handled (ct_tickets s2) ps x" for x using ps by (auto simp: handled_def)
  ultimately have "\<forall>x \<in> set (r # rs). handled (ct_tickets s2) ps x" using a b by simp
  then show ?case using a b ps(2) grows_trans by auto
qed simp

lemma cinv_startTicket:
  assumes "cinv s"
  shows "cinv (startTicket s)"
proof (cases "sd_micro (ct_tickets s)")
  case Nil
  then show ?thesis using assms by (simp add: startTicket_def)
next
  case (Cons t ms)
  let ?T = "ct_tickets s" let ?b = "?T \<lparr> sd_micro := ms \<rparr>" let ?T' = "start_entry False t ?b"
  note w = start_wf [OF cinv_parts(1) [OF assms] Cons]
  show ?thesis
  proof (cases "sd_closed ?b \<or> \<not> ready ?b t")
    case True
    then have s': "startTicket s = s \<lparr> ct_tickets := ?T' \<rparr>" using Cons by (simp add: startTicket_def Let_def)
    show ?thesis unfolding s'
      by (rule cinv_tickets [OF assms, of ?T']) (use w True in \<open>auto simp: settled_as_def\<close>)
  next
    case False
    let ?k = "ticketKey (fst (sd_value ?T' t))" let ?s' = "startTicket s"
    have w': "sched_wf ticket_value_key ?T'" "grows ?T ?T'" "sd_settled ?T' = sd_settled ?T" "sd_next ?T' = sd_next ?T"
      "sd_id ?T' = sd_id ?T" "t < sd_next ?T" "sd_started ?T' = (sd_started ?T)(t := True)" "sd_closed ?T' = sd_closed ?T"
      using w False by auto
    have k: "?k = sd_id ?T t" using w'(1,4,5,6) by (auto simp: sched_wf_def ticket_value_key_def)
    have s': "?s' = logged (Started t ?k) (s \<lparr> ct_tickets := ?T' \<rparr>)" using Cons False by (simp add: startTicket_def Let_def)
    have runs: "run_ok ?s' r" if "ct_scanRuns s e = Some r" for e r
      using cinv_parts(6) [OF assms that] waits_grow [OF _ w'(2)] unfolding s'
      by (cases r) (auto simp: run_ok_def logged_def waits_ok_def w'(4,5) intro: listed_before_append)
    have open_: "Stopping \<notin> set (ct_log s)" using assms False by (auto simp: cinv_def)
    show ?thesis unfolding cinv_def
    proof (intro conjI allI impI)
      fix e r assume "ct_scanRuns ?s' e = Some r"
      then show "run_ok ?s' r" using runs by (simp add: s' logged_def)
    qed (use assms w' k open_ in \<open>auto simp: s' logged_def cinv_def covered_snoc quiet_snoc settled_as_def intro: ran_append split: if_splits\<close>)
  qed
qed

lemma cinv_endTicket:
  assumes "cinv s"
  shows "cinv (endTicket t r now s)"
proof (cases "t \<in> set (sd_running (ct_tickets s))")
  case False
  then show ?thesis using assms by (simp add: endTicket_def)
next
  case True
  obtain ref obs where v: "sd_value (ct_tickets s) t = (ref, obs)" by (cases "sd_value (ct_tickets s) t")
  define s1 where "s1 = (case r of Inr x \<Rightarrow> applyOutcome ref obs x now s | Inl e \<Rightarrow> removeObservation (ticketKey ref) obs s)"
  have c1: "core s s1" by (cases r) (simp_all add: s1_def)
  then have i: "cinv s1" and T: "ct_tickets s1 = ct_tickets s" "ct_log s1 = ct_log s" using cinv_core [OF c1 assms] by (auto simp: core_def)
  let ?T = "ct_tickets s1" let ?T' = "finish t (is_ok r) ?T" let ?e = "Finished t (is_ok r)"
  have s': "endTicket t r now s = logged ?e (s1 \<lparr> ct_tickets := ?T' \<rparr>)"
    using True v by (simp add: endTicket_def s1_def Let_def)
  have tr: "t \<in> set (sd_running ?T)" using True T by simp
  note w = finish_wf [OF cinv_parts(1) [OF i] tr, of "is_ok r"] and f = finish_frame [of t "is_ok r" ?T]
  have st: "sd_started ?T t" using running_live [OF sched_wf_inv [OF cinv_parts(1) [OF i]] tr] by simp
  then have "Started t (sd_id ?T t) \<in> set (ct_log s1)" using i by (simp add: cinv_def)
  then obtain as bs where "ct_log s1 = as @ Started t (sd_id ?T t) # bs" by (meson split_list)
  then have ran: "is_ok r \<longrightarrow> ran (ct_log s1 @ [?e]) t (sd_id ?T t)" unfolding ran_def by auto
  have runs: "run_ok (endTicket t r now s) x" if "ct_scanRuns s1 e = Some x" for e x
    using cinv_parts(6) [OF i that] f unfolding s'
    by (cases x) (auto simp: run_ok_def logged_def waits_ok_def intro: listed_before_append)
  show ?thesis unfolding cinv_def
  proof (intro conjI allI impI)
    fix e x assume "ct_scanRuns (endTicket t r now s) e = Some x"
    then show "run_ok (endTicket t r now s) x" using runs by (simp add: s' logged_def)
  next
    fix u assume "settled_as (ct_tickets (endTicket t r now s)) u True"
    then have "settled_as ?T u True \<or> (u = t \<and> is_ok r)" using f by (auto simp: s' logged_def settled_as_def)
    then show "ran (ct_log (endTicket t r now s)) u (sd_id (ct_tickets (endTicket t r now s)) u)"
      using i ran f by (auto simp: s' logged_def cinv_def intro: ran_append)
  qed (use i w f in \<open>auto simp: s' logged_def cinv_def covered_snoc quiet_snoc\<close>)
qed

lemma core_callback: "core s (ticketCallback p s)"
proof (cases "map_of (ct_accepted s) p")
  case (Some a)
  let ?s1 = "s \<lparr> ct_accepted := map_delete p (ct_accepted s), ct_caughtTickets := filter (\<lambda>q. q \<noteq> p) (ct_caughtTickets s) \<rparr>"
  have c: "core s ?s1" by (simp add: core_def)
  have "core s (reports n (removeObservation k o' ?s1))" for n k o'
    using core_trans [OF core_trans [OF c core_remove] core_reports] .
  then show ?thesis using Some c by (simp add: ticketCallback_def split: prod.split)
qed (simp add: ticketCallback_def)

lemma cinv_onSettled:
  assumes "cinv s"
  shows "cinv (onSettled ref s)"
proof -
  obtain r s1 where r: "scheduleTicket ref s = (r, s1)" by (cases "scheduleTicket ref s")
  then have "cinv s1" using scheduleTicket_ok [OF assms r] by simp
  moreover have "core s1 (s1 \<lparr> ct_caughtTickets := p # ct_caughtTickets s1 \<rparr>)" for p by (simp add: core_def)
  ultimately have "cinv (reportError s1)" "cinv (s1 \<lparr> ct_caughtTickets := p # ct_caughtTickets s1 \<rparr>)" for p
    using cinv_core core_report by blast+
  then show ?thesis using r assms by (cases r) (auto simp: onSettled_def)
qed

lemma cinv_request:
  assumes "cinv s"
  shows "cinv (snd (reconcileNow d ref s))"
proof -
  obtain r s1 where r: "scheduleTicket ref s = (r, s1)" by (cases "scheduleTicket ref s")
  then have "cinv s1" using scheduleTicket_ok [OF assms r] by simp
  then show ?thesis using r assms by (cases r; cases "assertAllowedRef d ref") (auto simp: reconcileNow_def)
qed


text \<open>The scans' scheduler moves on.\<close>

lemma cinv_scans:
  assumes "cinv s" "sched_wf scan_key S" "set (sd_running (ct_scans s)) \<subseteq> set (sd_running S)"
    and s': "ct_tickets s' = ct_tickets s" "ct_scanCalls s' = ct_scanCalls s" "ct_scans s' = S"
     "ct_scanRuns s' = ct_scanRuns s" "ct_calls s' = ct_calls s" "ct_callCount s' = ct_callCount s" "ct_log s' = ct_log s"
  shows "cinv s'"
proof -
  have "run_ok s' r = run_ok s r" for r using s' by (simp add: run_ok_def cong: ScanRun.case_cong)
  then show ?thesis using assms unfolding cinv_def by (auto simp: s')
qed

lemma cinv_queueScan:
  assumes "cinv s"
  shows "cinv (queueScan now r s)"
proof -
  let ?n = "\<lparr> sc_provider = fst r, sc_repository = snd r, sc_nextWindow = now \<rparr>"
  obtain x q where q: "schedule scan_key ?n (ct_scans s) = (x, q)" by (cases "schedule scan_key ?n (ct_scans s)")
  note w = schedule_wf [OF cinv_parts(3) [OF assms] q]
  have "cinv (s \<lparr> ct_scans := q, ct_caughtScans := t # ct_caughtScans s \<rparr>)" for t
    by (rule cinv_scans [OF assms, of q]) (use w in auto)
  then show ?thesis using assms q cinv_core [OF core_report] by (cases x) (auto simp: queueScan_def)
qed

lemma cinv_sweep: "cinv s \<Longrightarrow> cinv (queueSweep d now s)"
proof -
  have "cinv s \<Longrightarrow> cinv (fold (queueScan now) rs s)" for rs by (induction rs arbitrary: s) (simp_all add: cinv_queueScan)
  then show "cinv s \<Longrightarrow> cinv (queueSweep d now s)" by (simp add: queueSweep_def)
qed

lemma cinv_run:
  assumes "cinv s" "r = Broken" "e \<in> set (sd_running (ct_scans s))"
  shows "cinv (s \<lparr> ct_scanRuns := (ct_scanRuns s)(e \<mapsto> r) \<rparr>)"
proof -
  have "run_ok (s \<lparr> ct_scanRuns := x \<rparr>) y = run_ok s y" for x y by (simp add: run_ok_def cong: ScanRun.case_cong)
  then show ?thesis using assms unfolding cinv_def by (auto simp: run_ok_def [of _ Broken])
qed

lemma cinv_beginScan:
  assumes "cinv s" "e \<in> set (sd_running (ct_scans s))"
  shows "cinv (beginScan e s)"
proof (cases "ct_cursors s (scan_key (sd_value (ct_scans s) e))")
  case None
  then show ?thesis using cinv_run [OF assms(1) refl assms(2)] by (simp add: beginScan_def)
next
  case (Some w)
  let ?n = "sd_value (ct_scans s) e" let ?c = "ct_callCount s"
  define s1 where "s1 = s \<lparr> ct_calls := (ct_calls s)(?c := \<lparr> sk_scan = ?n, sk_window = w, sk_tickets = [] \<rparr>), ct_callCount := Suc ?c \<rparr>"
  have runs1: "run_ok s1 r" if "run_ok s r" for r using that by (cases r) (auto simp: run_ok_def s1_def)
  have i1: "cinv s1" unfolding cinv_def
  proof (intro conjI allI impI)
    fix t assume "t < sd_next (ct_scanCalls s1)"
    then show "snd (sd_value (ct_scanCalls s1) t) < ct_callCount s1" using cinv_parts(9) [OF assms(1), of t] by (simp add: s1_def)
  next
    fix x r assume "ct_scanRuns s1 x = Some r"
    then show "run_ok s1 r" using runs1 cinv_parts(6) [OF assms(1), of x r] by (simp add: s1_def)
  next
    fix c i assume "Listed c i \<in> set (ct_log s1)"
    then have "c < ?c" "i \<in> ticketKey ` set (sk_tickets (ct_calls s c))" using cinv_parts(5) [OF assms(1), of c i] by (auto simp: s1_def)
    then show "c < ct_callCount s1" "i \<in> ticketKey ` set (sk_tickets (ct_calls s1 c))" by (auto simp: s1_def)
  qed (use assms in \<open>auto simp: cinv_def s1_def\<close>)
  have SC: "ct_scanCalls s1 = ct_scanCalls s" "ct_scans s1 = ct_scans s" "ct_scanRuns s1 = ct_scanRuns s" "ct_callCount s1 = Suc ?c"
    by (simp_all add: s1_def)
  obtain x q where q: "schedule call_key (?n, ?c) (ct_scanCalls s1) = (x, q)" by (cases "schedule call_key (?n, ?c) (ct_scanCalls s1)")
  note w = schedule_wf [OF cinv_parts(2) [OF i1] q]
  have b: "beginScan e s = (case x of Inl y \<Rightarrow> s1 \<lparr> ct_scanRuns := (ct_scanRuns s1)(e \<mapsto> Broken) \<rparr>
      | Inr p \<Rightarrow> s1 \<lparr> ct_scanCalls := q, ct_scanRuns := (ct_scanRuns s1)(e \<mapsto> Discovering ?c p) \<rparr>)"
    using Some q by (simp add: beginScan_def Let_def s1_def split: sum.split)
  show ?thesis
  proof (cases x)
    case (Inl y)
    then show ?thesis using b cinv_run [OF i1 refl] assms(2) SC by simp
  next
    case (Inr p)
    define s2 where "s2 = s1 \<lparr> ct_scanCalls := q, ct_scanRuns := (ct_scanRuns s1)(e \<mapsto> Discovering ?c p) \<rparr>"
    have old: "snd (sd_value q t) = snd (sd_value (ct_scanCalls s) t) \<and> snd (sd_value q t) < ?c" if "t < sd_next (ct_scanCalls s)" for t
      using w that cinv_parts(9) [OF assms(1) that] SC by (simp add: grows_def)
    have new: "t = p \<and> sd_value q t = (?n, ?c)" if "t < sd_next q" "\<not> t < sd_next (ct_scanCalls s)" for t
      using w that Inr SC by auto
    have f2: "ct_scanCalls s2 = q" "ct_callCount s2 = Suc ?c" "ct_tickets s2 = ct_tickets s" "ct_log s2 = ct_log s"
      by (simp_all add: s2_def s1_def)
    have below: "t < sd_next (ct_scanCalls s) \<and> snd (sd_value (ct_scanCalls s) t) = c'" if "c' < ?c" "t < sd_next q" "snd (sd_value q t) = c'" for t c'
      using old [of t] new [of t] that by (cases "t < sd_next (ct_scanCalls s)") auto
    have sett: "settled_as q t True = settled_as (ct_scanCalls s) t True" for t using w SC by (simp add: settled_as_def)
    have runs2: "run_ok s2 r" if r: "run_ok s r" for r
    proof (cases r)
      case (Discovering c' p')
      then show ?thesis using r below by (auto simp: run_ok_def f2)
    next
      case (Waiting ps c')
      then show ?thesis using r below by (auto simp: run_ok_def f2 sett)
    qed (simp add: run_ok_def)
    have this_run: "run_ok s2 (Discovering ?c p)" unfolding run_ok_def f2
    proof (clarsimp)
      fix t assume t: "t < sd_next q" "snd (sd_value q t) = ?c"
      then show "t = p" using old [of t] new [of t] by (cases "t < sd_next (ct_scanCalls s)") auto
    qed
    have "cinv s2" unfolding cinv_def
    proof (intro conjI allI impI)
      fix t assume "t < sd_next (ct_scanCalls s2)"
      then have "t < sd_next q" by (simp add: s2_def)
      then show "snd (sd_value (ct_scanCalls s2) t) < ct_callCount s2" using old [of t] new [of t] SC by (cases "t < sd_next (ct_scanCalls s)") (auto simp: s2_def)
    next
      fix y r assume "ct_scanRuns s2 y = Some r"
      then show "run_ok s2 r" using runs2 this_run cinv_parts(6) [OF assms(1), of y r] SC by (auto simp: s2_def split: if_splits)
    qed (use i1 w assms(2) SC in \<open>auto simp: cinv_def s2_def split: if_splits\<close>)
    then show ?thesis using b Inr by (simp add: s2_def)
  qed
qed

lemma cinv_startScan:
  assumes "cinv s"
  shows "cinv (startScan s)"
proof (cases "sd_micro (ct_scans s)")
  case Nil
  then show ?thesis using assms by (simp add: startScan_def)
next
  case (Cons t ms)
  let ?b = "ct_scans s \<lparr> sd_micro := ms \<rparr>" let ?S = "start_entry False t ?b"
  note w = start_wf [OF cinv_parts(3) [OF assms] Cons]
  have i: "cinv (s \<lparr> ct_scans := ?S \<rparr>)" by (rule cinv_scans [OF assms, of ?S]) (use w in \<open>auto split: if_splits\<close>)
  show ?thesis
  proof (cases "sd_closed ?b \<or> \<not> ready ?b t")
    case True
    then show ?thesis using Cons i by (simp add: startScan_def Let_def)
  next
    case False
    then have "t \<in> set (sd_running ?S)" using w by simp
    then show ?thesis using Cons False cinv_beginScan [OF i, of t] by (simp add: startScan_def Let_def)
  qed
qed


text \<open>The calls' scheduler moves on without new entries.\<close>

lemma cinv_scanCalls:
  assumes "cinv s" "sched_wf call_key C" "grows (ct_scanCalls s) C" "sd_next C = sd_next (ct_scanCalls s)"
  shows "cinv (s \<lparr> ct_scanCalls := C \<rparr>)"
proof -
  have v: "sd_value C t = sd_value (ct_scanCalls s) t" if "t < sd_next C" for t using that assms(3,4) by (simp add: grows_def)
  have "settled_as (ct_scanCalls s) t b \<Longrightarrow> settled_as C t b" for t b using assms(3) by (auto simp: grows_def settled_as_def)
  then have "run_ok (s \<lparr> ct_scanCalls := C \<rparr>) r" if "run_ok s r" for r
    using that v assms(4) by (cases r) (auto simp: run_ok_def)
  then show ?thesis using assms v unfolding cinv_def by auto
qed

lemma cinv_startCall:
  assumes "cinv s"
  shows "cinv (startCall s)"
proof (cases "sd_micro (ct_scanCalls s)")
  case (Cons t ms)
  then show ?thesis using cinv_scanCalls [OF assms] start_wf [OF cinv_parts(2) [OF assms] Cons] by (simp add: startCall_def)
qed (use assms in \<open>simp add: startCall_def\<close>)

lemma cinv_endCall: "cinv s \<Longrightarrow> t \<in> set (sd_running (ct_scanCalls s)) \<Longrightarrow> cinv (endCall t b s)"
  unfolding endCall_def using cinv_scanCalls finish_wf cinv_parts(2) finish_frame by metis

text \<open>A call that still runs belongs to a scan that still discovers.\<close>

lemma running_call:
  assumes "cinv s" "t \<in> set (sd_running (ct_scanCalls s))" "ct_scanRuns s e = Some (Waiting ps c)"
  shows "snd (sd_value (ct_scanCalls s) t) \<noteq> c"
proof
  assume c: "snd (sd_value (ct_scanCalls s) t) = c"
  note w = cinv_parts(2) [OF assms(1)]
  have t: "live (ct_scanCalls s) t" "t < sd_next (ct_scanCalls s)" using running_live [OF sched_wf_inv [OF w] assms(2)] by auto
  then have "settled_as (ct_scanCalls s) t True" using cinv_parts(6) [OF assms(1,3)] c by (simp add: run_ok_def)
  then show False using w t(1) by (auto simp: sched_wf_def settled_as_def)
qed

lemma cinv_addListed:
  assumes "cinv s" "c < ct_callCount s" "\<And>e ps c'. ct_scanRuns s e = Some (Waiting ps c') \<Longrightarrow> c' \<noteq> c"
  shows "cinv (addListed c ref s)"
proof (cases "ticketKey ref \<in> ticketKey ` set (sk_tickets (ct_calls s c))")
  case False
  define s' where "s' = addListed c ref s"
  have f: "ct_tickets s' = ct_tickets s" "ct_scanCalls s' = ct_scanCalls s" "ct_scans s' = ct_scans s" "ct_scanRuns s' = ct_scanRuns s"
    "ct_callCount s' = ct_callCount s" "ct_log s' = ct_log s @ [Listed c (ticketKey ref)]"
    "ct_calls s' = (ct_calls s)(c := (ct_calls s c) \<lparr> sk_tickets := sk_tickets (ct_calls s c) @ [ref] \<rparr>)"
    using False by (simp_all add: s'_def addListed_def logged_def)
  have runs: "run_ok s' r" if e: "ct_scanRuns s e = Some r" for e r
  proof (cases r)
    case (Waiting ps c')
    then have "c' \<noteq> c" using assms(3) e by blast
    then show ?thesis using cinv_parts(6) [OF assms(1) e] Waiting
      by (auto simp: run_ok_def f waits_ok_def intro: listed_before_append)
  qed (use cinv_parts(6) [OF assms(1) e] in \<open>auto simp: run_ok_def f\<close>)
  have "cinv s'" unfolding cinv_def f
  proof (intro conjI allI impI)
    fix e r assume "ct_scanRuns s e = Some r" then show "run_ok s' r" by (rule runs)
  qed (use assms(1,2) in \<open>auto simp: cinv_def covered_snoc quiet_snoc f intro: ran_append\<close>)
  then show ?thesis by (simp add: s'_def)
qed (use assms(1) in \<open>simp add: addListed_def\<close>)

lemma addListed_frame:
  "ct_scanRuns (addListed c ref s) = ct_scanRuns s \<and> ct_callCount (addListed c ref s) = ct_callCount s
    \<and> ct_scanCalls (addListed c ref s) = ct_scanCalls s \<and> ct_scans (addListed c ref s) = ct_scans s
    \<and> ct_cursors (addListed c ref s) = ct_cursors s \<and> ct_lifecycle (addListed c ref s) = ct_lifecycle s
    \<and> ct_boot (addListed c ref s) = ct_boot s \<and> (\<forall>c'. sk_window (ct_calls (addListed c ref s) c') = sk_window (ct_calls s c'))
    \<and> (\<exists>es. ct_log (addListed c ref s) = ct_log s @ es \<and> (\<forall>x \<in> set es. \<not> advance x))"
  by (simp add: addListed_def logged_def advance_def)

lemma cinv_addPage:
  assumes "cinv s" "c < ct_callCount s" "\<And>e ps c'. ct_scanRuns s e = Some (Waiting ps c') \<Longrightarrow> c' \<noteq> c" "addPage c rs s = (b, s')"
  shows "cinv s' \<and> ct_scanCalls s' = ct_scanCalls s \<and> ct_scans s' = ct_scans s \<and> ct_scanRuns s' = ct_scanRuns s
    \<and> ct_cursors s' = ct_cursors s \<and> ct_lifecycle s' = ct_lifecycle s
    \<and> ct_boot s' = ct_boot s \<and> (\<forall>c'. sk_window (ct_calls s' c') = sk_window (ct_calls s c'))
    \<and> (\<exists>es. ct_log s' = ct_log s @ es \<and> (\<forall>x \<in> set es. \<not> advance x))"
  using assms
proof (induction rs arbitrary: s)
  case (Cons r rs)
  let ?s1 = "addListed c r s"
  note f = addListed_frame [of c r s] and i = cinv_addListed [OF Cons.prems(1-3)]
  show ?case
  proof (cases "is_ok (assertTicketIdentity (sc_provider (sk_scan (ct_calls s c))) (sc_repository (sk_scan (ct_calls s c))) r)")
    case True
    then have p: "addPage c rs ?s1 = (b, s')" using Cons.prems(4) by simp
    have "ct_scanRuns ?s1 e = Some (Waiting ps c') \<Longrightarrow> c' \<noteq> c" for e ps c' using f Cons.prems(3) by metis
    then show ?thesis using Cons.IH [OF i _ _ p] f Cons.prems(2) by fastforce
  next
    case False
    then show ?thesis using Cons.prems by simp
  qed
qed simp

lemma cinv_page:
  assumes "cinv s"
  shows "cinv (pageReply t r s)"
proof (cases "t \<in> set (sd_running (ct_scanCalls s)) \<and> (\<exists>x. r = Inr x) \<and> \<not> ct_stopping s")
  case False
  then show ?thesis using assms cinv_endCall by (cases r) (auto simp: pageReply_def)
next
  case True
  then obtain tickets cursor where r: "r = Inr (tickets, cursor)" by auto
  let ?c = "snd (sd_value (ct_scanCalls s) t)"
  obtain b s1 where p: "addPage ?c tickets s = (b, s1)" by (cases "addPage ?c tickets s")
  have "t < sd_next (ct_scanCalls s)" using running_live [OF sched_wf_inv [OF cinv_parts(2) [OF assms]]] True by blast
  then have "?c < ct_callCount s" using cinv_parts(9) [OF assms] by blast
  moreover have "ct_scanRuns s e = Some (Waiting ps c') \<Longrightarrow> c' \<noteq> ?c" for e ps c' using running_call [OF assms] True by metis
  ultimately have "cinv s1" "ct_scanCalls s1 = ct_scanCalls s" using cinv_addPage [OF assms _ _ p] by blast+
  then show ?thesis using True r p cinv_endCall by (cases b) (auto simp: pageReply_def)
qed

lemma cinv_endScan:
  assumes "cinv s" "e \<in> set (sd_running (ct_scans s))"
  shows "cinv (endScan e b s)"
proof -
  let ?S = "finish e b (ct_scans s)"
  define s1 where "s1 = s \<lparr> ct_scans := ?S, ct_scanRuns := (ct_scanRuns s)(e := None), ct_caughtScans := filter (\<lambda>q. q \<noteq> e) (ct_caughtScans s) \<rparr>"
  have "run_ok s1 r = run_ok s r" for r by (simp add: s1_def run_ok_def cong: ScanRun.case_cong)
  then have "cinv s1" using assms finish_wf [OF cinv_parts(3) [OF assms(1)] assms(2)] finish_frame [of e b "ct_scans s"]
    unfolding cinv_def by (auto simp: s1_def split: if_splits)
  then have "cinv (reports n s1)" for n using cinv_core core_reports by blast
  then show ?thesis by (simp add: endScan_def Let_def s1_def)
qed


lemma map_set_in: "k \<in> set (map fst (map_set k v m))" "set (map fst m) \<subseteq> set (map fst (map_set k v m))"
  by (force simp: map_set_def)+

lemma fold_found:
  assumes "\<forall>(k, r) \<in> set m. ticketKey r = k"
  shows "(\<forall>(k, r) \<in> set (fold (\<lambda>r m. map_set (ticketKey r) r m) rs m). ticketKey r = k)
    \<and> ticketKey ` set rs \<union> set (map fst m) \<subseteq> set (map fst (fold (\<lambda>r m. map_set (ticketKey r) r m) rs m))"
  using assms
proof (induction rs arbitrary: m)
  case (Cons r rs)
  have "\<forall>(k, r) \<in> set (map_set (ticketKey r) r m). ticketKey r = k" using Cons.prems by (auto simp: map_set_def)
  then show ?case using Cons.IH [of "map_set (ticketKey r) r m"] map_set_in [where k = "ticketKey r" and v = r and m = m] by (simp del: set_map) blast
qed simp

lemma listed_found:
  assumes "i \<in> ticketKey ` set (sk_tickets c)"
  shows "\<exists>r \<in> set (found_tickets c active). ticketKey r = i"
proof -
  define rs where "rs = sk_tickets c @ filter (\<lambda>r. tr_provider r = sc_provider (sk_scan c) \<and> tr_repository r = sc_repository (sk_scan c)) (map snd active)"
  define m where "m = fold (\<lambda>r m. map_set (ticketKey r) r m) rs []"
  have f: "\<forall>(k, r) \<in> set m. ticketKey r = k" "ticketKey ` set rs \<subseteq> set (map fst m)" using fold_found [of "[]" rs] by (auto simp: m_def)
  have "i \<in> ticketKey ` set rs" using assms by (auto simp: rs_def)
  then obtain r where "(i, r) \<in> set m" using f(2) by auto
  then have "r \<in> set (map snd m)" "ticketKey r = i" using f(1) by force+
  then show ?thesis unfolding found_tickets_def m_def rs_def by blast
qed

lemma cinv_waiting:
  assumes "cinv s" "ct_scanRuns s e = Some (Discovering c p)" "settled_as (ct_scanCalls s) p True"
    "scheduleAll (found_tickets (ct_calls s c) active) s = (ps, s1)"
  shows "cinv (s1 \<lparr> ct_scanRuns := (ct_scanRuns s1)(e \<mapsto> Waiting ps c) \<rparr>)"
proof -
  note a = scheduleAll_ok [OF assms(1,4)]
  have i1: "cinv s1" using a by simp
  define s2 where "s2 = s1 \<lparr> ct_scanRuns := (ct_scanRuns s1)(e \<mapsto> Waiting ps c) \<rparr>"
  have "run_ok s (Discovering c p)" using cinv_parts(6) [OF assms(1,2)] .
  then have r: "c < ct_callCount s1" "\<forall>t < sd_next (ct_scanCalls s1). snd (sd_value (ct_scanCalls s1) t) = c \<longrightarrow> settled_as (ct_scanCalls s1) t True"
    using a assms(3) by (auto simp: run_ok_def)
  have "waits_ok (ct_tickets s1) (ct_log s1) ps c" unfolding waits_ok_def
  proof (intro allI impI)
    fix i assume i: "Listed c i \<in> set (ct_log s1)"
    then have "i \<in> ticketKey ` set (sk_tickets (ct_calls s c))" using cinv_parts(5) [OF i1 i] a by simp
    then obtain r where r: "r \<in> set (found_tickets (ct_calls s c) active)" "ticketKey r = i" using listed_found by blast
    then have "handled (ct_tickets s1) ps r" using a by blast
    moreover have "listed_before (ct_log s1) c i q" if "\<not> sd_started (ct_tickets s1) q" for q
      using i that cinv_parts(4) [OF i1] unfolding listed_before_def by (metis append_Nil2)
    ultimately show "None \<in> set ps \<or> (\<exists>p. Some p \<in> set ps \<and> p < sd_next (ct_tickets s1) \<and> sd_id (ct_tickets s1) p = i
        \<and> listed_before (ct_log s1) c i p)" using r(2) unfolding handled_def by blast
  qed
  then have w: "run_ok s2 (Waiting ps c)" using r by (simp add: run_ok_def s2_def)
  have runs: "run_ok s2 x = run_ok s1 x" for x by (simp add: s2_def run_ok_def cong: ScanRun.case_cong)
  have "cinv s2" unfolding cinv_def
  proof (intro conjI allI impI)
    fix y x assume "ct_scanRuns s2 y = Some x"
    then show "run_ok s2 x" using w runs cinv_parts(6) [OF i1, of y x] by (auto simp: s2_def split: if_splits)
  next
    fix y assume "ct_scanRuns s2 y \<noteq> None"
    then show "y \<in> set (sd_running (ct_scans s2))" using cinv_parts(8) [OF i1, of y] cinv_parts(8) [OF assms(1), of e] assms(2) a
      by (auto simp: s2_def split: if_splits)
  qed (use i1 in \<open>auto simp: cinv_def s2_def\<close>)
  then show ?thesis by (simp add: s2_def)
qed

lemma cinv_advance:
  assumes "cinv s" "ct_scanRuns s e = Some (Waiting ps c)"
    "\<forall>q \<in> set ps. (case q of None \<Rightarrow> False | Some p \<Rightarrow> settled_as (ct_tickets s) p True)"
  shows "cinv (logged (Advanced k w n c) (s \<lparr> ct_cursors := cu \<rparr>))"
proof -
  define s1 where "s1 = logged (Advanced k w n c) (s \<lparr> ct_cursors := cu \<rparr>)"
  have f: "ct_tickets s1 = ct_tickets s" "ct_scanCalls s1 = ct_scanCalls s" "ct_scans s1 = ct_scans s" "ct_scanRuns s1 = ct_scanRuns s"
    "ct_callCount s1 = ct_callCount s" "ct_calls s1 = ct_calls s" "ct_log s1 = ct_log s @ [Advanced k w n c]"
    by (simp_all add: s1_def logged_def)
  have rec: "reconciled_since (ct_log s) c i" if i: "Listed c i \<in> set (ct_log s)" for i
  proof -
    have "waits_ok (ct_tickets s) (ct_log s) ps c" using cinv_parts(6) [OF assms(1,2)] by (simp add: run_ok_def)
    then obtain p where p: "Some p \<in> set ps" "sd_id (ct_tickets s) p = i" "listed_before (ct_log s) c i p"
      using i assms(3) unfolding waits_ok_def by fastforce
    have "settled_as (ct_tickets s) p True" using assms(3) p(1) by force
    then have "ran (ct_log s) p i" using assms(1) p(2) by (auto simp: cinv_def)
    then show ?thesis by (rule ran_since [OF p(3)])
  qed
  have runs: "run_ok s1 r" if "ct_scanRuns s x = Some r" for x r
    using cinv_parts(6) [OF assms(1) that] by (cases r) (auto simp: run_ok_def f waits_ok_def intro: listed_before_append)
  have "cinv s1" unfolding cinv_def f
  proof (intro conjI allI impI)
    fix x r assume "ct_scanRuns s x = Some r" then show "run_ok s1 r" by (rule runs)
  qed (use assms(1) rec in \<open>auto simp: cinv_def covered_snoc quiet_snoc f intro: ran_append\<close>)
  then show ?thesis by (simp add: s1_def)
qed

lemma cinv_resume:
  assumes "cinv s"
  shows "cinv (resumeScan e s)"
proof (cases "ct_scanRuns s e")
  case None
  then show ?thesis using assms by (simp add: resumeScan_def)
next
  case (Some r)
  then have er: "e \<in> set (sd_running (ct_scans s))" using cinv_parts(8) [OF assms] by simp
  note ends = cinv_endScan [OF assms er]
  show ?thesis
  proof (cases r)
    case (Discovering c p)
    obtain ps s1 where ps: "scheduleAll (found_tickets (ct_calls s c) (ct_active s)) s = (ps, s1)"
      by (cases "scheduleAll (found_tickets (ct_calls s c) (ct_active s)) s")
    then show ?thesis using Some Discovering ends assms cinv_waiting [OF assms Some [unfolded Discovering] _ ps]
      by (simp add: resumeScan_def)
  next
    case (Waiting ps c)
    let ?adv = "\<forall>q \<in> set ps. (case q of None \<Rightarrow> False | Some p \<Rightarrow> settled_as (ct_tickets s) p True)"
    have "cinv (endScan e True (logged (Advanced k w n c) (s \<lparr> ct_cursors := cu \<rparr>)))" if ?adv for k w n cu
      by (rule cinv_endScan [OF cinv_advance [OF assms Some [unfolded Waiting] that]]) (use er in \<open>simp add: logged_def\<close>)
    then show ?thesis using Some Waiting ends assms by (simp add: resumeScan_def Let_def)
  next
    case Broken
    then show ?thesis using Some ends by (simp add: resumeScan_def)
  qed
qed

lemma cinv_logged:
  assumes "cinv s" "case x of Stopping \<Rightarrow> sd_closed (ct_tickets s) | CancelPass fs \<Rightarrow> True | _ \<Rightarrow> False"
  shows "cinv (logged x s)"
proof -
  have runs: "run_ok (logged x s) r" if "ct_scanRuns s e = Some r" for e r
    using cinv_parts(6) [OF assms(1) that] assms(2)
    by (cases r) (auto simp: run_ok_def logged_def waits_ok_def split: event_log.splits intro: listed_before_append)
  show ?thesis unfolding cinv_def
  proof (intro conjI allI impI)
    fix e r assume "ct_scanRuns (logged x s) e = Some r" then show "run_ok (logged x s) r" using runs by (simp add: logged_def)
  qed (use assms in \<open>auto simp: cinv_def covered_snoc quiet_snoc logged_def split: event_log.splits intro: ran_append\<close>)
qed

lemma cinv_beginCleanup:
  assumes "cinv s"
  shows "cinv (beginCleanup target s)"
proof -
  note t = close_wf [OF cinv_parts(1) [OF assms]] and c = close_wf [OF cinv_parts(2) [OF assms]] and n = close_wf [OF cinv_parts(3) [OF assms]]
  let ?s1 = "s \<lparr> ct_tickets := close_scheduler (ct_tickets s) \<rparr>"
  have 1: "cinv ?s1" by (rule cinv_tickets [OF assms, of "close_scheduler (ct_tickets s)"]) (use t in \<open>auto simp: settled_as_def\<close>)
  let ?s2 = "?s1 \<lparr> ct_scanCalls := close_scheduler (ct_scanCalls s) \<rparr>"
  have 2: "cinv ?s2" by (rule cinv_scanCalls [OF 1]) (use c in auto)
  define s3 where "s3 = s \<lparr> ct_stopping := True, ct_scans := close_scheduler (ct_scans s),
     ct_scanCalls := close_scheduler (ct_scanCalls s), ct_tickets := close_scheduler (ct_tickets s), ct_boot := NoBoot, ct_ending := Some target \<rparr>"
  have 3: "cinv s3" by (rule cinv_scans [OF 2, of "close_scheduler (ct_scans s)"]) (use n in \<open>auto simp: s3_def\<close>)
  have 4: "cinv (logged Stopping s3)" by (rule cinv_logged [OF 3]) (use t in \<open>simp add: s3_def\<close>)
  have "beginCleanup target s = logged (CancelPass (ct_flows s)) (logged Stopping s3)" by (simp add: beginCleanup_def s3_def)
  then show ?thesis using cinv_logged [OF 4, of "CancelPass (ct_flows s)"] by simp
qed

lemma cinv_life:
  assumes "cinv s"
  shows "cinv (endCleanup s)" "cinv (snd (bootstrap d now s))" "cinv (bootReply r s)" "cinv (bootPrepared b s)" "cinv (bootDone s)"
    "cinv (snd (run s))" "cinv (tick d x now s)" "cinv (aborted s)"
proof -
  note c = cinv_core [OF _ assms] and stop = cinv_beginCleanup [OF assms]
  have l: "cinv (logged (CancelPass fs) s')" if "core s s'" for fs s' using cinv_logged [OF c [OF that], of "CancelPass fs"] by simp
  show "cinv (endCleanup s)" using assms by (auto simp: endCleanup_def core_def intro!: l split: option.split)
  show "cinv (snd (bootstrap d now s))" using assms by (auto simp: bootstrap_def core_def intro!: c)
  show "cinv (bootReply r s)" using assms stop by (auto simp: bootReply_def core_def intro!: c split: Boot.split list.split sum.split prod.split)
  show "cinv (bootDone s)" using assms stop by (auto simp: bootDone_def core_def intro!: c split: Boot.split)
  show "cinv (snd (run s))" using assms by (auto simp: run_def core_def intro!: c)
  show "cinv (aborted s)" using assms stop by (simp add: aborted_def)
  show "cinv (bootPrepared b s)"
  proof (cases "ct_boot s")
    case (BootPrepare found)
    obtain ps s1 where ps: "scheduleAll (map snd found) s = (ps, s1)" by (cases "scheduleAll (map snd found) s")
    have "cinv (s1 \<lparr> ct_boot := BootWait ps \<rparr>)" using scheduleAll_ok [OF assms ps] cinv_core [of s1 "s1 \<lparr> ct_boot := BootWait ps \<rparr>"] by (simp add: core_def)
    then show ?thesis using BootPrepare ps stop by (simp add: bootPrepared_def)
  qed (use assms in \<open>simp_all add: bootPrepared_def\<close>)
  show "cinv (tick d x now s)"
  proof (cases "looping s \<and> (\<exists>m i k. x = Inr (Some (m, i, k)))")
    case False
    then show ?thesis using assms stop cinv_sweep by (auto simp: tick_def split: sum.split option.split)
  next
    case True
    then obtain m i k where x: "x = Inr (Some (m, i, k))" by blast
    let ?s1 = "s \<lparr> ct_interval := i * 1000 \<rparr>"
    have i1: "cinv ?s1" by (rule c) (simp add: core_def)
    obtain r q where q: "setConcurrency k (ct_tickets ?s1) = (r, q)" by (cases "setConcurrency k (ct_tickets ?s1)")
    note w = concurrency_wf [OF cinv_parts(1) [OF i1] q]
    have "cinv (?s1 \<lparr> ct_tickets := q \<rparr>)" by (rule cinv_tickets [OF i1, of q]) (use w in \<open>auto simp: settled_as_def\<close>)
    then show ?thesis using True x q cinv_beginCleanup [OF i1] cinv_sweep by (cases r) (auto simp: tick_def Let_def)
  qed
qed

lemma cinv_react: "cinv s \<Longrightarrow> cinv (react d x s)"
  by (cases x) (simp_all add: cinv_life cinv_request cinv_onSettled cinv_startScan cinv_startCall cinv_startTicket cinv_page
    cinv_resume cinv_endTicket cinv_core [OF core_callback])

lemma cinv_created:
  assumes "createController d = Inr s"
  shows "cinv s \<and> ct_log s = [] \<and> ct_lifecycle s = Created \<and> ct_boot s = NoBoot
    \<and> sd_next (ct_scans s) = 0 \<and> ct_scanRuns s = Map.empty"
proof -
  obtain v1 n1 v2 n2 v3 n3 where t: "createScheduler v1 n1 = Inr (ct_tickets s)" "createScheduler v2 n2 = Inr (ct_scanCalls s)"
      "createScheduler v3 n3 = Inr (ct_scans s)"
    and f: "ct_log s = []" "ct_lifecycle s = Created" "ct_boot s = NoBoot" "ct_scanRuns s = Map.empty"
    using assms unfolding createController_def bindR_Inr_iff by (auto simp: ok_def)
  note w = create_wf [OF t(1), of ticket_value_key] create_wf [OF t(2), of call_key] create_wf [OF t(3), of scan_key]
  have "covered []" "quiet_after []" by (simp_all add: covered_def quiet_after_def)
  then show ?thesis using w f by (simp add: cinv_def settled_as_def)
qed

text \<open>The controller after a sequence of events.\<close>

definition controlled :: "ControllerDeps \<Rightarrow> ctl_event list \<Rightarrow> controller \<Rightarrow> controller" where
  "controlled d es s = fold (react d) es s"

lemma cinv_controlled: "createController d = Inr s \<Longrightarrow> cinv (controlled d es s)"
proof -
  have "cinv s \<Longrightarrow> cinv (fold (react d) es s)" for s by (induction es arbitrary: s) (simp_all add: cinv_react)
  then show "createController d = Inr s \<Longrightarrow> cinv (controlled d es s)" using cinv_created by (simp add: controlled_def)
qed


section \<open>The windows follow each other\<close>

text \<open>The cursor that the log gives a repository, and logs in which every window begins where the last one ended.\<close>

definition cursor_of :: "event_log list \<Rightarrow> string \<Rightarrow> string option" where
  "cursor_of lg = foldl (\<lambda>m e. case e of Advanced k w n c \<Rightarrow> m(k \<mapsto> n) | _ \<Rightarrow> m) Map.empty lg"

definition contiguous :: "event_log list \<Rightarrow> bool" where
  "contiguous lg \<longleftrightarrow> (\<forall>xs k w n c ys m. lg = xs @ Advanced k w n c # ys \<longrightarrow> cursor_of xs k = Some m \<longrightarrow> w = m)"

lemma cursor_of_quiet: "\<forall>e \<in> set es. \<not> advance e \<Longrightarrow> cursor_of (lg @ es) = cursor_of lg"
  unfolding cursor_of_def by (induction es arbitrary: lg rule: rev_induct) (auto simp flip: append_assoc simp: advance_def split: event_log.splits)

lemma contiguous_snoc:
  "contiguous (lg @ [e]) \<longleftrightarrow> contiguous lg \<and> (\<forall>k w n c m. e = Advanced k w n c \<longrightarrow> cursor_of lg k = Some m \<longrightarrow> w = m)"
  (is "?l = ?r")
proof
  assume l: ?l
  note l = l [unfolded contiguous_def, rule_format]
  show ?r
  proof (intro conjI allI impI)
    show "contiguous lg" unfolding contiguous_def
    proof (intro allI impI)
      fix xs k w n c ys m assume a: "lg = xs @ Advanced k w n c # ys" "cursor_of xs k = Some m"
      show "w = m" by (rule l [of xs k w n c "ys @ [e]" m, OF _ a(2)]) (simp add: a(1))
    qed
  next
    fix k w n c m assume a: "e = Advanced k w n c" "cursor_of lg k = Some m"
    show "w = m" by (rule l [of lg k w n c "[]" m, OF _ a(2)]) (simp add: a(1))
  qed
next
  assume r: ?r
  show ?l unfolding contiguous_def
  proof (intro allI impI)
    fix xs k w n c ys m assume a: "lg @ [e] = xs @ Advanced k w n c # ys" "cursor_of xs k = Some m"
    from a(1) have "(ys = [] \<and> xs = lg \<and> Advanced k w n c = e) \<or> (\<exists>zs. ys = zs @ [e] \<and> lg = xs @ Advanced k w n c # zs)"
      unfolding snoc_split .
    then show "w = m"
    proof
      assume "ys = [] \<and> xs = lg \<and> Advanced k w n c = e"
      then show ?thesis using r a(2) by metis
    next
      assume "\<exists>zs. ys = zs @ [e] \<and> lg = xs @ Advanced k w n c # zs"
      then obtain zs where "lg = xs @ Advanced k w n c # zs" by blast
      then show ?thesis using conjunct1 [OF r, unfolded contiguous_def] a(2) by blast
    qed
  qed
qed

lemma contiguous_quiet: "\<forall>e \<in> set es. \<not> advance e \<Longrightarrow> contiguous lg \<Longrightarrow> contiguous (lg @ es)"
  by (induction es rule: rev_induct) (auto simp flip: append_assoc simp: contiguous_snoc advance_def)

definition run_call :: "ScanRun \<Rightarrow> nat option" where
  "run_call r = (case r of Discovering c p \<Rightarrow> Some c | Waiting ps c \<Rightarrow> Some c | Broken \<Rightarrow> None)"

definition starting :: "controller \<Rightarrow> bool" where
  "starting s \<longleftrightarrow> ct_lifecycle s \<in> {Created, Bootstrapping}"

text \<open>Bootstrap works only while bootstrapping, and a cleanup, once begun, ends in failed or stopped.\<close>

definition phase_ok :: "controller \<Rightarrow> bool" where
  "phase_ok s \<longleftrightarrow> (ct_boot s \<noteq> NoBoot \<longrightarrow> ct_lifecycle s = Bootstrapping)
     \<and> (ct_ending s \<noteq> None \<longrightarrow> ct_boot s = NoBoot \<and> ct_lifecycle s \<noteq> Created \<and> ct_ending s \<in> {Some Failed, Some Stopped})"

definition winv :: "controller \<Rightarrow> bool" where
  "winv s \<longleftrightarrow> contiguous (ct_log s) \<and> (\<forall>k n. cursor_of (ct_log s) k = Some n \<longrightarrow> ct_cursors s k = Some n)
     \<and> (\<forall>e r c. ct_scanRuns s e = Some r \<longrightarrow> run_call r = Some c \<longrightarrow> c < ct_callCount s \<and> sk_scan (ct_calls s c) = sd_value (ct_scans s) e
          \<and> ct_cursors s (scan_key (sd_value (ct_scans s) e)) = Some (sk_window (ct_calls s c)))
     \<and> (\<forall>k w n c. Advanced k w n c \<in> set (ct_log s) \<longrightarrow> c < ct_callCount s \<and> w = sk_window (ct_calls s c)
          \<and> k = scan_key (sk_scan (ct_calls s c)) \<and> n = sc_nextWindow (sk_scan (ct_calls s c)))
     \<and> (starting s \<longrightarrow> sd_next (ct_scans s) = 0 \<and> cursor_of (ct_log s) = Map.empty)
     \<and> phase_ok s"

lemma winv_parts:
  assumes "winv s"
  shows "contiguous (ct_log s)" "\<And>k n. cursor_of (ct_log s) k = Some n \<Longrightarrow> ct_cursors s k = Some n"
    "\<And>e r c. ct_scanRuns s e = Some r \<Longrightarrow> run_call r = Some c \<Longrightarrow> c < ct_callCount s \<and> sk_scan (ct_calls s c) = sd_value (ct_scans s) e
          \<and> ct_cursors s (scan_key (sd_value (ct_scans s) e)) = Some (sk_window (ct_calls s c))"
    "\<And>k w n c. Advanced k w n c \<in> set (ct_log s) \<Longrightarrow> c < ct_callCount s \<and> w = sk_window (ct_calls s c)
          \<and> k = scan_key (sk_scan (ct_calls s c)) \<and> n = sc_nextWindow (sk_scan (ct_calls s c))"
    "starting s \<Longrightarrow> sd_next (ct_scans s) = 0 \<and> cursor_of (ct_log s) = Map.empty"
    "phase_ok s"
  using assms unfolding winv_def by (presburger, presburger, presburger, presburger, presburger, metis)

text \<open>Steps that move no cursor.\<close>

definition steady :: "controller \<Rightarrow> controller \<Rightarrow> bool" where
  "steady s s' \<longleftrightarrow> (\<forall>e r. ct_scanRuns s' e = Some r \<longrightarrow> ct_scanRuns s e = Some r) \<and> ct_cursors s' = ct_cursors s
     \<and> (\<forall>t < sd_next (ct_scans s). sd_value (ct_scans s') t = sd_value (ct_scans s) t) \<and> sd_next (ct_scans s) \<le> sd_next (ct_scans s')
     \<and> ct_callCount s \<le> ct_callCount s'
     \<and> (\<forall>c < ct_callCount s. sk_window (ct_calls s' c) = sk_window (ct_calls s c) \<and> sk_scan (ct_calls s' c) = sk_scan (ct_calls s c))
     \<and> (\<exists>es. ct_log s' = ct_log s @ es \<and> (\<forall>x \<in> set es. \<not> advance x))
     \<and> (starting s' \<longrightarrow> starting s \<and> sd_next (ct_scans s') = sd_next (ct_scans s))
     \<and> phase_ok s'"

lemma winv_steady:
  assumes "cinv s" "winv s" "steady s s'"
  shows "winv s'"
proof -
  obtain es where es: "ct_log s' = ct_log s @ es" "\<forall>x \<in> set es. \<not> advance x" using assms(3) by (auto simp: steady_def)
  have adv: "Advanced k w n c \<in> set (ct_log s') \<Longrightarrow> Advanced k w n c \<in> set (ct_log s)" for k w n c using es by (auto simp: advance_def)
  have below: "e < sd_next (ct_scans s)" if "ct_scanRuns s e = Some r" for e r
    using running_live [OF sched_wf_inv [OF cinv_parts(3) [OF assms(1)]]] cinv_parts(8) [OF assms(1), of e] that by auto
  have runs: "c < ct_callCount s' \<and> sk_scan (ct_calls s' c) = sd_value (ct_scans s') e
          \<and> ct_cursors s' (scan_key (sd_value (ct_scans s') e)) = Some (sk_window (ct_calls s' c))"
    if "ct_scanRuns s' e = Some r" "run_call r = Some c" for e r c
  proof -
    have e: "ct_scanRuns s e = Some r" using that(1) assms(3) by (simp add: steady_def)
    have "c < ct_callCount s \<and> sk_scan (ct_calls s c) = sd_value (ct_scans s) e
          \<and> ct_cursors s (scan_key (sd_value (ct_scans s) e)) = Some (sk_window (ct_calls s c))"
      using winv_parts(3) [OF assms(2) e that(2)] .
    then show ?thesis using assms(3) below [OF e] by (auto simp: steady_def)
  qed
  note w = winv_parts [OF assms(2)]
  have old: "c < ct_callCount s \<and> w = sk_window (ct_calls s c) \<and> k = scan_key (sk_scan (ct_calls s c)) \<and> n = sc_nextWindow (sk_scan (ct_calls s c))"
    if "Advanced k w n c \<in> set (ct_log s)" for k w n c using w(4) [OF that] .
  have d: "ct_cursors s' = ct_cursors s" "ct_callCount s \<le> ct_callCount s'" "starting s' \<longrightarrow> starting s \<and> sd_next (ct_scans s') = sd_next (ct_scans s)"
    "phase_ok s'"
    "\<And>c. c < ct_callCount s \<Longrightarrow> sk_window (ct_calls s' c) = sk_window (ct_calls s c) \<and> sk_scan (ct_calls s' c) = sk_scan (ct_calls s c)"
    using assms(3) by (simp_all add: steady_def)
  show ?thesis unfolding winv_def
  proof (intro conjI allI impI)
    show "contiguous (ct_log s')" unfolding es(1) by (rule contiguous_quiet [OF es(2) w(1)])
  next
    fix k n assume "cursor_of (ct_log s') k = Some n"
    then show "ct_cursors s' k = Some n" using w(2) d(1) unfolding es(1) cursor_of_quiet [OF es(2)] by simp
  next
    fix e r c assume "ct_scanRuns s' e = Some r" "run_call r = Some c"
    then show "c < ct_callCount s'" "sk_scan (ct_calls s' c) = sd_value (ct_scans s') e"
      "ct_cursors s' (scan_key (sd_value (ct_scans s') e)) = Some (sk_window (ct_calls s' c))" using runs by blast+
  next
    fix k w n c assume "Advanced k w n c \<in> set (ct_log s')"
    then have "c < ct_callCount s \<and> w = sk_window (ct_calls s c) \<and> k = scan_key (sk_scan (ct_calls s c)) \<and> n = sc_nextWindow (sk_scan (ct_calls s c))"
      using adv old by blast
    then show "c < ct_callCount s'" "w = sk_window (ct_calls s' c)" "k = scan_key (sk_scan (ct_calls s' c))"
      "n = sc_nextWindow (sk_scan (ct_calls s' c))" using d(2) d(5) [of c] by auto
  next
    assume "starting s'"
    then show "sd_next (ct_scans s') = 0" using d(3) w(5) by simp
  next
    assume "starting s'"
    then show "cursor_of (ct_log s') = Map.empty" using d(3) w(5) unfolding es(1) cursor_of_quiet [OF es(2)] by simp
  qed (rule d(4))
qed

text \<open>A run begins, changes its phase, moves the cursor, and a first cursor is set.\<close>

lemma winv_run:
  assumes "winv s" "run_call r = Some c \<Longrightarrow> c < ct_callCount s \<and> sk_scan (ct_calls s c) = sd_value (ct_scans s) e
          \<and> ct_cursors s (scan_key (sd_value (ct_scans s) e)) = Some (sk_window (ct_calls s c))" "run_call r = None \<or> run_call r = Some c"
  shows "winv (s \<lparr> ct_scanRuns := (ct_scanRuns s)(e \<mapsto> r) \<rparr>)"
  using assms unfolding winv_def starting_def phase_ok_def by (auto split: if_splits)

lemma running_unique:
  assumes "sched_inv q" "t \<in> set (sd_running q)" "u \<in> set (sd_running q)" "sd_id q t = sd_id q u"
  shows "t = u"
  using inv_running_head [OF assms(1,2)] inv_running_head [OF assms(1,3)] assms(4) by metis

lemma winv_advance:
  assumes "cinv s" "winv s" "ct_scanRuns s e = Some r" "run_call r = Some c"
  defines "scan \<equiv> sd_value (ct_scans s) e"
  defines "s' \<equiv> endScan e True (logged (Advanced (scan_key scan) (sk_window (ct_calls s c)) (sc_nextWindow scan) c)
      (s \<lparr> ct_cursors := (ct_cursors s)(scan_key scan \<mapsto> sc_nextWindow scan) \<rparr>))"
  shows "winv s'"
proof -
  let ?k = "scan_key scan" let ?n = "sc_nextWindow scan" let ?w = "sk_window (ct_calls s c)"
  have f: "ct_log s' = ct_log s @ [Advanced ?k ?w ?n c]" "ct_cursors s' = (ct_cursors s)(?k \<mapsto> ?n)" "ct_calls s' = ct_calls s"
    "ct_callCount s' = ct_callCount s" "ct_scanRuns s' = (ct_scanRuns s)(e := None)" "ct_boot s' = ct_boot s" "starting s' = starting s"
    "sd_next (ct_scans s') = sd_next (ct_scans s)" "sd_value (ct_scans s') = sd_value (ct_scans s)"
    using finish_frame [of e True "ct_scans s"]
    by (simp_all add: s'_def endScan_def Let_def reports_def logged_def starting_def)
  have f2: "ct_ending s' = ct_ending s" "ct_lifecycle s' = ct_lifecycle s"
    by (simp_all add: s'_def endScan_def Let_def reports_def logged_def)
  have w: "c < ct_callCount s" "sk_scan (ct_calls s c) = scan" "ct_cursors s ?k = Some ?w"
    using winv_parts(3) [OF assms(2-4)] by (simp_all add: scan_def)
  have er: "e \<in> set (sd_running (ct_scans s))" using cinv_parts(8) [OF assms(1)] assms(3) by simp
  note S = cinv_parts(3) [OF assms(1)] and inv = sched_wf_inv [OF cinv_parts(3) [OF assms(1)]]
  have named: "sd_id (ct_scans s) t = scan_key (sd_value (ct_scans s) t)" if "t \<in> set (sd_running (ct_scans s))" for t
    using S running_live [OF inv that] by (simp add: sched_wf_def)
  have other: "scan_key (sd_value (ct_scans s) e') \<noteq> ?k" if "ct_scanRuns s e' \<noteq> None" "e' \<noteq> e" for e'
    using running_unique [OF inv _ er, of e'] cinv_parts(8) [OF assms(1) that(1)] named er that(2) by (auto simp: scan_def)
  have ns: "\<not> starting s" using winv_parts(5) [OF assms(2)] running_live [OF inv er] by auto
  have co: "cursor_of (ct_log s') = (cursor_of (ct_log s))(?k \<mapsto> ?n)" unfolding f(1) by (simp add: cursor_of_def)
  have cw: "ct_cursors s k = Some n" if "cursor_of (ct_log s) k = Some n" for k n using winv_parts(2) [OF assms(2) that] .
  show ?thesis unfolding winv_def
  proof (intro conjI allI impI)
    show "contiguous (ct_log s')" using winv_parts(1) [OF assms(2)] w(3) cw unfolding f(1) contiguous_snoc by auto
  next
    fix k n assume "cursor_of (ct_log s') k = Some n"
    then show "ct_cursors s' k = Some n" using cw unfolding co f(2) by (auto split: if_splits)
  next
    fix e' r' c' assume a: "ct_scanRuns s' e' = Some r'" "run_call r' = Some c'"
    then have e': "ct_scanRuns s e' = Some r'" "e' \<noteq> e" by (auto simp: f(5) split: if_splits)
    then have "c' < ct_callCount s \<and> sk_scan (ct_calls s c') = sd_value (ct_scans s) e'
          \<and> ct_cursors s (scan_key (sd_value (ct_scans s) e')) = Some (sk_window (ct_calls s c'))"
      using winv_parts(3) [OF assms(2) e'(1) a(2)] by simp
    then show "c' < ct_callCount s'" "sk_scan (ct_calls s' c') = sd_value (ct_scans s') e'"
      "ct_cursors s' (scan_key (sd_value (ct_scans s') e')) = Some (sk_window (ct_calls s' c'))"
      using other [of e'] e' by (auto simp: f)
  next
    fix k w' n c' assume "Advanced k w' n c' \<in> set (ct_log s')"
    then have "Advanced k w' n c' \<in> set (ct_log s) \<or> (k = ?k \<and> w' = ?w \<and> n = ?n \<and> c' = c)" by (auto simp: f(1))
    then have "c' < ct_callCount s \<and> w' = sk_window (ct_calls s c') \<and> k = scan_key (sk_scan (ct_calls s c')) \<and> n = sc_nextWindow (sk_scan (ct_calls s c'))"
      using winv_parts(4) [OF assms(2), of k w' n c'] w by auto
    then show "c' < ct_callCount s'" "w' = sk_window (ct_calls s' c')" "k = scan_key (sk_scan (ct_calls s' c'))"
      "n = sc_nextWindow (sk_scan (ct_calls s' c'))" by (auto simp: f)
  next
    show "phase_ok s'" using winv_parts(6) [OF assms(2)] f(6) f2 by (simp add: phase_ok_def)
  qed (use ns f in auto)
qed


text \<open>Steps that leave the scans alone.\<close>

definition aside :: "controller \<Rightarrow> controller \<Rightarrow> bool" where
  "aside s s' \<longleftrightarrow> ct_scanRuns s' = ct_scanRuns s \<and> ct_cursors s' = ct_cursors s \<and> ct_lifecycle s' = ct_lifecycle s
     \<and> ct_boot s' = ct_boot s \<and> ct_ending s' = ct_ending s
     \<and> sd_next (ct_scans s') = sd_next (ct_scans s) \<and> sd_value (ct_scans s') = sd_value (ct_scans s)
     \<and> ct_callCount s' = ct_callCount s \<and> (\<forall>c. sk_window (ct_calls s' c) = sk_window (ct_calls s c) \<and> sk_scan (ct_calls s' c) = sk_scan (ct_calls s c))
     \<and> (\<exists>es. ct_log s' = ct_log s @ es \<and> (\<forall>x \<in> set es. \<not> advance x))"

lemma aside_refl [simp]: "aside s s" by (simp add: aside_def)

lemma aside_trans: "aside s1 s2 \<Longrightarrow> aside s2 s3 \<Longrightarrow> aside s1 s3"
  unfolding aside_def by (metis (no_types, lifting) Un_iff append_assoc set_append)

lemma aside_steady: "winv s \<Longrightarrow> aside s s' \<Longrightarrow> steady s s'"
  using winv_parts(6) [of s] unfolding aside_def steady_def starting_def phase_ok_def by auto

lemma winv_aside: "cinv s \<Longrightarrow> winv s \<Longrightarrow> aside s s' \<Longrightarrow> winv s'"
  using winv_steady aside_steady by blast

lemma aside_reports [simp]: "aside s (reports n s)"
proof -
  have "aside s (reportError s)" for s by (simp add: aside_def reportError_def Let_def)
  then show ?thesis unfolding reports_def by (induction n) (auto intro: aside_trans)
qed

lemma aside_steps:
  "aside s (startTicket s)" "aside s (endTicket t r now s)" "aside s (ticketCallback p s)" "aside s (startCall s)" "aside s (endCall t b s)"
proof -
  show "aside s (startTicket s)"
    by (cases "sd_micro (ct_tickets s)") (simp_all add: startTicket_def Let_def logged_def aside_def advance_def)
  have o: "aside s (applyOutcome ref obs x now s)" "aside s (removeObservation i obs s)" for ref obs x i
    by (simp_all add: aside_def applyOutcome_def removeObservation_def Let_def)
  have l: "aside s1 (logged (Finished t y) (s1 \<lparr> ct_tickets := q \<rparr>))" for s1 y q by (simp add: aside_def logged_def advance_def)
  show "aside s (endTicket t r now s)"
    by (cases r) (auto simp: endTicket_def Let_def split: prod.split intro: aside_trans [OF o(1) l] aside_trans [OF o(2) l])
  show "aside s (startCall s)"
    by (cases "sd_micro (ct_scanCalls s)") (simp_all add: startCall_def aside_def)
  show "aside s (endCall t b s)" by (simp add: endCall_def aside_def)
  show "aside s (ticketCallback p s)"
  proof (cases "map_of (ct_accepted s) p")
    case (Some a)
    let ?s1 = "s \<lparr> ct_accepted := map_delete p (ct_accepted s), ct_caughtTickets := filter (\<lambda>q. q \<noteq> p) (ct_caughtTickets s) \<rparr>"
    have c: "aside s (removeObservation k o' ?s1)" "aside s ?s1" for k o' by (simp_all add: aside_def removeObservation_def)
    have "aside s (reports n (removeObservation k o' ?s1))" for n k o' using aside_trans [OF c(1) aside_reports] .
    then show ?thesis using Some c by (simp add: ticketCallback_def split: prod.split)
  qed (simp add: ticketCallback_def)
qed

lemma scheduleTicket_ending: "scheduleTicket ref s = (r, s') \<Longrightarrow> ct_ending s' = ct_ending s"
  by (auto simp: scheduleTicket_def Let_def split: prod.split_asm sum.split_asm)

lemma aside_schedule:
  assumes "cinv s" "scheduleTicket ref s = (r, s')"
  shows "aside s s'"
  using scheduleTicket_ok [OF assms] scheduleTicket_ending [OF assms(2)] by (simp add: aside_def)

lemma aside_all:
  assumes "cinv s" "scheduleAll rs s = (ps, s')"
  shows "aside s s'"
  using assms
proof (induction rs arbitrary: s ps s')
  case (Cons r rs)
  obtain p s1 where p: "scheduleTicket r s = (p, s1)" by (cases "scheduleTicket r s")
  obtain qs s2 where qs: "scheduleAll rs s1 = (qs, s2)" by (cases "scheduleAll rs s1")
  have "cinv s1" using scheduleTicket_ok [OF Cons.prems(1) p] by simp
  then show ?case using Cons aside_schedule [OF Cons.prems(1) p] p qs aside_trans by auto
qed simp

lemma aside_onSettled:
  assumes "cinv s"
  shows "aside s (onSettled ref s)" "aside s (snd (reconcileNow d ref s))"
proof -
  obtain r s1 where r: "scheduleTicket ref s = (r, s1)" by (cases "scheduleTicket ref s")
  have a: "aside s s1" using aside_schedule [OF assms r] .
  have "aside s1 (s1 \<lparr> ct_caughtTickets := p # ct_caughtTickets s1 \<rparr>)" "aside s1 (reportError s1)" for p
    by (simp_all add: aside_def reportError_def Let_def)
  then show "aside s (onSettled ref s)" using r aside_trans [OF a] by (cases r) (auto simp: onSettled_def)
  show "aside s (snd (reconcileNow d ref s))" using r a by (cases r; cases "assertAllowedRef d ref") (auto simp: reconcileNow_def)
qed

lemma aside_page:
  assumes "cinv s"
  shows "aside s (pageReply t r s)"
proof (cases "t \<in> set (sd_running (ct_scanCalls s)) \<and> (\<exists>x. r = Inr x) \<and> \<not> ct_stopping s")
  case False
  then show ?thesis using aside_steps(5) by (cases r) (auto simp: pageReply_def)
next
  case True
  then obtain tickets cursor where r: "r = Inr (tickets, cursor)" by auto
  let ?c = "snd (sd_value (ct_scanCalls s) t)"
  obtain b s1 where p: "addPage ?c tickets s = (b, s1)" by (cases "addPage ?c tickets s")
  have e: "ct_ending s' = ct_ending s \<and> ct_callCount s' = ct_callCount s \<and> (\<forall>c'. sk_scan (ct_calls s' c') = sk_scan (ct_calls s c'))"
    if "addPage c rs s = (b, s')" for c rs s b s'
    using that by (induction rs arbitrary: s) (auto simp: addListed_def logged_def split: if_split_asm)
  have "t < sd_next (ct_scanCalls s)" using running_live [OF sched_wf_inv [OF cinv_parts(2) [OF assms]]] True by blast
  then have "?c < ct_callCount s" using cinv_parts(9) [OF assms] by blast
  moreover have "ct_scanRuns s e = Some (Waiting ps c') \<Longrightarrow> c' \<noteq> ?c" for e ps c' using running_call [OF assms] True by metis
  ultimately have "aside s s1" using cinv_addPage [OF assms _ _ p] e [OF p] unfolding aside_def by (metis (no_types, lifting))
  then show ?thesis using True r p aside_trans [OF _ aside_steps(5)] by (cases b) (auto simp: pageReply_def)
qed

lemma steady_endScan: "winv s \<Longrightarrow> steady s (endScan e b s)"
proof -
  assume w: "winv s"
  define s1 where "s1 = s \<lparr> ct_scans := finish e b (ct_scans s), ct_scanRuns := (ct_scanRuns s)(e := None),
     ct_caughtScans := filter (\<lambda>q. q \<noteq> e) (ct_caughtScans s) \<rparr>"
  have "aside s1 (endScan e b s)" by (simp add: endScan_def Let_def s1_def)
  moreover have "steady s s1" using winv_parts(6) [OF w] finish_frame [of e b "ct_scans s"]
    by (simp add: steady_def s1_def starting_def phase_ok_def split: if_splits)
  ultimately show ?thesis unfolding steady_def aside_def starting_def phase_ok_def by auto
qed

lemma steady_cleanup:
  assumes "cinv s" "target \<in> {Failed, Stopped}" "ct_lifecycle s \<noteq> Created"
  shows "steady s (beginCleanup target s)"
proof -
  have n: "sd_next (close_scheduler (ct_scans s)) = sd_next (ct_scans s)" "sd_value (close_scheduler (ct_scans s)) = sd_value (ct_scans s)"
    using close_wf [OF cinv_parts(3) [OF assms(1)]] by blast+
  have "ct_log (beginCleanup target s) = ct_log s @ [Stopping, CancelPass (ct_flows s)]" by (simp add: beginCleanup_def logged_def)
  moreover have "\<forall>x \<in> set [Stopping, CancelPass (ct_flows s)]. \<not> advance x" by (simp add: advance_def)
  ultimately have l: "\<exists>es. ct_log (beginCleanup target s) = ct_log s @ es \<and> (\<forall>x \<in> set es. \<not> advance x)" by blast
  show ?thesis unfolding steady_def using l n assms(2,3)
    by (simp add: beginCleanup_def logged_def starting_def phase_ok_def)
qed


lemma steady_trans:
  assumes "steady s1 s2" "steady s2 s3"
  shows "steady s1 s3"
proof -
  obtain es fs where l: "ct_log s2 = ct_log s1 @ es" "ct_log s3 = ct_log s2 @ fs" "\<forall>x \<in> set (es @ fs). \<not> advance x"
    using assms unfolding steady_def by fastforce
  then have "\<exists>es. ct_log s3 = ct_log s1 @ es \<and> (\<forall>x \<in> set es. \<not> advance x)" by (metis append_assoc)
  moreover have "sd_value (ct_scans s3) t = sd_value (ct_scans s1) t" if "t < sd_next (ct_scans s1)" for t
    using assms that less_le_trans [OF that, of "sd_next (ct_scans s2)"] unfolding steady_def by simp
  moreover have "sk_window (ct_calls s3 c) = sk_window (ct_calls s1 c) \<and> sk_scan (ct_calls s3 c) = sk_scan (ct_calls s1 c)" if "c < ct_callCount s1" for c
    using assms that less_le_trans [OF that, of "ct_callCount s2"] unfolding steady_def by simp
  moreover have "ct_callCount s1 \<le> ct_callCount s3" "sd_next (ct_scans s1) \<le> sd_next (ct_scans s3)" using assms unfolding steady_def by linarith+
  ultimately show ?thesis using assms unfolding steady_def by simp
qed

lemma steady_refl: "winv s \<Longrightarrow> steady s s"
  using aside_steady aside_refl by blast

lemma winv_queueScan:
  assumes "cinv s" "winv s" "\<not> starting s"
  shows "winv (queueScan now r s) \<and> \<not> starting (queueScan now r s)"
proof -
  let ?n = "\<lparr> sc_provider = fst r, sc_repository = snd r, sc_nextWindow = now \<rparr>"
  obtain x q where q: "schedule scan_key ?n (ct_scans s) = (x, q)" by (cases "schedule scan_key ?n (ct_scans s)")
  note w = schedule_wf [OF cinv_parts(3) [OF assms(1)] q]
  have "steady s (s \<lparr> ct_scans := q, ct_caughtScans := t # ct_caughtScans s \<rparr>)" for t
    using w assms(3) winv_parts(6) [OF assms(2)] by (simp add: steady_def grows_def starting_def phase_ok_def)
  then have n: "winv (s \<lparr> ct_scans := q, ct_caughtScans := t # ct_caughtScans s \<rparr>)" for t using winv_steady assms by blast
  have "aside s (reportError s)" by (simp add: aside_def reportError_def Let_def)
  then have "winv (reportError s)" "\<not> starting (reportError s)" using winv_aside assms by (auto simp: starting_def aside_def)
  then show ?thesis using assms n q by (cases x) (auto simp: queueScan_def starting_def)
qed

lemma winv_sweep:
  assumes "cinv s" "winv s" "\<not> starting s"
  shows "winv (queueSweep d now s)"
proof -
  have "winv (fold (queueScan now) rs s)" for rs
    using assms by (induction rs arbitrary: s) (simp_all add: cinv_queueScan winv_queueScan)
  then show ?thesis by (simp add: queueSweep_def)
qed

lemma winv_beginScan:
  assumes "cinv s" "winv s" "e \<in> set (sd_running (ct_scans s))"
  shows "winv (beginScan e s)"
proof (cases "ct_cursors s (scan_key (sd_value (ct_scans s) e))")
  case None
  then show ?thesis using winv_run [OF assms(2), of Broken 0 e] by (simp add: beginScan_def run_call_def)
next
  case (Some w)
  let ?n = "sd_value (ct_scans s) e" let ?c = "ct_callCount s"
  define s1 where "s1 = s \<lparr> ct_calls := (ct_calls s)(?c := \<lparr> sk_scan = ?n, sk_window = w, sk_tickets = [] \<rparr>), ct_callCount := Suc ?c \<rparr>"
  have "steady s s1" using winv_parts(6) [OF assms(2)] by (simp add: steady_def s1_def starting_def phase_ok_def)
  then have i1: "winv s1" using winv_steady assms(1,2) by blast
  obtain x q where q: "schedule call_key (?n, ?c) (ct_scanCalls s1) = (x, q)" by (cases "schedule call_key (?n, ?c) (ct_scanCalls s1)")
  have b: "beginScan e s = (case x of Inl y \<Rightarrow> s1 \<lparr> ct_scanRuns := (ct_scanRuns s1)(e \<mapsto> Broken) \<rparr>
      | Inr p \<Rightarrow> s1 \<lparr> ct_scanCalls := q, ct_scanRuns := (ct_scanRuns s1)(e \<mapsto> Discovering ?c p) \<rparr>)"
    using Some q by (simp add: beginScan_def Let_def s1_def split: sum.split)
  let ?s2 = "s1 \<lparr> ct_scanCalls := q \<rparr>"
  have i2: "winv ?s2" using i1 by (simp add: winv_def starting_def phase_ok_def)
  have "winv (?s2 \<lparr> ct_scanRuns := (ct_scanRuns ?s2)(e \<mapsto> Discovering ?c p) \<rparr>)" for p
    by (rule winv_run [OF i2, of _ ?c]) (use Some in \<open>simp_all add: run_call_def s1_def\<close>)
  then show ?thesis using b winv_run [OF i1, of Broken 0 e] by (cases x) (auto simp: run_call_def)
qed

lemma winv_startScan:
  assumes "cinv s" "winv s"
  shows "winv (startScan s)"
proof (cases "sd_micro (ct_scans s)")
  case Nil
  then show ?thesis using assms by (simp add: startScan_def)
next
  case (Cons t ms)
  let ?b = "ct_scans s \<lparr> sd_micro := ms \<rparr>" let ?S = "start_entry False t ?b"
  note w = start_wf [OF cinv_parts(3) [OF assms(1)] Cons]
  have i: "cinv (s \<lparr> ct_scans := ?S \<rparr>)" by (rule cinv_scans [OF assms(1), of ?S]) (use w in \<open>auto split: if_splits\<close>)
  have "aside s (s \<lparr> ct_scans := ?S \<rparr>)" using w by (simp add: aside_def)
  then have i': "winv (s \<lparr> ct_scans := ?S \<rparr>)" using winv_aside assms by blast
  show ?thesis
  proof (cases "sd_closed ?b \<or> \<not> ready ?b t")
    case True
    then show ?thesis using Cons i' by (simp add: startScan_def Let_def)
  next
    case False
    then have "t \<in> set (sd_running ?S)" using w by simp
    then show ?thesis using Cons False winv_beginScan [OF i i', of t] by (simp add: startScan_def Let_def)
  qed
qed

lemma winv_resume:
  assumes "cinv s" "winv s"
  shows "winv (resumeScan e s)"
proof (cases "ct_scanRuns s e")
  case None
  then show ?thesis using assms by (simp add: resumeScan_def)
next
  case (Some r)
  have ends: "winv (endScan e b s)" for b using winv_steady [OF assms steady_endScan [OF assms(2)]] .
  show ?thesis
  proof (cases r)
    case (Discovering c p)
    obtain ps s1 where ps: "scheduleAll (found_tickets (ct_calls s c) (ct_active s)) s = (ps, s1)"
      by (cases "scheduleAll (found_tickets (ct_calls s c) (ct_active s)) s")
    have w1: "winv s1" using winv_aside [OF assms aside_all [OF assms(1) ps]] .
    have "ct_scanRuns s1 e = Some (Discovering c p)" using scheduleAll_ok [OF assms(1) ps] Some Discovering by simp
    then have "winv (s1 \<lparr> ct_scanRuns := (ct_scanRuns s1)(e \<mapsto> Waiting ps c) \<rparr>)"
      using winv_run [OF w1, of "Waiting ps c" c e] winv_parts(3) [OF w1, of e "Discovering c p" c] by (simp add: run_call_def)
    then show ?thesis using Some Discovering ends assms ps by (simp add: resumeScan_def)
  next
    case (Waiting ps c)
    then show ?thesis using Some ends assms winv_advance [OF assms Some, of c] by (simp add: resumeScan_def Let_def run_call_def)
  next
    case Broken
    then show ?thesis using Some ends by (simp add: resumeScan_def)
  qed
qed


lemma winv_life:
  assumes "cinv s" "winv s"
  shows "winv (endCleanup s)" "winv (snd (bootstrap d now s))" "winv (bootReply r s)" "winv (bootPrepared b s)" "winv (bootDone s)"
    "winv (snd (run s))" "winv (tick d x now s)" "winv (aborted s)"
proof -
  note ph = winv_parts(6) [OF assms(2), unfolded phase_ok_def]
  have st: "winv s'" if "steady s s'" for s' using winv_steady assms that by blast
  have stop: "winv (beginCleanup t s)" if "t \<in> {Failed, Stopped}" "ct_lifecycle s \<noteq> Created" for t
    using st steady_cleanup [OF assms(1)] that by blast
  have loop: "looping s \<Longrightarrow> ct_lifecycle s = Running \<and> \<not> starting s" by (simp add: looping_def starting_def)
  have l: "\<exists>es. ct_log s @ [CancelPass f] = ct_log s @ es \<and> (\<forall>x \<in> set es. \<not> advance x)" for f by (simp add: advance_def)
  show "winv (endCleanup s)"
  proof (cases "ct_ending s")
    case (Some t)
    have "steady s (logged (CancelPass (ct_flows s)) (s \<lparr> ct_lifecycle := t, ct_ending := None \<rparr>))"
      using Some ph l by (auto simp: steady_def logged_def starting_def phase_ok_def)
    then show ?thesis using Some assms st by (simp add: endCleanup_def)
  qed (use assms in \<open>simp add: endCleanup_def\<close>)
  show "winv (snd (bootstrap d now s))"
    by (rule st) (use ph in \<open>auto simp: bootstrap_def steady_def starting_def phase_ok_def\<close>)
  show "winv (snd (run s))"
    by (rule st) (use ph in \<open>auto simp: run_def steady_def starting_def phase_ok_def\<close>)
  show "winv (aborted s)" using assms stop loop by (simp add: aborted_def)
  show "winv (bootDone s)"
  proof (cases "ct_boot s")
    case (BootWait ps)
    have "steady s (s \<lparr> ct_lifecycle := Ready, ct_boot := NoBoot \<rparr>)" using ph BootWait by (auto simp: steady_def starting_def phase_ok_def)
    then show ?thesis using BootWait ph st stop assms by (simp add: bootDone_def)
  qed (use assms in \<open>simp_all add: bootDone_def\<close>)
  show "winv (bootPrepared b s)"
  proof (cases "ct_boot s")
    case (BootPrepare found)
    obtain ps s1 where ps: "scheduleAll (map snd found) s = (ps, s1)" by (cases "scheduleAll (map snd found) s")
    have a: "aside s s1" using aside_all [OF assms(1) ps] .
    have "steady s (s1 \<lparr> ct_boot := BootWait ps \<rparr>)" using aside_steady [OF assms(2) a] a BootPrepare ph
      by (auto simp: steady_def aside_def starting_def phase_ok_def)
    then show ?thesis using BootPrepare ps stop ph st by (simp add: bootPrepared_def)
  qed (use assms in \<open>simp_all add: bootPrepared_def\<close>)
  show "winv (bootReply r s)"
  proof (cases "\<exists>p n rest found t. ct_boot s = BootRead ((p, n) # rest) found t")
    case True
    then obtain p n rest found t where b: "ct_boot s = BootRead ((p, n) # rest) found t" by blast
    then have life: "ct_lifecycle s = Bootstrapping" using ph by simp
    have none: "ct_scanRuns s e = None" for e
      using winv_parts(5) [OF assms(2)] life running_live [OF sched_wf_inv [OF cinv_parts(3) [OF assms(1)]], of e] cinv_parts(8) [OF assms(1), of e]
      by (cases "ct_scanRuns s e") (auto simp: starting_def)
    have "winv (s \<lparr> ct_cursors := cu, ct_boot := bo \<rparr>)" if "bo \<noteq> NoBoot" for cu bo
      using assms(2) none life ph b that unfolding winv_def starting_def phase_ok_def by simp
    then show ?thesis using b stop life by (cases "bindR r (\<lambda>refs. addFound p n refs found)") (auto simp: bootReply_def)
  next
    case False
    then have "bootReply r s = s" by (auto simp: bootReply_def split: Boot.split list.split prod.split)
    then show ?thesis using assms by simp
  qed
  show "winv (tick d x now s)"
  proof (cases "looping s \<and> (\<exists>m i k. x = Inr (Some (m, i, k)))")
    case False
    then show ?thesis using assms stop loop winv_sweep by (auto simp: tick_def split: sum.split option.split)
  next
    case True
    then obtain m i k where x: "x = Inr (Some (m, i, k))" by blast
    let ?s1 = "s \<lparr> ct_interval := i * 1000 \<rparr>"
    have i1: "cinv ?s1" by (rule cinv_core [OF _ assms(1)]) (simp add: core_def)
    have w1: "winv ?s1" by (rule winv_aside [OF assms]) (simp add: aside_def)
    obtain r q where q: "setConcurrency k (ct_tickets ?s1) = (r, q)" by (cases "setConcurrency k (ct_tickets ?s1)")
    note w = concurrency_wf [OF cinv_parts(1) [OF i1] q]
    have i2: "cinv (?s1 \<lparr> ct_tickets := q \<rparr>)" by (rule cinv_tickets [OF i1, of q]) (use w in \<open>auto simp: settled_as_def\<close>)
    have w2: "winv (?s1 \<lparr> ct_tickets := q \<rparr>)" by (rule winv_aside [OF i1 w1]) (simp add: aside_def)
    have "winv (beginCleanup Stopped ?s1)"
      by (rule winv_steady [OF i1 w1 steady_cleanup [OF i1]]) (use True loop in simp_all)
    then show ?thesis using True x q w2 winv_sweep [OF i2 w2] loop by (cases r) (auto simp: tick_def Let_def starting_def)
  qed
qed

lemma winv_react: "cinv s \<Longrightarrow> winv s \<Longrightarrow> winv (react d x s)"
  using winv_aside aside_steps aside_onSettled aside_page by (cases x) (auto simp: winv_life winv_startScan winv_resume)

lemma controlled_ok: "createController d = Inr s \<Longrightarrow> cinv (controlled d es s) \<and> winv (controlled d es s)"
proof -
  have "cinv s \<Longrightarrow> winv s \<Longrightarrow> cinv (fold (react d) es s) \<and> winv (fold (react d) es s)" for s
    by (induction es arbitrary: s) (simp_all add: cinv_react winv_react)
  moreover assume c: "createController d = Inr s"
  then have "winv s" using cinv_created [OF c]
    by (auto simp: winv_def contiguous_def cursor_of_def starting_def phase_ok_def createController_def bindR_Inr_iff)
  ultimately show ?thesis using cinv_created [OF c] by (simp add: controlled_def)
qed


section \<open>The end\<close>

definition ended_ok :: "controller \<Rightarrow> bool" where
  "ended_ok s \<longleftrightarrow> (ct_ending s \<noteq> None \<longrightarrow> sd_closed (ct_tickets s))
     \<and> (ct_lifecycle s \<in> {Failed, Stopped} \<longrightarrow> sd_closed (ct_tickets s) \<and> sd_running (ct_tickets s) = [])"

text \<open>Steps that do not end a controller and run no more tickets.\<close>

definition calm :: "controller \<Rightarrow> controller \<Rightarrow> bool" where
  "calm s s' \<longleftrightarrow> ct_ending s' = ct_ending s \<and> (ct_lifecycle s' \<in> {Failed, Stopped} \<longrightarrow> ct_lifecycle s' = ct_lifecycle s)
     \<and> (sd_closed (ct_tickets s) \<longrightarrow> sd_closed (ct_tickets s') \<and> set (sd_running (ct_tickets s')) \<subseteq> set (sd_running (ct_tickets s)))"

lemma ended_calm: "ended_ok s \<Longrightarrow> calm s s' \<Longrightarrow> ended_ok s'"
  by (auto simp: ended_ok_def calm_def)

lemma calm_trans: "calm s1 s2 \<Longrightarrow> calm s2 s3 \<Longrightarrow> calm s1 s3"
  by (auto simp: calm_def)

lemma calm_same: "ct_ending s' = ct_ending s \<Longrightarrow> ct_lifecycle s' = ct_lifecycle s \<Longrightarrow> ct_tickets s' = ct_tickets s \<Longrightarrow> calm s s'"
  by (simp add: calm_def)

lemma calm_reports: "calm s (reports n s)"
proof -
  have r: "calm s (reportError s)" for s by (simp add: calm_def reportError_def Let_def)
  have "calm s ((reportError ^^ n) s)"
  proof (induction n)
    case (Suc n)
    then show ?case using calm_trans [OF Suc r] by simp
  qed (simp add: calm_def)
  then show ?thesis unfolding reports_def .
qed

lemma calm_schedule:
  assumes "cinv s" "scheduleTicket ref s = (r, s')"
  shows "calm s s'"
proof -
  obtain x q where q: "schedule ticket_value_key (ref, ct_objects s) (ct_tickets s) = (x, q)"
    by (cases "schedule ticket_value_key (ref, ct_objects s) (ct_tickets s)")
  note w = schedule_wf [OF cinv_parts(1) [OF assms(1)] q]
  have "ct_tickets s' = ct_tickets s \<or> ct_tickets s' = q" using assms(2) q by (auto simp: scheduleTicket_def Let_def split: sum.split_asm)
  moreover have "ct_lifecycle s' = ct_lifecycle s" using scheduleTicket_ok [OF assms] by simp
  ultimately show ?thesis using w scheduleTicket_ending [OF assms(2)] by (auto simp: calm_def)
qed

lemma calm_all:
  assumes "cinv s" "scheduleAll rs s = (ps, s')"
  shows "calm s s'"
  using assms
proof (induction rs arbitrary: s ps s')
  case (Cons r rs)
  obtain p s1 where p: "scheduleTicket r s = (p, s1)" by (cases "scheduleTicket r s")
  obtain qs s2 where qs: "scheduleAll rs s1 = (qs, s2)" by (cases "scheduleAll rs s1")
  have "cinv s1" using scheduleTicket_ok [OF Cons.prems(1) p] by simp
  then have "calm s1 s2" using Cons.IH qs by blast
  then show ?case using calm_trans [OF calm_schedule [OF Cons.prems(1) p]] Cons.prems(2) p qs by simp
qed (simp add: calm_def)

lemma calm_endScan: "calm s (endScan e b s)"
proof -
  let ?s1 = "s \<lparr> ct_scans := finish e b (ct_scans s), ct_scanRuns := (ct_scanRuns s)(e := None),
     ct_caughtScans := filter (\<lambda>q. q \<noteq> e) (ct_caughtScans s) \<rparr>"
  have "calm s ?s1" by (rule calm_same) simp_all
  then show ?thesis using calm_trans [OF _ calm_reports] by (simp add: endScan_def Let_def)
qed

lemma calm_steps:
  assumes "cinv s"
  shows "calm s (startTicket s)" "calm s (endTicket t r now s)" "calm s (ticketCallback p s)" "calm s (onSettled ref s)"
    "calm s (snd (reconcileNow d ref s))" "calm s (startCall s)" "calm s (pageReply t x s)" "calm s (startScan s)" "calm s (resumeScan e s)"
    "calm s (queueSweep d now s)"
proof -
  show "calm s (startTicket s)"
  proof (cases "sd_micro (ct_tickets s)")
    case (Cons u ms)
    then show ?thesis using start_wf [OF cinv_parts(1) [OF assms] Cons] by (auto simp: startTicket_def Let_def calm_def logged_def)
  qed (simp add: startTicket_def calm_def)
  have o: "calm s (applyOutcome ref obs x now s)" "calm s (removeObservation i obs s)" for ref obs x i
    by (simp_all add: calm_same applyOutcome_def removeObservation_def Let_def)
  have l: "calm s1 (logged (Finished t y) (s1 \<lparr> ct_tickets := finish t z (ct_tickets s1) \<rparr>))" for s1 y z
    using finish_frame [of t z "ct_tickets s1"] set_remove1_subset [of t "sd_running (ct_tickets s1)"] by (simp add: calm_def logged_def)
  show "calm s (endTicket t r now s)"
    by (cases r) (auto simp: endTicket_def Let_def calm_same split: prod.split intro: calm_trans [OF o(1) l] calm_trans [OF o(2) l])
  show "calm s (ticketCallback p s)"
  proof (cases "map_of (ct_accepted s) p")
    case (Some a)
    let ?s1 = "s \<lparr> ct_accepted := map_delete p (ct_accepted s), ct_caughtTickets := filter (\<lambda>q. q \<noteq> p) (ct_caughtTickets s) \<rparr>"
    have c: "calm s (removeObservation k o' ?s1)" "calm s ?s1" for k o' by (simp_all add: calm_same removeObservation_def)
    have "calm s (reports n (removeObservation k o' ?s1))" for n k o' using calm_trans [OF c(1) calm_reports] .
    then show ?thesis using Some c by (simp add: ticketCallback_def calm_same split: prod.split)
  qed (simp add: ticketCallback_def calm_same)
  obtain y s1 where y: "scheduleTicket ref s = (y, s1)" by (cases "scheduleTicket ref s")
  have c: "calm s s1" using calm_schedule [OF assms y] .
  have "calm s1 (s1 \<lparr> ct_caughtTickets := p # ct_caughtTickets s1 \<rparr>)" "calm s1 (reportError s1)" for p
    by (simp_all add: calm_same reportError_def Let_def)
  then show "calm s (onSettled ref s)" using y calm_trans [OF c] by (cases y) (auto simp: onSettled_def calm_same)
  show "calm s (snd (reconcileNow d ref s))" using y c by (cases y; cases "assertAllowedRef d ref") (auto simp: reconcileNow_def calm_same)
  show "calm s (startCall s)" by (cases "sd_micro (ct_scanCalls s)") (simp_all add: startCall_def calm_same)
  have e: "calm s1 (endCall t b s1)" for s1 b by (simp add: endCall_def calm_same)
  have "calm s s'" if "addPage c rs s = (b, s')" for c rs s b s'
    using that
  proof (induction rs arbitrary: s)
    case (Cons r rs)
    have "calm s (addListed c r s)" by (simp add: addListed_def logged_def calm_same)
    then show ?case using Cons calm_trans by (auto simp: calm_same split: if_split_asm)
  qed (simp add: calm_same)
  then show "calm s (pageReply t x s)"
    using e calm_trans by (fastforce simp: pageReply_def calm_same split: sum.split prod.split bool.split)
  have b: "calm s (beginScan u s)" for u s by (auto simp: beginScan_def Let_def calm_same split: option.split sum.split prod.split)
  have "calm s (beginScan u (s \<lparr> ct_scans := q \<rparr>))" "calm s (s \<lparr> ct_scans := q \<rparr>)" for u q
    using calm_trans [OF _ b, of s "s \<lparr> ct_scans := q \<rparr>" u] by (simp_all add: calm_same)
  then show "calm s (startScan s)" by (cases "sd_micro (ct_scans s)") (simp_all add: startScan_def Let_def calm_same)
  have q: "calm s (queueScan now r s)" for r s
    by (auto simp: queueScan_def calm_same reportError_def Let_def split: sum.split prod.split)
  have "calm s (fold (queueScan now) rs s)" for rs s by (induction rs arbitrary: s) (auto simp: calm_same intro: calm_trans [OF q])
  then show "calm s (queueSweep d now s)" by (simp add: queueSweep_def)
  show "calm s (resumeScan e s)"
  proof (cases "ct_scanRuns s e")
    case (Some r)
    show ?thesis
    proof (cases r)
      case (Discovering c p)
      obtain ps s2 where ps: "scheduleAll (found_tickets (ct_calls s c) (ct_active s)) s = (ps, s2)"
        by (cases "scheduleAll (found_tickets (ct_calls s c) (ct_active s)) s")
      have "calm s (s2 \<lparr> ct_scanRuns := z \<rparr>)" for z using calm_trans [OF calm_all [OF assms ps]] by (simp add: calm_same)
      then show ?thesis using Some Discovering ps calm_endScan by (simp add: resumeScan_def calm_same)
    next
      case (Waiting ps c)
      have "calm s (endScan e True (logged (Advanced k w n c) (s \<lparr> ct_cursors := z \<rparr>)))" for k w n z
        using calm_trans [OF _ calm_endScan] by (simp add: logged_def calm_same)
      then show ?thesis using Some Waiting calm_endScan by (simp add: resumeScan_def Let_def calm_same)
    qed (use Some calm_endScan in \<open>simp add: resumeScan_def\<close>)
  qed (simp add: resumeScan_def calm_same)
qed


lemma ended_cleanup:
  assumes "cinv s" "ct_lifecycle s \<notin> {Failed, Stopped}"
  shows "ended_ok (beginCleanup t s)"
  using close_wf [OF cinv_parts(1) [OF assms(1)]] assms(2) by (simp add: ended_ok_def beginCleanup_def logged_def)

lemma idle_none: "sched_inv q \<Longrightarrow> sd_closed q \<Longrightarrow> idle q \<Longrightarrow> sd_running q = []"
  by (auto simp: sched_inv_def idle_def)

lemma ended_life:
  assumes "cinv s" "winv s" "ended_ok s"
  shows "ended_ok (endCleanup s)" "ended_ok (snd (bootstrap d now s))" "ended_ok (bootReply r s)" "ended_ok (bootPrepared b s)"
    "ended_ok (bootDone s)" "ended_ok (snd (run s))" "ended_ok (tick d x now s)" "ended_ok (aborted s)"
proof -
  note ph = winv_parts(6) [OF assms(2), unfolded phase_ok_def]
  have c: "ended_ok s'" if "calm s s'" for s' using ended_calm assms(3) that by blast
  have stop: "ended_ok (beginCleanup t s)" if "ct_lifecycle s \<in> {Bootstrapping, Running}" for t
    using ended_cleanup [OF assms(1)] that by fastforce
  have loop: "looping s \<Longrightarrow> ct_lifecycle s = Running" by (simp add: looping_def)
  show "ended_ok (endCleanup s)"
  proof (cases "ct_ending s")
    case (Some t)
    then have cl: "sd_closed (ct_tickets s)" using assms(3) by (simp add: ended_ok_def)
    have "sd_running (ct_tickets s) = []" if "idle (ct_tickets s)"
      using idle_none [OF sched_wf_inv [OF cinv_parts(1) [OF assms(1)]] cl that] .
    then show ?thesis using Some cl assms(3) by (auto simp: endCleanup_def ended_ok_def logged_def)
  qed (use assms in \<open>simp add: endCleanup_def\<close>)
  show "ended_ok (snd (bootstrap d now s))" using assms(3) by (simp add: bootstrap_def ended_ok_def)
  show "ended_ok (snd (run s))" using assms(3) by (simp add: run_def ended_ok_def)
  show "ended_ok (aborted s)" using assms stop loop by (simp add: aborted_def)
  show "ended_ok (bootDone s)" using assms(3) ph stop by (auto simp: bootDone_def ended_ok_def split: Boot.split)
  show "ended_ok (bootPrepared b s)"
  proof (cases "ct_boot s")
    case (BootPrepare found)
    obtain ps s1 where ps: "scheduleAll (map snd found) s = (ps, s1)" by (cases "scheduleAll (map snd found) s")
    have "calm s (s1 \<lparr> ct_boot := BootWait ps \<rparr>)" using calm_trans [OF calm_all [OF assms(1) ps]] by (simp add: calm_same)
    then show ?thesis using BootPrepare ps stop ph c by (simp add: bootPrepared_def)
  qed (use assms in \<open>simp_all add: bootPrepared_def\<close>)
  show "ended_ok (bootReply r s)"
  proof (cases "\<exists>p n rest found t. ct_boot s = BootRead ((p, n) # rest) found t")
    case True
    then obtain p n rest found t where b: "ct_boot s = BootRead ((p, n) # rest) found t" by blast
    have "ended_ok (s \<lparr> ct_cursors := cu, ct_boot := bo \<rparr>)" for cu bo by (rule c) (simp add: calm_same)
    then show ?thesis using b stop ph by (cases "bindR r (\<lambda>refs. addFound p n refs found)") (auto simp: bootReply_def)
  next
    case False
    then have "bootReply r s = s" by (auto simp: bootReply_def split: Boot.split list.split prod.split)
    then show ?thesis using assms by simp
  qed
  show "ended_ok (tick d x now s)"
  proof (cases "looping s \<and> (\<exists>m i k. x = Inr (Some (m, i, k)))")
    case False
    then show ?thesis using assms stop loop c calm_steps(10) [OF assms(1)] by (auto simp: tick_def split: sum.split option.split)
  next
    case True
    then obtain m i k where x: "x = Inr (Some (m, i, k))" by blast
    let ?s1 = "s \<lparr> ct_interval := i * 1000 \<rparr>"
    have i1: "cinv ?s1" by (rule cinv_core [OF _ assms(1)]) (simp add: core_def)
    obtain r q where q: "setConcurrency k (ct_tickets ?s1) = (r, q)" by (cases "setConcurrency k (ct_tickets ?s1)")
    note w = concurrency_wf [OF cinv_parts(1) [OF i1] q]
    have i2: "cinv (?s1 \<lparr> ct_tickets := q \<rparr>)" by (rule cinv_tickets [OF i1, of q]) (use w in \<open>auto simp: settled_as_def\<close>)
    have e2: "ended_ok (?s1 \<lparr> ct_tickets := q \<rparr>)" by (rule c) (use w in \<open>auto simp: calm_def\<close>)
    have "ended_ok (beginCleanup Stopped ?s1)" by (rule ended_cleanup [OF i1]) (use True loop in simp)
    then show ?thesis using True x q e2 ended_calm [OF e2 calm_steps(10) [OF i2]] by (cases r) (auto simp: tick_def Let_def)
  qed
qed

lemma ended_react: "cinv s \<Longrightarrow> winv s \<Longrightarrow> ended_ok s \<Longrightarrow> ended_ok (react d x s)"
  using ended_calm calm_steps by (cases x) (auto simp: ended_life)

lemma controlled_all:
  assumes "createController d = Inr s"
  shows "cinv (controlled d es s) \<and> winv (controlled d es s) \<and> ended_ok (controlled d es s)"
proof -
  have "cinv s \<Longrightarrow> winv s \<Longrightarrow> ended_ok s \<Longrightarrow> cinv (fold (react d) es s) \<and> winv (fold (react d) es s) \<and> ended_ok (fold (react d) es s)" for s
    by (induction es arbitrary: s) (simp_all add: cinv_react winv_react ended_react)
  moreover have "winv s" using controlled_ok [OF assms, of "[]"] by (simp add: controlled_def)
  moreover have "ended_ok s" using assms by (auto simp: createController_def bindR_Inr_iff ok_def ended_ok_def)
  ultimately show ?thesis using cinv_created [OF assms] by (simp add: controlled_def)
qed

section \<open>Properties\<close>

text \<open>
  C36: No update is missed between two polls. Whenever the cursor of a repository moves, every ticket that its scan listed
  has since been reconciled: the reconciliation started after the ticket was listed and has succeeded. The scan listed the
  window that the call was given, and every window of a repository begins exactly where the one before ended.
\<close>

theorem windows_covered:
  assumes "createController d = Inr s" "ct_log (controlled d es s) = xs @ Advanced k w n c # ys"
  shows "(\<forall>i. Listed c i \<in> set xs \<longrightarrow>
       (\<exists>p as bs cs. xs = as @ Started p i # bs @ Finished p True # cs \<and> Listed c i \<in> set as))
    \<and> w = sk_window (ct_calls (controlled d es s) c) \<and> k = scan_key (sk_scan (ct_calls (controlled d es s) c))
    \<and> (\<forall>m. cursor_of xs k = Some m \<longrightarrow> w = m)"
proof -
  note i = controlled_all [OF assms(1), of es]
  have "covered (ct_log (controlled d es s))" using i by (simp add: cinv_def)
  then have "\<forall>i. Listed c i \<in> set xs \<longrightarrow> reconciled_since xs c i" using assms(2) unfolding covered_def by blast
  moreover have "\<forall>m. cursor_of xs k = Some m \<longrightarrow> w = m"
    using winv_parts(1) [OF conjunct1 [OF conjunct2 [OF i]]] assms(2) unfolding contiguous_def by blast
  moreover have "w = sk_window (ct_calls (controlled d es s) c)" "k = scan_key (sk_scan (ct_calls (controlled d es s) c))"
    using winv_parts(4) [OF conjunct1 [OF conjunct2 [OF i]], of k w n c] assms(2) by simp_all
  ultimately show ?thesis unfolding reconciled_since_def by blast
qed

text \<open>
  C37: A controller that stops starts nothing more: once the cleanup has begun, after a failed bootstrap, an error of the
  loop or a signal, no reconciliation starts, whatever promises and callbacks are still under way; and it reports itself
  stopped or failed only when no reconciliation is running.
\<close>

theorem controller_stops:
  assumes "createController d = Inr s"
  shows "(\<forall>xs ys p i. ct_log (controlled d es s) = xs @ Stopping # ys \<longrightarrow> Started p i \<notin> set ys)
    \<and> (ct_lifecycle (controlled d es s) \<in> {Failed, Stopped} \<longrightarrow> sd_running (ct_tickets (controlled d es s)) = [])"
  using controlled_all [OF assms, of es] by (simp add: cinv_def quiet_after_def ended_ok_def)

text \<open>One repository with one ticket: a sweep lists it, reconciles it, moves the cursor, and the controller stops.\<close>

definition poll_deps :: ControllerDeps where
  "poll_deps = \<lparr> cd_providers = [(Github, [''a/b''])], cd_concurrency = 1, cd_interval = 300 \<rparr>"

definition poll_ref :: TicketRef where "poll_ref = \<lparr> tr_provider = Github, tr_repository = ''a/b'', tr_number = 7 \<rparr>"

definition poll_outcome :: ReconcileOutcome where
  "poll_outcome = \<lparr> ro_flowInstanceId = Some ''f'', ro_stateId = Some ''plan'', ro_configRevision = None, ro_stateKind = None,
     ro_repositoryUrl = [], ro_ticketUrl = [], ro_actionUrl = [], ro_recoveryDisposition = None, ro_recoveryReason = None,
     ro_changed = False, ro_started = False, ro_runnable = True \<rparr>"

definition poll_events :: "ctl_event list" where
  "poll_events = [Bootstrap ''t0'', BootReply (Inr []), BootPrepared True, BootDone, Run, Tick (Inr None) ''t1'', ScanMicro, CallMicro,
     PageReply 0 (Inr ([poll_ref], None)), Resume 0, TicketMicro, TicketEnds 0 (Inr poll_outcome) ''t2'', Callback 0, Resume 0,
     Abort, Drained]"

definition poll_log :: "event_log list" where
  "poll_log = [Listed 0 (ticketKey poll_ref), Started 0 (ticketKey poll_ref), Finished 0 True, Advanced ''github:a/b'' ''t0'' ''t1'' 0,
     Stopping, CancelPass [''f''], CancelPass [''f'']]"


lemma poll_run:
  "\<exists>s. createController poll_deps = Inr s \<and> ct_log (controlled poll_deps poll_events s) = poll_log
     \<and> ct_lifecycle (controlled poll_deps poll_events s) = Stopped"
proof -
  have "(case createController poll_deps of Inl e \<Rightarrow> False | Inr s \<Rightarrow>
      ct_log (controlled poll_deps poll_events s) = poll_log \<and> ct_lifecycle (controlled poll_deps poll_events s) = Stopped)" by code_simp
  then show ?thesis by (cases "createController poll_deps") auto
qed

theorem windows_covered_witness:
  "\<exists>s xs ys as bs cs. createController poll_deps = Inr s
     \<and> ct_log (controlled poll_deps poll_events s) = xs @ Advanced ''github:a/b'' ''t0'' ''t1'' 0 # ys
     \<and> xs = as @ Started 0 (ticketKey poll_ref) # bs @ Finished 0 True # cs \<and> Listed 0 (ticketKey poll_ref) \<in> set as"
proof -
  obtain s where s: "createController poll_deps = Inr s" "ct_log (controlled poll_deps poll_events s) = poll_log" using poll_run by blast
  let ?xs = "[Listed 0 (ticketKey poll_ref), Started 0 (ticketKey poll_ref), Finished 0 True]"
  have l: "ct_log (controlled poll_deps poll_events s) = ?xs @ Advanced ''github:a/b'' ''t0'' ''t1'' 0 # [Stopping, CancelPass [''f''], CancelPass [''f'']]"
    using s(2) by (simp add: poll_log_def)
  obtain p as bs cs where r: "?xs = as @ Started p (ticketKey poll_ref) # bs @ Finished p True # cs" "Listed 0 (ticketKey poll_ref) \<in> set as"
    using windows_covered [OF s(1) l] by auto
  have "Finished p True \<in> set ?xs" unfolding r(1) by simp
  then have "p = 0" by simp
  then show ?thesis using s(1) l r by blast
qed

theorem controller_stops_witness:
  "\<exists>s. createController poll_deps = Inr s \<and> ct_lifecycle (controlled poll_deps poll_events s) = Stopped
     \<and> sd_running (ct_tickets (controlled poll_deps poll_events s)) = []"
  using poll_run controller_stops [of poll_deps _ poll_events] by auto

end
