(* ===== verification/Spec2Isabelle.thy ===== *)
theory Spec2Isabelle
  imports Semantic Scheduler TicketProps ReceiptProps PreparedProps AttemptProps HarnessProcess HttpClient ControllerProps
begin

text \<open>
  Agent Flow: a controller that moves the tickets of a GitHub or GitLab repository through a flow of stages. Every poll
  reads a ticket, reconstructs or loads its control state, applies the events that the evidence at the provider implies,
  and starts an attempt of an agent when a stage is due. The agent's decision is only a claim: what it claims is looked up
  at the provider before a receipt is written. Several controllers may watch one repository; each keeps its state in a
  local store (or in a comment of the ticket) and leaves markers in what it publishes, so that another one can tell whose
  work it sees. The development models the TypeScript sources under src/src.

  How the parts interact. The scheduler runs one reconciliation of a ticket at a time. A reconciliation (reconcile.ts)
  reads the ticket through the provider's adapter, classifies who owns the work (recovery.ts), follows the migrations to
  other configurations (migration.ts, migration-recovery.ts), reconstructs lost state from publications
  (recoveryIteration), derives an event (derive-event.ts), runs the compiled flow (flow/compile.ts), writes the control
  state by compare-and-swap (control-state.ts on local-store.ts), and hands an attempt to the attempt runner
  (attempt-runner.ts). The runner prepares a session directory (sessions.ts on filesystem.ts), renders the prompt
  (agent-protocol.ts), runs a harness process (harness/process.ts), reads the decision back (receipts.ts), publishes a
  prepared comment (prepared-publication.ts) and writes the result. All requests go through one rate-limited HTTP client
  (provider/http.ts, rate-limiter.ts).

  Conventions. An interface is a record, a union of literals a datatype, an optional field an option, a number an integer
  (a rational where fractions matter), a string a list of 8-bit code units, an object indexed by strings an association
  list or a map. An error is a value of the type err; a synchronous function returns a result (a sum of err and the
  value), an awaited operation is a function of the world that returns a result and the next world, so that the effects
  before a throw stay. Promises whose interleaving matters are state machines: the scheduler, the controller, the rate
  limiter, the attempt runner's starts, and the harness process. Definitions have the names of the code where Isabelle
  allows it; a function of the code that is long is cut at its statements into definitions that are composed in its order.

  The theories, by the files they model:
    Prelude, Js, Json, JsonRound: the language and library (results, the state-and-error monad with its named collections
      run_simps, run_iff, throws and still_intros, strings, Date.parse, JSON with its round trip).
    Types: config/types.ts, provider/types.ts, flow/types.ts.   Samples: concrete data for witnesses.
    Flow: flow/compile.ts (locale xstate, interpreted on an engine).   DeriveEvent: runtime/derive-event.ts.
    Semantic: config/load.ts, config/semantic.ts.   MigrationRules, MigrationSelect: config/migrations.ts.
    Publication: provider/publication.ts, provider/documentation.ts, runtime/bug-receipt.ts.
    LocalStore, ControlState (locale control_writer, interpreted on the writer of the local store), ControlComment,
      ProviderWriter: local-store.ts, control-state.ts, provider/control-comment.ts.
    Recovery, PublicationPath, RecoveryIteration, RecoveryProps: recovery.ts and the recovery functions of reconcile.ts.
    ReconcileBase, ReconcileControl, ReconcileLocal, ReconcileTicket, TicketProps: the rest of reconcile.ts.
    MigrationRequest, MigrationReceiptText, MigrationRecovery, MigrationProcess: migration-request.ts,
      provider/migration-receipt.ts, migration-recovery.ts, migration.ts.
    Scheduler, Controller, ControllerProps: scheduler.ts, controller.ts.
    Errors, AgentProtocol, Prompt, Receipts, ReceiptProps: errors.ts, agent-protocol.ts, receipts.ts.
    Filesystem, UsageRecords, Sessions, PreparedPublication, PreparedProps: filesystem.ts, usage-records.ts,
      usage-annotation.ts, sessions.ts, identity.ts, prepared-publication.ts.
    AttemptRunner, AttemptProps: attempt-runner.ts.   HarnessProcess: harness/process.ts, config/provider-credentials.ts.
    RateLimiter, HttpClient: rate-limiter.ts, provider/http.ts.

  What the lemmas show. Flow and events: the compiled machine makes exactly the transitions of the definition, and an event
  claims only what the evidence shows. Configuration: an accepted bundle is closed, and stays inside its pinned root.
  Markers: rendering and parsing are inverse, and quoted or fenced text never counts. Ownership and recovery: a controller
  takes over only on clear evidence, the reconstruction ends, and the stage it accepts is justified by publications and
  approvals. Control states: one gapless history, no lost update, with either writer. Reconciliation: attempts rest on
  evidence read in the same poll, green checks are required, foreign tickets without a migration command are left alone. Migrations: only complete
  chains of unedited receipts, published only when the source has stopped. Attempts: counted before they run, bounded,
  recorded with their receipt or error, posted at most once. Processes, requests and files: bounded in time, confined to
  the configured API, and written without following links.

  Bounds and fuel. json_parse runs with fuel 2 * length + 2, enough because each pair of calls consumes a character.
  The loops of recoveryIteration carry the length of the remaining publications as fuel; recovery_ends shows that the
  bound is never reached. Receipt chains are followed with the number of unlinked receipts. The loop of a series (attempts) has no fuel: it
  terminates because a round that goes on has consumed one attempt of the persisted budget, which the proof reads off the
  body of the round. A path is resolved
  through at most 40 links, as Linux does. A run of a process settles within its time-out and the phases of termination.

  Limits of the language model. Date.parse is modelled on RFC 3339 date-times, the only ones that providers and schemas
  give; the rate limiter has a clock that does not go back, and its property is about one configured rate; names of guards
  and actions outside the union of the code are no values, as the schema refuses them.

  Parameters, that is code that is not in the repository: SHA-256, the collation order of localeCompare, the
  JSON schemas (an accepting predicate, or a decoder of a document), YAML, URL parsing, HTTP dates, the xstate
  library, the provider's adapter, the network, the harness program, the clock and random identifiers. Hypotheses on them
  are documented behaviour, and each property with hypotheses has a witness on concrete functions. The file system is
  modelled with a list of faults: any call may fail, and a failing write may leave the beginning of its text.

  Not modelled: see the components of the manifest. The adapters for GitHub and GitLab (provider/github.ts,
  provider/gitlab.ts) translate the replies of two HTTP APIs into the records that the development reads; they are
  parameters here. The transcripts of the harnesses (harness/claude.ts, codex.ts, usage.ts, ccusage.ts), the agent package
  manager (apm.ts), git workspaces (workspaces.ts), the dashboard with its pages (dashboard.ts, ui), the materialization of a pinned
  revision with git (config/repository.ts), the reload of the configuration (config/runtime.ts), and the wiring of the
  process (main.ts, preflight.ts, health.ts, redaction.ts) are input and output around the core.
\<close>

end
